(* ===== verification/Prelude.thy ===== *)
theory Prelude
  imports Main "HOL-Library.Word"
begin

text \<open>
  The shared ground of the development: Rust's \<open>Result\<close> as a sum type with the error on
  the left, checked arithmetic on fixed-width unsigned integers, Rust's \<open>str\<close> as its UTF-8
  bytes (a \<open>string\<close>, one \<open>char\<close> per byte) with the code points it is made of, the ASCII
  classes of \<open>u8\<close>, and list lemmas that the component theories use.  \<open>usize\<close> is a
  \<open>nat\<close> below \<open>2 ^ 64\<close>: the workspace is built for 64-bit targets.
\<close>

named_theorems result_simps \<open>equations that unfold the Result combinators\<close>
named_theorems checked_simps \<open>characterisations of checked machine arithmetic\<close>

section \<open>Result\<close>

text \<open>Rust's \<open>?\<close> operator and \<open>Result::and_then\<close>.\<close>

definition and_then :: "'e + 'a \<Rightarrow> ('a \<Rightarrow> 'e + 'b) \<Rightarrow> 'e + 'b" where
  "and_then r f = (case r of Inl e \<Rightarrow> Inl e | Inr x \<Rightarrow> f x)"

definition map_err :: "('e \<Rightarrow> 'f) \<Rightarrow> 'e + 'a \<Rightarrow> 'f + 'a" where
  "map_err f r = (case r of Inl e \<Rightarrow> Inl (f e) | Inr x \<Rightarrow> Inr x)"

definition ok_or :: "'a option \<Rightarrow> 'e \<Rightarrow> 'e + 'a" where
  "ok_or v e = (case v of None \<Rightarrow> Inl e | Some x \<Rightarrow> Inr x)"

definition is_ok :: "'e + 'a \<Rightarrow> bool" where
  "is_ok r = (case r of Inl _ \<Rightarrow> False | Inr _ \<Rightarrow> True)"

fun try_collect :: "('a \<Rightarrow> 'e + 'b) \<Rightarrow> 'a list \<Rightarrow> 'e + 'b list" where
  "try_collect f [] = Inr []"
| "try_collect f (x # xs) =
     and_then (f x) (\<lambda>y. and_then (try_collect f xs) (\<lambda>ys. Inr (y # ys)))"

lemma and_then_Inl [simp]: "and_then (Inl e) f = Inl e"
  by (simp add: and_then_def)

lemma and_then_Inr [simp]: "and_then (Inr x) f = f x"
  by (simp add: and_then_def)

lemma and_then_eq_Inr [result_simps]:
  "and_then r f = Inr y \<longleftrightarrow> (\<exists>x. r = Inr x \<and> f x = Inr y)"
  by (cases r) simp_all

lemma and_then_eq_Inl [result_simps]:
  "and_then r f = Inl e \<longleftrightarrow> r = Inl e \<or> (\<exists>x. r = Inr x \<and> f x = Inl e)"
  by (cases r) simp_all

lemma and_then_cong [fundef_cong]:
  "r = r' \<Longrightarrow> (\<And>x. r' = Inr x \<Longrightarrow> f x = g x) \<Longrightarrow> and_then r f = and_then r' g"
  by (cases r') simp_all

lemma map_err_eq_Inr [result_simps]: "map_err f r = Inr x \<longleftrightarrow> r = Inr x"
  by (cases r) (simp_all add: map_err_def)

lemma map_err_eq_Inl [result_simps]: "map_err f r = Inl e \<longleftrightarrow> (\<exists>d. r = Inl d \<and> e = f d)"
  by (cases r) (auto simp: map_err_def)

lemma ok_or_eq_Inr [result_simps]: "ok_or v e = Inr x \<longleftrightarrow> v = Some x"
  by (cases v) (simp_all add: ok_or_def)

lemma ok_or_eq_Inl [result_simps]: "ok_or v e = Inl d \<longleftrightarrow> v = None \<and> d = e"
  by (cases v) (auto simp: ok_or_def)

lemma ok_or_simps [simp]: "ok_or None e = Inl e" "ok_or (Some x) e = Inr x"
  by (simp_all add: ok_or_def)

lemma is_ok_simps [simp]: "\<not> is_ok (Inl e)" "is_ok (Inr x)"
  by (simp_all add: is_ok_def)

lemma is_ok_iff: "is_ok r \<longleftrightarrow> (\<exists>x. r = Inr x)"
  by (cases r) simp_all

lemma try_collect_Inr:
  "try_collect f xs = Inr ys \<Longrightarrow> length ys = length xs \<and> (\<forall>i < length xs. f (xs ! i) = Inr (ys ! i))"
proof (induction xs arbitrary: ys)
  case Nil
  then show ?case by simp
next
  case (Cons x xs)
  then obtain y zs where ys: "ys = y # zs" and y: "f x = Inr y"
    and zs: "try_collect f xs = Inr zs"
    by (auto simp: and_then_eq_Inr)
  from Cons.IH [OF zs] y ys show ?case
    by (auto simp: nth_Cons split: nat.split)
qed

text \<open>
  A predicate of the success value of a result, with introduction rules that follow the structure of
  the code: loops that return a result are shown to keep an invariant by computation induction and
  these rules.
\<close>

named_theorems sat_intros \<open>introduction rules for result_sat\<close>

definition result_sat :: "('a \<Rightarrow> bool) \<Rightarrow> 'e + 'a \<Rightarrow> bool" where
  "result_sat P r \<longleftrightarrow> (\<forall>x. r = Inr x \<longrightarrow> P x)"

lemma result_satD: "result_sat P r \<Longrightarrow> r = Inr x \<Longrightarrow> P x"
  by (simp add: result_sat_def)

lemma result_sat_Inl [simp, sat_intros]: "result_sat P (Inl e)"
  by (simp add: result_sat_def)

lemma result_sat_Inr [simp]: "result_sat P (Inr x) \<longleftrightarrow> P x"
  by (simp add: result_sat_def)

lemma result_sat_if [sat_intros]:
  "(c \<Longrightarrow> result_sat P a) \<Longrightarrow> (\<not> c \<Longrightarrow> result_sat P b) \<Longrightarrow> result_sat P (if c then a else b)"
  by simp

lemma result_sat_and_then [sat_intros]:
  "(\<And>x. r = Inr x \<Longrightarrow> result_sat P (f x)) \<Longrightarrow> result_sat P (and_then r f)"
  by (cases r) simp_all

text \<open>The same for the error value.\<close>

named_theorems fails_intros \<open>introduction rules for fails_with\<close>

definition fails_with :: "('e \<Rightarrow> bool) \<Rightarrow> 'e + 'a \<Rightarrow> bool" where
  "fails_with P r \<longleftrightarrow> (\<forall>e. r = Inl e \<longrightarrow> P e)"

lemma fails_withD: "fails_with P r \<Longrightarrow> r = Inl e \<Longrightarrow> P e"
  by (simp add: fails_with_def)

lemma fails_with_Inr [simp, fails_intros]: "fails_with P (Inr x)"
  by (simp add: fails_with_def)

lemma fails_with_Inl [simp]: "fails_with P (Inl e) \<longleftrightarrow> P e"
  by (simp add: fails_with_def)

lemma fails_with_if [fails_intros]:
  "(c \<Longrightarrow> fails_with P a) \<Longrightarrow> (\<not> c \<Longrightarrow> fails_with P b) \<Longrightarrow> fails_with P (if c then a else b)"
  by simp

lemma fails_with_and_then [fails_intros]:
  "fails_with P r \<Longrightarrow> (\<And>x. r = Inr x \<Longrightarrow> fails_with P (f x)) \<Longrightarrow> fails_with P (and_then r f)"
  by (cases r) simp_all

lemma fails_with_ok_or [fails_intros]: "P e \<Longrightarrow> fails_with P (ok_or v e)"
  by (cases v) simp_all

lemma fails_with_prod [fails_intros]:
  "(\<And>a b. v = (a, b) \<Longrightarrow> fails_with P (f a b)) \<Longrightarrow> fails_with P (case v of (a, b) \<Rightarrow> f a b)"
  by (cases v) simp

section \<open>Checked arithmetic\<close>

type_synonym u8 = "8 word"
type_synonym u16 = "16 word"
type_synonym u32 = "32 word"
type_synonym u64 = "64 word"

definition checked_add :: "'a::len word \<Rightarrow> 'a word \<Rightarrow> 'a word option" where
  "checked_add a b = (if unat a + unat b < 2 ^ LENGTH('a) then Some (a + b) else None)"

definition checked_sub :: "'a::len word \<Rightarrow> 'a word \<Rightarrow> 'a word option" where
  "checked_sub a b = (if b \<le> a then Some (a - b) else None)"

definition checked_mul :: "'a::len word \<Rightarrow> 'a word \<Rightarrow> 'a word option" where
  "checked_mul a b = (if unat a * unat b < 2 ^ LENGTH('a) then Some (a * b) else None)"

definition saturating_add :: "'a::len word \<Rightarrow> 'a word \<Rightarrow> 'a word" where
  "saturating_add a b = (if unat a + unat b < 2 ^ LENGTH('a) then a + b else - 1)"

definition usize_max :: nat where
  "usize_max = 2 ^ 64 - 1"

definition checked_add_usize :: "nat \<Rightarrow> nat \<Rightarrow> nat option" where
  "checked_add_usize a b = (if a + b \<le> usize_max then Some (a + b) else None)"

lemma checked_add_Some [checked_simps]:
  "checked_add a b = Some c \<longleftrightarrow>
     unat a + unat b < 2 ^ LENGTH('a) \<and> c = a + (b :: 'a::len word)"
  by (auto simp: checked_add_def)

lemma checked_add_None [checked_simps]:
  "checked_add a b = None \<longleftrightarrow> 2 ^ LENGTH('a) \<le> unat a + unat (b :: 'a::len word)"
  by (auto simp: checked_add_def)

lemma checked_add_unat: "checked_add a b = Some c \<Longrightarrow> unat c = unat a + unat b"
  for a b c :: "'a::len word"
  by (simp add: checked_add_Some unat_word_ariths)

lemma checked_add_iff: "checked_add a b = Some c \<longleftrightarrow> unat c = unat a + unat b"
  for a b c :: "'a::len word"
proof
  assume "unat c = unat a + unat b"
  moreover from this have "unat a + unat b < 2 ^ LENGTH('a)"
    using unsigned_less [of c, where ?'a = nat] by simp
  ultimately show "checked_add a b = Some c"
    by (simp add: checked_add_def unat_word_ariths word_unat_eq_iff)
qed (rule checked_add_unat)

lemma checked_add_exceeds:
  "(case checked_add a b of None \<Rightarrow> True | Some s \<Rightarrow> s > m) \<longleftrightarrow> unat m < unat a + unat b"
  for a b m :: "'a::len word"
proof (cases "checked_add a b")
  case None
  then have "2 ^ LENGTH('a) \<le> unat a + unat b" by (simp add: checked_add_None)
  moreover have "unat m < 2 ^ LENGTH('a)" by (rule unsigned_less)
  ultimately have "unat m < unat a + unat b" by linarith
  with None show ?thesis by simp
next
  case (Some s)
  then have "unat s = unat a + unat b" by (rule checked_add_unat)
  with Some show ?thesis by (simp add: word_less_nat_alt)
qed

lemma checked_sub_Some [checked_simps]:
  "checked_sub a b = Some c \<longleftrightarrow> b \<le> a \<and> c = a - b"
  by (auto simp: checked_sub_def)

lemma checked_sub_None [checked_simps]: "checked_sub a b = None \<longleftrightarrow> a < b"
  by (auto simp: checked_sub_def)

lemma checked_sub_unat: "checked_sub a b = Some c \<Longrightarrow> unat c + unat b = unat a"
  by (simp add: checked_sub_Some unat_sub word_le_nat_alt)

lemma checked_mul_unat: "checked_mul a b = Some c \<Longrightarrow> unat c = unat a * unat b"
  by (auto simp: checked_mul_def unat_word_ariths split: if_splits)

lemma saturating_add_unat:
  "unat (saturating_add a b) = min (unat a + unat b) (2 ^ LENGTH('a) - 1)"
  for a b :: "'a::len word"
  by (auto simp: saturating_add_def unat_word_ariths unsigned_minus_1_eq_mask mask_eq_exp_minus_1
      min_def)

lemma unat_lt_width: "unat (a :: 'a::len word) < 2 ^ LENGTH('a)"
  by (rule unsigned_less)

section \<open>Text as UTF-8 bytes\<close>

abbreviation byte_of :: "char \<Rightarrow> nat" where
  "byte_of c \<equiv> of_char c"

definition is_ascii_whitespace :: "char \<Rightarrow> bool" where
  "is_ascii_whitespace c \<longleftrightarrow> byte_of c \<in> {9, 10, 12, 13, 32}"

definition is_ascii_control :: "char \<Rightarrow> bool" where
  "is_ascii_control c \<longleftrightarrow> byte_of c < 32 \<or> byte_of c = 127"

definition is_ascii_digit :: "char \<Rightarrow> bool" where
  "is_ascii_digit c \<longleftrightarrow> 48 \<le> byte_of c \<and> byte_of c \<le> 57"

definition is_ascii_lowercase :: "char \<Rightarrow> bool" where
  "is_ascii_lowercase c \<longleftrightarrow> 97 \<le> byte_of c \<and> byte_of c \<le> 122"

definition is_ascii_alphabetic :: "char \<Rightarrow> bool" where
  "is_ascii_alphabetic c \<longleftrightarrow>
     (65 \<le> byte_of c \<and> byte_of c \<le> 90) \<or> (97 \<le> byte_of c \<and> byte_of c \<le> 122)"

definition is_ascii_alphanumeric :: "char \<Rightarrow> bool" where
  "is_ascii_alphanumeric c \<longleftrightarrow> is_ascii_alphabetic c \<or> is_ascii_digit c"

definition ascii_upper :: "char \<Rightarrow> char" where
  "ascii_upper c = (if is_ascii_lowercase c then char_of (byte_of c - 32) else c)"

definition to_ascii_uppercase :: "string \<Rightarrow> string" where
  "to_ascii_uppercase s = map ascii_upper s"

text \<open>
  A continuation byte of UTF-8 is \<open>0x80 .. 0xBF\<close>.  The code points of a \<open>str\<close> are its
  bytes grouped from one non-continuation byte to the next.
\<close>

definition is_cont :: "char \<Rightarrow> bool" where
  "is_cont c \<longleftrightarrow> 128 \<le> byte_of c \<and> byte_of c < 192"

declare length_dropWhile_le [termination_simp]

fun chars :: "string \<Rightarrow> string list" where
  "chars [] = []"
| "chars (c # cs) = (c # takeWhile is_cont cs) # chars (dropWhile is_cont cs)"

definition char_count :: "string \<Rightarrow> nat" where
  "char_count s = length (chars s)"

definition take_chars :: "nat \<Rightarrow> string \<Rightarrow> string" where
  "take_chars n s = concat (take n (chars s))"

text \<open>Rust's \<open>char::is_control\<close> is the Unicode class Cc: U+0000..U+001F and U+007F..U+009F.\<close>

definition is_control :: "string \<Rightarrow> bool" where
  "is_control g \<longleftrightarrow>
     (case g of
        [c] \<Rightarrow> is_ascii_control c
      | [a, b] \<Rightarrow> byte_of a = 194 \<and> 128 \<le> byte_of b \<and> byte_of b \<le> 159
      | _ \<Rightarrow> False)"

lemma concat_chars [simp]: "concat (chars s) = s"
  by (induction s rule: chars.induct) simp_all

lemma chars_eq_Nil [simp]: "chars s = [] \<longleftrightarrow> s = []"
  by (cases s) simp_all

lemma char_count_eq_0 [simp]: "char_count s = 0 \<longleftrightarrow> s = []"
  by (simp add: char_count_def)

lemma char_count_le_length: "char_count s \<le> length s"
proof (induction s rule: chars.induct)
  case 1
  then show ?case by (simp add: char_count_def)
next
  case (2 c cs)
  have "length (dropWhile is_cont cs) \<le> length cs" by (rule length_dropWhile_le)
  with 2 show ?case by (simp add: char_count_def)
qed

lemma takeWhile_prefix_append:
  "ys = [] \<or> \<not> p (hd ys) \<Longrightarrow> takeWhile p (takeWhile p xs @ ys) = takeWhile p xs"
proof (induction xs)
  case Nil
  then show ?case by (cases ys) simp_all
next
  case (Cons x xs)
  then show ?case by (cases ys) (auto dest: set_takeWhileD)
qed

lemma dropWhile_prefix_append:
  "ys = [] \<or> \<not> p (hd ys) \<Longrightarrow> dropWhile p (takeWhile p xs @ ys) = ys"
proof (induction xs)
  case Nil
  then show ?case by (cases ys) simp_all
next
  case (Cons x xs)
  then show ?case by (cases ys) (auto dest: set_takeWhileD)
qed

lemma chars_concat_take: "chars (concat (take n (chars s))) = take n (chars s)"
proof (induction s arbitrary: n rule: chars.induct)
  case 1
  then show ?case by simp
next
  case (2 c cs)
  show ?case
  proof (cases n)
    case 0
    then show ?thesis by simp
  next
    case (Suc m)
    define rest where "rest = concat (take m (chars (dropWhile is_cont cs)))"
    have hd_rest: "rest = [] \<or> \<not> is_cont (hd rest)"
    proof (cases "dropWhile is_cont cs")
      case Nil
      show ?thesis unfolding rest_def Nil by simp
    next
      case (Cons d ds)
      then have "\<not> is_cont d" by (metis hd_dropWhile list.distinct(1) list.sel(1))
      with Cons show ?thesis by (cases m) (simp_all add: rest_def)
    qed
    have "takeWhile is_cont (takeWhile is_cont cs @ rest) = takeWhile is_cont cs"
      and "dropWhile is_cont (takeWhile is_cont cs @ rest) = rest"
      using hd_rest by (simp_all add: takeWhile_prefix_append dropWhile_prefix_append)
    with Suc 2 [of m] show ?thesis by (simp add: rest_def)
  qed
qed

lemma char_count_take_chars: "char_count (take_chars n s) = min n (char_count s)"
  by (simp add: char_count_def take_chars_def chars_concat_take min.commute)

lemma take_chars_all: "char_count s \<le> n \<Longrightarrow> take_chars n s = s"
  by (simp add: take_chars_def char_count_def)

lemma take_chars_eq_Nil [simp]: "take_chars n s = [] \<longleftrightarrow> n = 0 \<or> s = []"
  by (metis char_count_take_chars char_count_eq_0 min_def le_zero_eq nat_le_linear take_0
      take_chars_def concat.simps(1))

section \<open>Lists\<close>

text \<open>\<open>starts_with\<close> and the search for the first match, as on Rust slices.\<close>

fun starts_with :: "'a list \<Rightarrow> 'a list \<Rightarrow> bool" where
  "starts_with xs [] = True"
| "starts_with [] (y # ys) = False"
| "starts_with (x # xs) (y # ys) = (x = y \<and> starts_with xs ys)"

lemma starts_with_iff: "starts_with xs ys \<longleftrightarrow> (\<exists>zs. xs = ys @ zs)"
  by (induction xs ys rule: starts_with.induct) auto

fun find_position :: "('a \<Rightarrow> bool) \<Rightarrow> 'a list \<Rightarrow> nat option" where
  "find_position p [] = None"
| "find_position p (x # xs) = (if p x then Some 0 else map_option Suc (find_position p xs))"

lemma find_position_Some:
  "find_position p xs = Some i \<Longrightarrow> i < length xs \<and> p (xs ! i) \<and> (\<forall>j < i. \<not> p (xs ! j))"
proof (induction xs arbitrary: i)
  case Nil
  then show ?case by simp
next
  case (Cons x xs)
  then show ?case
    by (cases i) (auto split: if_splits simp: nth_Cons split: nat.splits)
qed

lemma find_position_None: "find_position p xs = None \<longleftrightarrow> (\<forall>x \<in> set xs. \<not> p x)"
  by (induction xs) auto

text \<open>\<open>any\<close> with \<open>!seen.insert(x)\<close>: some element repeats an earlier one.\<close>

fun has_repeat :: "'a set \<Rightarrow> 'a list \<Rightarrow> bool" where
  "has_repeat seen [] = False"
| "has_repeat seen (x # xs) = (x \<in> seen \<or> has_repeat (insert x seen) xs)"

lemma has_repeat_iff: "has_repeat seen xs \<longleftrightarrow> \<not> (distinct xs \<and> set xs \<inter> seen = {})"
  by (induction xs arbitrary: seen) auto

section \<open>Decimal rendering\<close>

text \<open>The decimal digits \<open>format!\<close> writes for an unsigned integer.\<close>

fun show_nat :: "nat \<Rightarrow> string" where
  "show_nat n = (if n < 10 then [char_of (48 + n)] else show_nat (n div 10) @ [char_of (48 + n mod 10)])"

declare show_nat.simps [simp del]

definition read_nat :: "string \<Rightarrow> nat" where
  "read_nat s = foldl (\<lambda>acc c. 10 * acc + (byte_of c - 48)) 0 s"

lemma byte_of_digit: "n < 10 \<Longrightarrow> byte_of (char_of (48 + n)) = 48 + n"
  by (simp add: of_char_of)

lemma read_show_nat: "read_nat (show_nat n) = n"
proof (induction n rule: show_nat.induct)
  case (1 n)
  show ?case
  proof (cases "n < 10")
    case True
    then show ?thesis by (simp add: show_nat.simps [of n] read_nat_def byte_of_digit)
  next
    case False
    have "byte_of (char_of (48 + n mod 10)) = 48 + n mod 10" by (rule byte_of_digit) simp
    with 1 [OF False] False show ?thesis
      by (simp add: show_nat.simps [of n] read_nat_def)
  qed
qed

lemma show_nat_inject [simp]: "show_nat m = show_nat n \<longleftrightarrow> m = n"
  by (metis read_show_nat)

text \<open>The same for a signed integer.\<close>

definition show_int :: "int \<Rightarrow> string" where
  "show_int i = (if i < 0 then CHR ''-'' # show_nat (nat (- i)) else show_nat (nat i))"

end
