(* ===== verification/Error_Model.thy ===== *)
theory Error_Model
  imports Prelude
begin

text \<open>
  The public error envelope of \<open>plenora-database-core/src/error.rs\<close>: the error axes
  (category, phase, remote effect, retry disposition), the constructors, the rules that move the
  axes after an interrupted or unproven send, and the public projection.  The data of a row
  diagnostics document (\<open>row_diagnostics.rs\<close>) is declared here because an error carries one;
  its validation is in \<open>Row_Diagnostics\<close>.  Constructors of Rust enums that clash carry a prefix:
  \<open>Ph\<close> for phases, \<open>Eff\<close> for remote effects, \<open>Ws\<close> for write states, \<open>Dc\<close> for
  completeness, \<open>Ks\<close> for key states.
\<close>

named_theorems error_simps \<open>field equations of the error constructors and axis rules\<close>

section \<open>Data\<close>

datatype provider_kind =
  Postgres | Mysql | Mariadb | Sqlserver | Oracle | Db2 | Sqlite | Duckdb

datatype error_category =
    InvalidPlan | InvalidConfiguration | Schema | DataMapping | Crs | Unsupported | NotFound
  | Conflict | ConcurrentModification | Authentication | Authorization | Timeout | Cancelled
  | ResourceLimit | Io | Protocol | Transient | Execution | Internal

datatype error_phase =
    PhValidate | PhConnect | PhProbe | PhPrepare | PhRead | PhWrite | PhFinalize | PhCommit
  | PhRollback | PhCleanup

datatype remote_effect = EffNone | EffRolledBack | EffPartial | EffCommitted | EffUnknown

datatype retry_disposition =
  Never | Quarantine | Safe | RequiresIdempotencyKey | RequiresRecovery | After u64

datatype diagnostic_scope = ScopeRead | ScopeWrite

datatype completeness = DcComplete | DcPartial | DcUnknown

datatype key_state = KsValue | KsRedacted | KsUnavailable

text \<open>The integer of a key is an \<open>i64\<close>: a 64-bit word read with \<open>sint\<close>.\<close>

datatype key_value = KvText string | KvInteger "64 word" | KvBoolean bool

record row_key =
  rk_field :: string
  rk_state :: key_state
  rk_value :: "key_value option"

datatype write_state =
  WsCertainlyRejected | WsCertainlyNotAttempted | WsCertainlyRolledBack | WsEffectUnknown

record row_example =
  ex_source_index :: u64
  ex_cause :: string
  ex_column :: "string option"
  ex_key :: "row_key option"
  ex_write_state :: "write_state option"

record diagnostic_state_counts =
  sc_certainly_rejected :: u64
  sc_certainly_not_attempted :: u64
  sc_certainly_rolled_back :: u64
  sc_effect_unknown :: u64

datatype partition_count = Known u64 | UnknownCount

record write_outcome_partition =
  wp_certainly_rejected :: partition_count
  wp_certainly_not_attempted :: partition_count
  wp_certainly_rolled_back :: partition_count
  wp_effect_unknown :: partition_count

text \<open>\<open>counts\<close> is a \<open>BTreeMap\<close>: its entries in key order, one per key.\<close>

record row_diagnostics =
  rd_contract :: string
  rd_scope :: diagnostic_scope
  rd_index_basis :: string
  rd_completeness :: completeness
  rd_knowledge_limits :: "string list"
  rd_observed_total :: u64
  rd_total :: "u64 option"
  rd_input_total :: "u64 option"
  rd_counts :: "(string \<times> u64) list"
  rd_examples_limit :: u32
  rd_examples_truncated :: bool
  rd_examples :: "row_example list"
  rd_diagnostic_state_counts :: "diagnostic_state_counts option"
  rd_write_outcome :: "write_outcome_partition option"

record database_error =
  e_category :: error_category
  e_phase :: error_phase
  e_remote_effect :: remote_effect
  e_retry :: retry_disposition
  e_provider :: "provider_kind option"
  e_execution_id :: "string option"
  e_message :: string
  e_diagnostics :: "row_diagnostics option"

type_synonym 'a result = "database_error + 'a"

record public_database_error =
  p_category :: error_category
  p_phase :: error_phase
  p_remote_effect :: remote_effect
  p_retry :: retry_disposition
  p_provider :: "provider_kind option"
  p_execution_id :: "string option"
  p_message :: string
  p_details :: "row_diagnostics option"

definition PUBLIC_MESSAGE_MAX_CHARS :: nat where
  "PUBLIC_MESSAGE_MAX_CHARS = 2048"

definition PUBLIC_RETRY_DELAY_MAX_MS :: u64 where
  "PUBLIC_RETRY_DELAY_MAX_MS = 86400000"

section \<open>Constructors\<close>

definition error_new :: "error_category \<Rightarrow> error_phase \<Rightarrow> provider_kind option \<Rightarrow> string \<Rightarrow> database_error" where
  "error_new category phase provider message =
     \<lparr>e_category = category, e_phase = phase, e_remote_effect = EffNone, e_retry = Never,
      e_provider = provider, e_execution_id = None, e_message = message, e_diagnostics = None\<rparr>"

definition invalid_plan :: "string \<Rightarrow> database_error" where
  "invalid_plan message = error_new InvalidPlan PhValidate None message"

definition unsupported :: "provider_kind \<Rightarrow> error_phase \<Rightarrow> string \<Rightarrow> database_error" where
  "unsupported provider phase message = error_new Unsupported phase (Some provider) message"

definition cancelled :: "provider_kind option \<Rightarrow> error_phase \<Rightarrow> string \<Rightarrow> database_error" where
  "cancelled provider phase message = error_new Cancelled phase provider message"

definition resource_limit :: "string \<Rightarrow> database_error" where
  "resource_limit message = error_new ResourceLimit PhValidate None message"

definition arrow_error :: database_error where
  "arrow_error = error_new DataMapping PhRead None ''schema Arrow non valido''"

text \<open>
  The cause a cancellation token reports (\<open>cancellation.rs\<close>) and the category it becomes.  The
  token is read once, so the two functions take the reason it reported.
\<close>

datatype cancellation_reason = Requested | Deadline | Parent

definition interruption_category :: "cancellation_reason option \<Rightarrow> error_category" where
  "interruption_category reason = (if reason = Some Deadline then Timeout else Cancelled)"

definition interrupted :: "cancellation_reason option \<Rightarrow> provider_kind option \<Rightarrow> error_phase \<Rightarrow> string \<Rightarrow> database_error" where
  "interrupted reason provider phase message =
     (cancelled provider phase message)\<lparr>e_category := interruption_category reason\<rparr>"

section \<open>The axis rules\<close>

definition after_unconfirmed_rollback :: "database_error \<Rightarrow> database_error" where
  "after_unconfirmed_rollback e =
     (let e1 = e\<lparr>e_phase := PhRollback, e_remote_effect := EffUnknown\<rparr>
      in if e_retry e1 \<noteq> Quarantine then e1\<lparr>e_retry := RequiresRecovery\<rparr> else e1)"

definition after_interrupted_send :: "database_error \<Rightarrow> database_error" where
  "after_interrupted_send e =
     (case e_phase e of
        PhRollback \<Rightarrow> after_unconfirmed_rollback e
      | PhWrite \<Rightarrow> e\<lparr>e_remote_effect := EffUnknown,
                     e_retry := (if e_retry e = Quarantine then Quarantine else RequiresRecovery)\<rparr>
      | PhCommit \<Rightarrow> e\<lparr>e_remote_effect := EffUnknown,
                     e_retry := (if e_retry e = Quarantine then Quarantine else RequiresRecovery)\<rparr>
      | _ \<Rightarrow> e)"

definition after_unproven_send :: "database_error \<Rightarrow> database_error" where
  "after_unproven_send e =
     (if e_remote_effect e \<noteq> EffNone then e
      else e\<lparr>e_remote_effect := EffUnknown,
             e_retry := (if e_retry e = Quarantine then Quarantine else RequiresRecovery)\<rparr>)"

definition is_retryable :: "database_error \<Rightarrow> bool" where
  "is_retryable e = (case e_retry e of Safe \<Rightarrow> True | After _ \<Rightarrow> True | _ \<Rightarrow> False)"

definition requires_manual_recovery :: "database_error \<Rightarrow> bool" where
  "requires_manual_recovery e =
     (case e_retry e of RequiresRecovery \<Rightarrow> True | RequiresIdempotencyKey \<Rightarrow> True | _ \<Rightarrow> False)"

section \<open>The public projection\<close>

definition bounded_message :: "string \<Rightarrow> string" where
  "bounded_message message =
     (let bounded = take_chars PUBLIC_MESSAGE_MAX_CHARS message
      in if bounded = [] then ''errore database'' else bounded)"

definition public_retry :: "remote_effect \<Rightarrow> retry_disposition \<Rightarrow> retry_disposition" where
  "public_retry eff retry =
     (case (eff, retry) of
        (EffUnknown, Safe) \<Rightarrow> RequiresRecovery
      | (EffUnknown, After _) \<Rightarrow> RequiresRecovery
      | (EffUnknown, RequiresIdempotencyKey) \<Rightarrow> RequiresRecovery
      | (_, After delay) \<Rightarrow> if delay > PUBLIC_RETRY_DELAY_MAX_MS then Never else After delay
      | (_, r) \<Rightarrow> r)"

definition public_projection :: "database_error \<Rightarrow> public_database_error" where
  "public_projection e =
     \<lparr>p_category = e_category e, p_phase = e_phase e, p_remote_effect = e_remote_effect e,
      p_retry = public_retry (e_remote_effect e) (e_retry e), p_provider = e_provider e,
      p_execution_id = e_execution_id e, p_message = bounded_message (e_message e),
      p_details = e_diagnostics e\<rparr>"

section \<open>Lemmas\<close>

lemma error_new_fields [simp, error_simps]:
  "e_category (error_new c p pr m) = c"
  "e_phase (error_new c p pr m) = p"
  "e_remote_effect (error_new c p pr m) = EffNone"
  "e_retry (error_new c p pr m) = Never"
  "e_provider (error_new c p pr m) = pr"
  "e_execution_id (error_new c p pr m) = None"
  "e_message (error_new c p pr m) = m"
  "e_diagnostics (error_new c p pr m) = None"
  by (simp_all add: error_new_def)

text \<open>An error raised before any send: no remote effect, no automatic retry, no document.\<close>

definition local_error :: "database_error \<Rightarrow> bool" where
  "local_error e \<longleftrightarrow> e_remote_effect e = EffNone \<and> e_retry e = Never \<and> e_diagnostics e = None"

lemma local_error_new [simp, intro]: "local_error (error_new c p pr m)"
  by (simp add: local_error_def)

lemma local_error_constructors [simp, intro]:
  "local_error (invalid_plan m)" "local_error (unsupported k p m)"
  "local_error (cancelled pr p m)" "local_error (resource_limit m)" "local_error arrow_error"
  by (simp_all add: invalid_plan_def unsupported_def cancelled_def resource_limit_def arrow_error_def)

lemma local_error_interrupted [simp, intro]: "local_error (interrupted r pr p m)"
  by (simp add: interrupted_def cancelled_def local_error_def)

lemma invalid_plan_inject [simp]: "invalid_plan m = invalid_plan m' \<longleftrightarrow> m = m'"
  by (simp add: invalid_plan_def error_new_def)

lemma constructor_categories [simp, error_simps]:
  "e_category (invalid_plan m) = InvalidPlan"
  "e_category (unsupported k p m) = Unsupported"
  "e_category (cancelled pr p m) = Cancelled"
  "e_category (resource_limit m) = ResourceLimit"
  "e_category (interrupted r pr p m) = interruption_category r"
  by (simp_all add: invalid_plan_def unsupported_def cancelled_def resource_limit_def interrupted_def)

lemma constructor_phases [simp, error_simps]:
  "e_phase (invalid_plan m) = PhValidate"
  "e_phase (unsupported k p m) = p"
  "e_phase (cancelled pr p m) = p"
  "e_phase (resource_limit m) = PhValidate"
  "e_phase (interrupted r pr p m) = p"
  by (simp_all add: invalid_plan_def unsupported_def cancelled_def resource_limit_def interrupted_def)

text \<open>
  The contract every axis rule keeps.  A rule either leaves an error as it is or makes its effect
  unknown, and then no automatic retry is left; who failed and why is never rewritten, and a
  quarantine already decided stays.
\<close>

definition uncertain_axes :: "database_error \<Rightarrow> bool" where
  "uncertain_axes e \<longleftrightarrow>
     e_remote_effect e = EffUnknown \<and> (e_retry e = RequiresRecovery \<or> e_retry e = Quarantine)"

definition coherent_axes :: "database_error \<Rightarrow> bool" where
  "coherent_axes e \<longleftrightarrow> (e_remote_effect e = EffUnknown \<longrightarrow> uncertain_axes e)"

locale axis_rule =
  fixes rule :: "database_error \<Rightarrow> database_error"
  assumes unchanged_or_uncertain: "rule e = e \<or> uncertain_axes (rule e)"
    and keeps_identity:
      "e_category (rule e) = e_category e" "e_provider (rule e) = e_provider e"
      "e_execution_id (rule e) = e_execution_id e" "e_message (rule e) = e_message e"
      "e_diagnostics (rule e) = e_diagnostics e"
    and keeps_quarantine: "e_retry e = Quarantine \<Longrightarrow> e_retry (rule e) = Quarantine"
begin

lemma retryable_unchanged: "is_retryable (rule e) \<Longrightarrow> rule e = e"
  using unchanged_or_uncertain [of e]
  by (auto simp: uncertain_axes_def is_retryable_def)

lemma coherent: "coherent_axes e \<Longrightarrow> coherent_axes (rule e)"
  using unchanged_or_uncertain [of e] by (auto simp: coherent_axes_def uncertain_axes_def)

lemma uncertain_stays: "uncertain_axes e \<Longrightarrow> uncertain_axes (rule e)"
  using unchanged_or_uncertain [of e] by auto

lemma projection_not_retryable:
  "rule e \<noteq> e \<Longrightarrow> p_retry (public_projection (rule e)) \<in> {RequiresRecovery, Quarantine}"
  using unchanged_or_uncertain [of e]
  by (auto simp: uncertain_axes_def public_projection_def public_retry_def)

end

text \<open>Two rules applied one after the other are again a rule.\<close>

locale axis_rule_chain = first: axis_rule rule1 + second: axis_rule rule2
  for rule1 :: "database_error \<Rightarrow> database_error" and rule2 :: "database_error \<Rightarrow> database_error"

sublocale axis_rule_chain \<subseteq> chained: axis_rule "\<lambda>e. rule2 (rule1 e)"
proof unfold_locales
  fix e
  show "rule2 (rule1 e) = e \<or> uncertain_axes (rule2 (rule1 e))"
    using first.unchanged_or_uncertain [of e] second.unchanged_or_uncertain [of "rule1 e"]
    by auto
  show "e_retry e = Quarantine \<Longrightarrow> e_retry (rule2 (rule1 e)) = Quarantine"
    by (simp add: first.keeps_quarantine second.keeps_quarantine)
qed (simp_all add: first.keeps_identity second.keeps_identity)

interpretation unconfirmed: axis_rule after_unconfirmed_rollback
  by unfold_locales (simp_all add: after_unconfirmed_rollback_def uncertain_axes_def Let_def)

interpretation interrupted_send: axis_rule after_interrupted_send
  by unfold_locales
    (auto simp: after_interrupted_send_def after_unconfirmed_rollback_def uncertain_axes_def Let_def
      split: error_phase.split)

interpretation unproven: axis_rule after_unproven_send
  by unfold_locales (auto simp: after_unproven_send_def uncertain_axes_def)

text \<open>A driver interruption that leaves through the caller-SQL wrapper.\<close>

interpretation interrupted_then_unproven: axis_rule_chain after_interrupted_send after_unproven_send
  by unfold_locales

lemma after_unproven_send_effect: "e_remote_effect (after_unproven_send e) \<noteq> EffNone"
  by (simp add: after_unproven_send_def)

lemma after_unproven_send_idem: "after_unproven_send (after_unproven_send e) = after_unproven_send e"
  by (simp add: after_unproven_send_def)

lemma bounded_message_count:
  "1 \<le> char_count (bounded_message m) \<and> char_count (bounded_message m) \<le> PUBLIC_MESSAGE_MAX_CHARS"
proof (cases "m = []")
  case True
  have "char_count ''errore database'' = 15"
    by (simp add: char_count_def is_cont_def)
  with True show ?thesis
    by (simp add: bounded_message_def take_chars_def PUBLIC_MESSAGE_MAX_CHARS_def)
next
  case False
  then have "0 < char_count m" using char_count_eq_0 by (metis neq0_conv)
  with False show ?thesis
    by (simp add: bounded_message_def char_count_take_chars PUBLIC_MESSAGE_MAX_CHARS_def Let_def)
qed

lemma public_retry_unknown: "public_retry EffUnknown r \<in> {Never, Quarantine, RequiresRecovery}"
  by (cases r) (simp_all add: public_retry_def)

lemma public_retry_delay:
  "public_retry eff r = After d \<Longrightarrow> d \<le> PUBLIC_RETRY_DELAY_MAX_MS \<and> r = After d"
  by (cases r; cases eff) (auto simp: public_retry_def split: if_splits)

section \<open>Validators\<close>

text \<open>
  The contract between a validator and the code that calls it before any send: it decides a
  predicate of its argument, and what it refuses is a local error (no remote effect, no retry).
  The rules of \<open>refusal_intros\<close> follow the structure of the validators' code.
\<close>

named_theorems refusal_intros \<open>introduction rules for refuses_locally\<close>

definition refuses_locally :: "'a result \<Rightarrow> bool" where
  "refuses_locally r \<longleftrightarrow> (\<forall>e. r = Inl e \<longrightarrow> local_error e)"

lemma refuses_locally_Inr [refusal_intros]: "refuses_locally (Inr x)"
  by (simp add: refuses_locally_def)

lemma refuses_locally_Inl [refusal_intros]: "local_error e \<Longrightarrow> refuses_locally (Inl e)"
  by (simp add: refuses_locally_def)

lemma refuses_locally_if [refusal_intros]:
  "(c \<Longrightarrow> refuses_locally a) \<Longrightarrow> (\<not> c \<Longrightarrow> refuses_locally b) \<Longrightarrow> refuses_locally (if c then a else b)"
  by simp

lemma refuses_locally_and_then [refusal_intros]:
  "refuses_locally r \<Longrightarrow> (\<And>x. r = Inr x \<Longrightarrow> refuses_locally (f x)) \<Longrightarrow> refuses_locally (and_then r f)"
  by (cases r) (auto simp: refuses_locally_def)

lemma refuses_locally_ok_or [refusal_intros]: "local_error e \<Longrightarrow> refuses_locally (ok_or v e)"
  by (cases v) (auto simp: refuses_locally_def)

lemma refuses_locally_option [refusal_intros]:
  "(v = None \<Longrightarrow> refuses_locally a) \<Longrightarrow> (\<And>x. v = Some x \<Longrightarrow> refuses_locally (f x)) \<Longrightarrow>
   refuses_locally (case v of None \<Rightarrow> a | Some x \<Rightarrow> f x)"
  by (cases v) auto

lemma refuses_locally_prod [refusal_intros]:
  "(\<And>a b. v = (a, b) \<Longrightarrow> refuses_locally (f a b)) \<Longrightarrow> refuses_locally (case v of (a, b) \<Rightarrow> f a b)"
  by (cases v) auto

locale validator =
  fixes validate :: "'a \<Rightarrow> unit result" and valid :: "'a \<Rightarrow> bool"
  assumes decides: "validate x = Inr () \<longleftrightarrow> valid x"
    and refusal: "refuses_locally (validate x)"
begin

lemma guard_ok: "valid x \<Longrightarrow> and_then (validate x) f = f ()"
  using decides [of x] by simp

lemma guard_Inr: "and_then (validate x) f = Inr y \<longleftrightarrow> valid x \<and> f () = Inr y"
  using decides [of x] by (cases "validate x") auto

lemma guard_refused: "\<not> valid x \<Longrightarrow> \<exists>e. and_then (validate x) f = Inl e \<and> local_error e"
  using decides [of x] refusal [of x] by (cases "validate x") (auto simp: refuses_locally_def)

lemma is_ok_valid: "is_ok (validate x) \<longleftrightarrow> valid x"
  using decides [of x] by (cases "validate x") auto

end

section \<open>Properties\<close>

text \<open>What leaves the library in public form is bounded and never optimistic: the message has
  between one and 2048 characters; while the remote effect is unknown no disposition lets a caller
  retry by itself, also with an idempotency key; a published delay is at most a day; category, phase,
  effect and document are those of the error.\<close>

lemma public_projection_contract:
  "char_count (p_message (public_projection e)) \<in> {1 .. PUBLIC_MESSAGE_MAX_CHARS}
   \<and> p_retry (public_projection e) \<in>
       (if e_remote_effect e = EffUnknown then {Never, Quarantine, RequiresRecovery}
        else {Never, Quarantine, Safe, RequiresIdempotencyKey, RequiresRecovery}
             \<union> After ` {.. PUBLIC_RETRY_DELAY_MAX_MS})
   \<and> p_category (public_projection e) = e_category e \<and> p_phase (public_projection e) = e_phase e
   \<and> p_remote_effect (public_projection e) = e_remote_effect e
   \<and> p_details (public_projection e) = e_diagnostics e"
proof -
  have "public_retry eff r \<in>
       (if eff = EffUnknown then {Never, Quarantine, RequiresRecovery}
        else {Never, Quarantine, Safe, RequiresIdempotencyKey, RequiresRecovery}
             \<union> After ` {.. PUBLIC_RETRY_DELAY_MAX_MS})" for eff r
    using public_retry_unknown [of r] by (cases r; cases eff) (auto simp: public_retry_def)
  with bounded_message_count [of "e_message e"] show ?thesis
    by (simp add: public_projection_def)
qed

text \<open>C23: each of the three axis rules, and the composition the caller-SQL wrapper applies to a driver
  interruption, either leaves an error untouched or makes its effect unknown with recovery (or the
  quarantine already decided) as its only disposition; none of them rewrites who failed and why,
  lifts a quarantine, or turns a non-retryable error into a retryable one; and after an unproven send
  no error claims that nothing happened remotely.\<close>

theorem axis_rules_contract:
  assumes "rule \<in> {after_unconfirmed_rollback, after_interrupted_send, after_unproven_send,
                   \<lambda>e. after_unproven_send (after_interrupted_send e)}"
  shows "(rule e = e \<or> uncertain_axes (rule e))
    \<and> e_category (rule e) = e_category e \<and> e_message (rule e) = e_message e
    \<and> e_provider (rule e) = e_provider e \<and> e_diagnostics (rule e) = e_diagnostics e
    \<and> (e_retry e = Quarantine \<longrightarrow> e_retry (rule e) = Quarantine)
    \<and> (is_retryable (rule e) \<longrightarrow> rule e = e)
    \<and> (coherent_axes e \<longrightarrow> coherent_axes (rule e))
    \<and> e_remote_effect (after_unproven_send (rule e)) \<noteq> EffNone"
proof -
  have r: "axis_rule rule"
    using assms unconfirmed.axis_rule_axioms interrupted_send.axis_rule_axioms
      unproven.axis_rule_axioms interrupted_then_unproven.chained.axis_rule_axioms
    by auto
  show ?thesis
    using axis_rule.unchanged_or_uncertain [OF r, of e] axis_rule.keeps_identity [OF r, of e]
      axis_rule.keeps_quarantine [OF r, of e] axis_rule.retryable_unchanged [OF r, of e]
      axis_rule.coherent [OF r, of e] after_unproven_send_effect [of "rule e"]
    by blast
qed

theorem axis_rules_contract_witness:
  "let e = (error_new Io PhWrite None ''x'')\<lparr>e_retry := Safe\<rparr>
   in after_interrupted_send e \<noteq> e \<and> uncertain_axes (after_interrupted_send e)
      \<and> e_category (after_interrupted_send e) = Io"
proof -
  let ?e = "(error_new Io PhWrite None ''x'')\<lparr>e_retry := Safe\<rparr>"
  have changed: "after_interrupted_send ?e \<noteq> ?e"
    by (simp add: after_interrupted_send_def error_new_def)
  have "(after_interrupted_send ?e = ?e \<or> uncertain_axes (after_interrupted_send ?e))
      \<and> e_category (after_interrupted_send ?e) = e_category ?e"
    using axis_rules_contract [of after_interrupted_send ?e] by blast
  with changed show ?thesis by (simp add: Let_def)
qed

end
