(* ===== verification/Row_Diagnostics.thy ===== *)
theory Row_Diagnostics
  imports Error_Model
begin

text \<open>
  \<open>plenora-database-core/src/row_diagnostics.rs\<close>: the row-scoped diagnostics document
  \<open>plenora-row-diagnostics-v1\<close>, its validator, the write and read trackers that build documents,
  and the row-by-row diagnostic write.  The writer trait \<open>RowScopedWriter\<close> is implemented by
  drivers; here it is a record of functions on a writer state.
\<close>

section \<open>Constants\<close>

definition CONTRACT :: string where
  "CONTRACT = ''plenora-row-diagnostics-v1''"

definition INDEX_BASIS :: string where
  "INDEX_BASIS = ''source_row_zero_based''"

definition DEFAULT_EXAMPLES_LIMIT :: u32 where
  "DEFAULT_EXAMPLES_LIMIT = 10"

definition CAUSE_CONSTRAINT_VIOLATION :: string where
  "CAUSE_CONSTRAINT_VIOLATION = ''database.constraint_violation''"

definition CAUSE_VALUE_NOT_REPRESENTABLE :: string where
  "CAUSE_VALUE_NOT_REPRESENTABLE = ''conversion.value_not_representable''"

definition LIMIT_SCAN_STOPPED_AT_FIRST_DEFECT :: string where
  "LIMIT_SCAN_STOPPED_AT_FIRST_DEFECT = ''read.scan_stopped_at_first_defect''"

definition LIMIT_BATCHES_ALREADY_PUBLISHED :: string where
  "LIMIT_BATCHES_ALREADY_PUBLISHED = ''read.batches_already_published''"

definition LIMIT_ROW_ATTRIBUTION_UNAVAILABLE :: string where
  "LIMIT_ROW_ATTRIBUTION_UNAVAILABLE = ''read.row_attribution_unavailable''"

definition checked_source_row_end :: "u64 \<Rightarrow> u64 \<Rightarrow> u64 option" where
  "checked_source_row_end batch_start rows = checked_add batch_start rows"

definition MAX_EXACT_INTEGER :: int where
  "MAX_EXACT_INTEGER = 9007199254740991"

definition MAX_IDENTIFIER_BYTES :: nat where
  "MAX_IDENTIFIER_BYTES = 128"

definition MAX_FIELD_CHARS :: nat where
  "MAX_FIELD_CHARS = 256"

definition MAX_KEY_TEXT_CHARS :: nat where
  "MAX_KEY_TEXT_CHARS = 1024"

text \<open>The letters \<open>e\<close> and \<open>o\<close> with a grave accent, in UTF-8.\<close>

definition e_grave :: string where
  "e_grave = [CHR 0xC3, CHR 0xA8]"

definition o_grave :: string where
  "o_grave = [CHR 0xC3, CHR 0xB2]"

section \<open>Fields and identifiers\<close>

definition invalid :: "string \<Rightarrow> database_error" where
  "invalid message = invalid_plan message"

text \<open>The scan of the bytes after the first one; \<open>after_separator\<close> is the loop's flag.\<close>

fun identifier_tail :: "bool \<Rightarrow> string \<Rightarrow> bool" where
  "identifier_tail after_separator [] = (\<not> after_separator)"
| "identifier_tail after_separator (b # bs) =
     (if is_ascii_lowercase b \<or> is_ascii_digit b then identifier_tail False bs
      else if b \<in> {CHR ''.'', CHR ''_'', CHR ''-''} \<and> \<not> after_separator then identifier_tail True bs
      else False)"

definition is_contract_identifier :: "string \<Rightarrow> bool" where
  "is_contract_identifier value =
     (case value of
        [] \<Rightarrow> False
      | b # bs \<Rightarrow>
          if length value > MAX_IDENTIFIER_BYTES \<or> \<not> is_ascii_lowercase b then False
          else identifier_tail False bs)"

definition validate_optional_field :: "string option \<Rightarrow> string \<Rightarrow> unit result" where
  "validate_optional_field value what =
     (case value of
        None \<Rightarrow> Inr ()
      | Some v \<Rightarrow>
          if v \<noteq> [] \<and> char_count v \<le> MAX_FIELD_CHARS then Inr ()
          else Inl (invalid (if what = ''colonna''
                             then ''colonna di un esempio fuori dai limiti del contratto''
                             else ''campo chiave fuori dai limiti del contratto'')))"

definition validate_key_value :: "key_value \<Rightarrow> unit result" where
  "validate_key_value value =
     (let representable =
        (case value of
           KvText text \<Rightarrow> char_count text \<le> MAX_KEY_TEXT_CHARS
         | KvInteger number \<Rightarrow> - MAX_EXACT_INTEGER \<le> sint number \<and> sint number \<le> MAX_EXACT_INTEGER
         | KvBoolean _ \<Rightarrow> True)
      in if representable then Inr ()
         else Inl (invalid ''valore di chiave fuori dai limiti del contratto''))"

definition validate_key :: "row_key option \<Rightarrow> unit result" where
  "validate_key key =
     (case key of
        None \<Rightarrow> Inr ()
      | Some k \<Rightarrow>
          and_then (validate_optional_field (Some (rk_field k)) ''chiave'') (\<lambda>_.
            case (rk_state k, rk_value k) of
              (KsValue, Some v) \<Rightarrow> validate_key_value v
            | (KsValue, None) \<Rightarrow> Inl (invalid ''chiave dichiarata in chiaro senza valore'')
            | (_, None) \<Rightarrow> Inr ()
            | (_, Some _) \<Rightarrow>
                Inl (invalid ''una chiave redatta o non disponibile non trasporta valore'')))"

definition redacted :: "string \<Rightarrow> row_key" where
  "redacted field = \<lparr>rk_field = field, rk_state = KsRedacted, rk_value = None\<rparr>"

section \<open>Counts and partitions\<close>

definition checked_sum :: "diagnostic_state_counts \<Rightarrow> u64 option" where
  "checked_sum c =
     Option.bind (checked_add (sc_certainly_rejected c) (sc_certainly_not_attempted c)) (\<lambda>a.
     Option.bind (checked_add a (sc_certainly_rolled_back c)) (\<lambda>b.
     checked_add b (sc_effect_unknown c)))"

fun state_count :: "diagnostic_state_counts \<Rightarrow> write_state \<Rightarrow> u64" where
  "state_count c WsCertainlyRejected = sc_certainly_rejected c"
| "state_count c WsCertainlyNotAttempted = sc_certainly_not_attempted c"
| "state_count c WsCertainlyRolledBack = sc_certainly_rolled_back c"
| "state_count c WsEffectUnknown = sc_effect_unknown c"

fun known :: "partition_count \<Rightarrow> u64 option" where
  "known (Known v) = Some v"
| "known UnknownCount = None"

fun bucket :: "write_outcome_partition \<Rightarrow> write_state \<Rightarrow> partition_count" where
  "bucket p WsCertainlyRejected = wp_certainly_rejected p"
| "bucket p WsCertainlyNotAttempted = wp_certainly_not_attempted p"
| "bucket p WsCertainlyRolledBack = wp_certainly_rolled_back p"
| "bucket p WsEffectUnknown = wp_effect_unknown p"

definition WRITE_STATES :: "write_state list" where
  "WRITE_STATES =
     [WsCertainlyRejected, WsCertainlyNotAttempted, WsCertainlyRolledBack, WsEffectUnknown]"

section \<open>Validation\<close>

fun validate_limits :: "string set \<Rightarrow> string list \<Rightarrow> unit result" where
  "validate_limits seen [] = Inr ()"
| "validate_limits seen (l # ls) =
     (if \<not> is_contract_identifier l \<or> l \<in> seen
      then Inl (invalid ''limite di conoscenza non valido o ripetuto'')
      else validate_limits (insert l seen) ls)"

definition validate_total :: "row_diagnostics \<Rightarrow> unit result" where
  "validate_total d =
     (case rd_total d of
        Some declared \<Rightarrow>
          if declared = 0 \<or> declared < rd_observed_total d
          then Inl (invalid ''total row diagnostics incoerente con observed_total'') else Inr ()
      | None \<Rightarrow> Inr ())"

definition validate_completeness :: "row_diagnostics \<Rightarrow> unit result" where
  "validate_completeness d =
     and_then
       (case rd_completeness d of
          DcComplete \<Rightarrow>
            if rd_knowledge_limits d \<noteq> []
            then Inl (invalid ''un documento completo non dichiara limiti di conoscenza'')
            else if rd_total d \<noteq> Some (rd_observed_total d)
            then Inl (invalid ''un documento completo deve dichiarare total pari a observed_total'')
            else Inr ()
        | _ \<Rightarrow>
            if rd_knowledge_limits d = []
            then Inl (invalid ''un documento non completo deve dichiarare i limiti di conoscenza'')
            else and_then (validate_limits {} (rd_knowledge_limits d)) (\<lambda>_.
              if rd_completeness d = DcUnknown \<and> rd_total d \<noteq> None
              then Inl (invalid (''un totale non '' @ e_grave
                     @ '' dichiarabile quando la completezza '' @ e_grave @ '' ignota''))
              else Inr ()))
       (\<lambda>_. validate_total d)"

fun sum_causes :: "u64 \<Rightarrow> (string \<times> u64) list \<Rightarrow> u64 result" where
  "sum_causes acc [] = Inr acc"
| "sum_causes acc ((cause, count) # rest) =
     (if \<not> is_contract_identifier cause then Inl (invalid ''causa row diagnostics non valida'')
      else if count = 0
      then Inl (invalid (''una causa osservata non pu'' @ o_grave @ '' contare zero righe''))
      else and_then (ok_or (checked_add acc count)
             (invalid ''overflow nella somma delle cause osservate'')) (\<lambda>s. sum_causes s rest))"

definition validate_counts :: "row_diagnostics \<Rightarrow> unit result" where
  "validate_counts d =
     and_then (sum_causes 0 (rd_counts d)) (\<lambda>acc.
       if acc \<noteq> rd_observed_total d
       then Inl (invalid ''la somma delle cause non corrisponde a observed_total'') else Inr ())"

text \<open>
  The loop over the examples: \<open>indices\<close> is the set of source indices seen, \<open>per_cause\<close> the
  number of examples already met for each cause.
\<close>

definition validate_example :: "row_diagnostics \<Rightarrow> u64 set \<Rightarrow> row_example \<Rightarrow> unit result" where
  "validate_example d indices ex =
     (if ex_source_index ex \<in> indices then Inl (invalid ''indice sorgente ripetuto fra gli esempi'')
      else if ex_cause ex \<notin> fst ` set (rd_counts d)
      then Inl (invalid ''causa di un esempio assente dai conteggi'')
      else and_then (validate_optional_field (ex_column ex) ''colonna'') (\<lambda>_.
        and_then (validate_key (ex_key ex)) (\<lambda>_.
          case (rd_scope d, ex_write_state ex) of
            (ScopeWrite, Some _) \<Rightarrow> Inr ()
          | (ScopeRead, None) \<Rightarrow> Inr ()
          | (ScopeWrite, None) \<Rightarrow>
              Inl (invalid ''un esempio di scrittura deve dichiarare write_state'')
          | (ScopeRead, Some _) \<Rightarrow>
              Inl (invalid ''un esempio di lettura non dichiara write_state''))))"

fun scan_examples :: "row_diagnostics \<Rightarrow> u64 set \<Rightarrow> (string \<Rightarrow> u64) \<Rightarrow> row_example list
    \<Rightarrow> (string \<Rightarrow> u64) result" where
  "scan_examples d indices per_cause [] = Inr per_cause"
| "scan_examples d indices per_cause (ex # rest) =
     and_then (validate_example d indices ex) (\<lambda>_.
       and_then (ok_or (checked_add (per_cause (ex_cause ex)) 1)
           (invalid ''overflow nel conteggio degli esempi per causa'')) (\<lambda>n.
         scan_examples d (insert (ex_source_index ex) indices)
           (per_cause(ex_cause ex := n)) rest))"

definition validate_examples :: "row_diagnostics \<Rightarrow> unit result" where
  "validate_examples d =
     (if rd_examples_limit d = 0 then Inl (invalid ''il limite di esempi deve essere almeno uno'')
      else if length (rd_examples d) \<ge> 2 ^ 64
      then Inl (invalid ''numero di esempi non rappresentabile'')
      else
        let limit = (ucast (rd_examples_limit d) :: u64);
            published = (of_nat (length (rd_examples d)) :: u64)
        in if published > limit \<or> published > rd_observed_total d
           then Inl (invalid ''gli esempi superano il limite o le righe osservate'')
           else if rd_completeness d = DcComplete \<and> published \<noteq> min (rd_observed_total d) limit
           then Inl (invalid ''un documento completo deve pubblicare tutti gli esempi ammessi dal limite'')
           else if rd_examples_truncated d \<noteq> (rd_observed_total d > published \<and> published = limit)
           then Inl (invalid (''examples_truncated '' @ e_grave
                  @ '' vero soltanto quando il limite omette righe osservate''))
           else and_then (scan_examples d {} (\<lambda>_. 0) (rd_examples d)) (\<lambda>per_cause.
             if \<exists>ex \<in> set (rd_examples d).
                  (case map_of (rd_counts d) (ex_cause ex) of
                     None \<Rightarrow> True
                   | Some all_rows \<Rightarrow> per_cause (ex_cause ex) > all_rows)
             then Inl (invalid ''gli esempi superano il conteggio della causa'') else Inr ()))"

fun count_states :: "(write_state \<Rightarrow> u64) \<Rightarrow> row_example list \<Rightarrow> (write_state \<Rightarrow> u64) result" where
  "count_states slots [] = Inr slots"
| "count_states slots (ex # rest) =
     and_then (ok_or (ex_write_state ex)
         (invalid ''un esempio di scrittura deve dichiarare write_state'')) (\<lambda>state.
       and_then (ok_or (checked_add (slots state) 1)
           (invalid ''overflow nel conteggio degli esempi per stato'')) (\<lambda>n.
         count_states (slots(state := n)) rest))"

fun partition_sums :: "diagnostic_state_counts \<Rightarrow> write_outcome_partition \<Rightarrow> (write_state \<Rightarrow> u64)
    \<Rightarrow> u64 \<Rightarrow> u64 \<Rightarrow> write_state list \<Rightarrow> (u64 \<times> u64) result" where
  "partition_sums states part slots known_sum diagnosed_unknown [] =
     Inr (known_sum, diagnosed_unknown)"
| "partition_sums states part slots known_sum diagnosed_unknown (s # rest) =
     (let diagnosed = state_count states s
      in and_then
           (case known (bucket part s) of
              Some value \<Rightarrow>
                if diagnosed > value
                then Inl (invalid ''uno stato diagnostico supera il proprio esito certo'')
                else and_then (ok_or (checked_add known_sum value)
                       (invalid ''overflow nella partizione degli esiti certi''))
                       (\<lambda>k. Inr (k, diagnosed_unknown))
            | None \<Rightarrow>
                and_then (ok_or (checked_add diagnosed_unknown diagnosed)
                  (invalid ''overflow nella partizione degli esiti ignoti''))
                  (\<lambda>u. Inr (known_sum, u)))
           (\<lambda>(k, u).
              if slots s > diagnosed
              then Inl (invalid ''gli esempi superano il proprio stato diagnostico'')
              else partition_sums states part slots k u rest))"

definition validate_write_fields :: "row_diagnostics \<Rightarrow> u64 \<Rightarrow> diagnostic_state_counts
    \<Rightarrow> write_outcome_partition \<Rightarrow> unit result" where
  "validate_write_fields d input_total states part =
     (if input_total = 0 \<or> rd_observed_total d > input_total
      then Inl (invalid ''input_total incoerente con le righe osservate'')
      else if checked_sum states \<noteq> Some (rd_observed_total d)
      then Inl (invalid ''la somma degli stati diagnostici non corrisponde a observed_total'')
      else and_then (count_states (\<lambda>_. 0) (rd_examples d)) (\<lambda>slots.
        and_then (partition_sums states part slots 0 0 WRITE_STATES) (\<lambda>(known_sum, diagnosed_unknown).
          if known_sum > input_total
          then Inl (invalid ''gli esiti certi superano input_total'')
          else if (case checked_add known_sum diagnosed_unknown of
                     None \<Rightarrow> True | Some accounted \<Rightarrow> accounted > input_total)
          then Inl (invalid ''esiti certi e righe diagnosticate ignote superano input_total'')
          else if list_all (\<lambda>s. known (bucket part s) \<noteq> None) WRITE_STATES
                  \<and> known_sum \<noteq> input_total
          then Inl (invalid ''una partizione interamente certa deve coprire input_total'')
          else Inr ())))"

definition validate_write_partition :: "row_diagnostics \<Rightarrow> unit result" where
  "validate_write_partition d =
     (case rd_scope d of
        ScopeRead \<Rightarrow>
          if rd_input_total d \<noteq> None \<or> rd_diagnostic_state_counts d \<noteq> None
             \<or> rd_write_outcome d \<noteq> None
          then Inl (invalid ''un documento di lettura non dichiara campi di scrittura'')
          else Inr ()
      | ScopeWrite \<Rightarrow>
          and_then (ok_or (rd_input_total d)
            (invalid ''un documento di scrittura dichiara input_total'')) (\<lambda>input_total.
          and_then (ok_or (rd_diagnostic_state_counts d)
            (invalid ''un documento di scrittura dichiara diagnostic_state_counts'')) (\<lambda>states.
          and_then (ok_or (rd_write_outcome d)
            (invalid ''un documento di scrittura dichiara write_outcome'')) (\<lambda>part.
          validate_write_fields d input_total states part))))"

definition validate_diagnostics :: "row_diagnostics \<Rightarrow> unit result" where
  "validate_diagnostics d =
     (if rd_contract d \<noteq> CONTRACT then Inl (invalid ''contratto row diagnostics diverso da v1'')
      else if rd_index_basis d \<noteq> INDEX_BASIS
      then Inl (invalid ''base di indicizzazione row diagnostics non valida'')
      else and_then (validate_completeness d) (\<lambda>_. and_then (validate_counts d) (\<lambda>_.
           and_then (validate_examples d) (\<lambda>_. validate_write_partition d))))"

text \<open>\<open>DatabaseError::with_row_diagnostics\<close> of \<open>error.rs\<close>.\<close>

definition with_row_diagnostics :: "database_error \<Rightarrow> row_diagnostics \<Rightarrow> database_error result" where
  "with_row_diagnostics e d =
     and_then (validate_diagnostics d) (\<lambda>_. Inr (e\<lparr>e_diagnostics := Some d\<rparr>))"

section \<open>The write tracker\<close>

record row_diagnostics_policy =
  dp_key_field :: "string option"
  dp_constraint_column :: "string option"
  dp_examples_limit :: u32

definition default_diagnostics_policy :: row_diagnostics_policy where
  "default_diagnostics_policy =
     \<lparr>dp_key_field = None, dp_constraint_column = None, dp_examples_limit = DEFAULT_EXAMPLES_LIMIT\<rparr>"

datatype rollback_evidence = Confirmed | Lost

record rejected_row =
  rr_source_index :: u64
  rr_cause :: string
  rr_column :: "string option"

record write_tracker =
  wt_input_total :: u64
  wt_policy :: row_diagnostics_policy
  wt_staged_rows :: u64

definition write_tracker_new :: "u64 \<Rightarrow> row_diagnostics_policy \<Rightarrow> write_tracker result" where
  "write_tracker_new input_total policy =
     (if input_total = 0
      then Inl (invalid ''la diagnostica di scrittura richiede un input dichiarato non vuoto'')
      else if dp_examples_limit policy = 0
      then Inl (invalid ''il limite di esempi deve essere almeno uno'')
      else and_then (validate_optional_field (dp_key_field policy) ''chiave'') (\<lambda>_.
           and_then (validate_optional_field (dp_constraint_column policy) ''colonna'') (\<lambda>_.
           Inr \<lparr>wt_input_total = input_total, wt_policy = policy, wt_staged_rows = 0\<rparr>)))"

definition stage_rows :: "write_tracker \<Rightarrow> u64 \<Rightarrow> write_tracker result" where
  "stage_rows t rows =
     and_then (ok_or (checked_add (wt_staged_rows t) rows)
         (invalid ''overflow nel conteggio delle righe messe in scena'')) (\<lambda>staged.
       if staged > wt_input_total t
       then Inl (invalid ''le righe messe in scena superano l'input dichiarato'')
       else Inr (t\<lparr>wt_staged_rows := staged\<rparr>))"

definition rejection_report :: "write_tracker \<Rightarrow> rejected_row \<Rightarrow> u64 \<Rightarrow> rollback_evidence \<Rightarrow> row_diagnostics" where
  "rejection_report t rejected not_attempted rollback =
     (let (rolled_back, effect_unknown) =
        (case rollback of
           Confirmed \<Rightarrow> (Known (wt_staged_rows t), Known 0)
         | Lost \<Rightarrow> (UnknownCount, UnknownCount))
      in \<lparr>rd_contract = CONTRACT, rd_scope = ScopeWrite, rd_index_basis = INDEX_BASIS,
          rd_completeness = DcComplete, rd_knowledge_limits = [], rd_observed_total = 1,
          rd_total = Some 1, rd_input_total = Some (wt_input_total t),
          rd_counts = [(rr_cause rejected, 1)],
          rd_examples_limit = dp_examples_limit (wt_policy t), rd_examples_truncated = False,
          rd_examples =
            [\<lparr>ex_source_index = rr_source_index rejected, ex_cause = rr_cause rejected,
              ex_column = rr_column rejected,
              ex_key = map_option redacted (dp_key_field (wt_policy t)),
              ex_write_state = Some WsCertainlyRejected\<rparr>],
          rd_diagnostic_state_counts =
            Some \<lparr>sc_certainly_rejected = 1, sc_certainly_not_attempted = 0,
                  sc_certainly_rolled_back = 0, sc_effect_unknown = 0\<rparr>,
          rd_write_outcome =
            Some \<lparr>wp_certainly_rejected = Known 1, wp_certainly_not_attempted = Known not_attempted,
                  wp_certainly_rolled_back = rolled_back, wp_effect_unknown = effect_unknown\<rparr>\<rparr>)"

definition reject_row :: "write_tracker \<Rightarrow> rejected_row \<Rightarrow> rollback_evidence \<Rightarrow> row_diagnostics result" where
  "reject_row t rejected rollback =
     (if rr_source_index rejected \<noteq> wt_staged_rows t
      then Inl (invalid (''l'indice rifiutato non '' @ e_grave @ '' la prima riga non ancora applicata''))
      else if \<not> is_contract_identifier (rr_cause rejected)
      then Inl (invalid ''causa row diagnostics non valida'')
      else and_then
        (ok_or (Option.bind (checked_sub (wt_input_total t) (wt_staged_rows t))
                  (\<lambda>remaining. checked_sub remaining 1))
           (invalid (''la riga rifiutata '' @ e_grave @ '' fuori dall'input dichiarato'')))
        (\<lambda>not_attempted.
           let report = rejection_report t rejected not_attempted rollback
           in and_then (validate_diagnostics report) (\<lambda>_. Inr report)))"

section \<open>The row-by-row diagnostic write\<close>

record row_rejection =
  rj_cause :: string
  rj_column :: "string option"

datatype row_application = Applied | Rejected row_rejection

text \<open>The driver's side of \<open>RowScopedWriter\<close>: each call returns its outcome and the next state.\<close>

record 'w row_scoped_writer =
  apply_row :: "'w \<Rightarrow> u64 \<Rightarrow> row_application result \<times> 'w"
  finish_declared_input :: "'w \<Rightarrow> unit result \<times> 'w"
  writer_rollback :: "'w \<Rightarrow> rollback_evidence \<times> 'w"

record row_rejection_outcome =
  ro_diagnostics :: row_diagnostics
  ro_rollback :: rollback_evidence

fun outcome_axes :: "rollback_evidence \<Rightarrow> error_phase \<times> remote_effect \<times> retry_disposition" where
  "outcome_axes Confirmed = (PhWrite, EffRolledBack, Never)"
| "outcome_axes Lost = (PhRollback, EffUnknown, Quarantine)"

definition outcome_into_error :: "row_rejection_outcome \<Rightarrow> provider_kind option \<Rightarrow> string option
    \<Rightarrow> database_error result" where
  "outcome_into_error ro provider execution_id =
     (let (phase, eff, retry) = outcome_axes (ro_rollback ro)
      in with_row_diagnostics
           \<lparr>e_category = DataMapping, e_phase = phase, e_remote_effect = eff, e_retry = retry,
            e_provider = provider, e_execution_id = execution_id,
            e_message = ''riga sorgente rifiutata dal database'', e_diagnostics = None\<rparr>
           (ro_diagnostics ro))"

lemma stage_rows_progress:
  assumes "stage_rows t 1 = Inr t'" and "wt_staged_rows t < wt_input_total t"
  shows "wt_input_total t' = wt_input_total t \<and> wt_policy t' = wt_policy t
    \<and> unat (wt_staged_rows t') = Suc (unat (wt_staged_rows t))"
  using assms by (auto simp: stage_rows_def result_simps dest: checked_add_unat split: if_splits)

text \<open>
  The loop of \<open>diagnose_row_scoped_write\<close>.  The tracker is borrowed mutably, so the result
  carries its final value, together with the writer's.
\<close>

function diagnose_row_scoped_write :: "'w row_scoped_writer \<Rightarrow> 'w \<Rightarrow> write_tracker
    \<Rightarrow> row_rejection_outcome option result \<times> 'w \<times> write_tracker" where
  "diagnose_row_scoped_write writer w t =
     (if wt_staged_rows t < wt_input_total t then
        (let source_index = wt_staged_rows t
         in case apply_row writer w source_index of
              (Inl e, w1) \<Rightarrow> (Inl e, w1, t)
            | (Inr Applied, w1) \<Rightarrow>
                (case stage_rows t 1 of
                   Inl e \<Rightarrow> (Inl e, w1, t)
                 | Inr t1 \<Rightarrow> diagnose_row_scoped_write writer w1 t1)
            | (Inr (Rejected rejection), w1) \<Rightarrow>
                (case writer_rollback writer w1 of
                   (rollback, w2) \<Rightarrow>
                     (and_then
                        (reject_row t \<lparr>rr_source_index = source_index, rr_cause = rj_cause rejection,
                                       rr_column = rj_column rejection\<rparr> rollback)
                        (\<lambda>diagnostics. Inr (Some \<lparr>ro_diagnostics = diagnostics, ro_rollback = rollback\<rparr>)),
                      w2, t)))
      else
        (case finish_declared_input writer w of
           (Inl e, w1) \<Rightarrow> (Inl e, w1, t)
         | (Inr _, w1) \<Rightarrow> (Inr None, w1, t)))"
  by pat_completeness auto
termination
proof (relation "measure (\<lambda>(_, _, t). unat (wt_input_total t) - unat (wt_staged_rows t))")
  fix writer :: "'w row_scoped_writer" and w w1 :: 'w and t t1 idx b row
  assume lt: "wt_staged_rows t < wt_input_total t" and st: "stage_rows t 1 = Inr t1"
  from stage_rows_progress [OF st lt] lt
  show "((writer, w1, t1), (writer, w, t))
      \<in> measure (\<lambda>(_, _, t). unat (wt_input_total t) - unat (wt_staged_rows t))"
    by (auto simp: word_less_nat_alt)
qed auto

declare diagnose_row_scoped_write.simps [simp del]

section \<open>The read tracker\<close>

record read_diagnostics_policy =
  rp_key_field :: "string option"
  rp_examples_limit :: u32

record read_tracker =
  rt_policy :: read_diagnostics_policy
  rt_published_rows :: u64

definition read_tracker_default :: read_tracker where
  "read_tracker_default =
     \<lparr>rt_policy = \<lparr>rp_key_field = None, rp_examples_limit = DEFAULT_EXAMPLES_LIMIT\<rparr>,
      rt_published_rows = 0\<rparr>"

definition read_tracker_new :: "read_diagnostics_policy \<Rightarrow> read_tracker result" where
  "read_tracker_new policy =
     (if rp_examples_limit policy = 0
      then Inl (invalid ''il limite di esempi deve essere almeno uno'')
      else and_then (validate_optional_field (rp_key_field policy) ''chiave'') (\<lambda>_.
           Inr \<lparr>rt_policy = policy, rt_published_rows = 0\<rparr>))"

definition publish_batch :: "read_tracker \<Rightarrow> u64 \<Rightarrow> read_tracker result" where
  "publish_batch t rows =
     and_then (ok_or (checked_add (rt_published_rows t) rows)
       (invalid ''overflow nel cursore delle righe lette''))
       (\<lambda>n. Inr (t\<lparr>rt_published_rows := n\<rparr>))"

definition source_index :: "read_tracker \<Rightarrow> u64 \<Rightarrow> u64 result" where
  "source_index t offset_in_batch =
     ok_or (checked_add (rt_published_rows t) offset_in_batch)
       (invalid ''overflow nell'indice sorgente di lettura'')"

definition attributed_report :: "read_tracker \<Rightarrow> u64 \<Rightarrow> string \<Rightarrow> string option \<Rightarrow> row_diagnostics" where
  "attributed_report t index cause column =
     \<lparr>rd_contract = CONTRACT, rd_scope = ScopeRead, rd_index_basis = INDEX_BASIS,
      rd_completeness = DcPartial,
      rd_knowledge_limits =
        (if rt_published_rows t > 0 then [LIMIT_BATCHES_ALREADY_PUBLISHED] else [])
        @ [LIMIT_SCAN_STOPPED_AT_FIRST_DEFECT],
      rd_observed_total = 1, rd_total = None, rd_input_total = None, rd_counts = [(cause, 1)],
      rd_examples_limit = rp_examples_limit (rt_policy t), rd_examples_truncated = False,
      rd_examples =
        [\<lparr>ex_source_index = index, ex_cause = cause, ex_column = column,
          ex_key = map_option redacted (rp_key_field (rt_policy t)), ex_write_state = None\<rparr>],
      rd_diagnostic_state_counts = None, rd_write_outcome = None\<rparr>"

definition attributed_defect :: "read_tracker \<Rightarrow> u64 \<Rightarrow> string \<Rightarrow> string option \<Rightarrow> row_diagnostics result" where
  "attributed_defect t offset_in_batch cause column =
     (if \<not> is_contract_identifier cause then Inl (invalid ''causa row diagnostics non valida'')
      else and_then (validate_optional_field column ''colonna'') (\<lambda>_.
           and_then (source_index t offset_in_batch) (\<lambda>index.
           let report = attributed_report t index cause column
           in and_then (validate_diagnostics report) (\<lambda>_. Inr report))))"

definition unattributable_report :: "read_tracker \<Rightarrow> row_diagnostics" where
  "unattributable_report t =
     \<lparr>rd_contract = CONTRACT, rd_scope = ScopeRead, rd_index_basis = INDEX_BASIS,
      rd_completeness = DcUnknown, rd_knowledge_limits = [LIMIT_ROW_ATTRIBUTION_UNAVAILABLE],
      rd_observed_total = 0, rd_total = None, rd_input_total = None, rd_counts = [],
      rd_examples_limit = rp_examples_limit (rt_policy t), rd_examples_truncated = False,
      rd_examples = [], rd_diagnostic_state_counts = None, rd_write_outcome = None\<rparr>"

definition unattributable_defect :: "read_tracker \<Rightarrow> row_diagnostics result" where
  "unattributable_defect t =
     (let report = unattributable_report t
      in and_then (validate_diagnostics report) (\<lambda>_. Inr report))"

definition into_read_rejection :: "database_error \<Rightarrow> row_diagnostics \<Rightarrow> database_error result" where
  "into_read_rejection e d =
     and_then (validate_diagnostics d) (\<lambda>_.
       if rd_scope d \<noteq> ScopeRead
       then Inl (invalid ''un rifiuto di lettura richiede una diagnostica di lettura'')
       else if e_category e \<noteq> DataMapping then Inr e
       else with_row_diagnostics
              (e\<lparr>e_phase := PhRead, e_remote_effect := EffNone, e_retry := Never\<rparr>) d)"

definition reject_conversion_defect :: "read_tracker \<Rightarrow> database_error \<Rightarrow> u64 option \<Rightarrow> string option
    \<Rightarrow> database_error" where
  "reject_conversion_defect t e offset_in_batch column =
     (if e_category e \<noteq> DataMapping then e
      else
        let column =
              (case column of
                 None \<Rightarrow> None
               | Some v \<Rightarrow> if is_ok (validate_optional_field (Some v) ''colonna'') then Some v else None);
            attributed =
              and_then (ok_or offset_in_batch (invalid ''riga sorgente non osservabile''))
                (\<lambda>offset. attributed_defect t offset CAUSE_VALUE_NOT_REPRESENTABLE column);
            diagnostics =
              (case attributed of Inr d \<Rightarrow> Inr d | Inl _ \<Rightarrow> unattributable_defect t)
        in (case diagnostics of
              Inl _ \<Rightarrow> e
            | Inr d \<Rightarrow> (case into_read_rejection e d of Inl _ \<Rightarrow> e | Inr e' \<Rightarrow> e')))"

end
