(* ===== verification/Row_Diagnostics_Proofs.thy ===== *)
theory Row_Diagnostics_Proofs
  imports Row_Diagnostics
begin

text \<open>
  What a valid row diagnostics document is, stated over natural numbers and sets, the proof that
  the validator of \<open>Row_Diagnostics\<close> accepts exactly those documents, and the consequences for
  the trackers and the row-by-row write.
\<close>

named_theorems diag_defs \<open>definitions of the diagnostics validator\<close>

lemmas [diag_defs] = validate_diagnostics_def validate_completeness_def validate_total_def
  validate_counts_def validate_examples_def validate_write_partition_def validate_write_fields_def

section \<open>The specification of a document\<close>

definition field_ok :: "string option \<Rightarrow> bool" where
  "field_ok f \<longleftrightarrow> (\<forall>v. f = Some v \<longrightarrow> v \<noteq> [] \<and> char_count v \<le> MAX_FIELD_CHARS)"

definition key_ok :: "row_key option \<Rightarrow> bool" where
  "key_ok key \<longleftrightarrow>
     (case key of
        None \<Rightarrow> True
      | Some k \<Rightarrow>
          field_ok (Some (rk_field k)) \<and>
          (rk_state k = KsValue \<longleftrightarrow> rk_value k \<noteq> None) \<and>
          (case rk_value k of
             Some (KvText text) \<Rightarrow> char_count text \<le> MAX_KEY_TEXT_CHARS
           | Some (KvInteger n) \<Rightarrow> \<bar>sint n\<bar> \<le> MAX_EXACT_INTEGER
           | _ \<Rightarrow> True))"

definition completeness_ok :: "row_diagnostics \<Rightarrow> bool" where
  "completeness_ok d \<longleftrightarrow>
     (if rd_completeness d = DcComplete
      then rd_knowledge_limits d = [] \<and> rd_total d = Some (rd_observed_total d)
      else rd_knowledge_limits d \<noteq> [] \<and> distinct (rd_knowledge_limits d)
           \<and> list_all is_contract_identifier (rd_knowledge_limits d)) \<and>
     (rd_completeness d = DcUnknown \<longrightarrow> rd_total d = None) \<and>
     (\<forall>n. rd_total d = Some n \<longrightarrow> n \<noteq> 0 \<and> rd_observed_total d \<le> n)"

definition counts_ok :: "row_diagnostics \<Rightarrow> bool" where
  "counts_ok d \<longleftrightarrow>
     list_all (\<lambda>(cause, n). is_contract_identifier cause \<and> n \<noteq> 0) (rd_counts d) \<and>
     sum_list (map (\<lambda>(cause, n). unat n) (rd_counts d)) = unat (rd_observed_total d)"

definition cause_count :: "row_example list \<Rightarrow> string \<Rightarrow> nat" where
  "cause_count exs c = length (filter (\<lambda>ex. ex_cause ex = c) exs)"

definition state_examples :: "row_example list \<Rightarrow> write_state \<Rightarrow> nat" where
  "state_examples exs s = length (filter (\<lambda>ex. ex_write_state ex = Some s) exs)"

definition example_ok :: "row_diagnostics \<Rightarrow> row_example \<Rightarrow> bool" where
  "example_ok d ex \<longleftrightarrow>
     ex_cause ex \<in> fst ` set (rd_counts d) \<and> field_ok (ex_column ex) \<and> key_ok (ex_key ex) \<and>
     (rd_scope d = ScopeWrite \<longleftrightarrow> ex_write_state ex \<noteq> None)"

definition examples_ok :: "row_diagnostics \<Rightarrow> bool" where
  "examples_ok d \<longleftrightarrow>
     (let n = length (rd_examples d); limit = unat (rd_examples_limit d);
          observed = unat (rd_observed_total d)
      in 0 < limit \<and> n \<le> limit \<and> n \<le> observed \<and>
         (rd_completeness d = DcComplete \<longrightarrow> n = min observed limit) \<and>
         (rd_examples_truncated d \<longleftrightarrow> n < observed \<and> n = limit)) \<and>
     distinct (map ex_source_index (rd_examples d)) \<and>
     list_all (example_ok d) (rd_examples d) \<and>
     list_all (\<lambda>ex. \<forall>n. map_of (rd_counts d) (ex_cause ex) = Some n \<longrightarrow>
                  cause_count (rd_examples d) (ex_cause ex) \<le> unat n) (rd_examples d)"

fun certain_rows :: "write_outcome_partition \<Rightarrow> write_state \<Rightarrow> nat" where
  "certain_rows p s = (case bucket p s of Known v \<Rightarrow> unat v | UnknownCount \<Rightarrow> 0)"

fun unknown_rows :: "diagnostic_state_counts \<Rightarrow> write_outcome_partition \<Rightarrow> write_state \<Rightarrow> nat" where
  "unknown_rows c p s = (case bucket p s of Known v \<Rightarrow> 0 | UnknownCount \<Rightarrow> unat (state_count c s))"

definition over_states :: "(write_state \<Rightarrow> nat) \<Rightarrow> nat" where
  "over_states f = sum_list (map f WRITE_STATES)"

definition write_fields_ok :: "row_diagnostics \<Rightarrow> u64 \<Rightarrow> diagnostic_state_counts
    \<Rightarrow> write_outcome_partition \<Rightarrow> bool" where
  "write_fields_ok d input_total c p \<longleftrightarrow>
     input_total \<noteq> 0 \<and> rd_observed_total d \<le> input_total \<and>
     over_states (\<lambda>s. unat (state_count c s)) = unat (rd_observed_total d) \<and>
     (\<forall>s. state_examples (rd_examples d) s \<le> unat (state_count c s)) \<and>
     (\<forall>s v. bucket p s = Known v \<longrightarrow> state_count c s \<le> v) \<and>
     over_states (certain_rows p) + over_states (unknown_rows c p) \<le> unat input_total \<and>
     ((\<forall>s. bucket p s \<noteq> UnknownCount) \<longrightarrow> over_states (certain_rows p) = unat input_total)"

definition partition_ok :: "row_diagnostics \<Rightarrow> bool" where
  "partition_ok d \<longleftrightarrow>
     (case rd_scope d of
        ScopeRead \<Rightarrow> rd_input_total d = None \<and> rd_diagnostic_state_counts d = None
                     \<and> rd_write_outcome d = None
      | ScopeWrite \<Rightarrow> (\<exists>n c p. rd_input_total d = Some n \<and> rd_diagnostic_state_counts d = Some c
                     \<and> rd_write_outcome d = Some p \<and> write_fields_ok d n c p))"

definition valid_document :: "row_diagnostics \<Rightarrow> bool" where
  "valid_document d \<longleftrightarrow>
     rd_contract d = CONTRACT \<and> rd_index_basis d = INDEX_BASIS \<and> completeness_ok d \<and>
     counts_ok d \<and> examples_ok d \<and> partition_ok d"

section \<open>The validator decides the specification\<close>

lemma validate_optional_field_iff: "validate_optional_field f w = Inr u \<longleftrightarrow> field_ok f"
  by (cases f) (auto simp: validate_optional_field_def field_ok_def)

lemma validate_key_iff: "validate_key k = Inr u \<longleftrightarrow> key_ok k"
proof (cases k)
  case None
  then show ?thesis by (simp add: validate_key_def key_ok_def)
next
  case (Some r)
  then show ?thesis
    by (auto simp: validate_key_def key_ok_def validate_key_value_def result_simps
        validate_optional_field_iff Let_def abs_le_iff
        split: key_state.splits option.splits key_value.splits if_splits)
qed

lemma validate_limits_iff:
  "validate_limits seen ls = Inr u \<longleftrightarrow>
     list_all is_contract_identifier ls \<and> distinct ls \<and> set ls \<inter> seen = {}"
  by (induction ls arbitrary: seen) auto

lemma validate_completeness_iff: "validate_completeness d = Inr u \<longleftrightarrow> completeness_ok d"
  by (auto simp: validate_completeness_def completeness_ok_def validate_total_def result_simps
      validate_limits_iff not_less split: completeness.splits option.splits if_splits)

lemma sum_causes_iff:
  "sum_causes acc cs = Inr total_rows \<longleftrightarrow>
     list_all (\<lambda>(cause, n). is_contract_identifier cause \<and> n \<noteq> 0) cs \<and>
     unat acc + sum_list (map (\<lambda>(cause, n). unat n) cs) = unat total_rows"
proof (induction cs arbitrary: acc)
  case Nil
  then show ?case by (auto simp: word_unat_eq_iff)
next
  case (Cons entry cs)
  obtain cause n where entry: "entry = (cause, n)" by force
  have "unat total_rows < 2 ^ 64" using unat_lt_width [of total_rows] by simp
  then show ?case
    by (auto simp: entry result_simps Cons.IH checked_simps unat_word_ariths)
qed

lemma validate_counts_iff: "validate_counts d = Inr u \<longleftrightarrow> counts_ok d"
proof
  assume "validate_counts d = Inr u"
  then show "counts_ok d"
    by (auto simp: validate_counts_def counts_ok_def result_simps sum_causes_iff split: if_splits)
next
  assume "counts_ok d"
  then have "sum_causes 0 (rd_counts d) = Inr (rd_observed_total d)"
    by (simp add: sum_causes_iff counts_ok_def)
  then show "validate_counts d = Inr u" by (simp add: validate_counts_def)
qed

lemma validate_example_iff:
  "validate_example d seen ex = Inr u \<longleftrightarrow> ex_source_index ex \<notin> seen \<and> example_ok d ex"
  by (auto simp: validate_example_def example_ok_def result_simps validate_optional_field_iff
      validate_key_iff split: diagnostic_scope.splits option.splits if_splits)

lemma cause_count_simps [simp]:
  "cause_count [] c = 0"
  "cause_count (ex # exs) c = (if ex_cause ex = c then Suc (cause_count exs c) else cause_count exs c)"
  by (simp_all add: cause_count_def)

lemma cause_count_le: "cause_count exs c \<le> length exs"
  by (simp add: cause_count_def)

lemma checked_add_1:
  assumes "unat a + Suc n < 2 ^ 64"
  shows "checked_add a 1 = Some (a + 1)" and "unat (a + 1 :: u64) = Suc (unat a)"
  using assms by (simp_all add: checked_simps unat_word_ariths)

lemma scan_examples_iff:
  assumes "\<forall>c. unat (per_cause c) + length exs < 2 ^ 64"
  shows "scan_examples d seen per_cause exs = Inr result_map \<longleftrightarrow>
     distinct (map ex_source_index exs) \<and> ex_source_index ` set exs \<inter> seen = {} \<and>
     list_all (example_ok d) exs \<and> (\<forall>c. result_map c = per_cause c + of_nat (cause_count exs c))"
  using assms
proof (induction exs arbitrary: seen per_cause)
  case Nil
  then show ?case by auto
next
  case (Cons ex exs)
  let ?c = "ex_cause ex"
  have bound: "unat (per_cause ?c) + Suc (length exs) < 2 ^ 64"
    using Cons.prems by (metis length_Cons)
  note add1 = checked_add_1 [OF bound]
  have "\<forall>c. unat ((per_cause(?c := per_cause ?c + 1)) c) + length exs < 2 ^ 64"
  proof
    fix c
    show "unat ((per_cause(?c := per_cause ?c + 1)) c) + length exs < 2 ^ 64"
      using Cons.prems [rule_format, of c] add1(2) by auto
  qed
  note IH = Cons.IH [OF this]
  show ?case
    by (auto simp: result_simps validate_example_iff add1(1) IH add.assoc split: if_splits)
qed

lemma scan_examples_start:
  assumes "length exs < 2 ^ 64"
  shows "scan_examples d {} (\<lambda>_. 0) exs = Inr result_map \<longleftrightarrow>
     distinct (map ex_source_index exs) \<and> list_all (example_ok d) exs \<and>
     result_map = (\<lambda>c. of_nat (cause_count exs c))"
  using assms by (auto simp: scan_examples_iff fun_eq_iff)

lemma of_nat_le_u64:
  assumes "n < 2 ^ 64"
  shows "unat (of_nat n :: u64) = n"
  using assms by (simp add: unat_of_nat take_bit_eq_mod)

lemma cause_check_iff:
  assumes "length exs < 2 ^ 64" and "list_all (example_ok d) exs"
  shows "(\<exists>ex \<in> set exs. case map_of (rd_counts d) (ex_cause ex) of
            None \<Rightarrow> True
          | Some all_rows \<Rightarrow> all_rows < (of_nat (cause_count exs (ex_cause ex)) :: u64)) \<longleftrightarrow>
     \<not> list_all (\<lambda>ex. \<forall>n. map_of (rd_counts d) (ex_cause ex) = Some n \<longrightarrow>
                  cause_count exs (ex_cause ex) \<le> unat n) exs"
proof -
  have lt: "unat (of_nat (cause_count exs c) :: u64) = cause_count exs c" for c
    using assms(1) cause_count_le [of exs c] by (intro of_nat_le_u64) linarith
  have found: "map_of (rd_counts d) (ex_cause ex) \<noteq> None" if "ex \<in> set exs" for ex
    using assms(2) that by (auto simp: list_all_iff example_ok_def map_of_eq_None_iff)
  show ?thesis
    using found by (force simp: list_all_iff word_less_nat_alt lt not_le split: option.splits)
qed

lemma unat_min: "unat (min a b) = min (unat a) (unat b)"
  for a b :: "'a::len word"
  by (simp add: min_def word_le_nat_alt)

lemma validate_examples_iff: "validate_examples d = Inr u \<longleftrightarrow> examples_ok d"
proof -
  let ?n = "length (rd_examples d)"
  let ?pub = "of_nat ?n :: u64" and ?lim = "ucast (rd_examples_limit d) :: u64"
  have lim: "unat ?lim = unat (rd_examples_limit d)"
    using unat_lt_width [of "rd_examples_limit d"]
    by (simp add: unsigned_ucast_eq take_bit_nat_eq_self)
  have lim0: "rd_examples_limit d = 0 \<longleftrightarrow> \<not> 0 < unat (rd_examples_limit d)"
    by (simp add: unat_eq_0)
  show ?thesis
  proof (cases "?n < 2 ^ 64")
    case True
    have pub: "unat ?pub = ?n" by (rule of_nat_le_u64 [OF True])
    have scan: "scan_examples d {} (\<lambda>_. 0) (rd_examples d) = Inr r \<longleftrightarrow>
        distinct (map ex_source_index (rd_examples d)) \<and> list_all (example_ok d) (rd_examples d)
        \<and> r = (\<lambda>c. of_nat (cause_count (rd_examples d) c))" for r
      by (rule scan_examples_start [OF True])
    show ?thesis
      using True cause_check_iff [OF True, of d]
      by (auto simp: validate_examples_def examples_ok_def Let_def result_simps scan lim0 unat_min
          word_less_nat_alt word_unat_eq_iff pub lim not_less split: if_splits)
  next
    case False
    then have "unat (rd_examples_limit d) < ?n"
      using unat_lt_width [of "rd_examples_limit d"] by simp
    with False show ?thesis by (auto simp: validate_examples_def examples_ok_def Let_def)
  qed
qed

lemma state_examples_simps [simp]:
  "state_examples [] s = 0"
  "state_examples (ex # exs) s =
     (if ex_write_state ex = Some s then Suc (state_examples exs s) else state_examples exs s)"
  by (simp_all add: state_examples_def)

lemma state_examples_le: "state_examples exs s \<le> length exs"
  by (simp add: state_examples_def)

lemma count_states_iff:
  assumes "\<forall>s. unat (slots s) + length exs < 2 ^ 64"
  shows "count_states slots exs = Inr slots' \<longleftrightarrow>
     list_all (\<lambda>ex. ex_write_state ex \<noteq> None) exs \<and>
     (\<forall>s. slots' s = slots s + of_nat (state_examples exs s))"
  using assms
proof (induction exs arbitrary: slots)
  case Nil
  then show ?case by auto
next
  case (Cons ex exs)
  show ?case
  proof (cases "ex_write_state ex")
    case None
    then show ?thesis by simp
  next
    case (Some w)
    have bound: "unat (slots w) + Suc (length exs) < 2 ^ 64"
      using Cons.prems by (metis length_Cons)
    note add1 = checked_add_1 [OF bound]
    have "\<forall>s. unat ((slots(w := slots w + 1)) s) + length exs < 2 ^ 64"
    proof
      fix s
      show "unat ((slots(w := slots w + 1)) s) + length exs < 2 ^ 64"
        using Cons.prems [rule_format, of s] add1(2) by auto
    qed
    note IH = Cons.IH [OF this]
    show ?thesis
      by (auto simp: Some result_simps add1(1) IH add.assoc split: if_splits)
  qed
qed

lemma count_states_start:
  assumes "length exs < 2 ^ 64"
  shows "count_states (\<lambda>_. 0) exs = Inr slots' \<longleftrightarrow>
     list_all (\<lambda>ex. ex_write_state ex \<noteq> None) exs \<and> slots' = (\<lambda>s. of_nat (state_examples exs s))"
  using assms by (auto simp: count_states_iff fun_eq_iff)

lemma partition_sums_iff:
  "partition_sums c p slots k u ss = Inr (k', u') \<longleftrightarrow>
     (\<forall>s \<in> set ss. (\<forall>v. bucket p s = Known v \<longrightarrow> state_count c s \<le> v) \<and> slots s \<le> state_count c s) \<and>
     unat k' = unat k + sum_list (map (certain_rows p) ss) \<and>
     unat u' = unat u + sum_list (map (unknown_rows c p) ss)"
proof (induction ss arbitrary: k u)
  case Nil
  then show ?case by (auto simp: word_unat_eq_iff)
next
  case (Cons s ss)
  have "unat k' < 2 ^ 64" "unat u' < 2 ^ 64"
    using unat_lt_width [of k'] unat_lt_width [of u'] by simp_all
  then show ?case
    by (cases "bucket p s")
      (auto simp: Let_def result_simps Cons.IH checked_simps unat_word_ariths not_less
        split: if_splits)
qed

lemma set_WRITE_STATES [simp]: "set WRITE_STATES = UNIV"
proof -
  have "s \<in> set WRITE_STATES" for s
    by (cases s) (simp_all add: WRITE_STATES_def)
  then show ?thesis by blast
qed

lemma checked_add_ex:
  fixes a b m :: u64
  assumes "unat a + unat b \<le> unat m"
  obtains s where "checked_add a b = Some s" and "unat s = unat a + unat b"
  using assms unat_lt_width [of m] by (auto simp: checked_simps unat_word_ariths)

lemma checked_sum_iff:
  "checked_sum c = Some n \<longleftrightarrow> over_states (\<lambda>s. unat (state_count c s)) = unat n"
proof
  assume "checked_sum c = Some n"
  then show "over_states (\<lambda>s. unat (state_count c s)) = unat n"
    by (auto simp: checked_sum_def over_states_def WRITE_STATES_def bind_eq_Some_conv checked_add_iff)
next
  assume eq: "over_states (\<lambda>s. unat (state_count c s)) = unat n"
  then have n: "unat (sc_certainly_rejected c) + unat (sc_certainly_not_attempted c)
      + unat (sc_certainly_rolled_back c) + unat (sc_effect_unknown c) = unat n"
    by (simp add: over_states_def WRITE_STATES_def)
  then obtain a where a: "checked_add (sc_certainly_rejected c) (sc_certainly_not_attempted c) = Some a"
      "unat a = unat (sc_certainly_rejected c) + unat (sc_certainly_not_attempted c)"
    using checked_add_ex [of "sc_certainly_rejected c" "sc_certainly_not_attempted c" n] by auto
  with n obtain b where b: "checked_add a (sc_certainly_rolled_back c) = Some b"
      "unat b = unat a + unat (sc_certainly_rolled_back c)"
    using checked_add_ex [of a "sc_certainly_rolled_back c" n] by auto
  have "checked_add b (sc_effect_unknown c) = Some n"
    using a b n by (simp add: checked_add_iff)
  with a b show "checked_sum c = Some n" by (simp add: checked_sum_def)
qed

lemma known_bucket_None: "known b = None \<longleftrightarrow> b = UnknownCount"
  by (cases b) simp_all

lemma validate_write_fields_iff:
  assumes exs: "examples_ok d" and scope: "rd_scope d = ScopeWrite"
  shows "validate_write_fields d n c p = Inr u \<longleftrightarrow> write_fields_ok d n c p"
proof -
  let ?exs = "rd_examples d"
  have len: "length ?exs < 2 ^ 64"
    using exs unat_lt_width [of "rd_examples_limit d"] by (simp add: examples_ok_def Let_def)
  have states: "list_all (\<lambda>ex. ex_write_state ex \<noteq> None) ?exs"
    using exs scope by (auto simp: examples_ok_def example_ok_def list_all_iff)
  have slots: "unat (of_nat (state_examples ?exs s) :: u64) = state_examples ?exs s" for s
    using len state_examples_le [of ?exs s] by (intro of_nat_le_u64) linarith
  have all_known: "list_all (\<lambda>s. known (bucket p s) \<noteq> None) WRITE_STATES \<longleftrightarrow>
      (\<forall>s. bucket p s \<noteq> UnknownCount)"
    by (simp add: list_all_iff known_bucket_None)
  define K where "K = over_states (certain_rows p)"
  define U where "U = over_states (unknown_rows c p)"
  have sums: "partition_sums c p (\<lambda>s. of_nat (state_examples ?exs s)) 0 0 WRITE_STATES = Inr (k, w) \<longleftrightarrow>
      (\<forall>s. (\<forall>v. bucket p s = Known v \<longrightarrow> state_count c s \<le> v)
           \<and> state_examples ?exs s \<le> unat (state_count c s)) \<and> unat k = K \<and> unat w = U" for k w
    by (simp add: partition_sums_iff K_def U_def over_states_def word_le_nat_alt slots)
  have n: "unat n < 2 ^ 64" using unat_lt_width [of n] by simp
  have counted: "count_states (\<lambda>_. 0) ?exs = Inr (\<lambda>s. of_nat (state_examples ?exs s))"
    using states by (simp add: count_states_start [OF len])
  have body: "validate_write_fields d n c p = Inr u \<longleftrightarrow>
      n \<noteq> 0 \<and> rd_observed_total d \<le> n \<and> checked_sum c = Some (rd_observed_total d) \<and>
      (\<exists>k w. partition_sums c p (\<lambda>s. of_nat (state_examples ?exs s)) 0 0 WRITE_STATES = Inr (k, w)
         \<and> unat k + unat w \<le> unat n
         \<and> ((\<forall>s. bucket p s \<noteq> UnknownCount) \<longrightarrow> unat k = unat n))"
  proof (cases "partition_sums c p (\<lambda>s. of_nat (state_examples ?exs s)) 0 0 WRITE_STATES")
    case (Inl e)
    then show ?thesis by (simp add: validate_write_fields_def counted)
  next
    case (Inr kw)
    obtain k w where kw: "kw = (k, w)" by force
    show ?thesis
      unfolding validate_write_fields_def counted and_then_Inr Inr kw prod.case checked_add_exceeds
        all_known
      by (auto simp: not_less word_le_nat_alt word_less_nat_alt word_unat_eq_iff [of k n])
  qed
  have ex_sums: "(\<exists>k w. unat (k :: u64) = K \<and> unat (w :: u64) = U \<and> P K U) \<longleftrightarrow> P K U"
    if "\<And>a b. P a b \<Longrightarrow> a + b \<le> unat n" for P
  proof
    assume "P K U"
    then have "K < 2 ^ 64" "U < 2 ^ 64" using that [of K U] n by simp_all
    then have "unat (of_nat K :: u64) = K" "unat (of_nat U :: u64) = U"
      by (simp_all add: of_nat_le_u64)
    with \<open>P K U\<close> show "\<exists>k w. unat (k :: u64) = K \<and> unat (w :: u64) = U \<and> P K U" by blast
  qed blast
  have fit: "(\<exists>k w. unat (k :: u64) = K \<and> unat (w :: u64) = U \<and> (K + U \<le> unat n \<and> Q)) \<longleftrightarrow>
      K + U \<le> unat n \<and> Q" for Q
    using ex_sums [of "\<lambda>a b. a + b \<le> unat n \<and> Q"] by simp
  show ?thesis
    unfolding body checked_sum_iff sums write_fields_ok_def K_def [symmetric] U_def [symmetric]
    using fit [of "(\<forall>s. bucket p s \<noteq> UnknownCount) \<longrightarrow> K = unat n"] by fastforce
qed

lemma validate_write_partition_iff:
  assumes "examples_ok d"
  shows "validate_write_partition d = Inr u \<longleftrightarrow> partition_ok d"
  using assms
  by (auto simp: validate_write_partition_def partition_ok_def result_simps validate_write_fields_iff
      split: diagnostic_scope.splits if_splits)

lemma validate_diagnostics_iff: "validate_diagnostics d = Inr u \<longleftrightarrow> valid_document d"
  by (auto simp: validate_diagnostics_def valid_document_def result_simps validate_completeness_iff
      validate_counts_iff validate_examples_iff validate_write_partition_iff split: if_splits)

section \<open>Refusals\<close>

lemma local_error_invalid [refusal_intros]: "local_error (invalid m)"
  by (simp add: invalid_def)

lemma validate_optional_field_refusal [refusal_intros]:
  "refuses_locally (validate_optional_field f w)"
  unfolding validate_optional_field_def by (intro refusal_intros)

lemma validate_key_refusal [refusal_intros]: "refuses_locally (validate_key k)"
  unfolding validate_key_def validate_key_value_def Let_def
  by (intro refusal_intros) (auto intro!: refusal_intros split: key_state.split option.split)

lemma validate_completeness_refusal [refusal_intros]: "refuses_locally (validate_completeness d)"
proof -
  have limits: "refuses_locally (validate_limits seen ls)" for seen ls
    by (induction ls arbitrary: seen) (auto intro!: refusal_intros)
  show ?thesis
    unfolding validate_completeness_def validate_total_def
    by (cases "rd_completeness d") (auto intro!: refusal_intros limits)
qed

lemma validate_counts_refusal [refusal_intros]: "refuses_locally (validate_counts d)"
proof -
  have "refuses_locally (sum_causes acc cs)" for acc cs
    by (induction acc cs rule: sum_causes.induct) (auto intro!: refusal_intros)
  then show ?thesis unfolding validate_counts_def by (intro refusal_intros)
qed

lemma validate_examples_refusal [refusal_intros]: "refuses_locally (validate_examples d)"
proof -
  have one: "refuses_locally (validate_example d' seen ex)" for d' seen ex
    unfolding validate_example_def
    by (auto intro!: refusal_intros split: diagnostic_scope.split option.split)
  have "refuses_locally (scan_examples d' seen pc exs)" for d' seen pc exs
    by (induction exs arbitrary: seen pc) (auto intro!: refusal_intros one)
  then show ?thesis unfolding validate_examples_def Let_def by (intro refusal_intros)
qed

lemma validate_write_partition_refusal [refusal_intros]: "refuses_locally (validate_write_partition d)"
proof -
  have counted: "refuses_locally (count_states slots exs)" for slots exs
    by (induction exs arbitrary: slots) (auto intro!: refusal_intros)
  have sums: "refuses_locally (partition_sums c p slots k u ss)" for c p slots k u ss
    by (induction ss arbitrary: k u) (auto simp: Let_def intro!: refusal_intros)
  show ?thesis
    unfolding validate_write_partition_def validate_write_fields_def
    by (cases "rd_scope d") (auto intro!: refusal_intros counted sums)
qed

interpretation diagnostics: validator validate_diagnostics valid_document
proof unfold_locales
  show "validate_diagnostics d = Inr () \<longleftrightarrow> valid_document d" for d
    by (rule validate_diagnostics_iff)
  show "refuses_locally (validate_diagnostics d)" for d
    unfolding validate_diagnostics_def by (intro refusal_intros)
qed

section \<open>The write tracker\<close>

definition tracker_ok :: "write_tracker \<Rightarrow> bool" where
  "tracker_ok t \<longleftrightarrow>
     wt_input_total t \<noteq> 0 \<and> dp_examples_limit (wt_policy t) \<noteq> 0 \<and>
     field_ok (dp_key_field (wt_policy t)) \<and> field_ok (dp_constraint_column (wt_policy t)) \<and>
     wt_staged_rows t \<le> wt_input_total t"

lemma write_tracker_new_ok: "write_tracker_new n p = Inr t \<Longrightarrow> tracker_ok t \<and> wt_staged_rows t = 0"
  by (auto simp: write_tracker_new_def tracker_ok_def result_simps validate_optional_field_iff
      split: if_splits)

lemma stage_rows_ok: "tracker_ok t \<Longrightarrow> stage_rows t n = Inr t' \<Longrightarrow> tracker_ok t'"
  by (auto simp: stage_rows_def tracker_ok_def result_simps not_less split: if_splits)

lemma stage_rows_one: "wt_staged_rows t < wt_input_total t \<Longrightarrow> \<exists>t'. stage_rows t 1 = Inr t'"
proof -
  assume lt: "wt_staged_rows t < wt_input_total t"
  then have "unat (wt_staged_rows t) + unat (1 :: u64) \<le> unat (wt_input_total t)"
    by (simp add: word_less_nat_alt)
  then obtain s where s: "checked_add (wt_staged_rows t) 1 = Some s"
      and "unat s = unat (wt_staged_rows t) + unat (1 :: u64)"
    by (rule checked_add_ex)
  with lt have "\<not> s > wt_input_total t" by (simp add: word_less_nat_alt)
  with s show ?thesis by (simp add: stage_rows_def)
qed

lemma key_ok_redacted: "field_ok f \<Longrightarrow> key_ok (map_option redacted f)"
  by (cases f) (simp_all add: key_ok_def redacted_def field_ok_def)

lemma all_write_states:
  "(\<forall>s. P s) \<longleftrightarrow> P WsCertainlyRejected \<and> P WsCertainlyNotAttempted \<and> P WsCertainlyRolledBack
     \<and> P WsEffectUnknown"
  by (metis write_state.exhaust)

lemma rejection_report_valid:
  assumes t: "tracker_ok t" and index: "rr_source_index r = wt_staged_rows t"
    and cause: "is_contract_identifier (rr_cause r)" and column: "field_ok (rr_column r)"
    and rest: "unat not_attempted + 1 + unat (wt_staged_rows t) = unat (wt_input_total t)"
  shows "valid_document (rejection_report t r not_attempted rollback)"
proof -
  have limit: "1 \<le> unat (dp_examples_limit (wt_policy t))"
    using t by (simp add: tracker_ok_def Suc_le_eq unat_gt_0)
  have key: "key_ok (map_option redacted (dp_key_field (wt_policy t)))"
    using t by (intro key_ok_redacted) (simp add: tracker_ok_def)
  have "1 \<le> wt_input_total t" using rest by (simp add: word_le_nat_alt)
  then have fields: "write_fields_ok (rejection_report t r not_attempted rollback) (wt_input_total t)
      \<lparr>sc_certainly_rejected = 1, sc_certainly_not_attempted = 0, sc_certainly_rolled_back = 0,
       sc_effect_unknown = 0\<rparr> (the (rd_write_outcome (rejection_report t r not_attempted rollback)))"
    using t rest
    by (cases rollback)
      (auto simp: write_fields_ok_def rejection_report_def over_states_def WRITE_STATES_def
        tracker_ok_def all_write_states)
  show ?thesis
    using fields limit key cause column
    by (cases rollback)
      (simp_all add: valid_document_def completeness_ok_def counts_ok_def examples_ok_def example_ok_def
        partition_ok_def rejection_report_def)
qed

lemma reject_row_eq:
  assumes lt: "wt_staged_rows t < wt_input_total t" and index: "rr_source_index r = wt_staged_rows t"
    and cause: "is_contract_identifier (rr_cause r)"
  shows "\<exists>n. unat n + 1 + unat (wt_staged_rows t) = unat (wt_input_total t)
    \<and> reject_row t r rollback = and_then (validate_diagnostics (rejection_report t r n rollback))
          (\<lambda>_. Inr (rejection_report t r n rollback))"
proof -
  let ?rem = "wt_input_total t - wt_staged_rows t"
  have rem: "checked_sub (wt_input_total t) (wt_staged_rows t) = Some ?rem"
    using lt by (simp add: checked_sub_Some)
  then have rem_nat: "unat ?rem + unat (wt_staged_rows t) = unat (wt_input_total t)"
    by (rule checked_sub_unat)
  with lt have "1 \<le> unat ?rem" by (simp add: word_less_nat_alt)
  then have n: "checked_sub ?rem 1 = Some (?rem - 1)"
    by (simp add: checked_sub_Some word_le_nat_alt)
  then have "unat (?rem - 1) + unat (1 :: u64) = unat ?rem" by (rule checked_sub_unat)
  with rem_nat have "unat (?rem - 1) + 1 + unat (wt_staged_rows t) = unat (wt_input_total t)" by simp
  moreover have "reject_row t r rollback = and_then (validate_diagnostics (rejection_report t r (?rem - 1) rollback))
      (\<lambda>_. Inr (rejection_report t r (?rem - 1) rollback))"
    using index cause by (simp add: reject_row_def rem n Let_def)
  ultimately show ?thesis by blast
qed

lemma reject_row_Inr:
  assumes t: "tracker_ok t" and lt: "wt_staged_rows t < wt_input_total t"
    and index: "rr_source_index r = wt_staged_rows t"
    and cause: "is_contract_identifier (rr_cause r)" and column: "field_ok (rr_column r)"
  shows "\<exists>n. reject_row t r rollback = Inr (rejection_report t r n rollback)
    \<and> valid_document (rejection_report t r n rollback)
    \<and> unat n + 1 + unat (wt_staged_rows t) = unat (wt_input_total t)"
proof -
  obtain n where n: "unat n + 1 + unat (wt_staged_rows t) = unat (wt_input_total t)"
    "reject_row t r rollback = and_then (validate_diagnostics (rejection_report t r n rollback))
          (\<lambda>_. Inr (rejection_report t r n rollback))"
    using reject_row_eq [OF lt index cause] by blast
  note valid = rejection_report_valid [OF t index cause column n(1), of rollback]
  with n show ?thesis by (auto simp: diagnostics.guard_ok [OF valid])
qed

text \<open>The two ways a rejection can be refused: a cause that is no identifier of the contract and a column out of its bounds.\<close>

definition BAD_CAUSE :: database_error where
  "BAD_CAUSE = invalid ''causa row diagnostics non valida''"

definition BAD_COLUMN :: database_error where
  "BAD_COLUMN = invalid ''colonna di un esempio fuori dai limiti del contratto''"

lemma reject_row_bad_cause:
  "rr_source_index r = wt_staged_rows t \<Longrightarrow> \<not> is_contract_identifier (rr_cause r) \<Longrightarrow>
     reject_row t r rollback = Inl BAD_CAUSE"
  by (simp add: reject_row_def BAD_CAUSE_def)

lemma rejection_report_bad_column:
  assumes limit: "dp_examples_limit (wt_policy t) \<noteq> 0" and cause: "is_contract_identifier (rr_cause r)"
    and column: "\<not> field_ok (rr_column r)"
  shows "validate_diagnostics (rejection_report t r n rollback) = Inl BAD_COLUMN"
proof -
  let ?d = "rejection_report t r n rollback"
  have parts: "validate_completeness ?d = Inr ()" "validate_counts ?d = Inr ()"
    unfolding validate_completeness_iff validate_counts_iff
    using cause by (cases rollback; simp add: completeness_ok_def counts_ok_def rejection_report_def)+
  have "validate_optional_field (rr_column r) ''colonna'' = Inl BAD_COLUMN"
    using column by (auto simp: validate_optional_field_def field_ok_def BAD_COLUMN_def split: option.splits)
  then have ex: "scan_examples ?d {} (\<lambda>_. 0) (rd_examples ?d) = Inl BAD_COLUMN"
    by (cases rollback) (simp_all add: rejection_report_def validate_example_def)
  have "1 \<le> (ucast (dp_examples_limit (wt_policy t)) :: u64)"
    using limit unat_lt_width [of "dp_examples_limit (wt_policy t)"]
    by (simp add: word_le_nat_alt unsigned_ucast_eq take_bit_nat_eq_self Suc_le_eq unat_gt_0)
  moreover from this have "(ucast (dp_examples_limit (wt_policy t)) :: u64) \<noteq> 0" by auto
  moreover have "rd_examples_limit ?d = dp_examples_limit (wt_policy t)" "length (rd_examples ?d) = 1"
    "rd_observed_total ?d = 1" "rd_completeness ?d = DcComplete" "\<not> rd_examples_truncated ?d"
    by (cases rollback; simp add: rejection_report_def)+
  ultimately have "validate_examples ?d = Inl BAD_COLUMN"
    using limit ex by (simp add: validate_examples_def Let_def min_def)
  with parts show ?thesis
    by (cases rollback) (simp_all add: validate_diagnostics_def rejection_report_def)
qed

lemma reject_row_bad_column:
  assumes "tracker_ok t" "wt_staged_rows t < wt_input_total t" "rr_source_index r = wt_staged_rows t"
    and "is_contract_identifier (rr_cause r)" "\<not> field_ok (rr_column r)"
  shows "reject_row t r rollback = Inl BAD_COLUMN"
proof -
  have "dp_examples_limit (wt_policy t) \<noteq> 0" using assms(1) by (simp add: tracker_ok_def)
  with reject_row_eq [OF assms(2-4), of rollback] rejection_report_bad_column [OF _ assms(4,5)]
  show ?thesis by auto
qed

section \<open>The row-by-row write\<close>

text \<open>
  \<open>applied_run writer w i n\<close> is the writer's state after it has applied the \<open>n\<close> source rows from
  index \<open>i\<close> on, one statement per row; \<open>None\<close> if one of them was not applied.
\<close>

fun applied_run :: "'w row_scoped_writer \<Rightarrow> 'w \<Rightarrow> u64 \<Rightarrow> nat \<Rightarrow> 'w option" where
  "applied_run writer w i 0 = Some w"
| "applied_run writer w i (Suc n) =
     (case apply_row writer w i of
        (Inr Applied, w1) \<Rightarrow> applied_run writer w1 (i + 1) n
      | _ \<Rightarrow> None)"

text \<open>What the writer answers for the first row not applied, or at the end of the input, and what the write returns then.\<close>

definition rejection_result :: "write_tracker \<Rightarrow> row_rejection \<Rightarrow> rollback_evidence
    \<Rightarrow> row_rejection_outcome option result \<Rightarrow> bool" where
  "rejection_result t rejection evidence r \<longleftrightarrow>
     (if \<not> is_contract_identifier (rj_cause rejection) then r = Inl BAD_CAUSE
      else if \<not> field_ok (rj_column rejection) then r = Inl BAD_COLUMN
      else \<exists>not_attempted report.
        unat not_attempted + 1 + unat (wt_staged_rows t) = unat (wt_input_total t) \<and>
        report = rejection_report t
          \<lparr>rr_source_index = wt_staged_rows t, rr_cause = rj_cause rejection,
           rr_column = rj_column rejection\<rparr> not_attempted evidence \<and>
        valid_document report \<and>
        r = Inr (Some \<lparr>ro_diagnostics = report, ro_rollback = evidence\<rparr>))"

definition diagnosis_ok :: "'w row_scoped_writer \<Rightarrow> 'w \<Rightarrow> write_tracker
    \<Rightarrow> row_rejection_outcome option result \<Rightarrow> 'w \<Rightarrow> write_tracker \<Rightarrow> bool" where
  "diagnosis_ok writer w t r w' t' \<longleftrightarrow>
     (\<exists>n w1. applied_run writer w (wt_staged_rows t) n = Some w1 \<and>
        unat (wt_staged_rows t') = unat (wt_staged_rows t) + n \<and>
        wt_input_total t' = wt_input_total t \<and> wt_policy t' = wt_policy t \<and>
        wt_staged_rows t' \<le> wt_input_total t \<and>
        (if wt_staged_rows t' = wt_input_total t
         then (case finish_declared_input writer w1 of
                 (Inl e, w2) \<Rightarrow> r = Inl e \<and> w' = w2
               | (Inr _, w2) \<Rightarrow> r = Inr None \<and> w' = w2)
         else (case apply_row writer w1 (wt_staged_rows t') of
                 (Inl e, w2) \<Rightarrow> r = Inl e \<and> w' = w2
               | (Inr Applied, _) \<Rightarrow> False
               | (Inr (Rejected rejection), w2) \<Rightarrow>
                   rejection_result t' rejection (fst (writer_rollback writer w2)) r \<and>
                   w' = snd (writer_rollback writer w2))))"

lemma diagnosis_step:
  assumes row: "apply_row writer w (wt_staged_rows t) = (Inr Applied, w1)"
    and stage: "stage_rows t 1 = Inr t1" and lt: "wt_staged_rows t < wt_input_total t"
    and rest: "diagnosis_ok writer w1 t1 r w' t'"
  shows "diagnosis_ok writer w t r w' t'"
proof -
  from stage_rows_progress [OF stage lt]
  have t1: "wt_input_total t1 = wt_input_total t" "wt_policy t1 = wt_policy t"
    "unat (wt_staged_rows t1) = Suc (unat (wt_staged_rows t))" by auto
  from stage have next_row: "wt_staged_rows t1 = wt_staged_rows t + 1"
    by (auto simp: stage_rows_def result_simps checked_simps split: if_splits)
  obtain n w2 where "applied_run writer w1 (wt_staged_rows t1) n = Some w2"
    and "unat (wt_staged_rows t') = unat (wt_staged_rows t1) + n"
    and "wt_input_total t' = wt_input_total t1" "wt_policy t' = wt_policy t1"
      "wt_staged_rows t' \<le> wt_input_total t1"
    and tail: "if wt_staged_rows t' = wt_input_total t1
         then (case finish_declared_input writer w2 of
                 (Inl e, w3) \<Rightarrow> r = Inl e \<and> w' = w3
               | (Inr _, w3) \<Rightarrow> r = Inr None \<and> w' = w3)
         else (case apply_row writer w2 (wt_staged_rows t') of
                 (Inl e, w3) \<Rightarrow> r = Inl e \<and> w' = w3
               | (Inr Applied, _) \<Rightarrow> False
               | (Inr (Rejected rejection), w3) \<Rightarrow>
                   rejection_result t' rejection (fst (writer_rollback writer w3)) r \<and>
                   w' = snd (writer_rollback writer w3))"
    using rest unfolding diagnosis_ok_def by blast
  then show ?thesis
    unfolding diagnosis_ok_def using row t1 next_row
    by (intro exI [of _ "Suc n"] exI [of _ w2]) simp
qed

lemma rejection_returned:
  assumes t: "tracker_ok t" "wt_staged_rows t < wt_input_total t"
  shows "rejection_result t rejection evidence
    (and_then (reject_row t \<lparr>rr_source_index = wt_staged_rows t, rr_cause = rj_cause rejection,
                             rr_column = rj_column rejection\<rparr> evidence)
       (\<lambda>diagnostics. Inr (Some \<lparr>ro_diagnostics = diagnostics, ro_rollback = evidence\<rparr>)))"
proof -
  let ?row = "\<lparr>rr_source_index = wt_staged_rows t, rr_cause = rj_cause rejection, rr_column = rj_column rejection\<rparr>"
  consider (cause) "\<not> is_contract_identifier (rj_cause rejection)"
    | (column) "is_contract_identifier (rj_cause rejection)" "\<not> field_ok (rj_column rejection)"
    | (good) "is_contract_identifier (rj_cause rejection)" "field_ok (rj_column rejection)" by blast
  then show ?thesis
  proof cases
    case cause
    then show ?thesis by (simp add: rejection_result_def reject_row_bad_cause)
  next
    case column
    then show ?thesis by (simp add: rejection_result_def reject_row_bad_column [OF t])
  next
    case good
    with reject_row_Inr [OF t, of ?row evidence] obtain n where
      "reject_row t ?row evidence = Inr (rejection_report t ?row n evidence)"
      "valid_document (rejection_report t ?row n evidence)"
      "unat n + 1 + unat (wt_staged_rows t) = unat (wt_input_total t)" by auto
    with good show ?thesis unfolding rejection_result_def by (auto intro!: exI [of _ n])
  qed
qed

lemma diagnose_ok:
  assumes "diagnose_row_scoped_write writer w t = (r, w', t')" and "tracker_ok t"
  shows "diagnosis_ok writer w t r w' t'"
  using assms
proof (induction writer w t arbitrary: r w' t' rule: diagnose_row_scoped_write.induct)
  case (1 writer w t)
  note unfolded = "1.prems"(1) [unfolded diagnose_row_scoped_write.simps [of writer w t]]
  show ?case
  proof (cases "wt_staged_rows t < wt_input_total t")
    case False
    then have "wt_staged_rows t = wt_input_total t" using "1.prems"(2) by (simp add: tracker_ok_def)
    with unfolded show ?thesis
      by (auto simp: diagnosis_ok_def split: prod.splits sum.splits intro!: exI [of _ "0 :: nat"])
  next
    case lt: True
    obtain res w1 where row: "apply_row writer w (wt_staged_rows t) = (res, w1)" by force
    have here: "diagnosis_ok writer w t r w' t" if "wt_staged_rows t \<noteq> wt_input_total t"
        "case (res, w1) of (Inl e, w2) \<Rightarrow> r = Inl e \<and> w' = w2
               | (Inr Applied, _) \<Rightarrow> False
               | (Inr (Rejected rejection), w2) \<Rightarrow>
                   rejection_result t rejection (fst (writer_rollback writer w2)) r \<and>
                   w' = snd (writer_rollback writer w2)"
      unfolding diagnosis_ok_def using that lt row
      by (intro exI [of _ "0 :: nat"] exI [of _ w]) (simp add: order_less_imp_le)
    show ?thesis
    proof (cases res)
      case (Inl e)
      with unfolded lt row here show ?thesis by auto
    next
      case (Inr application)
      show ?thesis
      proof (cases application)
        case Applied
        from stage_rows_one [OF lt] obtain t1 where t1: "stage_rows t 1 = Inr t1" by blast
        with unfolded lt row Inr Applied have "diagnose_row_scoped_write writer w1 t1 = (r, w', t')" by simp
        then have "diagnosis_ok writer w1 t1 r w' t'"
          using "1.IH" [OF lt refl, of res w1] row Inr Applied t1 stage_rows_ok [OF "1.prems"(2) t1] by simp
        with row Inr Applied show ?thesis by (auto intro: diagnosis_step [OF _ t1 lt])
      next
        case (Rejected rejection)
        obtain evidence w2 where rollback: "writer_rollback writer w1 = (evidence, w2)" by force
        have "t' = t" "w' = w2" "rejection_result t rejection evidence r"
          using unfolded lt row Inr Rejected rollback
            rejection_returned [OF "1.prems"(2) lt, of rejection evidence] by (auto simp: Let_def)
        with here lt Inr Rejected rollback show ?thesis by simp
      qed
    qed
  qed
qed

section \<open>The read tracker\<close>

definition read_tracker_ok :: "read_tracker \<Rightarrow> bool" where
  "read_tracker_ok t \<longleftrightarrow> rp_examples_limit (rt_policy t) \<noteq> 0 \<and> field_ok (rp_key_field (rt_policy t))"

lemma read_tracker_new_ok: "read_tracker_new p = Inr t \<Longrightarrow> read_tracker_ok t"
  by (auto simp: read_tracker_new_def read_tracker_ok_def result_simps validate_optional_field_iff
      split: if_splits)

lemma read_tracker_default_ok: "read_tracker_ok read_tracker_default"
  by (simp add: read_tracker_ok_def read_tracker_default_def field_ok_def DEFAULT_EXAMPLES_LIMIT_def)

lemma publish_batch_ok: "read_tracker_ok t \<Longrightarrow> publish_batch t n = Inr t' \<Longrightarrow> read_tracker_ok t'"
  by (auto simp: publish_batch_def read_tracker_ok_def result_simps)

lemma contract_constants [simp]:
  "is_contract_identifier CAUSE_CONSTRAINT_VIOLATION"
  "is_contract_identifier CAUSE_VALUE_NOT_REPRESENTABLE"
  "is_contract_identifier LIMIT_SCAN_STOPPED_AT_FIRST_DEFECT"
  "is_contract_identifier LIMIT_BATCHES_ALREADY_PUBLISHED"
  "is_contract_identifier LIMIT_ROW_ATTRIBUTION_UNAVAILABLE"
  "LIMIT_SCAN_STOPPED_AT_FIRST_DEFECT \<noteq> LIMIT_BATCHES_ALREADY_PUBLISHED"
  by (simp_all add: CAUSE_CONSTRAINT_VIOLATION_def CAUSE_VALUE_NOT_REPRESENTABLE_def
      LIMIT_SCAN_STOPPED_AT_FIRST_DEFECT_def LIMIT_BATCHES_ALREADY_PUBLISHED_def
      LIMIT_ROW_ATTRIBUTION_UNAVAILABLE_def is_contract_identifier_def MAX_IDENTIFIER_BYTES_def
      is_ascii_lowercase_def is_ascii_digit_def)

lemma attributed_report_valid:
  assumes t: "read_tracker_ok t" and cause: "is_contract_identifier cause" and column: "field_ok column"
  shows "valid_document (attributed_report t i cause column)"
proof -
  have "1 \<le> unat (rp_examples_limit (rt_policy t))"
    using t by (simp add: read_tracker_ok_def Suc_le_eq unat_gt_0)
  moreover have "key_ok (map_option redacted (rp_key_field (rt_policy t)))"
    using t by (intro key_ok_redacted) (simp add: read_tracker_ok_def)
  ultimately show ?thesis
    using cause column
    by (simp add: valid_document_def completeness_ok_def counts_ok_def examples_ok_def example_ok_def
        partition_ok_def attributed_report_def)
qed

lemma unattributable_report_valid:
  "read_tracker_ok t \<Longrightarrow> valid_document (unattributable_report t)"
  by (simp add: valid_document_def completeness_ok_def counts_ok_def examples_ok_def
      partition_ok_def unattributable_report_def read_tracker_ok_def unat_gt_0)

lemma attributed_defect_Inr:
  assumes "read_tracker_ok t" and "is_contract_identifier cause" and "field_ok column"
    and "source_index t offset = Inr i"
  shows "attributed_defect t offset cause column = Inr (attributed_report t i cause column)"
proof -
  have "validate_optional_field column ''colonna'' = Inr ()"
    using assms(3) by (simp add: validate_optional_field_iff)
  with assms show ?thesis
    by (simp add: attributed_defect_def Let_def diagnostics.guard_ok [OF attributed_report_valid])
qed

lemma into_read_rejection_Inr:
  assumes "valid_document d" and "rd_scope d = ScopeRead" and "e_category e = DataMapping"
  shows "into_read_rejection e d =
    Inr (e\<lparr>e_phase := PhRead, e_remote_effect := EffNone, e_retry := Never, e_diagnostics := Some d\<rparr>)"
  using assms by (simp add: into_read_rejection_def with_row_diagnostics_def diagnostics.guard_ok)

text \<open>The document \<open>reject_conversion_defect\<close> attaches: attributed when the index fits.\<close>

definition defect_document :: "read_tracker \<Rightarrow> u64 option \<Rightarrow> string option \<Rightarrow> row_diagnostics" where
  "defect_document t offset column =
     (case Option.bind offset (checked_add (rt_published_rows t)) of
        None \<Rightarrow> unattributable_report t
      | Some i \<Rightarrow> attributed_report t i CAUSE_VALUE_NOT_REPRESENTABLE column)"

lemma defect_document_valid:
  assumes "read_tracker_ok t" and "field_ok column"
  shows "valid_document (defect_document t offset column)"
  using assms
  by (simp add: defect_document_def attributed_report_valid unattributable_report_valid
      split: option.split)

lemma defect_document_fields:
  "rd_scope (defect_document t offset column) = ScopeRead"
  "map ex_source_index (rd_examples (defect_document t offset column)) =
     (case Option.bind offset (checked_add (rt_published_rows t)) of None \<Rightarrow> [] | Some i \<Rightarrow> [i])"
  by (simp_all add: defect_document_def attributed_report_def unattributable_report_def
      split: option.split)

lemma defect_document_chosen:
  assumes t: "read_tracker_ok t" and col: "field_ok col"
  shows "(case and_then (ok_or offset (invalid m))
        (\<lambda>offset. attributed_defect t offset CAUSE_VALUE_NOT_REPRESENTABLE col) of
      Inr d \<Rightarrow> Inr d | Inl _ \<Rightarrow> unattributable_defect t) = Inr (defect_document t offset col)"
proof (cases "Option.bind offset (checked_add (rt_published_rows t))")
  case None
  have "unattributable_defect t = Inr (defect_document t offset col)"
    using None t by (simp add: defect_document_def unattributable_defect_def Let_def
        diagnostics.guard_ok [OF unattributable_report_valid])
  moreover have "\<not> is_ok (and_then (ok_or offset (invalid m))
      (\<lambda>offset. attributed_defect t offset CAUSE_VALUE_NOT_REPRESENTABLE col))"
    using None by (cases offset)
      (auto simp: attributed_defect_def is_ok_iff result_simps source_index_def Let_def)
  ultimately show ?thesis by (auto simp: is_ok_def split: sum.splits)
next
  case (Some i)
  then obtain o' where o': "offset = Some o'" "source_index t o' = Inr i"
    by (auto simp: source_index_def bind_eq_Some_conv)
  with Some show ?thesis
    by (simp add: defect_document_def attributed_defect_Inr [OF t _ col o'(2)])
qed

section \<open>Properties\<close>

text \<open>\<open>RowDiagnostics::validate\<close> accepts a document exactly when it has the contract's shape
  and its arithmetic holds over the natural numbers: the causes add up to \<open>observed_total\<close>, the
  published examples are distinct, within the limit and within each cause's and each state's count,
  and the certain outcomes plus the diagnosed unknown ones never exceed \<open>input_total\<close> (and cover it
  when every outcome is certain).  No 64-bit wrap-around can make the two differ.\<close>

lemma validate_diagnostics_decides: "validate_diagnostics d = Inr () \<longleftrightarrow> valid_document d"
  by (rule diagnostics.decides)

text \<open>C19: for every writer, the row-by-row write of a tracker that satisfies its invariant stops
  and reports exactly what happened.  It applied a run of consecutive source rows and counted them.  If that is the
  whole declared input, it returns what the writer answered to its end: \<open>None\<close>, or the writer's error.
  Otherwise the next row was not applied, and it returns the writer's error for that row; or, when the writer
  rejected the row, it asked the writer to roll back and returns the valid document that names the row, counts
  the rows staged and never attempted and carries the rollback evidence, unless the rejection names a cause or
  a column outside the contract, which is an invalid plan.\<close>

theorem diagnose_write_exact:
  assumes "tracker_ok t"
  shows "case diagnose_row_scoped_write writer w t of (r, w', t') \<Rightarrow> diagnosis_ok writer w t r w' t'"
  using assms by (auto intro: diagnose_ok)

definition sample_writer :: "nat row_scoped_writer" where
  "sample_writer =
     \<lparr>apply_row = (\<lambda>w i. (if i = 2 then Inr (Rejected \<lparr>rj_cause = CAUSE_CONSTRAINT_VIOLATION,
                                                      rj_column = None\<rparr>) else Inr Applied, Suc w)),
      finish_declared_input = (\<lambda>w. (Inr (), w)), writer_rollback = (\<lambda>w. (Lost, w))\<rparr>"

definition sample_tracker :: write_tracker where
  "sample_tracker = \<lparr>wt_input_total = 5, wt_policy = default_diagnostics_policy, wt_staged_rows = 0\<rparr>"

theorem diagnose_write_exact_witness:
  "tracker_ok sample_tracker \<and>
   (case diagnose_row_scoped_write sample_writer 0 sample_tracker of
      (r, w', t') \<Rightarrow> diagnosis_ok sample_writer 0 sample_tracker r w' t')"
proof -
  have "tracker_ok sample_tracker"
    by (simp add: tracker_ok_def sample_tracker_def default_diagnostics_policy_def field_ok_def
        DEFAULT_EXAMPLES_LIMIT_def)
  with diagnose_write_exact [OF this, of sample_writer 0] show ?thesis by blast
qed

text \<open>Rejecting the first row that is not staged always yields a document, whatever the rollback
  evidence: the document is valid, it accounts for the rejected row, the rows never attempted and the
  staged ones, and these three add up to the declared input.\<close>

lemma reject_row_total:
  assumes "tracker_ok t" and "wt_staged_rows t < wt_input_total t"
    and "rr_source_index r = wt_staged_rows t"
    and "is_contract_identifier (rr_cause r)" and "field_ok (rr_column r)"
  shows "\<exists>n. reject_row t r rollback = Inr (rejection_report t r n rollback)
    \<and> valid_document (rejection_report t r n rollback)
    \<and> unat n + 1 + unat (wt_staged_rows t) = unat (wt_input_total t)"
  using assms by (rule reject_row_Inr)

text \<open>Closing a conversion defect of a read never fails and never rewrites who failed: with a
  tracker that satisfies its invariant a \<open>DataMapping\<close> error always leaves with a valid read document,
  the read axes (phase read, no effect, no retry) and its own message; when the offset fits, the
  document names the row at the cursor plus the offset.\<close>

lemma conversion_defect_total:
  assumes t: "read_tracker_ok t" and category: "e_category e = DataMapping"
  shows "\<exists>d. reject_conversion_defect t e offset column =
      e\<lparr>e_phase := PhRead, e_remote_effect := EffNone, e_retry := Never, e_diagnostics := Some d\<rparr>
    \<and> valid_document d \<and> rd_scope d = ScopeRead
    \<and> map ex_source_index (rd_examples d) =
        (case Option.bind offset (checked_add (rt_published_rows t)) of None \<Rightarrow> [] | Some i \<Rightarrow> [i])"
proof -
  define col where "col = (case column of None \<Rightarrow> None
      | Some v \<Rightarrow> if is_ok (validate_optional_field (Some v) ''colonna'') then Some v else None)"
  have col: "field_ok col"
    by (auto simp: col_def field_ok_def is_ok_iff validate_optional_field_iff split: option.splits)
  note valid = defect_document_valid [OF t col, of offset]
  have "reject_conversion_defect t e offset column =
      e\<lparr>e_phase := PhRead, e_remote_effect := EffNone, e_retry := Never,
        e_diagnostics := Some (defect_document t offset col)\<rparr>"
    using category
    by (simp add: reject_conversion_defect_def Let_def flip: col_def)
      (simp add: defect_document_chosen [OF t col]
        into_read_rejection_Inr [OF valid defect_document_fields(1) category])
  then show ?thesis using valid defect_document_fields [of t offset col] by blast
qed

text \<open>The error a rejected row becomes never claims more than the rollback evidence proves: a
  confirmed rollback is a rolled-back effect in the write phase, a lost acknowledgement is an unknown
  effect that quarantines the session; neither can be retried automatically, and a valid document is
  always carried.\<close>

lemma rejection_error_axes:
  assumes "valid_document (ro_diagnostics ro)"
  shows "\<exists>e. outcome_into_error ro provider execution_id = Inr e \<and> \<not> is_retryable e
    \<and> e_diagnostics e = Some (ro_diagnostics ro) \<and> coherent_axes e
    \<and> (e_remote_effect e = (if ro_rollback ro = Confirmed then EffRolledBack else EffUnknown))
    \<and> (e_retry e = Quarantine \<longleftrightarrow> ro_rollback ro = Lost)"
  using assms
  by (cases "ro_rollback ro")
    (simp_all add: outcome_into_error_def with_row_diagnostics_def diagnostics.guard_ok
      is_retryable_def coherent_axes_def uncertain_axes_def)

end
