(* ===== verification/Outcome.thy ===== *)
theory Outcome
  imports Error_Model
begin

text \<open>
  Portable write outcomes (\<open>outcome.rs\<close>), plan limits (\<open>limits.rs\<close>) and the loss report of a
  mapping (\<open>loss.rs\<close>) of \<open>plenora-database-core\<close>: their validators, and \<open>WriteOutcome::settle\<close>,
  through which every public surface turns an outcome into a success or a typed error.
\<close>

section \<open>Limits\<close>

record limits =
  l_max_rows :: "u64 option"
  l_max_batches :: u64
  l_max_memory_bytes :: u64
  l_max_batch_bytes :: u64
  l_max_wkb_cell_bytes :: u64
  l_timeout_ms :: u64
  l_max_plan_json_bytes :: nat
  l_max_identifier_bytes :: nat
  l_max_filter_depth :: nat
  l_max_filter_nodes :: nat

definition default_limits :: limits where
  "default_limits =
     \<lparr>l_max_rows = None, l_max_batches = 65536, l_max_memory_bytes = 512 * 1024 * 1024,
      l_max_batch_bytes = 16 * 1024 * 1024, l_max_wkb_cell_bytes = 64 * 1024 * 1024,
      l_timeout_ms = 30000, l_max_plan_json_bytes = 4 * 1024 * 1024, l_max_identifier_bytes = 256,
      l_max_filter_depth = 64, l_max_filter_nodes = 4096\<rparr>"

definition validate_limits_doc :: "limits \<Rightarrow> unit result" where
  "validate_limits_doc l =
     (if l_max_batches l = 0 \<or> l_max_memory_bytes l = 0 \<or> l_max_batch_bytes l = 0
         \<or> l_max_wkb_cell_bytes l = 0 \<or> l_timeout_ms l = 0 \<or> l_max_plan_json_bytes l = 0
         \<or> l_max_identifier_bytes l = 0 \<or> l_max_filter_depth l = 0 \<or> l_max_filter_nodes l = 0
      then Inl (invalid_plan ''i limiti hard devono essere maggiori di zero'')
      else if l_max_batch_bytes l > l_max_memory_bytes l
      then Inl (invalid_plan ''max_batch_bytes supera max_memory_bytes'')
      else Inr ())"

section \<open>The loss report\<close>

datatype mapping_policy = Strict | Compatible | Lossy | Native

datatype loss_severity = Information | Warning | DataLoss

datatype loss_category =
    LcPrecision | LcScale | LcRange | LcTimezone | LcEncoding | LcCollation | LcNativeType
  | LcGeometryType | LcDimensions | LcSrid | LcCrs | LcNullability | LcDefault | LcGenerated

record mapping_loss =
  ml_field_id :: u32
  ml_category :: loss_category
  ml_severity :: loss_severity
  ml_reason :: string
  ml_source_type :: "string option"
  ml_target_type :: "string option"

record loss_report =
  lr_schema_version :: u32
  lr_policy :: mapping_policy
  lr_losses :: "mapping_loss list"

definition MAX_LOSSES :: nat where
  "MAX_LOSSES = 4096"

definition MAX_REASON_CHARS :: nat where
  "MAX_REASON_CHARS = 1024"

definition MAX_TYPE_CHARS :: nat where
  "MAX_TYPE_CHARS = 512"

definition permits_execution :: "loss_report \<Rightarrow> bool" where
  "permits_execution r \<longleftrightarrow>
     lr_policy r \<noteq> Strict \<or> \<not> list_ex (\<lambda>loss. ml_severity loss = DataLoss) (lr_losses r)"

definition check_loss_type :: "nat \<Rightarrow> string \<Rightarrow> string option \<Rightarrow> unit result" where
  "check_loss_type index field value =
     (case value of
        None \<Rightarrow> Inr ()
      | Some v \<Rightarrow>
          if char_count v > MAX_TYPE_CHARS
          then Inl (resource_limit (''loss report: '' @ field @ '' della perdita '' @ show_nat index
                 @ '' di '' @ show_nat (char_count v) @ '' caratteri, il contratto ne ammette ''
                 @ show_nat MAX_TYPE_CHARS))
          else Inr ())"

fun check_losses :: "nat \<Rightarrow> mapping_loss list \<Rightarrow> unit result" where
  "check_losses index [] = Inr ()"
| "check_losses index (loss # rest) =
     (if ml_reason loss = []
      then Inl (resource_limit (''loss report: la perdita '' @ show_nat index @ '' non ha motivo''))
      else if char_count (ml_reason loss) > MAX_REASON_CHARS
      then Inl (resource_limit (''loss report: motivo della perdita '' @ show_nat index @ '' di ''
             @ show_nat (char_count (ml_reason loss)) @ '' caratteri, il contratto ne ammette ''
             @ show_nat MAX_REASON_CHARS))
      else and_then (check_loss_type index ''source_type'' (ml_source_type loss)) (\<lambda>_.
           and_then (check_loss_type index ''target_type'' (ml_target_type loss)) (\<lambda>_.
           check_losses (Suc index) rest)))"

definition validate_loss_report :: "loss_report \<Rightarrow> unit result" where
  "validate_loss_report r =
     (if lr_schema_version r \<noteq> 2
      then Inl (invalid_plan ''loss report con schema_version non supportata'')
      else if length (lr_losses r) > MAX_LOSSES
      then Inl (resource_limit (''loss report con '' @ show_nat (length (lr_losses r))
             @ '' perdite, il contratto ne ammette '' @ show_nat MAX_LOSSES))
      else check_losses 0 (lr_losses r))"

section \<open>Write outcomes\<close>

datatype write_status = StCommitted | StRolledBack | StPartiallyCommitted | StOutcomeUnknown

record row_counts =
  rc_received :: u64
  rc_confirmed :: u64
  rc_inserted :: "u64 option"
  rc_updated :: "u64 option"
  rc_deleted :: "u64 option"
  rc_failed :: u64
  rc_skipped :: u64

datatype certain_phase =
  SessionReady | TransactionBegun | StagingPrepared | Writing | Finalizing | CommitRequested

record recovery =
  re_last_certain_phase :: certain_phase
  re_automatic_retry_allowed :: bool
  re_idempotency_key :: "string option"
  re_staging_object :: "string option"
  re_verification_action :: "string option"
  re_cause :: "error_category option"

record write_outcome =
  wo_schema_version :: u32
  wo_status :: write_status
  wo_execution_id :: string
  wo_provider :: provider_kind
  wo_rows :: row_counts
  wo_recovery :: "recovery option"

definition MAX_EXECUTION_ID_CHARS :: nat where "MAX_EXECUTION_ID_CHARS = 128"
definition MAX_IDEMPOTENCY_KEY_CHARS :: nat where "MAX_IDEMPOTENCY_KEY_CHARS = 256"
definition MAX_STAGING_OBJECT_CHARS :: nat where "MAX_STAGING_OBJECT_CHARS = 512"
definition MAX_VERIFICATION_ACTION_CHARS :: nat where "MAX_VERIFICATION_ACTION_CHARS = 1024"

definition recovery_too_long :: "recovery \<Rightarrow> bool" where
  "recovery_too_long r \<longleftrightarrow>
     list_ex (\<lambda>(field, limit). case field of None \<Rightarrow> False | Some v \<Rightarrow> char_count v > limit)
       [(re_idempotency_key r, MAX_IDEMPOTENCY_KEY_CHARS),
        (re_staging_object r, MAX_STAGING_OBJECT_CHARS),
        (re_verification_action r, MAX_VERIFICATION_ACTION_CHARS)]"

fun try_fold_add :: "u64 \<Rightarrow> u64 list \<Rightarrow> u64 option" where
  "try_fold_add acc [] = Some acc"
| "try_fold_add acc (x # xs) = Option.bind (checked_add acc x) (\<lambda>s. try_fold_add s xs)"

definition flatten_options :: "'a option list \<Rightarrow> 'a list" where
  "flatten_options xs = List.map_filter id xs"

definition validate_row_counts :: "row_counts \<Rightarrow> unit result" where
  "validate_row_counts rows =
     and_then (ok_or (Option.bind (checked_add (rc_confirmed rows) (rc_failed rows))
                        (\<lambda>v. checked_add v (rc_skipped rows)))
                (invalid_plan (''overflow nella contabilit'' @ [CHR 0xC3, CHR 0xA0] @ '' delle righe'')))
       (\<lambda>accounted.
          if accounted > rc_received rows
          then Inl (invalid_plan ''i conteggi di write superano le righe ricevute'')
          else and_then (ok_or (try_fold_add 0 (flatten_options
                                  [rc_inserted rows, rc_updated rows, rc_deleted rows]))
                           (invalid_plan ''overflow nei conteggi delle mutazioni''))
            (\<lambda>mutations.
               if mutations > rc_confirmed rows
               then Inl (invalid_plan ''le mutazioni confermate superano le righe confermate'')
               else Inr ()))"

definition validate_outcome :: "write_outcome \<Rightarrow> unit result" where
  "validate_outcome o1 =
     (let uncertain = wo_status o1 \<in> {StPartiallyCommitted, StOutcomeUnknown}
      in if wo_schema_version o1 \<noteq> 2
         then Inl (invalid_plan ''esito di scrittura con schema_version non supportata'')
         else if char_count (wo_execution_id o1) = 0
         then Inl (invalid_plan ''esito di scrittura senza execution_id'')
         else if char_count (wo_execution_id o1) > MAX_EXECUTION_ID_CHARS
         then Inl (invalid_plan ''execution_id oltre la lunghezza del contratto'')
         else if (case wo_recovery o1 of None \<Rightarrow> False | Some r \<Rightarrow> recovery_too_long r)
         then Inl (invalid_plan ''campo di recovery oltre la lunghezza del contratto'')
         else if uncertain \<noteq> (wo_recovery o1 \<noteq> None)
         then Inl (invalid_plan ''recovery deve essere presente soltanto per outcome parziale o incerto'')
         else if wo_status o1 = StOutcomeUnknown
                 \<and> (case wo_recovery o1 of None \<Rightarrow> False | Some r \<Rightarrow> re_automatic_retry_allowed r)
         then Inl (invalid_plan ''un outcome ignoto richiede recovery prima del retry'')
         else if wo_status o1 \<in> {StRolledBack, StOutcomeUnknown} \<and> rc_confirmed (wo_rows o1) \<noteq> 0
         then Inl (invalid_plan (''un outcome rolled_back o unknown non pu'' @ [CHR 0xC3, CHR 0xB2]
                @ '' confermare righe''))
         else validate_row_counts (wo_rows o1))"

fun status_effect :: "write_status \<Rightarrow> remote_effect" where
  "status_effect StCommitted = EffCommitted"
| "status_effect StRolledBack = EffRolledBack"
| "status_effect StPartiallyCommitted = EffPartial"
| "status_effect StOutcomeUnknown = EffUnknown"

definition outcome_remote_effect :: "write_outcome \<Rightarrow> remote_effect" where
  "outcome_remote_effect o1 = status_effect (wo_status o1)"

definition last_phase :: "write_outcome \<Rightarrow> error_phase" where
  "last_phase o1 =
     (case wo_recovery o1 of
        Some r \<Rightarrow>
          (case re_last_certain_phase r of
             SessionReady \<Rightarrow> PhConnect
           | TransactionBegun \<Rightarrow> PhWrite
           | Writing \<Rightarrow> PhWrite
           | StagingPrepared \<Rightarrow> PhPrepare
           | Finalizing \<Rightarrow> PhFinalize
           | CommitRequested \<Rightarrow> PhCommit)
      | None \<Rightarrow>
          (case wo_status o1 of
             StCommitted \<Rightarrow> PhCommit
           | StOutcomeUnknown \<Rightarrow> PhCommit
           | StRolledBack \<Rightarrow> PhRollback
           | StPartiallyCommitted \<Rightarrow> PhWrite))"

record unsettled_write =
  uw_error :: database_error
  uw_outcome :: "write_outcome option"

definition settled_error :: "write_outcome \<Rightarrow> error_category \<Rightarrow> error_phase \<Rightarrow> retry_disposition \<Rightarrow> string
    \<Rightarrow> unsettled_write" where
  "settled_error o1 category phase retry message =
     \<lparr>uw_error =
        \<lparr>e_category = category, e_phase = phase, e_remote_effect = outcome_remote_effect o1,
         e_retry = retry, e_provider = Some (wo_provider o1),
         e_execution_id = Some (wo_execution_id o1), e_message = message, e_diagnostics = None\<rparr>,
      uw_outcome = Some o1\<rparr>"

definition settle :: "write_outcome \<Rightarrow> unsettled_write + write_outcome" where
  "settle o1 =
     (if \<not> is_ok (validate_outcome o1) then
        Inl \<lparr>uw_error =
               \<lparr>e_category = Internal, e_phase = last_phase o1, e_remote_effect = EffUnknown,
                e_retry = RequiresRecovery, e_provider = Some (wo_provider o1),
                e_execution_id = None,
                e_message = ''esito di scrittura fuori contratto: verificare lo stato remoto prima di ogni nuovo tentativo'',
                e_diagnostics = None\<rparr>,
             uw_outcome = None\<rparr>
      else
        (case wo_status o1 of
           StCommitted \<Rightarrow> Inr o1
         | StOutcomeUnknown \<Rightarrow>
             Inl (settled_error o1
               (case Option.bind (wo_recovery o1) re_cause of None \<Rightarrow> Internal | Some c \<Rightarrow> c)
               PhCommit RequiresRecovery
               ''esito del commit ignoto: verificare lo stato remoto per execution_id prima di ogni nuovo tentativo'')
         | StPartiallyCommitted \<Rightarrow>
             Inl (settled_error o1 Execution PhWrite RequiresRecovery
               ''scrittura confermata solo in parte: recovery richiesto prima di ogni nuovo tentativo'')
         | StRolledBack \<Rightarrow>
             Inl (settled_error o1 Execution PhWrite Never
               ''scrittura annullata: nessuna riga confermata'')))"

section \<open>What the validators decide\<close>

definition limits_ok :: "limits \<Rightarrow> bool" where
  "limits_ok l \<longleftrightarrow>
     0 < l_max_batches l \<and> 0 < l_max_wkb_cell_bytes l \<and> 0 < l_timeout_ms l \<and>
     0 < l_max_batch_bytes l \<and> l_max_batch_bytes l \<le> l_max_memory_bytes l \<and>
     0 < l_max_plan_json_bytes l \<and> 0 < l_max_identifier_bytes l \<and>
     0 < l_max_filter_depth l \<and> 0 < l_max_filter_nodes l"

interpretation limits_validator: validator validate_limits_doc limits_ok
proof unfold_locales
  show "validate_limits_doc l = Inr () \<longleftrightarrow> limits_ok l" for l
    by (auto simp: validate_limits_doc_def limits_ok_def word_gt_0 not_less split: if_splits)
  show "refuses_locally (validate_limits_doc l)" for l
    unfolding validate_limits_doc_def by (auto intro!: refusal_intros)
qed

definition type_ok :: "string option \<Rightarrow> bool" where
  "type_ok v \<longleftrightarrow> (\<forall>s. v = Some s \<longrightarrow> char_count s \<le> MAX_TYPE_CHARS)"

definition loss_ok :: "mapping_loss \<Rightarrow> bool" where
  "loss_ok loss \<longleftrightarrow>
     1 \<le> char_count (ml_reason loss) \<and> char_count (ml_reason loss) \<le> MAX_REASON_CHARS \<and>
     type_ok (ml_source_type loss) \<and> type_ok (ml_target_type loss)"

definition loss_report_ok :: "loss_report \<Rightarrow> bool" where
  "loss_report_ok r \<longleftrightarrow>
     lr_schema_version r = 2 \<and> length (lr_losses r) \<le> MAX_LOSSES \<and> list_all loss_ok (lr_losses r)"

lemma check_loss_type_iff: "check_loss_type i f v = Inr u \<longleftrightarrow> type_ok v"
  by (cases v) (auto simp: check_loss_type_def type_ok_def)

lemma check_losses_iff: "check_losses i ls = Inr u \<longleftrightarrow> list_all loss_ok ls"
  by (induction ls arbitrary: i)
    (auto simp: result_simps check_loss_type_iff loss_ok_def Suc_le_eq not_less split: if_splits
      simp flip: neq0_conv)

lemma check_losses_refusal: "refuses_locally (check_losses i ls)"
proof -
  have "refuses_locally (check_loss_type i f v)" for i f v
    unfolding check_loss_type_def by (auto intro!: refusal_intros)
  then show ?thesis by (induction ls arbitrary: i) (auto intro!: refusal_intros)
qed

interpretation loss_validator: validator validate_loss_report loss_report_ok
proof unfold_locales
  show "validate_loss_report r = Inr () \<longleftrightarrow> loss_report_ok r" for r
    by (auto simp: validate_loss_report_def loss_report_ok_def check_losses_iff not_less split: if_splits)
  show "refuses_locally (validate_loss_report r)" for r
    unfolding validate_loss_report_def by (auto intro!: refusal_intros check_losses_refusal)
qed

definition mutation_rows :: "row_counts \<Rightarrow> nat" where
  "mutation_rows rows =
     (let n = (\<lambda>v. case v of None \<Rightarrow> 0 | Some x \<Rightarrow> unat (x :: u64))
      in n (rc_inserted rows) + n (rc_updated rows) + n (rc_deleted rows))"

definition row_counts_ok :: "row_counts \<Rightarrow> bool" where
  "row_counts_ok rows \<longleftrightarrow>
     unat (rc_confirmed rows) + unat (rc_failed rows) + unat (rc_skipped rows) \<le> unat (rc_received rows) \<and>
     mutation_rows rows \<le> unat (rc_confirmed rows)"

definition outcome_ok :: "write_outcome \<Rightarrow> bool" where
  "outcome_ok o1 \<longleftrightarrow>
     wo_schema_version o1 = 2 \<and>
     1 \<le> char_count (wo_execution_id o1) \<and> char_count (wo_execution_id o1) \<le> MAX_EXECUTION_ID_CHARS \<and>
     (\<forall>r. wo_recovery o1 = Some r \<longrightarrow> \<not> recovery_too_long r) \<and>
     (wo_recovery o1 \<noteq> None \<longleftrightarrow> wo_status o1 = StPartiallyCommitted \<or> wo_status o1 = StOutcomeUnknown) \<and>
     (wo_status o1 = StOutcomeUnknown \<longrightarrow>
        (\<forall>r. wo_recovery o1 = Some r \<longrightarrow> \<not> re_automatic_retry_allowed r)) \<and>
     (wo_status o1 = StRolledBack \<or> wo_status o1 = StOutcomeUnknown \<longrightarrow> rc_confirmed (wo_rows o1) = 0) \<and>
     row_counts_ok (wo_rows o1)"

lemma try_fold_add_iff:
  "try_fold_add acc xs = Some s \<longleftrightarrow> unat s = unat acc + sum_list (map unat xs)"
proof (induction xs arbitrary: acc)
  case Nil
  then show ?case by (auto simp: word_unat_eq_iff)
next
  case (Cons x xs)
  show ?case
  proof
    assume "try_fold_add acc (x # xs) = Some s"
    then show "unat s = unat acc + sum_list (map unat (x # xs))"
      by (auto simp: bind_eq_Some_conv Cons.IH checked_add_iff)
  next
    assume s: "unat s = unat acc + sum_list (map unat (x # xs))"
    have "unat acc + unat x < 2 ^ 64" using s unat_lt_width [of s] by simp
    then have "checked_add acc x = Some (acc + x)" and "unat (acc + x) = unat acc + unat x"
      by (simp_all add: checked_simps unat_word_ariths)
    with s show "try_fold_add acc (x # xs) = Some s" by (simp add: Cons.IH)
  qed
qed

lemma sum_flatten: "sum_list (map unat (flatten_options [rc_inserted r, rc_updated r, rc_deleted r])) =
  mutation_rows r"
  by (cases "rc_inserted r"; cases "rc_updated r"; cases "rc_deleted r")
    (simp_all add: flatten_options_def mutation_rows_def map_filter_simps)

lemma ex_u64_eq: "(\<exists>s :: u64. unat s = n \<and> n \<le> unat m) \<longleftrightarrow> n \<le> unat (m :: u64)"
proof
  assume "n \<le> unat m"
  then have "n < 2 ^ 64" using unat_lt_width [of m] by simp
  then have "unat (of_nat n :: u64) = n" by (simp add: unat_of_nat take_bit_eq_mod)
  with \<open>n \<le> unat m\<close> show "\<exists>s :: u64. unat s = n \<and> n \<le> unat m" by blast
qed blast

lemma accounted_iff:
  "Option.bind (checked_add a b) (\<lambda>v. checked_add v c) = Some s \<longleftrightarrow>
     unat s = unat a + unat b + unat (c :: u64)"
  using try_fold_add_iff [of a "[b, c]" s] by (simp add: add.assoc)

lemma validate_row_counts_iff: "validate_row_counts rows = Inr u \<longleftrightarrow> row_counts_ok rows"
proof -
  have "validate_row_counts rows = Inr u \<longleftrightarrow>
      (\<exists>s :: u64. unat s = unat (rc_confirmed rows) + unat (rc_failed rows) + unat (rc_skipped rows)
         \<and> unat s \<le> unat (rc_received rows)) \<and>
      (\<exists>m :: u64. unat m = mutation_rows rows \<and> unat m \<le> unat (rc_confirmed rows))"
    unfolding validate_row_counts_def and_then_eq_Inr ok_or_eq_Inr accounted_iff
    by (auto simp: result_simps try_fold_add_iff sum_flatten not_less word_le_nat_alt split: if_splits)
  also have "\<dots> \<longleftrightarrow> row_counts_ok rows"
    using ex_u64_eq [of "unat (rc_confirmed rows) + unat (rc_failed rows) + unat (rc_skipped rows)"
        "rc_received rows"] ex_u64_eq [of "mutation_rows rows" "rc_confirmed rows"]
    by (auto simp: row_counts_ok_def)
  finally show ?thesis .
qed

interpretation outcome_validator: validator validate_outcome outcome_ok
proof unfold_locales
  show "validate_outcome o1 = Inr () \<longleftrightarrow> outcome_ok o1" for o1
    by (cases "wo_status o1"; cases "wo_recovery o1")
      (auto simp: validate_outcome_def outcome_ok_def validate_row_counts_iff Suc_le_eq not_less
        split: if_splits simp flip: neq0_conv)
  show "refuses_locally (validate_outcome o1)" for o1
    unfolding validate_outcome_def validate_row_counts_def Let_def by (intro refusal_intros) simp_all
qed

section \<open>Properties\<close>

text \<open>The outcome validator accepts exactly the outcomes of the contract: a recovery is there
  exactly for a partial or unknown status, an unknown outcome allows no automatic retry, nothing is
  confirmed by a rolled back or unknown outcome, and the row accounts (summed without wrap-around) fit
  in the received and the confirmed rows; what it refuses is a local error.\<close>

lemma validate_outcome_decides:
  "(validate_outcome o1 = Inr () \<longleftrightarrow> outcome_ok o1) \<and> refuses_locally (validate_outcome o1)"
  using outcome_validator.decides outcome_validator.refusal by blast

lemma settle_invalid:
  "\<not> outcome_ok o1 \<Longrightarrow> \<exists>u. settle o1 = Inl u \<and> uncertain_axes (uw_error u)
     \<and> e_category (uw_error u) = Internal \<and> uw_outcome u = None"
  by (simp add: settle_def outcome_validator.is_ok_valid uncertain_axes_def)

lemma settle_valid:
  "outcome_ok o1 \<Longrightarrow>
   settle o1 =
     (case wo_status o1 of
        StCommitted \<Rightarrow> Inr o1
      | StOutcomeUnknown \<Rightarrow>
          Inl (settled_error o1
            (case Option.bind (wo_recovery o1) re_cause of None \<Rightarrow> Internal | Some c \<Rightarrow> c)
            PhCommit RequiresRecovery
            ''esito del commit ignoto: verificare lo stato remoto per execution_id prima di ogni nuovo tentativo'')
      | StPartiallyCommitted \<Rightarrow>
          Inl (settled_error o1 Execution PhWrite RequiresRecovery
            ''scrittura confermata solo in parte: recovery richiesto prima di ogni nuovo tentativo'')
      | StRolledBack \<Rightarrow>
          Inl (settled_error o1 Execution PhWrite Never
            ''scrittura annullata: nessuna riga confermata''))"
  by (simp add: settle_def outcome_validator.is_ok_valid)

text \<open>\<open>settle\<close> is a success exactly for a committed outcome that keeps the contract, and then it
  hands back that same outcome; every other outcome is an error.\<close>

lemma settle_exact:
  "settle o1 = Inr o2 \<longleftrightarrow> o2 = o1 \<and> outcome_ok o1 \<and> wo_status o1 = StCommitted"
proof (cases "outcome_ok o1")
  case True
  then show ?thesis by (cases "wo_status o1") (auto simp: settle_valid)
next
  case False
  then show ?thesis using settle_invalid [OF False] by auto
qed

text \<open>The error \<open>settle\<close> reports never invites a retry, internally or in its public projection;
  it carries the outcome and the effect of its status exactly when the outcome keeps the contract, and
  an outcome outside the contract is reported as an unknown effect that requires recovery.\<close>

lemma settle_error_axes:
  assumes u: "settle o1 = Inl u"
  shows "\<not> is_retryable (uw_error u) \<and> coherent_axes (uw_error u)
    \<and> p_retry (public_projection (uw_error u)) \<in> {Never, RequiresRecovery}
    \<and> e_provider (uw_error u) = Some (wo_provider o1)
    \<and> (if outcome_ok o1
       then uw_outcome u = Some o1 \<and> e_execution_id (uw_error u) = Some (wo_execution_id o1)
            \<and> e_remote_effect (uw_error u) = outcome_remote_effect o1 \<and> wo_status o1 \<noteq> StCommitted
       else uw_outcome u = None \<and> uncertain_axes (uw_error u))"
proof (cases "outcome_ok o1")
  case True
  with u show ?thesis
    by (cases "wo_status o1")
      (auto simp: settle_valid settled_error_def is_retryable_def coherent_axes_def uncertain_axes_def
        public_projection_def public_retry_def outcome_remote_effect_def)
next
  case False
  with u show ?thesis
    by (auto simp: settle_def outcome_validator.is_ok_valid is_retryable_def coherent_axes_def
        uncertain_axes_def public_projection_def public_retry_def)
qed

definition sample_outcome :: write_outcome where
  "sample_outcome =
     \<lparr>wo_schema_version = 2, wo_status = StRolledBack, wo_execution_id = ''run-1'',
      wo_provider = Postgres,
      wo_rows = \<lparr>rc_received = 5, rc_confirmed = 0, rc_inserted = None, rc_updated = None,
                 rc_deleted = None, rc_failed = 1, rc_skipped = 4\<rparr>,
      wo_recovery = None\<rparr>"

end
