(* ===== verification/Sql_Lexer.thy ===== *)
theory Sql_Lexer
  imports Error_Model
begin

text \<open>
  The lexical gate on native SQL, \<open>plenora-database-core/src/native_query_policy.rs\<close>.  The code
  walks the bytes of the statement with an index; so do the functions here, on a \<open>string\<close> of
  bytes.  The slices \<open>sql[a..b]\<close> of the source start and end next to ASCII bytes, hence on code
  point boundaries, and cannot panic.  The nesting depth of comments is an \<open>i32\<close> in the source,
  which the workspace builds with overflow checks: it is a \<open>nat\<close> here, because only a statement
  of more than four gigabytes could leave the type.
\<close>

section \<open>Searching\<close>

text \<open>\<open>str::find\<close> with a string pattern; with a pattern of two bytes it is also
  \<open>windows(2).position\<close>.\<close>

fun find_sub :: "'a list \<Rightarrow> 'a list \<Rightarrow> nat option" where
  "find_sub pat [] = (if pat = [] then Some 0 else None)"
| "find_sub pat (x # xs) =
     (if starts_with (x # xs) pat then Some 0 else map_option Suc (find_sub pat xs))"

definition contains_sub :: "'a list \<Rightarrow> 'a list \<Rightarrow> bool" where
  "contains_sub s pat \<longleftrightarrow> find_sub pat s \<noteq> None"

text \<open>\<open>slice.get(i)\<close>.\<close>

definition get_at :: "'a list \<Rightarrow> nat \<Rightarrow> 'a option" where
  "get_at xs i = (if i < length xs then Some (xs ! i) else None)"

section \<open>The policy and its keywords\<close>

datatype native_query_policy = Allow | Deny

definition lexical_error :: database_error where
  "lexical_error = invalid_plan ''statement SQL con delimitatori non validi''"

definition is_oltp_allowed_keyword :: "string \<Rightarrow> bool" where
  "is_oltp_allowed_keyword head \<longleftrightarrow>
     head \<in> {''SELECT'', ''WITH'', ''INSERT'', ''UPDATE'', ''DELETE'', ''VALUES'', ''TABLE'', ''MERGE''}"

definition is_transaction_control :: "string \<Rightarrow> bool" where
  "is_transaction_control head \<longleftrightarrow>
     head \<in> {''BEGIN'', ''START'', ''COMMIT'', ''END'', ''ABORT'', ''ROLLBACK'', ''SAVEPOINT'',
             ''RELEASE'', ''DECLARE'', ''FETCH'', ''CLOSE''}"

section \<open>Tokens\<close>

function quoted_end :: "string \<Rightarrow> nat \<Rightarrow> char \<Rightarrow> bool \<Rightarrow> nat result" where
  "quoted_end bytes position close backslash =
     (if position < length bytes then
        if backslash \<and> bytes ! position = CHR 0x5C then quoted_end bytes (position + 2) close backslash
        else if bytes ! position = close then
          (if get_at bytes (position + 1) \<noteq> Some close then Inr (position + 1)
           else quoted_end bytes (position + 2) close backslash)
        else quoted_end bytes (position + 1) close backslash
      else Inl lexical_error)"
  by pat_completeness auto
termination
  by (relation "measure (\<lambda>(bytes, position, _, _). length bytes - position)") auto

function comment_loop :: "string \<Rightarrow> nat \<Rightarrow> bool \<Rightarrow> nat \<Rightarrow> nat result" where
  "comment_loop bytes position nested_comments depth =
     (if position < length bytes then
        if nested_comments \<and> starts_with (drop position bytes) ''/*''
        then comment_loop bytes (position + 2) nested_comments (depth + 1)
        else if starts_with (drop position bytes) ''*/'' then
          (if depth - 1 = 0 then Inr (position + 2)
           else comment_loop bytes (position + 2) nested_comments (depth - 1))
        else comment_loop bytes (position + 1) nested_comments depth
      else Inl lexical_error)"
  by pat_completeness auto
termination
  by (relation "measure (\<lambda>(bytes, position, _, _). length bytes - position)") auto

definition comment_end :: "string \<Rightarrow> nat \<Rightarrow> bool \<Rightarrow> nat result" where
  "comment_end bytes position nested_comments = comment_loop bytes position nested_comments 1"

declare quoted_end.simps [simp del] comment_loop.simps [simp del]

definition is_word_byte :: "char \<Rightarrow> bool" where
  "is_word_byte c \<longleftrightarrow> is_ascii_alphanumeric c \<or> c = CHR ''_''"

definition opens_dollar :: "string \<Rightarrow> nat \<Rightarrow> nat \<Rightarrow> bool" where
  "opens_dollar sql position len \<longleftrightarrow>
     (let rest = drop position sql
      in get_at rest len = Some (CHR ''$'')
         \<and> (len = 1 \<or> \<not> is_ascii_digit (rest ! 1))
         \<and> (position = 0
            \<or> \<not> (is_ascii_alphanumeric (sql ! (position - 1))
                 \<or> sql ! (position - 1) \<in> {CHR ''_'', CHR ''$''})))"

definition dollar_end :: "string \<Rightarrow> nat \<Rightarrow> nat result" where
  "dollar_end sql position =
     (let rest = drop position sql;
          len = length (takeWhile is_word_byte (drop 1 rest)) + 1
      in if opens_dollar sql position len
         then
           (let delimiter = take (len + 1) rest; start = position + len + 1
            in ok_or (map_option (\<lambda>offset. start + offset + length delimiter)
                        (find_sub delimiter (drop start sql))) lexical_error)
         else Inr (position + 1))"

definition alternative_close :: "char \<Rightarrow> char" where
  "alternative_close c =
     (if c = CHR ''['' then CHR '']'' else if c = CHR ''('' then CHR '')''
      else if c = CHR ''{'' then CHR ''}'' else if c = CHR ''<'' then CHR ''>'' else c)"

definition opens_quote :: "char \<Rightarrow> bool" where
  "opens_quote c \<longleftrightarrow> c \<in> {CHR 0x27, CHR 0x22, CHR 0x60, CHR ''[''}"

definition opens_alternative :: "string \<Rightarrow> bool" where
  "opens_alternative rest \<longleftrightarrow>
     rest ! 0 \<in> {CHR ''q'', CHR ''Q''} \<and> get_at rest 1 = Some (CHR 0x27) \<and> length rest \<ge> 4"

text \<open>\<open>token_end\<close> is called with a position inside the statement; outside it the source would
  panic on \<open>rest[0]\<close>, and here the result is the lexical error.\<close>

definition token_end :: "string \<Rightarrow> nat \<Rightarrow> bool \<Rightarrow> nat result" where
  "token_end sql position backslash =
     (let rest = drop position sql
      in if rest = [] then Inl lexical_error
         else if opens_quote (rest ! 0) then
           quoted_end sql (position + 1) (if rest ! 0 = CHR ''['' then CHR '']'' else rest ! 0)
             (backslash \<and> rest ! 0 \<noteq> CHR ''['')
         else if rest ! 0 = CHR ''$'' then dollar_end sql position
         else if opens_alternative rest
         then ok_or (map_option (\<lambda>offset. position + offset + 5)
                       (find_sub [alternative_close (rest ! 2), CHR 0x27] (drop 3 rest))) lexical_error
         else Inr (position + 1))"

section \<open>Progress\<close>

text \<open>Every scan that succeeds ends after its start and inside the statement.\<close>

lemma find_sub_Some: "find_sub pat xs = Some i \<Longrightarrow> starts_with (drop i xs) pat \<and> i \<le> length xs"
proof (induction xs arbitrary: i)
  case Nil
  then show ?case by (simp split: if_splits)
next
  case (Cons x xs)
  show ?case
  proof (cases "starts_with (x # xs) pat")
    case True
    with Cons.prems show ?thesis by simp
  next
    case False
    with Cons.prems obtain j where "find_sub pat xs = Some j" "i = Suc j" by auto
    with Cons.IH show ?thesis by simp
  qed
qed

lemma find_sub_bound:
  assumes "find_sub pat xs = Some i"
  shows "i + length pat \<le> length xs"
proof -
  obtain zs where "drop i xs = pat @ zs" and "i \<le> length xs"
    using find_sub_Some [OF assms] by (auto simp: starts_with_iff)
  then have "length xs - i = length pat + length zs" by (metis length_append length_drop)
  with \<open>i \<le> length xs\<close> show ?thesis by linarith
qed

lemma quoted_end_progress:
  "quoted_end bytes position close backslash = Inr q \<Longrightarrow> position < q \<and> q \<le> length bytes"
proof (induction bytes position close backslash rule: quoted_end.induct)
  case (1 bytes position close backslash)
  from 1(4) show ?case
    by (subst (asm) quoted_end.simps) (auto split: if_splits dest: 1(1-3))
qed

lemma comment_loop_progress:
  "comment_loop bytes position nested depth = Inr q \<Longrightarrow> position < q \<and> q \<le> length bytes"
proof (induction bytes position nested depth rule: comment_loop.induct)
  case (1 bytes position nested depth)
  have two: "starts_with (drop position bytes) ''*/'' \<Longrightarrow> position + 2 \<le> length bytes"
    by (auto simp: starts_with_iff dest!: arg_cong [where f = length])
  from 1(4) show ?case
    by (subst (asm) comment_loop.simps) (auto split: if_splits dest: 1(1-3) two)
qed

lemma comment_end_progress:
  "comment_end bytes position nested = Inr q \<Longrightarrow> position < q \<and> q \<le> length bytes"
  unfolding comment_end_def by (rule comment_loop_progress)

lemma dollar_end_progress:
  assumes end_: "dollar_end sql position = Inr q" and inside: "position < length sql"
  shows "position < q \<and> q \<le> length sql"
proof -
  define rest where "rest = drop position sql"
  define len where "len = length (takeWhile is_word_byte (drop 1 rest)) + 1"
  define start where "start = position + len + 1"
  define delimiter where "delimiter = take (len + 1) rest"
  have end': "(if opens_dollar sql position len
       then ok_or (map_option (\<lambda>offset. start + offset + length delimiter)
                     (find_sub delimiter (drop start sql))) lexical_error
       else Inr (position + 1)) = Inr q"
    using end_ unfolding dollar_end_def Let_def rest_def len_def start_def delimiter_def .
  show ?thesis
  proof (cases "opens_dollar sql position len")
    case True
    then have "len < length rest"
      by (simp add: opens_dollar_def Let_def get_at_def rest_def split: if_splits)
    moreover from True end' obtain offset where "find_sub delimiter (drop start sql) = Some offset"
      "q = start + offset + length delimiter" by (auto simp: result_simps)
    ultimately show ?thesis
      using find_sub_bound [of delimiter "drop start sql" offset] by (simp add: start_def rest_def)
  next
    case False
    with end' inside show ?thesis by simp
  qed
qed

lemma token_end_progress:
  assumes end_: "token_end sql position backslash = Inr q" and inside: "position < length sql"
  shows "position < q \<and> q \<le> length sql"
proof -
  define rest where "rest = drop position sql"
  have "rest \<noteq> []" using inside by (simp add: rest_def)
  with end_ consider
      (quote) close bs where "quoted_end sql (position + 1) close bs = Inr q"
    | (dollar) "dollar_end sql position = Inr q"
    | (alternative) offset where "opens_alternative rest"
        "find_sub [alternative_close (rest ! 2), CHR 0x27] (drop 3 rest) = Some offset"
        "q = position + offset + 5"
    | (other) "q = position + 1"
    unfolding token_end_def Let_def rest_def [symmetric]
    by (auto simp: result_simps simp del: drop_drop split: if_split_asm)
  then show ?thesis
  proof cases
    case quote
    then show ?thesis using quoted_end_progress by fastforce
  next
    case dollar
    then show ?thesis using inside by (rule dollar_end_progress)
  next
    case alternative
    then have "4 \<le> length rest" by (simp add: opens_alternative_def)
    with find_sub_bound [OF alternative(2)] alternative(3) show ?thesis by (simp add: rest_def)
  next
    case other
    with inside show ?thesis by simp
  qed
qed

section \<open>Statement heads\<close>

definition is_line_comment :: "bool \<Rightarrow> string \<Rightarrow> bool" where
  "is_line_comment mysql_comments rest \<longleftrightarrow>
     (mysql_comments \<and> get_at rest 0 = Some (CHR ''#''))
     \<or> (starts_with rest ''--''
        \<and> (\<not> mysql_comments
           \<or> (case get_at rest 2 of
                None \<Rightarrow> True
              | Some byte \<Rightarrow> is_ascii_whitespace byte \<or> is_ascii_control byte)))"

definition line_length :: "string \<Rightarrow> nat" where
  "line_length rest =
     (case find_position (\<lambda>byte. byte = CHR 0x0A \<or> byte = CHR 0x0D) rest of None \<Rightarrow> length rest | Some n \<Rightarrow> n)"

definition is_executable_comment :: "string \<Rightarrow> bool" where
  "is_executable_comment rest \<longleftrightarrow> starts_with rest ''/*!'' \<or> starts_with rest ''/*M!''"

definition keyword_at :: "string \<Rightarrow> string" where
  "keyword_at rest = to_ascii_uppercase (takeWhile is_ascii_alphabetic rest)"

lemma line_length_pos: "is_line_comment m rest \<Longrightarrow> 0 < line_length rest \<and> line_length rest \<le> length rest"
  by (cases rest)
    (auto simp: is_line_comment_def line_length_def get_at_def split: option.splits if_splits
      dest: find_position_Some)

text \<open>The \<open>while\<close> loop of \<open>statement_heads\<close>, with its three local variables.\<close>

function heads_loop :: "string \<Rightarrow> bool \<Rightarrow> bool \<Rightarrow> bool \<Rightarrow> string list \<Rightarrow> string option \<Rightarrow> nat
    \<Rightarrow> string list result" where
  "heads_loop sql backslash nested_comments mysql_comments heads head position =
     (if position < length sql then
        let rest = drop position sql
        in if is_ascii_whitespace (rest ! 0)
           then heads_loop sql backslash nested_comments mysql_comments heads head (position + 1)
           else if is_line_comment mysql_comments rest
           then heads_loop sql backslash nested_comments mysql_comments heads head
                  (position + line_length rest)
           else if starts_with rest ''/*'' then
             (if is_executable_comment rest then Inl lexical_error
              else and_then (comment_end sql (position + 2) nested_comments)
                     (heads_loop sql backslash nested_comments mysql_comments heads head))
           else if rest ! 0 = CHR '';''
           then heads_loop sql backslash nested_comments mysql_comments
                  (case head of None \<Rightarrow> heads | Some value \<Rightarrow> heads @ [value]) None (position + 1)
           else and_then (token_end sql position backslash)
                  (heads_loop sql backslash nested_comments mysql_comments heads
                     (case head of None \<Rightarrow> Some (keyword_at rest) | Some value \<Rightarrow> Some value))
      else Inr (case head of None \<Rightarrow> heads | Some value \<Rightarrow> heads @ [value]))"
  by pat_completeness auto
termination
  by (relation "measure (\<lambda>(sql, _, _, _, _, _, position). length sql - position)")
    (auto dest: line_length_pos comment_end_progress token_end_progress)

declare heads_loop.simps [simp del]

definition statement_heads :: "string \<Rightarrow> bool \<Rightarrow> bool \<Rightarrow> bool \<Rightarrow> string list result" where
  "statement_heads sql backslash nested_comments mysql_comments =
     heads_loop sql backslash nested_comments mysql_comments [] None 0"

definition statement_head :: "string \<Rightarrow> string" where
  "statement_head sql =
     (case statement_heads sql False True False of
        Inl _ \<Rightarrow> []
      | Inr heads \<Rightarrow> (case heads of [] \<Rightarrow> [] | head # _ \<Rightarrow> head))"

section \<open>The gate\<close>

definition mode_skipped :: "string \<Rightarrow> bool \<Rightarrow> bool \<Rightarrow> bool \<Rightarrow> bool" where
  "mode_skipped sql backslash nested_comments mysql_comments \<longleftrightarrow>
     (backslash \<and> CHR 0x5C \<notin> set sql) \<or> (nested_comments \<and> \<not> contains_sub sql ''/*'')
     \<or> (mysql_comments \<and> CHR ''#'' \<notin> set sql \<and> \<not> contains_sub sql ''--'')"

fun enforce_modes :: "native_query_policy \<Rightarrow> string \<Rightarrow> bool \<Rightarrow> nat list \<Rightarrow> unit result" where
  "enforce_modes policy sql valid [] = (if valid then Inr () else Inl lexical_error)"
| "enforce_modes policy sql valid (mode # modes) =
     (let backslash = odd mode; nested_comments = odd (mode div 2); mysql_comments = odd (mode div 4)
      in if mode_skipped sql backslash nested_comments mysql_comments
         then enforce_modes policy sql valid modes
         else case statement_heads sql backslash nested_comments mysql_comments of
                Inl _ \<Rightarrow> enforce_modes policy sql valid modes
              | Inr heads \<Rightarrow>
                  if list_ex is_transaction_control heads
                  then Inl (invalid_plan ''il transaction scope gestisce BEGIN/COMMIT/ROLLBACK/SAVEPOINT: non passarli come statement'')
                  else if policy = Deny \<and> (length heads \<noteq> 1 \<or> \<not> is_oltp_allowed_keyword (hd heads))
                  then Inl (invalid_plan ''profilo native_query=Deny: richiesto un singolo statement CRUD'')
                  else enforce_modes policy sql True modes)"

definition enforce_policy :: "native_query_policy \<Rightarrow> string \<Rightarrow> unit result" where
  "enforce_policy policy sql = enforce_modes policy sql False [0 ..< 8]"

end
