(* ===== verification/Sql_Policy.thy ===== *)
theory Sql_Policy
  imports Sql_Lexer
begin

text \<open>
  What the gate \<open>enforce_policy\<close> of \<open>Sql_Lexer\<close> guarantees.  The code tries eight readings of the
  statement (backslash escapes or not, nested comments or not, MySQL comments or not) and skips those
  that cannot differ from one already tried; the lemmas here show that the skipped readings indeed
  coincide with a reading that is tried, so the guarantee holds for all eight.
\<close>

section \<open>Readings that coincide\<close>

lemma contains_sub_iff: "contains_sub s pat \<longleftrightarrow> (\<exists>p \<le> length s. starts_with (drop p s) pat)"
proof (induction s)
  case Nil
  then show ?case by (cases pat) (simp_all add: contains_sub_def)
next
  case (Cons x xs)
  have "(\<exists>p \<le> length (x # xs). starts_with (drop p (x # xs)) pat) \<longleftrightarrow>
      starts_with (x # xs) pat \<or> (\<exists>p \<le> length xs. starts_with (drop p xs) pat)"
    by (metis drop0 drop_Suc_Cons length_Cons not0_implies_Suc Suc_le_mono zero_le)
  with Cons show ?case by (auto simp: contains_sub_def)
qed

lemma not_contains_sub: "\<not> contains_sub s pat \<Longrightarrow> p < length s \<Longrightarrow> \<not> starts_with (drop p s) pat"
  using contains_sub_iff [of s pat] by auto

lemma quoted_end_no_backslash:
  "CHR 0x5C \<notin> set bytes \<Longrightarrow> quoted_end bytes position close True = quoted_end bytes position close False"
proof (induction bytes position close True rule: quoted_end.induct)
  case (1 bytes position close)
  have ne: "position < length bytes \<Longrightarrow> bytes ! position \<noteq> CHR 0x5C"
    using 1(4) by (metis nth_mem)
  show ?case
    by (subst (1 2) quoted_end.simps) (use ne 1 in auto)
qed

lemma token_end_no_backslash:
  assumes "CHR 0x5C \<notin> set sql"
  shows "token_end sql position True = token_end sql position False"
proof -
  have "quoted_end sql (position + 1) close (True \<and> c) = quoted_end sql (position + 1) close (False \<and> c)"
    for close c using quoted_end_no_backslash [OF assms] by (cases c) simp_all
  then show ?thesis unfolding token_end_def Let_def by presburger
qed

text \<open>Two readings agree when their tokens, block comments and line comments do.\<close>

lemma heads_loop_agree:
  assumes tok: "\<And>p. p < length sql \<Longrightarrow> token_end sql p b = token_end sql p b'"
    and com: "\<And>p. p < length sql \<Longrightarrow> starts_with (drop p sql) ''/*'' \<Longrightarrow>
      comment_end sql (p + 2) n = comment_end sql (p + 2) n'"
    and line: "\<And>p. p < length sql \<Longrightarrow> is_line_comment m (drop p sql) = is_line_comment m' (drop p sql)"
  shows "heads_loop sql b n m heads head position = heads_loop sql b' n' m' heads head position"
  using assms
proof (induction sql b n m heads head position rule: heads_loop.induct)
  case (1 sql b n m heads head position)
  note prems = 1(6-8)
  show ?case
    apply (subst (1 2) heads_loop.simps)
    apply (unfold Let_def)
    apply (intro if_cong refl)
         apply (rule 1(1) [OF _ refl _ prems]; assumption)
        apply (erule prems(3))
       apply (rule 1(2) [OF _ refl _ _ prems]; (assumption | simp only: prems not_False_eq_True))
      apply (rule and_then_cong, erule (1) prems(2))
      apply (rule 1(3) [OF _ refl _ _ _ _ _ prems]; (assumption | simp only: prems not_False_eq_True))
     apply (rule 1(4) [OF _ refl _ _ _ _ prems]; (assumption | simp only: prems not_False_eq_True))
    apply (rule and_then_cong, erule prems(1))
    apply (rule 1(5) [OF _ refl _ _ _ _ _ prems]; (assumption | simp only: prems not_False_eq_True))
    done
qed

lemma statement_heads_no_backslash:
  "CHR 0x5C \<notin> set sql \<Longrightarrow> statement_heads sql True n m = statement_heads sql False n m"
  unfolding statement_heads_def by (rule heads_loop_agree) (simp_all add: token_end_no_backslash)

lemma statement_heads_no_comments:
  "\<not> contains_sub sql ''/*'' \<Longrightarrow> statement_heads sql b True m = statement_heads sql b False m"
  unfolding statement_heads_def by (rule heads_loop_agree) (auto dest: not_contains_sub)

lemma statement_heads_no_mysql_comments:
  assumes "CHR ''#'' \<notin> set sql" and "\<not> contains_sub sql ''--''"
  shows "statement_heads sql b n True = statement_heads sql b n False"
  unfolding statement_heads_def
proof (rule heads_loop_agree)
  fix p assume p: "p < length sql"
  then have "sql ! p \<noteq> CHR ''#''" using assms(1) nth_mem by metis
  then show "is_line_comment True (drop p sql) = is_line_comment False (drop p sql)"
    using not_contains_sub [OF assms(2) p] p by (simp add: is_line_comment_def get_at_def)
qed simp_all

definition tried_reading :: "string \<Rightarrow> bool \<Rightarrow> bool \<Rightarrow> bool \<Rightarrow> bool \<times> bool \<times> bool" where
  "tried_reading sql b n m =
     (b \<and> CHR 0x5C \<in> set sql, n \<and> contains_sub sql ''/*'',
      m \<and> (CHR ''#'' \<in> set sql \<or> contains_sub sql ''--''))"

lemma reading_tried:
  "case tried_reading sql b n m of (b', n', m') \<Rightarrow>
     \<not> mode_skipped sql b' n' m' \<and> statement_heads sql b n m = statement_heads sql b' n' m'"
proof -
  have 1: "statement_heads sql b n m = statement_heads sql (b \<and> CHR 0x5C \<in> set sql) n m"
    using statement_heads_no_backslash [of sql] by (cases b; cases "CHR 0x5C \<in> set sql") simp_all
  have 2: "statement_heads sql b' n m = statement_heads sql b' (n \<and> contains_sub sql ''/*'') m" for b'
    using statement_heads_no_comments [of sql] by (cases n; cases "contains_sub sql ''/*''") simp_all
  have 3: "statement_heads sql b' n' m =
      statement_heads sql b' n' (m \<and> (CHR ''#'' \<in> set sql \<or> contains_sub sql ''--''))" for b' n'
    using statement_heads_no_mysql_comments [of sql]
    by (cases m; cases "CHR ''#'' \<in> set sql \<or> contains_sub sql ''--''") simp_all
  show ?thesis using 1 2 3 by (simp add: tried_reading_def mode_skipped_def)
qed

section \<open>The loop over the readings\<close>

definition heads_allowed :: "native_query_policy \<Rightarrow> string list \<Rightarrow> bool" where
  "heads_allowed policy heads \<longleftrightarrow>
     list_all (\<lambda>head. \<not> is_transaction_control head) heads \<and>
     (policy = Deny \<longrightarrow> (\<exists>head. heads = [head] \<and> is_oltp_allowed_keyword head))"

definition reading :: "string \<Rightarrow> nat \<Rightarrow> string list result" where
  "reading sql mode = statement_heads sql (odd mode) (odd (mode div 2)) (odd (mode div 4))"

definition skipped :: "string \<Rightarrow> nat \<Rightarrow> bool" where
  "skipped sql mode \<longleftrightarrow> mode_skipped sql (odd mode) (odd (mode div 2)) (odd (mode div 4))"

lemma heads_refused_iff:
  "(list_ex is_transaction_control heads \<or>
    policy = Deny \<and> (length heads \<noteq> 1 \<or> \<not> is_oltp_allowed_keyword (hd heads))) \<longleftrightarrow>
   \<not> heads_allowed policy heads"
  by (cases heads rule: list.exhaust [case_product list.exhaust])
    (auto simp: heads_allowed_def list_all_iff list_ex_iff length_Suc_conv)

lemma enforce_modes_Cons:
  "enforce_modes policy sql valid (mode # modes) =
     (if skipped sql mode then enforce_modes policy sql valid modes
      else case reading sql mode of
             Inl _ \<Rightarrow> enforce_modes policy sql valid modes
           | Inr heads \<Rightarrow>
               if heads_allowed policy heads then enforce_modes policy sql True modes
               else Inl (if list_ex is_transaction_control heads
                 then invalid_plan ''il transaction scope gestisce BEGIN/COMMIT/ROLLBACK/SAVEPOINT: non passarli come statement''
                 else invalid_plan ''profilo native_query=Deny: richiesto un singolo statement CRUD''))"
proof (cases "reading sql mode")
  case (Inr heads)
  then show ?thesis
    using heads_refused_iff [of heads policy]
    by (cases "list_ex is_transaction_control heads") (simp_all add: skipped_def reading_def Let_def)
qed (simp add: skipped_def reading_def Let_def)

lemma enforce_modes_iff:
  "enforce_modes policy sql valid modes = Inr () \<longleftrightarrow>
     (valid \<or> (\<exists>mode \<in> set modes. \<not> skipped sql mode \<and> is_ok (reading sql mode))) \<and>
     (\<forall>mode \<in> set modes. \<forall>heads. \<not> skipped sql mode \<longrightarrow> reading sql mode = Inr heads \<longrightarrow>
        heads_allowed policy heads)"
proof (induction modes arbitrary: valid)
  case Nil
  then show ?case by simp
next
  case (Cons mode modes)
  then show ?case
    by (cases "reading sql mode") (auto simp: enforce_modes_Cons simp del: enforce_modes.simps)
qed

lemma mode_of_reading:
  "\<exists>mode < 8 :: nat. odd mode = b \<and> odd (mode div 2) = n \<and> odd (mode div 4) = m"
  by (rule exI [of _ "of_bool b + 2 * of_bool n + 4 * of_bool m"]) (cases b; cases n; cases m; simp)

lemma readings_eight:
  "(\<forall>mode \<in> set [0 ..< 8]. P (odd mode) (odd (mode div 2)) (odd (mode div 4))) \<longleftrightarrow> (\<forall>b n m. P b n m)"
proof
  assume all8: "\<forall>mode \<in> set [0 ..< 8]. P (odd mode) (odd (mode div 2)) (odd (mode div 4))"
  show "\<forall>b n m. P b n m"
  proof (intro allI)
    fix b n m
    obtain mode :: nat where "mode < 8" "odd mode = b" "odd (mode div 2) = n" "odd (mode div 4) = m"
      using mode_of_reading by blast
    with all8 show "P b n m" by fastforce
  qed
qed simp

lemma enforce_policy_iff:
  "enforce_policy policy sql = Inr () \<longleftrightarrow>
     (\<exists>b n m. is_ok (statement_heads sql b n m)) \<and>
     (\<forall>b n m heads. statement_heads sql b n m = Inr heads \<longrightarrow> heads_allowed policy heads)"
proof -
  let ?tried = "\<lambda>b n m. \<not> mode_skipped sql b n m"
  have "enforce_policy policy sql = Inr () \<longleftrightarrow>
     (\<exists>b n m. ?tried b n m \<and> is_ok (statement_heads sql b n m)) \<and>
     (\<forall>b n m. \<forall>heads. ?tried b n m \<longrightarrow> statement_heads sql b n m = Inr heads \<longrightarrow>
        heads_allowed policy heads)"
    unfolding enforce_policy_def enforce_modes_iff skipped_def reading_def
    using readings_eight [of "\<lambda>b n m. \<not> (?tried b n m \<and> is_ok (statement_heads sql b n m))"]
      readings_eight [of "\<lambda>b n m. \<forall>heads. ?tried b n m \<longrightarrow>
        statement_heads sql b n m = Inr heads \<longrightarrow> heads_allowed policy heads"]
    by blast
  moreover have "\<exists>b' n' m'. ?tried b' n' m' \<and> statement_heads sql b n m = statement_heads sql b' n' m'"
    for b n m using reading_tried [of sql b n m] by (auto split: prod.splits)
  ultimately show ?thesis by metis
qed

section \<open>Properties\<close>

lemma enforce_modes_refusal: "refuses_locally (enforce_modes policy sql valid modes)"
proof (induction modes arbitrary: valid)
  case Nil
  then show ?case by (auto simp: lexical_error_def intro!: refusal_intros)
next
  case (Cons mode modes)
  then show ?case
    by (cases "reading sql mode")
      (auto simp: enforce_modes_Cons simp del: enforce_modes.simps intro!: refusal_intros)
qed

text \<open>C22: the gate accepts a statement exactly when some reading of it is lexically complete and every
  complete reading, of all eight, is allowed: no statement of it starts with a transaction control
  keyword, and under \<open>Deny\<close> it is one statement that starts with a CRUD keyword.  The readings the
  code skips are covered too.  What is refused is refused before any send.\<close>

theorem enforce_policy_exact:
  "(enforce_policy policy sql = Inr () \<longleftrightarrow>
     (\<exists>b n m. is_ok (statement_heads sql b n m)) \<and>
     (\<forall>b n m heads. statement_heads sql b n m = Inr heads \<longrightarrow> heads_allowed policy heads))
   \<and> refuses_locally (enforce_policy policy sql)"
  using enforce_policy_iff enforce_modes_refusal [of policy sql False "[0 ..< 8]"]
  unfolding enforce_policy_def by blast

theorem enforce_policy_exact_witness:
  "enforce_policy Deny ''select 1 -- ; drop'' = Inr () \<and>
   heads_allowed Deny [''SELECT''] \<and> \<not> is_ok (enforce_policy Allow ''x; commit'')"
proof -
  have ok: "enforce_policy Deny ''select 1 -- ; drop'' = Inr ()" by code_simp
  have heads: "statement_heads ''select 1 -- ; drop'' True True True = Inr [''SELECT'']" by code_simp
  have bad: "statement_heads ''x; commit'' False False False = Inr [''X'', ''COMMIT'']" by code_simp
  have "heads_allowed Deny [''SELECT'']"
    using enforce_policy_exact [of Deny "''select 1 -- ; drop''"] ok heads by blast
  moreover have "\<not> heads_allowed Allow [''X'', ''COMMIT'']"
    by (simp add: heads_allowed_def is_transaction_control_def)
  then have "enforce_policy Allow ''x; commit'' \<noteq> Inr ()"
    using enforce_policy_exact [of Allow "''x; commit''"] bad by blast
  ultimately show ?thesis using ok by (auto simp: is_ok_iff)
qed

end
