(* ===== verification/Identifier.thy ===== *)
theory Identifier
  imports Sql_Lexer
begin

text \<open>
  Identifier validation and quoting, \<open>plenora-database-core/src/identifier.rs\<close>, and what quoting
  promises: it loses nothing (\<open>unquote\<close> gives the name back, so two names never share a quoted form)
  and the lexical gate of \<open>Sql_Lexer\<close> reads a quoted identifier as one token, whatever its bytes.
\<close>

section \<open>Model\<close>

datatype identifier_dialect = IdPostgres | IdOracle | IdMysql | IdSqlServer

definition MAX_IDENTIFIER_BYTES_POSTGRES :: nat where "MAX_IDENTIFIER_BYTES_POSTGRES = 63"
definition MAX_IDENTIFIER_BYTES_ORACLE :: nat where "MAX_IDENTIFIER_BYTES_ORACLE = 128"
definition MAX_IDENTIFIER_CHARS_MYSQL :: nat where "MAX_IDENTIFIER_CHARS_MYSQL = 64"
definition MAX_IDENTIFIER_CHARS_SQL_SERVER :: nat where "MAX_IDENTIFIER_CHARS_SQL_SERVER = 128"

definition validate_identifier :: "identifier_dialect \<Rightarrow> string \<Rightarrow> unit result" where
  "validate_identifier dialect name =
     (if name = [] then Inl (invalid_plan ''identificatore vuoto'')
      else if list_ex is_control (chars name)
      then Inl (invalid_plan ''identificatore contiene caratteri di controllo'')
      else case dialect of
             IdPostgres \<Rightarrow>
               if length name > MAX_IDENTIFIER_BYTES_POSTGRES
               then Inl (invalid_plan ''identificatore PostgreSQL eccede 63 byte (NAMEDATALEN)'')
               else Inr ()
           | IdOracle \<Rightarrow>
               if length name > MAX_IDENTIFIER_BYTES_ORACLE
               then Inl (invalid_plan ''identificatore Oracle eccede 128 byte'') else Inr ()
           | IdMysql \<Rightarrow>
               if char_count name > MAX_IDENTIFIER_CHARS_MYSQL
               then Inl (invalid_plan ''identificatore MySQL eccede 64 caratteri'') else Inr ()
           | IdSqlServer \<Rightarrow>
               if char_count name > MAX_IDENTIFIER_CHARS_SQL_SERVER
               then Inl (invalid_plan ''identificatore SQL Server oltre 128 caratteri'') else Inr ())"

text \<open>\<open>str::replace\<close> of an ASCII character by its double.\<close>

definition double_char :: "char \<Rightarrow> string \<Rightarrow> string" where
  "double_char c s = concat (map (\<lambda>x. if x = c then [c, c] else [x]) s)"

definition quote_identifier :: "identifier_dialect \<Rightarrow> string \<Rightarrow> string result" where
  "quote_identifier dialect name =
     and_then (validate_identifier dialect name) (\<lambda>_.
       case dialect of
         IdPostgres \<Rightarrow> Inr ([CHR 0x22] @ double_char (CHR 0x22) name @ [CHR 0x22])
       | IdOracle \<Rightarrow> Inr ([CHR 0x22] @ double_char (CHR 0x22) name @ [CHR 0x22])
       | IdMysql \<Rightarrow> Inr ([CHR 0x60] @ double_char (CHR 0x60) name @ [CHR 0x60])
       | IdSqlServer \<Rightarrow> Inr (''['' @ double_char (CHR '']'') name @ '']''))"

section \<open>Specification\<close>

fun open_mark :: "identifier_dialect \<Rightarrow> char" where
  "open_mark IdPostgres = CHR 0x22"
| "open_mark IdOracle = CHR 0x22"
| "open_mark IdMysql = CHR 0x60"
| "open_mark IdSqlServer = CHR ''[''"

fun close_mark :: "identifier_dialect \<Rightarrow> char" where
  "close_mark IdSqlServer = CHR '']''"
| "close_mark d = open_mark d"

text \<open>The length the dialect counts, and its limit.\<close>

fun name_size :: "identifier_dialect \<Rightarrow> string \<Rightarrow> nat" where
  "name_size IdPostgres name = length name"
| "name_size IdOracle name = length name"
| "name_size d name = char_count name"

fun name_limit :: "identifier_dialect \<Rightarrow> nat" where
  "name_limit IdPostgres = 63"
| "name_limit IdOracle = 128"
| "name_limit IdMysql = 64"
| "name_limit IdSqlServer = 128"

definition identifier_ok :: "identifier_dialect \<Rightarrow> string \<Rightarrow> bool" where
  "identifier_ok d name \<longleftrightarrow>
     name \<noteq> [] \<and> list_all (\<lambda>g. \<not> is_control g) (chars name) \<and> name_size d name \<le> name_limit d"

text \<open>Reading a quoted body back: a doubled closing character is one, a single one ends it.\<close>

fun unquote_body :: "char \<Rightarrow> string \<Rightarrow> string option" where
  "unquote_body c [] = None"
| "unquote_body c [x] = (if x = c then Some [] else None)"
| "unquote_body c (x # y # rest) =
     (if x \<noteq> c then map_option (Cons x) (unquote_body c (y # rest))
      else if y = c then map_option (Cons c) (unquote_body c rest)
      else None)"

definition unquote :: "identifier_dialect \<Rightarrow> string \<Rightarrow> string option" where
  "unquote d q =
     (case q of [] \<Rightarrow> None | x # body \<Rightarrow> if x = open_mark d then unquote_body (close_mark d) body else None)"

interpretation identifier_validator: validator "\<lambda>(d, name). validate_identifier d name"
  "\<lambda>(d, name). identifier_ok d name"
proof unfold_locales
  fix x :: "identifier_dialect \<times> string"
  obtain d name where x: "x = (d, name)" by (cases x)
  show "(case x of (d, name) \<Rightarrow> validate_identifier d name) = Inr () \<longleftrightarrow>
      (case x of (d, name) \<Rightarrow> identifier_ok d name)"
    unfolding x
    by (cases d)
      (auto simp: validate_identifier_def identifier_ok_def list_all_iff list_ex_iff not_less
        MAX_IDENTIFIER_BYTES_POSTGRES_def MAX_IDENTIFIER_BYTES_ORACLE_def
        MAX_IDENTIFIER_CHARS_MYSQL_def MAX_IDENTIFIER_CHARS_SQL_SERVER_def)
  show "refuses_locally (case x of (d, name) \<Rightarrow> validate_identifier d name)"
    unfolding x by (cases d) (auto simp: validate_identifier_def intro!: refusal_intros)
qed

lemma quote_identifier_Inr:
  "quote_identifier d name = Inr q \<longleftrightarrow>
     identifier_ok d name \<and> q = open_mark d # double_char (close_mark d) name @ [close_mark d]"
proof -
  have guard: "and_then (validate_identifier d name) f = Inr q \<longleftrightarrow> identifier_ok d name \<and> f () = Inr q"
    for f using identifier_validator.guard_Inr [of "(d, name)" f q] by simp
  show ?thesis unfolding quote_identifier_def guard by (cases d) auto
qed

lemma double_char_simps [simp]:
  "double_char c [] = []"
  "double_char c (x # xs) = (if x = c then [c, c] else [x]) @ double_char c xs"
  by (simp_all add: double_char_def)

lemma unquote_body_double: "unquote_body c (double_char c name @ [c]) = Some name"
proof (induction name)
  case Nil
  then show ?case by simp
next
  case (Cons x xs)
  obtain y ys where body: "double_char c xs @ [c] = y # ys"
    by (cases "double_char c xs @ [c]") simp_all
  with Cons show ?case by auto
qed

section \<open>A quoted identifier is one token\<close>

lemma nth_append_at: "(pre @ x # post) ! length pre = x"
  by simp

lemma quoted_end_double:
  assumes "post = [] \<or> hd post \<noteq> c" and "backslash \<Longrightarrow> CHR 0x5C \<notin> set name" and "c \<noteq> CHR 0x5C"
  shows "quoted_end (pre @ double_char c name @ c # post) (length pre) c backslash =
    Inr (length pre + length (double_char c name) + 1)"
  using assms(2)
proof (induction name arbitrary: pre)
  case Nil
  have "get_at (pre @ c # post) (length pre + 1) \<noteq> Some c"
    using assms(1) by (cases post) (auto simp: get_at_def nth_append)
  then show ?case
    using assms(3) by (subst quoted_end.simps) (simp add: nth_append_at)
next
  case (Cons x xs)
  show ?case
  proof (cases "x = c")
    case True
    have "get_at (pre @ c # c # double_char c xs @ c # post) (length pre + 1) = Some c"
      by (simp add: get_at_def nth_append)
    then have "quoted_end (pre @ c # c # double_char c xs @ c # post) (length pre) c backslash =
        quoted_end ((pre @ [c, c]) @ double_char c xs @ c # post) (length (pre @ [c, c])) c backslash"
      using assms(3) by (subst quoted_end.simps) (simp add: nth_append_at)
    also have "\<dots> = Inr (length (pre @ [c, c]) + length (double_char c xs) + 1)"
      by (rule Cons.IH) (use Cons.prems in auto)
    finally show ?thesis using True by simp
  next
    case False
    have "quoted_end (pre @ x # double_char c xs @ c # post) (length pre) c backslash =
        quoted_end ((pre @ [x]) @ double_char c xs @ c # post) (length (pre @ [x])) c backslash"
      using False Cons.prems by (subst quoted_end.simps) (auto simp: nth_append_at)
    also have "\<dots> = Inr (length (pre @ [x]) + length (double_char c xs) + 1)"
      by (rule Cons.IH) (use Cons.prems in auto)
    finally show ?thesis using False by simp
  qed
qed

lemma token_end_quoted:
  assumes q: "quote_identifier d name = Inr q" and post: "post = [] \<or> hd post \<noteq> close_mark d"
    and bs: "backslash \<Longrightarrow> d = IdSqlServer \<or> CHR 0x5C \<notin> set name"
  shows "token_end (pre @ q @ post) (length pre) backslash = Inr (length pre + length q)"
proof -
  have q': "q = open_mark d # double_char (close_mark d) name @ [close_mark d]"
    using q by (simp add: quote_identifier_Inr)
  have opens: "opens_quote (open_mark d)" and close: "close_mark d \<noteq> CHR 0x5C"
    by (cases d; simp add: opens_quote_def)+
  have "quoted_end ((pre @ [open_mark d]) @ double_char (close_mark d) name @ close_mark d # post)
      (length (pre @ [open_mark d])) (close_mark d) (backslash \<and> d \<noteq> IdSqlServer) =
      Inr (length (pre @ [open_mark d]) + length (double_char (close_mark d) name) + 1)"
    by (rule quoted_end_double) (use post bs close in auto)
  then show ?thesis
    unfolding token_end_def Let_def q' using opens by (cases d) simp_all
qed

section \<open>Properties\<close>

text \<open>Quoting succeeds exactly for the identifiers of the contract (not empty, no control
  character, at most 63 or 128 bytes for PostgreSQL and Oracle, 64 or 128 characters for MySQL and SQL
  Server), refuses the others with a local error, and what it writes reads back to the name: two
  different names never get the same quoted form.\<close>

lemma quote_identifier_roundtrip:
  "(is_ok (quote_identifier d name) \<longleftrightarrow> identifier_ok d name)
   \<and> refuses_locally (quote_identifier d name)
   \<and> (\<forall>q. quote_identifier d name = Inr q \<longrightarrow> unquote d q = Some name)"
proof (intro conjI)
  show "is_ok (quote_identifier d name) \<longleftrightarrow> identifier_ok d name"
    by (simp add: is_ok_iff quote_identifier_Inr)
  have "refuses_locally (validate_identifier d name)"
    using identifier_validator.refusal [of "(d, name)"] by simp
  then show "refuses_locally (quote_identifier d name)"
    unfolding quote_identifier_def by (cases d) (auto intro!: refusal_intros)
  show "\<forall>q. quote_identifier d name = Inr q \<longrightarrow> unquote d q = Some name"
    by (auto simp: quote_identifier_Inr unquote_def unquote_body_double)
qed

text \<open>C12: a quoted identifier is one token of the lexical gate.  Wherever the quoted form stands in a statement,
  the gate steps over all its bytes at once, whatever the name holds (quote marks, semicolons, comment marks), and
  the only thing it may record of it is that a statement begins without a keyword.  Two hypotheses: the byte
  after the quoted form is not another closing mark (that would continue it), and either the reading does not
  take backslashes as escapes, or the name has no backslash, or the marks are square brackets; in the reading
  with backslash escapes a name in double quotes or back-ticks that holds a backslash is outside this
  property.\<close>

theorem quoted_identifier_one_token:
  assumes "quote_identifier d name = Inr q" and "post = [] \<or> hd post \<noteq> close_mark d"
    and "backslash \<Longrightarrow> d = IdSqlServer \<or> CHR 0x5C \<notin> set name"
  shows "heads_loop (pre @ q @ post) backslash nested mysql heads head (length pre) =
    heads_loop (pre @ q @ post) backslash nested mysql heads (Some (case head of None \<Rightarrow> [] | Some value \<Rightarrow> value))
      (length pre + length q)"
proof -
  have q: "\<exists>body. q = open_mark d # body" using assms(1) by (auto simp: quote_identifier_Inr)
  have first: "\<not> is_ascii_whitespace (open_mark d)" "open_mark d \<noteq> CHR '';''" "open_mark d \<noteq> CHR ''#''"
    "open_mark d \<noteq> CHR ''-''" "open_mark d \<noteq> CHR ''/''" "\<not> is_ascii_alphabetic (open_mark d)"
    by (cases d; simp add: is_ascii_whitespace_def is_ascii_alphabetic_def)+
  note token_end_quoted [OF assms]
  moreover have "\<not> is_line_comment mysql (q @ post)" "\<not> starts_with (q @ post) ''/*''"
    "(q @ post) ! 0 = open_mark d" "0 < length q" "keyword_at (q @ post) = []"
    using q first by (auto simp: is_line_comment_def get_at_def keyword_at_def to_ascii_uppercase_def)
  ultimately show ?thesis
    using first by (cases head; subst heads_loop.simps) (simp_all add: Let_def nth_append)
qed

text \<open>A name made to end the statement, in the middle of one and at its beginning.\<close>

theorem quoted_identifier_one_token_witness:
  "heads_loop (''SELECT '' @ ''[a]];--]'' @ '' FROM t'') True True False [] (Some ''SELECT'') (length ''SELECT '') =
   heads_loop (''SELECT '' @ ''[a]];--]'' @ '' FROM t'') True True False [] (Some ''SELECT'')
     (length ''SELECT '' + length ''[a]];--]'')
   \<and> statement_heads (''[a]];--]'' @ '' = 1'') True True False =
     heads_loop (''[a]];--]'' @ '' = 1'') True True False [] (Some []) (length ''[a]];--]'')"
proof -
  have q: "quote_identifier IdSqlServer ''a];--'' = Inr ''[a]];--]''" by code_simp
  show ?thesis
    using quoted_identifier_one_token [OF q, of "'' FROM t''" True "''SELECT ''" True False "[]" "Some ''SELECT''"]
      quoted_identifier_one_token [OF q, of "'' = 1''" True "[]" True False "[]" None]
    by (simp add: statement_heads_def)
qed

end
