(* ===== verification/Mysql_Policy.thy ===== *)
theory Mysql_Policy
  imports Identifier
begin

text \<open>
  The MySQL/MariaDB gates of \<open>plenora-database-core/src/mysql_caller_policy.rs\<close>: the tokenizer of
  caller SQL, the caller gate (one statement, no \<open>USE\<close>, \<open>SET\<close> only of user variables) and the
  transaction gate (an allowlist of verbs).
\<close>

section \<open>The tokenizer\<close>

definition ascii_user_name :: "string \<Rightarrow> bool" where
  "ascii_user_name name \<longleftrightarrow>
     name \<noteq> [] \<and> list_all (\<lambda>b. is_ascii_alphanumeric b \<or> b \<in> {CHR ''_'', CHR ''$'', CHR ''.''}) name"

text \<open>\<open>char::from(byte).to_string()\<close>: the UTF-8 form of the code point with that number.\<close>

definition char_from_byte :: "char \<Rightarrow> string" where
  "char_from_byte c =
     (if byte_of c < 128 then [c] else [char_of (192 + byte_of c div 64), char_of (128 + byte_of c mod 64)])"

definition is_mysql_space :: "char \<Rightarrow> bool" where
  "is_mysql_space c \<longleftrightarrow> is_ascii_whitespace c \<or> c = CHR 0x0B"

definition is_mysql_quote :: "char \<Rightarrow> bool" where
  "is_mysql_quote c \<longleftrightarrow> c \<in> {CHR 0x27, CHR 0x22, CHR 0x60}"

definition is_mysql_word :: "char \<Rightarrow> bool" where
  "is_mysql_word c \<longleftrightarrow> is_ascii_alphanumeric c \<or> c \<in> {CHR ''_'', CHR ''$''}"

definition quoted_token :: "string \<Rightarrow> string" where
  "quoted_token body =
     (let name = to_ascii_uppercase body in if ascii_user_name name then name else ''<quoted>'')"

lemma takeWhile_drop_pos: "p < length xs \<Longrightarrow> P (xs ! p) \<Longrightarrow> 0 < length (takeWhile P (drop p xs))"
  by (simp add: Cons_nth_drop_Suc [symmetric])

function statements_loop :: "string \<Rightarrow> string list list \<Rightarrow> string list \<Rightarrow> nat \<Rightarrow> string list list result" where
  "statements_loop sql statements tokens position =
     (if position < length sql then
        let rest = drop position sql
        in if is_mysql_space (rest ! 0) then statements_loop sql statements tokens (position + 1)
           else if is_line_comment True rest
           then statements_loop sql statements tokens (position + line_length rest)
           else if starts_with rest ''/*'' then
             (if is_executable_comment rest then Inl lexical_error
              else and_then (comment_end sql (position + 2) False) (statements_loop sql statements tokens))
           else if rest ! 0 = CHR '';''
           then statements_loop sql (if tokens \<noteq> [] then statements @ [tokens] else statements) []
                  (position + 1)
           else if is_mysql_quote (rest ! 0)
           then and_then (quoted_end sql (position + 1) (rest ! 0) (rest ! 0 \<noteq> CHR 0x60)) (\<lambda>stop.
                  statements_loop sql statements
                    (tokens @ [quoted_token (take (stop - 1 - (position + 1)) (drop (position + 1) sql))]) stop)
           else if is_mysql_word (rest ! 0)
           then (let len = length (takeWhile is_mysql_word rest)
                 in statements_loop sql statements (tokens @ [to_ascii_uppercase (take len rest)])
                      (position + len))
           else statements_loop sql statements (tokens @ [char_from_byte (rest ! 0)]) (position + 1)
      else Inr (if tokens \<noteq> [] then statements @ [tokens] else statements))"
  by pat_completeness auto
termination
proof (relation "measure (\<lambda>(sql, _, _, position). length sql - position)", goal_cases)
  case (7 sql _ _ position rest len)
  then show ?case using takeWhile_drop_pos [of position sql is_mysql_word]
    by (simp del: length_greater_0_conv)
qed (auto dest: line_length_pos comment_end_progress quoted_end_progress)

declare statements_loop.simps [simp del]

definition statements :: "string \<Rightarrow> string list list result" where
  "statements sql = statements_loop sql [] [] 0"

definition enforce_single_mysql_statement :: "string \<Rightarrow> unit result" where
  "enforce_single_mysql_statement sql =
     and_then (statements sql) (\<lambda>stmts.
       if length stmts \<noteq> 1 then Inl (invalid_plan ''richiesto un solo statement MySQL/MariaDB'') else Inr ())"

section \<open>User assignments\<close>

definition reject_set :: database_error where
  "reject_set = invalid_plan ''SET MySQL/MariaDB richiede esclusivamente variabili utente ASCII''"

text \<open>The inner \<open>while\<close>: the position of the comma that ends the value (or the end) and the depth.\<close>

function value_end :: "string list \<Rightarrow> nat \<Rightarrow> nat \<Rightarrow> (nat \<times> nat) result" where
  "value_end tokens position depth =
     (if position < length tokens then
        if tokens ! position = ''('' then value_end tokens (position + 1) (depth + 1)
        else if tokens ! position = '')'' then
          (if depth = 0 then Inl reject_set else value_end tokens (position + 1) (depth - 1))
        else if tokens ! position = '','' \<and> depth = 0 then Inr (position, depth)
        else value_end tokens (position + 1) depth
      else Inr (position, depth))"
  by pat_completeness auto
termination
  by (relation "measure (\<lambda>(tokens, position, _). length tokens - position)") auto

declare value_end.simps [simp del]

lemma value_end_le:
  "value_end tokens position depth = Inr (p, d) \<Longrightarrow> position \<le> p \<and> p \<le> max position (length tokens)"
proof (induction tokens position depth rule: value_end.induct)
  case (1 tokens position depth)
  have next_: "value_end tokens (position + 1) k = Inr (p, d) \<Longrightarrow>
      position + 1 \<le> p \<and> p \<le> max (position + 1) (length tokens) \<Longrightarrow> ?case" if "position < length tokens" for k
    using that by simp
  from 1(4) show ?case
    by (subst (asm) value_end.simps) (use 1(1-3) next_ in \<open>auto split: if_splits\<close>)
qed

function assignments_loop :: "string list \<Rightarrow> nat \<Rightarrow> unit result" where
  "assignments_loop tokens start =
     (if get_at tokens start \<noteq> Some ''@''
         \<or> \<not> (case get_at tokens (start + 1) of None \<Rightarrow> False | Some name \<Rightarrow> ascii_user_name name)
      then Inl reject_set
      else
        let equals = (if get_at tokens (start + 2) = Some '':'' then start + 3 else start + 2)
        in if get_at tokens equals \<noteq> Some ''='' then Inl reject_set
           else and_then (value_end tokens (equals + 1) 0) (\<lambda>(position, depth).
                  if position = equals + 1 \<or> depth \<noteq> 0 then Inl reject_set
                  else if position = length tokens then Inr ()
                  else assignments_loop tokens (position + 1)))"
  by pat_completeness auto
termination
  by (relation "measure (\<lambda>(tokens, start). length tokens - start)")
    (auto dest!: value_end_le simp: get_at_def split: if_splits)

declare assignments_loop.simps [simp del]

definition user_assignments :: "string list \<Rightarrow> unit result" where
  "user_assignments tokens = assignments_loop tokens 0"

section \<open>The gates\<close>

definition enforce_mysql_caller_sql :: "string \<Rightarrow> unit result" where
  "enforce_mysql_caller_sql sql =
     and_then (statements sql) (\<lambda>stmts.
       if length stmts \<noteq> 1 then Inl (invalid_plan ''richiesto un solo statement MySQL/MariaDB'')
       else
         let tokens = hd stmts
         in if get_at tokens 0 = Some ''USE''
            then Inl (invalid_plan ''USE non ammesso nello SQL del chiamante'')
            else if get_at tokens 0 = Some ''SET'' then user_assignments (drop 1 tokens)
            else Inr ())"

definition transaction_verbs :: "string set" where
  "transaction_verbs =
     {''SELECT'', ''INSERT'', ''UPDATE'', ''DELETE'', ''REPLACE'', ''WITH'', ''VALUES'', ''TABLE'', ''DO'',
      ''SET'', ''SHOW'', ''EXPLAIN'', ''DESCRIBE'', ''DESC''}"

definition verb_position :: "string list \<Rightarrow> nat" where
  "verb_position tokens =
     (case find_position (\<lambda>token. token \<noteq> ''('') tokens of None \<Rightarrow> length tokens | Some p \<Rightarrow> p)"

definition enforce_mysql_transaction_sql :: "string \<Rightarrow> unit result" where
  "enforce_mysql_transaction_sql sql =
     and_then (enforce_mysql_caller_sql sql) (\<lambda>_. and_then (statements sql) (\<lambda>stmts.
       let tokens = hd stmts;
           first = verb_position tokens;
           verb = (case get_at tokens first of None \<Rightarrow> [] | Some token \<Rightarrow> token)
       in if verb \<in> {''EXPLAIN'', ''DESCRIBE'', ''DESC''} \<and> get_at tokens (first + 1) = Some ''ANALYZE''
          then Inl (invalid_plan ''EXPLAIN ANALYZE non ammesso nel transaction scope'')
          else if verb \<notin> transaction_verbs
          then Inl (invalid_plan ''statement MySQL/MariaDB non ammesso nel transaction scope'')
          else Inr ()))"

end
