(* ===== verification/Mysql_Policy_Proofs.thy ===== *)
theory Mysql_Policy_Proofs
  imports Mysql_Policy
begin

text \<open>
  The grammar of the \<open>SET\<close> statements a MySQL caller may send, the proof that the index-based scan
  of \<open>user_assignments\<close> accepts exactly that grammar, and what the two MySQL gates guarantee.
\<close>

section \<open>The grammar of user assignments\<close>

text \<open>Nesting depth after a token list; \<open>None\<close> for a closing parenthesis too many or a comma at depth
  zero.\<close>

fun depth_after :: "nat \<Rightarrow> string list \<Rightarrow> nat option" where
  "depth_after d [] = Some d"
| "depth_after d (t # ts) =
     (if t = ''('' then depth_after (Suc d) ts
      else if t = '')'' then (case d of 0 \<Rightarrow> None | Suc k \<Rightarrow> depth_after k ts)
      else if t = '','' \<and> d = 0 then None
      else depth_after d ts)"

definition value_ok :: "string list \<Rightarrow> bool" where
  "value_ok v \<longleftrightarrow> v \<noteq> [] \<and> depth_after 0 v = Some 0"

definition assignment_marks :: "string \<Rightarrow> string list set" where
  "assignment_marks name = {[''@'', name, ''=''], [''@'', name, '':'', ''='']}"

definition assignment :: "string list \<Rightarrow> bool" where
  "assignment ts \<longleftrightarrow>
     (\<exists>name marks v. ts = marks @ v \<and> marks \<in> assignment_marks name \<and> ascii_user_name name \<and> value_ok v)"

inductive assignments :: "string list \<Rightarrow> bool" where
  last: "assignment a \<Longrightarrow> assignments a"
| more: "assignment a \<Longrightarrow> assignments rest \<Longrightarrow> assignments (a @ '','' # rest)"

section \<open>The scan of a value\<close>

fun scan_value :: "nat \<Rightarrow> string list \<Rightarrow> (nat \<times> nat) option" where
  "scan_value d [] = Some (0, d)"
| "scan_value d (t # ts) =
     (if t = ''('' then map_option (apfst Suc) (scan_value (Suc d) ts)
      else if t = '')'' then (case d of 0 \<Rightarrow> None | Suc k \<Rightarrow> map_option (apfst Suc) (scan_value k ts))
      else if t = '','' \<and> d = 0 then Some (0, d)
      else map_option (apfst Suc) (scan_value d ts))"

lemma get_at_append [simp]: "get_at (pre @ ts) (length pre + k) = get_at ts k"
  by (simp add: get_at_def)

lemma get_at_0 [simp]: "get_at (pre @ ts) (length pre) = get_at ts 0"
  using get_at_append [of pre ts 0] by simp

lemma value_end_scan:
  "value_end (pre @ ts) (length pre) d =
     (case scan_value d ts of None \<Rightarrow> Inl reject_set | Some (n, d') \<Rightarrow> Inr (length pre + n, d'))"
proof (induction ts arbitrary: pre d)
  case Nil
  then show ?case by (simp add: value_end.simps)
next
  case (Cons t ts)
  have next_: "value_end (pre @ t' # ts) (Suc (length pre)) k =
      (case scan_value k ts of None \<Rightarrow> Inl reject_set | Some (n, d') \<Rightarrow> Inr (Suc (length pre) + n, d'))"
    for t' k using Cons.IH [of "pre @ [t']" k] by (auto split: option.splits)
  have push: "(case map_option (apfst Suc) x of None \<Rightarrow> Inl reject_set | Some (n, d') \<Rightarrow> Inr (m + n, d')) =
      (case x of None \<Rightarrow> Inl reject_set | Some (n, d') \<Rightarrow> Inr (Suc m + n, d'))"
    for x :: "(nat \<times> nat) option" and m by (cases x) auto
  show ?case
    by (subst value_end.simps, cases d) (simp_all add: next_ push del: add_Suc case_map_option)
qed

lemma scan_value_iff:
  "scan_value d ts = Some (n, d') \<longleftrightarrow>
     n \<le> length ts \<and> depth_after d (take n ts) = Some d' \<and>
     (n = length ts \<or> ts ! n = '','' \<and> d' = 0)"
proof (induction d ts arbitrary: n d' rule: scan_value.induct)
  case (1 d)
  then show ?case by auto
next
  case (2 d t ts)
  show ?case
  proof (cases n)
    case 0
    then show ?thesis by (auto split: nat.splits)
  next
    case (Suc m)
    then show ?thesis
      using 2 by (auto split: nat.splits if_splits)
  qed
qed

lemma assignments_unfold:
  "assignments ts \<longleftrightarrow>
     (\<exists>name marks rest n. ts = marks @ rest \<and> marks \<in> assignment_marks name \<and> ascii_user_name name
        \<and> scan_value 0 rest = Some (n, 0) \<and> 0 < n
        \<and> (n = length rest \<or> assignments (drop (Suc n) rest)))"
  (is "_ \<longleftrightarrow> ?rhs")
proof
  assume "assignments ts"
  then show ?rhs
  proof cases
    case last
    then obtain name marks v where "ts = marks @ v" "marks \<in> assignment_marks name"
      "ascii_user_name name" "value_ok v" by (auto simp: assignment_def)
    moreover from \<open>value_ok v\<close> have "scan_value 0 v = Some (length v, 0)" "0 < length v"
      by (auto simp: value_ok_def scan_value_iff)
    ultimately show ?thesis by blast
  next
    case (more a rest)
    then obtain name marks v where a: "a = marks @ v" "marks \<in> assignment_marks name"
      "ascii_user_name name" "value_ok v" by (auto simp: assignment_def)
    from \<open>value_ok v\<close> have "scan_value 0 (v @ '','' # rest) = Some (length v, 0)" "0 < length v"
      by (auto simp: value_ok_def scan_value_iff)
    moreover have "drop (Suc (length v)) (v @ '','' # rest) = rest" by simp
    moreover have "ts = marks @ (v @ '','' # rest)" using more a by simp
    ultimately show ?thesis using a more by metis
  qed
next
  assume ?rhs
  then obtain name marks rest n where ts: "ts = marks @ rest"
    and ok: "ascii_user_name name" "marks \<in> assignment_marks name"
    and scan: "scan_value 0 rest = Some (n, 0)" "0 < n"
    and rest: "n = length rest \<or> assignments (drop (Suc n) rest)" by blast
  have "value_ok (take n rest)" and le: "n \<le> length rest" and comma: "n = length rest \<or> rest ! n = '',''"
    using scan by (auto simp: value_ok_def scan_value_iff)
  then have a: "assignment (marks @ take n rest)"
    using ok unfolding assignment_def by blast
  show "assignments ts"
  proof (cases "n = length rest")
    case True
    with a ts show ?thesis by (simp add: assignments.last)
  next
    case False
    then have "rest = take n rest @ '','' # drop (Suc n) rest"
      using le comma by (metis id_take_nth_drop le_neq_implies_less)
    then have "ts = (marks @ take n rest) @ '','' # drop (Suc n) rest"
      using ts by simp
    with assignments.more [OF a] rest False show ?thesis by metis
  qed
qed

section \<open>The loop over the assignments\<close>

definition header_at :: "string list \<Rightarrow> nat option" where
  "header_at ts =
     (if get_at ts 0 \<noteq> Some ''@''
         \<or> \<not> (case get_at ts 1 of None \<Rightarrow> False | Some name \<Rightarrow> ascii_user_name name)
      then None
      else let equals = (if get_at ts 2 = Some '':'' then 3 else 2)
           in if get_at ts equals \<noteq> Some ''='' then None else Some (Suc equals))"

lemma get_at_simps [simp]:
  "get_at (x # xs) 0 = Some x" "get_at (x # xs) (Suc j) = get_at xs j" "get_at [] j = None"
  by (simp_all add: get_at_def)

lemma header_at_iff:
  "header_at ts = Some k \<longleftrightarrow>
     (\<exists>name rest. ascii_user_name name \<and>
        (ts = [''@'', name, ''=''] @ rest \<and> k = 3 \<or> ts = [''@'', name, '':'', ''=''] @ rest \<and> k = 4))"
  apply (cases ts; simp add: header_at_def)
  subgoal for a ts1
    apply (cases ts1; simp)
    subgoal for b ts2
      apply (cases ts2; simp add: numeral_2_eq_2 numeral_3_eq_3)
      subgoal for c ts3
        by (cases ts3) (auto simp: Let_def numeral_2_eq_2 numeral_3_eq_3)
      done
    done
  done

lemma assignments_header:
  "assignments ts \<longleftrightarrow>
     (\<exists>k n. header_at ts = Some k \<and> scan_value 0 (drop k ts) = Some (n, 0) \<and> 0 < n
        \<and> (k + n = length ts \<or> assignments (drop (Suc n) (drop k ts))))"
proof -
  have "assignments ts \<longleftrightarrow>
      (\<exists>name rest n. ascii_user_name name \<and>
         (ts = [''@'', name, ''=''] @ rest \<or> ts = [''@'', name, '':'', ''=''] @ rest) \<and>
         scan_value 0 rest = Some (n, 0) \<and> 0 < n \<and> (n = length rest \<or> assignments (drop (Suc n) rest)))"
    unfolding assignments_unfold [of ts] assignment_marks_def insert_iff empty_iff by blast
  also have "\<dots> \<longleftrightarrow> (\<exists>k n. header_at ts = Some k \<and> scan_value 0 (drop k ts) = Some (n, 0) \<and> 0 < n
        \<and> (k + n = length ts \<or> assignments (drop (Suc n) (drop k ts))))"
    unfolding header_at_iff by (auto simp del: drop_drop)
  finally show ?thesis .
qed

lemma assignments_loop_step:
  "assignments_loop (pre @ ts) (length pre) =
     (case header_at ts of
        None \<Rightarrow> Inl reject_set
      | Some k \<Rightarrow>
          (case scan_value 0 (drop k ts) of
             None \<Rightarrow> Inl reject_set
           | Some (n, d) \<Rightarrow>
               if n = 0 \<or> d \<noteq> 0 then Inl reject_set
               else if k + n = length ts then Inr ()
               else assignments_loop (pre @ ts) (length pre + (k + n + 1))))"
proof -
  have get: "get_at (pre @ ts) (length pre + 1) = get_at ts 1"
    "get_at (pre @ ts) (length pre + 2) = get_at ts 2" "get_at (pre @ ts) (length pre + 3) = get_at ts 3"
    by (rule get_at_append)+
  show ?thesis
  proof (cases "header_at ts")
    case None
    then show ?thesis
      by (subst assignments_loop.simps)
        (auto simp: header_at_def Let_def get simp del: One_nat_def add_2_eq_Suc' add_Suc_right
          split: if_splits)
  next
    case (Some k)
    then have k: "k \<le> length ts" by (auto simp: header_at_iff)
    have v: "value_end (pre @ ts) (length pre + k) 0 =
        (case scan_value 0 (drop k ts) of None \<Rightarrow> Inl reject_set
         | Some (n, d') \<Rightarrow> Inr (length pre + k + n, d'))"
      using value_end_scan [of "pre @ take k ts" "drop k ts" 0] k
      by (auto split: option.splits simp: min_absorb2)
    define equals where "equals = (if get_at ts 2 = Some '':'' then length pre + 3 else length pre + 2)"
    have eq: "equals + 1 = length pre + k" and at: "get_at (pre @ ts) equals = Some ''=''"
      and ok: "get_at ts 0 = Some ''@''" "case get_at ts 1 of None \<Rightarrow> False | Some name \<Rightarrow> ascii_user_name name"
      using Some by (auto simp: header_at_def Let_def equals_def get simp del: One_nat_def add_2_eq_Suc' add_Suc_right
          split: if_splits)
    have "assignments_loop (pre @ ts) (length pre) =
        and_then (value_end (pre @ ts) (equals + 1) 0) (\<lambda>(position, depth).
          if position = equals + 1 \<or> depth \<noteq> 0 then Inl reject_set
          else if position = length (pre @ ts) then Inr ()
          else assignments_loop (pre @ ts) (position + 1))"
      by (subst assignments_loop.simps)
        (use at ok in \<open>simp add: get equals_def [symmetric] del: One_nat_def add_2_eq_Suc' add_Suc_right\<close>)
    then show ?thesis
      unfolding eq v using Some by (auto split: option.splits simp: add.assoc)
  qed
qed

lemma assignments_loop_iff: "assignments_loop (pre @ ts) (length pre) = Inr () \<longleftrightarrow> assignments ts"
proof (induction "length ts" arbitrary: pre ts rule: less_induct)
  case less
  show ?case
  proof (cases "\<exists>k n. header_at ts = Some k \<and> scan_value 0 (drop k ts) = Some (n, 0) \<and> 0 < n")
    case True
    then obtain k n where kn: "header_at ts = Some k" "scan_value 0 (drop k ts) = Some (n, 0)" "0 < n"
      by blast
    have le: "k + n \<le> length ts" using kn by (auto simp: scan_value_iff header_at_iff)
    show ?thesis
    proof (cases "k + n = length ts")
      case False
      with le have "length (drop (k + n + 1) ts) < length ts" by simp
      from less [OF this, of "pre @ take (k + n + 1) ts"] False le kn show ?thesis
        by (simp add: assignments_loop_step assignments_header [of ts] min_absorb2 add.commute)
    qed (use kn in \<open>simp add: assignments_loop_step assignments_header [of ts]\<close>)
  next
    case False
    then show ?thesis
      by (auto simp: assignments_loop_step assignments_header [of ts] split: option.splits)
  qed
qed

lemma user_assignments_iff: "user_assignments ts = Inr () \<longleftrightarrow> assignments ts"
  using assignments_loop_iff [of "[]" ts] by (simp add: user_assignments_def)

section \<open>The gates\<close>

lemma statements_loop_nonempty:
  "[] \<notin> set stmts \<Longrightarrow> result_sat (\<lambda>r. [] \<notin> set r) (statements_loop sql stmts tokens position)"
proof (induction sql stmts tokens position rule: statements_loop.induct)
  case (1 sql stmts tokens position)
  have pushed: "[] \<notin> set (if tokens \<noteq> [] then stmts @ [tokens] else stmts)" using 1(8) by simp
  show ?case
    apply (subst statements_loop.simps)
    apply (unfold Let_def)
    apply (intro sat_intros)
           apply (rule 1(1) [OF _ refl _ 1(8)]; assumption)
          apply (rule 1(2) [OF _ refl _ _ 1(8)]; assumption)
         apply (rule 1(3) [OF _ refl _ _ _ _ _ 1(8)]; assumption)
        apply (rule 1(4) [OF _ refl _ _ _ _ pushed]; assumption)
       apply (rule 1(5) [OF _ refl _ _ _ _ _ _ 1(8)]; assumption)
      apply (rule 1(6) [OF _ refl _ _ _ _ _ _ refl 1(8)]; assumption)
     apply (rule 1(7) [OF _ refl _ _ _ _ _ _ 1(8)]; assumption)
    apply (simp add: pushed)
    done
qed

lemma statements_nonempty: "statements sql = Inr stmts \<Longrightarrow> tokens \<in> set stmts \<Longrightarrow> tokens \<noteq> []"
  using result_satD [OF statements_loop_nonempty [of "[]" sql "[]" 0], of stmts]
  by (auto simp: statements_def)

lemma one_statement:
  "statements sql = Inr stmts \<Longrightarrow> length stmts = 1 \<longleftrightarrow> (\<exists>tokens. stmts = [tokens] \<and> tokens \<noteq> [])"
  using statements_nonempty [of sql stmts] by (auto simp: length_Suc_conv)

definition caller_statement :: "string list \<Rightarrow> bool" where
  "caller_statement tokens \<longleftrightarrow>
     tokens \<noteq> [] \<and> hd tokens \<noteq> ''USE'' \<and> (hd tokens = ''SET'' \<longrightarrow> assignments (tl tokens))"

lemma caller_sql_iff:
  "enforce_mysql_caller_sql sql = Inr () \<longleftrightarrow> (\<exists>tokens. statements sql = Inr [tokens] \<and> caller_statement tokens)"
proof (cases "statements sql")
  case (Inl e)
  then show ?thesis by (simp add: enforce_mysql_caller_sql_def)
next
  case (Inr stmts)
  show ?thesis
  proof (cases "length stmts = 1")
    case True
    then obtain tokens where "stmts = [tokens]" "tokens \<noteq> []" using one_statement [OF Inr] by blast
    with Inr show ?thesis
      by (cases tokens)
        (auto simp: enforce_mysql_caller_sql_def caller_statement_def user_assignments_iff Let_def)
  next
    case False
    with Inr show ?thesis by (auto simp: enforce_mysql_caller_sql_def)
  qed
qed

text \<open>The verb of a statement: its first token after opening parentheses.\<close>

definition verb_tokens :: "string list \<Rightarrow> string list" where
  "verb_tokens tokens = dropWhile (\<lambda>token. token = ''('') tokens"

lemma find_position_drop:
  "drop (case find_position (\<lambda>x. \<not> P x) xs of None \<Rightarrow> length xs | Some p \<Rightarrow> p) xs = dropWhile P xs"
  by (induction xs) (auto split: option.splits)

lemma get_at_drop: "get_at xs (n + k) = get_at (drop n xs) k"
  by (auto simp: get_at_def)

definition transaction_statement :: "string list \<Rightarrow> bool" where
  "transaction_statement tokens \<longleftrightarrow>
     (\<exists>verb rest. verb_tokens tokens = verb # rest \<and> verb \<in> transaction_verbs \<and>
        \<not> (verb \<in> {''EXPLAIN'', ''DESCRIBE'', ''DESC''} \<and> starts_with rest [''ANALYZE'']))"

lemma transaction_sql_iff:
  "enforce_mysql_transaction_sql sql = Inr () \<longleftrightarrow>
     (\<exists>tokens. statements sql = Inr [tokens] \<and> caller_statement tokens \<and> transaction_statement tokens)"
proof (cases "\<exists>tokens. statements sql = Inr [tokens] \<and> caller_statement tokens")
  case True
  then obtain tokens where t: "statements sql = Inr [tokens]" "caller_statement tokens" by blast
  define first where "first = verb_position tokens"
  have drop_: "drop first tokens = verb_tokens tokens"
    using find_position_drop [where P = "\<lambda>token. token = ''(''" and xs = tokens] by (simp add: first_def verb_position_def verb_tokens_def)
  have verb: "get_at tokens first = get_at (verb_tokens tokens) 0"
    "get_at tokens (first + 1) = get_at (verb_tokens tokens) 1"
    using get_at_drop [of tokens first 0] get_at_drop [of tokens first 1] by (simp_all add: drop_)
  have "enforce_mysql_transaction_sql sql = Inr () \<longleftrightarrow>
      (let verb = (case get_at tokens first of None \<Rightarrow> [] | Some token \<Rightarrow> token)
       in verb \<in> transaction_verbs \<and> \<not> (verb \<in> {''EXPLAIN'', ''DESCRIBE'', ''DESC''}
            \<and> get_at tokens (first + 1) = Some ''ANALYZE''))"
    using t caller_sql_iff [of sql]
    by (simp add: enforce_mysql_transaction_sql_def Let_def flip: first_def)
  also have "\<dots> \<longleftrightarrow> transaction_statement tokens"
  proof (cases "verb_tokens tokens")
    case Nil
    then show ?thesis
      unfolding verb by (simp add: transaction_statement_def transaction_verbs_def)
  next
    case (Cons v rest)
    have "get_at rest 0 = Some ''ANALYZE'' \<longleftrightarrow> starts_with rest [''ANALYZE'']" by (cases rest) simp_all
    with Cons show ?thesis unfolding verb by (simp add: transaction_statement_def Let_def)
  qed
  finally show ?thesis using t by auto
next
  case False
  then have "enforce_mysql_caller_sql sql \<noteq> Inr ()" by (simp add: caller_sql_iff)
  with False show ?thesis by (auto simp: enforce_mysql_transaction_sql_def result_simps)
qed

section \<open>Properties\<close>

text \<open>C32: the MySQL caller gate accepts exactly the texts that tokenize to one statement which does not
  start with \<open>USE\<close> and, when it starts with \<open>SET\<close>, is a comma-separated list of user variable
  assignments \<open>@name = value\<close> or \<open>@name := value\<close> with balanced, non-empty values: no system variable
  can be set through it.\<close>

theorem mysql_caller_gate_exact:
  "enforce_mysql_caller_sql sql = Inr () \<longleftrightarrow>
     (\<exists>tokens. statements sql = Inr [tokens] \<and> tokens \<noteq> [] \<and> hd tokens \<noteq> ''USE'' \<and>
        (hd tokens = ''SET'' \<longrightarrow> assignments (tl tokens)))"
  unfolding caller_sql_iff caller_statement_def ..

theorem mysql_caller_gate_exact_witness:
  "assignments [''@'', ''A'', ''='', ''('', ''1'', '','', ''2'', '')'', '','', ''@'', ''B'', '':'', ''='', ''3''] \<and>
   \<not> assignments [''GLOBAL'', ''X'', ''='', ''1'']"
proof -
  have "enforce_mysql_caller_sql ''set @a = (1, 2), @b := 3'' = Inr ()" by code_simp
  moreover have "statements ''set @a = (1, 2), @b := 3'' = Inr [[''SET'', ''@'', ''A'', ''='', ''('', ''1'',
      '','', ''2'', '')'', '','', ''@'', ''B'', '':'', ''='', ''3'']]" by code_simp
  ultimately have ok: "assignments [''@'', ''A'', ''='', ''('', ''1'', '','', ''2'', '')'', '','', ''@'', ''B'',
      '':'', ''='', ''3'']"
    using mysql_caller_gate_exact [of "''set @a = (1, 2), @b := 3''"] by auto
  have "\<not> is_ok (enforce_mysql_caller_sql ''set global x = 1'')" by code_simp
  moreover have "statements ''set global x = 1'' = Inr [[''SET'', ''GLOBAL'', ''X'', ''='', ''1'']]" by code_simp
  ultimately have "\<not> assignments [''GLOBAL'', ''X'', ''='', ''1'']"
    using mysql_caller_gate_exact [of "''set global x = 1''"] by auto
  with ok show ?thesis by blast
qed

text \<open>The MySQL transaction gate accepts exactly the texts the caller gate accepts whose verb, the
  first token after opening parentheses, is on the allowlist and is not an \<open>EXPLAIN ANALYZE\<close>; DDL,
  transaction control, \<open>CALL\<close>, \<open>PREPARE\<close> and every other verb that could commit implicitly is refused.\<close>

lemma mysql_transaction_gate_exact:
  "enforce_mysql_transaction_sql sql = Inr () \<longleftrightarrow>
     enforce_mysql_caller_sql sql = Inr () \<and>
     (\<exists>tokens verb rest. statements sql = Inr [tokens] \<and> verb_tokens tokens = verb # rest \<and>
        verb \<in> {''SELECT'', ''INSERT'', ''UPDATE'', ''DELETE'', ''REPLACE'', ''WITH'', ''VALUES'', ''TABLE'',
                 ''DO'', ''SET'', ''SHOW'', ''EXPLAIN'', ''DESCRIBE'', ''DESC''} \<and>
        \<not> (verb \<in> {''EXPLAIN'', ''DESCRIBE'', ''DESC''} \<and> starts_with rest [''ANALYZE'']))"
  unfolding transaction_sql_iff caller_sql_iff transaction_statement_def transaction_verbs_def
  by (metis Inr_inject list.inject)

text \<open>C37: which \<open>SET\<close> the transaction gate lets through.  For a text of one statement whose verb, past any opening
  parentheses, is \<open>SET\<close>, it accepts a \<open>SET\<close> that is the first token exactly when what it sets are user variables,
  and a parenthesised one always, whatever follows: the check of the assignments looks at the first token only,
  so system variables pass behind a parenthesis.\<close>

theorem parenthesised_set_passes:
  assumes "statements sql = Inr [tokens]" and "verb_tokens tokens = ''SET'' # rest"
  shows "enforce_mysql_transaction_sql sql = Inr () \<longleftrightarrow> hd tokens = ''('' \<or> assignments rest"
proof -
  obtain t ts where tokens: "tokens = t # ts" using assms(2) by (cases tokens) (auto simp: verb_tokens_def)
  have "transaction_statement tokens"
    using assms(2) by (simp add: transaction_statement_def transaction_verbs_def)
  then have gate: "enforce_mysql_transaction_sql sql = Inr () \<longleftrightarrow> caller_statement tokens"
    using assms(1) by (auto simp: transaction_sql_iff)
  show ?thesis
  proof (cases "t = ''(''")
    case True
    then show ?thesis unfolding gate by (simp add: tokens caller_statement_def)
  next
    case False
    then have "t = ''SET''" "ts = rest" using assms(2) by (simp_all add: verb_tokens_def tokens)
    then show ?thesis unfolding gate by (simp add: tokens caller_statement_def)
  qed
qed

text \<open>A system variable behind a parenthesis, and the same \<open>SET\<close> without it.\<close>

theorem parenthesised_set_passes_witness:
  "enforce_mysql_transaction_sql ''(SET GLOBAL x = 1)'' = Inr ()
   \<and> (enforce_mysql_transaction_sql ''SET GLOBAL x = 1'' = Inr () \<longleftrightarrow>
        assignments [''GLOBAL'', ''X'', ''='', ''1''])
   \<and> \<not> is_ok (enforce_mysql_caller_sql ''SET GLOBAL x = 1'')"
proof (intro conjI)
  have "statements ''(SET GLOBAL x = 1)'' = Inr [[''('', ''SET'', ''GLOBAL'', ''X'', ''='', ''1'', '')'']]" by code_simp
  from parenthesised_set_passes [OF this, of "[''GLOBAL'', ''X'', ''='', ''1'', '')'']"]
  show "enforce_mysql_transaction_sql ''(SET GLOBAL x = 1)'' = Inr ()" by (simp add: verb_tokens_def)
  have "statements ''SET GLOBAL x = 1'' = Inr [[''SET'', ''GLOBAL'', ''X'', ''='', ''1'']]" by code_simp
  from parenthesised_set_passes [OF this, of "[''GLOBAL'', ''X'', ''='', ''1'']"]
  show "enforce_mysql_transaction_sql ''SET GLOBAL x = 1'' = Inr () \<longleftrightarrow> assignments [''GLOBAL'', ''X'', ''='', ''1'']"
    by (simp add: verb_tokens_def)
  show "\<not> is_ok (enforce_mysql_caller_sql ''SET GLOBAL x = 1'')" by code_simp
qed

end
