(* ===== verification/Ewkb.thy ===== *)
theory Ewkb
  imports Error_Model
begin

unbundle bit_operations_syntax

text \<open>
  The bounded EWKB scanner, \<open>plenora-database-core/src/ewkb.rs\<close>: a walk over the bytes of a geometry
  without recursion, with an explicit stack of frames, that counts components, checks depth and
  dimension flags, and collects the type words to rewrite.  \<open>with_root_srid\<close> and
  \<open>normalize_unmarked_xyz\<close> apply those rewrites.  Bytes are \<open>8 word\<close>s; offsets are \<open>usize\<close>.
  A scanner is dropped when an operation fails, so an error carries no scanner.
\<close>

section \<open>Data\<close>

record ewkb_stats =
  es_components :: u64
  es_max_depth :: u64

record ewkb_metadata =
  em_base_type :: u32
  em_has_z :: bool
  em_has_m :: bool
  em_srid :: "u32 option"

record ewkb_inspection =
  ei_stats :: ewkb_stats
  ei_root :: ewkb_metadata
  ei_has_any_z :: bool
  ei_has_any_m :: bool
  ei_has_any_embedded_srid :: bool
  ei_embedded_srid_count :: u64

record ewkb_header =
  h_base_type :: u32
  h_dimensions :: u64
  h_little_endian :: bool
  h_has_z :: bool
  h_has_m :: bool
  h_srid :: "u32 option"

record frame =
  f_remaining :: u64
  f_child_depth :: u64

record type_patch =
  tp_offset :: nat
  tp_little_endian :: bool
  tp_type_word :: u32

datatype dimension_mode = DmStrict | ForceUnmarkedZ | ExtendedForm

record scanner =
  s_bytes :: "u8 list"
  s_offset :: nat
  s_components :: u64
  s_max_components :: u64
  s_max_depth :: u64
  s_observed_depth :: u64
  s_has_any_z :: bool
  s_has_any_m :: bool
  s_has_any_embedded_srid :: bool
  s_embedded_srid_count :: u64
  s_dimension_mode :: dimension_mode
  s_type_patches :: "type_patch list"

definition dimensions_label :: "ewkb_metadata \<Rightarrow> string" where
  "dimensions_label m =
     (case (em_has_z m, em_has_m m) of
        (False, False) \<Rightarrow> ''xy'' | (True, False) \<Rightarrow> ''xyz'' | (False, True) \<Rightarrow> ''xym'' | (True, True) \<Rightarrow> ''xyzm'')"

definition geometry_type_name :: "ewkb_metadata \<Rightarrow> string option" where
  "geometry_type_name m =
     map_of
       [(1, ''Point''), (2, ''LineString''), (3, ''Polygon''), (4, ''MultiPoint''), (5, ''MultiLineString''),
        (6, ''MultiPolygon''), (7, ''GeometryCollection''), (8, ''CircularString''), (9, ''CompoundCurve''),
        (10, ''CurvePolygon''), (11, ''MultiCurve''), (12, ''MultiSurface''), (13, ''Curve''),
        (14, ''Surface''), (15, ''PolyhedralSurface''), (16, ''TIN''), (17, ''Triangle'')] (em_base_type m)"

definition mapping_error :: "string \<Rightarrow> database_error" where
  "mapping_error message = error_new DataMapping PhValidate None message"

definition resource_error :: "string \<Rightarrow> database_error" where
  "resource_error message = resource_limit message"

section \<open>Byte order\<close>

fun from_le_bytes :: "u8 list \<Rightarrow> u32" where
  "from_le_bytes [] = 0"
| "from_le_bytes (b # bs) = ucast b OR push_bit 8 (from_le_bytes bs)"

definition from_be_bytes :: "u8 list \<Rightarrow> u32" where
  "from_be_bytes bs = from_le_bytes (rev bs)"

definition to_le_bytes :: "u32 \<Rightarrow> u8 list" where
  "to_le_bytes w = [ucast w, ucast (drop_bit 8 w), ucast (drop_bit 16 w), ucast (drop_bit 24 w)]"

definition to_be_bytes :: "u32 \<Rightarrow> u8 list" where
  "to_be_bytes w = rev (to_le_bytes w)"

definition decode_u32 :: "bool \<Rightarrow> u8 list \<Rightarrow> u32" where
  "decode_u32 little_endian raw = (if little_endian then from_le_bytes raw else from_be_bytes raw)"

definition encode_u32 :: "bool \<Rightarrow> u32 \<Rightarrow> u8 list" where
  "encode_u32 little_endian w = (if little_endian then to_le_bytes w else to_be_bytes w)"

section \<open>The scanner\<close>

definition add_components :: "scanner \<Rightarrow> u64 \<Rightarrow> scanner result" where
  "add_components s amount =
     and_then (ok_or (checked_add (s_components s) amount)
       (resource_error ''overflow nel conteggio componenti EWKB'')) (\<lambda>n.
     if n > s_max_components s
     then Inl (resource_error ''geometria EWKB oltre il limite di componenti'')
     else Inr (s\<lparr>s_components := n\<rparr>))"

definition take_bytes :: "scanner \<Rightarrow> nat \<Rightarrow> (scanner \<times> u8 list) result" where
  "take_bytes s amount =
     and_then (ok_or (checked_add_usize (s_offset s) amount) (mapping_error ''offset EWKB oltre usize'')) (\<lambda>stop.
     if stop \<le> length (s_bytes s)
     then Inr (s\<lparr>s_offset := stop\<rparr>, take amount (drop (s_offset s) (s_bytes s)))
     else Inl (mapping_error ''payload EWKB troncato''))"

definition scan_u32 :: "scanner \<Rightarrow> bool \<Rightarrow> (scanner \<times> u32) result" where
  "scan_u32 s little_endian =
     and_then (take_bytes s 4) (\<lambda>(s, raw). Inr (s, decode_u32 little_endian raw))"

definition read_byte_order :: "scanner \<Rightarrow> (scanner \<times> bool) result" where
  "read_byte_order s =
     and_then (take_bytes s 1) (\<lambda>(s, raw).
       if raw ! 0 = 0 then Inr (s, False)
       else if raw ! 0 = 1 then Inr (s, True)
       else Inl (mapping_error ''byte order EWKB non valido''))"

text \<open>The ISO offset of a type code: the base type and the dimensions it declares.\<close>

definition iso_type :: "u32 \<Rightarrow> u32 \<times> bool \<times> bool" where
  "iso_type base_type =
     (if base_type \<ge> 3000 then (base_type - 3000, True, True)
      else if base_type \<ge> 2000 then (base_type - 2000, False, True)
      else if base_type \<ge> 1000 then (base_type - 1000, True, False)
      else (base_type, False, False))"

definition flag_if :: "bool \<Rightarrow> u32 \<Rightarrow> u32" where
  "flag_if c w = (if c then w else 0)"

definition push_patch :: "scanner \<Rightarrow> bool \<Rightarrow> type_patch \<Rightarrow> scanner" where
  "push_patch s c p = (if c then s\<lparr>s_type_patches := s_type_patches s @ [p]\<rparr> else s)"

definition interpret_type :: "scanner \<Rightarrow> nat \<Rightarrow> bool \<Rightarrow> u32 \<Rightarrow> (scanner \<times> ewkb_header) result" where
  "interpret_type s type_offset little_endian type_word =
     (if type_word AND 0x10000000 \<noteq> 0
      then Inl (mapping_error ''bounding box EWKB embedded non supportato'')
      else
        let ewkb_z = type_word AND 0x80000000 \<noteq> 0;
            ewkb_m = type_word AND 0x40000000 \<noteq> 0;
            has_srid = type_word AND 0x20000000 \<noteq> 0;
            (base_type, iso_z, iso_m) = iso_type (type_word AND 0x0fffffff);
            marked_z = ewkb_z \<or> iso_z;
            has_m = ewkb_m \<or> iso_m;
            force = s_dimension_mode s = ForceUnmarkedZ \<and> \<not> marked_z;
            has_z = marked_z \<or> force;
            s1 = push_patch s force
                   \<lparr>tp_offset = type_offset, tp_little_endian = little_endian,
                    tp_type_word = type_word OR 0x80000000\<rparr>;
            s2 = push_patch s1 (s_dimension_mode s = ExtendedForm \<and> (iso_z \<or> iso_m))
                   \<lparr>tp_offset = type_offset, tp_little_endian = little_endian,
                    tp_type_word = (type_word AND 0xf0000000) OR base_type OR flag_if has_z 0x80000000
                      OR flag_if has_m 0x40000000\<rparr>
        in and_then (if has_srid then and_then (scan_u32 s2 little_endian) (\<lambda>(s, v). Inr (s, Some v))
                     else Inr (s2, None)) (\<lambda>(s3, srid).
           Inr (s3, \<lparr>h_base_type = base_type, h_dimensions = 2 + of_bool has_z + of_bool has_m,
                     h_little_endian = little_endian, h_has_z = has_z, h_has_m = has_m, h_srid = srid\<rparr>)))"

definition scan_header :: "scanner \<Rightarrow> (scanner \<times> ewkb_header) result" where
  "scan_header s =
     and_then (read_byte_order s) (\<lambda>(s, little_endian).
     and_then (scan_u32 s little_endian) (\<lambda>(s', type_word).
     interpret_type s' (s_offset s) little_endian type_word))"

text \<open>On a 64-bit target \<open>usize::try_from\<close> of a \<open>u64\<close> does not fail.\<close>

definition coordinates :: "scanner \<Rightarrow> u64 \<Rightarrow> u64 \<Rightarrow> scanner result" where
  "coordinates s points dims =
     and_then (add_components s points) (\<lambda>s.
     and_then (ok_or (Option.bind (checked_mul points dims) (\<lambda>v. checked_mul v 8))
       (resource_error ''overflow nella dimensione coordinate EWKB'')) (\<lambda>bytes.
     and_then (take_bytes s (unat bytes)) (\<lambda>(s, _). Inr s)))"

primrec ring_loop :: "nat \<Rightarrow> scanner \<Rightarrow> bool \<Rightarrow> u64 \<Rightarrow> scanner result" where
  "ring_loop 0 s little_endian dims = Inr s"
| "ring_loop (Suc n) s little_endian dims =
     and_then (scan_u32 s little_endian) (\<lambda>(s, points).
     and_then (coordinates s (ucast points) dims) (\<lambda>s. ring_loop n s little_endian dims))"

definition note_header :: "scanner \<Rightarrow> ewkb_header \<Rightarrow> scanner result" where
  "note_header s header =
     (let s = s\<lparr>s_has_any_z := s_has_any_z s \<or> h_has_z header,
               s_has_any_m := s_has_any_m s \<or> h_has_m header,
               s_has_any_embedded_srid := s_has_any_embedded_srid s \<or> h_srid header \<noteq> None\<rparr>
      in if h_srid header \<noteq> None
         then and_then (ok_or (checked_add (s_embedded_srid_count s) 1)
                (resource_error ''overflow SRID embedded EWKB'')) (\<lambda>n.
              Inr (s\<lparr>s_embedded_srid_count := n\<rparr>))
         else Inr s)"

definition geometry_body :: "scanner \<Rightarrow> ewkb_header \<Rightarrow> (scanner \<times> u64) result" where
  "geometry_body s header =
     (let t = h_base_type header; le = h_little_endian header; dims = h_dimensions header
      in if t = 1 then and_then (coordinates s 1 dims) (\<lambda>s. Inr (s, 0))
         else if t \<in> {2, 8}
         then and_then (scan_u32 s le) (\<lambda>(s, points).
              and_then (coordinates s (ucast points) dims) (\<lambda>s. Inr (s, 0)))
         else if t \<in> {3, 17}
         then and_then (scan_u32 s le) (\<lambda>(s, rings).
              and_then (add_components s (ucast rings)) (\<lambda>s.
              and_then (ring_loop (unat rings) s le dims) (\<lambda>s. Inr (s, 0))))
         else if t \<in> {4, 5, 6, 7, 9, 10, 11, 12, 15, 16}
         then and_then (scan_u32 s le) (\<lambda>(s, n). Inr (s, ucast n))
         else if t \<in> {13, 14} then Inl (mapping_error ''tipo EWKB astratto non serializzabile'')
         else Inl (mapping_error ''tipo geometry EWKB non supportato''))"

text \<open>The letter \<open>a\<close> with a grave accent, in UTF-8.\<close>

definition depth_error :: database_error where
  "depth_error =
     resource_error (''geometria EWKB oltre il limite di profondit'' @ [CHR 0xC3, CHR 0xA0])"

definition geometry :: "scanner \<Rightarrow> u64 \<Rightarrow> (scanner \<times> u64 \<times> ewkb_header) result" where
  "geometry s depth =
     (if depth = 0 \<or> depth > s_max_depth s then Inl depth_error
      else
        and_then (add_components (s\<lparr>s_observed_depth := max (s_observed_depth s) depth\<rparr>) 1) (\<lambda>s.
        and_then (scan_header s) (\<lambda>(s, header).
        and_then (note_header s header) (\<lambda>s.
        and_then (geometry_body s header) (\<lambda>(s, children). Inr (s, children, header))))))"

section \<open>How an operation moves the scanner\<close>

text \<open>
  \<open>advances k s s'\<close>: the scanner went from \<open>s\<close> to \<open>s'\<close> over at least \<open>k\<close> bytes of the same input
  with the same limits; counters never shrink nor pass their limit, and every new patch lies in the
  bytes just read.
\<close>

definition same_input :: "scanner \<Rightarrow> scanner \<Rightarrow> bool" where
  "same_input s s' \<longleftrightarrow>
     s_bytes s' = s_bytes s \<and> s_max_components s' = s_max_components s \<and> s_max_depth s' = s_max_depth s
     \<and> s_dimension_mode s' = s_dimension_mode s"

definition moves :: "nat \<Rightarrow> scanner \<Rightarrow> scanner \<Rightarrow> bool" where
  "moves k s s' \<longleftrightarrow> s_offset s + k \<le> s_offset s' \<and> s_offset s' \<le> max (s_offset s) (length (s_bytes s))"

definition counters_grow :: "scanner \<Rightarrow> scanner \<Rightarrow> bool" where
  "counters_grow s s' \<longleftrightarrow>
     s_components s \<le> s_components s' \<and> s_components s' \<le> max (s_components s) (s_max_components s)
     \<and> s_observed_depth s \<le> s_observed_depth s' \<and> s_observed_depth s' \<le> max (s_observed_depth s) (s_max_depth s)"

definition srids_grow :: "scanner \<Rightarrow> scanner \<Rightarrow> bool" where
  "srids_grow s s' \<longleftrightarrow>
     (s_has_any_embedded_srid s \<longrightarrow> s_has_any_embedded_srid s')
     \<and> (s_embedded_srid_count s = 0 \<longrightarrow> \<not> s_has_any_embedded_srid s' \<longrightarrow> s_embedded_srid_count s' = 0)"

definition patches_added :: "scanner \<Rightarrow> scanner \<Rightarrow> bool" where
  "patches_added s s' \<longleftrightarrow>
     (\<exists>new. s_type_patches s' = s_type_patches s @ new
        \<and> (\<forall>p \<in> set new. s_offset s \<le> tp_offset p \<and> tp_offset p + 4 \<le> s_offset s')
        \<and> sorted_wrt (\<lambda>p q. tp_offset p + 4 \<le> tp_offset q) new)"

definition advances :: "nat \<Rightarrow> scanner \<Rightarrow> scanner \<Rightarrow> bool" where
  "advances k s s' \<longleftrightarrow>
     same_input s s' \<and> moves k s s' \<and> counters_grow s s' \<and> srids_grow s s' \<and> patches_added s s'"

lemma patches_added_same: "s_type_patches s' = s_type_patches s \<Longrightarrow> patches_added s s'"
  by (simp add: patches_added_def)

lemma patches_added_trans:
  assumes "patches_added s t" "patches_added t u" "s_offset s \<le> s_offset t" "s_offset t \<le> s_offset u"
  shows "patches_added s u"
proof -
  obtain a b where a: "s_type_patches t = s_type_patches s @ a"
    "\<forall>p \<in> set a. s_offset s \<le> tp_offset p \<and> tp_offset p + 4 \<le> s_offset t"
    "sorted_wrt (\<lambda>p q. tp_offset p + 4 \<le> tp_offset q) a"
    and b: "s_type_patches u = s_type_patches t @ b"
    "\<forall>p \<in> set b. s_offset t \<le> tp_offset p \<and> tp_offset p + 4 \<le> s_offset u"
    "sorted_wrt (\<lambda>p q. tp_offset p + 4 \<le> tp_offset q) b"
    using assms(1,2) unfolding patches_added_def by blast
  have "s_type_patches u = s_type_patches s @ (a @ b)
      \<and> (\<forall>p \<in> set (a @ b). s_offset s \<le> tp_offset p \<and> tp_offset p + 4 \<le> s_offset u)
      \<and> sorted_wrt (\<lambda>p q. tp_offset p + 4 \<le> tp_offset q) (a @ b)"
    using a b assms(3,4) by (fastforce simp: sorted_wrt_append)
  then show ?thesis unfolding patches_added_def by blast
qed

lemma counters_grow_trans:
  assumes "counters_grow s t" "counters_grow t u" "same_input s t"
  shows "counters_grow s u"
  using assms unfolding counters_grow_def same_input_def max_def by (auto split: if_splits)

lemma advances_refl [simp]: "advances 0 s s"
  by (simp add: advances_def same_input_def moves_def counters_grow_def srids_grow_def patches_added_same)

lemma advances_trans:
  assumes st: "advances j s t" and tu: "advances k t u"
  shows "advances (j + k) s u"
proof -
  have move: "s_offset s + j \<le> s_offset t" "s_offset t + k \<le> s_offset u"
    "s_offset t \<le> max (s_offset s) (length (s_bytes s))" "s_offset u \<le> max (s_offset t) (length (s_bytes s))"
    using st tu by (simp_all add: advances_def moves_def same_input_def)
  have "moves (j + k) s u" using move by (auto simp: moves_def)
  moreover have "same_input s u" using st tu by (simp add: advances_def same_input_def)
  moreover have "counters_grow s u"
    using st tu by (intro counters_grow_trans [of s t u]) (simp_all add: advances_def)
  moreover have "srids_grow s u" using st tu by (auto simp: advances_def srids_grow_def)
  moreover have "patches_added s u"
    by (rule patches_added_trans [of s t u]) (use st tu move in \<open>simp_all add: advances_def\<close>)
  ultimately show ?thesis by (simp add: advances_def)
qed

lemma advances_weaken: "advances k s t \<Longrightarrow> j \<le> k \<Longrightarrow> advances j s t"
  by (simp add: advances_def moves_def)

lemma advancesD:
  assumes "advances k s t"
  shows "s_bytes t = s_bytes s" "s_dimension_mode t = s_dimension_mode s" "s_max_depth t = s_max_depth s"
    "s_max_components t = s_max_components s" "s_offset s + k \<le> s_offset t"
    "s_offset t \<le> max (s_offset s) (length (s_bytes s))"
    "s_components s \<le> s_components t" "s_observed_depth s \<le> s_observed_depth t"
    "s_components t \<le> max (s_components s) (s_max_components s)"
    "s_observed_depth t \<le> max (s_observed_depth s) (s_max_depth s)"
  using assms by (simp_all add: advances_def same_input_def moves_def counters_grow_def)

lemma advances_srids:
  "advances k s t \<Longrightarrow> s_has_any_embedded_srid s \<Longrightarrow> s_has_any_embedded_srid t"
  "advances k s t \<Longrightarrow> s_embedded_srid_count s = 0 \<Longrightarrow> \<not> s_has_any_embedded_srid t \<Longrightarrow>
     s_embedded_srid_count t = 0"
  by (simp_all add: advances_def srids_grow_def)

lemma advances_patches:
  "advances k s t \<Longrightarrow> \<exists>new. s_type_patches t = s_type_patches s @ new
     \<and> (\<forall>p \<in> set new. s_offset s \<le> tp_offset p \<and> tp_offset p + 4 \<le> s_offset t)
     \<and> sorted_wrt (\<lambda>p q. tp_offset p + 4 \<le> tp_offset q) new"
  by (simp add: advances_def patches_added_def)

lemma add_components_Inr:
  assumes "add_components s n = Inr s'"
  shows "advances 0 s s'"
proof -
  obtain c where c: "checked_add (s_components s) n = Some c" "c \<le> s_max_components s" and
    s': "s' = s\<lparr>s_components := c\<rparr>"
    using assms by (auto simp: add_components_def result_simps split: if_splits)
  have "s_components s \<le> c" using checked_add_unat [OF c(1)] by (simp add: word_le_nat_alt)
  with c(2) show ?thesis
    by (simp add: s' advances_def same_input_def moves_def counters_grow_def srids_grow_def
        patches_added_same le_max_iff_disj)
qed

lemma advances_offset:
  "s_offset s + k \<le> n \<Longrightarrow> n \<le> length (s_bytes s) \<Longrightarrow> advances k s (s\<lparr>s_offset := n\<rparr>)"
  by (simp add: advances_def same_input_def moves_def counters_grow_def srids_grow_def patches_added_same)

lemma take_bytes_Inr:
  assumes "take_bytes s amount = Inr (s', raw)"
  shows "advances amount s s' \<and> length raw = amount
     \<and> raw = take amount (drop (s_offset s) (s_bytes s)) \<and> s' = s\<lparr>s_offset := s_offset s + amount\<rparr>
     \<and> s_offset s + amount \<le> length (s_bytes s)"
proof -
  have "s_offset s + amount \<le> length (s_bytes s)" "s' = s\<lparr>s_offset := s_offset s + amount\<rparr>"
    "raw = take amount (drop (s_offset s) (s_bytes s))"
    using assms by (auto simp: take_bytes_def result_simps checked_add_usize_def split: if_splits)
  then show ?thesis by (simp add: advances_offset)
qed

lemma scan_u32_Inr:
  "scan_u32 s le = Inr (s', w) \<Longrightarrow> advances 4 s s' \<and> s' = s\<lparr>s_offset := s_offset s + 4\<rparr>
     \<and> w = decode_u32 le (take 4 (drop (s_offset s) (s_bytes s)))
     \<and> s_offset s + 4 \<le> length (s_bytes s)"
  by (auto simp: scan_u32_def result_simps dest!: take_bytes_Inr)

lemma read_byte_order_Inr:
  "read_byte_order s = Inr (s', le) \<Longrightarrow> advances 1 s s' \<and> s' = s\<lparr>s_offset := s_offset s + 1\<rparr>
     \<and> s_bytes s ! s_offset s = of_bool le \<and> s_offset s < length (s_bytes s)"
  by (auto simp: read_byte_order_def result_simps split: if_splits dest!: take_bytes_Inr)

lemma coordinates_advances: "coordinates s points dims = Inr s' \<Longrightarrow> advances 0 s s'"
  by (auto simp: coordinates_def result_simps dest!: add_components_Inr take_bytes_Inr
      intro: advances_weaken [OF advances_trans])

lemma ring_loop_advances: "ring_loop n s le dims = Inr s' \<Longrightarrow> advances 0 s s'"
proof (induction n arbitrary: s)
  case 0
  then show ?case by simp
next
  case (Suc n)
  then obtain s1 points s2 where "scan_u32 s le = Inr (s1, points)"
    "coordinates s1 (ucast points) dims = Inr s2" and rest: "ring_loop n s2 le dims = Inr s'"
    by (auto simp: result_simps)
  then have "advances 4 s s1" "advances 0 s1 s2" by (auto dest: scan_u32_Inr coordinates_advances)
  then have "advances 4 s s2" using advances_trans by fastforce
  with Suc.IH [OF rest] show ?case using advances_weaken [OF advances_trans] by fastforce
qed

lemma note_header_advances: "note_header s header = Inr s' \<Longrightarrow> advances 0 s s'"
  by (auto simp: note_header_def advances_def same_input_def moves_def counters_grow_def srids_grow_def
      patches_added_same Let_def result_simps split: if_splits)

lemma geometry_body_advances: "geometry_body s header = Inr (s', children) \<Longrightarrow> advances 0 s s'"
  unfolding geometry_body_def Let_def
  by (auto simp: result_simps split: if_splits
      dest!: coordinates_advances scan_u32_Inr add_components_Inr ring_loop_advances
      intro: advances_weaken [OF advances_trans] advances_weaken [OF advances_trans [OF advances_trans]]
        advances_weaken)

lemma scan_header_advances:
  assumes "scan_header s = Inr (s', header)"
  shows "advances 5 s s'"
proof -
  obtain s1 le s2 w where order: "read_byte_order s = Inr (s1, le)" and word: "scan_u32 s1 le = Inr (s2, w)"
    and body: "interpret_type s2 (s_offset s1) le w = Inr (s', header)"
    using assms by (auto simp: scan_header_def result_simps)
  have s1: "s1 = s\<lparr>s_offset := s_offset s + 1\<rparr>" and s2: "s2 = s1\<lparr>s_offset := s_offset s + 5\<rparr>"
    and len: "s_offset s + 5 \<le> length (s_bytes s)"
    using read_byte_order_Inr [OF order] scan_u32_Inr [OF word] by simp_all
  have patched: "advances 5 s (push_patch (push_patch s2 c p) d q)"
    if "tp_offset p = s_offset s + 1" "tp_offset q = s_offset s + 1" "\<not> (c \<and> d)" for c d p q
    using that len
    by (auto simp: advances_def same_input_def moves_def counters_grow_def srids_grow_def patches_added_def
        push_patch_def s1 s2)
  obtain base iz im where iso: "iso_type (w AND 0x0fffffff) = (base, iz, im)" by (cases "iso_type (w AND 0x0fffffff)")
  define c where "c = (s_dimension_mode s2 = ForceUnmarkedZ \<and> \<not> (w AND 0x80000000 \<noteq> 0 \<or> iz))"
  define d where "d = (s_dimension_mode s2 = ExtendedForm \<and> (iz \<or> im))"
  define p where "p = \<lparr>tp_offset = s_offset s1, tp_little_endian = le, tp_type_word = w OR 0x80000000\<rparr>"
  define q where "q = \<lparr>tp_offset = s_offset s1, tp_little_endian = le,
      tp_type_word = (w AND 0xf0000000) OR base OR flag_if ((w AND 0x80000000 \<noteq> 0 \<or> iz) \<or> c) 0x80000000
        OR flag_if (w AND 0x40000000 \<noteq> 0 \<or> im) 0x40000000\<rparr>"
  have p: "tp_offset p = s_offset s + 1" "tp_offset q = s_offset s + 1" "\<not> (c \<and> d)"
    by (auto simp: p_def q_def s1 c_def d_def)
  have srid: "s' = push_patch (push_patch s2 c p) d q \<or>
      (\<exists>v. scan_u32 (push_patch (push_patch s2 c p) d q) le = Inr (s', v))"
    using body unfolding interpret_type_def Let_def iso prod.case
      c_def [symmetric] d_def [symmetric] p_def [symmetric] q_def [symmetric]
    by (auto simp: result_simps split: if_split_asm)
  from patched [OF p] have adv: "advances 5 s (push_patch (push_patch s2 c p) d q)" .
  from srid show ?thesis
  proof
    assume "\<exists>v. scan_u32 (push_patch (push_patch s2 c p) d q) le = Inr (s', v)"
    then have "advances 4 (push_patch (push_patch s2 c p) d q) s'" by (auto dest: scan_u32_Inr)
    with adv show ?thesis using advances_weaken [OF advances_trans] by fastforce
  qed (use adv in simp)
qed

lemma geometry_advances:
  assumes "geometry s depth = Inr (s', children, header)"
  shows "advances 5 s s' \<and> 0 < depth \<and> depth \<le> s_max_depth s"
proof -
  let ?s0 = "s\<lparr>s_observed_depth := max (s_observed_depth s) depth\<rparr>"
  from assms obtain s1 s2 s3 where d: "depth \<noteq> 0" "depth \<le> s_max_depth s"
    and s1: "add_components ?s0 1 = Inr s1" and s2: "scan_header s1 = Inr (s2, header)"
    and s3: "note_header s2 header = Inr s3" and s4: "geometry_body s3 header = Inr (s', children)"
    by (auto simp: geometry_def result_simps not_less split: if_splits)
  have "advances 0 s ?s0"
    using d by (auto simp: advances_def same_input_def moves_def counters_grow_def srids_grow_def
        patches_added_same max_def)
  from advances_trans [OF this add_components_Inr [OF s1]] have "advances 0 s s1" by simp
  from advances_trans [OF this scan_header_advances [OF s2]] have "advances 5 s s2" by simp
  from advances_trans [OF this note_header_advances [OF s3]] have "advances 5 s s3" by simp
  from advances_trans [OF this geometry_body_advances [OF s4]] have "advances 5 s s'" by simp
  with d show ?thesis by (simp add: word_gt_0)
qed

lemma geometry_progress:
  assumes "geometry s depth = Inr (s', children, header)"
  shows "length (s_bytes s') - s_offset s' < length (s_bytes s) - s_offset s"
  using advancesD(1,5,6) [OF geometry_advances [OF assms, THEN conjunct1]] by auto

section \<open>The scan\<close>

definition metadata_of :: "ewkb_header \<Rightarrow> ewkb_metadata" where
  "metadata_of header =
     \<lparr>em_base_type = h_base_type header, em_has_z = h_has_z header, em_has_m = h_has_m header,
      em_srid = h_srid header\<rparr>"

definition push_frame :: "u64 \<Rightarrow> u64 \<Rightarrow> u64 \<Rightarrow> frame list \<Rightarrow> frame list result" where
  "push_frame max_depth depth children frames =
     (if children > 0 then
        and_then (ok_or (checked_add depth 1)
          (resource_error (''overflow profondit'' @ [CHR 0xC3, CHR 0xA0] @ '' EWKB''))) (\<lambda>child_depth.
        if child_depth > max_depth then Inl depth_error
        else Inr (\<lparr>f_remaining = children, f_child_depth = child_depth\<rparr> # frames))
      else Inr frames)"

text \<open>The inner loop: drop the exhausted frames, then take one child of the innermost frame.\<close>

fun next_frame :: "frame list \<Rightarrow> (u64 \<times> frame list) option" where
  "next_frame [] = None"
| "next_frame (f # fs) =
     (if f_remaining f = 0 then next_frame fs
      else Some (f_child_depth f, f\<lparr>f_remaining := f_remaining f - 1\<rparr> # fs))"

definition finish_scan :: "scanner \<Rightarrow> ewkb_metadata option \<Rightarrow> (ewkb_inspection \<times> type_patch list) result" where
  "finish_scan s root =
     (if s_offset s \<noteq> length (s_bytes s) then Inl (mapping_error ''byte residui dopo la geometria EWKB'')
      else and_then (ok_or root (mapping_error ''geometria EWKB assente'')) (\<lambda>root.
        Inr (\<lparr>ei_stats = \<lparr>es_components = s_components s, es_max_depth = s_observed_depth s\<rparr>,
              ei_root = root, ei_has_any_z = s_has_any_z s, ei_has_any_m = s_has_any_m s,
              ei_has_any_embedded_srid = s_has_any_embedded_srid s,
              ei_embedded_srid_count = s_embedded_srid_count s\<rparr>, s_type_patches s)))"

function scan_loop :: "scanner \<Rightarrow> u64 \<Rightarrow> frame list \<Rightarrow> ewkb_metadata option
    \<Rightarrow> (ewkb_inspection \<times> type_patch list) result" where
  "scan_loop s depth frames root =
     and_then (geometry s depth) (\<lambda>(s1, children, header).
     let root1 = (case root of None \<Rightarrow> Some (metadata_of header) | Some r \<Rightarrow> Some r)
     in and_then (push_frame (s_max_depth s1) depth children frames) (\<lambda>frames1.
        case next_frame frames1 of
          None \<Rightarrow> finish_scan s1 root1
        | Some (depth1, frames2) \<Rightarrow> scan_loop s1 depth1 frames2 root1))"
  by pat_completeness auto
termination
  by (relation "measure (\<lambda>(s, _, _, _). length (s_bytes s) - s_offset s)")
    (auto dest: geometry_progress)

declare scan_loop.simps [simp del]

definition scanner_new :: "u8 list \<Rightarrow> u64 \<Rightarrow> u64 \<Rightarrow> dimension_mode \<Rightarrow> scanner" where
  "scanner_new bytes max_components max_depth mode =
     \<lparr>s_bytes = bytes, s_offset = 0, s_components = 0, s_max_components = max_components,
      s_max_depth = max_depth, s_observed_depth = 0, s_has_any_z = False, s_has_any_m = False,
      s_has_any_embedded_srid = False, s_embedded_srid_count = 0, s_dimension_mode = mode,
      s_type_patches = []\<rparr>"

definition scan_ewkb :: "u8 list \<Rightarrow> u64 \<Rightarrow> u64 \<Rightarrow> dimension_mode
    \<Rightarrow> (ewkb_inspection \<times> type_patch list) result" where
  "scan_ewkb bytes max_components max_depth mode =
     (if max_components = 0 \<or> max_depth = 0
      then Inl (resource_error ''limiti EWKB devono essere maggiori di zero'')
      else scan_loop (scanner_new bytes max_components max_depth mode) 1 [] None)"

definition inspect_ewkb_detailed :: "u8 list \<Rightarrow> u64 \<Rightarrow> u64 \<Rightarrow> ewkb_inspection result" where
  "inspect_ewkb_detailed bytes max_components max_depth =
     and_then (scan_ewkb bytes max_components max_depth DmStrict) (\<lambda>(inspection, _). Inr inspection)"

definition inspect_ewkb :: "u8 list \<Rightarrow> u64 \<Rightarrow> u64 \<Rightarrow> ewkb_stats result" where
  "inspect_ewkb bytes max_components max_depth =
     and_then (inspect_ewkb_detailed bytes max_components max_depth) (\<lambda>inspection. Inr (ei_stats inspection))"

section \<open>Rewriting type words\<close>

text \<open>
  \<open>copy_from_slice\<close> into a range outside the vector panics; a panic is \<open>None\<close>, so the two operations
  below return an optional result.
\<close>

definition copy_into :: "u8 list \<Rightarrow> nat \<Rightarrow> u8 list \<Rightarrow> u8 list option" where
  "copy_into bytes offset enc =
     (if offset + length enc \<le> length bytes
      then Some (take offset bytes @ enc @ drop (offset + length enc) bytes) else None)"

fun apply_patches :: "u8 list \<Rightarrow> type_patch list \<Rightarrow> u8 list option" where
  "apply_patches bytes [] = Some bytes"
| "apply_patches bytes (p # ps) =
     Option.bind (copy_into bytes (tp_offset p) (encode_u32 (tp_little_endian p) (tp_type_word p)))
       (\<lambda>bytes'. apply_patches bytes' ps)"

definition normalize_unmarked_xyz :: "u8 list \<Rightarrow> u64 \<Rightarrow> u64 \<Rightarrow> u8 list result option" where
  "normalize_unmarked_xyz bytes max_components max_depth =
     (case scan_ewkb bytes max_components max_depth ForceUnmarkedZ of
        Inl e \<Rightarrow> Some (Inl e)
      | Inr (_, patches) \<Rightarrow> map_option Inr (apply_patches bytes patches))"

definition stamp_root :: "u8 list \<Rightarrow> u8 list \<Rightarrow> bool \<Rightarrow> u32 \<Rightarrow> u32 \<Rightarrow> u8 list result option" where
  "stamp_root wkb extended little_endian type_word srid =
     (if length extended < 5 then None
      else
        let root_word = decode_u32 little_endian (take 4 (drop 1 extended))
        in if root_word AND 0x0fffffff \<noteq> (type_word AND 0x0fffffff) mod 1000 then None
           else Some (Inr ([hd wkb] @ encode_u32 little_endian (root_word OR 0x20000000)
                  @ encode_u32 little_endian srid @ drop 5 extended)))"

text \<open>\<open>debug_assert_eq!\<close> panics in debug builds only; the model takes the stricter reading.\<close>

definition with_root_srid :: "u8 list \<Rightarrow> u32 \<Rightarrow> u64 \<Rightarrow> u8 list result option" where
  "with_root_srid wkb srid max_depth =
     (case scan_ewkb wkb (- 1) max_depth ExtendedForm of
        Inl e \<Rightarrow> Some (Inl e)
      | Inr (inspection, patches) \<Rightarrow>
          if ei_has_any_embedded_srid inspection
          then Some (Inl (mapping_error ''SRID incorporato in un valore dichiarato wkb''))
          else if wkb = [] \<or> hd wkb \<notin> {0, 1} then Some (Inl (mapping_error ''byte order WKB non valido''))
          else if length wkb < 5 then Some (Inl (mapping_error ''type word WKB troncato''))
          else
            let little_endian = (hd wkb = 1);
                type_word = decode_u32 little_endian (take 4 (drop 1 wkb))
            in if type_word AND 0x20000000 \<noteq> 0
               then Some (Inl (mapping_error ''SRID incorporato in un valore dichiarato wkb''))
               else Option.bind (apply_patches wkb patches) (\<lambda>extended.
                      stamp_root wkb extended little_endian type_word srid))"

end
