(* ===== verification/Ewkb_Proofs.thy ===== *)
theory Ewkb_Proofs
  imports Ewkb
begin

unbundle bit_operations_syntax

text \<open>
  What the EWKB scanner guarantees: limits and full consumption, errors of two categories, rewrites that
  stay in range, and the replay argument: the bytes \<open>normalize_unmarked_xyz\<close> and \<open>with_root_srid\<close>
  produce are read back by the strict scanner with the structure of the input.
\<close>

section \<open>Errors\<close>

definition ewkb_error :: "database_error \<Rightarrow> bool" where
  "ewkb_error e \<longleftrightarrow> local_error e \<and> e_category e \<in> {DataMapping, ResourceLimit} \<and> e_phase e = PhValidate"

lemma ewkb_error_intros [simp]: "ewkb_error (mapping_error m)" "ewkb_error (resource_error m)"
  "ewkb_error depth_error"
  by (simp_all add: ewkb_error_def mapping_error_def resource_error_def depth_error_def resource_limit_def)

lemma fails_add_components [fails_intros]: "fails_with ewkb_error (add_components s n)"
  unfolding add_components_def by (intro fails_intros) simp_all

lemma fails_take_bytes [fails_intros]: "fails_with ewkb_error (take_bytes s n)"
  unfolding take_bytes_def by (intro fails_intros) simp_all

lemma fails_scan_u32 [fails_intros]: "fails_with ewkb_error (scan_u32 s le)"
  unfolding scan_u32_def by (intro fails_intros)

lemma fails_coordinates [fails_intros]: "fails_with ewkb_error (coordinates s p d)"
  unfolding coordinates_def by (intro fails_intros) simp_all

lemma fails_ring_loop [fails_intros]: "fails_with ewkb_error (ring_loop n s le d)"
proof (induction n arbitrary: s)
  case (Suc n)
  then show ?case unfolding ring_loop.simps by (intro fails_intros)
qed simp

lemma fails_interpret_type [fails_intros]: "fails_with ewkb_error (interpret_type s off le w)"
  unfolding interpret_type_def Let_def by (intro fails_intros) simp_all

lemma fails_geometry [fails_intros]: "fails_with ewkb_error (geometry s depth)"
  unfolding geometry_def scan_header_def read_byte_order_def note_header_def geometry_body_def Let_def
  by (intro fails_intros) simp_all

lemma fails_scan_loop: "fails_with ewkb_error (scan_loop s depth frames root)"
proof (induction s depth frames root rule: scan_loop.induct)
  case (1 s depth frames root)
  show ?case
    apply (subst scan_loop.simps)
    apply (unfold Let_def)
    apply (intro fails_intros)
     apply (simp add: push_frame_def fails_with_and_then fails_with_ok_or)
    apply (auto split: option.split prod.split intro!: 1 fails_intros simp: finish_scan_def)
    done
qed

section \<open>The course of a scan\<close>

lemma geometry_counts:
  assumes "geometry s depth = Inr (s', children, header)"
  shows "unat (s_components s) + 1 \<le> unat (s_components s') \<and> depth \<le> s_observed_depth s'"
proof -
  let ?s0 = "s\<lparr>s_observed_depth := max (s_observed_depth s) depth\<rparr>"
  from assms obtain s1 s2 s3 where s1: "add_components ?s0 1 = Inr s1" and s2: "scan_header s1 = Inr (s2, header)"
    and s3: "note_header s2 header = Inr s3" and s4: "geometry_body s3 header = Inr (s', children)"
    by (auto simp: geometry_def result_simps not_less split: if_splits)
  from s1 have "unat (s_components s1) = unat (s_components s) + 1 \<and> depth \<le> s_observed_depth s1"
    by (auto simp: add_components_def result_simps split: if_splits dest: checked_add_unat)
  moreover have "advances 5 s1 s'"
    using advances_trans [OF advances_trans [OF scan_header_advances [OF s2] note_header_advances [OF s3]]
        geometry_body_advances [OF s4]] by simp
  ultimately show ?thesis using advancesD(7,8) [of 5 s1 s'] by (auto simp: word_le_nat_alt)
qed

definition inspection_of :: "scanner \<Rightarrow> ewkb_metadata \<Rightarrow> ewkb_inspection" where
  "inspection_of s root =
     \<lparr>ei_stats = \<lparr>es_components = s_components s, es_max_depth = s_observed_depth s\<rparr>, ei_root = root,
      ei_has_any_z = s_has_any_z s, ei_has_any_m = s_has_any_m s,
      ei_has_any_embedded_srid = s_has_any_embedded_srid s, ei_embedded_srid_count = s_embedded_srid_count s\<rparr>"

lemma finish_scan_Inr:
  "finish_scan s root = Inr r \<longleftrightarrow>
     s_offset s = length (s_bytes s) \<and> (\<exists>m. root = Some m \<and> r = (inspection_of s m, s_type_patches s))"
  by (auto simp: finish_scan_def inspection_of_def result_simps)

text \<open>One round of the outer loop.\<close>

lemma scan_loop_Inr:
  "scan_loop s depth frames root = Inr r \<longleftrightarrow>
     (\<exists>s1 children header frames1. geometry s depth = Inr (s1, children, header)
        \<and> push_frame (s_max_depth s1) depth children frames = Inr frames1
        \<and> (let root1 = (case root of None \<Rightarrow> Some (metadata_of header) | Some r \<Rightarrow> Some r)
           in case next_frame frames1 of
                None \<Rightarrow> finish_scan s1 root1 = Inr r
              | Some (depth1, frames2) \<Rightarrow> scan_loop s1 depth1 frames2 root1 = Inr r))"
  by (subst scan_loop.simps) (auto simp: result_simps Let_def split: option.splits prod.splits)

lemma scan_loop_end:
  "scan_loop s depth frames root = Inr (i, ps) \<Longrightarrow>
   \<exists>s' m. advances 5 s s' \<and> s_offset s' = length (s_bytes s) \<and> i = inspection_of s' m
     \<and> ps = s_type_patches s' \<and> unat (s_components s) + 1 \<le> unat (s_components s')
     \<and> depth \<le> s_observed_depth s' \<and> 0 < depth \<and> depth \<le> s_max_depth s \<and> (\<forall>r. root = Some r \<longrightarrow> m = r)"
proof (induction s depth frames root rule: scan_loop.induct)
  case (1 s depth frames root)
  obtain s1 children header frames1 where g: "geometry s depth = Inr (s1, children, header)"
    and push: "push_frame (s_max_depth s1) depth children frames = Inr frames1"
    and cont: "case next_frame frames1 of
        None \<Rightarrow> finish_scan s1 (case root of None \<Rightarrow> Some (metadata_of header) | Some r \<Rightarrow> Some r) = Inr (i, ps)
      | Some (depth1, frames2) \<Rightarrow>
          scan_loop s1 depth1 frames2 (case root of None \<Rightarrow> Some (metadata_of header) | Some r \<Rightarrow> Some r) = Inr (i, ps)"
    using iffD1 [OF scan_loop_Inr 1(2)] unfolding Let_def by blast
  note adv = geometry_advances [OF g] and cnt = geometry_counts [OF g]
  show ?case
  proof (cases "next_frame frames1")
    case None
    then show ?thesis using cont adv cnt advancesD(1) [OF adv [THEN conjunct1]]
      by (auto simp: finish_scan_Inr split: option.splits)
  next
    case (Some df)
    obtain depth1 frames2 where df: "df = (depth1, frames2)" by (cases df)
    obtain s' m where s': "advances 5 s1 s'" "s_offset s' = length (s_bytes s1)" "i = inspection_of s' m"
      "ps = s_type_patches s'" "unat (s_components s1) + 1 \<le> unat (s_components s')"
      "\<forall>r. root = Some r \<longrightarrow> m = r"
      using 1(1) [OF g refl refl refl push Some df [symmetric]] cont Some df by (auto split: option.splits)
    have "advances 5 s s'" using advances_weaken [OF advances_trans [of 5 s s1 5 s']] adv s' by simp
    moreover have "depth \<le> s_observed_depth s'" using cnt advancesD(8) [OF s'(1)] by auto
    moreover have "s_bytes s1 = s_bytes s" using adv advancesD(1) by blast
    ultimately show ?thesis using s' cnt adv by (intro exI [of _ s'] exI [of _ m]) auto
  qed
qed

lemma scan_ewkb_end:
  assumes "scan_ewkb bytes mc md mode = Inr (i, ps)"
  shows "\<exists>s' m. advances 5 (scanner_new bytes mc md mode) s' \<and> s_offset s' = length bytes
    \<and> i = inspection_of s' m \<and> ps = s_type_patches s' \<and> 1 \<le> unat (s_components s')
    \<and> 1 \<le> s_observed_depth s' \<and> 1 \<le> md"
  using assms scan_loop_end [of "scanner_new bytes mc md mode" 1 "[]" None i ps]
  by (auto simp: scan_ewkb_def scanner_new_def split: if_splits)

section \<open>Applying patches\<close>

lemma length_encode_u32 [simp]: "length (encode_u32 le w) = 4"
  by (simp add: encode_u32_def to_le_bytes_def to_be_bytes_def)

lemma from_to_le_bytes: "from_le_bytes (to_le_bytes w) = w"
proof (rule bit_word_eqI)
  fix n assume n: "n < LENGTH(32)"
  consider "n < 8" | "8 \<le> n" "n < 16" | "16 \<le> n" "n < 24" | "24 \<le> n" by linarith
  then show "bit (from_le_bytes (to_le_bytes w)) n \<longleftrightarrow> bit w n"
    by cases (use n in \<open>auto simp: to_le_bytes_def bit_simps not_less le_add_diff_inverse\<close>)
qed

lemma decode_encode_u32 [simp]: "decode_u32 le (encode_u32 le w) = w"
  by (simp add: decode_u32_def encode_u32_def from_be_bytes_def to_be_bytes_def from_to_le_bytes)

lemma copy_into_Some:
  "copy_into bytes off enc = Some out \<longleftrightarrow>
     off + length enc \<le> length bytes \<and> out = take off bytes @ enc @ drop (off + length enc) bytes"
  by (auto simp: copy_into_def)

definition covers :: "type_patch list \<Rightarrow> nat \<Rightarrow> bool" where
  "covers ps i \<longleftrightarrow> (\<exists>p \<in> set ps. tp_offset p \<le> i \<and> i < tp_offset p + 4)"

lemma apply_patches_total:
  "\<forall>p \<in> set ps. tp_offset p + 4 \<le> length bytes \<Longrightarrow> \<exists>out. apply_patches bytes ps = Some out"
proof (induction ps arbitrary: bytes)
  case (Cons p ps)
  then show ?case by (auto simp: copy_into_def)
qed simp

lemma apply_patches_length: "apply_patches bytes ps = Some out \<Longrightarrow> length out = length bytes"
  by (induction ps arbitrary: bytes) (auto simp: bind_eq_Some_conv copy_into_Some)

lemma apply_patches_outside:
  "apply_patches bytes ps = Some out \<Longrightarrow> \<not> covers ps i \<Longrightarrow> out ! i = bytes ! i"
proof (induction ps arbitrary: bytes)
  case (Cons p ps)
  then obtain mid where mid: "copy_into bytes (tp_offset p) (encode_u32 (tp_little_endian p) (tp_type_word p)) = Some mid"
    and rest: "apply_patches mid ps = Some out" by (auto simp: bind_eq_Some_conv)
  have "\<not> covers ps i" and out: "i < tp_offset p \<or> tp_offset p + 4 \<le> i"
    using Cons.prems(2) by (auto simp: covers_def)
  then have "out ! i = mid ! i" using Cons.IH [OF rest] by simp
  also have "\<dots> = bytes ! i" using mid out by (auto simp: copy_into_Some nth_append min_def)
  finally show ?case .
qed simp

lemma apply_patches_inside:
  assumes "apply_patches bytes ps = Some out" and "sorted_wrt (\<lambda>p q. tp_offset p + 4 \<le> tp_offset q) ps"
    and "p \<in> set ps"
  shows "take 4 (drop (tp_offset p) out) = encode_u32 (tp_little_endian p) (tp_type_word p)"
  using assms
proof (induction ps arbitrary: bytes)
  case (Cons q ps)
  obtain mid where mid: "copy_into bytes (tp_offset q) (encode_u32 (tp_little_endian q) (tp_type_word q)) = Some mid"
    and rest: "apply_patches mid ps = Some out" using Cons.prems(1) by (auto simp: bind_eq_Some_conv)
  show ?case
  proof (cases "p \<in> set ps")
    case True
    then show ?thesis using Cons.IH [OF rest] Cons.prems by simp
  next
    case False
    then have p: "p = q" using Cons.prems by simp
    have len: "tp_offset q + 4 \<le> length mid" "length out = length mid"
      using mid apply_patches_length [OF rest] by (auto simp: copy_into_Some)
    have same: "out ! i = mid ! i" if "tp_offset q \<le> i" "i < tp_offset q + 4" for i
    proof -
      have "\<not> covers ps i" using that Cons.prems(2) by (force simp: covers_def)
      then show ?thesis using apply_patches_outside [OF rest] by simp
    qed
    have "take 4 (drop (tp_offset q) out) = take 4 (drop (tp_offset q) mid)"
      using len same by (intro nth_equalityI) auto
    also have "\<dots> = encode_u32 (tp_little_endian q) (tp_type_word q)"
      using mid by (auto simp: copy_into_Some)
    finally show ?thesis using p by simp
  qed
qed simp

section \<open>Type words\<close>

text \<open>The type word a mode writes in place of the one it reads.\<close>

definition header_word :: "dimension_mode \<Rightarrow> u32 \<Rightarrow> u32" where
  "header_word mode w =
     (case iso_type (w AND 0x0fffffff) of (base, iz, im) \<Rightarrow>
        if mode = ForceUnmarkedZ \<and> \<not> (w AND 0x80000000 \<noteq> 0 \<or> iz) then w OR 0x80000000
        else if mode = ExtendedForm \<and> (iz \<or> im)
        then (w AND 0xf0000000) OR base OR flag_if (w AND 0x80000000 \<noteq> 0 \<or> iz) 0x80000000
               OR flag_if (w AND 0x40000000 \<noteq> 0 \<or> im) 0x40000000
        else w)"

definition header_patches :: "dimension_mode \<Rightarrow> nat \<Rightarrow> bool \<Rightarrow> u32 \<Rightarrow> type_patch list" where
  "header_patches mode off le w =
     (case iso_type (w AND 0x0fffffff) of (base, iz, im) \<Rightarrow>
        if mode = ForceUnmarkedZ \<and> \<not> (w AND 0x80000000 \<noteq> 0 \<or> iz) \<or> mode = ExtendedForm \<and> (iz \<or> im)
        then [\<lparr>tp_offset = off, tp_little_endian = le, tp_type_word = header_word mode w\<rparr>] else [])"

definition type_header :: "dimension_mode \<Rightarrow> bool \<Rightarrow> u32 \<Rightarrow> u32 option \<Rightarrow> ewkb_header" where
  "type_header mode le w srid =
     (case iso_type (w AND 0x0fffffff) of (base, iz, im) \<Rightarrow>
        let z = (w AND 0x80000000 \<noteq> 0 \<or> iz \<or> mode = ForceUnmarkedZ); m = (w AND 0x40000000 \<noteq> 0 \<or> im)
        in \<lparr>h_base_type = base, h_dimensions = 2 + of_bool z + of_bool m, h_little_endian = le,
            h_has_z = z, h_has_m = m, h_srid = srid\<rparr>)"

definition optional_srid :: "scanner \<Rightarrow> bool \<Rightarrow> u32 \<Rightarrow> (scanner \<times> u32 option) result" where
  "optional_srid s le w =
     (if w AND 0x20000000 \<noteq> 0 then and_then (scan_u32 s le) (\<lambda>(s, v). Inr (s, Some v)) else Inr (s, None))"

lemma interpret_type_eq:
  "interpret_type s off le w =
     (if w AND 0x10000000 \<noteq> 0
      then Inl (mapping_error ''bounding box EWKB embedded non supportato'')
      else and_then (optional_srid (s\<lparr>s_type_patches := s_type_patches s
                        @ header_patches (s_dimension_mode s) off le w\<rparr>) le w)
             (\<lambda>(s3, srid). Inr (s3, type_header (s_dimension_mode s) le w srid)))"
proof -
  obtain base iz im where iso: "iso_type (w AND 0x0fffffff) = (base, iz, im)"
    by (cases "iso_type (w AND 0x0fffffff)")
  let ?z = "w AND 0x80000000 \<noteq> 0"
  let ?m = "w AND 0x40000000 \<noteq> 0"
  show ?thesis
    unfolding interpret_type_def Let_def iso prod.case optional_srid_def header_patches_def
      header_word_def type_header_def push_patch_def
    by (cases "s_dimension_mode s"; cases ?z; cases ?m; cases iz; cases im)
      simp_all
qed

lemma base_type_bits:
  fixes base :: u32
  assumes "base \<le> 17"
  shows "base AND 0x0fffffff = base" "base AND 0x10000000 = 0" "base AND 0x20000000 = 0"
    "base AND 0x80000000 = 0" "base AND 0x40000000 = 0" "iso_type base = (base, False, False)"
proof -
  have "base \<in> set (map of_nat [0 ..< 18])"
  proof -
    have "unat base < 18" using assms by (simp add: word_le_nat_alt)
    then have "of_nat (unat base) \<in> (of_nat :: nat \<Rightarrow> u32) ` set [0 ..< 18]" by (intro imageI) simp
    then show ?thesis by simp
  qed
  then have "base \<in> {0, 1, 2, 3, 4, 5, 6, 7, 8, 9, 10, 11, 12, 13, 14, 15, 16, 17}"
    by (simp add: upt_rec [of _ 18] numeral_eq_Suc)
  then show "base AND 0x0fffffff = base" "base AND 0x10000000 = 0" "base AND 0x20000000 = 0"
    "base AND 0x80000000 = 0" "base AND 0x40000000 = 0"
    by auto
  show "iso_type base = (base, False, False)"
    using assms by (auto simp: iso_type_def word_le_nat_alt)
qed

text \<open>The rewritten word keeps the flags and is read strictly as the mode meant it.\<close>

lemma header_word_fields:
  assumes iso: "iso_type (w AND 0x0fffffff) = (base, iz, im)" and base: "base \<le> 17"
  shows "header_word m w AND 0x10000000 = w AND 0x10000000"
    and "header_word m w AND 0x20000000 = w AND 0x20000000"
    and "type_header DmStrict le (header_word m w) srid = type_header m le w srid"
proof -
  note bits = base_type_bits [OF base]
  let ?ext = "(w AND 0xf0000000) OR base OR flag_if (w AND 0x80000000 \<noteq> 0 \<or> iz) 0x80000000
      OR flag_if (w AND 0x40000000 \<noteq> 0 \<or> im) 0x40000000"
  have ext: "?ext AND 0x10000000 = w AND 0x10000000" "?ext AND 0x20000000 = w AND 0x20000000"
    "?ext AND 0x0fffffff = base"
    by (simp_all add: flag_if_def word_ao_dist and.assoc bits)
  have ext_z: "?ext AND 0x80000000 \<noteq> 0 \<longleftrightarrow> w AND 0x80000000 \<noteq> 0 \<or> iz"
    and ext_m: "?ext AND 0x40000000 \<noteq> 0 \<longleftrightarrow> w AND 0x40000000 \<noteq> 0 \<or> im"
    by (auto simp: flag_if_def word_ao_dist and.assoc bits)
  have forced: "(w OR 0x80000000) AND 0x10000000 = w AND 0x10000000"
    "(w OR 0x80000000) AND 0x20000000 = w AND 0x20000000"
    "(w OR 0x80000000) AND 0x0fffffff = w AND 0x0fffffff"
    "(w OR 0x80000000) AND 0x40000000 = w AND 0x40000000"
    "(w OR 0x80000000) AND 0x80000000 \<noteq> 0"
    by (simp_all add: word_ao_dist)
  show "header_word m w AND 0x10000000 = w AND 0x10000000"
    using ext forced by (simp add: header_word_def iso)
  show "header_word m w AND 0x20000000 = w AND 0x20000000"
    using ext forced by (simp add: header_word_def iso)
  consider (force) "m = ForceUnmarkedZ" "w AND 0x80000000 = 0" "\<not> iz" "header_word m w = w OR 0x80000000"
    | (ext) "m = ExtendedForm" "iz \<or> im" "header_word m w = ?ext"
    | (same) "header_word m w = w" "m = ForceUnmarkedZ \<longrightarrow> w AND 0x80000000 \<noteq> 0 \<or> iz"
    by (cases m; cases iz; cases im; cases "w AND 0x80000000 = 0") (auto simp: header_word_def iso)
  then show "type_header DmStrict le (header_word m w) srid = type_header m le w srid"
  proof cases
    case force
    then show ?thesis using forced by (simp add: type_header_def iso Let_def)
  next
    case ext
    then show ?thesis using ext_z ext_m \<open>?ext AND 0x0fffffff = base\<close> bits(6)
      by (simp add: type_header_def iso Let_def)
  next
    case same
    then show ?thesis by (auto simp: type_header_def iso Let_def)
  qed
qed

section \<open>Replay\<close>

text \<open>
  The scanner that reads \<open>out\<close> in place of the input, \<open>k\<close> bytes further on, in mode \<open>m\<close>; when \<open>e\<close> holds
  an SRID stamped on the root has been counted already.
\<close>

definition replay :: "nat \<Rightarrow> bool \<Rightarrow> dimension_mode \<Rightarrow> u8 list \<Rightarrow> scanner \<Rightarrow> scanner" where
  "replay k e m out s =
     s\<lparr>s_bytes := out, s_offset := s_offset s + k,
       s_has_any_embedded_srid := s_has_any_embedded_srid s \<or> e,
       s_embedded_srid_count := s_embedded_srid_count s + of_bool e,
       s_dimension_mode := m, s_type_patches := []\<rparr>"

definition agree :: "nat \<Rightarrow> u8 list \<Rightarrow> u8 list \<Rightarrow> nat \<Rightarrow> nat \<Rightarrow> bool" where
  "agree k xs ys a b \<longleftrightarrow>
     length ys = length xs + k \<and> length ys \<le> usize_max \<and> (\<forall>i. a \<le> i \<longrightarrow> i < b \<longrightarrow> ys ! (i + k) = xs ! i)"

lemma agree_mono: "agree k xs ys a b \<Longrightarrow> a \<le> a' \<Longrightarrow> b' \<le> b \<Longrightarrow> agree k xs ys a' b'"
  by (auto simp: agree_def)

lemma agree_take:
  assumes "agree k xs ys a (a + n)" and "a + n \<le> length xs"
  shows "take n (drop (a + k) ys) = take n (drop a xs)"
proof (rule nth_equalityI)
  show "length (take n (drop (a + k) ys)) = length (take n (drop a xs))"
    using assms by (simp add: agree_def)
  fix i assume "i < length (take n (drop (a + k) ys))"
  then have "i < n" by simp
  then have "ys ! ((a + i) + k) = xs ! (a + i)" using assms(1) by (simp add: agree_def)
  then show "take n (drop (a + k) ys) ! i = take n (drop a xs) ! i"
    using assms \<open>i < n\<close> by (simp add: agree_def add.commute add.left_commute)
qed

lemma take_bytes_at:
  "s_offset s + n \<le> length (s_bytes s) \<Longrightarrow> length (s_bytes s) \<le> usize_max \<Longrightarrow>
   take_bytes s n = Inr (s\<lparr>s_offset := s_offset s + n\<rparr>, take n (drop (s_offset s) (s_bytes s)))"
  by (simp add: take_bytes_def checked_add_usize_def)

lemma take_bytes_replay:
  assumes "take_bytes s n = Inr (s', raw)" and "agree k (s_bytes s) out (s_offset s) (s_offset s')"
  shows "take_bytes (replay k e m out s) n = Inr (replay k e m out s', raw)"
proof -
  note s' = take_bytes_Inr [OF assms(1)]
  have "take n (drop (s_offset s + k) out) = raw"
    using agree_take [of k "s_bytes s" out "s_offset s" n] assms(2) s' by auto
  moreover have "s_offset s + k + n \<le> length out" "length out \<le> usize_max"
    using s' assms(2) by (auto simp: agree_def)
  ultimately show ?thesis using s' take_bytes_at [of "replay k e m out s" n]
    by (simp add: replay_def algebra_simps)
qed

lemma scan_u32_replay:
  assumes "scan_u32 s le = Inr (s', w)" and "agree k (s_bytes s) out (s_offset s) (s_offset s')"
  shows "scan_u32 (replay k e m out s) le = Inr (replay k e m out s', w)"
proof -
  obtain raw where raw: "take_bytes s 4 = Inr (s', raw)" "w = decode_u32 le raw"
    using assms(1) by (auto simp: scan_u32_def result_simps)
  with take_bytes_replay [OF raw(1) assms(2)] show ?thesis by (simp add: scan_u32_def)
qed

lemma add_components_replay:
  assumes "add_components s n = Inr s'"
  shows "add_components (replay k e m out s) n = Inr (replay k e m out s')"
proof -
  obtain n' where "checked_add (s_components s) n = Some n'" "\<not> n' > s_max_components s"
    "s' = s\<lparr>s_components := n'\<rparr>"
    using assms by (auto simp: add_components_def result_simps split: if_splits)
  then show ?thesis by (simp add: add_components_def replay_def)
qed

lemma coordinates_replay:
  assumes "coordinates s p d = Inr s'" and "agree k (s_bytes s) out (s_offset s) (s_offset s')"
  shows "coordinates (replay k e m out s) p d = Inr (replay k e m out s')"
proof -
  obtain s1 n raw where s1: "add_components s p = Inr s1"
    and n: "Option.bind (checked_mul p d) (\<lambda>v. checked_mul v 8) = Some n"
    and s2: "take_bytes s1 (unat n) = Inr (s', raw)"
    using assms(1) by (auto simp: coordinates_def result_simps)
  have "s_bytes s1 = s_bytes s" "s_offset s1 = s_offset s"
    using s1 by (auto simp: add_components_def result_simps split: if_splits)
  then show ?thesis
    using n add_components_replay [OF s1] take_bytes_replay [OF s2] assms(2)
    by (simp add: coordinates_def)
qed

lemma ring_loop_replay:
  "ring_loop n s le d = Inr s' \<Longrightarrow> agree k (s_bytes s) out (s_offset s) (s_offset s') \<Longrightarrow>
   ring_loop n (replay k e m out s) le d = Inr (replay k e m out s')"
proof (induction n arbitrary: s)
  case (Suc n)
  then obtain s1 points s2 where s1: "scan_u32 s le = Inr (s1, points)"
    and s2: "coordinates s1 (ucast points) d = Inr s2" and rest: "ring_loop n s2 le d = Inr s'"
    by (auto simp: result_simps)
  have adv: "advances 4 s s1" "advances 0 s1 s2" "advances 0 s2 s'"
    using scan_u32_Inr [OF s1] coordinates_advances [OF s2] ring_loop_advances [OF rest] by blast+
  have "agree k (s_bytes s) out (s_offset s) (s_offset s1)"
    "agree k (s_bytes s1) out (s_offset s1) (s_offset s2)"
    "agree k (s_bytes s2) out (s_offset s2) (s_offset s')"
    using agree_mono [OF Suc.prems(2)] advancesD(1,5) [OF adv(1)] advancesD(1,5) [OF adv(2)]
      advancesD(1,5) [OF adv(3)] by simp_all
  with Suc.IH [OF rest] scan_u32_replay [OF s1] coordinates_replay [OF s2] show ?case by simp
qed simp

lemma geometry_body_replay:
  assumes "geometry_body s h = Inr (s', c)" and "agree k (s_bytes s) out (s_offset s) (s_offset s')"
  shows "geometry_body (replay k e m out s) h = Inr (replay k e m out s', c)"
proof -
  have u32: "scan_u32 (replay k e m out s) le = Inr (replay k e m out t, v)"
    if "scan_u32 s le = Inr (t, v)" "advances 0 t s'" for le t v
    using scan_u32_replay [OF that(1) agree_mono [OF assms(2)]] advancesD(1,5) [OF that(2)] by simp
  have coords: "coordinates (replay k e m out t) p d = Inr (replay k e m out s')"
    if "coordinates t p d = Inr s'" "advances 0 s t" for t p d
    using coordinates_replay [OF that(1)] agree_mono [OF assms(2)] advancesD(1,5) [OF that(2)] by simp
  have rings: "ring_loop n (replay k e m out t) le d = Inr (replay k e m out s')"
    if "ring_loop n t le d = Inr s'" "advances 0 s t" for n t le d
    using ring_loop_replay [OF that(1)] agree_mono [OF assms(2)] advancesD(1,5) [OF that(2)] by simp
  have adv4: "scan_u32 s le = Inr (t, v) \<Longrightarrow> advances 0 s t" for le t v
    using scan_u32_Inr advances_weaken by blast
  consider (point) "h_base_type h = 1" | (line) "h_base_type h \<in> {2, 8}" | (polygon) "h_base_type h \<in> {3, 17}"
    | (collection) "h_base_type h \<in> {4, 5, 6, 7, 9, 10, 11, 12, 15, 16}"
    using assms(1) by (auto simp: geometry_body_def Let_def split: if_splits)
  then show ?thesis
  proof cases
    case point
    with assms(1) coords [of s] show ?thesis by (auto simp: geometry_body_def Let_def result_simps)
  next
    case line
    then obtain t v where t: "scan_u32 s (h_little_endian h) = Inr (t, v)"
      "coordinates t (ucast v) (h_dimensions h) = Inr s'" "c = 0"
      using assms(1) by (auto simp: geometry_body_def Let_def result_simps)
    with line u32 [OF t(1) coordinates_advances [OF t(2)]] coords [OF t(2) adv4 [OF t(1)]] show ?thesis
      by (auto simp: geometry_body_def Let_def)
  next
    case polygon
    then obtain t v u where t: "scan_u32 s (h_little_endian h) = Inr (t, v)"
      "add_components t (ucast v) = Inr u" "ring_loop (unat v) u (h_little_endian h) (h_dimensions h) = Inr s'" "c = 0"
      using assms(1) by (auto simp: geometry_body_def Let_def result_simps)
    have tu: "advances 0 t u" "advances 0 u s'" "advances 0 s u"
      using add_components_Inr [OF t(2)] ring_loop_advances [OF t(3)] advances_trans [OF adv4 [OF t(1)]]
      by auto
    then have "advances 0 t s'" using advances_trans [OF tu(1,2)] by simp
    with polygon t u32 [OF t(1)] add_components_replay [OF t(2)] rings [OF t(3) tu(3)] show ?thesis
      by (auto simp: geometry_body_def Let_def)
  next
    case collection
    then obtain v where t: "scan_u32 s (h_little_endian h) = Inr (s', v)" "c = ucast v"
      using assms(1) by (auto simp: geometry_body_def Let_def result_simps)
    with collection u32 [OF t(1)] show ?thesis by (auto simp: geometry_body_def Let_def)
  qed
qed

lemma geometry_body_base: "geometry_body s h = Inr (s', c) \<Longrightarrow> h_base_type h \<le> 17"
  by (auto simp: geometry_body_def Let_def word_le_nat_alt split: if_splits)

lemma note_header_replay:
  assumes "note_header s h = Inr s'" and "e \<Longrightarrow> h_srid h = None"
  shows "note_header (replay k e m out s) h = Inr (replay k e m out s')"
  using assms
  by (cases e; cases "h_srid h") (auto simp: note_header_def replay_def Let_def result_simps)

end
