(* ===== verification/Ewkb_Replay.thy ===== *)
theory Ewkb_Replay
  imports Ewkb_Proofs
begin

unbundle bit_operations_syntax

text \<open>
  Rescanning rewritten bytes: the header, the geometry and the loop of the EWKB scanner read the patched
  bytes as the rewriting mode read the original ones.  The properties of the EWKB component are at the
  end.
\<close>

section \<open>Headers\<close>

lemma scan_header_Inr:
  assumes "scan_header s = Inr (s', h)"
  obtains le w srid where "s_offset s + 5 \<le> length (s_bytes s)" "s_bytes s ! s_offset s = of_bool le"
    "w = decode_u32 le (take 4 (drop (s_offset s + 1) (s_bytes s)))" "w AND 0x10000000 = 0"
    "optional_srid (s\<lparr>s_offset := s_offset s + 5, s_type_patches := s_type_patches s
       @ header_patches (s_dimension_mode s) (s_offset s + 1) le w\<rparr>) le w = Inr (s', srid)"
    "h = type_header (s_dimension_mode s) le w srid"
proof -
  obtain s1 le s2 w where order: "read_byte_order s = Inr (s1, le)" and word: "scan_u32 s1 le = Inr (s2, w)"
    and body: "interpret_type s2 (s_offset s1) le w = Inr (s', h)"
    using assms by (auto simp: scan_header_def result_simps)
  have s1: "s1 = s\<lparr>s_offset := s_offset s + 1\<rparr>" "s_bytes s ! s_offset s = of_bool le"
    using read_byte_order_Inr [OF order] by blast+
  have s2: "s2 = s1\<lparr>s_offset := s_offset s1 + 4\<rparr>" "w = decode_u32 le (take 4 (drop (s_offset s1) (s_bytes s1)))"
    "s_offset s1 + 4 \<le> length (s_bytes s1)"
    using scan_u32_Inr [OF word] by blast+
  obtain srid where "w AND 0x10000000 = 0"
    "optional_srid (s2\<lparr>s_type_patches := s_type_patches s2
       @ header_patches (s_dimension_mode s2) (s_offset s1) le w\<rparr>) le w = Inr (s', srid)"
    "h = type_header (s_dimension_mode s2) le w srid"
    using body unfolding interpret_type_eq by (auto simp: result_simps split: if_splits)
  with that [of le w srid] s1 s2 show thesis by (simp add: algebra_simps)
qed

lemma header_patches_cases:
  "header_patches m off le w = [] \<and> header_word m w = w
   \<or> header_patches m off le w = [\<lparr>tp_offset = off, tp_little_endian = le, tp_type_word = header_word m w\<rparr>]"
  by (auto simp: header_patches_def header_word_def split: prod.splits)

lemma header_patches_none:
  assumes "m = DmStrict \<or> m = ForceUnmarkedZ \<and> m' = ForceUnmarkedZ"
    and "iso_type (w AND 0x0fffffff) = (base, iz, im)" "base \<le> 17"
  shows "header_patches m off le (header_word m' w) = []"
    and "type_header m le (header_word m' w) srid = type_header m' le w srid"
proof -
  note strict = header_word_fields(3) [OF assms(2,3), of le m' srid]
  have forced: "header_patches ForceUnmarkedZ off le v = []"
    "type_header ForceUnmarkedZ le v srid = type_header DmStrict le v srid"
    if "h_has_z (type_header DmStrict le v srid)" for v
    using that by (auto simp: header_patches_def type_header_def Let_def split: prod.splits)
  have z: "h_has_z (type_header ForceUnmarkedZ le w srid)"
    by (simp add: type_header_def Let_def split: prod.splits)
  show "header_patches m off le (header_word m' w) = []"
    using assms(1) forced(1) [of "header_word m' w"] strict z
    by (auto simp: header_patches_def split: prod.splits)
  show "type_header m le (header_word m' w) srid = type_header m' le w srid"
    using assms(1) forced(2) [of "header_word m' w"] strict z by auto
qed

lemma type_header_base: "h_base_type (type_header m le w srid) = fst (iso_type (w AND 0x0fffffff))"
  by (simp add: type_header_def Let_def split: prod.splits)

lemma scan_header_at:
  assumes "s_offset s + 5 \<le> length (s_bytes s)" "length (s_bytes s) \<le> usize_max"
    and "s_bytes s ! s_offset s = of_bool le"
  shows "scan_header s = interpret_type (s\<lparr>s_offset := s_offset s + 5\<rparr>) (s_offset s + 1) le
    (decode_u32 le (take 4 (drop (s_offset s + 1) (s_bytes s))))"
proof -
  have "read_byte_order s = Inr (s\<lparr>s_offset := s_offset s + 1\<rparr>, le)"
    using assms by (cases le) (simp_all add: read_byte_order_def take_bytes_at)
  then show ?thesis
    using assms by (simp add: scan_header_def scan_u32_def take_bytes_at algebra_simps)
qed

lemma optional_srid_Inr:
  assumes "optional_srid s le w = Inr (s', srid)"
  shows "s_bytes s' = s_bytes s \<and> s_type_patches s' = s_type_patches s \<and> s_offset s \<le> s_offset s'
    \<and> s_dimension_mode s' = s_dimension_mode s"
proof (cases "w AND 0x20000000 \<noteq> 0")
  case True
  then obtain v where "scan_u32 s le = Inr (s', v)"
    using assms by (auto simp: optional_srid_def result_simps)
  from scan_u32_Inr [OF this] show ?thesis by simp
qed (use assms in \<open>simp add: optional_srid_def\<close>)

lemma optional_srid_replay:
  assumes "optional_srid s le w = Inr (s', srid)" and "agree k (s_bytes s) out (s_offset s) (s_offset s')"
    and "w' AND 0x20000000 = w AND 0x20000000"
  shows "optional_srid (replay k e m out s) le w' = Inr (replay k e m out s', srid)"
  using assms scan_u32_replay [of s le s' _ k out e m]
  by (auto simp: optional_srid_def result_simps split: if_splits)

lemma scan_header_replay:
  assumes h: "scan_header s = Inr (s', h)" and base: "h_base_type h \<le> 17"
    and mode: "m = DmStrict \<or> m = ForceUnmarkedZ \<and> s_dimension_mode s = ForceUnmarkedZ"
    and agree: "agree k (s_bytes s) out (s_offset s + 5) (s_offset s')"
    and first: "out ! (s_offset s + k) = s_bytes s ! s_offset s"
    and word: "\<And>le. s_bytes s ! s_offset s = of_bool le \<Longrightarrow>
      decode_u32 le (take 4 (drop (s_offset s + k + 1) out)) =
      header_word (s_dimension_mode s) (decode_u32 le (take 4 (drop (s_offset s + 1) (s_bytes s))))"
  shows "scan_header (replay k e m out s) = Inr (replay k e m out s', h)"
proof -
  obtain le w srid where len: "s_offset s + 5 \<le> length (s_bytes s)" and le: "s_bytes s ! s_offset s = of_bool le"
    and w: "w = decode_u32 le (take 4 (drop (s_offset s + 1) (s_bytes s)))" "w AND 0x10000000 = 0"
    and srid: "optional_srid (s\<lparr>s_offset := s_offset s + 5, s_type_patches := s_type_patches s
       @ header_patches (s_dimension_mode s) (s_offset s + 1) le w\<rparr>) le w = Inr (s', srid)"
    and hd: "h = type_header (s_dimension_mode s) le w srid"
    using scan_header_Inr [OF h] by metis
  define w' where "w' = header_word (s_dimension_mode s) w"
  obtain b iz im where iso: "iso_type (w AND 0x0fffffff) = (b, iz, im)" by (cases "iso_type (w AND 0x0fffffff)")
  have b: "b \<le> 17" using base by (simp add: hd type_header_base iso)
  note fields = header_word_fields [OF iso b]
  have moved: "(replay k e m out s)\<lparr>s_offset := s_offset s + k + 5\<rparr> =
      replay k e m out (s\<lparr>s_offset := s_offset s + 5\<rparr>)"
    by (cases s) (simp add: replay_def)
  have at: "s_offset (replay k e m out s) = s_offset s + k" "s_bytes (replay k e m out s) = out"
    by (simp_all add: replay_def)
  have "scan_header (replay k e m out s) =
      interpret_type (replay k e m out (s\<lparr>s_offset := s_offset s + 5\<rparr>)) (s_offset s + k + 1) le w'"
    using scan_header_at [of "replay k e m out s" le] len le agree first word [OF le]
    unfolding at moved by (simp add: agree_def w'_def w(1))
  also have "\<dots> = and_then (optional_srid (replay k e m out (s\<lparr>s_offset := s_offset s + 5\<rparr>)) le w')
      (\<lambda>(s3, srid). Inr (s3, type_header m le w' srid))"
    unfolding interpret_type_eq using w(2) fields(1) header_patches_none(1) [OF mode iso b]
    by (simp add: w'_def replay_def)
  also have "replay k e m out (s\<lparr>s_offset := s_offset s + 5\<rparr>) =
      replay k e m out (s\<lparr>s_offset := s_offset s + 5, s_type_patches := s_type_patches s
       @ header_patches (s_dimension_mode s) (s_offset s + 1) le w\<rparr>)"
    by (simp add: replay_def)
  finally show ?thesis
    using optional_srid_replay [OF srid, of k out w' e m] agree fields(2) header_patches_none(2) [OF mode iso b] hd
    by (simp add: w'_def)
qed

section \<open>Geometries\<close>

lemma add_components_keeps:
  "add_components s n = Inr s' \<Longrightarrow> s_type_patches s' = s_type_patches s \<and> s_offset s' = s_offset s
     \<and> s_bytes s' = s_bytes s \<and> s_dimension_mode s' = s_dimension_mode s"
  by (auto simp: add_components_def result_simps split: if_splits)

lemma coordinates_keeps: "coordinates s p d = Inr s' \<Longrightarrow> s_type_patches s' = s_type_patches s"
  by (auto simp: coordinates_def result_simps dest!: add_components_keeps take_bytes_Inr)

lemma scan_u32_keeps: "scan_u32 s le = Inr (s', w) \<Longrightarrow> s_type_patches s' = s_type_patches s"
  by (auto dest: scan_u32_Inr)

lemma ring_loop_keeps: "ring_loop n s le d = Inr s' \<Longrightarrow> s_type_patches s' = s_type_patches s"
  by (induction n arbitrary: s) (auto simp: result_simps dest!: scan_u32_keeps coordinates_keeps)

lemma geometry_body_keeps: "geometry_body s h = Inr (s', c) \<Longrightarrow> s_type_patches s' = s_type_patches s"
  by (auto simp: geometry_body_def Let_def result_simps split: if_splits
      dest!: scan_u32_keeps coordinates_keeps ring_loop_keeps add_components_keeps)

lemma note_header_keeps:
  "note_header s h = Inr s' \<Longrightarrow> s_type_patches s' = s_type_patches s \<and> s_offset s' = s_offset s
     \<and> s_bytes s' = s_bytes s \<and> s_dimension_mode s' = s_dimension_mode s
     \<and> (h_srid h \<noteq> None \<longrightarrow> s_has_any_embedded_srid s')"
  by (auto simp: note_header_def Let_def result_simps split: if_splits)

lemma geometry_Inr:
  assumes "geometry s depth = Inr (s', children, header)"
  obtains s1 s2 s3 where "depth \<noteq> 0" "depth \<le> s_max_depth s"
    "add_components (s\<lparr>s_observed_depth := max (s_observed_depth s) depth\<rparr>) 1 = Inr s1"
    "scan_header s1 = Inr (s2, header)" "note_header s2 header = Inr s3"
    "geometry_body s3 header = Inr (s', children)"
  using assms by (auto simp: geometry_def result_simps not_less split: if_splits)

lemma geometry_srid:
  assumes "geometry s depth = Inr (s', children, header)" and "\<not> s_has_any_embedded_srid s'"
  shows "h_srid header = None"
proof -
  obtain s2 s3 where "note_header s2 header = Inr s3" "geometry_body s3 header = Inr (s', children)"
    using geometry_Inr [OF assms(1)] by metis
  with assms(2) show ?thesis
    by (auto dest!: note_header_keeps geometry_body_advances dest: advances_srids(1))
qed

text \<open>The patches of one geometry: at most one, on its own type word.\<close>

lemma geometry_patches:
  assumes "geometry s depth = Inr (s', children, header)"
  obtains le w where "s_bytes s ! s_offset s = of_bool le"
    "w = decode_u32 le (take 4 (drop (s_offset s + 1) (s_bytes s)))"
    "s_type_patches s' = s_type_patches s @ header_patches (s_dimension_mode s) (s_offset s + 1) le w"
    "s_offset s + 5 \<le> s_offset s'" "s_offset s' \<le> length (s_bytes s)"
proof -
  obtain s1 s2 s3 where s1: "add_components (s\<lparr>s_observed_depth := max (s_observed_depth s) depth\<rparr>) 1 = Inr s1"
    and s2: "scan_header s1 = Inr (s2, header)" and s3: "note_header s2 header = Inr s3"
    and s4: "geometry_body s3 header = Inr (s', children)"
    using geometry_Inr [OF assms] by metis
  have s1': "s_bytes s1 = s_bytes s" "s_offset s1 = s_offset s" "s_type_patches s1 = s_type_patches s"
    "s_dimension_mode s1 = s_dimension_mode s"
    using add_components_keeps [OF s1] by simp_all
  obtain le w srid where len: "s_offset s + 5 \<le> length (s_bytes s)" and h: "s_bytes s ! s_offset s = of_bool le"
    "w = decode_u32 le (take 4 (drop (s_offset s + 1) (s_bytes s)))"
    and o: "optional_srid (s1\<lparr>s_offset := s_offset s + 5, s_type_patches := s_type_patches s
       @ header_patches (s_dimension_mode s) (s_offset s + 1) le w\<rparr>) le w = Inr (s2, srid)"
    using scan_header_Inr [OF s2] unfolding s1' by metis
  have "s_type_patches s' = s_type_patches s @ header_patches (s_dimension_mode s) (s_offset s + 1) le w"
    using optional_srid_Inr [OF o] note_header_keeps [OF s3] geometry_body_keeps [OF s4] by simp
  moreover have "s_offset s + 5 \<le> s_offset s'" "s_offset s' \<le> length (s_bytes s)"
    using advancesD(5,6) [OF geometry_advances [OF assms, THEN conjunct1]] len by auto
  ultimately show thesis using that h by blast
qed

definition patched_from :: "nat \<Rightarrow> u8 list \<Rightarrow> u8 list \<Rightarrow> type_patch list \<Rightarrow> nat \<Rightarrow> bool" where
  "patched_from k bytes out ps a \<longleftrightarrow>
     length out = length bytes + k \<and> length out \<le> usize_max
     \<and> (\<forall>i. a \<le> i \<longrightarrow> i < length bytes \<longrightarrow> \<not> covers ps i \<longrightarrow> out ! (i + k) = bytes ! i)
     \<and> (\<forall>p \<in> set ps. a \<le> tp_offset p \<longrightarrow>
          take 4 (drop (tp_offset p + k) out) = encode_u32 (tp_little_endian p) (tp_type_word p))"

lemma geometry_replay:
  assumes g: "geometry s depth = Inr (s', children, header)"
    and mode: "m = DmStrict \<or> m = ForceUnmarkedZ \<and> s_dimension_mode s = ForceUnmarkedZ"
    and ps: "ps = s_type_patches s' @ later" and later: "\<forall>p \<in> set later. s_offset s' \<le> tp_offset p"
    and old: "\<forall>p \<in> set (s_type_patches s). tp_offset p + 4 \<le> s_offset s"
    and out: "patched_from k (s_bytes s) out ps (s_offset s)"
    and srid: "e \<Longrightarrow> h_srid header = None"
  shows "geometry (replay k e m out s) depth = Inr (replay k e m out s', children, header)"
proof -
  let ?s0 = "s\<lparr>s_observed_depth := max (s_observed_depth s) depth\<rparr>"
  obtain s1 s2 s3 where d: "depth \<noteq> 0" "depth \<le> s_max_depth s" and s1: "add_components ?s0 1 = Inr s1"
    and s2: "scan_header s1 = Inr (s2, header)" and s3: "note_header s2 header = Inr s3"
    and s4: "geometry_body s3 header = Inr (s', children)"
    using geometry_Inr [OF g] by metis
  obtain le w where le: "s_bytes s ! s_offset s = of_bool le"
    and w: "w = decode_u32 le (take 4 (drop (s_offset s + 1) (s_bytes s)))"
    and new: "s_type_patches s' = s_type_patches s @ header_patches (s_dimension_mode s) (s_offset s + 1) le w"
    and len: "s_offset s + 5 \<le> s_offset s'" "s_offset s' \<le> length (s_bytes s)"
    using geometry_patches [OF g] by metis
  have s1': "s_bytes s1 = s_bytes s" "s_offset s1 = s_offset s" "s_dimension_mode s1 = s_dimension_mode s"
    using add_components_keeps [OF s1] by simp_all
  have s2': "s_bytes s2 = s_bytes s" "s_offset s + 5 \<le> s_offset s2"
    using advancesD(1,5) [OF scan_header_advances [OF s2]] by (simp_all add: s1')
  have s3': "s_bytes s3 = s_bytes s" "s_offset s3 = s_offset s2" "s_offset s2 \<le> s_offset s'"
    using note_header_keeps [OF s3] s2' advancesD(5) [OF geometry_body_advances [OF s4]] by simp_all
  note hp = header_patches_cases [of "s_dimension_mode s" "s_offset s + 1" le w]
  have free: "\<not> covers ps i" if "s_offset s \<le> i" "i < s_offset s'"
    "i = s_offset s \<or> s_offset s + 5 \<le> i \<or> header_patches (s_dimension_mode s) (s_offset s + 1) le w = []" for i
    using that old later hp unfolding ps new covers_def by fastforce
  have agree: "agree k (s_bytes s) out a b" if "s_offset s + 5 \<le> a" "b \<le> s_offset s'" for a b
    using out that len free unfolding agree_def patched_from_def
    by (metis (no_types, lifting) add_leD1 le_trans less_le_trans)
  have first: "out ! (s_offset s + k) = s_bytes s ! s_offset s"
    using out len free [of "s_offset s"] by (simp add: patched_from_def)
  have word: "decode_u32 le (take 4 (drop (s_offset s + k + 1) out)) = header_word (s_dimension_mode s) w"
    using hp
  proof
    assume same: "header_patches (s_dimension_mode s) (s_offset s + 1) le w = [] \<and> header_word (s_dimension_mode s) w = w"
    then have "agree k (s_bytes s) out (s_offset s + 1) (s_offset s + 1 + 4)"
      using out len free unfolding agree_def patched_from_def by simp
    from agree_take [OF this] len same w show ?thesis by (simp add: algebra_simps)
  next
    assume hp1: "header_patches (s_dimension_mode s) (s_offset s + 1) le w =
      [\<lparr>tp_offset = s_offset s + 1, tp_little_endian = le, tp_type_word = header_word (s_dimension_mode s) w\<rparr>]"
    then have "\<lparr>tp_offset = s_offset s + 1, tp_little_endian = le, tp_type_word = header_word (s_dimension_mode s) w\<rparr>
        \<in> set ps" by (simp add: ps new)
    then have "take 4 (drop (s_offset s + 1 + k) out) = encode_u32 le (header_word (s_dimension_mode s) w)"
      using out unfolding patched_from_def by fastforce
    then show ?thesis by (simp add: algebra_simps)
  qed
  have "scan_header (replay k e m out s1) = Inr (replay k e m out s2, header)"
  proof (rule scan_header_replay [OF s2 geometry_body_base [OF s4]])
    fix le' assume "s_bytes s1 ! s_offset s1 = of_bool le'"
    then have "le' = le" using le s1' by (cases le; cases le') simp_all
    then show "decode_u32 le' (take 4 (drop (s_offset s1 + k + 1) out)) =
        header_word (s_dimension_mode s1) (decode_u32 le' (take 4 (drop (s_offset s1 + 1) (s_bytes s1))))"
      using word w by (simp add: s1')
  qed (use mode agree first s1' s3' in auto)
  moreover have "replay k e m out ?s0 = (replay k e m out s)\<lparr>s_observed_depth :=
      max (s_observed_depth (replay k e m out s)) depth\<rparr>" "s_max_depth (replay k e m out s) = s_max_depth s"
    by (simp_all add: replay_def)
  moreover have "note_header (replay k e m out s2) header = Inr (replay k e m out s3)"
    using note_header_replay [OF s3] srid by simp
  moreover have "geometry_body (replay k e m out s3) header = Inr (replay k e m out s', children)"
    using geometry_body_replay [OF s4] agree s2' s3' by simp
  ultimately show ?thesis
    using d add_components_replay [OF s1, of k e m out] by (simp add: geometry_def not_less)
qed

section \<open>The loop\<close>

definition stamped_inspection :: "bool \<Rightarrow> ewkb_inspection \<Rightarrow> ewkb_inspection" where
  "stamped_inspection e i =
     i\<lparr>ei_has_any_embedded_srid := ei_has_any_embedded_srid i \<or> e,
       ei_embedded_srid_count := ei_embedded_srid_count i + of_bool e\<rparr>"

lemma patched_from_mono: "patched_from k bytes out ps a \<Longrightarrow> a \<le> b \<Longrightarrow> patched_from k bytes out ps b"
  by (auto simp: patched_from_def)

text \<open>One round of the loop, with what the later rounds add.\<close>

lemma scan_loop_round:
  assumes "scan_loop s depth frames root = Inr (i, ps)"
  obtains s1 children header frames1 root1 later t r where
    "root1 = (case root of None \<Rightarrow> Some (metadata_of header) | Some r \<Rightarrow> Some r)"
    "geometry s depth = Inr (s1, children, header)"
    "push_frame (s_max_depth s1) depth children frames = Inr frames1"
    "case next_frame frames1 of
        None \<Rightarrow> finish_scan s1 root1 = Inr (i, ps)
      | Some (depth1, frames2) \<Rightarrow> scan_loop s1 depth1 frames2 root1 = Inr (i, ps)"
    "ps = s_type_patches s1 @ later" "\<forall>p \<in> set later. s_offset s1 \<le> tp_offset p"
    "advances 0 s1 t" "i = inspection_of t r"
proof -
  obtain s1 children header frames1 root1
    where root1: "root1 = (case root of None \<Rightarrow> Some (metadata_of header) | Some r \<Rightarrow> Some r)"
    and g: "geometry s depth = Inr (s1, children, header)"
    and push: "push_frame (s_max_depth s1) depth children frames = Inr frames1"
    and cont: "case next_frame frames1 of
        None \<Rightarrow> finish_scan s1 root1 = Inr (i, ps)
      | Some (depth1, frames2) \<Rightarrow> scan_loop s1 depth1 frames2 root1 = Inr (i, ps)"
    using iffD1 [OF scan_loop_Inr assms] unfolding Let_def by blast
  have "\<exists>later t r. ps = s_type_patches s1 @ later \<and> (\<forall>p \<in> set later. s_offset s1 \<le> tp_offset p)
      \<and> advances 0 s1 t \<and> i = inspection_of t r"
  proof (cases "next_frame frames1")
    case None
    then show ?thesis using cont by (auto simp: finish_scan_Inr intro!: exI [of _ s1])
  next
    case (Some df)
    then obtain t r where "advances 5 s1 t" "i = inspection_of t r" "ps = s_type_patches t"
      using cont scan_loop_end [of s1 "fst df" "snd df" root1 i ps] by (auto split: prod.splits)
    then show ?thesis using advances_patches [of 5 s1 t] advances_weaken [of 5 s1 t 0] by auto
  qed
  with that root1 g push cont show thesis by blast
qed

lemma scan_loop_replay:
  assumes "scan_loop s depth frames root = Inr (i, ps)"
    and "m = DmStrict \<or> m = ForceUnmarkedZ \<and> s_dimension_mode s = ForceUnmarkedZ"
    and "\<forall>p \<in> set (s_type_patches s). tp_offset p + 4 \<le> s_offset s"
    and "patched_from k (s_bytes s) out ps (s_offset s)"
    and "e \<Longrightarrow> \<not> ei_has_any_embedded_srid i"
  shows "scan_loop (replay k e m out s) depth frames root = Inr (stamped_inspection e i, [])"
  using assms
proof (induction s depth frames root rule: scan_loop.induct)
  case (1 s depth frames root)
  from scan_loop_round [OF 1(2)] obtain s1 children header frames1 root1 later t r
    where root1: "root1 = (case root of None \<Rightarrow> Some (metadata_of header) | Some r \<Rightarrow> Some r)"
    and g: "geometry s depth = Inr (s1, children, header)"
    and push: "push_frame (s_max_depth s1) depth children frames = Inr frames1"
    and cont: "case next_frame frames1 of
        None \<Rightarrow> finish_scan s1 root1 = Inr (i, ps)
      | Some (depth1, frames2) \<Rightarrow> scan_loop s1 depth1 frames2 root1 = Inr (i, ps)"
    and later: "ps = s_type_patches s1 @ later" "\<forall>p \<in> set later. s_offset s1 \<le> tp_offset p"
    and t: "advances 0 s1 t" "i = inspection_of t r" by metis
  note adv = geometry_advances [OF g, THEN conjunct1]
  note keep = advancesD(1,2,5) [OF adv]
  have "\<not> s_has_any_embedded_srid s1" if e
    using 1(6) [OF that] t advances_srids(1) [of 0 s1 t] by (auto simp: inspection_of_def)
  then have srid: "e \<Longrightarrow> h_srid header = None" using geometry_srid [OF g] by blast
  have step: "geometry (replay k e m out s) depth = Inr (replay k e m out s1, children, header)"
    by (rule geometry_replay [OF g 1(3) later 1(4) 1(5) srid])
  have old: "\<forall>p \<in> set (s_type_patches s1). tp_offset p + 4 \<le> s_offset s1"
    using advances_patches [OF adv] 1(4) keep by fastforce
  have out1: "patched_from k (s_bytes s1) out ps (s_offset s1)"
    using patched_from_mono [OF 1(5)] keep by simp
  have depth1: "s_max_depth (replay k e m out s1) = s_max_depth s1" by (simp add: replay_def)
  show ?case
  proof (cases "next_frame frames1")
    case None
    then have "finish_scan s1 root1 = Inr (i, ps)" using cont by simp
    then have "finish_scan (replay k e m out s1) root1 = Inr (stamped_inspection e i, [])"
      using out1 by (auto simp: finish_scan_Inr replay_def inspection_of_def stamped_inspection_def patched_from_def)
    then show ?thesis using None step push
      by (subst scan_loop.simps) (simp add: depth1 Let_def flip: root1)
  next
    case (Some df)
    obtain depth1 frames2 where df: "df = (depth1, frames2)" by (cases df)
    have "scan_loop (replay k e m out s1) depth1 frames2 root1 = Inr (stamped_inspection e i, [])"
    proof (rule 1(1) [OF g refl refl root1 push Some df [symmetric] _ _ old out1])
      show "scan_loop s1 depth1 frames2 root1 = Inr (i, ps)" using cont Some df by simp
    qed (use 1(3) 1(6) keep in auto)
    then show ?thesis using Some df step push
      by (subst scan_loop.simps) (simp add: depth1 Let_def flip: root1)
  qed
qed

lemma scan_patches_ok:
  assumes "scan_ewkb bytes mc md mode = Inr (i, ps)"
  shows "(\<forall>p \<in> set ps. tp_offset p + 4 \<le> length bytes)
    \<and> sorted_wrt (\<lambda>p q. tp_offset p + 4 \<le> tp_offset q) ps"
proof -
  obtain s' where s': "advances 5 (scanner_new bytes mc md mode) s'" "s_offset s' = length bytes"
    "ps = s_type_patches s'" using scan_ewkb_end [OF assms] by blast
  with advances_patches [OF s'(1)] show ?thesis by (auto simp: scanner_new_def)
qed

lemma apply_patches_patched:
  assumes "scan_ewkb bytes mc md mode = Inr (i, ps)" and "apply_patches bytes ps = Some out"
    and "length bytes \<le> usize_max"
  shows "patched_from 0 bytes out ps 0"
  using scan_patches_ok [OF assms(1)] apply_patches_length [OF assms(2)] assms(3)
    apply_patches_outside [OF assms(2)] apply_patches_inside [OF assms(2)]
  by (simp add: patched_from_def)

lemma rescan_patched:
  assumes scan: "scan_ewkb bytes mc md mode = Inr (i, ps)" and out: "apply_patches bytes ps = Some out"
    and len: "length bytes \<le> usize_max"
    and m: "m = DmStrict \<or> m = ForceUnmarkedZ \<and> mode = ForceUnmarkedZ"
  shows "scan_ewkb out mc md m = Inr (i, [])"
proof -
  have nz: "mc \<noteq> 0" "md \<noteq> 0" and loop: "scan_loop (scanner_new bytes mc md mode) 1 [] None = Inr (i, ps)"
    using scan by (auto simp: scan_ewkb_def split: if_splits)
  have "scan_loop (replay 0 False m out (scanner_new bytes mc md mode)) 1 [] None = Inr (stamped_inspection False i, [])"
    by (rule scan_loop_replay [OF loop])
      (use m apply_patches_patched [OF scan out len] in \<open>auto simp: scanner_new_def\<close>)
  moreover have "replay 0 False m out (scanner_new bytes mc md mode) = scanner_new out mc md m"
    by (simp add: replay_def scanner_new_def)
  moreover have "stamped_inspection False i = i" by (simp add: stamped_inspection_def)
  ultimately show ?thesis using nz by (simp add: scan_ewkb_def)
qed

section \<open>Trailing bytes\<close>

text \<open>
  What the scanner read is what it reads of a longer payload, so the payload accepted ends where the geometry does: no
  payload with bytes after it, and none cut short, is accepted.
\<close>

definition with_tail :: "u8 list \<Rightarrow> scanner \<Rightarrow> scanner" where
  "with_tail extra s = s\<lparr>s_bytes := s_bytes s @ extra\<rparr>"

lemma extended_fields [simp]:
  "s_bytes (with_tail x s) = s_bytes s @ x" "s_offset (with_tail x s) = s_offset s"
  "s_components (with_tail x s) = s_components s" "s_max_components (with_tail x s) = s_max_components s"
  "s_max_depth (with_tail x s) = s_max_depth s" "s_observed_depth (with_tail x s) = s_observed_depth s"
  "s_has_any_z (with_tail x s) = s_has_any_z s" "s_has_any_m (with_tail x s) = s_has_any_m s"
  "s_has_any_embedded_srid (with_tail x s) = s_has_any_embedded_srid s"
  "s_embedded_srid_count (with_tail x s) = s_embedded_srid_count s"
  "s_dimension_mode (with_tail x s) = s_dimension_mode s" "s_type_patches (with_tail x s) = s_type_patches s"
  by (simp_all add: with_tail_def)

lemma extended_updates:
  "(with_tail x s)\<lparr>s_offset := n\<rparr> = with_tail x (s\<lparr>s_offset := n\<rparr>)"
  "(with_tail x s)\<lparr>s_components := c\<rparr> = with_tail x (s\<lparr>s_components := c\<rparr>)"
  "(with_tail x s)\<lparr>s_observed_depth := c\<rparr> = with_tail x (s\<lparr>s_observed_depth := c\<rparr>)"
  "(with_tail x s)\<lparr>s_has_any_z := b\<rparr> = with_tail x (s\<lparr>s_has_any_z := b\<rparr>)"
  "(with_tail x s)\<lparr>s_has_any_m := b\<rparr> = with_tail x (s\<lparr>s_has_any_m := b\<rparr>)"
  "(with_tail x s)\<lparr>s_has_any_embedded_srid := b\<rparr> = with_tail x (s\<lparr>s_has_any_embedded_srid := b\<rparr>)"
  "(with_tail x s)\<lparr>s_embedded_srid_count := c\<rparr> = with_tail x (s\<lparr>s_embedded_srid_count := c\<rparr>)"
  "push_patch (with_tail x s) b p = with_tail x (push_patch s b p)"
  by (simp_all add: with_tail_def push_patch_def)

lemma take_bytes_extended: "take_bytes s n = Inr (s', raw) \<Longrightarrow> take_bytes (with_tail x s) n = Inr (with_tail x s', raw)"
  by (auto simp: take_bytes_def result_simps extended_updates checked_add_usize_def split: if_splits)

lemma scan_u32_extended:
  assumes "scan_u32 s le = Inr (s', w)"
  shows "scan_u32 (with_tail x s) le = Inr (with_tail x s', w)"
proof -
  obtain raw where "take_bytes s 4 = Inr (s', raw)" "w = decode_u32 le raw"
    using assms by (auto simp: scan_u32_def result_simps)
  then show ?thesis by (simp add: scan_u32_def take_bytes_extended)
qed

lemma read_byte_order_extended:
  assumes "read_byte_order s = Inr (s', le)"
  shows "read_byte_order (with_tail x s) = Inr (with_tail x s', le)"
proof -
  obtain raw where "take_bytes s 1 = Inr (s', raw)" "raw ! 0 = of_bool le"
    using assms by (auto simp: read_byte_order_def result_simps split: if_splits)
  then show ?thesis by (cases le) (simp_all add: read_byte_order_def take_bytes_extended [where x = x])
qed

lemma optional_srid_extended:
  assumes "optional_srid s le w = Inr (s', v)"
  shows "optional_srid (with_tail x s) le w = Inr (with_tail x s', v)"
proof (cases "w AND 0x20000000 \<noteq> 0")
  case True
  then obtain u where "scan_u32 s le = Inr (s', u)" "v = Some u"
    using assms by (auto simp: optional_srid_def result_simps)
  with True show ?thesis by (simp add: optional_srid_def scan_u32_extended)
qed (use assms in \<open>simp add: optional_srid_def\<close>)

lemma interpret_type_extended:
  assumes "interpret_type s off le w = Inr (s', h)"
  shows "interpret_type (with_tail x s) off le w = Inr (with_tail x s', h)"
proof -
  let ?s = "s\<lparr>s_type_patches := s_type_patches s @ header_patches (s_dimension_mode s) off le w\<rparr>"
  obtain srid where "w AND 0x10000000 = 0" "optional_srid ?s le w = Inr (s', srid)"
    "h = type_header (s_dimension_mode s) le w srid"
    using assms unfolding interpret_type_eq by (auto simp: result_simps split: if_splits)
  moreover have patched: "(with_tail x s)\<lparr>s_type_patches := s_type_patches s @ header_patches (s_dimension_mode s) off le w\<rparr>
      = with_tail x ?s" by (simp add: with_tail_def)
  ultimately show ?thesis by (simp add: interpret_type_eq patched optional_srid_extended)
qed

lemma scan_header_extended:
  assumes "scan_header s = Inr (s', h)"
  shows "scan_header (with_tail x s) = Inr (with_tail x s', h)"
proof -
  obtain s1 le s2 w where "read_byte_order s = Inr (s1, le)" "scan_u32 s1 le = Inr (s2, w)"
    "interpret_type s2 (s_offset s1) le w = Inr (s', h)"
    using assms by (auto simp: scan_header_def result_simps)
  then show ?thesis
    by (simp add: scan_header_def read_byte_order_extended scan_u32_extended interpret_type_extended)
qed

lemma add_components_extended: "add_components s n = Inr s' \<Longrightarrow> add_components (with_tail x s) n = Inr (with_tail x s')"
  by (auto simp: add_components_def result_simps extended_updates split: if_splits)

lemma coordinates_extended:
  assumes "coordinates s n d = Inr s'"
  shows "coordinates (with_tail x s) n d = Inr (with_tail x s')"
proof -
  obtain s1 bytes raw where "add_components s n = Inr s1"
    "Option.bind (checked_mul n d) (\<lambda>v. checked_mul v 8) = Some bytes" "take_bytes s1 (unat bytes) = Inr (s', raw)"
    using assms by (auto simp: coordinates_def result_simps)
  then show ?thesis by (simp add: coordinates_def add_components_extended take_bytes_extended)
qed

lemma ring_loop_extended: "ring_loop n s le d = Inr s' \<Longrightarrow> ring_loop n (with_tail x s) le d = Inr (with_tail x s')"
proof (induction n arbitrary: s)
  case (Suc n)
  then obtain s1 points s2 where "scan_u32 s le = Inr (s1, points)" "coordinates s1 (ucast points) d = Inr s2"
    "ring_loop n s2 le d = Inr s'" by (auto simp: result_simps)
  then show ?case by (simp add: scan_u32_extended coordinates_extended Suc.IH)
qed simp

lemma note_header_extended: "note_header s h = Inr s' \<Longrightarrow> note_header (with_tail x s) h = Inr (with_tail x s')"
  by (auto simp: note_header_def Let_def result_simps extended_updates split: if_splits)

lemma geometry_body_extended:
  assumes "geometry_body s h = Inr (s', c)"
  shows "geometry_body (with_tail x s) h = Inr (with_tail x s', c)"
proof -
  let ?t = "h_base_type h" and ?le = "h_little_endian h" and ?d = "h_dimensions h"
  note extend = scan_u32_extended [where x = x] coordinates_extended [where x = x] add_components_extended [where x = x]
    ring_loop_extended [where x = x]
  consider (point) "?t = 1" "coordinates s 1 ?d = Inr s'" "c = 0"
    | (line) s1 n where "?t \<in> {2, 8}" "?t \<noteq> 1" "scan_u32 s ?le = Inr (s1, n)"
        "coordinates s1 (ucast n) ?d = Inr s'" "c = 0"
    | (rings) s1 n s2 where "?t \<in> {3, 17}" "?t \<notin> {1, 2, 8}" "scan_u32 s ?le = Inr (s1, n)"
        "add_components s1 (ucast n) = Inr s2" "ring_loop (unat n) s2 ?le ?d = Inr s'" "c = 0"
    | (many) n where "?t \<in> {4, 5, 6, 7, 9, 10, 11, 12, 15, 16}" "?t \<notin> {1, 2, 8, 3, 17}"
        "scan_u32 s ?le = Inr (s', n)" "c = ucast n"
    using assms by (auto simp: geometry_body_def Let_def result_simps split: if_splits)
  then show ?thesis
  proof cases
    case point then show ?thesis by (simp add: geometry_body_def Let_def extend)
  next
    case line then show ?thesis by (auto simp: geometry_body_def Let_def extend)
  next
    case rings then show ?thesis by (auto simp: geometry_body_def Let_def extend)
  next
    case many then show ?thesis by (auto simp: geometry_body_def Let_def extend)
  qed
qed

lemma geometry_extended:
  assumes "geometry s depth = Inr (s', children, header)"
  shows "geometry (with_tail x s) depth = Inr (with_tail x s', children, header)"
proof -
  obtain s1 s2 s3 where "depth \<noteq> 0" "depth \<le> s_max_depth s"
    "add_components (s\<lparr>s_observed_depth := max (s_observed_depth s) depth\<rparr>) 1 = Inr s1"
    "scan_header s1 = Inr (s2, header)" "note_header s2 header = Inr s3"
    "geometry_body s3 header = Inr (s', children)" by (rule geometry_Inr [OF assms])
  then show ?thesis
    by (simp add: geometry_def extended_updates not_less add_components_extended scan_header_extended
        note_header_extended geometry_body_extended)
qed

lemma scan_loop_extended:
  "scan_loop s depth frames root = Inr r \<Longrightarrow> x \<noteq> [] \<Longrightarrow>
     scan_loop (with_tail x s) depth frames root = Inl (mapping_error ''byte residui dopo la geometria EWKB'')"
proof (induction s depth frames root rule: scan_loop.induct)
  case (1 s depth frames root)
  obtain s1 children header frames1 where g: "geometry s depth = Inr (s1, children, header)"
    and push: "push_frame (s_max_depth s1) depth children frames = Inr frames1"
    and cont: "case next_frame frames1 of
        None \<Rightarrow> finish_scan s1 (case root of None \<Rightarrow> Some (metadata_of header) | Some r \<Rightarrow> Some r) = Inr r
      | Some (depth1, frames2) \<Rightarrow>
          scan_loop s1 depth1 frames2 (case root of None \<Rightarrow> Some (metadata_of header) | Some r \<Rightarrow> Some r) = Inr r"
    using iffD1 [OF scan_loop_Inr 1(2)] unfolding Let_def by blast
  show ?case
  proof (cases "next_frame frames1")
    case None
    then have "finish_scan (with_tail x s1) (case root of None \<Rightarrow> Some (metadata_of header) | Some r \<Rightarrow> Some r)
        = Inl (mapping_error ''byte residui dopo la geometria EWKB'')"
      using cont 1(3) by (auto simp: finish_scan_def split: if_splits)
    then show ?thesis
      using None push by (subst scan_loop.simps) (simp add: geometry_extended [OF g] Let_def)
  next
    case (Some df)
    obtain depth1 frames2 where df: "df = (depth1, frames2)" by (cases df)
    have "scan_loop (with_tail x s1) depth1 frames2 (case root of None \<Rightarrow> Some (metadata_of header) | Some r \<Rightarrow> Some r)
        = Inl (mapping_error ''byte residui dopo la geometria EWKB'')"
      using 1(1) [OF g refl refl refl push Some df [symmetric]] cont Some df 1(3) by simp
    then show ?thesis
      using Some df push by (subst scan_loop.simps) (simp add: geometry_extended [OF g] Let_def)
  qed
qed

lemma scan_ewkb_extended:
  assumes "scan_ewkb bytes mc md mode = Inr r" "x \<noteq> []"
  shows "scan_ewkb (bytes @ x) mc md mode = Inl (mapping_error ''byte residui dopo la geometria EWKB'')"
proof -
  have "scanner_new (bytes @ x) mc md mode = with_tail x (scanner_new bytes mc md mode)"
    by (simp add: with_tail_def scanner_new_def)
  with assms show ?thesis by (auto simp: scan_ewkb_def scan_loop_extended split: if_splits)
qed

lemma scan_ewkb_cut:
  assumes "scan_ewkb bytes mc md mode = Inr r" "n < length bytes"
  shows "\<not> is_ok (scan_ewkb (take n bytes) mc md mode)"
proof
  assume "is_ok (scan_ewkb (take n bytes) mc md mode)"
  then obtain r' where "scan_ewkb (take n bytes) mc md mode = Inr r'" by (auto simp: is_ok_iff)
  from scan_ewkb_extended [OF this, of "drop n bytes"] assms show False by simp
qed

section \<open>Properties\<close>

text \<open>C33: whatever the bytes, the EWKB scan ends with a result or a local error of category
  \<open>DataMapping\<close> or \<open>ResourceLimit\<close>; on success the counts are within the limits the caller gave, at
  least one geometry was read, the type words to rewrite are disjoint and inside the payload, and the payload ends
  where the geometry does: with any byte added after it, it is refused for its residual bytes, and no part of
  it cut short is accepted.\<close>

theorem scan_ewkb_bounded:
  "(\<forall>e. scan_ewkb bytes mc md mode = Inl e \<longrightarrow> ewkb_error e) \<and>
   (\<forall>i ps. scan_ewkb bytes mc md mode = Inr (i, ps) \<longrightarrow>
      1 \<le> es_components (ei_stats i) \<and> es_components (ei_stats i) \<le> mc \<and>
      1 \<le> es_max_depth (ei_stats i) \<and> es_max_depth (ei_stats i) \<le> md \<and>
      5 \<le> length bytes \<and> (\<forall>p \<in> set ps. tp_offset p + 4 \<le> length bytes) \<and>
      sorted_wrt (\<lambda>p q. tp_offset p + 4 \<le> tp_offset q) ps \<and>
      (\<forall>x. x \<noteq> [] \<longrightarrow>
        scan_ewkb (bytes @ x) mc md mode = Inl (mapping_error ''byte residui dopo la geometria EWKB'')) \<and>
      (\<forall>n < length bytes. \<not> is_ok (scan_ewkb (take n bytes) mc md mode)))"
proof (intro conjI allI impI ballI)
  fix e assume "scan_ewkb bytes mc md mode = Inl e"
  then show "ewkb_error e"
    using fails_withD [OF fails_scan_loop] by (auto simp: scan_ewkb_def split: if_splits)
next
  fix i ps assume scan: "scan_ewkb bytes mc md mode = Inr (i, ps)"
  obtain s' m where s': "advances 5 (scanner_new bytes mc md mode) s'" "s_offset s' = length bytes"
    "i = inspection_of s' m" "1 \<le> unat (s_components s')" "1 \<le> s_observed_depth s'"
    using scan_ewkb_end [OF scan] by blast
  show "1 \<le> es_components (ei_stats i)" "es_components (ei_stats i) \<le> mc" "1 \<le> es_max_depth (ei_stats i)"
    "es_max_depth (ei_stats i) \<le> md" "5 \<le> length bytes"
    using s' advancesD(5,9,10) [OF s'(1)] by (auto simp: inspection_of_def scanner_new_def word_le_nat_alt)
  show "sorted_wrt (\<lambda>p q. tp_offset p + 4 \<le> tp_offset q) ps" using scan_patches_ok [OF scan] by blast
  show "scan_ewkb (bytes @ x) mc md mode = Inl (mapping_error ''byte residui dopo la geometria EWKB'')" if "x \<noteq> []" for x
    by (rule scan_ewkb_extended [OF scan that])
  show "\<not> is_ok (scan_ewkb (take n bytes) mc md mode)" if "n < length bytes" for n
    by (rule scan_ewkb_cut [OF scan that])
  fix p assume "p \<in> set ps"
  then show "tp_offset p + 4 \<le> length bytes" using scan_patches_ok [OF scan] by blast
qed

text \<open>An XYZ point without the Z flag, little endian: 1 byte of order, 4 of type, 24 of ordinates.\<close>

definition sample_point :: "u8 list" where
  "sample_point = [1, 1, 0, 0, 0] @ replicate 24 0"

lemma sample_point_scan:
  "scan_ewkb sample_point 10 3 ForceUnmarkedZ =
     Inr (\<lparr>ei_stats = \<lparr>es_components = 2, es_max_depth = 1\<rparr>,
           ei_root = \<lparr>em_base_type = 1, em_has_z = True, em_has_m = False, em_srid = None\<rparr>,
           ei_has_any_z = True, ei_has_any_m = False, ei_has_any_embedded_srid = False,
           ei_embedded_srid_count = 0\<rparr>,
          [\<lparr>tp_offset = 1, tp_little_endian = True, tp_type_word = 0x80000001\<rparr>])"
proof -
  let ?s = "scanner_new sample_point 10 3 ForceUnmarkedZ"
  let ?p = "\<lparr>tp_offset = 1, tp_little_endian = True, tp_type_word = 0x80000001\<rparr> :: type_patch"
  let ?h = "\<lparr>h_base_type = 1, h_dimensions = 3, h_little_endian = True, h_has_z = True, h_has_m = False,
      h_srid = None\<rparr> :: ewkb_header"
  define s1 where "s1 = ?s\<lparr>s_observed_depth := 1, s_components := 1\<rparr>"
  define s2 where "s2 = s1\<lparr>s_offset := 5, s_type_patches := [?p]\<rparr>"
  define s3 where "s3 = s2\<lparr>s_has_any_z := True\<rparr>"
  define s4 where "s4 = s3\<lparr>s_components := 2, s_offset := 29\<rparr>"
  have at: "s_bytes s1 = sample_point" "s_offset s1 = 0" "length sample_point = 29" "sample_point ! 0 = 1"
    "take 4 (drop 1 sample_point) = [1, 0, 0, 0]" "29 \<le> usize_max"
    by (simp_all add: s1_def scanner_new_def sample_point_def usize_max_def)
  have 1: "add_components (?s\<lparr>s_observed_depth := max (s_observed_depth ?s) 1\<rparr>) 1 = Inr s1"
    by (simp add: add_components_def checked_add_def scanner_new_def s1_def)
  have "scan_header s1 = interpret_type (s1\<lparr>s_offset := 5\<rparr>) 1 True (decode_u32 True [1, 0, 0, 0])"
    using scan_header_at [of s1 True] at by simp
  moreover have "decode_u32 True [1, 0, 0, 0] = 1" by (simp add: decode_u32_def)
  moreover have "iso_type 1 = (1, False, False)" by (rule base_type_bits) (simp add: word_le_nat_alt)
  ultimately have 2: "scan_header s1 = Inr (s2, ?h)"
    by (simp add: interpret_type_def push_patch_def s1_def s2_def scanner_new_def Let_def)
  have 3: "note_header s2 ?h = Inr s3"
    by (simp add: note_header_def s3_def s2_def s1_def scanner_new_def Let_def)
  have "take_bytes (s3\<lparr>s_components := 2\<rparr>) 24 = Inr (s4, take 24 (drop 5 sample_point))"
    using take_bytes_at [of "s3\<lparr>s_components := 2\<rparr>" 24] at by (simp add: s4_def s3_def s2_def)
  then have 4: "geometry_body s3 ?h = Inr (s4, 0)"
    by (simp add: geometry_body_def coordinates_def add_components_def checked_add_def checked_mul_def
        s3_def s2_def s1_def scanner_new_def)
  have "geometry ?s 1 = Inr (s4, 0, ?h)"
    using 1 2 3 4 by (simp add: geometry_def scanner_new_def)
  then show ?thesis
    by (simp add: scan_ewkb_def scan_loop.simps [of ?s] push_frame_def finish_scan_def metadata_of_def)
      (simp add: scanner_new_def at s4_def s3_def s2_def s1_def)
qed

theorem scan_ewkb_bounded_witness:
  "\<exists>i ps. scan_ewkb sample_point 10 3 ForceUnmarkedZ = Inr (i, ps) \<and> es_components (ei_stats i) \<le> 10
     \<and> 5 \<le> length sample_point \<and> (\<forall>p \<in> set ps. tp_offset p + 4 \<le> length sample_point)
     \<and> scan_ewkb (sample_point @ [0]) 10 3 ForceUnmarkedZ
         = Inl (mapping_error ''byte residui dopo la geometria EWKB'')"
  using scan_ewkb_bounded [of sample_point 10 3 ForceUnmarkedZ] sample_point_scan by blast

text \<open>C35: normalising an unmarked XYZ value never panics, keeps the length of the value, and what it
  writes is read back: the strict scan of the output succeeds under the same limits with the inspection
  of the input read as XYZ, and normalising again changes nothing, so no geometry is left unmarked.\<close>

theorem normalize_unmarked_xyz_reads_back:
  assumes "length bytes \<le> usize_max"
  shows "case normalize_unmarked_xyz bytes mc md of
      None \<Rightarrow> False
    | Some (Inl e) \<Rightarrow> scan_ewkb bytes mc md ForceUnmarkedZ = Inl e \<and> ewkb_error e
    | Some (Inr out) \<Rightarrow> length out = length bytes
        \<and> (\<exists>i ps. scan_ewkb bytes mc md ForceUnmarkedZ = Inr (i, ps)
             \<and> inspect_ewkb_detailed out mc md = Inr i)
        \<and> normalize_unmarked_xyz out mc md = Some (Inr out)"
proof (cases "scan_ewkb bytes mc md ForceUnmarkedZ")
  case (Inl e)
  then show ?thesis
    using fails_withD [OF fails_scan_loop]
    by (auto simp: normalize_unmarked_xyz_def scan_ewkb_def split: if_splits)
next
  case (Inr r)
  obtain i ps where r: "r = (i, ps)" by (cases r)
  with Inr have scan: "scan_ewkb bytes mc md ForceUnmarkedZ = Inr (i, ps)" by simp
  obtain out where out: "apply_patches bytes ps = Some out"
    using apply_patches_total scan_patches_ok [OF scan] by blast
  have "scan_ewkb out mc md DmStrict = Inr (i, [])" "scan_ewkb out mc md ForceUnmarkedZ = Inr (i, [])"
    using rescan_patched [OF scan out assms] by auto
  then show ?thesis
    using scan out apply_patches_length [OF out]
    by (simp add: normalize_unmarked_xyz_def inspect_ewkb_detailed_def)
qed

theorem normalize_unmarked_xyz_reads_back_witness:
  "length sample_point \<le> usize_max \<and>
   (case normalize_unmarked_xyz sample_point 10 3 of
      Some (Inr out) \<Rightarrow> length out = 29 \<and> normalize_unmarked_xyz out 10 3 = Some (Inr out) | _ \<Rightarrow> False)"
proof -
  have len: "length sample_point \<le> usize_max" by (simp add: sample_point_def usize_max_def)
  have "is_ok (scan_ewkb sample_point 10 3 ForceUnmarkedZ)" using sample_point_scan by simp
  with normalize_unmarked_xyz_reads_back [OF len, of 10 3] len show ?thesis
    by (auto simp: sample_point_def is_ok_iff split: option.splits sum.splits)
qed

end
