(* ===== verification/Ewkb_Srid.thy ===== *)
theory Ewkb_Srid
  imports Ewkb_Replay
begin

unbundle bit_operations_syntax

text \<open>
  \<open>with_root_srid\<close> (\<open>ewkb.rs\<close>): the stamped value is read back by the strict scanner with the SRID on
  its root and everything else unchanged, and no slice or debug assertion of the code can panic.
\<close>

section \<open>The root of the extended value\<close>

lemma scan_loop_root:
  "scan_loop s depth frames (Some r) = Inr (i, ps) \<Longrightarrow>
   scan_loop s depth frames (Some r') = Inr (i\<lparr>ei_root := r'\<rparr>, ps)"
proof (induction s depth frames "Some r" rule: scan_loop.induct)
  case (1 s depth frames)
  obtain s1 children header frames1 where g: "geometry s depth = Inr (s1, children, header)"
    and push: "push_frame (s_max_depth s1) depth children frames = Inr frames1"
    and cont: "case next_frame frames1 of
        None \<Rightarrow> finish_scan s1 (Some r) = Inr (i, ps)
      | Some (depth1, frames2) \<Rightarrow> scan_loop s1 depth1 frames2 (Some r) = Inr (i, ps)"
    using iffD1 [OF scan_loop_Inr 1(2)] unfolding Let_def option.case by blast
  show ?case
  proof (cases "next_frame frames1")
    case None
    with g push cont show ?thesis
      by (subst scan_loop.simps) (auto simp: finish_scan_Inr inspection_of_def)
  next
    case (Some df)
    obtain depth1 frames2 where df: "df = (depth1, frames2)" by (cases df)
    have "scan_loop s1 depth1 frames2 (Some r') = Inr (i\<lparr>ei_root := r'\<rparr>, ps)"
      by (rule 1(1) [OF g refl refl _ push Some df [symmetric]]) (use cont Some df in auto)
    with g push Some df show ?thesis by (subst scan_loop.simps) simp
  qed
qed

lemma geometry_body_srid: "geometry_body s (h\<lparr>h_srid := x\<rparr>) = geometry_body s h"
  by (simp add: geometry_body_def)

lemma thousands: "t = b + 3000 \<or> t = b + 2000 \<or> t = b + 1000 \<or> t = b \<Longrightarrow> b \<le> 17 \<Longrightarrow> t mod 1000 = b" for t b :: nat
  using mod_mult_self1 [of b 3 1000] mod_mult_self1 [of b 2 1000] by auto

text \<open>The base type of a type word is its code modulo a thousand, and the rewritten word holds it.\<close>

lemma extended_base_type:
  assumes iso: "iso_type (w AND 0x0fffffff) = (base, iz, im)" and base: "base \<le> 17"
  shows "header_word ExtendedForm w AND 0x0fffffff = (w AND 0x0fffffff) mod 1000"
proof -
  define t where "t = w AND 0x0fffffff"
  have b: "unat base \<le> 17" using base by (simp add: word_le_nat_alt)
  have t: "unat t = unat base + 3000 \<and> iz \<and> im \<or> unat t = unat base + 2000 \<and> \<not> iz \<and> im
      \<or> unat t = unat base + 1000 \<and> iz \<and> \<not> im \<or> unat t = unat base \<and> \<not> iz \<and> \<not> im"
    using iso unfolding t_def [symmetric] iso_type_def
    by (auto simp: word_le_nat_alt unat_sub split: if_splits)
  then have "unat t mod 1000 = unat base" using b thousands [of "unat t" "unat base"] by blast
  then have mod: "t mod 1000 = base" by (simp add: word_unat_eq_iff unat_mod)
  have "fst (iso_type (header_word ExtendedForm w AND 0x0fffffff)) = base"
    using arg_cong [OF header_word_fields(3) [OF iso base, of True ExtendedForm None], of h_base_type]
    by (simp add: type_header_base iso)
  show ?thesis
  proof (cases "iz \<or> im")
    case True
    have "header_word ExtendedForm w AND 0x0fffffff = base"
      using True by (simp add: header_word_def iso flag_if_def word_ao_dist and.assoc base_type_bits [OF base])
    then show ?thesis using mod by (simp add: t_def)
  next
    case False
    then have "t = base" using t by (auto simp: word_unat_eq_iff)
    then show ?thesis using False mod base_type_bits(6) [OF base]
      by (simp add: header_word_def t_def)
  qed
qed

lemma stamped_word:
  fixes v :: u32
  shows "(v OR 0x20000000) AND 0x10000000 = v AND 0x10000000" "(v OR 0x20000000) AND 0x20000000 \<noteq> 0"
    "type_header DmStrict le (v OR 0x20000000) srid = type_header DmStrict le v srid"
  by (simp_all add: word_ao_dist type_header_def)

section \<open>The first geometry of the stamped value\<close>

lemma first_geometry:
  assumes g: "geometry s depth = Inr (s', children, header)" and srid: "h_srid header = None"
    and start: "s_offset s = 0" "s_has_any_embedded_srid s = False" "s_embedded_srid_count s = 0"
      "s_type_patches s = []" "s_dimension_mode s = ExtendedForm"
  obtains le w where "s_bytes s ! 0 = of_bool le" "w = decode_u32 le (take 4 (drop 1 (s_bytes s)))"
    "w AND 0x10000000 = 0" "w AND 0x20000000 = 0" "fst (iso_type (w AND 0x0fffffff)) \<le> 17"
    "s_type_patches s' = header_patches ExtendedForm 1 le w" "5 \<le> s_offset s'" "s_offset s' \<le> length (s_bytes s)"
    "\<And>out v. length out = length (s_bytes s) + 4 \<Longrightarrow> length out \<le> usize_max \<Longrightarrow>
       out ! 0 = of_bool le \<Longrightarrow> decode_u32 le (take 4 (drop 1 out)) = header_word ExtendedForm w OR 0x20000000 \<Longrightarrow>
       decode_u32 le (take 4 (drop 5 out)) = v \<Longrightarrow> agree 4 (s_bytes s) out 5 (s_offset s') \<Longrightarrow>
       geometry (replay 0 False DmStrict out s) depth =
         Inr (replay 4 True DmStrict out s', children, header\<lparr>h_srid := Some v\<rparr>)"
proof -
  let ?s0 = "s\<lparr>s_observed_depth := max (s_observed_depth s) depth\<rparr>"
  obtain s1 s2 s3 where d: "depth \<noteq> 0" "depth \<le> s_max_depth s" and s1: "add_components ?s0 1 = Inr s1"
    and s2: "scan_header s1 = Inr (s2, header)" and s3: "note_header s2 header = Inr s3"
    and s4: "geometry_body s3 header = Inr (s', children)"
    using geometry_Inr [OF g] by metis
  obtain c where c: "s1 = ?s0\<lparr>s_components := c\<rparr>"
    using s1 by (auto simp: add_components_def result_simps split: if_splits)
  have s1': "s_bytes s1 = s_bytes s" "s_offset s1 = 0" "s_type_patches s1 = []"
    "s_dimension_mode s1 = ExtendedForm" using c start by simp_all
  obtain le w x where len: "5 \<le> length (s_bytes s)" and le: "s_bytes s ! 0 = of_bool le"
    and w: "w = decode_u32 le (take 4 (drop 1 (s_bytes s)))" "w AND 0x10000000 = 0"
    and o: "optional_srid (s1\<lparr>s_offset := 5, s_type_patches := header_patches ExtendedForm 1 le w\<rparr>) le w = Inr (s2, x)"
    and h: "header = type_header ExtendedForm le w x"
    using scan_header_Inr [OF s2] unfolding s1' by (metis add_0 append_Nil)
  have "x = None" using srid h by (simp add: type_header_def Let_def split: prod.splits)
  with o have flag: "w AND 0x20000000 = 0"
    and s2': "s2 = s1\<lparr>s_offset := 5, s_type_patches := header_patches ExtendedForm 1 le w\<rparr>"
    by (auto simp: optional_srid_def result_simps split: if_splits)
  have s3': "s3 = s2\<lparr>s_has_any_z := s_has_any_z s2 \<or> h_has_z header, s_has_any_m := s_has_any_m s2 \<or> h_has_m header\<rparr>"
    using s3 srid by (simp add: note_header_def)
  have base: "fst (iso_type (w AND 0x0fffffff)) \<le> 17"
    using geometry_body_base [OF s4] by (simp add: h type_header_base)
  obtain b iz im where iso: "iso_type (w AND 0x0fffffff) = (b, iz, im)" by (cases "iso_type (w AND 0x0fffffff)")
  have b: "b \<le> 17" using base iso by simp
  note fields = header_word_fields [OF iso b]
  have patches: "s_type_patches s' = header_patches ExtendedForm 1 le w"
    using geometry_body_keeps [OF s4] by (simp add: s3' s2')
  have off: "5 \<le> s_offset s'" "s_offset s' \<le> length (s_bytes s)"
    using advancesD(5,6) [OF geometry_body_advances [OF s4]] len by (auto simp: s3' s2' s1')
  have stamped: "geometry (replay 0 False DmStrict out s) depth =
       Inr (replay 4 True DmStrict out s', children, header\<lparr>h_srid := Some v\<rparr>)"
    if out: "length out = length (s_bytes s) + 4" "length out \<le> usize_max" "out ! 0 = of_bool le"
      "decode_u32 le (take 4 (drop 1 out)) = header_word ExtendedForm w OR 0x20000000"
      "decode_u32 le (take 4 (drop 5 out)) = v" and agree: "agree 4 (s_bytes s) out 5 (s_offset s')" for out v
  proof -
    let ?r = "replay 0 False DmStrict out"
    have head: "scan_header (?r s1) = interpret_type ((?r s1)\<lparr>s_offset := 5\<rparr>) 1 le (header_word ExtendedForm w OR 0x20000000)"
      using scan_header_at [of "?r s1" le] out len by (simp add: replay_def s1')
    have srid_read: "scan_u32 ((?r s1)\<lparr>s_offset := 5\<rparr>) le = Inr ((?r s1)\<lparr>s_offset := 9\<rparr>, v)"
      using take_bytes_at [of "(?r s1)\<lparr>s_offset := 5\<rparr>" 4] out len by (simp add: scan_u32_def replay_def)
    have "scan_header (?r s1) = Inr ((?r s1)\<lparr>s_offset := 9\<rparr>, header\<lparr>h_srid := Some v\<rparr>)"
    proof -
      have stamped_header:
        "type_header DmStrict le (header_word ExtendedForm w OR 0x20000000) (Some v) = header\<lparr>h_srid := Some v\<rparr>"
        using stamped_word(3) fields(3) by (simp add: h) (simp add: type_header_def Let_def split: prod.splits)
      have "header_patches DmStrict 1 le u = []" for u
        by (simp add: header_patches_def split: prod.splits)
      moreover have "X\<lparr>s_type_patches := s_type_patches X @ []\<rparr> = X" for X :: scanner by (cases X) simp
      moreover have "s_dimension_mode ((?r s1)\<lparr>s_offset := 5\<rparr>) = DmStrict" by (simp add: replay_def)
      ultimately have "interpret_type ((?r s1)\<lparr>s_offset := 5\<rparr>) 1 le (header_word ExtendedForm w OR 0x20000000) =
          and_then (optional_srid ((?r s1)\<lparr>s_offset := 5\<rparr>) le (header_word ExtendedForm w OR 0x20000000))
            (\<lambda>(s3, srid). Inr (s3, type_header DmStrict le (header_word ExtendedForm w OR 0x20000000) srid))"
        using stamped_word(1) [of "header_word ExtendedForm w"] fields(1) [of ExtendedForm] w(2)
        unfolding interpret_type_eq by metis
      moreover have "optional_srid ((?r s1)\<lparr>s_offset := 5\<rparr>) le (header_word ExtendedForm w OR 0x20000000) =
          Inr ((?r s1)\<lparr>s_offset := 9\<rparr>, Some v)"
        using stamped_word(2) [of "header_word ExtendedForm w"] srid_read by (simp add: optional_srid_def)
      ultimately show ?thesis using head stamped_header by simp
    qed
    moreover have "note_header ((?r s1)\<lparr>s_offset := 9\<rparr>) (header\<lparr>h_srid := Some v\<rparr>) = Inr (replay 4 True DmStrict out s3)"
      using start by (simp add: note_header_def s3' s2' c replay_def checked_add_def Let_def)
    moreover have "geometry_body (replay 4 True DmStrict out s3) (header\<lparr>h_srid := Some v\<rparr>) =
        Inr (replay 4 True DmStrict out s', children)"
      unfolding geometry_body_srid by (rule geometry_body_replay [OF s4]) (use agree in \<open>simp add: s3' s2' s1'\<close>)
    moreover have "add_components ((?r s)\<lparr>s_observed_depth := max (s_observed_depth (?r s)) depth\<rparr>) 1 = Inr (?r s1)"
      using add_components_replay [OF s1, of 0 False DmStrict out] by (cases s) (simp add: replay_def)
    moreover have "s_max_depth (?r s) = s_max_depth s" by (simp add: replay_def)
    ultimately show ?thesis using d by (simp add: geometry_def not_less)
  qed
  show thesis by (rule that [OF le w(1) w(2) flag base patches off stamped])
qed

section \<open>Stamping\<close>

text \<open>What a successful scan in extended form says about the root and the bytes after it.\<close>

lemma stamped_scan:
  assumes scan: "scan_ewkb wkb mc md ExtendedForm = Inr (i, ps)" and no: "\<not> ei_has_any_embedded_srid i"
    and ext: "apply_patches wkb ps = Some extended"
  obtains le w where "5 \<le> length wkb" "wkb ! 0 = of_bool le" "w = decode_u32 le (take 4 (drop 1 wkb))"
    "w AND 0x20000000 = 0" "decode_u32 le (take 4 (drop 1 extended)) = header_word ExtendedForm w"
    "header_word ExtendedForm w AND 0x0fffffff = (w AND 0x0fffffff) mod 1000"
    "\<And>srid. length wkb + 4 \<le> usize_max \<Longrightarrow>
       scan_ewkb ([hd wkb] @ encode_u32 le (header_word ExtendedForm w OR 0x20000000) @ encode_u32 le srid
         @ drop 5 extended) mc md DmStrict =
       Inr (i\<lparr>ei_root := (ei_root i)\<lparr>em_srid := Some srid\<rparr>, ei_has_any_embedded_srid := True,
              ei_embedded_srid_count := 1\<rparr>, [])"
proof -
  let ?s = "scanner_new wkb mc md ExtendedForm"
  have nz: "mc \<noteq> 0" "md \<noteq> 0" and loop: "scan_loop ?s 1 [] None = Inr (i, ps)"
    using scan by (auto simp: scan_ewkb_def split: if_splits)
  from scan_loop_round [OF loop] obtain s1 children header frames1 root1 later t r
    where root1: "root1 = (case None of None \<Rightarrow> Some (metadata_of header) | Some r \<Rightarrow> Some r)"
    and g: "geometry ?s 1 = Inr (s1, children, header)"
    and push: "push_frame (s_max_depth s1) 1 children [] = Inr frames1"
    and cont1: "case next_frame frames1 of
        None \<Rightarrow> finish_scan s1 root1 = Inr (i, ps)
      | Some (depth1, frames2) \<Rightarrow> scan_loop s1 depth1 frames2 root1 = Inr (i, ps)"
    and later: "ps = s_type_patches s1 @ later" "\<forall>p \<in> set later. s_offset s1 \<le> tp_offset p"
    and t: "advances 0 s1 t" "i = inspection_of t r" by metis
  have cont: "case next_frame frames1 of
        None \<Rightarrow> finish_scan s1 (Some (metadata_of header)) = Inr (i, ps)
      | Some (depth1, frames2) \<Rightarrow> scan_loop s1 depth1 frames2 (Some (metadata_of header)) = Inr (i, ps)"
    using cont1 unfolding root1 option.case .
  have none: "\<not> s_has_any_embedded_srid s1" using no t advances_srids(1) [of 0 s1 t] by (auto simp: inspection_of_def)
  note adv = geometry_advances [OF g, THEN conjunct1]
  have count: "ei_embedded_srid_count i = 0"
    using advances_srids(2) [OF advances_trans [OF adv t(1)]] no t by (simp add: inspection_of_def scanner_new_def)
  obtain le w where le: "wkb ! 0 = of_bool le" and w: "w = decode_u32 le (take 4 (drop 1 wkb))"
    and flags: "w AND 0x20000000 = 0" "fst (iso_type (w AND 0x0fffffff)) \<le> 17"
    and new: "s_type_patches s1 = header_patches ExtendedForm 1 le w"
    and off: "5 \<le> s_offset s1" "s_offset s1 \<le> length wkb"
    and first: "\<And>out v. length out = length wkb + 4 \<Longrightarrow> length out \<le> usize_max \<Longrightarrow>
       out ! 0 = of_bool le \<Longrightarrow> decode_u32 le (take 4 (drop 1 out)) = header_word ExtendedForm w OR 0x20000000 \<Longrightarrow>
       decode_u32 le (take 4 (drop 5 out)) = v \<Longrightarrow> agree 4 wkb out 5 (s_offset s1) \<Longrightarrow>
       geometry (replay 0 False DmStrict out ?s) 1 =
         Inr (replay 4 True DmStrict out s1, children, header\<lparr>h_srid := Some v\<rparr>)"
    using first_geometry [OF g geometry_srid [OF g none]] by (simp add: scanner_new_def) metis
  have len: "5 \<le> length wkb" "length extended = length wkb"
    using off apply_patches_length [OF ext] by simp_all
  obtain b iz im where iso: "iso_type (w AND 0x0fffffff) = (b, iz, im)" by (cases "iso_type (w AND 0x0fffffff)")
  have root: "header_word ExtendedForm w AND 0x0fffffff = (w AND 0x0fffffff) mod 1000"
    using extended_base_type [OF iso] flags(2) iso by simp
  note hp = header_patches_cases [of ExtendedForm 1 le w]
  have later5: "p \<in> set later \<Longrightarrow> 5 \<le> tp_offset p" for p using later(2) off by fastforce
  have word: "decode_u32 le (take 4 (drop 1 extended)) = header_word ExtendedForm w"
    using hp
  proof
    assume same: "header_patches ExtendedForm 1 le w = [] \<and> header_word ExtendedForm w = w"
    have "extended ! i = wkb ! i" if "i < 5" for i
      using apply_patches_outside [OF ext, of i] later5 that same by (fastforce simp: covers_def later new)
    then have "take 4 (drop 1 extended) = take 4 (drop 1 wkb)"
      using len by (intro nth_equalityI) auto
    with same w show ?thesis by simp
  next
    assume hp1: "header_patches ExtendedForm 1 le w =
        [\<lparr>tp_offset = 1, tp_little_endian = le, tp_type_word = header_word ExtendedForm w\<rparr>]"
    then show ?thesis
      using apply_patches_inside [OF ext scan_patches_ok [OF scan, THEN conjunct2],
          of "\<lparr>tp_offset = 1, tp_little_endian = le, tp_type_word = header_word ExtendedForm w\<rparr>"]
      by (simp add: later new)
  qed
  have "tp_offset p = 1 \<or> s_offset s1 \<le> tp_offset p" if "p \<in> set ps" for p
    using that hp later(2) by (auto simp: later(1) new)
  then have free: "\<not> covers ps i" if "5 \<le> i" "i < s_offset s1" for i
    using that unfolding covers_def by fastforce
  have stamped: "scan_ewkb ([hd wkb] @ encode_u32 le (header_word ExtendedForm w OR 0x20000000) @ encode_u32 le srid
       @ drop 5 extended) mc md DmStrict =
     Inr (i\<lparr>ei_root := (ei_root i)\<lparr>em_srid := Some srid\<rparr>, ei_has_any_embedded_srid := True,
            ei_embedded_srid_count := 1\<rparr>, [])" if usize: "length wkb + 4 \<le> usize_max" for srid
  proof -
    define out where "out = [hd wkb] @ encode_u32 le (header_word ExtendedForm w OR 0x20000000)
        @ encode_u32 le srid @ drop 5 extended"
    have out_len: "length out = length wkb + 4" using len by (simp add: out_def)
    define pre where "pre = [hd wkb] @ encode_u32 le (header_word ExtendedForm w OR 0x20000000) @ encode_u32 le srid"
    have out_pre: "out = pre @ drop 5 extended" "length pre = 9" by (simp_all add: out_def pre_def)
    have out9: "drop (a + 4) out = drop a extended" if "5 \<le> a" for a
    proof -
      have "drop (a + 4) out = drop (a + 4 - 9) (drop 5 extended)"
        using that out_pre by simp
      also have "\<dots> = drop a extended" using that by simp
      finally show ?thesis .
    qed
    have nth9: "out ! (j + 4) = extended ! j" if "5 \<le> j" "j < length wkb" for j
    proof -
      have "drop (5 + 4) out ! (j - 5) = drop 5 extended ! (j - 5)" using out9 [of 5] by simp
      with that len out_len show ?thesis by (simp add: add.commute)
    qed
    have pf: "patched_from 4 wkb out ps 5"
      unfolding patched_from_def
      using out_len usize nth9 apply_patches_outside [OF ext] out9
        apply_patches_inside [OF ext scan_patches_ok [OF scan, THEN conjunct2]]
      by auto
    then have "agree 4 wkb out 5 (s_offset s1)"
      using free off unfolding patched_from_def agree_def by simp
    moreover have "out ! 0 = of_bool le" "decode_u32 le (take 4 (drop 1 out)) = header_word ExtendedForm w OR 0x20000000"
      "decode_u32 le (take 4 (drop 5 out)) = srid"
      using le len by (cases wkb; auto simp: out_def)+
    ultimately have g': "geometry (replay 0 False DmStrict out ?s) 1 =
        Inr (replay 4 True DmStrict out s1, children, header\<lparr>h_srid := Some srid\<rparr>)"
      using first out_len usize by simp
    let ?m = "metadata_of (header\<lparr>h_srid := Some srid\<rparr>)"
    have m: "?m = (metadata_of header)\<lparr>em_srid := Some srid\<rparr>" by (simp add: metadata_of_def)
    have bytes1: "s_bytes s1 = wkb" "s_dimension_mode s1 = ExtendedForm"
      using advancesD(1,2) [OF adv] by (simp_all add: scanner_new_def)
    have md: "s_max_depth (replay 4 True DmStrict out s1) = s_max_depth s1" by (simp add: replay_def)
    have final: "stamped_inspection True i = i\<lparr>ei_has_any_embedded_srid := True, ei_embedded_srid_count := 1\<rparr>"
      using count by (simp add: stamped_inspection_def)
    have "scan_loop (replay 0 False DmStrict out ?s) 1 [] None =
        Inr ((stamped_inspection True i)\<lparr>ei_root := ?m\<rparr>, []) \<and> ei_root i = metadata_of header"
    proof (cases "next_frame frames1")
      case None
      then have fin: "finish_scan s1 (Some (metadata_of header)) = Inr (i, ps)" using cont by simp
      then have "finish_scan (replay 4 True DmStrict out s1) (Some ?m) = Inr ((stamped_inspection True i)\<lparr>ei_root := ?m\<rparr>, [])"
        using out_len bytes1
        by (auto simp: finish_scan_Inr replay_def inspection_of_def stamped_inspection_def)
      with None g' push fin show ?thesis
        by (subst scan_loop.simps) (auto simp: md finish_scan_Inr inspection_of_def)
    next
      case (Some df)
      obtain depth1 frames2 where df: "df = (depth1, frames2)" by (cases df)
      have rest: "scan_loop s1 depth1 frames2 (Some (metadata_of header)) = Inr (i, ps)" using cont Some df by simp
      have old: "\<forall>p \<in> set (s_type_patches s1). tp_offset p + 4 \<le> s_offset s1"
        using advances_patches [OF adv] by (auto simp: scanner_new_def)
      have "scan_loop (replay 4 True DmStrict out s1) depth1 frames2 (Some (metadata_of header)) =
          Inr (stamped_inspection True i, [])"
        by (rule scan_loop_replay [OF rest _ old])
          (use patched_from_mono [OF pf off(1)] bytes1 no in auto)
      then have "scan_loop (replay 4 True DmStrict out s1) depth1 frames2 (Some ?m) =
          Inr ((stamped_inspection True i)\<lparr>ei_root := ?m\<rparr>, [])" by (rule scan_loop_root)
      moreover have "ei_root i = metadata_of header"
        using scan_loop_end [OF rest] by (auto simp: inspection_of_def)
      ultimately show ?thesis using Some df g' push by (subst scan_loop.simps) (simp add: md)
    qed
    moreover have "replay 0 False DmStrict out ?s = scanner_new out mc md DmStrict"
      by (simp add: replay_def scanner_new_def)
    moreover have "(stamped_inspection True i)\<lparr>ei_root := ?m\<rparr> =
        i\<lparr>ei_root := (ei_root i)\<lparr>em_srid := Some srid\<rparr>, ei_has_any_embedded_srid := True,
          ei_embedded_srid_count := 1\<rparr>" if "ei_root i = metadata_of header"
      using that m unfolding final by (cases i) simp
    ultimately show ?thesis
      using nz unfolding scan_ewkb_def out_def [symmetric] by simp
  qed
  show thesis by (rule that [OF len(1) le w flags(1) word root stamped])
qed

section \<open>Properties\<close>

text \<open>C36: stamping a root SRID never panics, its debug assertion included.  It refuses exactly the values
  the extended-form scan refuses and those that already embed an SRID anywhere, with a local mapping or
  resource error; otherwise the value grows by four bytes and is read back strictly, with the limits of
  the scan, as the same geometry with the given SRID on its root, embedded once.\<close>

theorem with_root_srid_reads_back:
  assumes "length wkb + 4 \<le> usize_max"
  shows "case with_root_srid wkb srid md of
      None \<Rightarrow> False
    | Some (Inl e) \<Rightarrow> ewkb_error e
        \<and> (\<forall>i ps. scan_ewkb wkb (- 1) md ExtendedForm = Inr (i, ps) \<longrightarrow> ei_has_any_embedded_srid i)
    | Some (Inr out) \<Rightarrow> length out = length wkb + 4
        \<and> (\<exists>i ps. scan_ewkb wkb (- 1) md ExtendedForm = Inr (i, ps) \<and> \<not> ei_has_any_embedded_srid i
             \<and> inspect_ewkb_detailed out (- 1) md =
                 Inr (i\<lparr>ei_root := (ei_root i)\<lparr>em_srid := Some srid\<rparr>, ei_has_any_embedded_srid := True,
                        ei_embedded_srid_count := 1\<rparr>))"
proof (cases "scan_ewkb wkb (- 1) md ExtendedForm")
  case (Inl e)
  then show ?thesis
    using fails_withD [OF fails_scan_loop]
    by (auto simp: with_root_srid_def scan_ewkb_def split: if_splits)
next
  case (Inr r)
  obtain i ps where r: "r = (i, ps)" by (cases r)
  with Inr have scan: "scan_ewkb wkb (- 1) md ExtendedForm = Inr (i, ps)" by simp
  show ?thesis
  proof (cases "ei_has_any_embedded_srid i")
    case True
    then show ?thesis using scan by (simp add: with_root_srid_def)
  next
    case False
    obtain extended where ext: "apply_patches wkb ps = Some extended"
      using apply_patches_total scan_patches_ok [OF scan] by blast
    obtain le w where len: "5 \<le> length wkb" and le: "wkb ! 0 = of_bool le"
      and w: "w = decode_u32 le (take 4 (drop 1 wkb))" "w AND 0x20000000 = 0"
      and root: "decode_u32 le (take 4 (drop 1 extended)) = header_word ExtendedForm w"
        "header_word ExtendedForm w AND 0x0fffffff = (w AND 0x0fffffff) mod 1000"
      and rescan: "\<And>srid. length wkb + 4 \<le> usize_max \<Longrightarrow>
         scan_ewkb ([hd wkb] @ encode_u32 le (header_word ExtendedForm w OR 0x20000000) @ encode_u32 le srid
           @ drop 5 extended) (- 1) md DmStrict =
         Inr (i\<lparr>ei_root := (ei_root i)\<lparr>em_srid := Some srid\<rparr>, ei_has_any_embedded_srid := True,
                ei_embedded_srid_count := 1\<rparr>, [])"
      using stamped_scan [OF scan False ext] by metis
    have head: "hd wkb = of_bool le" "(hd wkb = 1) = le" "wkb \<noteq> []" "length extended = length wkb"
      using le len apply_patches_length [OF ext] by (cases wkb; cases le; simp)+
    have "with_root_srid wkb srid md = stamp_root wkb extended le w srid"
      using scan False head len w ext by (simp add: with_root_srid_def Let_def)
    also have "\<dots> = Some (Inr ([hd wkb] @ encode_u32 le (header_word ExtendedForm w OR 0x20000000)
        @ encode_u32 le srid @ drop 5 extended))"
      using root head len by (simp add: stamp_root_def Let_def)
    finally show ?thesis
      using scan False rescan [OF assms, of srid] head len by (simp add: inspect_ewkb_detailed_def)
  qed
qed

text \<open>A flat point, little endian.\<close>

definition flat_point :: "u8 list" where
  "flat_point = [1, 1, 0, 0, 0] @ replicate 16 0"

lemma flat_point_scan:
  "\<exists>i. scan_ewkb flat_point (- 1) 3 ExtendedForm = Inr (i, []) \<and> \<not> ei_has_any_embedded_srid i"
proof -
  let ?s = "scanner_new flat_point (- 1) 3 ExtendedForm"
  let ?h = "\<lparr>h_base_type = 1, h_dimensions = 2, h_little_endian = True, h_has_z = False, h_has_m = False,
      h_srid = None\<rparr> :: ewkb_header"
  define s1 where "s1 = ?s\<lparr>s_observed_depth := 1, s_components := 1\<rparr>"
  define s2 where "s2 = s1\<lparr>s_offset := 5\<rparr>"
  define s4 where "s4 = s2\<lparr>s_components := 2, s_offset := 21\<rparr>"
  have at: "s_bytes s1 = flat_point" "s_offset s1 = 0" "length flat_point = 21" "flat_point ! 0 = 1"
    "take 4 (drop 1 flat_point) = [1, 0, 0, 0]" "21 \<le> usize_max"
    by (simp_all add: s1_def scanner_new_def flat_point_def usize_max_def)
  have 1: "add_components (?s\<lparr>s_observed_depth := max (s_observed_depth ?s) 1\<rparr>) 1 = Inr s1"
    by (simp add: add_components_def checked_add_def scanner_new_def s1_def)
  have "scan_header s1 = interpret_type s2 1 True (decode_u32 True [1, 0, 0, 0])"
    using scan_header_at [of s1 True] at by (simp add: s2_def)
  moreover have "decode_u32 True [1, 0, 0, 0] = 1" by (simp add: decode_u32_def)
  moreover have "iso_type 1 = (1, False, False)" by (rule base_type_bits) (simp add: word_le_nat_alt)
  ultimately have 2: "scan_header s1 = Inr (s2, ?h)"
    by (simp add: interpret_type_def push_patch_def s1_def s2_def scanner_new_def Let_def)
  have 3: "note_header s2 ?h = Inr s2"
    by (simp add: note_header_def s2_def s1_def scanner_new_def Let_def)
  have "take_bytes (s2\<lparr>s_components := 2\<rparr>) 16 = Inr (s4, take 16 (drop 5 flat_point))"
    using take_bytes_at [of "s2\<lparr>s_components := 2\<rparr>" 16] at by (simp add: s4_def s2_def)
  then have 4: "geometry_body s2 ?h = Inr (s4, 0)"
    by (simp add: geometry_body_def coordinates_def add_components_def checked_add_def checked_mul_def
        s2_def s1_def scanner_new_def)
  have "geometry ?s 1 = Inr (s4, 0, ?h)"
    using 1 2 3 4 by (simp add: geometry_def scanner_new_def)
  then show ?thesis
    by (simp add: scan_ewkb_def scan_loop.simps [of ?s] push_frame_def finish_scan_def metadata_of_def)
      (simp add: scanner_new_def at s4_def s2_def s1_def)
qed

theorem with_root_srid_reads_back_witness:
  "length flat_point + 4 \<le> usize_max \<and>
   (case with_root_srid flat_point 4326 3 of
      Some (Inr out) \<Rightarrow> length out = 25 \<and>
        (\<exists>i. inspect_ewkb_detailed out (- 1) 3 = Inr i \<and> em_srid (ei_root i) = Some 4326)
    | _ \<Rightarrow> False)"
proof -
  have len: "length flat_point + 4 \<le> usize_max" "length flat_point = 21"
    by (simp_all add: flat_point_def usize_max_def)
  from with_root_srid_reads_back [OF len(1), of 3 4326] flat_point_scan len show ?thesis
    by (auto split: option.splits sum.splits)
qed

end
