(* ===== verification/Resource.thy ===== *)
theory Resource
  imports Error_Model
begin

text \<open>
  Shared resource budgets and leases, \<open>plenora-database-core/src/resource.rs\<close>.  A budget is a set of
  atomic counters that several operations lease from and return to with compare-and-swap loops.  The
  functions model what one iteration of each loop decides; the step relation \<open>budget_step\<close>
  interleaves any number of threads at the granularity of the atomic loads and swaps, with swaps that
  fail spuriously (\<open>compare_exchange_weak\<close>).  The memory orderings of the source (acquire, release) on a
  single counter allow exactly these interleavings.  \<open>Instant\<close> arithmetic is a parameter of
  \<open>ensure_active\<close>.
\<close>

section \<open>Limits\<close>

datatype resource_kind =
  MemoryBytes | RkRows | RkColumns | GeometryComponents | ConcurrentOperations | OutputBytes | SpillBytes

record resource_limits =
  rl_memory_bytes :: u64
  rl_rows :: u64
  rl_columns :: u64
  rl_geometry_components :: u64
  rl_nesting_depth :: u64
  rl_concurrent_operations :: u64
  rl_output_bytes :: u64
  rl_duration_ms :: u64
  rl_spill_bytes :: u64
  rl_cell_bytes :: u64
  rl_decompression_ratio :: u64

definition default_resource_limits :: resource_limits where
  "default_resource_limits =
     \<lparr>rl_memory_bytes = 512 * 1024 * 1024, rl_rows = - 1, rl_columns = 65536,
      rl_geometry_components = 16777216, rl_nesting_depth = 64, rl_concurrent_operations = 64,
      rl_output_bytes = - 1, rl_duration_ms = 30000, rl_spill_bytes = 4 * 1024 * 1024 * 1024,
      rl_cell_bytes = 64 * 1024 * 1024, rl_decompression_ratio = 1000\<rparr>"

definition validate_resource_limits :: "resource_limits \<Rightarrow> unit result" where
  "validate_resource_limits l =
     (if rl_memory_bytes l = 0 \<or> rl_rows l = 0 \<or> rl_columns l = 0 \<or> rl_geometry_components l = 0
         \<or> rl_nesting_depth l = 0 \<or> rl_concurrent_operations l = 0 \<or> rl_output_bytes l = 0
         \<or> rl_duration_ms l = 0 \<or> rl_spill_bytes l = 0 \<or> rl_cell_bytes l = 0
         \<or> rl_decompression_ratio l = 0
      then Inl (invalid_plan ''i limiti di risorsa devono essere maggiori di zero'')
      else if rl_cell_bytes l > rl_memory_bytes l
      then Inl (invalid_plan ''cell_bytes supera il budget di memoria'')
      else Inr ())"

definition resource_limits_ok :: "resource_limits \<Rightarrow> bool" where
  "resource_limits_ok l \<longleftrightarrow> rl_cell_bytes l \<le> rl_memory_bytes l \<and>
     0 \<notin> {rl_memory_bytes l, rl_rows l, rl_columns l, rl_geometry_components l, rl_nesting_depth l,
       rl_concurrent_operations l, rl_output_bytes l, rl_duration_ms l, rl_spill_bytes l, rl_cell_bytes l,
       rl_decompression_ratio l}"

interpretation resource_limits_validator: validator validate_resource_limits resource_limits_ok
proof unfold_locales
  show "validate_resource_limits l = Inr () \<longleftrightarrow> resource_limits_ok l" for l
    by (auto simp: validate_resource_limits_def resource_limits_ok_def not_less)
  show "refuses_locally (validate_resource_limits l)" for l
    unfolding validate_resource_limits_def by (auto intro!: refusal_intros)
qed

fun maximum_for :: "resource_limits \<Rightarrow> resource_kind \<Rightarrow> u64" where
  "maximum_for l MemoryBytes = rl_memory_bytes l"
| "maximum_for l RkRows = rl_rows l"
| "maximum_for l RkColumns = rl_columns l"
| "maximum_for l GeometryComponents = rl_geometry_components l"
| "maximum_for l ConcurrentOperations = rl_concurrent_operations l"
| "maximum_for l OutputBytes = rl_output_bytes l"
| "maximum_for l SpillBytes = rl_spill_bytes l"

section \<open>Counters\<close>

record counters =
  c_memory_bytes :: u64
  c_rows :: u64
  c_columns :: u64
  c_geometry_components :: u64
  c_concurrent_operations :: u64
  c_output_bytes :: u64
  c_spill_bytes :: u64

definition counters_new :: "resource_limits \<Rightarrow> counters" where
  "counters_new l =
     \<lparr>c_memory_bytes = rl_memory_bytes l, c_rows = rl_rows l, c_columns = rl_columns l,
      c_geometry_components = rl_geometry_components l,
      c_concurrent_operations = rl_concurrent_operations l, c_output_bytes = rl_output_bytes l,
      c_spill_bytes = rl_spill_bytes l\<rparr>"

fun counter_get :: "counters \<Rightarrow> resource_kind \<Rightarrow> u64" where
  "counter_get c MemoryBytes = c_memory_bytes c"
| "counter_get c RkRows = c_rows c"
| "counter_get c RkColumns = c_columns c"
| "counter_get c GeometryComponents = c_geometry_components c"
| "counter_get c ConcurrentOperations = c_concurrent_operations c"
| "counter_get c OutputBytes = c_output_bytes c"
| "counter_get c SpillBytes = c_spill_bytes c"

fun counter_set :: "counters \<Rightarrow> resource_kind \<Rightarrow> u64 \<Rightarrow> counters" where
  "counter_set c MemoryBytes v = c\<lparr>c_memory_bytes := v\<rparr>"
| "counter_set c RkRows v = c\<lparr>c_rows := v\<rparr>"
| "counter_set c RkColumns v = c\<lparr>c_columns := v\<rparr>"
| "counter_set c GeometryComponents v = c\<lparr>c_geometry_components := v\<rparr>"
| "counter_set c ConcurrentOperations v = c\<lparr>c_concurrent_operations := v\<rparr>"
| "counter_set c OutputBytes v = c\<lparr>c_output_bytes := v\<rparr>"
| "counter_set c SpillBytes v = c\<lparr>c_spill_bytes := v\<rparr>"

text \<open>The contract of the counters, a finite map from kinds to numbers.\<close>

locale counter_map =
  fixes get :: "'c \<Rightarrow> 'k \<Rightarrow> u64" and put :: "'c \<Rightarrow> 'k \<Rightarrow> u64 \<Rightarrow> 'c"
  assumes get_set: "get (put c k v) k' = (if k' = k then v else get c k')"
begin

lemma get_set_same: "get (put c k v) k = v"
  by (simp add: get_set)

lemma get_set_other: "k' \<noteq> k \<Longrightarrow> get (put c k v) k' = get c k'"
  by (simp add: get_set)

end

interpretation budget_counters: counter_map counter_get counter_set
proof
  show "counter_get (counter_set c k v) k' = (if k' = k then v else counter_get c k')" for c k v k'
    by (cases k; cases k') simp_all
qed

definition ensure_active :: "bool \<Rightarrow> unit result" where
  "ensure_active expired =
     (if expired then Inl (resource_limit ''durata del budget di risorse esaurita'') else Inr ())"

text \<open>\<open>Instant::now().checked_add\<close> is outside the model: \<open>deadline\<close> is its result.\<close>

record 'i resource_budget =
  rb_limits :: resource_limits
  rb_counters :: counters
  rb_deadline :: 'i

definition budget_new :: "resource_limits \<Rightarrow> 'i option \<Rightarrow> 'i resource_budget result" where
  "budget_new l deadline =
     and_then (validate_resource_limits l) (\<lambda>_.
     and_then (ok_or deadline (invalid_plan ''deadline risorse oltre Instant'')) (\<lambda>at.
     Inr \<lparr>rb_limits = l, rb_counters = counters_new l, rb_deadline = at\<rparr>))"

section \<open>One iteration of the loops\<close>

definition lease_next :: "u64 \<Rightarrow> u64 \<Rightarrow> u64 result" where
  "lease_next current amount =
     ok_or (checked_sub current amount) (resource_limit ''budget di risorsa esaurito'')"

definition release_next :: "u64 \<Rightarrow> u64 \<Rightarrow> u64 \<Rightarrow> u64 result" where
  "release_next maximum current amount =
     and_then (ok_or (checked_add current amount)
       (resource_limit ''overflow durante la restituzione del budget'')) (\<lambda>next.
     if next > maximum then Inl (resource_limit ''restituzione superiore alla quota originaria'')
     else Inr next)"

record resource_lease =
  rs_kind :: resource_kind
  rs_amount :: u64

definition zero_lease_error :: database_error where
  "zero_lease_error = resource_limit ''una lease di risorsa deve essere maggiore di zero''"

definition invalid_use_error :: database_error where
  "invalid_use_error = resource_limit ''consumo non valido per la lease di risorsa''"

section \<open>The operations without contention\<close>

definition try_lease :: "counters \<Rightarrow> resource_kind \<Rightarrow> u64 \<Rightarrow> (counters \<times> resource_lease) result" where
  "try_lease c kind amount =
     (if amount = 0 then Inl zero_lease_error
      else and_then (lease_next (counter_get c kind) amount) (\<lambda>next.
           Inr (counter_set c kind next, \<lparr>rs_kind = kind, rs_amount = amount\<rparr>)))"

definition release_budget :: "resource_limits \<Rightarrow> counters \<Rightarrow> resource_kind \<Rightarrow> u64 \<Rightarrow> counters result" where
  "release_budget l c kind amount =
     and_then (release_next (maximum_for l kind) (counter_get c kind) amount) (\<lambda>next.
       Inr (counter_set c kind next))"

text \<open>\<open>Drop\<close>: a failed restitution is silent.\<close>

definition drop_lease :: "resource_limits \<Rightarrow> counters \<Rightarrow> resource_lease \<Rightarrow> counters" where
  "drop_lease l c lease =
     (case release_budget l c (rs_kind lease) (rs_amount lease) of Inl _ \<Rightarrow> c | Inr c' \<Rightarrow> c')"

text \<open>\<open>commit\<close> and \<open>release\<close> consume the lease: when they return an error, \<open>Drop\<close> still runs.\<close>

definition commit_lease :: "resource_limits \<Rightarrow> counters \<Rightarrow> resource_lease \<Rightarrow> u64 \<Rightarrow> unit result \<times> counters" where
  "commit_lease l c lease used =
     (if used = 0 \<or> used > rs_amount lease then (Inl invalid_use_error, drop_lease l c lease)
      else
        let unused = rs_amount lease - used
        in if unused > 0
           then (case release_budget l c (rs_kind lease) unused of
                   Inl e \<Rightarrow> (Inl e, drop_lease l c lease)
                 | Inr c' \<Rightarrow> (Inr (), c'))
           else (Inr (), c))"

definition release_lease :: "resource_limits \<Rightarrow> counters \<Rightarrow> resource_lease \<Rightarrow> unit result \<times> counters" where
  "release_lease l c lease =
     (case release_budget l c (rs_kind lease) (rs_amount lease) of
        Inl e \<Rightarrow> (Inl e, drop_lease l c lease)
      | Inr c' \<Rightarrow> (Inr (), c'))"

section \<open>Interleaving\<close>

datatype release_goal = ReleaseWhole | CommitUsed u64 | DropWhole

datatype phase = Idle | Leasing resource_kind u64 u64 | Releasing nat release_goal u64

datatype budget_event =
  Leased nat | Refused database_error | Returned nat | CommittedUse nat u64 | AccountingError database_error

record budget_state =
  bs_counters :: counters
  bs_leases :: "nat \<rightharpoonup> resource_lease"
  bs_phase :: "nat \<Rightarrow> phase"
  bs_consumed :: "resource_kind \<Rightarrow> nat"
  bs_events :: "budget_event list"

definition budget_init :: "resource_limits \<Rightarrow> budget_state" where
  "budget_init l =
     \<lparr>bs_counters = counters_new l, bs_leases = Map.empty, bs_phase = (\<lambda>_. Idle),
      bs_consumed = (\<lambda>_. 0), bs_events = []\<rparr>"

definition in_use :: "budget_state \<Rightarrow> nat \<Rightarrow> bool" where
  "in_use s lid \<longleftrightarrow> (\<exists>t goal cur. bs_phase s t = Releasing lid goal cur)"

fun goal_amount :: "resource_lease \<Rightarrow> release_goal \<Rightarrow> u64" where
  "goal_amount lease (CommitUsed used) = rs_amount lease - used"
| "goal_amount lease _ = rs_amount lease"

fun goal_event :: "nat \<Rightarrow> release_goal \<Rightarrow> budget_event" where
  "goal_event lid (CommitUsed used) = CommittedUse lid used"
| "goal_event lid _ = Returned lid"

fun goal_consumed :: "release_goal \<Rightarrow> nat" where
  "goal_consumed (CommitUsed used) = unat used"
| "goal_consumed _ = 0"

definition set_phase :: "budget_state \<Rightarrow> nat \<Rightarrow> phase \<Rightarrow> budget_state" where
  "set_phase s t p = s\<lparr>bs_phase := (bs_phase s)(t := p)\<rparr>"

definition log_event :: "budget_state \<Rightarrow> budget_event \<Rightarrow> budget_state" where
  "log_event s e = s\<lparr>bs_events := bs_events s @ [e]\<rparr>"

definition consume :: "budget_state \<Rightarrow> resource_kind \<Rightarrow> nat \<Rightarrow> budget_state" where
  "consume s k n = s\<lparr>bs_consumed := (bs_consumed s)(k := bs_consumed s k + n)\<rparr>"

definition end_lease :: "budget_state \<Rightarrow> nat \<Rightarrow> budget_state" where
  "end_lease s lid = s\<lparr>bs_leases := (bs_leases s)(lid := None)\<rparr>"

definition store :: "budget_state \<Rightarrow> resource_kind \<Rightarrow> u64 \<Rightarrow> budget_state" where
  "store s k v = s\<lparr>bs_counters := counter_set (bs_counters s) k v\<rparr>"

inductive budget_step :: "resource_limits \<Rightarrow> budget_state \<Rightarrow> budget_state \<Rightarrow> bool" for l where
  lease_zero:
    "bs_phase s t = Idle \<Longrightarrow> budget_step l s (log_event s (Refused zero_lease_error))"
| lease_load:
    "bs_phase s t = Idle \<Longrightarrow> amount \<noteq> 0 \<Longrightarrow>
     budget_step l s (set_phase s t (Leasing k amount (counter_get (bs_counters s) k)))"
| lease_refused:
    "bs_phase s t = Leasing k amount cur \<Longrightarrow> lease_next cur amount = Inl e \<Longrightarrow>
     budget_step l s (log_event (set_phase s t Idle) (Refused e))"
| lease_swap:
    "bs_phase s t = Leasing k amount cur \<Longrightarrow> lease_next cur amount = Inr next \<Longrightarrow>
     counter_get (bs_counters s) k = cur \<Longrightarrow> bs_leases s lid = None \<Longrightarrow>
     budget_step l s (log_event ((store (set_phase s t Idle) k next)
       \<lparr>bs_leases := (bs_leases s)(lid \<mapsto> \<lparr>rs_kind = k, rs_amount = amount\<rparr>)\<rparr>) (Leased lid))"
| lease_retry:
    "bs_phase s t = Leasing k amount cur \<Longrightarrow> lease_next cur amount = Inr next \<Longrightarrow>
     budget_step l s (set_phase s t (Leasing k amount (counter_get (bs_counters s) k)))"
| release_load:
    "bs_phase s t = Idle \<Longrightarrow> bs_leases s lid = Some lease \<Longrightarrow> \<not> in_use s lid \<Longrightarrow>
     goal = ReleaseWhole \<or> goal = DropWhole \<or> (\<exists>used. goal = CommitUsed used \<and> 0 < used \<and> used < rs_amount lease) \<Longrightarrow>
     budget_step l s (set_phase s t (Releasing lid goal (counter_get (bs_counters s) (rs_kind lease))))"
| commit_all:
    "bs_phase s t = Idle \<Longrightarrow> bs_leases s lid = Some lease \<Longrightarrow> \<not> in_use s lid \<Longrightarrow>
     budget_step l s (log_event (end_lease (consume s (rs_kind lease) (unat (rs_amount lease))) lid)
       (CommittedUse lid (rs_amount lease)))"
| commit_invalid:
    "bs_phase s t = Idle \<Longrightarrow> bs_leases s lid = Some lease \<Longrightarrow> \<not> in_use s lid \<Longrightarrow>
     used = 0 \<or> used > rs_amount lease \<Longrightarrow>
     budget_step l s (log_event (set_phase s t (Releasing lid DropWhole
       (counter_get (bs_counters s) (rs_kind lease)))) (Refused invalid_use_error))"
| release_fail:
    "bs_phase s t = Releasing lid goal cur \<Longrightarrow> bs_leases s lid = Some lease \<Longrightarrow>
     release_next (maximum_for l (rs_kind lease)) cur (goal_amount lease goal) = Inl e \<Longrightarrow>
     goal \<noteq> DropWhole \<Longrightarrow>
     budget_step l s (log_event (set_phase s t (Releasing lid DropWhole
       (counter_get (bs_counters s) (rs_kind lease)))) (AccountingError e))"
| drop_fail:
    "bs_phase s t = Releasing lid DropWhole cur \<Longrightarrow> bs_leases s lid = Some lease \<Longrightarrow>
     release_next (maximum_for l (rs_kind lease)) cur (rs_amount lease) = Inl e \<Longrightarrow>
     budget_step l s (log_event (end_lease (set_phase s t Idle) lid) (AccountingError e))"
| release_swap:
    "bs_phase s t = Releasing lid goal cur \<Longrightarrow> bs_leases s lid = Some lease \<Longrightarrow>
     release_next (maximum_for l (rs_kind lease)) cur (goal_amount lease goal) = Inr next \<Longrightarrow>
     counter_get (bs_counters s) (rs_kind lease) = cur \<Longrightarrow>
     budget_step l s (log_event (end_lease (consume (store (set_phase s t Idle) (rs_kind lease) next)
       (rs_kind lease) (goal_consumed goal)) lid) (goal_event lid goal))"
| release_retry:
    "bs_phase s t = Releasing lid goal cur \<Longrightarrow> bs_leases s lid = Some lease \<Longrightarrow>
     release_next (maximum_for l (rs_kind lease)) cur (goal_amount lease goal) = Inr next \<Longrightarrow>
     budget_step l s (set_phase s t (Releasing lid goal (counter_get (bs_counters s) (rs_kind lease))))"

definition budget_reachable :: "resource_limits \<Rightarrow> budget_state \<Rightarrow> bool" where
  "budget_reachable l s \<longleftrightarrow> (budget_step l)\<^sup>*\<^sup>* (budget_init l) s"

section \<open>Conservation\<close>

definition lease_share :: "resource_kind \<Rightarrow> resource_lease \<Rightarrow> nat" where
  "lease_share k lease = (if rs_kind lease = k then unat (rs_amount lease) else 0)"

definition outstanding :: "(nat \<rightharpoonup> resource_lease) \<Rightarrow> resource_kind \<Rightarrow> nat" where
  "outstanding leases k = (\<Sum>lid \<in> dom leases. lease_share k (the (leases lid)))"

definition conserved :: "resource_limits \<Rightarrow> budget_state \<Rightarrow> bool" where
  "conserved l s \<longleftrightarrow>
     finite (dom (bs_leases s)) \<and>
     (\<forall>k. unat (counter_get (bs_counters s) k) + outstanding (bs_leases s) k + bs_consumed s k = unat (maximum_for l k))"

fun goal_ok :: "resource_lease \<Rightarrow> release_goal \<Rightarrow> bool" where
  "goal_ok lease (CommitUsed used) \<longleftrightarrow> 0 < used \<and> used < rs_amount lease"
| "goal_ok lease _ \<longleftrightarrow> True"

text \<open>A thread that returns a lease owns it alone, and the value it loaded leaves room for it.\<close>

definition releasing_ok :: "resource_limits \<Rightarrow> budget_state \<Rightarrow> bool" where
  "releasing_ok l s \<longleftrightarrow>
     (\<forall>t lid goal cur. bs_phase s t = Releasing lid goal cur \<longrightarrow>
        (\<exists>lease. bs_leases s lid = Some lease \<and> goal_ok lease goal
           \<and> unat cur + unat (rs_amount lease) \<le> unat (maximum_for l (rs_kind lease)))) \<and>
     (\<forall>t t' lid goal goal' cur cur'. bs_phase s t = Releasing lid goal cur \<longrightarrow>
        bs_phase s t' = Releasing lid goal' cur' \<longrightarrow> t = t')"

definition no_accounting_error :: "budget_state \<Rightarrow> bool" where
  "no_accounting_error s \<longleftrightarrow> (\<forall>e. AccountingError e \<notin> set (bs_events s))"

definition budget_inv :: "resource_limits \<Rightarrow> budget_state \<Rightarrow> bool" where
  "budget_inv l s \<longleftrightarrow> conserved l s \<and> releasing_ok l s \<and> no_accounting_error s"

lemmas state_defs = set_phase_def log_event_def consume_def end_lease_def store_def

lemma outstanding_fresh:
  assumes "finite (dom leases)" "leases lid = None"
  shows "outstanding (leases(lid \<mapsto> lease)) k = lease_share k lease + outstanding leases k"
proof -
  have "lid \<notin> dom leases" using assms(2) by auto
  moreover have "(\<Sum>i \<in> dom leases. lease_share k (the ((leases(lid \<mapsto> lease)) i))) =
                 (\<Sum>i \<in> dom leases. lease_share k (the (leases i)))"
    using assms(2) by (intro sum.cong) auto
  ultimately show ?thesis
    using assms(1) by (simp add: outstanding_def)
qed

lemma outstanding_end:
  assumes "finite (dom leases)" "leases lid = Some lease"
  shows "outstanding leases k = lease_share k lease + outstanding (leases(lid := None)) k"
proof -
  have "leases = (leases(lid := None))(lid \<mapsto> lease)" using assms(2) by auto
  moreover have "finite (dom (leases(lid := None)))" using assms(1) by simp
  ultimately show ?thesis using outstanding_fresh [of "leases(lid := None)" lid lease k] by simp
qed

lemma lease_next_Inr:
  "lease_next cur amount = Inr next \<longleftrightarrow> unat next + unat amount = unat cur"
proof -
  have "unat (cur - amount) = unat cur - unat amount" if "amount \<le> cur"
    using that by (rule unat_sub)
  then show ?thesis
    by (auto simp: lease_next_def checked_sub_def ok_or_def word_le_nat_alt word_unat_eq_iff split: if_splits)
qed

lemma release_next_Inr:
  "release_next maximum cur amount = Inr next \<longleftrightarrow>
     unat next = unat cur + unat amount \<and> unat next \<le> unat maximum"
proof (cases "checked_add cur amount")
  case None
  then have "unat next \<noteq> unat cur + unat amount" by (metis checked_add_iff option.discI)
  with None show ?thesis by (simp add: release_next_def ok_or_def result_simps)
next
  case (Some sum)
  then show ?thesis
    by (auto simp: release_next_def ok_or_def result_simps word_less_nat_alt word_unat_eq_iff
          dest: checked_add_unat)
qed

lemma uint64_bound: "unat (w :: u64) < 2 ^ 64"
  using unsigned_less [of w] by simp

lemma release_next_fits:
  assumes "unat cur + unat amount \<le> unat maximum"
  shows "release_next maximum cur amount = Inr (cur + amount)"
proof -
  have "unat cur + unat amount < 2 ^ 64"
    using assms uint64_bound [of maximum] by linarith
  then have "unat (cur + amount) = unat cur + unat amount"
    by (subst unat_word_ariths) simp
  then show ?thesis using assms by (simp add: release_next_Inr)
qed

lemma counter_set_same [simp]: "counter_set c k (counter_get c k) = c"
  by (cases k) simp_all

lemma counter_set_twice [simp]: "counter_set (counter_set c k v) k w = counter_set c k w"
  by (cases k) simp_all

lemma conserved_bound:
  assumes "conserved l s" "bs_leases s lid = Some lease"
  shows "unat (counter_get (bs_counters s) (rs_kind lease)) + unat (rs_amount lease)
           \<le> unat (maximum_for l (rs_kind lease))"
proof -
  have "unat (counter_get (bs_counters s) (rs_kind lease)) + outstanding (bs_leases s) (rs_kind lease)
          \<le> unat (maximum_for l (rs_kind lease))"
    using assms(1) unfolding conserved_def by (metis le_add1)
  moreover have "unat (rs_amount lease) \<le> outstanding (bs_leases s) (rs_kind lease)"
    using assms outstanding_end [of "bs_leases s" lid lease "rs_kind lease"]
    by (simp add: conserved_def lease_share_def)
  ultimately show ?thesis by linarith
qed

lemma conserved_open:
  assumes "conserved l s" "bs_leases s lid = None" "lease_next (counter_get (bs_counters s) k) amount = Inr next"
    and "bs_counters s' = counter_set (bs_counters s) k next" "bs_consumed s' = bs_consumed s"
    and "bs_leases s' = (bs_leases s)(lid \<mapsto> \<lparr>rs_kind = k, rs_amount = amount\<rparr>)"
  shows "conserved l s'"
proof -
  have inv: "finite (dom (bs_leases s))"
    "unat (counter_get (bs_counters s) j) + outstanding (bs_leases s) j + bs_consumed s j = unat (maximum_for l j)" for j
    using assms(1) by (simp_all add: conserved_def)
  have "unat next + unat amount = unat (counter_get (bs_counters s) k)"
    using assms(3) by (simp add: lease_next_Inr)
  then have "unat (if j = k then next else counter_get (bs_counters s) j)
      + (lease_share j \<lparr>rs_kind = k, rs_amount = amount\<rparr> + outstanding (bs_leases s) j) + bs_consumed s j
      = unat (maximum_for l j)" for j
    using inv(2) [of j] by (auto simp: lease_share_def)
  with inv(1) show ?thesis
    unfolding conserved_def assms(4-6) budget_counters.get_set outstanding_fresh [OF inv(1) assms(2)] by simp
qed

lemma conserved_close:
  assumes "conserved l s" "bs_leases s lid = Some lease"
    and "unat next + n = unat (counter_get (bs_counters s) (rs_kind lease)) + unat (rs_amount lease)"
    and "bs_counters s' = counter_set (bs_counters s) (rs_kind lease) next"
    and "bs_consumed s' = (bs_consumed s)(rs_kind lease := bs_consumed s (rs_kind lease) + n)"
    and "bs_leases s' = (bs_leases s)(lid := None)"
  shows "conserved l s'"
proof -
  have fin: "finite (dom (bs_leases s))" using assms(1) by (simp add: conserved_def)
  have "unat (counter_get (bs_counters s) j) + (lease_share j lease + outstanding (bs_leases s') j)
          + bs_consumed s j = unat (maximum_for l j)" for j
    using assms(1) outstanding_end [OF fin assms(2), of j] unfolding conserved_def assms(6) by metis
  then have "unat (if j = rs_kind lease then next else counter_get (bs_counters s) j)
      + outstanding (bs_leases s') j + bs_consumed s' j = unat (maximum_for l j)" for j
    using assms(3,5) by (auto simp: lease_share_def dest: meta_spec [of _ j])
  with fin show ?thesis
    unfolding conserved_def assms(4) budget_counters.get_set by (simp add: assms(6))
qed

lemma conserved_frame:
  assumes "conserved l s" "bs_counters s' = bs_counters s" "bs_leases s' = bs_leases s" "bs_consumed s' = bs_consumed s"
  shows "conserved l s'"
  using assms by (simp add: conserved_def)

lemma releasing_ok_frame:
  assumes "releasing_ok l s" "bs_leases s' = bs_leases s" "bs_phase s' = (bs_phase s)(t := p)"
    and "\<And>lid goal cur. p = Releasing lid goal cur \<Longrightarrow>
      (\<exists>lease. bs_leases s lid = Some lease \<and> goal_ok lease goal
         \<and> unat cur + unat (rs_amount lease) \<le> unat (maximum_for l (rs_kind lease)))
      \<and> (\<forall>t' goal' cur'. bs_phase s t' = Releasing lid goal' cur' \<longrightarrow> t' = t)"
  shows "releasing_ok l s'"
  using assms unfolding releasing_ok_def by (auto split: if_splits)

lemma releasing_ok_open:
  assumes "releasing_ok l s" "bs_leases s lid = None" "bs_leases s' = (bs_leases s)(lid \<mapsto> lease)"
    and "bs_phase s' = (bs_phase s)(t := Idle)"
  shows "releasing_ok l s'"
  using assms unfolding releasing_ok_def by (auto split: if_splits) (metis option.distinct(1))+

lemma releasing_ok_close:
  assumes "releasing_ok l s" "bs_leases s' = (bs_leases s)(lid := None)"
    and "bs_phase s' = (bs_phase s)(t := Idle)"
    and "\<And>t' goal cur. bs_phase s t' = Releasing lid goal cur \<Longrightarrow> t' = t"
  shows "releasing_ok l s'"
  using assms unfolding releasing_ok_def by (auto split: if_splits)

lemma release_succeeds:
  assumes "releasing_ok l s" "bs_phase s t = Releasing lid goal cur" "bs_leases s lid = Some lease"
  shows "\<exists>next. release_next (maximum_for l (rs_kind lease)) cur (goal_amount lease goal) = Inr next
           \<and> unat next + goal_consumed goal = unat cur + unat (rs_amount lease)"
proof -
  from assms have ok: "goal_ok lease goal" and
    room: "unat cur + unat (rs_amount lease) \<le> unat (maximum_for l (rs_kind lease))"
    unfolding releasing_ok_def by (metis option.inject)+
  have amount: "unat (goal_amount lease goal) + goal_consumed goal = unat (rs_amount lease)"
    using ok by (cases goal) (auto simp: unat_sub word_less_nat_alt word_le_nat_alt)
  with room have "unat cur + unat (goal_amount lease goal) \<le> unat (maximum_for l (rs_kind lease))" by linarith
  from release_next_fits [OF this] show ?thesis
    using amount by (auto simp: release_next_Inr)
qed

lemma releasing_unique:
  "releasing_ok l s \<Longrightarrow> bs_phase s t = Releasing lid goal cur \<Longrightarrow>
   bs_phase s t' = Releasing lid goal' cur' \<Longrightarrow> t' = t"
  unfolding releasing_ok_def by blast

lemma releasing_ok_reload:
  assumes "conserved l s" "releasing_ok l s" "bs_leases s lid = Some lease" "goal_ok lease goal"
    and "\<And>t' goal' cur'. bs_phase s t' = Releasing lid goal' cur' \<Longrightarrow> t' = t"
    and "bs_leases s' = bs_leases s"
    and "bs_phase s' = (bs_phase s)(t := Releasing lid goal (counter_get (bs_counters s) (rs_kind lease)))"
  shows "releasing_ok l s'"
  by (rule releasing_ok_frame [OF assms(2,6,7)]) (use assms(3-5) conserved_bound [OF assms(1,3)] in auto)

text \<open>What the steps do, in four shapes; \<open>quiet\<close> events report no accounting error.\<close>

definition quiet_after :: "budget_state \<Rightarrow> budget_state \<Rightarrow> bool" where
  "quiet_after s s' \<longleftrightarrow> (\<forall>e. AccountingError e \<in> set (bs_events s') \<longrightarrow> AccountingError e \<in> set (bs_events s))"

lemma budget_inv_releasing: "budget_inv l s \<Longrightarrow> releasing_ok l s"
  by (simp add: budget_inv_def)

lemma budget_inv_phase:
  assumes "budget_inv l s" "quiet_after s s'" "bs_counters s' = bs_counters s" "bs_leases s' = bs_leases s"
    and "bs_consumed s' = bs_consumed s" "bs_phase s' = (bs_phase s)(t := p)"
    and "\<And>lid goal cur. p \<noteq> Releasing lid goal cur"
  shows "budget_inv l s'"
  using assms conserved_frame [of l s s'] releasing_ok_frame [of l s s' t p]
  by (auto simp: budget_inv_def quiet_after_def no_accounting_error_def)

lemma budget_inv_reload:
  assumes "budget_inv l s" "quiet_after s s'" "bs_counters s' = bs_counters s" "bs_leases s' = bs_leases s"
    and "bs_consumed s' = bs_consumed s" "bs_leases s lid = Some lease" "goal_ok lease goal"
    and "\<And>t' goal' cur'. bs_phase s t' = Releasing lid goal' cur' \<Longrightarrow> t' = t"
    and "bs_phase s' = (bs_phase s)(t := Releasing lid goal (counter_get (bs_counters s) (rs_kind lease)))"
  shows "budget_inv l s'"
proof -
  have "conserved l s" "releasing_ok l s" using assms(1) by (simp_all add: budget_inv_def)
  from releasing_ok_reload [OF this assms(6,7,8,4,9)] conserved_frame [OF this(1) assms(3-5)]
  show ?thesis using assms(1,2) by (auto simp: budget_inv_def quiet_after_def no_accounting_error_def)
qed

lemma budget_inv_open:
  assumes "budget_inv l s" "quiet_after s s'" "bs_leases s lid = None"
    and "lease_next (counter_get (bs_counters s) k) amount = Inr next"
    and "bs_counters s' = counter_set (bs_counters s) k next" "bs_consumed s' = bs_consumed s"
    and "bs_leases s' = (bs_leases s)(lid \<mapsto> \<lparr>rs_kind = k, rs_amount = amount\<rparr>)"
    and "bs_phase s' = (bs_phase s)(t := Idle)"
  shows "budget_inv l s'"
proof -
  have "conserved l s" "releasing_ok l s" using assms(1) by (simp_all add: budget_inv_def)
  from conserved_open [OF this(1) assms(3-7)] releasing_ok_open [OF this(2) assms(3,7,8)]
  show ?thesis using assms(1,2) by (auto simp: budget_inv_def quiet_after_def no_accounting_error_def)
qed

lemma budget_inv_close:
  assumes "budget_inv l s" "quiet_after s s'" "bs_leases s lid = Some lease"
    and "unat next + n = unat (counter_get (bs_counters s) (rs_kind lease)) + unat (rs_amount lease)"
    and "bs_counters s' = counter_set (bs_counters s) (rs_kind lease) next"
    and "bs_consumed s' = (bs_consumed s)(rs_kind lease := bs_consumed s (rs_kind lease) + n)"
    and "bs_leases s' = (bs_leases s)(lid := None)" "bs_phase s' = (bs_phase s)(t := Idle)"
    and "\<And>t' goal cur. bs_phase s t' = Releasing lid goal cur \<Longrightarrow> t' = t"
  shows "budget_inv l s'"
proof -
  have "conserved l s" "releasing_ok l s" using assms(1) by (simp_all add: budget_inv_def)
  from conserved_close [OF this(1) assms(3-7)] releasing_ok_close [OF this(2) assms(7-9)]
  show ?thesis using assms(1,2) by (auto simp: budget_inv_def quiet_after_def no_accounting_error_def)
qed

lemma release_never_fails:
  assumes "budget_inv l s" "bs_phase s t = Releasing lid goal cur" "bs_leases s lid = Some lease"
  shows "release_next (maximum_for l (rs_kind lease)) cur (goal_amount lease goal) \<noteq> Inl e"
  using release_succeeds [OF budget_inv_releasing [OF assms(1)] assms(2,3)] by auto

lemma budget_step_release_swap:
  assumes inv: "budget_inv l s" and ph: "bs_phase s t = Releasing lid goal (counter_get (bs_counters s) (rs_kind lease))"
    and lease: "bs_leases s lid = Some lease"
    and nx: "release_next (maximum_for l (rs_kind lease)) (counter_get (bs_counters s) (rs_kind lease))
               (goal_amount lease goal) = Inr next"
  shows "budget_inv l (log_event (end_lease (consume (store (set_phase s t Idle) (rs_kind lease) next)
           (rs_kind lease) (goal_consumed goal)) lid) (goal_event lid goal))"
proof (rule budget_inv_close [OF inv _ lease, where t = t])
  show "unat next + goal_consumed goal = unat (counter_get (bs_counters s) (rs_kind lease)) + unat (rs_amount lease)"
    using release_succeeds [OF budget_inv_releasing [OF inv] ph lease] nx by auto
  show "t' = t" if "bs_phase s t' = Releasing lid goal' cur'" for t' goal' cur'
    using releasing_unique [OF budget_inv_releasing [OF inv] ph that] .
qed (cases goal; simp add: state_defs quiet_after_def)+

lemma budget_step_release_retry:
  assumes inv: "budget_inv l s" and ph: "bs_phase s t = Releasing lid goal cur" and lease: "bs_leases s lid = Some lease"
  shows "budget_inv l (set_phase s t (Releasing lid goal (counter_get (bs_counters s) (rs_kind lease))))"
proof (rule budget_inv_reload [OF inv _ _ _ _ lease])
  show "goal_ok lease goal"
    using inv ph lease unfolding budget_inv_def releasing_ok_def by (metis option.inject)
  show "t' = t" if "bs_phase s t' = Releasing lid goal' cur'" for t' goal' cur'
    using releasing_unique [OF budget_inv_releasing [OF inv] ph that] .
qed (simp_all add: state_defs quiet_after_def)

lemma budget_step_inv:
  assumes "budget_step l s s'" and inv: "budget_inv l s"
  shows "budget_inv l s'"
  using assms(1)
proof cases
  case (lease_zero t)
  then show ?thesis
    by (intro budget_inv_phase [OF inv, of _ t Idle]) (auto simp: state_defs quiet_after_def)
next
  case (lease_load t amount k)
  then show ?thesis
    by (intro budget_inv_phase [OF inv, of _ t]) (auto simp: state_defs quiet_after_def)
next
  case (lease_refused t k amount cur e)
  then show ?thesis
    by (intro budget_inv_phase [OF inv, of _ t Idle]) (auto simp: state_defs quiet_after_def)
next
  case (lease_swap t k amount cur "next" lid)
  then show ?thesis
    by (intro budget_inv_open [OF inv, of _ lid k amount "next" t]) (auto simp: state_defs quiet_after_def)
next
  case (lease_retry t k amount cur "next")
  then show ?thesis
    by (intro budget_inv_phase [OF inv, of _ t]) (auto simp: state_defs quiet_after_def)
next
  case (release_load t lid lease goal)
  then show ?thesis
    by (intro budget_inv_reload [OF inv, of _ lid lease goal t]) (auto simp: state_defs quiet_after_def in_use_def)
next
  case (commit_all t lid lease)
  then show ?thesis
    by (intro budget_inv_close [OF inv, of _ lid lease "counter_get (bs_counters s) (rs_kind lease)" _ t])
       (auto simp: state_defs quiet_after_def in_use_def)
next
  case (commit_invalid t lid lease used)
  then show ?thesis
    by (intro budget_inv_reload [OF inv, of _ lid lease DropWhole t]) (auto simp: state_defs quiet_after_def in_use_def)
next
  case (release_fail t lid goal cur lease e)
  then show ?thesis using release_never_fails [OF inv release_fail(2,3)] by simp
next
  case (drop_fail t lid cur lease e)
  then show ?thesis using release_never_fails [OF inv drop_fail(2,3), of e] by simp
next
  case (release_swap t lid goal cur lease "next")
  then show ?thesis using budget_step_release_swap [OF inv] by simp
next
  case (release_retry t lid goal cur lease "next")
  then show ?thesis using budget_step_release_retry [OF inv] by simp
qed

lemma counters_new_get [simp]: "counter_get (counters_new l) k = maximum_for l k"
  by (cases k) (simp_all add: counters_new_def)

lemma budget_init_inv: "budget_inv l (budget_init l)"
  by (simp add: budget_inv_def budget_init_def conserved_def outstanding_def releasing_ok_def no_accounting_error_def)

lemma budget_reachable_inv: "budget_reachable l s \<Longrightarrow> budget_inv l s"
  unfolding budget_reachable_def
  by (induction rule: rtranclp_induct) (auto intro: budget_init_inv budget_step_inv)

lemma releasing_thread_finishes:
  assumes "budget_inv l s" "bs_phase s t = Releasing lid goal cur"
  shows "\<exists>s1 s2. budget_step l s s1 \<and> budget_step l s1 s2 \<and> bs_phase s2 t = Idle \<and> bs_leases s2 lid = None"
proof -
  obtain lease where lease: "bs_leases s lid = Some lease"
    using budget_inv_releasing [OF assms(1)] assms(2) unfolding releasing_ok_def by blast
  let ?c = "counter_get (bs_counters s) (rs_kind lease)"
  let ?s1 = "set_phase s t (Releasing lid goal ?c)"
  obtain n where "release_next (maximum_for l (rs_kind lease)) cur (goal_amount lease goal) = Inr n"
    using release_succeeds [OF budget_inv_releasing [OF assms(1)] assms(2) lease] by blast
  from budget_step.release_retry [where l = l, OF assms(2) lease this] have s1: "budget_step l s ?s1" .
  have ph: "bs_phase ?s1 t = Releasing lid goal ?c" and lease1: "bs_leases ?s1 lid = Some lease"
    and c1: "counter_get (bs_counters ?s1) (rs_kind lease) = ?c"
    using lease by (simp_all add: set_phase_def)
  obtain m where m: "release_next (maximum_for l (rs_kind lease)) ?c (goal_amount lease goal) = Inr m"
    using release_succeeds [OF budget_inv_releasing [OF budget_step_inv [OF s1 assms(1)]] ph lease1] by blast
  show ?thesis
    by (rule exI [of _ ?s1], rule exI, intro conjI, rule s1,
        rule budget_step.release_swap [where l = l, OF ph lease1 m c1]) (simp_all add: state_defs)
qed

section \<open>Properties\<close>

text \<open>C17: however the threads that lease, release, commit and drop are interleaved, and however often
  their weak compare-and-swaps fail, in every reachable state and for every kind of resource the
  remaining budget, what live leases hold and what was committed add up to the configured limit; so the
  budget is never oversubscribed and never grows past its limit, and no release, commit or drop ever
  meets the overflow or excess error of the accounting.\<close>

theorem budget_conserved:
  assumes "budget_reachable l s"
  shows "unat (counter_get (bs_counters s) k) + outstanding (bs_leases s) k + bs_consumed s k
           = unat (maximum_for l k)
         \<and> AccountingError e \<notin> set (bs_events s)"
  using budget_reachable_inv [OF assms]
  by (simp add: budget_inv_def conserved_def no_accounting_error_def)

text \<open>A state two steps away from the start: thread 0 leased ten rows.\<close>

definition demo_leasing :: budget_state where
  "demo_leasing = set_phase (budget_init default_resource_limits) 0 (Leasing RkRows 10 (- 1))"

definition demo_leased :: budget_state where
  "demo_leased = log_event ((store (set_phase demo_leasing 0 Idle) RkRows (- 11))
     \<lparr>bs_leases := (bs_leases demo_leasing)(7 \<mapsto> \<lparr>rs_kind = RkRows, rs_amount = 10\<rparr>)\<rparr>) (Leased 7)"

lemma demo_leased_reachable: "budget_reachable default_resource_limits demo_leased"
proof -
  have "budget_step default_resource_limits (budget_init default_resource_limits) demo_leasing"
    using budget_step.lease_load [of "budget_init default_resource_limits" 0 10 default_resource_limits RkRows]
    by (simp add: demo_leasing_def budget_init_def default_resource_limits_def counters_new_def)
  moreover have "budget_step default_resource_limits demo_leasing demo_leased"
    using budget_step.lease_swap [of demo_leasing 0 RkRows 10 "- 1" "- 11" 7 default_resource_limits]
    by (simp add: demo_leased_def demo_leasing_def budget_init_def state_defs default_resource_limits_def
          counters_new_def lease_next_def checked_sub_def ok_or_def)
  ultimately show ?thesis
    unfolding budget_reachable_def by (meson converse_rtranclp_into_rtranclp rtranclp.rtrancl_refl)
qed

theorem budget_conserved_witness:
  "unat (counter_get (bs_counters demo_leased) RkRows) + outstanding (bs_leases demo_leased) RkRows
     + bs_consumed demo_leased RkRows = unat (rl_rows default_resource_limits)
   \<and> AccountingError zero_lease_error \<notin> set (bs_events demo_leased)"
  using budget_conserved [OF demo_leased_reachable, of RkRows zero_lease_error] by simp

text \<open>C29: no thread that returns budget can be stuck: in a reachable state, a thread inside the release
  loop finishes it in two steps of its own whenever it runs undisturbed, and its lease is then gone.\<close>

theorem release_loop_finishes:
  assumes "budget_reachable l s" "bs_phase s t = Releasing lid goal cur"
  shows "\<exists>s1 s2. budget_step l s s1 \<and> budget_step l s1 s2 \<and> bs_phase s2 t = Idle \<and> bs_leases s2 lid = None"
  using releasing_thread_finishes [OF budget_reachable_inv [OF assms(1)] assms(2)] .

definition demo_releasing :: budget_state where
  "demo_releasing = set_phase demo_leased 1 (Releasing 7 ReleaseWhole (- 11))"

lemma demo_releasing_reachable: "budget_reachable default_resource_limits demo_releasing"
proof -
  have "budget_step default_resource_limits demo_leased demo_releasing"
    using budget_step.release_load [of demo_leased 1 7 "\<lparr>rs_kind = RkRows, rs_amount = 10\<rparr>" ReleaseWhole
            default_resource_limits]
    by (simp add: demo_releasing_def demo_leased_def demo_leasing_def budget_init_def state_defs in_use_def)
  with demo_leased_reachable show ?thesis
    unfolding budget_reachable_def by (rule rtranclp.rtrancl_into_rtrancl)
qed

theorem release_loop_finishes_witness:
  "\<exists>s1 s2. budget_step default_resource_limits demo_releasing s1 \<and> budget_step default_resource_limits s1 s2
     \<and> bs_phase s2 1 = Idle \<and> bs_leases s2 7 = None"
  by (rule release_loop_finishes [OF demo_releasing_reachable, of 1 7 ReleaseWhole "- 11"])
     (simp add: demo_releasing_def set_phase_def)

text \<open>The life of one lease.  Leasing refuses a zero amount and an amount over what remains, and
  otherwise takes exactly that amount; giving the lease back, dropping it, or committing an impossible
  use restores the counters as they were; committing a use in range keeps exactly that use away and
  returns the rest.\<close>

lemma lease_lifecycle:
  assumes "unat (counter_get c k) \<le> unat (maximum_for l k)"
  shows "case try_lease c k amount of
           Inl e \<Rightarrow> amount = 0 \<and> e = zero_lease_error \<or>
                    unat (counter_get c k) < unat amount \<and> e = resource_limit ''budget di risorsa esaurito''
         | Inr (c', lease) \<Rightarrow>
             amount \<noteq> 0 \<and> unat (counter_get c' k) + unat amount = unat (counter_get c k)
             \<and> release_lease l c' lease = (Inr (), c) \<and> drop_lease l c' lease = c
             \<and> (\<forall>used. commit_lease l c' lease used =
                   (if used = 0 \<or> used > amount then (Inl invalid_use_error, c)
                    else (Inr (), counter_set c k (counter_get c k - used))))"
proof (cases "try_lease c k amount")
  case (Inl e)
  then show ?thesis
    by (auto simp: try_lease_def lease_next_def checked_sub_def ok_or_def result_simps word_less_nat_alt
          not_le word_le_nat_alt split: if_splits)
next
  case (Inr r)
  obtain c' lease where r: "r = (c', lease)" by (cases r)
  from Inr r have *: "amount \<noteq> 0" "amount \<le> counter_get c k" "c' = counter_set c k (counter_get c k - amount)"
    "lease = \<lparr>rs_kind = k, rs_amount = amount\<rparr>"
    by (auto simp: try_lease_def lease_next_def checked_sub_def ok_or_def result_simps split: if_splits)
  have restored: "release_budget l c' k a = Inr (counter_set c k (counter_get c k - amount + a))" if "a \<le> amount" for a
  proof -
    have "unat (counter_get c k - amount) + unat a \<le> unat (maximum_for l k)"
      using that * assms by (simp add: unat_sub word_le_nat_alt)
    from release_next_fits [OF this] show ?thesis
      by (simp add: release_budget_def * budget_counters.get_set result_simps)
  qed
  have whole: "release_lease l c' lease = (Inr (), c)" "drop_lease l c' lease = c"
    by (simp_all add: release_lease_def drop_lease_def *(4) restored)
  have "commit_lease l c' lease used = (Inr (), counter_set c k (counter_get c k - used))"
    if "used \<noteq> 0" "\<not> used > amount" for used
  proof (cases "used = amount")
    case True
    then show ?thesis using that by (simp add: commit_lease_def *(3,4))
  next
    case False
    with that have "0 < amount - used" "amount - used \<le> amount"
      by (simp_all add: word_gt_0 word_sub_le not_less)
    then show ?thesis using that by (simp add: commit_lease_def *(4) restored)
  qed
  then have "commit_lease l c' lease used = (if used = 0 \<or> used > amount then (Inl invalid_use_error, c)
      else (Inr (), counter_set c k (counter_get c k - used)))" for used
    using whole by (auto simp: commit_lease_def *(4))
  moreover have "unat (counter_get c' k) + unat amount = unat (counter_get c k)"
    using *(2) by (simp add: *(3) budget_counters.get_set unat_sub word_le_nat_alt)
  ultimately show ?thesis using *(1) whole by (simp add: Inr r)
qed

end
