(* ===== verification/Cancel_Tokens.thy ===== *)
theory Cancel_Tokens
  imports Error_Model
begin

text \<open>
  Cooperative cancellation with deadlines, \<open>plenora-database-core/src/cancellation.rs\<close>.  Tokens are the
  \<open>Inner\<close> allocations of the source, named by numbers; \<open>w_inner\<close> is the store that all handles share.
  \<open>Weak\<close> references are the same numbers, and \<open>upgrade\<close> succeeds while \<open>in_strong\<close> holds.  A waiter is
  owned by one \<open>Cancelled\<close> future, alive until it is dropped.  A waker is a number, and waking an entry
  records it in \<open>w_woken\<close>; that a waker panics is contained by the source and has no effect here.  The
  clock is \<open>w_now\<close>, a natural number; whether the worker thread can be spawned is an argument.

  The functions model whole operations; \<open>cancel_step\<close> interleaves any number of threads at the
  granularity of the atomic accesses and the sections under a mutex.
\<close>

section \<open>Reasons, tokens, futures\<close>

type_synonym instant = nat
type_synonym token = nat
type_synonym u8 = "8 word"

fun reason_code :: "cancellation_reason \<Rightarrow> u8" where
  "reason_code Requested = 1"
| "reason_code Deadline = 2"
| "reason_code Parent = 3"

definition from_code :: "u8 \<Rightarrow> cancellation_reason option" where
  "from_code c = (if c = 1 then Some Requested else if c = 2 then Some Deadline
                  else if c = 3 then Some Parent else None)"

text \<open>The reason a token passes on to its children.\<close>

fun inherited :: "cancellation_reason \<Rightarrow> cancellation_reason" where
  "inherited Deadline = Deadline"
| "inherited Requested = Parent"
| "inherited Parent = Parent"

record waiter_entry =
  we_owner :: nat
  we_waker :: nat

record inner =
  in_reason :: u8
  in_deadline :: "instant option"
  in_waiters :: "waiter_entry list"
  in_children :: "token list"
  in_strong :: bool

record cancelled_future =
  cf_token :: token
  cf_registered :: bool
  cf_arm_attempts :: nat
  cf_alive :: bool

record world =
  w_inner :: "token \<Rightarrow> inner"
  w_next :: token
  w_future :: "nat \<Rightarrow> cancelled_future"
  w_queue :: "(instant \<times> token) list"
  w_worker :: bool
  w_now :: instant
  w_woken :: "waiter_entry list"

definition set_inner :: "world \<Rightarrow> token \<Rightarrow> inner \<Rightarrow> world" where
  "set_inner w t i = w\<lparr>w_inner := (w_inner w)(t := i)\<rparr>"

definition set_future :: "world \<Rightarrow> nat \<Rightarrow> cancelled_future \<Rightarrow> world" where
  "set_future w f c = w\<lparr>w_future := (w_future w)(f := c)\<rparr>"

definition expired :: "world \<Rightarrow> instant option \<Rightarrow> bool" where
  "expired w d = (case d of None \<Rightarrow> False | Some at \<Rightarrow> at \<le> w_now w)"

definition token_reason :: "world \<Rightarrow> token \<Rightarrow> cancellation_reason option" where
  "token_reason w t =
     (case from_code (in_reason (w_inner w t)) of
        Some r \<Rightarrow> Some r
      | None \<Rightarrow> (if expired w (in_deadline (w_inner w t)) then Some Deadline else None))"

definition is_cancelled :: "world \<Rightarrow> token \<Rightarrow> bool" where
  "is_cancelled w t \<longleftrightarrow> token_reason w t \<noteq> None"

section \<open>The deadline scheduler\<close>

definition compaction_threshold :: nat where "compaction_threshold = 1024"

text \<open>The binary heap is a list; the worker picks an entry with the earliest instant.\<close>

definition entry_useful :: "world \<Rightarrow> instant \<times> token \<Rightarrow> bool" where
  "entry_useful w e \<longleftrightarrow> in_strong (w_inner w (snd e)) \<and> in_reason (w_inner w (snd e)) = 0"

definition ensure_worker :: "bool \<Rightarrow> world \<Rightarrow> bool \<times> world" where
  "ensure_worker spawn_ok w =
     (if w_worker w then (True, w)
      else if spawn_ok then (True, w\<lparr>w_worker := True\<rparr>)
      else (False, w))"

definition schedule :: "bool \<Rightarrow> instant \<Rightarrow> token \<Rightarrow> world \<Rightarrow> world" where
  "schedule spawn_ok at t w =
     (let pending = w_queue w;
          pending = (if length pending \<ge> compaction_threshold then filter (entry_useful w) pending else pending)
      in snd (ensure_worker spawn_ok (w\<lparr>w_queue := (at, t) # pending\<rparr>)))"

text \<open>What the worker pops: the entry with the earliest instant, once that instant has come.\<close>

fun earliest :: "(instant \<times> token) list \<Rightarrow> (instant \<times> token) option" where
  "earliest [] = None"
| "earliest (e # es) = (case earliest es of None \<Rightarrow> Some e | Some e' \<Rightarrow> if fst e \<le> fst e' then Some e else Some e')"

definition pop_expired :: "world \<Rightarrow> ((instant \<times> token) \<times> world) option" where
  "pop_expired w =
     (case earliest (w_queue w) of
        None \<Rightarrow> None
      | Some e \<Rightarrow> if fst e \<le> w_now w then Some (e, w\<lparr>w_queue := remove1 e (w_queue w)\<rparr>) else None)"

section \<open>Propagation\<close>

definition try_cancel :: "cancellation_reason \<Rightarrow> token \<Rightarrow> world \<Rightarrow> bool \<times> world" where
  "try_cancel r t w =
     (if in_reason (w_inner w t) = 0
      then (True, set_inner w t ((w_inner w t)\<lparr>in_reason := reason_code r\<rparr>))
      else (False, w))"

definition take_waiters :: "token \<Rightarrow> world \<Rightarrow> waiter_entry list \<times> world" where
  "take_waiters t w = (in_waiters (w_inner w t), set_inner w t ((w_inner w t)\<lparr>in_waiters := []\<rparr>))"

definition wake_waiter :: "waiter_entry \<Rightarrow> world \<Rightarrow> world" where
  "wake_waiter e w =
     (if cf_alive (w_future w (we_owner e)) then w\<lparr>w_woken := e # w_woken w\<rparr> else w)"

definition live_children :: "token \<Rightarrow> world \<Rightarrow> token list" where
  "live_children t w = filter (\<lambda>c. in_strong (w_inner w c)) (in_children (w_inner w t))"

definition take_children :: "token \<Rightarrow> world \<Rightarrow> token list \<times> world" where
  "take_children t w =
     (live_children t w, set_inner w t ((w_inner w t)\<lparr>in_children := live_children t w\<rparr>))"

text \<open>The work list is a stack with its top at the head; \<open>extend\<close> pushes the children in order.\<close>

definition push_children :: "token list \<Rightarrow> cancellation_reason \<Rightarrow> (token \<times> cancellation_reason) list
    \<Rightarrow> (token \<times> cancellation_reason) list" where
  "push_children cs r pending = rev (map (\<lambda>c. (c, inherited r)) cs) @ pending"

definition uncancelled :: "world \<Rightarrow> nat" where
  "uncancelled w = length (filter (\<lambda>t. in_reason (w_inner w t) = 0) [0..<w_next w])"

text \<open>What happens to one token whose compare-and-swap succeeds: the waiters are taken and woken, and the
  live children are read.\<close>

definition visit :: "cancellation_reason \<Rightarrow> token \<Rightarrow> world \<Rightarrow> token list \<times> world" where
  "visit r t w =
     (let w = snd (try_cancel r t w);
          (waiters, w) = take_waiters t w;
          w = fold wake_waiter waiters w
      in take_children t w)"

lemma wake_waiter_simps [simp]:
  "w_inner (wake_waiter e w) = w_inner w" "w_next (wake_waiter e w) = w_next w"
  "w_future (wake_waiter e w) = w_future w" "w_queue (wake_waiter e w) = w_queue w"
  "w_now (wake_waiter e w) = w_now w" "w_worker (wake_waiter e w) = w_worker w"
  by (simp_all add: wake_waiter_def)

lemma fold_wake_simps [simp]:
  "w_inner (fold wake_waiter es w) = w_inner w" "w_next (fold wake_waiter es w) = w_next w"
  "w_future (fold wake_waiter es w) = w_future w" "w_queue (fold wake_waiter es w) = w_queue w"
  "w_now (fold wake_waiter es w) = w_now w" "w_worker (fold wake_waiter es w) = w_worker w"
  by (induction es arbitrary: w) simp_all

lemma reason_code_nonzero [simp]: "reason_code r \<noteq> 0" "0 \<noteq> reason_code r"
  by (cases r; simp)+

lemma filter_shrinks:
  "x \<in> set xs \<Longrightarrow> P x \<Longrightarrow> \<not> Q x \<Longrightarrow> (\<And>y. Q y \<Longrightarrow> P y) \<Longrightarrow> length (filter Q xs) < length (filter P xs)"
proof (induction xs)
  case (Cons a xs)
  have "length (filter Q xs) \<le> length (filter P xs)"
    using Cons.prems(4) by (induction xs) auto
  with Cons show ?case by (auto simp: less_Suc_eq_le)
qed simp

definition visited :: "cancellation_reason \<Rightarrow> token \<Rightarrow> world \<Rightarrow> inner" where
  "visited r t w = (w_inner w t)\<lparr>in_reason := reason_code r, in_waiters := [], in_children := live_children t w\<rparr>"

lemma split_at_point: "(\<lambda>c. (c = t \<longrightarrow> P t) \<and> (c \<noteq> t \<longrightarrow> P c)) = P"
  by auto

lemma visit_simps:
  assumes "in_reason (w_inner w t) = 0"
  shows "fst (visit r t w) = live_children t w"
    and "w_inner (snd (visit r t w)) = (w_inner w)(t := visited r t w)"
    and "w_next (snd (visit r t w)) = w_next w" "w_future (snd (visit r t w)) = w_future w"
    and "w_queue (snd (visit r t w)) = w_queue w" "w_now (snd (visit r t w)) = w_now w"
    and "w_worker (snd (visit r t w)) = w_worker w"
  using assms
  by (auto simp: visit_def try_cancel_def take_waiters_def take_children_def set_inner_def live_children_def
        visited_def Let_def split_at_point [where P = "\<lambda>c. in_strong (w_inner w c)"] cong: if_cong)

lemma set_fold_wake:
  "set (w_woken (fold wake_waiter es w)) =
     {e \<in> set es. cf_alive (w_future w (we_owner e))} \<union> set (w_woken w)"
  by (induction es arbitrary: w) (auto simp: wake_waiter_def)

lemma visit_woken:
  assumes "in_reason (w_inner w t) = 0"
  shows "set (w_woken (snd (visit r t w))) =
     {e \<in> set (in_waiters (w_inner w t)). cf_alive (w_future w (we_owner e))} \<union> set (w_woken w)"
  using assms
  by (auto simp: visit_def try_cancel_def take_waiters_def take_children_def set_inner_def Let_def set_fold_wake)

text \<open>Every entry of the work list is a strong reference, hence an allocated token: the source never
  sees another one and the model skips it.\<close>

function cancel_tree :: "(token \<times> cancellation_reason) list \<Rightarrow> world \<Rightarrow> world" where
  "cancel_tree [] w = w"
| "cancel_tree ((t, r) # pending) w =
     (if t \<ge> w_next w then cancel_tree pending w
      else if in_reason (w_inner w t) \<noteq> 0 then cancel_tree pending w
      else let (children, w) = visit r t w
           in cancel_tree (push_children children r pending) w)"
  by pat_completeness auto

termination cancel_tree
proof (relation "measures [\<lambda>(p, w). uncancelled w, \<lambda>(p, w). length p]")
  fix t r pending w x children w'
  assume *: "\<not> w_next w \<le> t" "\<not> in_reason (w_inner w t) \<noteq> 0" "x = visit r t w" "(children, w') = x"
  then have "w' = snd (visit r t w)" by (metis snd_conv)
  with * have "uncancelled w' < uncancelled w"
    unfolding uncancelled_def by (auto simp: visit_simps visited_def intro!: filter_shrinks [of t])
  then show "((push_children children r pending, w'), (t, r) # pending, w)
      \<in> measures [\<lambda>(p, w). uncancelled w, \<lambda>(p, w). length p]" by simp
qed (auto simp: uncancelled_def)

section \<open>Operations on tokens\<close>

definition fresh_inner :: "instant option \<Rightarrow> inner" where
  "fresh_inner d = \<lparr>in_reason = 0, in_deadline = d, in_waiters = [], in_children = [], in_strong = True\<rparr>"

definition new_inner :: "bool \<Rightarrow> instant option \<Rightarrow> world \<Rightarrow> token \<times> world" where
  "new_inner spawn_ok d w =
     (let t = w_next w;
          w = (set_inner w t (fresh_inner d))\<lparr>w_next := Suc t\<rparr>
      in case d of
           None \<Rightarrow> (t, w)
         | Some at \<Rightarrow> (t, if at > w_now w then schedule spawn_ok at t w else w))"

definition cancel :: "token \<Rightarrow> world \<Rightarrow> world" where
  "cancel t w = cancel_tree [(t, Requested)] w"

definition cancel_due_to_deadline :: "token \<Rightarrow> world \<Rightarrow> world" where
  "cancel_due_to_deadline t w = cancel_tree [(t, Deadline)] w"

text \<open>One turn of the worker: the earliest entry, when its instant has come, cancels its token if the
  token still exists.\<close>

definition worker_turn :: "world \<Rightarrow> world" where
  "worker_turn w =
     (case pop_expired w of
        None \<Rightarrow> w
      | Some (e, w) \<Rightarrow> if in_strong (w_inner w (snd e)) then cancel_tree [(snd e, Deadline)] w else w)"

definition merge_deadline :: "instant option \<Rightarrow> instant option \<Rightarrow> instant option" where
  "merge_deadline parent child =
     (case (parent, child) of
        (Some p, Some c) \<Rightarrow> Some (min p c)
      | (Some p, None) \<Rightarrow> Some p
      | (None, c) \<Rightarrow> c)"

definition push_child :: "token \<Rightarrow> token \<Rightarrow> world \<Rightarrow> world" where
  "push_child p c w = set_inner w p ((w_inner w p)\<lparr>in_children := live_children p w @ [c]\<rparr>)"

text \<open>The check that follows the registration of a child.\<close>

definition check_parent :: "token \<Rightarrow> token \<Rightarrow> world \<Rightarrow> world" where
  "check_parent c p w =
     (case token_reason w p of None \<Rightarrow> w | Some r \<Rightarrow> cancel_tree [(c, inherited r)] w)"

definition child_token_with_deadline :: "bool \<Rightarrow> token \<Rightarrow> instant option \<Rightarrow> world \<Rightarrow> token \<times> world" where
  "child_token_with_deadline spawn_ok p d w =
     (let (c, w) = new_inner spawn_ok (merge_deadline (in_deadline (w_inner w p)) d) w
      in (c, check_parent c p (push_child p c w)))"

definition child_token :: "bool \<Rightarrow> token \<Rightarrow> world \<Rightarrow> token \<times> world" where
  "child_token spawn_ok p w = child_token_with_deadline spawn_ok p (in_deadline (w_inner w p)) w"

definition linked_deadline :: "token list \<Rightarrow> world \<Rightarrow> instant option" where
  "linked_deadline ps w =
     (case List.map_filter (\<lambda>p. in_deadline (w_inner w p)) ps of [] \<Rightarrow> None | d # ds \<Rightarrow> Some (fold min ds d))"

definition linked :: "bool \<Rightarrow> token list \<Rightarrow> world \<Rightarrow> token \<times> world" where
  "linked spawn_ok ps w =
     (let (c, w) = new_inner spawn_ok (linked_deadline ps w) w;
          w = fold (\<lambda>p. push_child p c) ps w
      in (c, fold (check_parent c) ps w))"

text \<open>The last handle of a token goes away.\<close>

definition drop_token :: "token \<Rightarrow> world \<Rightarrow> world" where
  "drop_token t w = set_inner w t ((w_inner w t)\<lparr>in_strong := False\<rparr>)"

section \<open>Waiting\<close>

definition max_arm_attempts :: nat where "max_arm_attempts = 8"

definition token_cancelled :: "nat \<Rightarrow> token \<Rightarrow> world \<Rightarrow> world" where
  "token_cancelled f t w =
     set_future w f \<lparr>cf_token = t, cf_registered = False, cf_arm_attempts = 0, cf_alive = True\<rparr>"

definition set_waiters :: "token \<Rightarrow> waiter_entry list \<Rightarrow> world \<Rightarrow> world" where
  "set_waiters t es w = set_inner w t ((w_inner w t)\<lparr>in_waiters := es\<rparr>)"

definition remove_waiter :: "nat \<Rightarrow> world \<Rightarrow> world" where
  "remove_waiter f w =
     (let t = cf_token (w_future w f)
      in set_waiters t (filter (\<lambda>e. cf_alive (w_future w (we_owner e)) \<and> we_owner e \<noteq> f)
           (in_waiters (w_inner w t))) w)"

fun update_waiter :: "nat \<Rightarrow> nat \<Rightarrow> waiter_entry list \<Rightarrow> waiter_entry list" where
  "update_waiter f k [] = [\<lparr>we_owner = f, we_waker = k\<rparr>]"
| "update_waiter f k (e # es) =
     (if we_owner e = f then e\<lparr>we_waker := k\<rparr> # es else e # update_waiter f k es)"

text \<open>The section of \<open>poll\<close> under the lock of the waiters.\<close>

definition register_waiter :: "nat \<Rightarrow> nat \<Rightarrow> world \<Rightarrow> world" where
  "register_waiter f k w =
     (let t = cf_token (w_future w f);
          es = filter (\<lambda>e. cf_alive (w_future w (we_owner e))) (in_waiters (w_inner w t));
          w = set_waiters t (update_waiter f k es) w
      in set_future w f ((w_future w f)\<lparr>cf_registered := True\<rparr>))"

text \<open>The attempt of \<open>poll\<close> to have a worker, with whether it must ask for another poll.\<close>

definition arm_worker :: "bool \<Rightarrow> nat \<Rightarrow> world \<Rightarrow> bool \<times> world" where
  "arm_worker spawn_ok f w =
     (let c = w_future w f; d = in_deadline (w_inner w (cf_token c))
      in if cf_arm_attempts c < max_arm_attempts \<and> d \<noteq> None \<and> \<not> expired w d
         then let w = set_future w f (c\<lparr>cf_arm_attempts := Suc (cf_arm_attempts c)\<rparr>);
                  (armed, w) = ensure_worker spawn_ok w
              in (\<not> armed, w)
         else (False, w))"

definition finish_poll :: "bool \<Rightarrow> nat \<Rightarrow> nat \<Rightarrow> world \<Rightarrow> cancellation_reason option \<times> world" where
  "finish_poll retry f k w =
     (case token_reason w (cf_token (w_future w f)) of
        Some r \<Rightarrow>
          let w = remove_waiter f w
          in (Some r, set_future w f ((w_future w f)\<lparr>cf_registered := False\<rparr>))
      | None \<Rightarrow> (None, if retry then w\<lparr>w_woken := \<lparr>we_owner = f, we_waker = k\<rparr> # w_woken w\<rparr> else w))"

definition poll_cancelled :: "bool \<Rightarrow> nat \<Rightarrow> nat \<Rightarrow> world \<Rightarrow> cancellation_reason option \<times> world" where
  "poll_cancelled spawn_ok f k w =
     (case token_reason w (cf_token (w_future w f)) of
        Some r \<Rightarrow> (Some r, w)
      | None \<Rightarrow>
          let w = register_waiter f k w;
              (retry, w) = arm_worker spawn_ok f w
          in finish_poll retry f k w)"

definition drop_cancelled :: "nat \<Rightarrow> world \<Rightarrow> world" where
  "drop_cancelled f w =
     (let w = (if cf_registered (w_future w f) then remove_waiter f w else w)
      in set_future w f ((w_future w f)\<lparr>cf_alive := False\<rparr>))"

end
