(* ===== verification/Cancel_Proofs.thy ===== *)
theory Cancel_Proofs
  imports Cancel_Tokens
begin

text \<open>
  What one call of \<open>cancel_tree\<close> does, and what any interleaving of the operations of
  \<open>cancellation.rs\<close> preserves: a cancellation is never lost between a parent and a child that registers at
  the same time, nor between a token and a future that registers its waker at the same time; the first
  cause is final; a tree closed by a deadline is never blamed on a parent; an armed deadline stays queued.
\<close>

section \<open>One propagation\<close>

lemma from_code_reason [simp]: "from_code (reason_code r) = Some r"
  by (cases r) (simp_all add: from_code_def)

lemma reason_code_inj [simp]: "reason_code r = reason_code r' \<longleftrightarrow> r = r'"
  by (metis from_code_reason option.inject)

lemma inherited_idem [simp]: "inherited (inherited r) = inherited r"
  by (cases r) simp_all

abbreviation stored :: "world \<Rightarrow> token \<Rightarrow> u8" where
  "stored w t \<equiv> in_reason (w_inner w t)"

definition children_known :: "world \<Rightarrow> bool" where
  "children_known w \<longleftrightarrow> (\<forall>t. \<forall>c \<in> set (in_children (w_inner w t)). c < w_next w)"

text \<open>Every live registered child of a cancelled token is cancelled, or waits in the work list.\<close>

definition owed_to :: "token set \<Rightarrow> world \<Rightarrow> bool" where
  "owed_to T w \<longleftrightarrow>
     (\<forall>p c. stored w p \<noteq> 0 \<longrightarrow> c \<in> set (in_children (w_inner w p)) \<longrightarrow> in_strong (w_inner w c) \<longrightarrow>
        stored w c = 0 \<longrightarrow> c \<in> T)"

abbreviation propagated :: "world \<Rightarrow> bool" where
  "propagated \<equiv> owed_to {}"

lemma cancel_tree_step:
  "stored w t = 0 \<Longrightarrow> t < w_next w \<Longrightarrow>
   cancel_tree ((t, r) # pending) w =
     cancel_tree (push_children (live_children t w) r pending) (snd (visit r t w))"
  by (cases "visit r t w") (use visit_simps(1) [of w t r] in simp)

declare cancel_tree.simps(2) [simp del]

lemma cancel_tree_skip:
  "t \<ge> w_next w \<or> stored w t \<noteq> 0 \<Longrightarrow> cancel_tree ((t, r) # pending) w = cancel_tree pending w"
  by (auto simp: cancel_tree.simps(2))

lemma push_children_tokens [simp]: "fst ` set (push_children cs r pending) = set cs \<union> fst ` set pending"
  by (simp add: push_children_def image_Un image_image)

lemma known_child: "children_known w \<Longrightarrow> c \<in> set (in_children (w_inner w t)) \<Longrightarrow> c < w_next w"
  by (auto simp: children_known_def)

text \<open>The induction that follows the work list.\<close>

lemma cancel_tree_induct [case_names empty skip visit]:
  assumes "\<And>w. P [] w"
    and "\<And>t r pending w. t \<ge> w_next w \<or> stored w t \<noteq> 0 \<Longrightarrow> P pending w \<Longrightarrow> P ((t, r) # pending) w"
    and "\<And>t r pending w. t < w_next w \<Longrightarrow> stored w t = 0 \<Longrightarrow>
      P (push_children (live_children t w) r pending) (snd (visit r t w)) \<Longrightarrow> P ((t, r) # pending) w"
  shows "P pending w"
proof (induction pending w rule: cancel_tree.induct)
  case (2 t r pending w)
  show ?case
  proof (cases "t \<ge> w_next w \<or> stored w t \<noteq> 0")
    case True
    then show ?thesis using 2 assms(2) by blast
  next
    case False
    then have "P (push_children (live_children t w) r pending) (snd (visit r t w))"
      using 2(3) [OF _ _ refl] visit_simps(1) [of w t r] by (cases "visit r t w") auto
    with False show ?thesis using assms(3) by (meson not_le)
  qed
qed (rule assms(1))

lemma cancel_tree_frame:
  "w_next (cancel_tree p w) = w_next w \<and> w_future (cancel_tree p w) = w_future w
   \<and> w_queue (cancel_tree p w) = w_queue w \<and> w_now (cancel_tree p w) = w_now w
   \<and> in_strong (w_inner (cancel_tree p w) t) = in_strong (w_inner w t)
   \<and> in_deadline (w_inner (cancel_tree p w) t) = in_deadline (w_inner w t)"
  by (induction p w rule: cancel_tree_induct)
     (simp_all add: cancel_tree_skip cancel_tree_step visit_simps visited_def)

lemma cancel_tree_final: "stored w t \<noteq> 0 \<Longrightarrow> w_inner (cancel_tree p w) t = w_inner w t"
proof (induction p w rule: cancel_tree_induct)
  case (visit t' r pending w)
  then have "t \<noteq> t'" by auto
  with visit show ?case by (simp add: cancel_tree_step visit_simps)
qed (simp_all add: cancel_tree_skip)

lemma cancel_tree_keeps_woken: "set (w_woken w) \<subseteq> set (w_woken (cancel_tree p w))"
  by (induction p w rule: cancel_tree_induct)
     (auto simp: cancel_tree_skip cancel_tree_step visit_woken)

lemma cancel_tree_reaches: "(t, r) \<in> set p \<Longrightarrow> t < w_next w \<Longrightarrow> stored (cancel_tree p w) t \<noteq> 0"
proof (induction p w rule: cancel_tree_induct)
  case (visit t' r' pending w)
  have "stored (cancel_tree (push_children (live_children t' w) r' pending) (snd (visit r' t' w))) t' \<noteq> 0"
    by (subst cancel_tree_final) (simp_all add: visit_simps visit visited_def)
  with visit show ?case by (auto simp: cancel_tree_step visit_simps push_children_def)
qed (auto simp: cancel_tree_skip cancel_tree_final)

lemma cancel_tree_blames:
  "stored w t = 0 \<Longrightarrow> stored (cancel_tree p w) t \<noteq> 0 \<Longrightarrow>
   \<exists>(t', r) \<in> set p. t' = t \<and> stored (cancel_tree p w) t = reason_code r
      \<or> stored (cancel_tree p w) t = reason_code (inherited r)"
proof (induction p w rule: cancel_tree_induct)
  case (visit t' r' pending w)
  show ?case
  proof (cases "t' = t")
    case True
    have "stored (cancel_tree (push_children (live_children t' w) r' pending) (snd (visit r' t' w))) t = reason_code r'"
      by (subst cancel_tree_final) (simp_all add: visit_simps visit visited_def True)
    with True visit show ?thesis by (simp add: cancel_tree_step)
  next
    case False
    with visit show ?thesis
      by (fastforce simp: cancel_tree_step visit_simps push_children_def)
  qed
qed (auto simp: cancel_tree_skip)

lemma cancel_tree_wakes:
  "stored w t = 0 \<Longrightarrow> stored (cancel_tree p w) t \<noteq> 0 \<Longrightarrow> e \<in> set (in_waiters (w_inner w t)) \<Longrightarrow>
   cf_alive (w_future w (we_owner e)) \<Longrightarrow> e \<in> set (w_woken (cancel_tree p w))"
proof (induction p w rule: cancel_tree_induct)
  case (visit t' r' pending w)
  then show ?case
    using cancel_tree_keeps_woken [of "snd (visit r' t' w)" "push_children (live_children t' w) r' pending"]
    by (cases "t' = t") (auto simp: cancel_tree_step visit_simps visit_woken)
qed (auto simp: cancel_tree_skip)

lemma visit_known: "children_known w \<Longrightarrow> stored w t = 0 \<Longrightarrow> children_known (snd (visit r t w))"
  by (auto simp: children_known_def visit_simps visited_def live_children_def)

lemma visit_owed:
  assumes "stored w t = 0" "owed_to (fst ` set ((t, r) # pending)) w"
  shows "owed_to (fst ` set (push_children (live_children t w) r pending)) (snd (visit r t w))"
  using assms unfolding owed_to_def push_children_tokens
  by (simp add: visit_simps visited_def live_children_def image_iff) blast

lemma cancel_tree_propagates:
  "children_known w \<Longrightarrow> owed_to (fst ` set p) w \<Longrightarrow> fst ` set p \<subseteq> {..<w_next w} \<Longrightarrow>
   propagated (cancel_tree p w) \<and> children_known (cancel_tree p w)"
proof (induction p w rule: cancel_tree_induct)
  case (skip t r pending w)
  then have "owed_to (fst ` set pending) w" by (auto simp: owed_to_def)
  with skip show ?case by (simp add: cancel_tree_skip)
next
  case (visit t r pending w)
  have "fst ` set (push_children (live_children t w) r pending) \<subseteq> {..<w_next w}"
    using visit(4,6) unfolding push_children_tokens by (auto simp: live_children_def dest: known_child)
  with visit.IH [OF visit_known [OF visit.prems(1) visit.hyps(2)] visit_owed [OF visit.hyps(2) visit.prems(2)]]
  show ?case by (simp add: cancel_tree_step visit.hyps visit_simps)
qed (simp_all add: owed_to_def)

declare reason_code.simps [simp del]

section \<open>Interleaving\<close>

text \<open>Where a thread stands: in the loop of \<open>cancel_tree\<close> (with the child and the parents it still has to
  check afterwards), in the registration of a child with its parents, or in \<open>poll\<close>.\<close>

datatype cancel_phase =
  CIdle
| Popping "(token \<times> cancellation_reason) list" token "token list"
| TakingWaiters token cancellation_reason "(token \<times> cancellation_reason) list" token "token list"
| Waking token cancellation_reason "waiter_entry list" "(token \<times> cancellation_reason) list" token "token list"
| TakingChildren token cancellation_reason "(token \<times> cancellation_reason) list" token "token list"
| Pushing token "token list" "token list"
| Checking token "token list"
| Registering nat nat
| Arming nat nat
| Rechecking nat nat bool

datatype future_status =
  NotCreated | Created | PollingBy nat | Suspended nat | Finished cancellation_reason | Gone

record cancel_state =
  cs_world :: world
  cs_phase :: "nat \<Rightarrow> cancel_phase"
  cs_status :: "nat \<Rightarrow> future_status"

definition move_to :: "nat \<Rightarrow> cancel_phase \<Rightarrow> world \<Rightarrow> cancel_state \<Rightarrow> cancel_state" where
  "move_to th ph w s = s\<lparr>cs_world := w, cs_phase := (cs_phase s)(th := ph)\<rparr>"

definition set_status :: "nat \<Rightarrow> future_status \<Rightarrow> cancel_state \<Rightarrow> cancel_state" where
  "set_status f st s = s\<lparr>cs_status := (cs_status s)(f := st)\<rparr>"

definition pollable :: "future_status \<Rightarrow> bool" where
  "pollable st \<longleftrightarrow> st = Created \<or> (\<exists>k. st = Suspended k)"

definition forget_wakes :: "nat \<Rightarrow> world \<Rightarrow> world" where
  "forget_wakes f w = w\<lparr>w_woken := filter (\<lambda>e. we_owner e \<noteq> f) (w_woken w)\<rparr>"

text \<open>A token may be dropped at any moment, also where the source still holds a handle: a superset of
  what can happen.\<close>

inductive cancel_step :: "cancel_state \<Rightarrow> cancel_state \<Rightarrow> bool" where
  tick: "w_now w \<le> n \<Longrightarrow> w = cs_world s \<Longrightarrow> cancel_step s (s\<lparr>cs_world := w\<lparr>w_now := n\<rparr>\<rparr>)"
| create: "cs_phase s th = CIdle \<Longrightarrow> new_inner ok d (cs_world s) = (c, w) \<Longrightarrow>
    cancel_step s (move_to th CIdle w s)"
| start_cancel: "cs_phase s th = CIdle \<Longrightarrow> r = Requested \<or> r = Deadline \<Longrightarrow>
    t < w_next (cs_world s) \<Longrightarrow> cancel_step s (move_to th (Popping [(t, r)] t []) (cs_world s) s)"
| worker_fire: "cs_phase s th = CIdle \<Longrightarrow> pop_expired (cs_world s) = Some (e, w) \<Longrightarrow>
    in_strong (w_inner w (snd e)) \<Longrightarrow>
    cancel_step s (move_to th (Popping [(snd e, Deadline)] (snd e) []) w s)"
| worker_discard: "cs_phase s th = CIdle \<Longrightarrow> pop_expired (cs_world s) = Some (e, w) \<Longrightarrow>
    \<not> in_strong (w_inner w (snd e)) \<Longrightarrow> cancel_step s (move_to th CIdle w s)"
| pop_lost: "cs_phase s th = Popping ((t, r) # pending) c ps \<Longrightarrow>
    try_cancel r t (cs_world s) = (False, w) \<Longrightarrow> cancel_step s (move_to th (Popping pending c ps) w s)"
| pop_won: "cs_phase s th = Popping ((t, r) # pending) c ps \<Longrightarrow>
    try_cancel r t (cs_world s) = (True, w) \<Longrightarrow> cancel_step s (move_to th (TakingWaiters t r pending c ps) w s)"
| pop_done: "cs_phase s th = Popping [] c ps \<Longrightarrow> cancel_step s (move_to th (Checking c ps) (cs_world s) s)"
| take_waiters: "cs_phase s th = TakingWaiters t r pending c ps \<Longrightarrow>
    take_waiters t (cs_world s) = (es, w) \<Longrightarrow> cancel_step s (move_to th (Waking t r es pending c ps) w s)"
| wake_one: "cs_phase s th = Waking t r (e # es) pending c ps \<Longrightarrow>
    cancel_step s (move_to th (Waking t r es pending c ps) (wake_waiter e (cs_world s)) s)"
| wake_done: "cs_phase s th = Waking t r [] pending c ps \<Longrightarrow>
    cancel_step s (move_to th (TakingChildren t r pending c ps) (cs_world s) s)"
| take_children: "cs_phase s th = TakingChildren t r pending c ps \<Longrightarrow>
    take_children t (cs_world s) = (cs, w) \<Longrightarrow>
    cancel_step s (move_to th (Popping (push_children cs r pending) c ps) w s)"
| start_child: "cs_phase s th = CIdle \<Longrightarrow> p < w_next (cs_world s) \<Longrightarrow>
    new_inner ok (merge_deadline (in_deadline (w_inner (cs_world s) p)) d) (cs_world s) = (c, w) \<Longrightarrow>
    cancel_step s (move_to th (Pushing c [p] [p]) w s)"
| start_linked: "cs_phase s th = CIdle \<Longrightarrow> set ps \<subseteq> {..<w_next (cs_world s)} \<Longrightarrow>
    new_inner ok (linked_deadline ps (cs_world s)) (cs_world s) = (c, w) \<Longrightarrow>
    cancel_step s (move_to th (Pushing c ps ps) w s)"
| push_one: "cs_phase s th = Pushing c (p # todo) ps \<Longrightarrow>
    cancel_step s (move_to th (Pushing c todo ps) (push_child p c (cs_world s)) s)"
| push_done: "cs_phase s th = Pushing c [] ps \<Longrightarrow> cancel_step s (move_to th (Checking c ps) (cs_world s) s)"
| check_none: "cs_phase s th = Checking c (p # ps) \<Longrightarrow> token_reason (cs_world s) p = None \<Longrightarrow>
    cancel_step s (move_to th (Checking c ps) (cs_world s) s)"
| check_some: "cs_phase s th = Checking c (p # ps) \<Longrightarrow> token_reason (cs_world s) p = Some r \<Longrightarrow>
    cancel_step s (move_to th (Popping [(c, inherited r)] c ps) (cs_world s) s)"
| check_done: "cs_phase s th = Checking c [] \<Longrightarrow> cancel_step s (move_to th CIdle (cs_world s) s)"
| lose_token: "cs_phase s th = CIdle \<Longrightarrow> cancel_step s (move_to th CIdle (drop_token t (cs_world s)) s)"
| new_future: "cs_phase s th = CIdle \<Longrightarrow> cs_status s f = NotCreated \<Longrightarrow>
    t < w_next (cs_world s) \<Longrightarrow> cancel_step s (set_status f Created (move_to th CIdle (token_cancelled f t (cs_world s)) s))"
| poll_ready: "cs_phase s th = CIdle \<Longrightarrow> pollable (cs_status s f) \<Longrightarrow>
    token_reason (cs_world s) (cf_token (w_future (cs_world s) f)) = Some r \<Longrightarrow>
    cancel_step s (set_status f (Finished r) (move_to th CIdle (cs_world s) s))"
| poll_start: "cs_phase s th = CIdle \<Longrightarrow> pollable (cs_status s f) \<Longrightarrow>
    token_reason (cs_world s) (cf_token (w_future (cs_world s) f)) = None \<Longrightarrow>
    cancel_step s (set_status f (PollingBy th) (move_to th (Registering f k) (forget_wakes f (cs_world s)) s))"
| poll_register: "cs_phase s th = Registering f k \<Longrightarrow>
    cancel_step s (move_to th (Arming f k) (register_waiter f k (cs_world s)) s)"
| poll_arm: "cs_phase s th = Arming f k \<Longrightarrow> arm_worker ok f (cs_world s) = (retry, w) \<Longrightarrow>
    cancel_step s (move_to th (Rechecking f k retry) w s)"
| poll_pending: "cs_phase s th = Rechecking f k retry \<Longrightarrow> finish_poll retry f k (cs_world s) = (None, w) \<Longrightarrow>
    cancel_step s (set_status f (Suspended k) (move_to th CIdle w s))"
| poll_finish: "cs_phase s th = Rechecking f k retry \<Longrightarrow> finish_poll retry f k (cs_world s) = (Some r, w) \<Longrightarrow>
    cancel_step s (set_status f (Finished r) (move_to th CIdle w s))"
| drop_future: "cs_phase s th = CIdle \<Longrightarrow> pollable (cs_status s f) \<or> (\<exists>r. cs_status s f = Finished r) \<Longrightarrow>
    cancel_step s (set_status f Gone (move_to th CIdle (drop_cancelled f (cs_world s)) s))"

definition no_tokens :: "instant \<Rightarrow> world" where
  "no_tokens now =
     \<lparr>w_inner = (\<lambda>_. (fresh_inner None)\<lparr>in_strong := False\<rparr>), w_next = 0,
      w_future = (\<lambda>_. \<lparr>cf_token = 0, cf_registered = False, cf_arm_attempts = 0, cf_alive = False\<rparr>),
      w_queue = [], w_worker = False, w_now = now, w_woken = []\<rparr>"

definition cancel_init :: "instant \<Rightarrow> cancel_state" where
  "cancel_init now = \<lparr>cs_world = no_tokens now, cs_phase = (\<lambda>_. CIdle), cs_status = (\<lambda>_. NotCreated)\<rparr>"

definition cancel_reachable :: "cancel_state \<Rightarrow> bool" where
  "cancel_reachable s \<longleftrightarrow> (\<exists>now. cancel_step\<^sup>*\<^sup>* (cancel_init now) s)"

lemmas world_defs = set_inner_def set_future_def try_cancel_def take_waiters_def take_children_def push_child_def
  drop_token_def token_cancelled_def set_waiters_def remove_waiter_def register_waiter_def arm_worker_def
  finish_poll_def drop_cancelled_def forget_wakes_def ensure_worker_def wake_waiter_def Let_def

lemmas state_simps = move_to_def set_status_def

lemma schedule_facts:
  "w_inner (schedule ok at t w) = w_inner w" "w_next (schedule ok at t w) = w_next w"
  "w_future (schedule ok at t w) = w_future w" "w_now (schedule ok at t w) = w_now w"
  "w_woken (schedule ok at t w) = w_woken w"
  "set (w_queue (schedule ok at t w)) \<subseteq> insert (at, t) (set (w_queue w))"
  "(at, t) \<in> set (w_queue (schedule ok at t w))"
  "e \<in> set (w_queue w) \<Longrightarrow> entry_useful w e \<Longrightarrow> e \<in> set (w_queue (schedule ok at t w))"
  by (auto simp: schedule_def ensure_worker_def Let_def)

lemma new_inner_facts:
  assumes "new_inner ok d w = (c, w')"
  shows "c = w_next w" "w_inner w' = (w_inner w)(c := fresh_inner d)" "w_next w' = Suc (w_next w)"
    "w_future w' = w_future w" "w_now w' = w_now w" "w_woken w' = w_woken w"
    "set (w_queue w') \<subseteq> insert (the d, c) (set (w_queue w))"
proof -
  let ?w = "(set_inner w (w_next w) (fresh_inner d))\<lparr>w_next := Suc (w_next w)\<rparr>"
  from assms have "w' = ?w \<or> (\<exists>at. d = Some at \<and> w' = schedule ok at c ?w)" and c: "c = w_next w"
    by (auto simp: new_inner_def Let_def split: option.splits if_splits)
  then show "c = w_next w" "w_inner w' = (w_inner w)(c := fresh_inner d)" "w_next w' = Suc (w_next w)"
    "w_future w' = w_future w" "w_now w' = w_now w" "w_woken w' = w_woken w"
    by (auto simp: schedule_facts set_inner_def)
  from \<open>w' = ?w \<or> _\<close> show "set (w_queue w') \<subseteq> insert (the d, c) (set (w_queue w))"
  proof
    assume "\<exists>at. d = Some at \<and> w' = schedule ok at c ?w"
    then obtain at where "d = Some at" "w' = schedule ok at c ?w" by blast
    then show ?thesis using schedule_facts(6) [of ok at c ?w] by (simp add: set_inner_def)
  qed (auto simp: set_inner_def)
qed

lemma new_inner_arms:
  assumes "new_inner ok (Some at) w = (c, w')" "w_now w < at"
  shows "(at, c) \<in> set (w_queue w')"
  using assms schedule_facts(7) by (auto simp: new_inner_def Let_def set_inner_def)

lemma new_inner_keeps_queue:
  assumes "new_inner ok d w = (c, w')" "e \<in> set (w_queue w)" "entry_useful w e" "snd e < w_next w"
  shows "e \<in> set (w_queue w')"
proof -
  let ?w = "(set_inner w (w_next w) (fresh_inner d))\<lparr>w_next := Suc (w_next w)\<rparr>"
  have "entry_useful ?w e" "e \<in> set (w_queue ?w)"
    using assms(2-4) by (simp_all add: entry_useful_def set_inner_def)
  from schedule_facts(8) [OF this(2,1)] this(2) assms(1) show ?thesis
    by (auto simp: new_inner_def Let_def split: option.splits if_splits)
qed

lemma pop_expired_facts:
  assumes "pop_expired w = Some (e, w')"
  shows "e \<in> set (w_queue w)" "fst e \<le> w_now w" "w' = w\<lparr>w_queue := remove1 e (w_queue w)\<rparr>"
proof -
  have "earliest q = Some e \<Longrightarrow> e \<in> set q" for q
    by (induction q) (auto split: option.splits if_splits)
  with assms show "e \<in> set (w_queue w)" "fst e \<le> w_now w" "w' = w\<lparr>w_queue := remove1 e (w_queue w)\<rparr>"
    by (auto simp: pop_expired_def split: option.splits if_splits)
qed

lemma ensure_worker_facts [simp]:
  "w_inner (snd (ensure_worker ok w)) = w_inner w" "w_next (snd (ensure_worker ok w)) = w_next w"
  "w_future (snd (ensure_worker ok w)) = w_future w" "w_queue (snd (ensure_worker ok w)) = w_queue w"
  "w_now (snd (ensure_worker ok w)) = w_now w" "w_woken (snd (ensure_worker ok w)) = w_woken w"
  by (simp_all add: ensure_worker_def)

text \<open>Operations that leave the tree of tokens, the queue and the clock alone.\<close>

definition same_tree :: "world \<Rightarrow> world \<Rightarrow> bool" where
  "same_tree w w' \<longleftrightarrow>
     w_next w' = w_next w \<and> w_queue w' = w_queue w \<and> w_now w' = w_now w \<and>
     (\<forall>t. stored w' t = stored w t \<and> in_children (w_inner w' t) = in_children (w_inner w t)
        \<and> in_strong (w_inner w' t) = in_strong (w_inner w t)
        \<and> in_deadline (w_inner w' t) = in_deadline (w_inner w t))"

lemma same_tree_intros:
  "same_tree w w"
  "same_tree w (wake_waiter e w)"
  "same_tree w (forget_wakes f w)"
  "same_tree w (token_cancelled f t w)"
  "same_tree w (remove_waiter f w)"
  "same_tree w (register_waiter f k w)"
  by (simp_all add: same_tree_def world_defs)

lemma same_tree_set_future: "same_tree w w' \<Longrightarrow> same_tree w (set_future w' f c)"
  by (simp add: same_tree_def set_future_def)

lemma same_tree_drop: "same_tree w (drop_cancelled f w)"
  by (simp add: drop_cancelled_def Let_def same_tree_set_future same_tree_intros)

lemma same_tree_take: "take_waiters t w = (es, w') \<Longrightarrow> same_tree w w'"
  by (auto simp: same_tree_def take_waiters_def set_inner_def split: if_splits)

lemma same_tree_arm: "arm_worker ok f w = (b, w') \<Longrightarrow> same_tree w w'"
  by (auto simp: same_tree_def arm_worker_def ensure_worker_def set_future_def Let_def split: if_splits)

lemma same_tree_finish: "finish_poll b f k w = (res, w') \<Longrightarrow> same_tree w w'"
  by (auto simp: finish_poll_def Let_def intro!: same_tree_set_future same_tree_intros split: option.splits if_splits)
     (simp_all add: same_tree_def)

lemmas same_tree_rules = same_tree_intros same_tree_drop same_tree_take same_tree_arm same_tree_finish

subsection \<open>Well-formed states\<close>

fun phase_tokens :: "cancel_phase \<Rightarrow> token set" where
  "phase_tokens (Popping pending c ps) = fst ` set pending \<union> {c} \<union> set ps"
| "phase_tokens (TakingWaiters t r pending c ps) = {t} \<union> fst ` set pending \<union> {c} \<union> set ps"
| "phase_tokens (Waking t r es pending c ps) = {t} \<union> fst ` set pending \<union> {c} \<union> set ps"
| "phase_tokens (TakingChildren t r pending c ps) = {t} \<union> fst ` set pending \<union> {c} \<union> set ps"
| "phase_tokens (Pushing c todo ps) = {c} \<union> set todo \<union> set ps"
| "phase_tokens (Checking c ps) = {c} \<union> set ps"
| "phase_tokens _ = {}"

fun phase_shape :: "cancel_phase \<Rightarrow> bool" where
  "phase_shape (Pushing c todo ps) \<longleftrightarrow> set todo \<subseteq> set ps"
| "phase_shape _ \<longleftrightarrow> True"

definition world_known :: "world \<Rightarrow> bool" where
  "world_known w \<longleftrightarrow> children_known w \<and> (\<forall>d t. (d, t) \<in> set (w_queue w) \<longrightarrow> t < w_next w)
     \<and> (\<forall>t \<ge> w_next w. stored w t = 0) \<and> (\<forall>t. stored w t = 0 \<or> (\<exists>r. stored w t = reason_code r))"

definition known :: "cancel_state \<Rightarrow> bool" where
  "known s \<longleftrightarrow> world_known (cs_world s) \<and>
     (\<forall>th. phase_tokens (cs_phase s th) \<subseteq> {..<w_next (cs_world s)} \<and> phase_shape (cs_phase s th))"

lemma world_known_same: "same_tree w w' \<Longrightarrow> world_known w \<Longrightarrow> world_known w'"
  by (simp add: same_tree_def world_known_def children_known_def)

lemma world_known_new: "new_inner ok d w = (c, w') \<Longrightarrow> world_known w \<Longrightarrow> world_known w'"
  using new_inner_facts [of ok d w c w']
  by (fastforce simp: world_known_def children_known_def fresh_inner_def less_Suc_eq)

lemma world_known_pop:
  assumes "pop_expired w = Some (e, w')" "world_known w"
  shows "world_known w' \<and> snd e < w_next w"
proof
  obtain d t where e: "e = (d, t)" by (cases e)
  show "snd e < w_next w"
    using pop_expired_facts(1) [OF assms(1)] assms(2) unfolding e world_known_def by auto
  show "world_known w'"
    using pop_expired_facts(3) [OF assms(1)] set_remove1_subset [of e "w_queue w"] assms(2)
    unfolding world_known_def children_known_def by (auto dest: subsetD)
qed

lemma world_known_try: "try_cancel r t w = (b, w') \<Longrightarrow> t < w_next w \<Longrightarrow> world_known w \<Longrightarrow> world_known w'"
  by (auto simp: try_cancel_def set_inner_def world_known_def children_known_def split: if_splits)

lemma world_known_children:
  "take_children t w = (cs, w') \<Longrightarrow> world_known w \<Longrightarrow> world_known w' \<and> set cs \<subseteq> {..<w_next w}"
  by (auto simp: take_children_def set_inner_def world_known_def children_known_def live_children_def
        split: if_splits)

lemma world_known_push: "c < w_next w \<Longrightarrow> world_known w \<Longrightarrow> world_known (push_child p c w)"
  by (auto simp: push_child_def set_inner_def world_known_def children_known_def live_children_def
        split: if_splits)

lemma world_known_drop: "world_known w \<Longrightarrow> world_known (drop_token t w)"
  by (simp add: drop_token_def set_inner_def world_known_def children_known_def)

lemma next_frame:
  "try_cancel r t w = (b, w') \<Longrightarrow> w_next w' = w_next w"
  "take_children t w = (cs, w') \<Longrightarrow> w_next w' = w_next w"
  "w_next (push_child p c w) = w_next w"
  "w_next (drop_token t w) = w_next w"
  "pop_expired w = Some (e, w') \<Longrightarrow> w_next w' = w_next w"
  "same_tree w w' \<Longrightarrow> w_next w' = w_next w"
  by (auto simp: try_cancel_def take_children_def push_child_def drop_token_def set_inner_def same_tree_def
        dest: pop_expired_facts split: if_splits)

lemma known_step:
  assumes "known s" "world_known w'" "w_next (cs_world s) \<le> w_next w'" "cs_world s' = w'"
    and "cs_phase s' = (cs_phase s)(th := ph)" "phase_tokens ph \<subseteq> {..<w_next w'}" "phase_shape ph"
  shows "known s'"
  using assms unfolding known_def by (auto simp: subset_iff) (meson less_le_trans)+

lemma known_world: "known s \<Longrightarrow> world_known (cs_world s)"
  by (simp add: known_def)

lemma known_phase:
  "known s \<Longrightarrow> cs_phase s th = ph \<Longrightarrow> phase_tokens ph \<subseteq> {..<w_next (cs_world s)} \<and> phase_shape ph"
  by (auto simp: known_def)

subsection \<open>The invariant of the tree\<close>

text \<open>A live child that a cancelled parent has not reached yet, and the threads that will reach it.\<close>

definition unreached :: "world \<Rightarrow> token \<Rightarrow> token \<Rightarrow> bool" where
  "unreached w p c \<longleftrightarrow> stored w p \<noteq> 0 \<and> c \<in> set (in_children (w_inner w p)) \<and> in_strong (w_inner w c) \<and> stored w c = 0"

fun owes :: "cancel_phase \<Rightarrow> token \<Rightarrow> token \<Rightarrow> bool" where
  "owes (Popping pending c' ps) p c \<longleftrightarrow> c \<in> fst ` set pending \<or> c' = c \<and> p \<in> set ps"
| "owes (TakingWaiters t r pending c' ps) p c \<longleftrightarrow> t = p \<or> c \<in> fst ` set pending \<or> c' = c \<and> p \<in> set ps"
| "owes (Waking t r es pending c' ps) p c \<longleftrightarrow> t = p \<or> c \<in> fst ` set pending \<or> c' = c \<and> p \<in> set ps"
| "owes (TakingChildren t r pending c' ps) p c \<longleftrightarrow> t = p \<or> c \<in> fst ` set pending \<or> c' = c \<and> p \<in> set ps"
| "owes (Pushing c' todo ps) p c \<longleftrightarrow> c' = c \<and> p \<in> set ps"
| "owes (Checking c' ps) p c \<longleftrightarrow> c' = c \<and> p \<in> set ps"
| "owes _ p c \<longleftrightarrow> False"

definition all_owed :: "cancel_state \<Rightarrow> bool" where
  "all_owed s \<longleftrightarrow> (\<forall>p c. unreached (cs_world s) p c \<longrightarrow> (\<exists>th. owes (cs_phase s th) p c))"

text \<open>The reasons a thread is going to store.\<close>

fun phase_reasons :: "cancel_phase \<Rightarrow> cancellation_reason set" where
  "phase_reasons (Popping pending c ps) = snd ` set pending"
| "phase_reasons (TakingWaiters t r pending c ps) = {inherited r} \<union> snd ` set pending"
| "phase_reasons (Waking t r es pending c ps) = {inherited r} \<union> snd ` set pending"
| "phase_reasons (TakingChildren t r pending c ps) = {inherited r} \<union> snd ` set pending"
| "phase_reasons _ = {}"

definition has_request :: "world \<Rightarrow> bool" where
  "has_request w \<longleftrightarrow> (\<exists>t < w_next w. stored w t = reason_code Requested)"

definition blame_ok :: "cancel_state \<Rightarrow> bool" where
  "blame_ok s \<longleftrightarrow>
     (\<forall>t. stored (cs_world s) t = reason_code Parent \<longrightarrow> has_request (cs_world s)) \<and>
     (\<forall>th. Parent \<in> phase_reasons (cs_phase s th) \<longrightarrow> has_request (cs_world s))"

definition armed :: "world \<Rightarrow> bool" where
  "armed w \<longleftrightarrow> (\<forall>t d. t < w_next w \<longrightarrow> in_strong (w_inner w t) \<longrightarrow> stored w t = 0 \<longrightarrow>
     in_deadline (w_inner w t) = Some d \<longrightarrow> w_now w < d \<longrightarrow> (d, t) \<in> set (w_queue w))"

definition tree_inv :: "cancel_state \<Rightarrow> bool" where
  "tree_inv s \<longleftrightarrow> known s \<and> all_owed s \<and> blame_ok s \<and> armed (cs_world s)"

lemma tree_inv_step:
  assumes inv: "tree_inv s" and ph: "cs_phase s' = (cs_phase s)(th := ph)" and w: "cs_world s' = w'"
    and known: "world_known w'" "w_next (cs_world s) \<le> w_next w'"
      "phase_tokens ph \<subseteq> {..<w_next w'}" "phase_shape ph"
    and owed: "\<And>p c. unreached w' p c \<Longrightarrow> owes ph p c \<or> unreached (cs_world s) p c \<and> \<not> owes (cs_phase s th) p c"
    and blame: "Parent \<in> phase_reasons ph \<Longrightarrow> has_request w'" "has_request (cs_world s) \<Longrightarrow> has_request w'"
      "\<And>t. stored w' t = reason_code Parent \<Longrightarrow> stored (cs_world s) t = reason_code Parent \<or> has_request w'"
    and armed: "armed w'"
  shows "tree_inv s'"
proof -
  have "known s'"
    using inv known by (intro known_step [OF _ _ _ w ph]) (auto simp: tree_inv_def)
  moreover have "all_owed s'"
    unfolding all_owed_def w ph
  proof (intro allI impI)
    fix p c assume "unreached w' p c"
    from owed [OF this] show "\<exists>th'. owes (((cs_phase s)(th := ph)) th') p c"
    proof
      assume "unreached (cs_world s) p c \<and> \<not> owes (cs_phase s th) p c"
      then obtain th' where "owes (cs_phase s th') p c" "th' \<noteq> th"
        using inv by (auto simp: tree_inv_def all_owed_def)
      then show ?thesis by (metis fun_upd_other)
    qed (metis fun_upd_same)
  qed
  moreover have "blame_ok s'"
    using inv blame unfolding tree_inv_def blame_ok_def w ph by (metis fun_upd_apply)
  ultimately show ?thesis using armed by (simp add: tree_inv_def w)
qed

definition quiet_move :: "world \<Rightarrow> cancel_phase \<Rightarrow> cancel_phase \<Rightarrow> bool" where
  "quiet_move w ph ph' \<longleftrightarrow>
     phase_tokens ph' \<subseteq> phase_tokens ph \<and> phase_shape ph' \<and> phase_reasons ph' \<subseteq> phase_reasons ph \<and>
     (\<forall>p c. unreached w p c \<longrightarrow> owes ph p c \<longrightarrow> owes ph' p c)"

lemma same_tree_unreached: "same_tree w w' \<Longrightarrow> unreached w' p c \<longleftrightarrow> unreached w p c"
  by (simp add: same_tree_def unreached_def)

lemma tree_inv_quiet:
  assumes inv: "tree_inv s" and tree: "same_tree (cs_world s) w'" and move: "quiet_move (cs_world s) (cs_phase s th) ph"
    and "cs_phase s' = (cs_phase s)(th := ph)" "cs_world s' = w'"
  shows "tree_inv s'"
proof (rule tree_inv_step [OF inv assms(4,5)])
  have k: "known s" using inv by (simp add: tree_inv_def)
  show "world_known w'" using world_known_same [OF tree known_world [OF k]] .
  show "w_next (cs_world s) \<le> w_next w'" "phase_tokens ph \<subseteq> {..<w_next w'}"
    using move known_phase [OF k refl, of th] next_frame(6) [OF tree] by (auto simp: quiet_move_def)
  show "has_request w'" if "Parent \<in> phase_reasons ph"
    using that inv move tree by (auto simp: tree_inv_def blame_ok_def quiet_move_def has_request_def same_tree_def)
  show "armed w'" using inv tree by (simp add: tree_inv_def armed_def same_tree_def)
  show "owes ph p c \<or> unreached (cs_world s) p c \<and> \<not> owes (cs_phase s th) p c" if "unreached w' p c" for p c
    using that move unfolding same_tree_unreached [OF tree] quiet_move_def by blast
qed (use move tree in \<open>auto simp: quiet_move_def has_request_def same_tree_def\<close>)

lemma tree_inv_parts:
  assumes "tree_inv s"
  shows "known s" "all_owed s" "blame_ok s" "armed (cs_world s)" "world_known (cs_world s)"
  using assms by (simp_all add: tree_inv_def known_def)

text \<open>The steps that change the tree.\<close>

lemma armed_new:
  assumes "new_inner ok d w = (c, w')" "armed w"
  shows "armed w'"
  unfolding armed_def
proof (intro allI impI)
  fix t at
  assume *: "t < w_next w'" "in_strong (w_inner w' t)" "stored w' t = 0" "in_deadline (w_inner w' t) = Some at" "w_now w' < at"
  note facts = new_inner_facts [OF assms(1)]
  show "(at, t) \<in> set (w_queue w')"
  proof (cases "t = c")
    case True
    with * facts have "d = Some at" "w_now w < at" by (simp_all add: fresh_inner_def)
    with new_inner_arms [of ok at w c w'] assms(1) True show ?thesis by simp
  next
    case False
    with * facts have "t < w_next w" "(at, t) \<in> set (w_queue w)" "entry_useful w (at, t)"
      using assms(2) by (auto simp: armed_def entry_useful_def)
    then show ?thesis using new_inner_keeps_queue [OF assms(1)] by simp
  qed
qed

lemma tree_inv_new:
  assumes inv: "tree_inv s" and new: "new_inner ok d (cs_world s) = (c, w')" and "cs_phase s th = CIdle"
    and ph: "ph = CIdle \<or> (\<exists>ps. ph = Pushing c ps ps \<and> set ps \<subseteq> {..<w_next (cs_world s)})"
  shows "tree_inv (move_to th ph w' s)"
proof (rule tree_inv_step [OF inv, where th = th and ph = ph and w' = w'])
  note facts = new_inner_facts [OF new] and parts = tree_inv_parts [OF inv]
  show "world_known w'" using world_known_new [OF new parts(5)] .
  show "armed w'" using armed_new [OF new parts(4)] .
  show "phase_tokens ph \<subseteq> {..<w_next w'}" "w_next (cs_world s) \<le> w_next w'" "phase_shape ph"
    using ph facts by auto
  show "Parent \<in> phase_reasons ph \<Longrightarrow> has_request w'" using ph by auto
  show "has_request w'" if request: "has_request (cs_world s)"
  proof -
    obtain t where "t < w_next (cs_world s)" "stored (cs_world s) t = reason_code Requested"
      using request by (auto simp: has_request_def)
    then show ?thesis unfolding has_request_def using facts by (intro exI [of _ t]) auto
  qed
  show "stored w' t = reason_code Parent \<Longrightarrow> stored (cs_world s) t = reason_code Parent \<or> has_request w'" for t
    using facts by (auto simp: fresh_inner_def split: if_splits)
  show "owes ph p c' \<or> unreached (cs_world s) p c' \<and> \<not> owes (cs_phase s th) p c'" if "unreached w' p c'" for p c'
  proof -
    have "p \<noteq> c" using that facts by (auto simp: unreached_def fresh_inner_def)
    moreover from this have "c' \<noteq> c"
      using that facts parts(5) by (auto simp: unreached_def world_known_def children_known_def)
    ultimately show ?thesis using that facts assms(3) by (simp add: unreached_def)
  qed
qed (simp_all add: move_to_def)

lemma tree_inv_won:
  assumes inv: "tree_inv s" and ph: "cs_phase s th = Popping ((t, r) # pending) c ps"
    and swap: "try_cancel r t (cs_world s) = (True, w')"
  shows "tree_inv (move_to th (TakingWaiters t r pending c ps) w' s)"
proof (rule tree_inv_step [OF inv, where th = th and w' = w'])
  note parts = tree_inv_parts [OF inv]
  have tok: "phase_tokens (cs_phase s th) \<subseteq> {..<w_next (cs_world s)}" using known_phase [OF parts(1) refl] by simp
  then have t: "t < w_next (cs_world s)" by (simp add: ph)
  have zero: "stored (cs_world s) t = 0" and
    w': "w' = set_inner (cs_world s) t ((w_inner (cs_world s) t)\<lparr>in_reason := reason_code r\<rparr>)"
    using swap by (auto simp: try_cancel_def split: if_splits)
  show "world_known w'" using world_known_try [OF swap t parts(5)] .
  show "armed w'" using parts(4) by (auto simp: armed_def w' set_inner_def)
  show "phase_tokens (TakingWaiters t r pending c ps) \<subseteq> {..<w_next w'}" using tok by (auto simp: ph w' set_inner_def)
  have keep: "has_request w'" if "has_request (cs_world s)"
    using that zero by (auto simp: has_request_def w' set_inner_def split: if_splits)
  then show "has_request (cs_world s) \<Longrightarrow> has_request w'" .
  have old: "has_request w'" if "Parent \<in> snd ` set ((t, r) # pending)"
    using that parts(3) ph keep unfolding blame_ok_def by (metis phase_reasons.simps(1))
  have "has_request w'" if "inherited r = Parent"
  proof (cases r)
    case Requested
    then show ?thesis using t by (auto simp: has_request_def w' set_inner_def)
  qed (use that old in auto)
  with old show "Parent \<in> phase_reasons (TakingWaiters t r pending c ps) \<Longrightarrow> has_request w'" by auto
  show "stored w' t' = reason_code Parent \<Longrightarrow> stored (cs_world s) t' = reason_code Parent \<or> has_request w'" for t'
    using old by (cases "t' = t") (auto simp: w' set_inner_def)
qed (use swap in \<open>auto simp: try_cancel_def set_inner_def ph unreached_def move_to_def split: if_splits\<close>)

lemma tree_inv_children:
  assumes inv: "tree_inv s" and ph: "cs_phase s th = TakingChildren t r pending c ps"
    and take: "take_children t (cs_world s) = (cs, w')"
  shows "tree_inv (move_to th (Popping (push_children cs r pending) c ps) w' s)"
proof (rule tree_inv_step [OF inv, where th = th and w' = w'])
  note parts = tree_inv_parts [OF inv]
  have tok: "phase_tokens (cs_phase s th) \<subseteq> {..<w_next (cs_world s)}" using known_phase [OF parts(1) refl] by simp
  have w': "cs = live_children t (cs_world s)"
    "w' = set_inner (cs_world s) t ((w_inner (cs_world s) t)\<lparr>in_children := cs\<rparr>)"
    using take by (auto simp: take_children_def)
  show "world_known w'" "phase_tokens (Popping (push_children cs r pending) c ps) \<subseteq> {..<w_next w'}"
    using world_known_children [OF take parts(5)] tok next_frame(2) [OF take] by (auto simp: ph)
  show "armed w'" using parts(4) by (auto simp: armed_def w'(2) set_inner_def)
  show keep: "has_request w'" if "has_request (cs_world s)"
    using that by (auto simp: has_request_def w' set_inner_def)
  have "snd ` set (push_children cs r pending) \<subseteq> phase_reasons (cs_phase s th)"
    by (auto simp: push_children_def ph)
  then show "Parent \<in> phase_reasons (Popping (push_children cs r pending) c ps) \<Longrightarrow> has_request w'"
    using parts(3) keep unfolding blame_ok_def phase_reasons.simps(1) by (meson subsetD)
  show "owes (Popping (push_children cs r pending) c ps) p c' \<or>
      unreached (cs_world s) p c' \<and> \<not> owes (cs_phase s th) p c'" if "unreached w' p c'" for p c'
    using that unfolding owes.simps push_children_tokens ph
    by (auto simp: unreached_def w' set_inner_def live_children_def split: if_splits)
qed (use take in \<open>auto simp: take_children_def set_inner_def move_to_def split: if_splits\<close>)

lemma tree_inv_same_world:
  assumes inv: "tree_inv s" and "phase_tokens ph \<subseteq> {..<w_next (cs_world s)}" "phase_shape ph"
    and "\<And>p c. unreached (cs_world s) p c \<Longrightarrow> owes (cs_phase s th) p c \<Longrightarrow> owes ph p c"
    and "Parent \<in> phase_reasons ph \<Longrightarrow> has_request (cs_world s)"
  shows "tree_inv (move_to th ph (cs_world s) s)"
  by (rule tree_inv_step [OF inv, where th = th and ph = ph and w' = "cs_world s"])
     (use assms tree_inv_parts [OF inv] in \<open>auto simp: move_to_def\<close>)

lemma tree_inv_pop:
  assumes inv: "tree_inv s" and pop: "pop_expired (cs_world s) = Some (e, w')" and "cs_phase s th = CIdle"
    and ph: "ph = CIdle \<or> ph = Popping [(snd e, Deadline)] (snd e) []"
  shows "tree_inv (move_to th ph w' s)"
proof (rule tree_inv_step [OF inv, where th = th and ph = ph and w' = w'])
  note facts = pop_expired_facts [OF pop] and parts = tree_inv_parts [OF inv]
  show "world_known w'" "phase_tokens ph \<subseteq> {..<w_next w'}"
    using world_known_pop [OF pop parts(5)] ph facts(3) by auto
  have "(d, t) \<in> set (remove1 e (w_queue (cs_world s)))" if "(d, t) \<in> set (w_queue (cs_world s))" "w_now (cs_world s) < d" for d t
  proof -
    have "(d, t) \<noteq> e" using that(2) facts(2) by auto
    with that(1) show ?thesis by simp
  qed
  with parts(4) show "armed w'" by (auto simp: armed_def facts(3))
qed (use pop_expired_facts [OF pop] ph assms(3) in \<open>auto simp: move_to_def unreached_def has_request_def\<close>)

lemma tree_inv_push:
  assumes inv: "tree_inv s" and ph: "cs_phase s th = Pushing c (p # todo) ps"
  shows "tree_inv (move_to th (Pushing c todo ps) (push_child p c (cs_world s)) s)"
proof (rule tree_inv_step [OF inv, where th = th and w' = "push_child p c (cs_world s)"])
  note parts = tree_inv_parts [OF inv]
  have tok: "phase_tokens (cs_phase s th) \<subseteq> {..<w_next (cs_world s)}" "phase_shape (cs_phase s th)"
    using known_phase [OF parts(1) refl, of th] by simp_all
  then have c: "c < w_next (cs_world s)" and "p \<in> set ps" by (simp_all add: ph)
  then show "world_known (push_child p c (cs_world s))" using world_known_push [OF c parts(5)] by simp
  show "phase_tokens (Pushing c todo ps) \<subseteq> {..<w_next (push_child p c (cs_world s))}" "phase_shape (Pushing c todo ps)"
    using tok by (auto simp: ph next_frame)
  show "armed (push_child p c (cs_world s))" using parts(4) by (auto simp: armed_def push_child_def set_inner_def)
  show "owes (Pushing c todo ps) p' c' \<or> unreached (cs_world s) p' c' \<and> \<not> owes (cs_phase s th) p' c'"
    if "unreached (push_child p c (cs_world s)) p' c'" for p' c'
    using that \<open>p \<in> set ps\<close>
    by (auto simp: ph unreached_def push_child_def set_inner_def live_children_def split: if_splits)
qed (auto simp: push_child_def set_inner_def move_to_def has_request_def split: if_splits)

lemma tree_inv_lose:
  assumes inv: "tree_inv s" and "cs_phase s th = CIdle"
  shows "tree_inv (move_to th CIdle (drop_token t (cs_world s)) s)"
proof (rule tree_inv_step [OF inv, where th = th and ph = CIdle and w' = "drop_token t (cs_world s)"])
  note parts = tree_inv_parts [OF inv]
  show "world_known (drop_token t (cs_world s))" using world_known_drop [OF parts(5)] .
  show "armed (drop_token t (cs_world s))" using parts(4) by (auto simp: armed_def drop_token_def set_inner_def)
qed (use assms(2) in \<open>auto simp: drop_token_def set_inner_def move_to_def has_request_def unreached_def split: if_splits\<close>)

lemma stored_of_reason:
  assumes "world_known w"
  shows "token_reason w t = None \<Longrightarrow> stored w t = 0"
    and "token_reason w t = Some r \<Longrightarrow> r \<noteq> Deadline \<Longrightarrow> stored w t = reason_code r"
proof -
  have codes: "stored w t = 0 \<or> (\<exists>r. stored w t = reason_code r)" using assms by (simp add: world_known_def)
  have [simp]: "from_code 0 = None" by (simp add: from_code_def)
  from codes show "token_reason w t = None \<Longrightarrow> stored w t = 0"
    "token_reason w t = Some r \<Longrightarrow> r \<noteq> Deadline \<Longrightarrow> stored w t = reason_code r"
    by (auto simp: token_reason_def split: if_splits)
qed

lemma tree_inv_check:
  assumes inv: "tree_inv s" and ph: "cs_phase s th = Checking c (p # ps)" and r: "token_reason (cs_world s) p = Some r"
  shows "tree_inv (move_to th (Popping [(c, inherited r)] c ps) (cs_world s) s)"
proof (rule tree_inv_same_world [OF inv])
  note parts = tree_inv_parts [OF inv]
  have tok: "phase_tokens (cs_phase s th) \<subseteq> {..<w_next (cs_world s)}" using known_phase [OF parts(1) refl] by simp
  then show "phase_tokens (Popping [(c, inherited r)] c ps) \<subseteq> {..<w_next (cs_world s)}" by (simp add: ph)
  show "has_request (cs_world s)" if "Parent \<in> phase_reasons (Popping [(c, inherited r)] c ps)"
  proof -
    from that have "r \<noteq> Deadline" by auto
    from stored_of_reason(2) [OF parts(5) r this] have "stored (cs_world s) p = reason_code r" .
    moreover have "p < w_next (cs_world s)" using tok by (simp add: ph)
    moreover have "r = Requested \<or> r = Parent" using \<open>r \<noteq> Deadline\<close> by (cases r) auto
    ultimately show ?thesis using parts(3) by (auto simp: has_request_def blame_ok_def)
  qed
qed (auto simp: ph)

lemma tree_inv_quiet_move:
  assumes "tree_inv s" "same_tree (cs_world s) w'" "quiet_move (cs_world s) (cs_phase s th) ph"
  shows "tree_inv (move_to th ph w' s)"
  by (rule tree_inv_quiet [OF assms]) (simp_all add: move_to_def)

lemma tree_inv_status [simp]: "tree_inv (set_status f st s) \<longleftrightarrow> tree_inv s"
  by (simp add: tree_inv_def known_def all_owed_def blame_ok_def set_status_def)

lemma pop_lost_quiet:
  assumes "try_cancel r t w = (False, w')"
  shows "w' = w" "quiet_move w (Popping ((t, r) # pending) c ps) (Popping pending c ps)"
  using assms by (auto simp: try_cancel_def quiet_move_def unreached_def split: if_splits)

lemma check_none_quiet:
  "world_known w \<Longrightarrow> token_reason w p = None \<Longrightarrow> quiet_move w (Checking c (p # ps)) (Checking c ps)"
  using stored_of_reason(1) [of w p] by (auto simp: quiet_move_def unreached_def)

lemma other_quiet:
  "quiet_move w (Popping [] c ps) (Checking c ps)"
  "quiet_move w (TakingWaiters t r pending c ps) (Waking t r es pending c ps)"
  "quiet_move w (Waking t r (e # es) pending c ps) (Waking t r es pending c ps)"
  "quiet_move w (Waking t r [] pending c ps) (TakingChildren t r pending c ps)"
  "quiet_move w (Pushing c [] ps) (Checking c ps)"
  "quiet_move w (Checking c []) CIdle"
  "quiet_move w CIdle CIdle"
  "quiet_move w CIdle (Registering f k)"
  "quiet_move w (Registering f k) (Arming f k)"
  "quiet_move w (Arming f k) (Rechecking f k b)"
  "quiet_move w (Rechecking f k b) CIdle"
  by (auto simp: quiet_move_def)

lemma tree_inv_tick:
  assumes "tree_inv s" "w_now (cs_world s) \<le> n"
  shows "tree_inv (s\<lparr>cs_world := (cs_world s)\<lparr>w_now := n\<rparr>\<rparr>)"
  using assms
  by (simp add: tree_inv_def known_def all_owed_def blame_ok_def armed_def world_known_def children_known_def
        unreached_def has_request_def)

lemma tree_inv_cancel_step: "cancel_step s s' \<Longrightarrow> tree_inv s \<Longrightarrow> tree_inv s'"
proof (induction rule: cancel_step.induct)
  case (tick w n s)
  then show ?case using tree_inv_tick by simp
next
  case (create s th ok d c w)
  then show ?case using tree_inv_new by simp
next
  case (start_cancel s th r t)
  then show ?case by (intro tree_inv_same_world) auto
next
  case (worker_fire s th e w)
  then show ?case using tree_inv_pop by simp
next
  case (worker_discard s th e w)
  then show ?case using tree_inv_pop by simp
next
  case (pop_lost s th t r pending c ps w)
  then show ?case
    using pop_lost_quiet [OF pop_lost(2)] by (auto intro!: tree_inv_quiet_move same_tree_intros)
next
  case (pop_won s th t r pending c ps w)
  then show ?case using tree_inv_won by simp
next
  case (take_children s th t r pending c ps cs w)
  then show ?case using tree_inv_children by simp
next
  case (start_child s th p ok d c w)
  then show ?case using tree_inv_new [OF start_child.prems start_child.hyps(3,1)] by simp
next
  case (start_linked s th ps ok c w)
  then show ?case using tree_inv_new [OF start_linked.prems start_linked.hyps(3,1)] by simp
next
  case (push_one s th c p todo ps)
  then show ?case using tree_inv_push by simp
next
  case (check_none s th c p ps)
  then show ?case
    using check_none_quiet [OF tree_inv_parts(5)] by (auto intro!: tree_inv_quiet_move same_tree_intros)
next
  case (check_some s th c p ps r)
  then show ?case using tree_inv_check by simp
next
  case (lose_token s th t)
  then show ?case using tree_inv_lose by simp
qed (auto intro!: tree_inv_quiet_move other_quiet intro: same_tree_rules)

lemma tree_inv_init: "tree_inv (cancel_init now)"
  by (simp add: tree_inv_def known_def all_owed_def blame_ok_def armed_def world_known_def children_known_def
        unreached_def cancel_init_def no_tokens_def fresh_inner_def)

lemma tree_inv_reachable: "cancel_reachable s \<Longrightarrow> tree_inv s"
  unfolding cancel_reachable_def
  by (auto elim!: rtranclp_induct intro: tree_inv_init tree_inv_cancel_step)

end
