(* ===== verification/Cancel_Wakeups.thy ===== *)
theory Cancel_Wakeups
  imports Cancel_Proofs
begin

text \<open>
  No wake-up is lost: a future of \<open>cancelled()\<close> that was left pending has a registered waker that the
  cancellation of its token will take, has taken, or has woken.  With the invariant of the tree this gives
  the properties of the module.
\<close>

section \<open>The invariant of the waiters\<close>

abbreviation token_of :: "world \<Rightarrow> nat \<Rightarrow> token" where
  "token_of w f \<equiv> cf_token (w_future w f)"

abbreviation waiters_at :: "world \<Rightarrow> token \<Rightarrow> waiter_entry list" where
  "waiters_at w t \<equiv> in_waiters (w_inner w t)"

abbreviation entry :: "nat \<Rightarrow> nat \<Rightarrow> waiter_entry" where
  "entry f k \<equiv> \<lparr>we_owner = f, we_waker = k\<rparr>"

fun polling :: "cancel_phase \<Rightarrow> nat \<Rightarrow> bool" where
  "polling (Registering f' k') f \<longleftrightarrow> f' = f"
| "polling (Arming f' k') f \<longleftrightarrow> f' = f"
| "polling (Rechecking f' k' b) f \<longleftrightarrow> f' = f"
| "polling _ f \<longleftrightarrow> False"

fun polled :: "cancel_phase \<Rightarrow> nat \<Rightarrow> nat \<Rightarrow> bool" where
  "polled (Arming f' k') f k \<longleftrightarrow> f' = f \<and> k' = k"
| "polled (Rechecking f' k' b) f k \<longleftrightarrow> f' = f \<and> k' = k"
| "polled _ f k \<longleftrightarrow> False"

fun taking :: "cancel_phase \<Rightarrow> token \<Rightarrow> bool" where
  "taking (TakingWaiters t' r pending c ps) t \<longleftrightarrow> t' = t"
| "taking _ t \<longleftrightarrow> False"

text \<open>A thread that will wake the entry, or has just swapped the reason and will take it.\<close>

fun carries :: "cancel_phase \<Rightarrow> world \<Rightarrow> waiter_entry \<Rightarrow> bool" where
  "carries (TakingWaiters t r pending c ps) w e \<longleftrightarrow> t = token_of w (we_owner e) \<and> e \<in> set (waiters_at w t)"
| "carries (Waking t r es pending c ps) w e \<longleftrightarrow> e \<in> set es"
| "carries _ w e \<longleftrightarrow> False"

definition delivered :: "cancel_state \<Rightarrow> nat \<Rightarrow> nat \<Rightarrow> bool" where
  "delivered s f k \<longleftrightarrow>
     (let w = cs_world s
      in entry f k \<in> set (w_woken w)
         \<or> entry f k \<in> set (waiters_at w (token_of w f)) \<and> stored w (token_of w f) = 0
         \<or> (\<exists>th. carries (cs_phase s th) w (entry f k)))"

definition exists_future :: "future_status \<Rightarrow> bool" where
  "exists_future st \<longleftrightarrow> st \<noteq> NotCreated \<and> st \<noteq> Gone"

definition wait_inv :: "cancel_state \<Rightarrow> bool" where
  "wait_inv s \<longleftrightarrow>
     (\<forall>f. exists_future (cs_status s f) \<longrightarrow>
        cf_alive (w_future (cs_world s) f) \<and> token_of (cs_world s) f < w_next (cs_world s)) \<and>
     (\<forall>f k. cs_status s f = Suspended k \<longrightarrow> delivered s f k) \<and>
     (\<forall>th f. polling (cs_phase s th) f \<longrightarrow> cs_status s f = PollingBy th) \<and>
     (\<forall>th f k. polled (cs_phase s th) f k \<longrightarrow>
        stored (cs_world s) (token_of (cs_world s) f) \<noteq> 0
        \<or> entry f k \<in> set (waiters_at (cs_world s) (token_of (cs_world s) f))) \<and>
     (\<forall>th t. taking (cs_phase s th) t \<longrightarrow> t < w_next (cs_world s) \<and> stored (cs_world s) t \<noteq> 0)"

lemma wait_invI:
  assumes "\<And>f. exists_future (cs_status s f) \<Longrightarrow>
      cf_alive (w_future (cs_world s) f) \<and> token_of (cs_world s) f < w_next (cs_world s)"
    and "\<And>f k. cs_status s f = Suspended k \<Longrightarrow> delivered s f k"
    and "\<And>th f. polling (cs_phase s th) f \<Longrightarrow> cs_status s f = PollingBy th"
    and "\<And>th f k. polled (cs_phase s th) f k \<Longrightarrow> stored (cs_world s) (token_of (cs_world s) f) \<noteq> 0
      \<or> entry f k \<in> set (waiters_at (cs_world s) (token_of (cs_world s) f))"
    and "\<And>th t. taking (cs_phase s th) t \<Longrightarrow> t < w_next (cs_world s) \<and> stored (cs_world s) t \<noteq> 0"
  shows "wait_inv s"
  using assms by (simp add: wait_inv_def)

lemma wait_invD:
  assumes "wait_inv s"
  shows "exists_future (cs_status s f) \<Longrightarrow>
      cf_alive (w_future (cs_world s) f) \<and> token_of (cs_world s) f < w_next (cs_world s)"
    and "cs_status s f = Suspended k \<Longrightarrow> delivered s f k"
    and "polling (cs_phase s th) f \<Longrightarrow> cs_status s f = PollingBy th"
    and "polled (cs_phase s th) f k \<Longrightarrow> stored (cs_world s) (token_of (cs_world s) f) \<noteq> 0
      \<or> entry f k \<in> set (waiters_at (cs_world s) (token_of (cs_world s) f))"
    and "taking (cs_phase s th) t \<Longrightarrow> t < w_next (cs_world s) \<and> stored (cs_world s) t \<noteq> 0"
  using assms unfolding wait_inv_def by blast+

lemma polled_polling: "polled ph f k \<Longrightarrow> polling ph f"
  by (cases ph) simp_all

text \<open>Steps that touch no waiter and no future: a thread outside the waiting phases moves.\<close>

definition same_waits :: "world \<Rightarrow> world \<Rightarrow> bool" where
  "same_waits w w' \<longleftrightarrow> w_next w \<le> w_next w' \<and> w_future w' = w_future w \<and> w_woken w' = w_woken w \<and>
     (\<forall>t < w_next w. waiters_at w' t = waiters_at w t \<and> stored w' t = stored w t)"

definition wait_free :: "cancel_phase \<Rightarrow> bool" where
  "wait_free ph \<longleftrightarrow> (\<forall>w e f t. \<not> carries ph w e \<and> \<not> polling ph f \<and> \<not> taking ph t)"

lemma delivered_frame:
  assumes "same_waits (cs_world s) (cs_world s')" "cs_phase s' = (cs_phase s)(th := ph)" "wait_free (cs_phase s th)"
    and "token_of (cs_world s) f < w_next (cs_world s)" "delivered s f k"
  shows "delivered s' f k"
proof -
  have eq: "w_future (cs_world s') = w_future (cs_world s)" "w_woken (cs_world s') = w_woken (cs_world s)"
    "waiters_at (cs_world s') (token_of (cs_world s) f) = waiters_at (cs_world s) (token_of (cs_world s) f)"
    "stored (cs_world s') (token_of (cs_world s) f) = stored (cs_world s) (token_of (cs_world s) f)"
    using assms(1,4) by (simp_all add: same_waits_def)
  have "carries (cs_phase s' th') (cs_world s') (entry f k)" if "carries (cs_phase s th') (cs_world s) (entry f k)" for th'
  proof -
    have "th' \<noteq> th" using that assms(3) by (auto simp: wait_free_def)
    then show ?thesis using that eq assms(2) by (cases "cs_phase s th'") simp_all
  qed
  then show ?thesis using assms(5) eq unfolding delivered_def Let_def by auto
qed

lemma wait_inv_frame:
  assumes inv: "wait_inv s" and same: "same_waits (cs_world s) (cs_world s')"
    and ph: "cs_phase s' = (cs_phase s)(th := ph)" "cs_status s' = cs_status s"
    and free: "wait_free (cs_phase s th)" "wait_free ph"
  shows "wait_inv s'"
proof (rule wait_invI)
  show "cf_alive (w_future (cs_world s') f) \<and> token_of (cs_world s') f < w_next (cs_world s')"
    if "exists_future (cs_status s' f)" for f
    using wait_invD(1) [OF inv, of f] that same ph by (auto simp: same_waits_def)
  show "delivered s' f k" if "cs_status s' f = Suspended k" for f k
  proof -
    have "cs_status s f = Suspended k" using that ph by simp
    then show ?thesis
      using delivered_frame [OF same ph(1) free(1)] wait_invD(1,2) [OF inv, of f] by (simp add: exists_future_def)
  qed
  show "cs_status s' f = PollingBy th'" if "polling (cs_phase s' th') f" for th' f
    using that wait_invD(3) [OF inv, of th' f] ph free(2) by (auto simp: wait_free_def split: if_splits)
  show "stored (cs_world s') (token_of (cs_world s') f) \<noteq> 0
      \<or> entry f k \<in> set (waiters_at (cs_world s') (token_of (cs_world s') f))" if "polled (cs_phase s' th') f k" for th' f k
  proof -
    have old: "polled (cs_phase s th') f k"
      using that ph(1) free(2) polled_polling [of ph f k] by (auto simp: wait_free_def split: if_splits)
    then have "exists_future (cs_status s f)"
      using wait_invD(3) [OF inv polled_polling [OF old]] by (simp add: exists_future_def)
    then have "token_of (cs_world s) f < w_next (cs_world s)" using wait_invD(1) [OF inv] by simp
    with same wait_invD(4) [OF inv old] show ?thesis by (simp add: same_waits_def)
  qed
  show "t < w_next (cs_world s') \<and> stored (cs_world s') t \<noteq> 0" if "taking (cs_phase s' th') t" for th' t
    using that wait_invD(5) [OF inv, of th' t] ph(1) free(2) same
    by (auto simp: wait_free_def same_waits_def split: if_splits)
qed

text \<open>Steps that change the waiters, the futures or the wakers.\<close>

lemma wait_inv_move:
  assumes inv: "wait_inv s" and "cs_phase s' = (cs_phase s)(th := ph)" "cs_status s' = cs_status s"
    and fut: "\<And>f. token_of (cs_world s') f = token_of (cs_world s) f
        \<and> cf_alive (w_future (cs_world s') f) = cf_alive (w_future (cs_world s) f)"
    and "w_next (cs_world s') = w_next (cs_world s)"
    and deliver: "\<And>f k. cs_status s f = Suspended k \<Longrightarrow> cf_alive (w_future (cs_world s) f) \<Longrightarrow> delivered s f k \<Longrightarrow> delivered s' f k"
    and poll: "\<And>f. polling ph f \<Longrightarrow> polling (cs_phase s th) f"
    and here: "\<And>f k. polled ph f k \<Longrightarrow> cf_alive (w_future (cs_world s) f) \<Longrightarrow> stored (cs_world s') (token_of (cs_world s) f) \<noteq> 0
      \<or> entry f k \<in> set (waiters_at (cs_world s') (token_of (cs_world s) f))"
    and there: "\<And>f k. (\<not> polling (cs_phase s th) f) \<Longrightarrow> cf_alive (w_future (cs_world s) f) \<Longrightarrow> stored (cs_world s) (token_of (cs_world s) f) \<noteq> 0
        \<or> entry f k \<in> set (waiters_at (cs_world s) (token_of (cs_world s) f)) \<Longrightarrow>
      stored (cs_world s') (token_of (cs_world s) f) \<noteq> 0
        \<or> entry f k \<in> set (waiters_at (cs_world s') (token_of (cs_world s) f))"
    and swap: "\<And>t. taking ph t \<Longrightarrow> t < w_next (cs_world s) \<and> stored (cs_world s') t \<noteq> 0"
      "\<And>t. stored (cs_world s) t \<noteq> 0 \<Longrightarrow> stored (cs_world s') t \<noteq> 0"
  shows "wait_inv s'"
proof (rule wait_invI)
  show "t < w_next (cs_world s') \<and> stored (cs_world s') t \<noteq> 0" if "taking (cs_phase s' th') t" for th' t
    using that wait_invD(5) [OF inv, of th' t] assms(2,5) swap by (auto split: if_splits)
  show "cf_alive (w_future (cs_world s') f) \<and> token_of (cs_world s') f < w_next (cs_world s')"
    if "exists_future (cs_status s' f)" for f
    using wait_invD(1) [OF inv, of f] that assms(3-5) by auto
  show "delivered s' f k" if "cs_status s' f = Suspended k" for f k
    using wait_invD(1,2) [OF inv, of f] that assms(3) deliver [of f k] by (simp add: exists_future_def)
  show status: "cs_status s' f = PollingBy th'" if "polling (cs_phase s' th') f" for th' f
    using that wait_invD(3) [OF inv, of th' f] wait_invD(3) [OF inv, of th f] poll [of f] assms(2,3)
    by (auto split: if_splits)
  show "stored (cs_world s') (token_of (cs_world s') f) \<noteq> 0
      \<or> entry f k \<in> set (waiters_at (cs_world s') (token_of (cs_world s') f))" if "polled (cs_phase s' th') f k" for th' f k
  proof -
    have "cs_status s f = PollingBy th'" using status [OF polled_polling [OF that]] assms(3) by simp
    then have alive: "cf_alive (w_future (cs_world s) f)" using wait_invD(1) [OF inv, of f] by (simp add: exists_future_def)
    show ?thesis
    proof (cases "th' = th")
      case True
      then show ?thesis using here [of f k] that alive assms(2) fut by simp
    next
      case False
      then have old: "polled (cs_phase s th') f k" using that assms(2) by simp
      have "\<not> polling (cs_phase s th) f"
        using wait_invD(3) [OF inv, of th f] \<open>cs_status s f = PollingBy th'\<close> False by auto
      from there [OF this alive wait_invD(4) [OF inv old]] show ?thesis by (simp add: fut)
    qed
  qed
qed

lemma delivered_step:
  assumes "cs_phase s' = (cs_phase s)(th := ph)" and tok: "token_of (cs_world s') f = token_of (cs_world s) f"
    and woken: "entry f k \<in> set (w_woken (cs_world s)) \<Longrightarrow> entry f k \<in> set (w_woken (cs_world s'))"
    and stays: "entry f k \<in> set (waiters_at (cs_world s) (token_of (cs_world s) f)) \<Longrightarrow>
      entry f k \<in> set (waiters_at (cs_world s') (token_of (cs_world s) f)) \<or> delivered s' f k"
    and zero: "entry f k \<in> set (waiters_at (cs_world s) (token_of (cs_world s) f)) \<Longrightarrow>
      stored (cs_world s) (token_of (cs_world s) f) = 0 \<Longrightarrow>
      stored (cs_world s') (token_of (cs_world s) f) = 0 \<or> delivered s' f k"
    and here: "carries (cs_phase s th) (cs_world s) (entry f k) \<Longrightarrow> delivered s' f k"
    and old: "delivered s f k"
  shows "delivered s' f k"
proof -
  have carried: "delivered s' f k" if "carries (cs_phase s' th') (cs_world s') (entry f k)" for th'
    using that by (auto simp: delivered_def Let_def)
  have "delivered s' f k" if "carries (cs_phase s th') (cs_world s) (entry f k)" "th' \<noteq> th" for th'
  proof (cases "cs_phase s th'")
    case (TakingWaiters t r pending c ps)
    with that(1) stays have "entry f k \<in> set (waiters_at (cs_world s') (token_of (cs_world s) f)) \<or> delivered s' f k"
      by auto
    then show ?thesis using carried [of th'] TakingWaiters that assms(1) tok by auto
  next
    case (Waking t r es pending c ps)
    with that assms(1) carried [of th'] show ?thesis by simp
  qed (use that(1) in simp_all)
  with here have "delivered s' f k" if "\<exists>th'. carries (cs_phase s th') (cs_world s) (entry f k)"
    using that by metis
  moreover have "delivered s' f k" if "entry f k \<in> set (w_woken (cs_world s))"
    using woken [OF that] by (simp add: delivered_def)
  moreover have "delivered s' f k" if e: "entry f k \<in> set (waiters_at (cs_world s) (token_of (cs_world s) f))"
    "stored (cs_world s) (token_of (cs_world s) f) = 0"
    using stays [OF e(1)] zero [OF e] tok by (auto simp: delivered_def [of s'] Let_def)
  ultimately show ?thesis using old unfolding delivered_def [of s] Let_def by blast
qed

lemma wait_inv_won:
  assumes inv: "wait_inv s" and ph: "cs_phase s th = Popping ((t, r) # pending) c ps"
    and swap: "try_cancel r t (cs_world s) = (True, w')" and known: "t < w_next (cs_world s)"
  shows "wait_inv (move_to th (TakingWaiters t r pending c ps) w' s)" (is "wait_inv ?s")
proof -
  have zero: "stored (cs_world s) t = 0" and
    w': "w' = set_inner (cs_world s) t ((w_inner (cs_world s) t)\<lparr>in_reason := reason_code r\<rparr>)"
    using swap by (auto simp: try_cancel_def split: if_splits)
  have taken: "delivered ?s f k" if "entry f k \<in> set (waiters_at (cs_world s) t)" "token_of (cs_world s) f = t" for f k
    unfolding delivered_def Let_def
    by (rule disjI2, rule disjI2, rule exI [of _ th]) (use that in \<open>simp add: move_to_def w' set_inner_def\<close>)
  show ?thesis
  proof (rule wait_inv_move [OF inv, where th = th and ph = "TakingWaiters t r pending c ps"])
    show "delivered ?s f k" if "delivered s f k" for f k
      by (rule delivered_step [where th = th and ph = "TakingWaiters t r pending c ps", OF _ _ _ _ _ _ that])
         (use taken [of f k] in \<open>auto simp: move_to_def w' set_inner_def ph\<close>)
  qed (use known in \<open>auto simp: move_to_def w' set_inner_def\<close>)
qed

lemma wait_inv_take:
  assumes inv: "wait_inv s" and ph: "cs_phase s th = TakingWaiters t r pending c ps"
    and take: "take_waiters t (cs_world s) = (es, w')"
  shows "wait_inv (move_to th (Waking t r es pending c ps) w' s)" (is "wait_inv ?s")
proof -
  have nz: "stored (cs_world s) t \<noteq> 0" using wait_invD(5) [OF inv, of th t] by (simp add: ph)
  have w': "es = waiters_at (cs_world s) t" "w' = set_inner (cs_world s) t ((w_inner (cs_world s) t)\<lparr>in_waiters := []\<rparr>)"
    using take by (auto simp: take_waiters_def)
  have taken: "delivered ?s f k" if "entry f k \<in> set (waiters_at (cs_world s) t)" for f k
    unfolding delivered_def Let_def
    by (rule disjI2, rule disjI2, rule exI [of _ th]) (use that in \<open>simp add: move_to_def w'\<close>)
  show ?thesis
  proof (rule wait_inv_move [OF inv, where th = th and ph = "Waking t r es pending c ps"])
    show "delivered ?s f k" if "delivered s f k" for f k
      by (rule delivered_step [where th = th and ph = "Waking t r es pending c ps", OF _ _ _ _ _ _ that])
         (use taken [of f k] in \<open>auto simp: move_to_def w' set_inner_def ph\<close>)
  qed (use nz in \<open>auto simp: move_to_def w' set_inner_def split: if_splits\<close>)
qed

lemma wait_inv_wake:
  assumes inv: "wait_inv s" and ph: "cs_phase s th = Waking t r (e # es) pending c ps"
  shows "wait_inv (move_to th (Waking t r es pending c ps) (wake_waiter e (cs_world s)) s)" (is "wait_inv ?s")
proof (rule wait_inv_move [OF inv, where th = th and ph = "Waking t r es pending c ps"])
  show "delivered ?s f k" if alive: "cf_alive (w_future (cs_world s) f)" and old: "delivered s f k" for f k
  proof (rule delivered_step [where th = th and ph = "Waking t r es pending c ps", OF _ _ _ _ _ _ old])
    show "delivered ?s f k" if "carries (cs_phase s th) (cs_world s) (entry f k)"
    proof (cases "entry f k \<in> set es")
      case True
      then show ?thesis
        unfolding delivered_def Let_def by (intro disjI2, intro exI [of _ th]) (simp add: move_to_def)
    next
      case False
      with that have "e = entry f k" by (auto simp: ph)
      then show ?thesis using alive by (auto simp: delivered_def Let_def move_to_def wake_waiter_def)
    qed
  qed (auto simp: move_to_def wake_waiter_def)
qed (auto simp: move_to_def)

lemma update_waiter_mem:
  "entry f k \<in> set (update_waiter f k es)"
  "e \<in> set es \<Longrightarrow> we_owner e \<noteq> f \<Longrightarrow> e \<in> set (update_waiter f k es)"
  by (induction es) auto

lemma register_facts:
  "w_next (register_waiter f k w) = w_next w" "w_woken (register_waiter f k w) = w_woken w"
  "stored (register_waiter f k w) t = stored w t"
  "token_of (register_waiter f k w) f' = token_of w f'"
  "cf_alive (w_future (register_waiter f k w) f') = cf_alive (w_future w f')"
  "entry f k \<in> set (waiters_at (register_waiter f k w) (token_of w f))"
  "e \<in> set (waiters_at w t) \<Longrightarrow> we_owner e \<noteq> f \<Longrightarrow> cf_alive (w_future w (we_owner e)) \<Longrightarrow>
     e \<in> set (waiters_at (register_waiter f k w) t)"
  by (auto simp: register_waiter_def set_waiters_def set_inner_def set_future_def Let_def update_waiter_mem)

lemma remove_facts:
  "w_next (remove_waiter f w) = w_next w" "w_woken (remove_waiter f w) = w_woken w"
  "w_future (remove_waiter f w) = w_future w" "stored (remove_waiter f w) t = stored w t"
  "e \<in> set (waiters_at w t) \<Longrightarrow> we_owner e \<noteq> f \<Longrightarrow> cf_alive (w_future w (we_owner e)) \<Longrightarrow>
     e \<in> set (waiters_at (remove_waiter f w) t)"
  by (auto simp: remove_waiter_def set_waiters_def set_inner_def Let_def)

lemma wait_inv_register:
  assumes inv: "wait_inv s" and ph: "cs_phase s th = Registering f k"
  shows "wait_inv (move_to th (Arming f k) (register_waiter f k (cs_world s)) s)" (is "wait_inv ?s")
proof (rule wait_inv_move [OF inv, where th = th and ph = "Arming f k"])
  have f: "cs_status s f = PollingBy th" using wait_invD(3) [OF inv, of th f] by (simp add: ph)
  show "delivered ?s f' k'" if "cs_status s f' = Suspended k'" and alive: "cf_alive (w_future (cs_world s) f')"
    and old: "delivered s f' k'" for f' k'
  proof (rule delivered_step [where th = th and ph = "Arming f k", OF _ _ _ _ _ _ old])
    have "f' \<noteq> f" using that f by auto
    then show "entry f' k' \<in> set (waiters_at (cs_world ?s) (token_of (cs_world s) f')) \<or> delivered ?s f' k'"
      if "entry f' k' \<in> set (waiters_at (cs_world s) (token_of (cs_world s) f'))"
      using register_facts(7) [OF that, of f k] alive by (simp add: move_to_def)
  qed (simp_all add: move_to_def register_facts ph)
  show "stored (cs_world ?s) (token_of (cs_world s) f') \<noteq> 0
      \<or> entry f' k' \<in> set (waiters_at (cs_world ?s) (token_of (cs_world s) f'))"
    if "\<not> polling (cs_phase s th) f'" and alive: "cf_alive (w_future (cs_world s) f')"
      and old: "stored (cs_world s) (token_of (cs_world s) f') \<noteq> 0
        \<or> entry f' k' \<in> set (waiters_at (cs_world s) (token_of (cs_world s) f'))" for f' k'
  proof -
    have "f' \<noteq> f" using that(1) by (auto simp: ph)
    then show ?thesis
      using old register_facts(7) [of "entry f' k'" "cs_world s" "token_of (cs_world s) f'" f k] alive
      by (auto simp: move_to_def register_facts)
  qed
qed (simp_all add: move_to_def register_facts ph)

lemma wait_inv_arm:
  assumes inv: "wait_inv s" and ph: "cs_phase s th = Arming f k" and arm: "arm_worker ok f (cs_world s) = (b, w')"
  shows "wait_inv (move_to th (Rechecking f k b) w' s)" (is "wait_inv ?s")
proof -
  have facts: "w_next w' = w_next (cs_world s)" "w_inner w' = w_inner (cs_world s)" "w_woken w' = w_woken (cs_world s)"
    "token_of w' f' = token_of (cs_world s) f'" "cf_alive (w_future w' f') = cf_alive (w_future (cs_world s) f')" for f'
    using arm by (auto simp: arm_worker_def ensure_worker_def set_future_def Let_def split: if_splits)
  show ?thesis
  proof (rule wait_inv_move [OF inv, where th = th and ph = "Rechecking f k b"])
    show "delivered ?s f' k'" if "delivered s f' k'" for f' k'
      by (rule delivered_step [where th = th and ph = "Rechecking f k b", OF _ _ _ _ _ _ that])
         (simp_all add: move_to_def facts ph)
    show "stored (cs_world ?s) (token_of (cs_world s) f') \<noteq> 0
        \<or> entry f' k' \<in> set (waiters_at (cs_world ?s) (token_of (cs_world s) f'))" if "polled (Rechecking f k b) f' k'" for f' k'
      using wait_invD(4) [OF inv, of th f k] that by (simp add: move_to_def facts ph)
  qed (auto simp: move_to_def facts ph)
qed

text \<open>Steps that also change the status of one future, always in a thread that is outside \<open>cancel_tree\<close>.\<close>

lemma wait_inv_status:
  assumes inv: "wait_inv s" and phs: "cs_phase s' = (cs_phase s)(th := ph)" "cs_status s' = (cs_status s)(f0 := st)"
    and nx: "w_next (cs_world s') = w_next (cs_world s)" "\<And>t. stored (cs_world s') t = stored (cs_world s) t"
    and fut: "\<And>f. f \<noteq> f0 \<Longrightarrow> token_of (cs_world s') f = token_of (cs_world s) f
        \<and> cf_alive (w_future (cs_world s') f) = cf_alive (w_future (cs_world s) f)"
    and own: "exists_future st \<Longrightarrow> cf_alive (w_future (cs_world s') f0) \<and> token_of (cs_world s') f0 < w_next (cs_world s)"
    and keep: "\<And>f k. f \<noteq> f0 \<Longrightarrow> cf_alive (w_future (cs_world s) f) \<Longrightarrow>
        entry f k \<in> set (waiters_at (cs_world s) (token_of (cs_world s) f)) \<Longrightarrow>
        entry f k \<in> set (waiters_at (cs_world s') (token_of (cs_world s) f))"
      "\<And>f k. f \<noteq> f0 \<Longrightarrow> entry f k \<in> set (w_woken (cs_world s)) \<Longrightarrow> entry f k \<in> set (w_woken (cs_world s'))"
    and susp: "\<And>k. st = Suspended k \<Longrightarrow> delivered s' f0 k"
    and idle: "\<And>w e. \<not> carries (cs_phase s th) w e" "\<And>f k. \<not> polled ph f k" "\<And>t. \<not> taking ph t"
    and poll: "\<And>f. polling ph f \<Longrightarrow> f = f0 \<and> st = PollingBy th"
      "\<And>th'. cs_status s f0 = PollingBy th' \<Longrightarrow> th' = th"
  shows "wait_inv s'"
proof (rule wait_invI)
  show "cf_alive (w_future (cs_world s') f) \<and> token_of (cs_world s') f < w_next (cs_world s')"
    if "exists_future (cs_status s' f)" for f
    using wait_invD(1) [OF inv, of f] that phs(2) nx(1) fut [of f] own by (cases "f = f0") auto
  show "delivered s' f k" if "cs_status s' f = Suspended k" for f k
  proof (cases "f = f0")
    case False
    with that phs(2) have "cs_status s f = Suspended k" by simp
    then have "cf_alive (w_future (cs_world s) f)" "delivered s f k"
      using wait_invD(1,2) [OF inv, of f] by (simp_all add: exists_future_def)
    note alive = this(1) and old = this(2)
    show ?thesis
    proof (rule delivered_step [OF phs(1) _ keep(2) [OF False] _ _ _ old])
      show "entry f k \<in> set (waiters_at (cs_world s') (token_of (cs_world s) f)) \<or> delivered s' f k"
        if "entry f k \<in> set (waiters_at (cs_world s) (token_of (cs_world s) f))"
        using keep(1) [OF False alive that] ..
    qed (simp_all add: fut [OF False] nx idle)
  qed (use that phs(2) susp in auto)
  show status: "cs_status s' f = PollingBy th'" if "polling (cs_phase s' th') f" for th' f
  proof (cases "th' = th")
    case True
    then show ?thesis using poll(1) [of f] that phs by auto
  next
    case False
    then have "cs_status s f = PollingBy th'" using that phs(1) wait_invD(3) [OF inv, of th' f] by simp
    with False poll(2) phs(2) show ?thesis by auto
  qed
  show "stored (cs_world s') (token_of (cs_world s') f) \<noteq> 0
      \<or> entry f k \<in> set (waiters_at (cs_world s') (token_of (cs_world s') f))" if "polled (cs_phase s' th') f k" for th' f k
  proof -
    have ne: "th' \<noteq> th" using that phs(1) idle(2) by auto
    then have old: "polled (cs_phase s th') f k" using that phs(1) by simp
    then have st: "cs_status s f = PollingBy th'" using wait_invD(3) [OF inv] polled_polling by blast
    then have "f \<noteq> f0" "cf_alive (w_future (cs_world s) f)"
      using ne poll(2) wait_invD(1) [OF inv, of f] by (auto simp: exists_future_def)
    then show ?thesis using wait_invD(4) [OF inv old] fut [of f] keep(1) [of f k] nx(2) by auto
  qed
  show "t < w_next (cs_world s') \<and> stored (cs_world s') t \<noteq> 0" if "taking (cs_phase s' th') t" for th' t
    using that wait_invD(5) [OF inv, of th' t] phs(1) idle(3) nx by (auto split: if_splits)
qed

lemma pollable_facts: "pollable st \<Longrightarrow> exists_future st \<and> st \<noteq> PollingBy th"
  by (auto simp: pollable_def exists_future_def)

lemma wait_inv_new_future:
  assumes inv: "wait_inv s" and "cs_phase s th = CIdle" "cs_status s f = NotCreated" "t < w_next (cs_world s)"
  shows "wait_inv (set_status f Created (move_to th CIdle (token_cancelled f t (cs_world s)) s))"
  by (rule wait_inv_status [OF inv, where th = th and ph = CIdle and ?f0.0 = f and st = Created])
     (use assms(2-4) in \<open>simp_all add: set_status_def move_to_def token_cancelled_def set_future_def\<close>)

lemma wait_inv_poll_ready:
  assumes inv: "wait_inv s" and "cs_phase s th = CIdle" "pollable (cs_status s f)"
  shows "wait_inv (set_status f (Finished r) (move_to th CIdle (cs_world s) s))"
  by (rule wait_inv_status [OF inv, where th = th and ph = CIdle and ?f0.0 = f and st = "Finished r"])
     (use assms(2) pollable_facts [OF assms(3)] wait_invD(1) [OF inv, of f]
       in \<open>simp_all add: set_status_def move_to_def\<close>)

lemma wait_inv_poll_start:
  assumes inv: "wait_inv s" and "cs_phase s th = CIdle" "pollable (cs_status s f)"
  shows "wait_inv (set_status f (PollingBy th) (move_to th (Registering f k) (forget_wakes f (cs_world s)) s))"
  by (rule wait_inv_status [OF inv, where th = th and ph = "Registering f k" and ?f0.0 = f and st = "PollingBy th"])
     (use assms(2) pollable_facts [OF assms(3)] wait_invD(1) [OF inv, of f]
       in \<open>simp_all add: set_status_def move_to_def forget_wakes_def\<close>)

lemma wait_inv_poll_pending:
  assumes inv: "wait_inv s" and ph: "cs_phase s th = Rechecking f k b" and known: "world_known (cs_world s)"
    and fin: "finish_poll b f k (cs_world s) = (None, w')"
  shows "wait_inv (set_status f (Suspended k) (move_to th CIdle w' s))"
proof -
  have none: "token_reason (cs_world s) (token_of (cs_world s) f) = None"
    using fin by (simp add: finish_poll_def Let_def split: option.splits)
  then have zero: "stored (cs_world s) (token_of (cs_world s) f) = 0" using stored_of_reason(1) [OF known] by blast
  then have mem: "entry f k \<in> set (waiters_at (cs_world s) (token_of (cs_world s) f))"
    using wait_invD(4) [OF inv, of th f k] by (simp add: ph)
  have st: "cs_status s f = PollingBy th" using wait_invD(3) [OF inv, of th f] by (simp add: ph)
  have w': "w_inner w' = w_inner (cs_world s)" "w_next w' = w_next (cs_world s)" "w_future w' = w_future (cs_world s)"
    "set (w_woken (cs_world s)) \<subseteq> set (w_woken w')"
    using fin by (auto simp: finish_poll_def none)
  show ?thesis
    by (rule wait_inv_status [OF inv, where th = th and ph = CIdle and ?f0.0 = f and st = "Suspended k"])
       (use st wait_invD(1) [OF inv, of f] zero mem w' in
         \<open>auto simp: set_status_def move_to_def ph exists_future_def delivered_def Let_def\<close>)
qed

lemma wait_inv_poll_finish:
  assumes inv: "wait_inv s" and ph: "cs_phase s th = Rechecking f k b"
    and fin: "finish_poll b f k (cs_world s) = (Some r, w')"
  shows "wait_inv (set_status f (Finished r) (move_to th CIdle w' s))"
proof -
  have st: "cs_status s f = PollingBy th" using wait_invD(3) [OF inv, of th f] by (simp add: ph)
  let ?w = "remove_waiter f (cs_world s)"
  have w': "w' = set_future ?w f ((w_future ?w f)\<lparr>cf_registered := False\<rparr>)"
    using fin by (auto simp: finish_poll_def Let_def split: option.splits)
  show ?thesis
    by (rule wait_inv_status [OF inv, where th = th and ph = CIdle and ?f0.0 = f and st = "Finished r"])
       (use st wait_invD(1) [OF inv, of f] in
         \<open>simp_all add: set_status_def move_to_def ph w' set_future_def remove_facts exists_future_def\<close>)
qed

lemma wait_inv_drop_future:
  assumes inv: "wait_inv s" and ph: "cs_phase s th = CIdle"
    and st: "pollable (cs_status s f) \<or> (\<exists>r. cs_status s f = Finished r)"
  shows "wait_inv (set_status f Gone (move_to th CIdle (drop_cancelled f (cs_world s)) s))"
proof -
  let ?w = "if cf_registered (w_future (cs_world s) f) then remove_waiter f (cs_world s) else cs_world s"
  have w': "drop_cancelled f (cs_world s) = set_future ?w f ((w_future ?w f)\<lparr>cf_alive := False\<rparr>)"
    by (simp add: drop_cancelled_def Let_def)
  have np: "cs_status s f \<noteq> PollingBy th'" for th' using st by (auto simp: pollable_def)
  show ?thesis
    by (rule wait_inv_status [OF inv, where th = th and ph = CIdle and ?f0.0 = f and st = Gone])
       (simp_all add: set_status_def move_to_def ph w' set_future_def remove_facts exists_future_def np)
qed

lemma same_waits_rules:
  "same_waits w w"
  "same_waits w (w\<lparr>w_now := n\<rparr>)"
  "new_inner ok d w = (c, w') \<Longrightarrow> same_waits w w'"
  "pop_expired w = Some (e, w') \<Longrightarrow> same_waits w w'"
  "try_cancel r t w = (False, w') \<Longrightarrow> same_waits w w'"
  "take_children t w = (cs, w') \<Longrightarrow> same_waits w w'"
  "same_waits w (push_child p c w)"
  "same_waits w (drop_token t w)"
  using new_inner_facts [of ok d w c w'] pop_expired_facts [of w e w']
  by (auto simp: same_waits_def try_cancel_def take_children_def push_child_def drop_token_def set_inner_def
        split: if_splits)

lemma wait_inv_free:
  assumes "wait_inv s" "same_waits (cs_world s) w'" "wait_free (cs_phase s th)" "wait_free ph"
  shows "wait_inv (move_to th ph w' s)"
  by (rule wait_inv_frame [OF assms(1) _ _ _ assms(3,4)]) (simp_all add: move_to_def assms(2))

lemma wait_free_phases:
  "wait_free CIdle" "wait_free (Popping pending c ps)" "wait_free (Waking t r [] pending c ps)"
  "wait_free (TakingChildren t r pending c ps)" "wait_free (Pushing c todo ps)" "wait_free (Checking c ps)"
  by (simp_all add: wait_free_def)

lemma carries_clock [simp]: "carries ph (w\<lparr>w_now := n\<rparr>) e = carries ph w e"
  by (cases ph) simp_all

lemma wait_inv_cancel_step: "cancel_step s s' \<Longrightarrow> tree_inv s \<Longrightarrow> wait_inv s \<Longrightarrow> wait_inv s'"
proof (induction rule: cancel_step.induct)
  case (tick w n s)
  then show ?case
    by (simp add: wait_inv_def delivered_def Let_def)
next
  case (pop_won s th t r pending c ps w)
  then have "t < w_next (cs_world s)"
    using known_phase [OF tree_inv_parts(1) [OF pop_won.prems(1)] pop_won.hyps(1)] by simp
  then show ?case using wait_inv_won [OF pop_won.prems(2) pop_won.hyps] by simp
next
  case (take_waiters s th t r pending c ps es w)
  then show ?case using wait_inv_take by simp
next
  case (wake_one s th t r e es pending c ps)
  then show ?case using wait_inv_wake by simp
next
  case (poll_pending s th f k retry w)
  then show ?case
    using wait_inv_poll_pending [OF poll_pending.prems(2) poll_pending.hyps(1) tree_inv_parts(5)] by simp
qed (auto intro: wait_inv_free wait_inv_new_future wait_inv_poll_ready wait_inv_poll_start wait_inv_register
      wait_inv_arm wait_inv_poll_finish wait_inv_drop_future simp: same_waits_rules wait_free_phases)

lemma wait_inv_init: "wait_inv (cancel_init now)"
  by (simp add: wait_inv_def cancel_init_def exists_future_def)

lemma cancel_reachable_inv: "cancel_reachable s \<Longrightarrow> tree_inv s \<and> wait_inv s"
  unfolding cancel_reachable_def
  by (auto elim!: rtranclp_induct intro: tree_inv_init wait_inv_init tree_inv_cancel_step wait_inv_cancel_step)

section \<open>The first cause\<close>

lemma cancel_step_final:
  "cancel_step s s' \<Longrightarrow> w_next (cs_world s) \<le> w_next (cs_world s') \<and>
     (\<forall>t < w_next (cs_world s). stored (cs_world s) t \<noteq> 0 \<longrightarrow> stored (cs_world s') t = stored (cs_world s) t)"
proof (induction rule: cancel_step.induct)
  case (pop_won s th t r pending c ps w)
  then show ?case by (auto simp: try_cancel_def set_inner_def move_to_def split: if_splits)
next
  case (take_waiters s th t r pending c ps es w)
  then show ?case using same_tree_take by (auto simp: same_tree_def move_to_def)
next
  case (poll_arm s th f k ok retry w)
  then show ?case using same_tree_arm by (auto simp: same_tree_def move_to_def)
next
  case (poll_pending s th f k retry w)
  then show ?case using same_tree_finish by (auto simp: same_tree_def move_to_def set_status_def)
next
  case (poll_finish s th f k retry r w)
  then show ?case using same_tree_finish by (auto simp: same_tree_def move_to_def set_status_def)
next
  case (drop_future s th f)
  then show ?case using same_tree_drop [of "cs_world s" f] by (auto simp: same_tree_def move_to_def set_status_def)
next
  case (poll_register s th f k)
  then show ?case by (simp add: move_to_def register_facts)
qed (use same_waits_rules in \<open>simp_all add: same_waits_def move_to_def set_status_def token_cancelled_def set_future_def
      forget_wakes_def\<close>)

lemma cancel_steps_final:
  "cancel_step\<^sup>*\<^sup>* s s' \<Longrightarrow> w_next (cs_world s) \<le> w_next (cs_world s') \<and>
     (\<forall>t < w_next (cs_world s). stored (cs_world s) t \<noteq> 0 \<longrightarrow> stored (cs_world s') t = stored (cs_world s) t)"
proof (induction rule: rtranclp_induct)
  case (step s' s'')
  then show ?case using cancel_step_final [OF step.hyps(2)] by (metis le_trans less_le_trans)
qed simp

section \<open>Whole operations are runs of the steps\<close>

lemma move_to_world [simp]: "cs_world (move_to th ph w s) = w"
  by (simp add: move_to_def)

lemma move_to_phase [simp]: "cs_phase (move_to th ph w s) th = ph"
  by (simp add: move_to_def)

lemma move_to_again [simp]: "move_to th ph' w' (move_to th ph w s) = move_to th ph' w' s"
  by (simp add: move_to_def)

lemma steps_wake:
  "cs_phase s th = Waking t r es pending c ps \<Longrightarrow>
   cancel_step\<^sup>*\<^sup>* s (move_to th (TakingChildren t r pending c ps) (fold wake_waiter es (cs_world s)) s)"
proof (induction es arbitrary: s)
  case Nil
  then show ?case using cancel_step.wake_done by auto
next
  case (Cons e es)
  let ?s = "move_to th (Waking t r es pending c ps) (wake_waiter e (cs_world s)) s"
  have "cancel_step s ?s" using cancel_step.wake_one [OF Cons.prems] .
  moreover have "cancel_step\<^sup>*\<^sup>* ?s (move_to th (TakingChildren t r pending c ps) (fold wake_waiter (e # es) (cs_world s)) s)"
    using Cons.IH [of ?s] by simp
  ultimately show ?case by (rule converse_rtranclp_into_rtranclp)
qed

lemma steps_visit:
  assumes "cs_phase s th = Popping ((t, r) # pending) c ps" "stored (cs_world s) t = 0"
  shows "cancel_step\<^sup>*\<^sup>* s (move_to th (Popping (push_children (live_children t (cs_world s)) r pending) c ps)
           (snd (visit r t (cs_world s))) s)"
proof -
  let ?w1 = "snd (try_cancel r t (cs_world s))"
  obtain es w2 where take: "take_waiters t ?w1 = (es, w2)" by (cases "take_waiters t ?w1")
  let ?w3 = "fold wake_waiter es w2"
  obtain cs w4 where kids: "take_children t ?w3 = (cs, w4)" by (cases "take_children t ?w3")
  have swap: "try_cancel r t (cs_world s) = (True, ?w1)" using assms(2) by (simp add: try_cancel_def)
  have visit: "visit r t (cs_world s) = (cs, w4)" by (simp add: visit_def Let_def take kids)
  let ?s1 = "move_to th (TakingWaiters t r pending c ps) ?w1 s"
  let ?s2 = "move_to th (Waking t r es pending c ps) w2 s"
  let ?s3 = "move_to th (TakingChildren t r pending c ps) ?w3 s"
  have "cancel_step s ?s1" using cancel_step.pop_won [OF assms(1) swap] .
  moreover have "cancel_step ?s1 ?s2" using cancel_step.take_waiters [of ?s1 th] take by simp
  moreover have "cancel_step\<^sup>*\<^sup>* ?s2 ?s3" using steps_wake [of ?s2 th] by simp
  moreover have "cancel_step ?s3 (move_to th (Popping (push_children cs r pending) c ps) w4 s)"
    using cancel_step.take_children [of ?s3 th] kids by simp
  moreover have "cs = live_children t (cs_world s)" using visit_simps(1) [OF assms(2), of r] visit by simp
  ultimately show ?thesis using visit
    by (metis (no_types, lifting) converse_rtranclp_into_rtranclp rtranclp.rtrancl_into_rtrancl snd_conv)
qed

lemma steps_cancel_tree:
  "cs_phase s th = Popping pending c ps \<Longrightarrow> cs_world s = w \<Longrightarrow> children_known w \<Longrightarrow>
   fst ` set pending \<subseteq> {..<w_next w} \<Longrightarrow>
   cancel_step\<^sup>*\<^sup>* s (move_to th (Checking c ps) (cancel_tree pending w) s)"
proof (induction pending w arbitrary: s rule: cancel_tree_induct)
  case (empty w)
  then show ?case using cancel_step.pop_done by auto
next
  case (skip t r pending w)
  then have "try_cancel r t (cs_world s) = (False, w)" by (auto simp: try_cancel_def)
  from cancel_step.pop_lost [OF skip.prems(1) this]
  have "cancel_step s (move_to th (Popping pending c ps) w s)" .
  also have "cancel_step\<^sup>*\<^sup>* \<dots> (move_to th (Checking c ps) (cancel_tree pending w) s)"
    using skip.IH [of "move_to th (Popping pending c ps) w s"] skip.prems by simp
  finally show ?case using skip.hyps by (simp add: cancel_tree_skip)
next
  case (visit t r pending w)
  let ?s = "move_to th (Popping (push_children (live_children t w) r pending) c ps) (snd (visit r t w)) s"
  have "fst ` set (push_children (live_children t w) r pending) \<subseteq> {..<w_next w}"
    using visit.prems(3,4) unfolding push_children_tokens by (auto simp: live_children_def dest: known_child)
  then have "cancel_step\<^sup>*\<^sup>* ?s (move_to th (Checking c ps) (cancel_tree ((t, r) # pending) w) s)"
    using visit.IH [of ?s] visit_known [OF visit.prems(3) visit.hyps(2), of r] visit.hyps
    by (simp add: visit_simps cancel_tree_step)
  then show ?case using steps_visit [OF visit.prems(1)] visit.prems(2) visit.hyps(2) by (metis rtranclp_trans)
qed

lemma cancel_tree_known: "children_known w \<Longrightarrow> children_known (cancel_tree p w)"
  by (induction p w rule: cancel_tree_induct) (simp_all add: cancel_tree_skip cancel_tree_step visit_known)

lemma steps_check:
  assumes "cs_phase s th = Checking c (p # ps)" "children_known (cs_world s)" "c < w_next (cs_world s)"
  shows "cancel_step\<^sup>*\<^sup>* s (move_to th (Checking c ps) (check_parent c p (cs_world s)) s)"
proof (cases "token_reason (cs_world s) p")
  case None
  then show ?thesis using cancel_step.check_none [OF assms(1)] by (auto simp: check_parent_def)
next
  case (Some r)
  let ?s = "move_to th (Popping [(c, inherited r)] c ps) (cs_world s) s"
  have "cancel_step s ?s" using cancel_step.check_some [OF assms(1) Some] .
  also have "cancel_step\<^sup>*\<^sup>* ?s (move_to th (Checking c ps) (check_parent c p (cs_world s)) s)"
    using steps_cancel_tree [of ?s th "[(c, inherited r)]" c ps] assms(2,3) Some by (simp add: check_parent_def)
  finally show ?thesis .
qed

lemma check_parent_known:
  "children_known w \<Longrightarrow> children_known (check_parent c p w)" "w_next (check_parent c p w) = w_next w"
  by (auto simp: check_parent_def cancel_tree_known cancel_tree_frame split: option.splits)

lemma steps_checks:
  "cs_phase s th = Checking c ps \<Longrightarrow> children_known (cs_world s) \<Longrightarrow> c < w_next (cs_world s) \<Longrightarrow>
   cancel_step\<^sup>*\<^sup>* s (move_to th CIdle (fold (check_parent c) ps (cs_world s)) s)"
proof (induction ps arbitrary: s)
  case Nil
  then show ?case using cancel_step.check_done by auto
next
  case (Cons p ps)
  let ?s = "move_to th (Checking c ps) (check_parent c p (cs_world s)) s"
  have "cancel_step\<^sup>*\<^sup>* s ?s" using steps_check [OF Cons.prems] .
  also have "cancel_step\<^sup>*\<^sup>* ?s (move_to th CIdle (fold (check_parent c) (p # ps) (cs_world s)) s)"
    using Cons.IH [of ?s] Cons.prems by (simp add: check_parent_known)
  finally show ?case .
qed

lemma push_child_known: "children_known w \<Longrightarrow> c < w_next w \<Longrightarrow> children_known (push_child p c w)"
  by (auto simp: push_child_def set_inner_def children_known_def live_children_def split: if_splits)

lemma steps_pushes:
  "cs_phase s th = Pushing c todo ps \<Longrightarrow> children_known (cs_world s) \<Longrightarrow> c < w_next (cs_world s) \<Longrightarrow>
   cancel_step\<^sup>*\<^sup>* s (move_to th CIdle (fold (check_parent c) ps (fold (\<lambda>p. push_child p c) todo (cs_world s))) s)"
proof (induction todo arbitrary: s)
  case Nil
  have "cancel_step s (move_to th (Checking c ps) (cs_world s) s)" using cancel_step.push_done [OF Nil(1)] .
  also have "cancel_step\<^sup>*\<^sup>* \<dots> (move_to th CIdle (fold (check_parent c) ps (cs_world s)) s)"
    using steps_checks [of "move_to th (Checking c ps) (cs_world s) s" th c ps] Nil by simp
  finally show ?case by simp
next
  case (Cons p todo)
  let ?s = "move_to th (Pushing c todo ps) (push_child p c (cs_world s)) s"
  have "cancel_step s ?s" using cancel_step.push_one [OF Cons.prems(1)] .
  also have "cancel_step\<^sup>*\<^sup>* ?s (move_to th CIdle
      (fold (check_parent c) ps (fold (\<lambda>p. push_child p c) (p # todo) (cs_world s))) s)"
    using Cons.IH [of ?s] Cons.prems by (simp add: push_child_known next_frame)
  finally show ?case .
qed

lemma steps_linked:
  assumes "cs_phase s th = CIdle" "children_known (cs_world s)" "set ps \<subseteq> {..<w_next (cs_world s)}"
  shows "cancel_step\<^sup>*\<^sup>* s (move_to th CIdle (snd (linked ok ps (cs_world s))) s)"
proof -
  obtain c w where new: "new_inner ok (linked_deadline ps (cs_world s)) (cs_world s) = (c, w)"
    by (cases "new_inner ok (linked_deadline ps (cs_world s)) (cs_world s)")
  have "c < w_next w" "children_known w"
    using new_inner_facts [OF new] assms(2) by (auto simp: children_known_def fresh_inner_def less_SucI)
  then have "cancel_step\<^sup>*\<^sup>* (move_to th (Pushing c ps ps) w s) (move_to th CIdle (snd (linked ok ps (cs_world s))) s)"
    using steps_pushes [of "move_to th (Pushing c ps ps) w s" th c ps ps] by (simp add: linked_def new)
  with cancel_step.start_linked [OF assms(1,3) new] show ?thesis by (rule converse_rtranclp_into_rtranclp)
qed

lemma steps_child:
  assumes "cs_phase s th = CIdle" "children_known (cs_world s)" "p < w_next (cs_world s)"
  shows "cancel_step\<^sup>*\<^sup>* s (move_to th CIdle (snd (child_token_with_deadline ok p d (cs_world s))) s)"
proof -
  let ?d = "merge_deadline (in_deadline (w_inner (cs_world s) p)) d"
  obtain c w where new: "new_inner ok ?d (cs_world s) = (c, w)" by (cases "new_inner ok ?d (cs_world s)")
  have "c < w_next w" "children_known w"
    using new_inner_facts [OF new] assms(2) by (auto simp: children_known_def fresh_inner_def less_SucI)
  then have "cancel_step\<^sup>*\<^sup>* (move_to th (Pushing c [p] [p]) w s)
      (move_to th CIdle (snd (child_token_with_deadline ok p d (cs_world s))) s)"
    using steps_pushes [of "move_to th (Pushing c [p] [p]) w s" th c "[p]" "[p]"]
    by (simp add: child_token_with_deadline_def new)
  with cancel_step.start_child [OF assms(1,3) new] show ?thesis by (rule converse_rtranclp_into_rtranclp)
qed

lemma steps_from_popping:
  assumes "cs_phase s th = Popping [(t, r)] t []" "children_known (cs_world s)" "t < w_next (cs_world s)"
  shows "cancel_step\<^sup>*\<^sup>* s (move_to th CIdle (cancel_tree [(t, r)] (cs_world s)) s)"
proof -
  let ?s = "move_to th (Checking t []) (cancel_tree [(t, r)] (cs_world s)) s"
  have "cancel_step\<^sup>*\<^sup>* s ?s" using steps_cancel_tree [OF assms(1) refl assms(2)] assms(3) by simp
  moreover have "cancel_step ?s (move_to th CIdle (cancel_tree [(t, r)] (cs_world s)) s)"
    using cancel_step.check_done [of ?s th t] by simp
  ultimately show ?thesis by (rule rtranclp.rtrancl_into_rtrancl)
qed

lemma steps_cancel:
  assumes "cs_phase s th = CIdle" "children_known (cs_world s)" "t < w_next (cs_world s)"
  shows "cancel_step\<^sup>*\<^sup>* s (move_to th CIdle (cancel t (cs_world s)) s)"
proof -
  let ?s = "move_to th (Popping [(t, Requested)] t []) (cs_world s) s"
  have "cancel_step s ?s" using cancel_step.start_cancel [OF assms(1) _ assms(3), of Requested] by simp
  also have "cancel_step\<^sup>*\<^sup>* ?s (move_to th CIdle (cancel t (cs_world s)) s)"
    using steps_from_popping [of ?s th t Requested] assms by (simp add: cancel_def)
  finally show ?thesis .
qed

lemma steps_worker:
  assumes "cs_phase s th = CIdle" "world_known (cs_world s)"
  shows "cancel_step\<^sup>*\<^sup>* s (move_to th CIdle (worker_turn (cs_world s)) s)"
proof (cases "pop_expired (cs_world s)")
  case None
  have "move_to th CIdle (cs_world s) s = s" using assms(1) by (simp add: move_to_def fun_upd_idem)
  with None show ?thesis by (simp add: worker_turn_def)
next
  case (Some ew)
  obtain e w where ew: "ew = (e, w)" by (cases ew)
  note pop = Some [unfolded ew]
  have w: "children_known w" "snd e < w_next w"
    using world_known_pop [OF pop assms(2)] next_frame(5) [OF pop] by (auto simp: world_known_def)
  show ?thesis
  proof (cases "in_strong (w_inner w (snd e))")
    case True
    let ?s = "move_to th (Popping [(snd e, Deadline)] (snd e) []) w s"
    have "cancel_step s ?s" using cancel_step.worker_fire [OF assms(1) pop True] .
    also have "cancel_step\<^sup>*\<^sup>* ?s (move_to th CIdle (worker_turn (cs_world s)) s)"
      using steps_from_popping [of ?s th "snd e" Deadline] w True by (simp add: worker_turn_def pop)
    finally show ?thesis .
  next
    case False
    then show ?thesis using cancel_step.worker_discard [OF assms(1) pop] by (auto simp: worker_turn_def pop)
  qed
qed

lemma set_status_again [simp]:
  "set_status f st (set_status f st' s) = set_status f st s"
  "cs_world (set_status f st s) = cs_world s" "cs_phase (set_status f st s) = cs_phase s"
  "move_to th ph w (set_status f st s) = set_status f st (move_to th ph w s)"
  by (simp_all add: set_status_def move_to_def)

text \<open>A poll by an idle thread; the wakes recorded for the future so far are consumed by it.\<close>

lemma steps_poll:
  assumes "cs_phase s th = CIdle" "pollable (cs_status s f)" "token_reason (cs_world s) (token_of (cs_world s) f) = None"
    and poll: "poll_cancelled ok f k (forget_wakes f (cs_world s)) = (None, w')"
  shows "cancel_step\<^sup>*\<^sup>* s (set_status f (Suspended k) (move_to th CIdle w' s))"
proof -
  let ?w0 = "forget_wakes f (cs_world s)" and ?w1 = "register_waiter f k (forget_wakes f (cs_world s))"
  obtain b w2 where arm: "arm_worker ok f ?w1 = (b, w2)" by (cases "arm_worker ok f ?w1")
  have same: "token_reason ?w0 (token_of ?w0 f) = None"
    using assms(3) by (auto simp: forget_wakes_def token_reason_def expired_def split: option.splits if_splits)
  have fin: "finish_poll b f k w2 = (None, w')" using poll same by (simp add: poll_cancelled_def arm Let_def)
  let ?s0 = "set_status f (PollingBy th) (move_to th (Registering f k) ?w0 s)"
  let ?s1 = "set_status f (PollingBy th) (move_to th (Arming f k) ?w1 s)"
  let ?s2 = "set_status f (PollingBy th) (move_to th (Rechecking f k b) w2 s)"
  have "cancel_step s ?s0" using cancel_step.poll_start [OF assms(1-3)] .
  moreover have "cancel_step ?s0 ?s1" using cancel_step.poll_register [of ?s0 th f k] by simp
  moreover have "cancel_step ?s1 ?s2" using cancel_step.poll_arm [of ?s1 th f k ok b w2] arm by simp
  moreover have "cancel_step ?s2 (set_status f (Suspended k) (move_to th CIdle w' s))"
    using cancel_step.poll_pending [of ?s2 th f k b w'] fin by simp
  ultimately show ?thesis by (meson converse_rtranclp_into_rtranclp rtranclp.rtrancl_refl)
qed

section \<open>Properties\<close>

text \<open>One propagation.  Cancelling a token that carries no cause yet stores the given cause in it;
  every other token that becomes cancelled is marked by inheritance, a deadline as a deadline and anything
  else as a parent's decision; tokens that were cancelled before are left alone; afterwards every live
  registered child of a cancelled token is cancelled; and every waiter of a token cancelled on the way whose
  future still exists is woken.\<close>

lemma cancel_tree_contract:
  assumes "root < w_next w" "stored w root = 0" "children_known w" "propagated w"
  shows "let w' = cancel_tree [(root, r)] w
         in stored w' root = reason_code r
            \<and> (\<forall>t. stored w t \<noteq> 0 \<longrightarrow> w_inner w' t = w_inner w t)
            \<and> (\<forall>t. t \<noteq> root \<and> stored w t = 0 \<and> stored w' t \<noteq> 0 \<longrightarrow> stored w' t = reason_code (inherited r))
            \<and> propagated w'
            \<and> (\<forall>t e. stored w t = 0 \<and> stored w' t \<noteq> 0 \<and> e \<in> set (in_waiters (w_inner w t))
                  \<and> cf_alive (w_future w (we_owner e)) \<longrightarrow> e \<in> set (w_woken w'))"
proof -
  let ?w = "cancel_tree [(root, r)] w"
  have "stored ?w root = reason_code r"
    unfolding cancel_tree_step [OF assms(2,1)]
    by (subst cancel_tree_final) (simp_all add: visit_simps assms(2) visited_def)
  moreover have "propagated ?w"
    using cancel_tree_propagates [of w "[(root, r)]"] assms by (auto simp: owed_to_def)
  ultimately show ?thesis
    using cancel_tree_final [of w _ "[(root, r)]"] cancel_tree_blames [of w _ "[(root, r)]"]
      cancel_tree_wakes [of w _ "[(root, r)]"]
    by (auto simp: Let_def)
qed

text \<open>A root with a child on which a future waits.\<close>

definition demo_root :: world where
  "demo_root = snd (new_inner True (Some 100) (no_tokens 7))"

definition demo_tree :: world where
  "demo_tree = snd (child_token True 0 demo_root)"

definition demo_world :: world where
  "demo_world = snd (poll_cancelled True 5 9 (token_cancelled 5 1 demo_tree))"

lemma demo_root_eval:
  "demo_root = (no_tokens 7)\<lparr>w_inner := (w_inner (no_tokens 7))(0 := fresh_inner (Some 100)), w_next := 1,
     w_queue := [(100, 0)], w_worker := True\<rparr>"
  by (simp add: demo_root_def new_inner_def schedule_def ensure_worker_def compaction_threshold_def
        set_inner_def no_tokens_def Let_def)

lemma demo_tree_eval:
  "demo_tree = demo_root\<lparr>w_inner := (w_inner demo_root)(0 := (fresh_inner (Some 100))\<lparr>in_children := [1]\<rparr>,
     1 := fresh_inner (Some 100)), w_next := 2, w_queue := [(100, 1), (100, 0)]\<rparr>"
  by (simp add: demo_tree_def demo_root_eval child_token_def child_token_with_deadline_def new_inner_def
        merge_deadline_def schedule_def ensure_worker_def compaction_threshold_def
        set_inner_def push_child_def live_children_def check_parent_def token_reason_def from_code_def
        expired_def Let_def no_tokens_def fresh_inner_def fun_upd_twist)

lemma demo_world_eval:
  "demo_world = demo_tree\<lparr>
     w_inner := (w_inner demo_tree)(1 := (fresh_inner (Some 100))\<lparr>in_waiters := [entry 5 9]\<rparr>),
     w_future := (w_future demo_tree)(5 := \<lparr>cf_token = 1, cf_registered = True, cf_arm_attempts = 1, cf_alive = True\<rparr>)\<rparr>"
  by (simp add: demo_world_def demo_tree_eval demo_root_eval no_tokens_def poll_cancelled_def token_cancelled_def
        set_inner_def set_future_def fresh_inner_def token_reason_def from_code_def expired_def register_waiter_def
        set_waiters_def arm_worker_def ensure_worker_def finish_poll_def max_arm_attempts_def Let_def)

lemmas demo_evals = demo_world_eval demo_tree_eval demo_root_eval no_tokens_def fresh_inner_def

text \<open>C16: no cancellation is lost.  However cancellations, expiring deadlines, registrations of children
  and drops are interleaved, once no thread is inside an operation every live child registered with a
  cancelled token is cancelled too, also one that was being registered while its parent was cancelled.\<close>

theorem no_lost_cancellation:
  assumes "cancel_reachable s" "\<And>th. cs_phase s th = CIdle"
    and "stored (cs_world s) p \<noteq> 0" "c \<in> set (in_children (w_inner (cs_world s) p))" "in_strong (w_inner (cs_world s) c)"
  shows "stored (cs_world s) c \<noteq> 0"
proof
  assume "stored (cs_world s) c = 0"
  then obtain th where "owes (cs_phase s th) p c"
    using assms(3-5) tree_inv_parts(2) [OF tree_inv_reachable [OF assms(1)]]
    by (auto simp: all_owed_def unreached_def)
  then show False by (simp add: assms(2))
qed

text \<open>C30: no wake-up is lost.  In every reachable state, a future that was left pending on a token that has since
  been cancelled has had the waker of its last poll woken, also when the cancellation ran while the future was
  registering, or a thread inside an operation carries that wake-up (it holds the entry, or is yet to take the list of
  waiters that holds it).  Once no thread is inside an operation, the waker has been woken.\<close>

theorem no_lost_wakeup:
  assumes "cancel_reachable s"
    and "cs_status s f = Suspended k" "stored (cs_world s) (cf_token (w_future (cs_world s) f)) \<noteq> 0"
  shows "(\<lparr>we_owner = f, we_waker = k\<rparr> \<in> set (w_woken (cs_world s))
      \<or> (\<exists>th. cs_phase s th \<noteq> CIdle \<and> carries (cs_phase s th) (cs_world s) \<lparr>we_owner = f, we_waker = k\<rparr>))
    \<and> ((\<forall>th. cs_phase s th = CIdle) \<longrightarrow> \<lparr>we_owner = f, we_waker = k\<rparr> \<in> set (w_woken (cs_world s)))"
proof -
  have "delivered s f k"
    by (rule wait_invD(2) [OF conjunct2 [OF cancel_reachable_inv [OF assms(1)]] assms(2)])
  moreover have "\<not> carries CIdle w e" for w e by simp
  ultimately show ?thesis using assms(3) unfolding delivered_def Let_def by metis
qed

text \<open>The first cause is final, and deadlines keep their name.  From any reachable state on, a stored
  cause never changes; a token blamed on its parent exists only where some token was cancelled by request,
  so a tree closed by deadlines alone reports a deadline everywhere; and a live token that is not cancelled
  and whose deadline is in the future is in the queue of the scheduler, whatever compactions have run.\<close>

lemma first_cause_final:
  assumes "cancel_reachable s" "cancel_step\<^sup>*\<^sup>* s s'"
  shows "(\<forall>t < w_next (cs_world s). stored (cs_world s) t \<noteq> 0 \<longrightarrow> stored (cs_world s') t = stored (cs_world s) t)
    \<and> ((\<exists>t. stored (cs_world s) t = reason_code Parent) \<longrightarrow> (\<exists>t. stored (cs_world s) t = reason_code Requested))
    \<and> armed (cs_world s)"
  using cancel_steps_final [OF assms(2)] tree_inv_parts(3,4) [OF tree_inv_reachable [OF assms(1)]]
  by (auto simp: blame_ok_def has_request_def)

text \<open>The whole operations are what an undisturbed thread does: from every reachable state, an idle
  thread can run \<open>cancel\<close>, \<open>child_token_with_deadline\<close>, \<open>linked\<close> or a turn of the worker step by step
  and ends, idle again, with exactly the world the function computes.\<close>

lemma operations_are_runs:
  assumes "cancel_reachable s" "cs_phase s th = CIdle"
  shows "(t < w_next (cs_world s) \<longrightarrow> cancel_step\<^sup>*\<^sup>* s (move_to th CIdle (cancel t (cs_world s)) s))
    \<and> (t < w_next (cs_world s) \<longrightarrow>
         cancel_step\<^sup>*\<^sup>* s (move_to th CIdle (snd (child_token_with_deadline ok t d (cs_world s))) s))
    \<and> (set ps \<subseteq> {..<w_next (cs_world s)} \<longrightarrow>
         cancel_step\<^sup>*\<^sup>* s (move_to th CIdle (snd (linked ok ps (cs_world s))) s))
    \<and> cancel_step\<^sup>*\<^sup>* s (move_to th CIdle (worker_turn (cs_world s)) s)"
proof -
  have k: "world_known (cs_world s)" using tree_inv_parts(5) [OF tree_inv_reachable [OF assms(1)]] .
  then have "children_known (cs_world s)" by (simp add: world_known_def)
  then show ?thesis using steps_cancel steps_child steps_linked steps_worker [OF assms(2) k] assms(2) by blast
qed

text \<open>A reachable state: the tree above, with its root cancelled by request.\<close>

definition demo_state :: cancel_state where
  "demo_state = move_to 0 CIdle demo_tree (cancel_init 7)"

lemma demo_state_reachable: "cancel_reachable demo_state"
proof -
  let ?s = "move_to 0 CIdle demo_root (cancel_init 7)"
  have "cancel_step (cancel_init 7) ?s"
    using cancel_step.create [of "cancel_init 7" 0 True "Some 100" 0 demo_root]
    by (simp add: cancel_init_def demo_root_def new_inner_def no_tokens_def Let_def)
  moreover have "cancel_step\<^sup>*\<^sup>* ?s demo_state"
    using steps_child [of ?s 0 0 True "Some 100"]
    by (simp add: demo_state_def demo_tree_def child_token_def demo_root_eval children_known_def no_tokens_def fresh_inner_def)
  ultimately show ?thesis
    unfolding cancel_reachable_def by (blast intro: converse_rtranclp_into_rtranclp)
qed

lemma demo_state_idle: "cs_phase demo_state th = CIdle"
  by (simp add: demo_state_def move_to_def cancel_init_def)

definition demo_waiting :: cancel_state where
  "demo_waiting = set_status 5 (Suspended 9) (move_to 0 CIdle demo_world (cancel_init 7))"

lemma demo_waiting_reachable: "cancel_reachable demo_waiting"
proof -
  let ?s = "set_status 5 Created (move_to 0 CIdle (token_cancelled 5 1 demo_tree) (cancel_init 7))"
  have "cs_status demo_state 5 = NotCreated" "1 < w_next (cs_world demo_state)"
    by (simp_all add: demo_state_def move_to_def cancel_init_def demo_evals)
  from cancel_step.new_future [OF demo_state_idle this, of 0] have "cancel_step demo_state ?s"
    by (simp add: demo_state_def)
  moreover have "forget_wakes 5 (token_cancelled 5 1 demo_tree) = token_cancelled 5 1 demo_tree"
    by (simp add: forget_wakes_def token_cancelled_def set_future_def demo_evals)
  moreover have "fst (poll_cancelled True 5 9 (token_cancelled 5 1 demo_tree)) = None"
    by (simp add: demo_evals poll_cancelled_def token_cancelled_def set_inner_def set_future_def token_reason_def
          from_code_def expired_def register_waiter_def set_waiters_def arm_worker_def ensure_worker_def
          finish_poll_def max_arm_attempts_def Let_def)
  moreover have "token_reason (cs_world ?s) (token_of (cs_world ?s) 5) = None"
    by (simp add: demo_evals token_cancelled_def set_future_def token_reason_def from_code_def expired_def)
  moreover have "pollable (cs_status ?s 5)" by (simp add: pollable_def set_status_def)
  ultimately have "cancel_step\<^sup>*\<^sup>* ?s demo_waiting"
    using steps_poll [of ?s 0 5 True 9 demo_world]
    by (simp add: demo_waiting_def demo_world_def prod_eq_iff)
  with \<open>cancel_step demo_state ?s\<close> demo_state_reachable show ?thesis
    unfolding cancel_reachable_def by (meson rtranclp.rtrancl_into_rtrancl rtranclp_trans)
qed

definition demo_done :: cancel_state where
  "demo_done = set_status 5 (Suspended 9) (move_to 0 CIdle (cancel 0 demo_world) (cancel_init 7))"

lemma demo_done_reachable: "cancel_reachable demo_done"
proof -
  have "children_known demo_world" "0 < w_next demo_world" by (simp_all add: children_known_def demo_evals)
  then have "cancel_step\<^sup>*\<^sup>* demo_waiting demo_done"
    using steps_cancel [of demo_waiting 0 0] by (simp add: demo_waiting_def demo_done_def)
  with demo_waiting_reachable show ?thesis
    unfolding cancel_reachable_def by (meson rtranclp_trans)
qed

lemma demo_done_idle: "cs_phase demo_done th = CIdle"
  by (simp add: demo_done_def move_to_def cancel_init_def set_status_def)

lemma demo_done_inner:
  "stored (cs_world demo_done) 0 \<noteq> 0" "1 \<in> set (in_children (w_inner (cs_world demo_done) 0))"
  "in_strong (w_inner (cs_world demo_done) 1)" "cf_token (w_future (cs_world demo_done) 5) = 1"
  "w_next (cs_world demo_done) = 2"
proof -
  have start: "stored demo_world 0 = 0" "0 < w_next demo_world" by (simp_all add: demo_evals)
  have "w_inner (cs_world demo_done) 0 = visited Requested 0 demo_world"
    unfolding demo_done_def cancel_def set_status_again move_to_world cancel_tree_step [OF start]
    by (subst cancel_tree_final) (simp_all add: visit_simps start visited_def)
  then show "stored (cs_world demo_done) 0 \<noteq> 0" "1 \<in> set (in_children (w_inner (cs_world demo_done) 0))"
    by (simp_all add: visited_def live_children_def) (simp add: demo_evals)
  show "in_strong (w_inner (cs_world demo_done) 1)" "cf_token (w_future (cs_world demo_done) 5) = 1"
    "w_next (cs_world demo_done) = 2"
    by (simp_all add: demo_done_def cancel_def cancel_tree_frame) (simp_all add: demo_evals)
qed

theorem no_lost_cancellation_witness: "stored (cs_world demo_done) 1 \<noteq> 0"
  using no_lost_cancellation [OF demo_done_reachable demo_done_idle demo_done_inner(1-3)] .

theorem no_lost_wakeup_witness: "\<lparr>we_owner = 5, we_waker = 9\<rparr> \<in> set (w_woken (cs_world demo_done))"
proof -
  have "stored (cs_world demo_done) 1 \<noteq> 0"
    using tree_inv_parts(2) [OF tree_inv_reachable [OF demo_done_reachable]] demo_done_inner(1-3) demo_done_idle
    by (auto simp: all_owed_def unreached_def)
  then show ?thesis
    using no_lost_wakeup [OF demo_done_reachable, of 5 9] demo_done_inner(4) demo_done_idle
    by (simp add: demo_done_def set_status_def)
qed

end
