(* ===== verification/Worklist.thy ===== *)
theory Worklist
  imports Prelude "HOL-Library.Multiset"
begin

text \<open>
  Loops over an explicit stack of tree nodes, the form in which the sources traverse their syntax trees
  without recursion.  Such a loop ends because replacing a node by its children makes the multiset of sizes
  smaller; the locale gives the induction that follows the loop and the list of nodes it goes through.
\<close>

definition stack_order :: "('n \<Rightarrow> nat) \<Rightarrow> ('n list \<times> 'n list) set" where
  "stack_order weight = inv_image (mult less_than) (\<lambda>stack. mset (map weight stack))"

lemma wf_stack_order: "wf (stack_order weight)"
  unfolding stack_order_def by (intro wf_inv_image wf_mult wf_less_than)

lemma stack_order_push:
  assumes "\<And>k. k \<in> set kids \<Longrightarrow> weight k < weight n"
  shows "(kids @ stack, n # stack) \<in> stack_order weight"
proof -
  have "(mset (map weight stack) + mset (map weight kids), mset (map weight stack) + {#weight n#}) \<in> mult less_than"
    by (rule one_step_implies_mult) (use assms in auto)
  then show ?thesis by (simp add: stack_order_def add.commute)
qed

lemma stack_order_pop: "(stack, n # stack) \<in> stack_order weight"
  using stack_order_push [of "[]"] by simp

lemma stack_order_rev_push:
  assumes "\<And>k. k \<in> set kids \<Longrightarrow> weight k < weight n"
  shows "(rev kids @ stack, n # stack) \<in> stack_order weight"
  by (rule stack_order_push) (use assms in simp)

lemma stack_order_head: "stack \<noteq> [] \<Longrightarrow> ([n], n # stack) \<in> stack_order weight"
  using one_step_implies_mult [of "mset (map weight stack)" "{#}" less_than "{#weight n#}"]
  by (simp add: stack_order_def)

text \<open>A tree given by the children of its nodes.\<close>

locale node_tree =
  fixes kids :: "'n \<Rightarrow> 'n list" and weight :: "'n \<Rightarrow> nat"
  assumes smaller: "k \<in> set (kids n) \<Longrightarrow> weight k < weight n"
begin

lemma stack_induct [case_names empty pop]:
  assumes "P []" and "\<And>n stack. P stack \<Longrightarrow> P (kids n @ stack) \<Longrightarrow> P (rev (kids n) @ stack) \<Longrightarrow> P (n # stack)"
  shows "P stack"
proof (induction stack rule: wf_induct_rule [OF wf_stack_order [of weight]])
  case (1 stack)
  show ?case
  proof (cases stack)
    case (Cons n rest)
    have "P rest" "P (kids n @ rest)" "P (rev (kids n) @ rest)"
      using 1 stack_order_pop [of rest n weight] stack_order_push [of "kids n" weight n rest, OF smaller]
        stack_order_rev_push [of "kids n" weight n rest, OF smaller] by (auto simp: Cons)
    then show ?thesis unfolding Cons by (rule assms(2))
  qed (simp add: assms(1))
qed

lemma node_induct [case_names node]:
  assumes "\<And>n. (\<And>k. k \<in> set (kids n) \<Longrightarrow> P k) \<Longrightarrow> P n"
  shows "P n"
  by (induction n rule: measure_induct_rule [of weight]) (use assms smaller in blast)

end

end
