(* ===== verification/Plan.thy ===== *)
theory Plan
  imports Outcome
begin

text \<open>
  The provider-neutral plan, \<open>plenora-database-core/src/plan.rs\<close>: object references, read and write
  operations and the filter language of reads.  The serde attributes (names and defaults on the wire) are
  not modelled.  The values of a filter are never in it: it names parameters of a bag.
\<close>

record object_ref =
  or_catalog :: "string option"
  or_schema :: "string option"
  or_object :: string

datatype sort_direction = Asc | Desc

record order_by =
  ob_field :: string
  ob_direction :: sort_direction

datatype spatial_semantics = Geometry | Geography

datatype comparison_operator = CoEq | CoNe | CoLt | CoLte | CoGt | CoGte

datatype (plugins only: size) spatial_function =
  GeometryType | SfSrid | Dimensions | SfX | SfY | SfZ | SfM | NPoints | NRings | StartPoint | EndPoint | PointN
| IsEmpty | IsValid | IsSimple | IsClosed | Intersects | Contains | ContainsProperly | Within | Covers | CoveredBy
| Touches | Crosses | Overlaps | Disjoint | Equals | Relate | DWithin | SetSrid | Transform | Force2d | Force3d
| Force3dm | Force4d | Buffer | OffsetCurve | Intersection | Difference | SymDifference | SfUnion | UnaryUnion
| Simplify | SimplifyPreserveTopology | MakeValid | Centroid | PointOnSurface | Envelope | ConvexHull
| OrientedEnvelope | Boundary | LineMerge | Reverse | Subdivide | SnapToGrid | Distance | Distance3d | MaxDistance
| HausdorffDistance | FrechetDistance | Azimuth | Area | Length | Perimeter | Collect | Extent | AsGeoJson
| AsMvtGeom | AsMvt | AsGeobuf | ClusterDbscan | ClusterKMeans

datatype filter_expression =
  FAnd "filter_expression list"
| FOr "filter_expression list"
| FEq string string
| FNe string string
| FLt string string
| FLte string string
| FGt string string
| FGte string string
| FIsNull string
| FIsNotNull string
| FIn string "string list"
| FBetween string string string
| FLike string string bool
| FSpatial spatial_function string "string option" "string option"

fun all_fields :: "(string \<Rightarrow> bool) \<Rightarrow> filter_expression \<Rightarrow> bool" where
  "all_fields p (FAnd args) \<longleftrightarrow> (\<forall>a \<in> set args. all_fields p a)"
| "all_fields p (FOr args) \<longleftrightarrow> (\<forall>a \<in> set args. all_fields p a)"
| "all_fields p (FEq f _) \<longleftrightarrow> p f"
| "all_fields p (FNe f _) \<longleftrightarrow> p f"
| "all_fields p (FLt f _) \<longleftrightarrow> p f"
| "all_fields p (FLte f _) \<longleftrightarrow> p f"
| "all_fields p (FGt f _) \<longleftrightarrow> p f"
| "all_fields p (FGte f _) \<longleftrightarrow> p f"
| "all_fields p (FIsNull f) \<longleftrightarrow> p f"
| "all_fields p (FIsNotNull f) \<longleftrightarrow> p f"
| "all_fields p (FIn f _) \<longleftrightarrow> p f"
| "all_fields p (FBetween f _ _) \<longleftrightarrow> p f"
| "all_fields p (FLike f _ _) \<longleftrightarrow> p f"
| "all_fields p (FSpatial _ f _ _) \<longleftrightarrow> p f"

record declared_crs =
  dc_column :: string
  dc_srid :: u32

record read_operation =
  ro_source :: object_ref
  ro_projection :: "string list"
  ro_order_by :: "order_by list"
  ro_row_limit :: "u64 option"
  ro_row_offset :: "u64 option"
  ro_filter :: "filter_expression option"
  ro_declared_crs :: "declared_crs list"

datatype write_mode =
  WmCreate | WmAppend | WmReplace | WmTruncateInsert | WmUpdate | WmUpsert | WmDeleteByKeys

datatype transaction_profile = ReadOnly | SingleTransaction | StagedSwap | ChunkCommitted | BestEffortDdl

datatype srid_policy = RequireMatch | AllowUnknown | RejectSpatial

record write_operation =
  wr_target :: object_ref
  wr_mode :: write_mode
  wr_mapping_policy :: mapping_policy
  wr_transaction_profile :: transaction_profile
  wr_keys :: "string list"
  wr_update_columns :: "string list"
  wr_srid_policy :: "srid_policy option"
  wr_create_spatial_index :: bool
  wr_allow_partial :: bool

end
