(* ===== verification/Relational.thy ===== *)
theory Relational
  imports Plan Worklist
begin

text \<open>
  The relational query language, \<open>plenora-database-core/src/relational.rs\<close>: the expressions, the
  operation with its clauses, the tables of argument counts, and the iterative walk over a query.  Structs
  that contain each other are datatypes with one constructor and the source's fields as selectors.
\<close>

section \<open>Functions and operators\<close>

record column_ref =
  cr_relation :: "string option"
  cr_field :: string

datatype scalar_function =
  Lower | Upper | Coalesce | Count | Sum | Average | Minimum | Maximum | RowNumber | Rank | DenseRank | Lag | Lead

definition scalar_accepts_argument_count :: "scalar_function \<Rightarrow> nat \<Rightarrow> bool" where
  "scalar_accepts_argument_count f argc =
     (if f \<in> {Lower, Upper, Count, Sum, Average, Minimum, Maximum} then argc = 1
      else if f = Coalesce then argc \<ge> 1
      else if f \<in> {RowNumber, Rank, DenseRank} then argc = 0
      else argc \<ge> 1 \<and> argc \<le> 3)"

definition requires_window :: "scalar_function \<Rightarrow> bool" where
  "requires_window f \<longleftrightarrow> f \<in> {RowNumber, Rank, DenseRank, Lag, Lead}"

definition scalar_is_aggregate :: "scalar_function \<Rightarrow> bool" where
  "scalar_is_aggregate f \<longleftrightarrow> f \<in> {Count, Sum, Average, Minimum, Maximum}"

datatype spatial_operator =
  BoundingBoxIntersects | BoundingBoxContains | BoundingBoxContainedBy | KnnDistance | KnnCentroidDistance

definition operator_returns_boolean :: "spatial_operator \<Rightarrow> bool" where
  "operator_returns_boolean op \<longleftrightarrow> op \<in> {BoundingBoxIntersects, BoundingBoxContains, BoundingBoxContainedBy}"

definition returns_geometry :: "spatial_function \<Rightarrow> bool" where
  "returns_geometry f \<longleftrightarrow>
     f \<in> {StartPoint, EndPoint, PointN, SetSrid, Transform, Force2d, Force3d, Force3dm, Force4d, Buffer, OffsetCurve,
       Intersection, Difference, SymDifference, SfUnion, UnaryUnion, Simplify, SimplifyPreserveTopology, MakeValid,
       Centroid, PointOnSurface, Envelope, ConvexHull, OrientedEnvelope, Boundary, LineMerge, Reverse, Subdivide,
       SnapToGrid, Collect, AsMvtGeom}"

datatype crs_rule = CrsPreserves | CrsArgument | CrsUndefined

definition crs_rule :: "spatial_function \<Rightarrow> crs_rule option" where
  "crs_rule f =
     (if f \<in> {SetSrid, Transform} then Some CrsArgument
      else if f \<in> {Intersection, Difference, SymDifference, SfUnion, AsMvtGeom} then Some CrsUndefined
      else if returns_geometry f then Some CrsPreserves
      else None)"

definition is_unary_predicate :: "spatial_function \<Rightarrow> bool" where
  "is_unary_predicate f \<longleftrightarrow> f \<in> {IsEmpty, IsValid, IsSimple, IsClosed}"

definition is_binary_predicate :: "spatial_function \<Rightarrow> bool" where
  "is_binary_predicate f \<longleftrightarrow>
     f \<in> {Intersects, Contains, ContainsProperly, Within, Covers, CoveredBy, Touches, Crosses, Overlaps, Disjoint, Equals}"

definition returns_boolean :: "spatial_function \<Rightarrow> nat \<Rightarrow> bool" where
  "returns_boolean f argument_count \<longleftrightarrow>
     is_unary_predicate f \<or> is_binary_predicate f \<or> f = DWithin \<or> f = Relate \<and> argument_count = 3"

definition takes_geometry_at :: "spatial_function \<Rightarrow> nat \<Rightarrow> bool" where
  "takes_geometry_at f index \<longleftrightarrow>
     (if index = 0 then f \<notin> {AsMvt, AsGeobuf}
      else index = 1 \<and>
        f \<in> {Intersects, Contains, ContainsProperly, Within, Covers, CoveredBy, Touches, Crosses, Overlaps, Disjoint,
          Equals, Relate, DWithin, Intersection, Difference, SymDifference, SfUnion, Distance, Distance3d, MaxDistance,
          HausdorffDistance, FrechetDistance, Azimuth, Collect, AsMvtGeom})"

definition spatial_is_aggregate :: "spatial_function \<Rightarrow> nat \<Rightarrow> bool" where
  "spatial_is_aggregate f argument_count \<longleftrightarrow>
     (if f \<in> {Extent, Collect} then argument_count = 1
      else if f = AsMvt then argument_count \<in> {1..5}
      else if f \<in> {AsGeobuf, SfUnion} then argument_count \<in> {1, 2}
      else False)"

definition is_window_only :: "spatial_function \<Rightarrow> bool" where
  "is_window_only f \<longleftrightarrow> f \<in> {ClusterDbscan, ClusterKMeans}"

definition spatial_accepts_argument_count :: "spatial_function \<Rightarrow> nat \<Rightarrow> bool" where
  "spatial_accepts_argument_count f argc =
     (if f \<in> {GeometryType, SfSrid, Dimensions, SfX, SfY, SfZ, SfM, NPoints, NRings, StartPoint, EndPoint, IsEmpty,
        IsSimple, IsClosed, Force2d, Centroid, PointOnSurface, Envelope, ConvexHull, OrientedEnvelope, Boundary,
        LineMerge, Reverse, Extent} then argc = 1
      else if f \<in> {Intersects, Contains, ContainsProperly, Within, Covers, CoveredBy, Touches, Crosses, Overlaps,
        Disjoint, Equals, MaxDistance, Distance3d, Azimuth, PointN, SetSrid, SimplifyPreserveTopology} then argc = 2
      else if f = DWithin then argc \<in> {3, 4}
      else if f \<in> {Relate, Intersection, Difference, Distance, HausdorffDistance, FrechetDistance, SymDifference,
        Transform, OffsetCurve, Simplify, Buffer, ClusterKMeans} then argc \<in> {2, 3}
      else if f \<in> {IsValid, Force3d, Force3dm, UnaryUnion, MakeValid, Collect, AsGeobuf, Area, Length, Perimeter}
      then argc \<in> {1, 2}
      else if f \<in> {Force4d, SfUnion, Subdivide, AsGeoJson} then argc \<in> {1..3}
      else if f = SnapToGrid then argc \<in> {2, 3, 5}
      else if f = AsMvtGeom then argc \<in> {2..5}
      else if f = AsMvt then argc \<in> {1..5}
      else argc = 3)"

datatype arithmetic_operator = ArAdd | ArSubtract | ArMultiply | ArDivide

datatype query_parameter_type =
  QtBoolean | QtInteger | QtBigInteger | QtFloat | QtString | QtBinary | QtDate | QtTimestamp | QtTimestampTz
| QtDecimal | QtUuid | QtJson

datatype window_frame_units = FrRows | FrRange | FrGroups

datatype window_frame_bound =
  UnboundedPreceding | Preceding u64 | CurrentRow | Following u64 | UnboundedFollowing

record window_frame =
  wf_units :: window_frame_units
  wf_start :: window_frame_bound
  wf_end :: "window_frame_bound option"

datatype join_kind = JkInner | JkLeft | JkRight | JkFull | JkCross

datatype query_nulls_order = NullsFirst | NullsLast

datatype query_set_operator = SoUnion | SoIntersect | SoExcept

datatype query_lock_strength = LkUpdate | LkNoKeyUpdate | LkShare | LkKeyShare

datatype query_lock_wait = LkWait | LkNoWait | LkSkipLocked

record query_lock =
  ql_strength :: query_lock_strength
  ql_relations :: "string list"
  ql_wait :: query_lock_wait

record query_source =
  qs_object :: object_ref
  qs_alias :: "string option"

section \<open>Expressions and operations\<close>

text \<open>The structs around expressions and operations take the type of what they hold as a parameter; the
  recursion is between \<open>QueryExpression\<close> and \<open>QueryOperation\<close> alone.\<close>

datatype 'e query_case_branch = QueryCaseBranch (cb_when: 'e) (cb_then: 'e)

datatype 'e query_ordering = QueryOrdering (qo_expression: 'e) (qo_direction: sort_direction)

datatype 'e query_projection = QueryProjection (qp_expression: 'e) (qp_alias: "string option")

datatype 'q query_derived_source = QueryDerivedSource (ds_query: 'q) (ds_alias: string)

datatype 'q query_set_operation =
  QuerySetOperation (so_operator: query_set_operator) (so_all: bool) (so_query: 'q)

datatype ('e, 'q) query_join =
  QueryJoin (qj_kind: join_kind) (qj_source: "query_source option")
    (qj_derived_source: "'q query_derived_source option") (qj_lateral: bool) (qj_on: "'e option")

datatype 'q common_table_expression =
  CommonTableExpression (cte_name: string) (cte_recursive: bool) (cte_query: 'q)

datatype (plugins only: size) query_expression =
  Wildcard "string option"
| Column column_ref
| Parameter string
| TypedParameter string query_parameter_type
| Arithmetic query_expression arithmetic_operator query_expression
| Cast query_expression query_parameter_type
| NullsOrder query_expression query_nulls_order
| Case "query_expression query_case_branch list" "query_expression option"
| Scalar scalar_function "query_expression list"
| Spatial spatial_function "query_expression list"
| SpatialOutput query_expression spatial_semantics
| SpatialValue query_expression u32 spatial_semantics
| SpatialOperator spatial_operator query_expression query_expression
| Window scalar_function "query_expression list" "query_expression list" "query_expression query_ordering list"
    "window_frame option"
| SpatialWindow spatial_function "query_expression list" "query_expression list"
    "query_expression query_ordering list" "window_frame option"
| ScalarSubquery query_operation
| Exists query_operation bool
| InSubquery query_expression query_operation bool
| Compare query_expression comparison_operator query_expression
| InList query_expression "query_expression list" bool
| Between query_expression query_expression query_expression bool
| Like query_expression query_expression bool bool
| Not query_expression
| And "query_expression list"
| Or "query_expression list"
| IsNull query_expression bool
and query_operation =
  QueryOperation
    (common_table_expressions: "query_operation common_table_expression list")
    (op_source: "query_source option")
    (op_derived_source: "query_operation query_derived_source option")
    (op_projection: "query_expression query_projection list")
    (op_joins: "(query_expression, query_operation) query_join list")
    (op_filter: "query_expression option")
    (op_group_by: "query_expression list")
    (op_having: "query_expression option")
    (op_order_by: "query_expression query_ordering list")
    (op_distinct: bool)
    (op_distinct_on: "query_expression list")
    (op_set_operations: "query_operation query_set_operation list")
    (op_row_limit: "u64 option")
    (op_row_offset: "u64 option")
    (op_locking: "query_lock option")
    (op_declared_crs: "declared_crs list")

section \<open>The walk\<close>

datatype query_walk_node = NOperation query_operation | NExpression query_expression | NSource query_source

datatype query_walk_control = WContinue | WSkip | WBreak

definition list_of_option :: "'a option \<Rightarrow> 'a list" where
  "list_of_option o1 = (case o1 of None \<Rightarrow> [] | Some x \<Rightarrow> [x])"

text \<open>The parts of a node, in the order in which its clauses are written: the specification of the walk.\<close>

definition join_parts :: "(query_expression, query_operation) query_join \<Rightarrow> query_walk_node list" where
  "join_parts j =
     map NSource (list_of_option (qj_source j))
     @ map (\<lambda>d. NOperation (ds_query d)) (list_of_option (qj_derived_source j))
     @ map NExpression (list_of_option (qj_on j))"

definition operation_parts :: "query_operation \<Rightarrow> query_walk_node list" where
  "operation_parts q =
     map NSource (list_of_option (op_source q))
     @ map (\<lambda>d. NOperation (ds_query d)) (list_of_option (op_derived_source q))
     @ map (\<lambda>c. NOperation (cte_query c)) (common_table_expressions q)
     @ concat (map join_parts (op_joins q))
     @ map (\<lambda>p. NExpression (qp_expression p)) (op_projection q)
     @ map NExpression (list_of_option (op_filter q))
     @ map NExpression (op_group_by q)
     @ map NExpression (list_of_option (op_having q))
     @ map (\<lambda>o1. NExpression (qo_expression o1)) (op_order_by q)
     @ map NExpression (op_distinct_on q)
     @ map (\<lambda>s. NOperation (so_query s)) (op_set_operations q)"

fun expression_parts :: "query_expression \<Rightarrow> query_walk_node list" where
  "expression_parts (Scalar _ args) = map NExpression args"
| "expression_parts (Spatial _ args) = map NExpression args"
| "expression_parts (And args) = map NExpression args"
| "expression_parts (Or args) = map NExpression args"
| "expression_parts (Arithmetic l _ r) = [NExpression l, NExpression r]"
| "expression_parts (SpatialOperator _ l r) = [NExpression l, NExpression r]"
| "expression_parts (Compare l _ r) = [NExpression l, NExpression r]"
| "expression_parts (InList e vs _) = NExpression e # map NExpression vs"
| "expression_parts (Between e l u _) = [NExpression e, NExpression l, NExpression u]"
| "expression_parts (Like e p _ _) = [NExpression e, NExpression p]"
| "expression_parts (Window _ args pb ob _) =
     map NExpression args @ map NExpression pb @ map (\<lambda>o1. NExpression (qo_expression o1)) ob"
| "expression_parts (SpatialWindow _ args pb ob _) =
     map NExpression args @ map NExpression pb @ map (\<lambda>o1. NExpression (qo_expression o1)) ob"
| "expression_parts (ScalarSubquery q) = [NOperation q]"
| "expression_parts (Exists q _) = [NOperation q]"
| "expression_parts (InSubquery e q _) = [NExpression e, NOperation q]"
| "expression_parts (Cast e _) = [NExpression e]"
| "expression_parts (NullsOrder e _) = [NExpression e]"
| "expression_parts (SpatialOutput e _) = [NExpression e]"
| "expression_parts (SpatialValue e _ _) = [NExpression e]"
| "expression_parts (IsNull e _) = [NExpression e]"
| "expression_parts (Not e) = [NExpression e]"
| "expression_parts (Case bs el) =
     concat (map (\<lambda>b. [NExpression (cb_when b), NExpression (cb_then b)]) bs)
     @ map NExpression (list_of_option el)"
| "expression_parts (Wildcard _) = []"
| "expression_parts (Column _) = []"
| "expression_parts (Parameter _) = []"
| "expression_parts (TypedParameter _ _) = []"

fun node_parts :: "query_walk_node \<Rightarrow> query_walk_node list" where
  "node_parts (NOperation q) = operation_parts q"
| "node_parts (NExpression e) = expression_parts e"
| "node_parts (NSource _) = []"

subsection \<open>Children are smaller\<close>

fun node_size :: "query_walk_node \<Rightarrow> nat" where
  "node_size (NOperation q) = size q"
| "node_size (NExpression e) = size e"
| "node_size (NSource _) = 0"

lemma size_list_member: "x \<in> set xs \<Longrightarrow> f x < Suc (size_list f xs)"
  by (induction xs) auto

lemma list_of_option_set [simp]: "x \<in> set (list_of_option o1) \<longleftrightarrow> o1 = Some x"
  by (auto simp: list_of_option_def split: option.splits)

lemma struct_sizes:
  "size_query_ordering f o1 = Suc (f (qo_expression o1))"
  "size_query_projection f p = Suc (f (qp_expression p))"
  "size_query_derived_source g d = Suc (g (ds_query d))"
  "size_query_set_operation g s = Suc (g (so_query s))"
  "size_common_table_expression g c = Suc (g (cte_query c))"
  "size_query_case_branch f b = Suc (f (cb_when b) + f (cb_then b))"
  by (cases o1; cases p; cases d; cases s; cases c; cases b; simp)+

lemmas member_sizes =
  size_list_member [where f = "\<lambda>x. Suc (size (qp_expression x))"]
  size_list_member [where f = "\<lambda>x. Suc (size (qo_expression x))"]
  size_list_member [where f = "\<lambda>x. Suc (size (cte_query x))"]
  size_list_member [where f = "\<lambda>x. Suc (size (so_query x))"]
  size_list_member [where f = "\<lambda>x. Suc (size (cb_when x) + size (cb_then x))"]

lemma join_parts_size:
  "n \<in> set (join_parts j) \<Longrightarrow> node_size n < Suc (size_query_join size size j)"
  by (cases j) (auto simp: join_parts_def struct_sizes)

lemma operation_child_size: "n \<in> set (operation_parts q) \<Longrightarrow> node_size n < size q"
proof (cases q)
  case (QueryOperation ctes src ds pr js f gb h ob di don so rl ro lk dc)
  have j: "j \<in> set js \<Longrightarrow> n \<in> set (join_parts j) \<Longrightarrow> node_size n < Suc (size_list (size_query_join size size) js)" for j n
    using join_parts_size [of n j] size_list_member [of j js "size_query_join size size"] by linarith
  assume "n \<in> set (operation_parts q)"
  then show ?thesis
    by (auto simp: QueryOperation operation_parts_def struct_sizes
          dest: size_list_member [where f = size] member_sizes j)
qed

lemma expression_child_size: "n \<in> set (expression_parts e) \<Longrightarrow> node_size n < size e"
  by (cases e) (auto simp: struct_sizes dest: size_list_member [where f = size] member_sizes)

interpretation query_tree: node_tree node_parts node_size
proof
  show "node_size k < node_size n" if "k \<in> set (node_parts n)" for k n
    using that operation_child_size expression_child_size by (cases n) auto
qed

subsection \<open>The stack\<close>

text \<open>
  The pushes of the source, in its order: the stack is a \<open>Vec\<close>, whose last element is popped first, so every
  clause is pushed in reverse and the last one first.
\<close>

definition push_join_children ::
    "(query_expression, query_operation) query_join \<Rightarrow> query_walk_node list \<Rightarrow> query_walk_node list" where
  "push_join_children j stack =
     (let stack = stack @ map NExpression (list_of_option (qj_on j));
          stack = (case qj_derived_source j of None \<Rightarrow> stack | Some derived \<Rightarrow> stack @ [NOperation (ds_query derived)])
      in stack @ map NSource (list_of_option (qj_source j)))"

definition push_operation_children :: "query_operation \<Rightarrow> query_walk_node list \<Rightarrow> query_walk_node list" where
  "push_operation_children q stack =
     (let stack = stack @ map (\<lambda>s. NOperation (so_query s)) (rev (op_set_operations q));
          stack = stack @ map NExpression (rev (op_distinct_on q));
          stack = stack @ map (\<lambda>o1. NExpression (qo_expression o1)) (rev (op_order_by q));
          stack = stack @ map NExpression (list_of_option (op_having q));
          stack = stack @ map NExpression (rev (op_group_by q));
          stack = stack @ map NExpression (list_of_option (op_filter q));
          stack = stack @ map (\<lambda>p. NExpression (qp_expression p)) (rev (op_projection q));
          stack = fold push_join_children (rev (op_joins q)) stack;
          stack = fold (\<lambda>c stack. stack @ [NOperation (cte_query c)]) (rev (common_table_expressions q)) stack;
          stack = (case op_derived_source q of None \<Rightarrow> stack | Some derived \<Rightarrow> stack @ [NOperation (ds_query derived)])
      in stack @ map NSource (list_of_option (op_source q)))"

fun push_expression_children :: "query_expression \<Rightarrow> query_walk_node list \<Rightarrow> query_walk_node list" where
  "push_expression_children (Scalar _ args) stack = stack @ map NExpression (rev args)"
| "push_expression_children (Spatial _ args) stack = stack @ map NExpression (rev args)"
| "push_expression_children (And args) stack = stack @ map NExpression (rev args)"
| "push_expression_children (Or args) stack = stack @ map NExpression (rev args)"
| "push_expression_children (Arithmetic l _ r) stack = stack @ [NExpression r] @ [NExpression l]"
| "push_expression_children (SpatialOperator _ l r) stack = stack @ [NExpression r] @ [NExpression l]"
| "push_expression_children (Compare l _ r) stack = stack @ [NExpression r] @ [NExpression l]"
| "push_expression_children (InList e vs _) stack = stack @ map NExpression (rev vs) @ [NExpression e]"
| "push_expression_children (Between e l u _) stack = stack @ [NExpression u] @ [NExpression l] @ [NExpression e]"
| "push_expression_children (Like e p _ _) stack = stack @ [NExpression p] @ [NExpression e]"
| "push_expression_children (Window _ args pb ob _) stack =
     stack @ map (\<lambda>o1. NExpression (qo_expression o1)) (rev ob) @ map NExpression (rev pb) @ map NExpression (rev args)"
| "push_expression_children (SpatialWindow _ args pb ob _) stack =
     stack @ map (\<lambda>o1. NExpression (qo_expression o1)) (rev ob) @ map NExpression (rev pb) @ map NExpression (rev args)"
| "push_expression_children (ScalarSubquery q) stack = stack @ [NOperation q]"
| "push_expression_children (Exists q _) stack = stack @ [NOperation q]"
| "push_expression_children (InSubquery e q _) stack = stack @ [NOperation q] @ [NExpression e]"
| "push_expression_children (Cast e _) stack = stack @ [NExpression e]"
| "push_expression_children (NullsOrder e _) stack = stack @ [NExpression e]"
| "push_expression_children (SpatialOutput e _) stack = stack @ [NExpression e]"
| "push_expression_children (SpatialValue e _ _) stack = stack @ [NExpression e]"
| "push_expression_children (IsNull e _) stack = stack @ [NExpression e]"
| "push_expression_children (Not e) stack = stack @ [NExpression e]"
| "push_expression_children (Case bs el) stack =
     (let stack = stack @ map NExpression (list_of_option el)
      in fold (\<lambda>b stack. stack @ [NExpression (cb_then b)] @ [NExpression (cb_when b)]) (rev bs) stack)"
| "push_expression_children (Wildcard _) stack = stack"
| "push_expression_children (Column _) stack = stack"
| "push_expression_children (Parameter _) stack = stack"
| "push_expression_children (TypedParameter _ _) stack = stack"

fun push_node_children :: "query_walk_node \<Rightarrow> query_walk_node list \<Rightarrow> query_walk_node list" where
  "push_node_children (NOperation q) stack = push_operation_children q stack"
| "push_node_children (NExpression e) stack = push_expression_children e stack"
| "push_node_children (NSource _) stack = stack"

text \<open>Popped again, they are the parts in the order of the clauses.\<close>

lemma list_of_option_cases:
  "list_of_option None = []" "list_of_option (Some x) = [x]" "rev (list_of_option o1) = list_of_option o1"
  by (cases o1; simp add: list_of_option_def)+

lemma fold_push: "(\<And>x stack. x \<in> set xs \<Longrightarrow> f x stack = stack @ rev (g x)) \<Longrightarrow>
    fold f (rev xs) stack = stack @ rev (concat (map g xs))"
  by (induction xs arbitrary: stack) auto

lemma push_join_parts: "push_join_children j stack = stack @ rev (join_parts j)"
  by (cases "qj_derived_source j") (simp_all add: push_join_children_def join_parts_def rev_map list_of_option_cases)

lemma push_operation_parts: "push_operation_children q stack = stack @ rev (operation_parts q)"
proof -
  have joins: "fold push_join_children (rev (op_joins q)) st = st @ rev (concat (map join_parts (op_joins q)))" for st
    by (rule fold_push) (rule push_join_parts)
  have ctes: "fold (\<lambda>c stack. stack @ [NOperation (cte_query c)]) (rev cs) st
      = st @ rev (map (\<lambda>c. NOperation (cte_query c)) cs)" for cs st
    by (induction cs arbitrary: st) auto
  show ?thesis
    by (cases "op_derived_source q")
      (simp_all add: push_operation_children_def operation_parts_def joins ctes rev_map list_of_option_cases Let_def)
qed

lemma push_expression_parts: "push_expression_children e stack = stack @ rev (expression_parts e)"
proof (cases e)
  case (Case bs el)
  have "fold (\<lambda>b stack. stack @ [NExpression (cb_then b)] @ [NExpression (cb_when b)]) (rev bs) st
      = st @ rev (concat (map (\<lambda>b. [NExpression (cb_when b), NExpression (cb_then b)]) bs))" for st
    by (rule fold_push) simp
  then show ?thesis by (simp add: Case rev_map list_of_option_cases Let_def)
qed (simp_all add: rev_map)

lemma push_node_parts: "push_node_children n stack = stack @ rev (node_parts n)"
  by (cases n) (simp_all add: push_operation_parts push_expression_parts)

subsection \<open>The loop\<close>

text \<open>The visitor keeps a state of its own, as an \<open>FnMut\<close> closure does; the result is whether the walk went
  through, with that state.\<close>

function walk_query_nodes ::
  "('s \<Rightarrow> query_walk_node \<Rightarrow> 's \<times> query_walk_control) \<Rightarrow> query_walk_node list \<Rightarrow> 's \<Rightarrow> bool \<times> 's" where
  "walk_query_nodes visitor stack s =
     (if stack = [] then (True, s)
      else let node = last stack; stack = butlast stack
           in case visitor s node of
                (s', WBreak) \<Rightarrow> (False, s')
              | (s', WSkip) \<Rightarrow> walk_query_nodes visitor stack s'
              | (s', WContinue) \<Rightarrow> walk_query_nodes visitor (push_node_children node stack) s')"
  by pat_completeness auto
termination
proof (relation "inv_image (stack_order node_size) (\<lambda>(visitor, stack, s). rev stack)")
  fix visitor :: "'s \<Rightarrow> query_walk_node \<Rightarrow> 's \<times> query_walk_control" and stack rest :: "query_walk_node list"
    and n and s s' :: 's
  assume stack: "stack \<noteq> []" "n = last stack" "rest = butlast stack"
  then have rev: "rev stack = n # rev rest" by (metis append_butlast_last_id rev_eq_Cons_iff rev_rev_ident)
  show "((visitor, rest, s'), visitor, stack, s) \<in> inv_image (stack_order node_size) (\<lambda>(visitor, stack, s). rev stack)"
    by (simp add: rev stack_order_pop)
  show "((visitor, push_node_children n rest, s'), visitor, stack, s)
      \<in> inv_image (stack_order node_size) (\<lambda>(visitor, stack, s). rev stack)"
    by (simp add: rev push_node_parts stack_order_push query_tree.smaller)
qed (simp add: wf_stack_order)

declare walk_query_nodes.simps [simp del]

definition walk_query where
  "walk_query visitor q s = walk_query_nodes visitor [NOperation q] s"

definition walk_query_expression where
  "walk_query_expression visitor e s = walk_query_nodes visitor [NExpression e] s"

subsection \<open>The walk is the recursive one\<close>

text \<open>The reference: a node, then its children from left to right, each with its own subtree.\<close>

function visit_tree ::
  "('s \<Rightarrow> query_walk_node \<Rightarrow> 's \<times> query_walk_control) \<Rightarrow> query_walk_node \<Rightarrow> 's \<Rightarrow> bool \<times> 's"
and visit_forest ::
  "('s \<Rightarrow> query_walk_node \<Rightarrow> 's \<times> query_walk_control) \<Rightarrow> query_walk_node list \<Rightarrow> 's \<Rightarrow> bool \<times> 's" where
  "visit_tree visitor n s =
     (case visitor s n of
        (s', WBreak) \<Rightarrow> (False, s')
      | (s', WSkip) \<Rightarrow> (True, s')
      | (s', WContinue) \<Rightarrow> visit_forest visitor (node_parts n) s')"
| "visit_forest visitor [] s = (True, s)"
| "visit_forest visitor (n # ns) s =
     (case visit_tree visitor n s of (False, s') \<Rightarrow> (False, s') | (True, s') \<Rightarrow> visit_forest visitor ns s')"
  by pat_completeness auto
termination
  by (relation "inv_image (stack_order node_size <*lex*> less_than)
        (\<lambda>x. case x of Inl (_, n, _) \<Rightarrow> ([n], 0) | Inr (_, ns, _) \<Rightarrow> (ns, Suc 0))")
     (auto intro!: wf_inv_image wf_lex_prod wf_stack_order
        simp: stack_order_pop stack_order_head intro: stack_order_push [where stack = "[]", simplified] query_tree.smaller)

lemma visit_forest_append:
  "visit_forest visitor (ms @ ns) s =
     (case visit_forest visitor ms s of (False, s') \<Rightarrow> (False, s') | (True, s') \<Rightarrow> visit_forest visitor ns s')"
  by (induction ms arbitrary: s) (simp_all del: visit_tree.simps split: prod.split bool.split)

lemma walk_is_visit: "walk_query_nodes visitor stack s = visit_forest visitor (rev stack) s"
proof (induction visitor stack s rule: walk_query_nodes.induct)
  case (1 visitor stack s)
  show ?case
  proof (cases "stack = []")
    case False
    then obtain rest n where stack: "stack = rest @ [n]" by (meson rev_exhaust)
    obtain s' c where v: "visitor s n = (s', c)" by (cases "visitor s n")
    show ?thesis
      using 1 [OF False refl refl, unfolded stack, simplified, OF v [symmetric]] v
      by (cases c)
        (simp_all add: walk_query_nodes.simps [of visitor "rest @ [n]"] stack visit_forest_append push_node_parts
          split: prod.split bool.split)
  qed (simp add: walk_query_nodes.simps)
qed

text \<open>A visitor without state: the walk goes through when no node that is reached stops it.\<close>

definition stateless :: "(query_walk_node \<Rightarrow> query_walk_control) \<Rightarrow> unit \<Rightarrow> query_walk_node \<Rightarrow> unit \<times> query_walk_control" where
  "stateless f s n = ((), f n)"

inductive reaches :: "(query_walk_node \<Rightarrow> query_walk_control) \<Rightarrow> query_walk_node \<Rightarrow> query_walk_node \<Rightarrow> bool" for f where
  here: "reaches f n n"
| below: "f n = WContinue \<Longrightarrow> k \<in> set (node_parts n) \<Longrightarrow> reaches f k m \<Longrightarrow> reaches f n m"

inductive_cases reachesE: "reaches f n m"

lemma visit_forest_stateless:
  "fst (visit_forest (stateless f) ns ()) \<longleftrightarrow> (\<forall>n \<in> set ns. fst (visit_tree (stateless f) n ()))"
  by (induction ns) (simp_all del: visit_tree.simps split: prod.split bool.split)

lemma visit_tree_control:
  "fst (visit_tree (stateless f) n ()) \<longleftrightarrow>
     (case f n of WContinue \<Rightarrow> \<forall>k \<in> set (node_parts n). fst (visit_tree (stateless f) k ()) | WSkip \<Rightarrow> True | WBreak \<Rightarrow> False)"
proof -
  have v: "stateless f () n = ((), f n)" by (simp add: stateless_def)
  show ?thesis
    by (subst visit_tree.simps) (simp add: v visit_forest_stateless del: visit_tree.simps split: query_walk_control.split)
qed

lemma visit_tree_stateless:
  "fst (visit_tree (stateless f) n ()) \<longleftrightarrow> (\<forall>m. reaches f n m \<longrightarrow> f m \<noteq> WBreak)"
proof (induction n rule: query_tree.node_induct)
  case (node n)
  have "(\<forall>m. reaches f n m \<longrightarrow> f m \<noteq> WBreak) \<longleftrightarrow>
     (case f n of WContinue \<Rightarrow> \<forall>k \<in> set (node_parts n). \<forall>m. reaches f k m \<longrightarrow> f m \<noteq> WBreak | WSkip \<Rightarrow> True | WBreak \<Rightarrow> False)"
    by (cases "f n") (auto elim: reachesE intro: reaches.intros)
  with node show ?case by (subst visit_tree_control) (simp del: visit_tree.simps cong: query_walk_control.case_cong)
qed

lemma crs_rule_scalar: "crs_rule f = None \<longleftrightarrow> \<not> returns_geometry f"
  by (cases f) (simp_all add: crs_rule_def returns_geometry_def)

section \<open>Properties\<close>

text \<open>C31: the iterative walk, with any visitor and any state the visitor keeps, is the recursive one over the parts of
  each node in the order of its clauses: the pushes of the source leave on the stack exactly those parts, all of
  them and in the order in which they are to be popped; so a node comes first, then its parts from the first
  clause to the last, a skipped node without its subtree, and nothing after a visitor that stops.  It always
  ends, and a visitor without state lets it through exactly when it stops at no node that it reaches.\<close>

theorem walk_query_is_recursive:
  "push_node_children n stack = stack @ rev (node_parts n)
   \<and> walk_query visitor q s = visit_tree visitor (NOperation q) s
   \<and> walk_query_expression visitor e s = visit_tree visitor (NExpression e) s
   \<and> (fst (walk_query_expression (stateless f) e ()) \<longleftrightarrow> (\<forall>n. reaches f (NExpression e) n \<longrightarrow> f n \<noteq> WBreak))"
proof -
  have single: "visit_forest v [n] t = visit_tree v n t"
    for v :: "'s \<Rightarrow> query_walk_node \<Rightarrow> 's \<times> query_walk_control" and n t
    by (simp del: visit_tree.simps split: prod.split bool.split)
  have single_unit: "visit_forest v [n] t = visit_tree v n t"
    for v :: "unit \<Rightarrow> query_walk_node \<Rightarrow> unit \<times> query_walk_control" and n t
    by (simp del: visit_tree.simps split: prod.split bool.split)
  show ?thesis
    using visit_tree_stateless push_node_parts
    by (simp add: walk_query_def walk_query_expression_def walk_is_visit single single_unit
        del: visit_tree.simps visit_forest.simps)
qed

text \<open>A visitor that stops at columns finds the one inside a negation.\<close>

fun stop_at_column :: "query_walk_node \<Rightarrow> query_walk_control" where
  "stop_at_column (NExpression (Column _)) = WBreak"
| "stop_at_column _ = WContinue"

theorem walk_query_is_recursive_witness:
  "\<not> fst (walk_query_expression (stateless stop_at_column) (Not (Column \<lparr>cr_relation = None, cr_field = ''a''\<rparr>)) ())"
proof -
  have "reaches stop_at_column (NExpression (Not (Column \<lparr>cr_relation = None, cr_field = ''a''\<rparr>)))
      (NExpression (Column \<lparr>cr_relation = None, cr_field = ''a''\<rparr>))"
    by (rule reaches.below [OF _ _ reaches.here]) simp_all
  then show ?thesis
    using walk_query_is_recursive [where e = "Not (Column \<lparr>cr_relation = None, cr_field = ''a''\<rparr>)" and f = stop_at_column]
    by (metis stop_at_column.simps(1))
qed

end
