(* ===== verification/Query_Validation.thy ===== *)
theory Query_Validation
  imports Relational
begin

text \<open>
  \<open>validate_query_operation\<close> of \<open>plenora-database-core/src/relational.rs\<close>: the iterative validator of a
  query.  The checks of one node are separate from what the node pushes on the stack, since a push has no
  effect on a check; both keep the order of the source, so the first error is the source's.
\<close>

section \<open>Local checks\<close>

definition refuse_if :: "bool \<Rightarrow> string \<Rightarrow> unit result" where
  "refuse_if c message = (if c then Inl (invalid_plan message) else Inr ())"

fun check_each :: "('a \<Rightarrow> unit result) \<Rightarrow> 'a list \<Rightarrow> unit result" where
  "check_each f [] = Inr ()"
| "check_each f (x # xs) = and_then (f x) (\<lambda>_. check_each f xs)"

fun check_option :: "('a \<Rightarrow> unit result) \<Rightarrow> 'a option \<Rightarrow> unit result" where
  "check_option f None = Inr ()"
| "check_option f (Some x) = f x"

fun frame_position :: "window_frame_bound \<Rightarrow> int" where
  "frame_position UnboundedPreceding = - (2 ^ 127)"
| "frame_position (Preceding offset) = - uint offset"
| "frame_position CurrentRow = 0"
| "frame_position (Following offset) = uint offset"
| "frame_position UnboundedFollowing = 2 ^ 127 - 1"

definition validate_window_frame :: "window_frame \<Rightarrow> unit result" where
  "validate_window_frame f =
     (case wf_end f of
        None \<Rightarrow> Inr ()
      | Some e \<Rightarrow> refuse_if (frame_position (wf_start f) > frame_position e)
                 ''frame window con limite iniziale successivo al finale'')"

datatype window_position = WpAllowed | WpClause | WpNested | WpSetOperation

fun reject_window :: "window_position \<Rightarrow> unit result" where
  "reject_window WpAllowed = Inr ()"
| "reject_window WpClause = Inl (invalid_plan ''funzione window fuori da projection e ORDER BY'')"
| "reject_window WpSetOperation = Inl (invalid_plan ''funzione window nell'ORDER BY di una set operation'')"
| "reject_window WpNested = Inl (invalid_plan ''funzione window annidata in una window o in un'aggregata'')"

definition query_identifier :: "nat \<Rightarrow> string \<Rightarrow> unit result" where
  "query_identifier max_bytes value =
     refuse_if (value = [] \<or> CHR 0x00 \<in> set value \<or> length value > max_bytes)
       ''identificatore query vuoto, con NUL o oltre limite''"

definition check_source :: "nat \<Rightarrow> query_source \<Rightarrow> unit result" where
  "check_source max_bytes v =
     and_then (check_option (query_identifier max_bytes) (or_catalog (qs_object v))) (\<lambda>_.
     and_then (check_option (query_identifier max_bytes) (or_schema (qs_object v))) (\<lambda>_.
     and_then (query_identifier max_bytes (or_object (qs_object v))) (\<lambda>_.
     check_option (query_identifier max_bytes) (qs_alias v))))"

text \<open>The stack of \<open>predicate\<close>.\<close>

fun predicate_children :: "query_expression \<Rightarrow> query_expression list option" where
  "predicate_children (Compare _ _ _) = Some []"
| "predicate_children (InList _ _ _) = Some []"
| "predicate_children (Between _ _ _ _) = Some []"
| "predicate_children (Like _ _ _ _) = Some []"
| "predicate_children (IsNull _ _) = Some []"
| "predicate_children (Exists _ _) = Some []"
| "predicate_children (InSubquery _ _ _) = Some []"
| "predicate_children (And args) = Some args"
| "predicate_children (Or args) = Some args"
| "predicate_children (Not e) = Some [e]"
| "predicate_children (Spatial f args) = (if returns_boolean f (length args) then Some [] else None)"
| "predicate_children (SpatialOperator op _ _) = (if operator_returns_boolean op then Some [] else None)"
| "predicate_children _ = None"

lemma predicate_child_size: "predicate_children e = Some es \<Longrightarrow> e' \<in> set es \<Longrightarrow> size e' < size e"
  by (cases e) (auto split: if_splits dest: size_list_member [where f = size])

function predicate_loop :: "query_expression list \<Rightarrow> unit result" where
  "predicate_loop [] = Inr ()"
| "predicate_loop (item # stack) =
     (case predicate_children item of
        None \<Rightarrow> Inl (invalid_plan ''espressione non booleana usata come predicato'')
      | Some es \<Rightarrow> predicate_loop (rev es @ stack))"
  by pat_completeness auto
termination
  by (relation "stack_order size") (auto intro: wf_stack_order stack_order_rev_push predicate_child_size)

definition predicate :: "query_expression \<Rightarrow> unit result" where
  "predicate e = predicate_loop [e]"

fun locking_control :: "query_walk_node \<Rightarrow> query_walk_control" where
  "locking_control (NExpression (Window _ _ _ _ _)) = WBreak"
| "locking_control (NExpression (SpatialWindow _ _ _ _ _)) = WBreak"
| "locking_control (NExpression (Scalar f _)) = (if scalar_is_aggregate f then WBreak else WContinue)"
| "locking_control (NExpression (Spatial f args)) =
     (if spatial_is_aggregate f (length args) then WBreak else WContinue)"
| "locking_control (NOperation _) = WSkip"
| "locking_control _ = WContinue"

definition contains_locking_incompatible_expression :: "query_expression \<Rightarrow> bool" where
  "contains_locking_incompatible_expression e \<longleftrightarrow> \<not> fst (walk_query_expression (stateless locking_control) e ())"

fun source_reference_control :: "query_walk_node \<Rightarrow> query_walk_control" where
  "source_reference_control (NExpression (Column _)) = WBreak"
| "source_reference_control (NExpression (Wildcard _)) = WBreak"
| "source_reference_control (NOperation _) = WSkip"
| "source_reference_control _ = WContinue"

definition contains_direct_source_reference :: "query_expression \<Rightarrow> bool" where
  "contains_direct_source_reference e \<longleftrightarrow> \<not> fst (walk_query_expression (stateless source_reference_control) e ())"

definition clause_expressions :: "query_operation \<Rightarrow> query_expression list" where
  "clause_expressions q =
     map qp_expression (op_projection q) @ list_of_option (op_filter q) @ op_group_by q
     @ list_of_option (op_having q) @ map qo_expression (op_order_by q) @ op_distinct_on q"

section \<open>Operations\<close>

definition check_clauses :: "query_operation \<Rightarrow> unit result" where
  "check_clauses q =
     and_then (refuse_if (op_projection q = []) ''query senza projection'') (\<lambda>_.
     and_then (refuse_if (op_distinct q \<and> op_distinct_on q \<noteq> [])
       ''DISTINCT e DISTINCT ON non possono coesistere'') (\<lambda>_.
     and_then (refuse_if (op_row_offset q \<noteq> None \<and> op_order_by q = [])
       ''OFFSET richiede ORDER BY deterministico'') (\<lambda>_.
     and_then (refuse_if (op_distinct_on q \<noteq> [] \<and>
         (length (op_order_by q) < length (op_distinct_on q)
          \<or> list_ex (\<lambda>(d, o1). d \<noteq> qo_expression o1) (zip (op_distinct_on q) (op_order_by q))))
       ''DISTINCT ON deve coincidere col prefisso ORDER BY'') (\<lambda>_.
     and_then (refuse_if (list_ex (\<lambda>s. length (op_projection (so_query s)) \<noteq> length (op_projection q))
         (op_set_operations q))
       ''set operation con numero di colonne differente'') (\<lambda>_.
     and_then (refuse_if (op_locking q \<noteq> None \<and> op_set_operations q \<noteq> [])
       ''locking non ammesso su query con set operation'') (\<lambda>_.
     refuse_if (op_locking q \<noteq> None \<and>
         (op_distinct q \<or> op_distinct_on q \<noteq> [] \<or> op_group_by q \<noteq> [] \<or> op_having q \<noteq> None
          \<or> list_ex (\<lambda>p. contains_locking_incompatible_expression (qp_expression p)) (op_projection q)))
       ''locking non ammesso con distinct, aggregazioni o window''))))))"

definition saturating_add_usize :: "nat \<Rightarrow> nat \<Rightarrow> nat" where
  "saturating_add_usize a b = min (a + b) usize_max"

definition structural_nodes :: "query_operation \<Rightarrow> nat" where
  "structural_nodes q =
     fold (\<lambda>n acc. saturating_add_usize acc n)
       [length (common_table_expressions q), length (op_projection q), length (op_joins q), length (op_group_by q),
        length (op_order_by q), length (op_distinct_on q), length (op_set_operations q)] 1"

definition check_operation_source :: "nat \<Rightarrow> query_operation \<Rightarrow> unit result" where
  "check_operation_source max_bytes q =
     (case (op_source q, op_derived_source q) of
        (Some v, None) \<Rightarrow> check_source max_bytes v
      | (None, Some d) \<Rightarrow> query_identifier max_bytes (ds_alias d)
      | (None, None) \<Rightarrow>
          refuse_if (\<not> (op_joins q = [] \<and> op_locking q = None \<and> op_declared_crs q = []
              \<and> \<not> list_ex contains_direct_source_reference (clause_expressions q)))
            ''query con riferimenti relazionali richiede una sola source''
      | (Some _, Some _) \<Rightarrow> Inl (invalid_plan ''query con riferimenti relazionali richiede una sola source''))"

definition check_join :: "nat \<Rightarrow> (query_expression, query_operation) query_join \<Rightarrow> unit result" where
  "check_join max_bytes j =
     and_then (refuse_if (qj_lateral j \<and> qj_derived_source j = None) ''LATERAL richiede una subquery'') (\<lambda>_.
     and_then (case (qj_source j, qj_derived_source j) of
         (Some v, None) \<Rightarrow> check_source max_bytes v
       | (None, Some d) \<Rightarrow> query_identifier max_bytes (ds_alias d)
       | _ \<Rightarrow> Inl (invalid_plan ''join richiede una sola source, tabella o subquery'')) (\<lambda>_.
     case (qj_kind j, qj_on j) of
       (JkCross, Some _) \<Rightarrow> Inl (invalid_plan ''CROSS JOIN con clausola ON'')
     | (JkCross, None) \<Rightarrow> Inr ()
     | (_, Some on) \<Rightarrow> predicate on
     | (_, None) \<Rightarrow> Inl (invalid_plan ''JOIN senza clausola ON'')))"

definition relation_name :: "query_source \<Rightarrow> string" where
  "relation_name v = (case qs_alias v of Some a \<Rightarrow> a | None \<Rightarrow> or_object (qs_object v))"

definition lockable_relations :: "query_operation \<Rightarrow> string list" where
  "lockable_relations q =
     map relation_name (list_of_option (op_source q))
     @ concat (map (\<lambda>j. map relation_name (list_of_option (qj_source j))) (op_joins q))"

definition check_locking :: "nat \<Rightarrow> query_operation \<Rightarrow> query_lock \<Rightarrow> unit result" where
  "check_locking max_bytes q lock =
     check_each (\<lambda>r. and_then (query_identifier max_bytes r) (\<lambda>_.
       refuse_if (r \<notin> set (lockable_relations q)) ''relazione FOR UPDATE/SHARE non direttamente lockable''))
       (ql_relations lock)"

definition check_operation :: "limits \<Rightarrow> query_operation \<Rightarrow> unit result" where
  "check_operation l q =
     (let max_bytes = l_max_identifier_bytes l in
     and_then (check_clauses q) (\<lambda>_.
     and_then (check_operation_source max_bytes q) (\<lambda>_.
     and_then (check_each (\<lambda>c. query_identifier max_bytes (cte_name c)) (common_table_expressions q)) (\<lambda>_.
     and_then (check_each (\<lambda>p. check_option (query_identifier max_bytes) (qp_alias p)) (op_projection q)) (\<lambda>_.
     and_then (check_each (check_join max_bytes) (op_joins q)) (\<lambda>_.
     and_then (check_option predicate (op_filter q)) (\<lambda>_.
     and_then (check_option predicate (op_having q)) (\<lambda>_.
     check_option (check_locking max_bytes q) (op_locking q)))))))))"

section \<open>Expressions\<close>

definition window_capable :: "scalar_function \<Rightarrow> bool" where
  "window_capable f \<longleftrightarrow> f \<in> {Count, Sum, Average, Minimum, Maximum, RowNumber, Rank, DenseRank, Lag, Lead}"

fun is_column :: "query_expression \<Rightarrow> bool" where
  "is_column (Column _) = True"
| "is_column _ = False"

fun is_value_bind :: "query_expression \<Rightarrow> bool" where
  "is_value_bind (Parameter _) = True"
| "is_value_bind (TypedParameter _ _) = True"
| "is_value_bind _ = False"

fun check_expression :: "limits \<Rightarrow> window_position \<Rightarrow> query_expression \<Rightarrow> unit result" where
  "check_expression l pos (Wildcard r) = check_option (query_identifier (l_max_identifier_bytes l)) r"
| "check_expression l pos (Column c) =
     and_then (check_option (query_identifier (l_max_identifier_bytes l)) (cr_relation c)) (\<lambda>_.
     query_identifier (l_max_identifier_bytes l) (cr_field c))"
| "check_expression l pos (Parameter name) = query_identifier 256 name"
| "check_expression l pos (TypedParameter name _) = query_identifier 256 name"
| "check_expression l pos (Scalar f args) =
     and_then (refuse_if (requires_window f) ''funzione window usata senza clausola OVER'') (\<lambda>_.
     refuse_if (\<not> scalar_accepts_argument_count f (length args)) ''numero argomenti funzione scalare non valido'')"
| "check_expression l pos (Spatial f args) =
     and_then (refuse_if (is_window_only f)
       ''funzione spatial window usata come chiamata ordinaria: richiede QueryExpression::SpatialWindow'') (\<lambda>_.
     refuse_if (\<not> spatial_accepts_argument_count f (length args)) ''numero argomenti funzione spatial non valido'')"
| "check_expression l pos (SpatialOutput e _) =
     refuse_if (\<not> is_column e) ''projection spatial richiede una colonna''"
| "check_expression l pos (SpatialValue e srid _) =
     and_then (refuse_if (srid = 0) ''valore spatial richiede SRID positivo'') (\<lambda>_.
     refuse_if (\<not> is_value_bind e) ''valore spatial richiede un bind'')"
| "check_expression l pos (InList e vs _) = refuse_if (vs = []) ''lista IN query vuota''"
| "check_expression l pos (Case bs el) =
     and_then (refuse_if (bs = []) ''CASE richiede almeno un ramo'') (\<lambda>_.
     check_each (\<lambda>b. predicate (cb_when b)) bs)"
| "check_expression l pos (Window f args pb ob fr) =
     and_then (refuse_if (\<not> window_capable f) ''funzione non valida come window'') (\<lambda>_.
     and_then (reject_window pos) (\<lambda>_.
     and_then (refuse_if (\<not> scalar_accepts_argument_count f (length args))
       ''numero argomenti funzione window non valido'') (\<lambda>_.
     check_option validate_window_frame fr)))"
| "check_expression l pos (SpatialWindow f args pb ob fr) =
     and_then (refuse_if (\<not> is_window_only f \<or> \<not> spatial_accepts_argument_count f (length args))
       ''funzione spatial window non valida'') (\<lambda>_.
     and_then (reject_window pos) (\<lambda>_.
     check_option validate_window_frame fr))"
| "check_expression l pos (And args) = refuse_if (args = []) ''gruppo query vuoto''"
| "check_expression l pos (Or args) = refuse_if (args = []) ''gruppo query vuoto''"
| "check_expression l pos _ = Inr ()"

section \<open>The loop\<close>

datatype validation_node = VOperation query_operation nat | VExpression query_expression nat window_position

fun node_depth :: "validation_node \<Rightarrow> nat" where
  "node_depth (VOperation _ d) = d"
| "node_depth (VExpression _ d _) = d"

fun node_cost :: "validation_node \<Rightarrow> nat" where
  "node_cost (VOperation q _) = structural_nodes q"
| "node_cost (VExpression _ _ _) = 1"

fun check_node :: "limits \<Rightarrow> validation_node \<Rightarrow> unit result" where
  "check_node l (VOperation q _) = check_operation l q"
| "check_node l (VExpression e _ pos) = check_expression l pos e"

text \<open>The pushes of an operation, in the order of the source.\<close>

definition derived_pushes :: "query_source option \<Rightarrow> query_operation query_derived_source option \<Rightarrow> nat \<Rightarrow> validation_node list" where
  "derived_pushes src ds d = (case (src, ds) of (None, Some v) \<Rightarrow> [VOperation (ds_query v) d] | _ \<Rightarrow> [])"

definition on_pushes :: "join_kind \<Rightarrow> query_expression option \<Rightarrow> nat \<Rightarrow> validation_node list" where
  "on_pushes kind on d =
     (case (kind, on) of
        (JkCross, _) \<Rightarrow> []
      | (_, Some e) \<Rightarrow> [VExpression e d WpClause]
      | (_, None) \<Rightarrow> [])"

definition operation_pushes :: "query_operation \<Rightarrow> nat \<Rightarrow> validation_node list" where
  "operation_pushes q depth =
     (let d = saturating_add_usize depth 1;
          ordering_position = (if op_set_operations q = [] then WpAllowed else WpSetOperation)
      in derived_pushes (op_source q) (op_derived_source q) d
         @ map (\<lambda>c. VOperation (cte_query c) d) (common_table_expressions q)
         @ map (\<lambda>p. VExpression (qp_expression p) d WpAllowed) (op_projection q)
         @ concat (map (\<lambda>j. derived_pushes (qj_source j) (qj_derived_source j) d @ on_pushes (qj_kind j) (qj_on j) d)
             (op_joins q))
         @ map (\<lambda>e. VExpression e d WpClause) (list_of_option (op_filter q))
         @ map (\<lambda>e. VExpression e d WpClause) (op_group_by q)
         @ map (\<lambda>e. VExpression e d WpClause) (op_distinct_on q)
         @ map (\<lambda>e. VExpression e d WpClause) (list_of_option (op_having q))
         @ map (\<lambda>o1. VExpression (qo_expression o1) d ordering_position) (op_order_by q)
         @ map (\<lambda>s. VOperation (so_query s) d) (op_set_operations q))"

definition push_window_children ::
  "nat \<Rightarrow> query_expression list \<Rightarrow> query_expression list \<Rightarrow> query_expression query_ordering list \<Rightarrow> validation_node list" where
  "push_window_children d args pb ob =
     map (\<lambda>e. VExpression e d WpNested) (args @ pb) @ map (\<lambda>o1. VExpression (qo_expression o1) d WpNested) ob"

fun expression_pushes :: "query_expression \<Rightarrow> nat \<Rightarrow> window_position \<Rightarrow> validation_node list" where
  "expression_pushes (Scalar f args) d pos =
     map (\<lambda>e. VExpression e d (if scalar_is_aggregate f then WpNested else pos)) args"
| "expression_pushes (Spatial f args) d pos =
     map (\<lambda>e. VExpression e d (if spatial_is_aggregate f (length args) then WpNested else pos)) args"
| "expression_pushes (SpatialOutput e _) d pos = [VExpression e d pos]"
| "expression_pushes (SpatialValue e _ _) d pos = [VExpression e d pos]"
| "expression_pushes (Arithmetic l _ r) d pos = [VExpression l d pos, VExpression r d pos]"
| "expression_pushes (SpatialOperator _ l r) d pos = [VExpression l d pos, VExpression r d pos]"
| "expression_pushes (Compare l _ r) d pos = [VExpression l d pos, VExpression r d pos]"
| "expression_pushes (InList e vs _) d pos = VExpression e d pos # map (\<lambda>v. VExpression v d pos) vs"
| "expression_pushes (Between e l u _) d pos = [VExpression e d pos, VExpression l d pos, VExpression u d pos]"
| "expression_pushes (Like e p _ _) d pos = [VExpression e d pos, VExpression p d pos]"
| "expression_pushes (Cast e _) d pos = [VExpression e d pos]"
| "expression_pushes (NullsOrder e _) d pos = [VExpression e d pos]"
| "expression_pushes (IsNull e _) d pos = [VExpression e d pos]"
| "expression_pushes (Not e) d pos = [VExpression e d pos]"
| "expression_pushes (Case bs el) d pos =
     map (\<lambda>e. VExpression e d pos) (list_of_option el)
     @ concat (map (\<lambda>b. [VExpression (cb_when b) d pos, VExpression (cb_then b) d pos]) bs)"
| "expression_pushes (Window f args pb ob fr) d pos = push_window_children d args pb ob"
| "expression_pushes (SpatialWindow f args pb ob fr) d pos = push_window_children d args pb ob"
| "expression_pushes (ScalarSubquery q) d pos = [VOperation q d]"
| "expression_pushes (Exists q _) d pos = [VOperation q d]"
| "expression_pushes (InSubquery e q _) d pos = [VExpression e d pos, VOperation q d]"
| "expression_pushes (And args) d pos = map (\<lambda>e. VExpression e d pos) args"
| "expression_pushes (Or args) d pos = map (\<lambda>e. VExpression e d pos) args"
| "expression_pushes _ d pos = []"

fun node_pushes :: "validation_node \<Rightarrow> validation_node list" where
  "node_pushes (VOperation q d) = operation_pushes q d"
| "node_pushes (VExpression e d pos) = expression_pushes e (saturating_add_usize d 1) pos"

subsection \<open>Pushed nodes are smaller\<close>

fun walk_node :: "validation_node \<Rightarrow> query_walk_node" where
  "walk_node (VOperation q _) = NOperation q"
| "walk_node (VExpression e _ _) = NExpression e"

definition node_weight :: "validation_node \<Rightarrow> nat" where
  "node_weight n = node_size (walk_node n)"

lemma derived_push: "m \<in> set (derived_pushes src ds d) \<longleftrightarrow> (\<exists>v. src = None \<and> ds = Some v \<and> m = VOperation (ds_query v) d)"
  by (auto simp: derived_pushes_def split: option.splits)

lemma on_push: "m \<in> set (on_pushes kind on d) \<longleftrightarrow> kind \<noteq> JkCross \<and> (\<exists>e. on = Some e \<and> m = VExpression e d WpClause)"
  by (cases kind) (auto simp: on_pushes_def split: option.splits)

lemma join_child_intro:
  assumes "j \<in> set (op_joins q)" "n \<in> set (join_parts j)"
  shows "n \<in> set (operation_parts q)"
proof -
  have "n \<in> set (concat (map join_parts (op_joins q)))" using assms by auto
  then show ?thesis unfolding operation_parts_def set_append by blast
qed

lemma operation_child_intros:
  "op_derived_source q = Some v \<Longrightarrow> NOperation (ds_query v) \<in> set (operation_parts q)"
  "c \<in> set (common_table_expressions q) \<Longrightarrow> NOperation (cte_query c) \<in> set (operation_parts q)"
  "p \<in> set (op_projection q) \<Longrightarrow> NExpression (qp_expression p) \<in> set (operation_parts q)"
  "op_filter q = Some e \<Longrightarrow> NExpression e \<in> set (operation_parts q)"
  "e \<in> set (op_group_by q) \<Longrightarrow> NExpression e \<in> set (operation_parts q)"
  "e \<in> set (op_distinct_on q) \<Longrightarrow> NExpression e \<in> set (operation_parts q)"
  "op_having q = Some e \<Longrightarrow> NExpression e \<in> set (operation_parts q)"
  "o1 \<in> set (op_order_by q) \<Longrightarrow> NExpression (qo_expression o1) \<in> set (operation_parts q)"
  "s \<in> set (op_set_operations q) \<Longrightarrow> NOperation (so_query s) \<in> set (operation_parts q)"
  by (auto simp: operation_parts_def)

lemma join_child_intros:
  "j \<in> set (op_joins q) \<Longrightarrow> qj_derived_source j = Some v \<Longrightarrow> NOperation (ds_query v) \<in> set (operation_parts q)"
  "j \<in> set (op_joins q) \<Longrightarrow> qj_on j = Some e \<Longrightarrow> NExpression e \<in> set (operation_parts q)"
  by (rule join_child_intro; auto simp: join_parts_def)+

lemma operation_push_child: "m \<in> set (operation_pushes q d) \<Longrightarrow> walk_node m \<in> set (operation_parts q)"
  by (auto simp: operation_pushes_def Let_def derived_push on_push intro: operation_child_intros join_child_intros)

lemma expression_push_child: "m \<in> set (expression_pushes e d pos) \<Longrightarrow> walk_node m \<in> set (expression_parts e)"
  by (cases e) (auto simp: push_window_children_def)

lemma push_child: "m \<in> set (node_pushes n) \<Longrightarrow> walk_node m \<in> set (node_parts (walk_node n))"
  by (cases n) (auto dest: operation_push_child expression_push_child)

interpretation validation_tree: node_tree node_pushes node_weight
proof
  show "node_weight m < node_weight n" if "m \<in> set (node_pushes n)" for m n
    using query_tree.smaller [OF push_child [OF that]] by (simp add: node_weight_def)
qed

function validate_loop :: "limits \<Rightarrow> validation_node list \<Rightarrow> nat \<Rightarrow> unit result" where
  "validate_loop l [] nodes = Inr ()"
| "validate_loop l (node # stack) nodes =
     and_then (check_node l node) (\<lambda>_.
       let nodes = saturating_add_usize nodes (node_cost node)
       in if node_depth node > l_max_filter_depth l \<or> nodes > l_max_filter_nodes l
          then Inl (invalid_plan (''query oltre i limiti di profondit'' @ [CHR 0xC3, CHR 0xA0] @ '' o nodi''))
          else validate_loop l (rev (node_pushes node) @ stack) nodes)"
  by pat_completeness auto
termination
  by (relation "inv_image (stack_order node_weight) (\<lambda>(l, stack, n). stack)")
     (auto intro: wf_stack_order stack_order_rev_push validation_tree.smaller)

definition validate_query_operation :: "query_operation \<Rightarrow> limits \<Rightarrow> unit result" where
  "validate_query_operation q l = validate_loop l [VOperation q 1] 0"

end
