(* ===== verification/Query_Proofs.thy ===== *)
theory Query_Proofs
  imports Query_Validation
begin

text \<open>
  What the validator of queries decides: its loop accepts exactly the trees in which every node passes its
  own check within the depth limit and whose nodes together stay within the node limit; nothing of an
  accepted query escapes the checks; and an accepted query has no window function where none may stand.
\<close>

section \<open>Predicates\<close>

fun boolean_expression :: "query_expression \<Rightarrow> bool" where
  "boolean_expression (And args) \<longleftrightarrow> (\<forall>a \<in> set args. boolean_expression a)"
| "boolean_expression (Or args) \<longleftrightarrow> (\<forall>a \<in> set args. boolean_expression a)"
| "boolean_expression (Not e) \<longleftrightarrow> boolean_expression e"
| "boolean_expression (Spatial f args) \<longleftrightarrow> returns_boolean f (length args)"
| "boolean_expression (SpatialOperator op _ _) \<longleftrightarrow> operator_returns_boolean op"
| "boolean_expression (Compare _ _ _) \<longleftrightarrow> True"
| "boolean_expression (InList _ _ _) \<longleftrightarrow> True"
| "boolean_expression (Between _ _ _ _) \<longleftrightarrow> True"
| "boolean_expression (Like _ _ _ _) \<longleftrightarrow> True"
| "boolean_expression (IsNull _ _) \<longleftrightarrow> True"
| "boolean_expression (Exists _ _) \<longleftrightarrow> True"
| "boolean_expression (InSubquery _ _ _) \<longleftrightarrow> True"
| "boolean_expression _ \<longleftrightarrow> False"

lemma boolean_expression_children:
  "boolean_expression e \<longleftrightarrow> (\<exists>es. predicate_children e = Some es \<and> (\<forall>e' \<in> set es. boolean_expression e'))"
  by (cases e) auto

lemma predicate_loop_iff: "predicate_loop stack = Inr () \<longleftrightarrow> (\<forall>e \<in> set stack. boolean_expression e)"
proof (induction stack rule: predicate_loop.induct)
  case (2 item stack)
  then show ?case
    using boolean_expression_children [of item] by (cases "predicate_children item") auto
qed simp

lemma predicate_iff [simp]: "predicate e = Inr () \<longleftrightarrow> boolean_expression e"
  unfolding predicate_def predicate_loop_iff by simp

section \<open>The loop and the tree\<close>

function validation_nodes :: "validation_node \<Rightarrow> validation_node list" where
  "validation_nodes n = n # concat (map validation_nodes (node_pushes n))"
  by pat_completeness auto
termination
  by (relation "measure node_weight") (auto intro: validation_tree.smaller)

declare validation_nodes.simps [simp del]

definition forest_nodes :: "validation_node list \<Rightarrow> validation_node list" where
  "forest_nodes stack = concat (map validation_nodes stack)"

definition total_cost :: "validation_node list \<Rightarrow> nat" where
  "total_cost ns = sum_list (map node_cost ns)"

lemma forest_nodes_simps [simp]:
  "forest_nodes [] = []" "forest_nodes (a @ b) = forest_nodes a @ forest_nodes b"
  "forest_nodes (n # st) = n # forest_nodes (node_pushes n) @ forest_nodes st"
  by (simp_all add: forest_nodes_def validation_nodes.simps [of n])

lemma total_cost_simps [simp]:
  "total_cost [] = 0" "total_cost (a @ b) = total_cost a + total_cost b" "total_cost (n # a) = node_cost n + total_cost a"
  by (simp_all add: total_cost_def)

lemma forest_nodes_rev:
  "set (forest_nodes (rev a)) = set (forest_nodes a)" "total_cost (forest_nodes (rev a)) = total_cost (forest_nodes a)"
proof -
  show "set (forest_nodes (rev a)) = set (forest_nodes a)" by (auto simp: forest_nodes_def)
  show "total_cost (forest_nodes (rev a)) = total_cost (forest_nodes a)"
    by (induction a) simp_all
qed

definition node_ok :: "limits \<Rightarrow> validation_node \<Rightarrow> bool" where
  "node_ok l n \<longleftrightarrow> check_node l n = Inr () \<and> node_depth n \<le> l_max_filter_depth l"

lemma validate_loop_iff:
  "nodes \<le> usize_max \<Longrightarrow> nodes \<le> l_max_filter_nodes l \<Longrightarrow>
   validate_loop l stack nodes = Inr () \<longleftrightarrow>
     (\<forall>n \<in> set (forest_nodes stack). node_ok l n)
     \<and> min (nodes + total_cost (forest_nodes stack)) usize_max \<le> l_max_filter_nodes l"
proof (induction l stack nodes rule: validate_loop.induct)
  case (2 l n stack nodes)
  let ?nodes = "saturating_add_usize nodes (node_cost n)"
  show ?case
  proof (cases "check_node l n = Inr () \<and> node_depth n \<le> l_max_filter_depth l \<and> ?nodes \<le> l_max_filter_nodes l")
    case True
    have "validate_loop l (n # stack) nodes = validate_loop l (rev (node_pushes n) @ stack) ?nodes"
      using True by (simp add: not_less)
    also have "\<dots> = Inr () \<longleftrightarrow> (\<forall>m \<in> set (forest_nodes (rev (node_pushes n) @ stack)). node_ok l m)
        \<and> min (?nodes + total_cost (forest_nodes (rev (node_pushes n) @ stack))) usize_max \<le> l_max_filter_nodes l"
      by (rule 2) (use True in \<open>auto simp: saturating_add_usize_def not_less\<close>)
    also have "min (?nodes + x) usize_max = min (nodes + (node_cost n + x)) usize_max" for x
      by (simp add: saturating_add_usize_def min_def)
    finally show ?thesis
      using True by (simp add: forest_nodes_rev node_ok_def del: validate_loop.simps)
  next
    case False
    then have "validate_loop l (n # stack) nodes \<noteq> Inr ()"
      by (cases "check_node l n") (auto simp: not_le)
    moreover have "?nodes \<le> min (nodes + total_cost (forest_nodes (n # stack))) usize_max"
      by (simp add: saturating_add_usize_def)
    ultimately show ?thesis
      using False by (auto simp: node_ok_def simp del: validate_loop.simps)
  qed
qed simp

lemma validate_query_iff:
  "validate_query_operation q l = Inr () \<longleftrightarrow>
     (\<forall>n \<in> set (validation_nodes (VOperation q 1)). node_ok l n)
     \<and> min (total_cost (validation_nodes (VOperation q 1))) usize_max \<le> l_max_filter_nodes l"
  using validate_loop_iff [of 0 l "[VOperation q 1]"]
  by (simp add: validate_query_operation_def forest_nodes_def del: validate_loop.simps)

section \<open>Refusals are local\<close>

lemma refuses_refuse_if [refusal_intros]: "refuses_locally (refuse_if c m)"
  unfolding refuse_if_def by (intro refusal_intros) simp

lemma refuses_check_each [refusal_intros]: "(\<And>x. refuses_locally (f x)) \<Longrightarrow> refuses_locally (check_each f xs)"
  by (induction xs) (simp_all add: refusal_intros)

lemma refuses_check_option [refusal_intros]: "(\<And>x. refuses_locally (f x)) \<Longrightarrow> refuses_locally (check_option f o1)"
  by (cases o1) (simp_all add: refusal_intros)

lemma refuses_predicate [refusal_intros]: "refuses_locally (predicate e)"
proof -
  have "refuses_locally (predicate_loop stack)" for stack
    by (induction stack rule: predicate_loop.induct) (simp_all add: refusal_intros split: option.split)
  then show ?thesis unfolding predicate_def .
qed

lemma refuses_frame [refusal_intros]: "refuses_locally (validate_window_frame f)"
  unfolding validate_window_frame_def by (intro refusal_intros)

lemma refuses_reject_window [refusal_intros]: "refuses_locally (reject_window pos)"
  by (cases pos) (simp_all add: refusal_intros)

lemma refuses_identifier [refusal_intros]: "refuses_locally (query_identifier m v)"
  unfolding query_identifier_def by (intro refusal_intros)

lemma refuses_source [refusal_intros]: "refuses_locally (check_source m v)"
  unfolding check_source_def by (intro refusal_intros)

lemma refuses_join [refusal_intros]: "refuses_locally (check_join m j)"
  unfolding check_join_def
  by (intro refusal_intros) (auto intro!: refusal_intros split: option.splits join_kind.splits)

lemma refuses_operation [refusal_intros]: "refuses_locally (check_operation l q)"
  unfolding check_operation_def check_clauses_def check_operation_source_def check_locking_def Let_def
  by (intro refusal_intros) (auto intro!: refusal_intros split: option.splits)

lemma refuses_expression [refusal_intros]: "refuses_locally (check_expression l pos e)"
  by (cases e) (simp_all add: refusal_intros)

lemma refuses_node [refusal_intros]: "refuses_locally (check_node l n)"
  by (cases n) (simp_all add: refusal_intros)

lemma refuses_query: "refuses_locally (validate_query_operation q l)"
proof -
  have "refuses_locally (validate_loop l stack nodes)" for stack nodes
  proof (induction l stack nodes rule: validate_loop.induct)
    case (2 l n stack nodes)
    show ?case
      unfolding validate_loop.simps Let_def
      by (intro refusal_intros) (use 2 in \<open>auto intro: refusal_intros\<close>)
  qed (simp add: refusal_intros)
  then show ?thesis unfolding validate_query_operation_def .
qed

section \<open>Nothing escapes the checks\<close>

lemma refuse_if_iff [simp]: "refuse_if c m = Inr () \<longleftrightarrow> \<not> c"
  by (simp add: refuse_if_def)

lemma check_each_iff [simp]: "check_each f xs = Inr () \<longleftrightarrow> (\<forall>x \<in> set xs. f x = Inr ())"
  by (induction xs) (auto simp: result_simps)

lemma check_option_iff [simp]: "check_option f o1 = Inr () \<longleftrightarrow> (\<forall>x. o1 = Some x \<longrightarrow> f x = Inr ())"
  by (cases o1) auto

lemma check_operation_parts:
  assumes "check_operation l q = Inr ()"
  shows "check_clauses q = Inr ()" "check_operation_source (l_max_identifier_bytes l) q = Inr ()"
    "\<And>j. j \<in> set (op_joins q) \<Longrightarrow> check_join (l_max_identifier_bytes l) j = Inr ()"
    "\<And>e. op_filter q = Some e \<Longrightarrow> boolean_expression e" "\<And>e. op_having q = Some e \<Longrightarrow> boolean_expression e"
    "\<And>k. op_locking q = Some k \<Longrightarrow> check_locking (l_max_identifier_bytes l) q k = Inr ()"
  using assms by (auto simp: check_operation_def Let_def result_simps)

lemma join_parts:
  assumes "check_join m j = Inr ()"
  shows "(\<exists>v. qj_source j = Some v \<and> qj_derived_source j = None \<and> check_source m v = Inr ())
         \<or> (\<exists>d. qj_source j = None \<and> qj_derived_source j = Some d)"
    and "if qj_kind j = JkCross then qj_on j = None else (\<exists>e. qj_on j = Some e \<and> boolean_expression e)"
  using assms by (cases "qj_kind j"; auto simp: check_join_def result_simps split: option.splits)+

lemma source_parts:
  assumes "check_operation_source m q = Inr ()"
  shows "\<not> (op_source q \<noteq> None \<and> op_derived_source q \<noteq> None)" "op_source q = Some v \<Longrightarrow> check_source m v = Inr ()"
  using assms by (auto simp: check_operation_source_def split: option.splits)

text \<open>A child of the walk is pushed, or is a source that was checked.\<close>

lemma operation_children_pushed:
  assumes "check_operation l q = Inr ()" "k \<in> set (operation_parts q)"
  shows "(\<exists>v. k = NSource v \<and> check_source (l_max_identifier_bytes l) v = Inr ())
         \<or> (\<exists>m \<in> set (operation_pushes q d). walk_node m = k)"
proof -
  note parts = check_operation_parts [OF assms(1)]
  have j: "(\<exists>v. k = NSource v \<and> check_source (l_max_identifier_bytes l) v = Inr ())
      \<or> (\<exists>m \<in> set (derived_pushes (qj_source j) (qj_derived_source j) d' @ on_pushes (qj_kind j) (qj_on j) d'). walk_node m = k)"
    if "j \<in> set (op_joins q)" "k \<in> set (join_parts j)" for j d'
    using join_parts [OF parts(3) [OF that(1)]] that(2)
    by (auto simp: join_parts_def derived_pushes_def on_pushes_def split: if_splits join_kind.splits)
  from assms(2) consider
      v where "op_source q = Some v" "k = NSource v"
    | v where "op_derived_source q = Some v" "k = NOperation (ds_query v)"
    | j where "j \<in> set (op_joins q)" "k \<in> set (join_parts j)"
    | "k \<in> walk_node ` set (operation_pushes q d)"
    unfolding operation_pushes_def operation_parts_def Let_def set_append image_Un set_map image_image walk_node.simps
    by auto
  then show ?thesis
  proof cases
    case 1
    then show ?thesis using source_parts(2) [OF parts(2)] by blast
  next
    case 2
    then have "op_source q = None" using source_parts(1) [OF parts(2)] by simp
    with 2 show ?thesis by (auto simp: operation_pushes_def Let_def derived_pushes_def)
  next
    case 3
    from j [OF this, of "saturating_add_usize d 1"] show ?thesis
      using 3(1) by (auto simp: operation_pushes_def Let_def)
  qed auto
qed

lemma expression_pushes_children: "walk_node ` set (expression_pushes e d pos) = set (expression_parts e)"
proof (cases e)
  case (Case bs el)
  then show ?thesis by (simp add: image_Un image_image image_UN Un_commute)
qed (simp_all add: image_Un image_image push_window_children_def Un_assoc)

lemma expression_children_pushed:
  "k \<in> set (expression_parts e) \<Longrightarrow> \<exists>m \<in> set (expression_pushes e d pos). walk_node m = k"
  unfolding expression_pushes_children [of e d pos, symmetric] by blast

lemma children_pushed:
  assumes "check_node l n = Inr ()" "k \<in> set (node_parts (walk_node n))"
  shows "(\<exists>v. k = NSource v \<and> check_source (l_max_identifier_bytes l) v = Inr ()) \<or> (\<exists>m \<in> set (node_pushes n). walk_node m = k)"
  using assms operation_children_pushed expression_children_pushed by (cases n) simp_all

definition everything :: "query_walk_node \<Rightarrow> query_walk_control" where
  "everything n = WContinue"

lemma tree_covers_walk:
  assumes "reaches everything k0 k" "walk_node n = k0" "\<And>m. m \<in> set (validation_nodes n) \<Longrightarrow> check_node l m = Inr ()"
  shows "(\<exists>v. k = NSource v \<and> check_source (l_max_identifier_bytes l) v = Inr ())
         \<or> (\<exists>m \<in> set (validation_nodes n). walk_node m = k)"
  using assms
proof (induction arbitrary: n rule: reaches.induct)
  case (here k)
  then show ?case by (auto simp: validation_nodes.simps [of n])
next
  case (below k0 k1 k)
  have "check_node l n = Inr ()" using below.prems(2) by (simp add: validation_nodes.simps [of n])
  from children_pushed [OF this] below.hyps(2) below.prems(1)
  consider v where "k1 = NSource v" "check_source (l_max_identifier_bytes l) v = Inr ()"
    | m where "m \<in> set (node_pushes n)" "walk_node m = k1" by blast
  then show ?case
  proof cases
    case 1
    then show ?thesis using below.hyps(3) by (auto elim: reachesE)
  next
    case 2
    have "set (validation_nodes m) \<subseteq> set (validation_nodes n)"
      using 2(1) by (auto simp: validation_nodes.simps [of n])
    then show ?thesis using below.IH [OF 2(2)] below.prems(2) by blast
  qed
qed

section \<open>Window functions\<close>

fun is_window :: "query_walk_node \<Rightarrow> bool" where
  "is_window (NExpression (Window _ _ _ _ _)) = True"
| "is_window (NExpression (SpatialWindow _ _ _ _ _)) = True"
| "is_window _ = False"

text \<open>The nodes of an expression that belong to its own query, not to a subquery.\<close>

fun own_query :: "query_walk_node \<Rightarrow> query_walk_control" where
  "own_query (NOperation _) = WSkip"
| "own_query _ = WContinue"

definition window_free :: "query_expression \<Rightarrow> bool" where
  "window_free e \<longleftrightarrow> (\<forall>n. reaches own_query (NExpression e) n \<longrightarrow> \<not> is_window n)"

lemma reject_window_iff [simp]: "reject_window pos = Inr () \<longleftrightarrow> pos = WpAllowed"
  by (cases pos) simp_all

lemma window_needs_allowed:
  "check_expression l pos e = Inr () \<Longrightarrow> is_window (NExpression e) \<Longrightarrow> pos = WpAllowed"
  by (cases e) (auto simp: result_simps)

lemma push_position:
  "VExpression e' d' pos' \<in> set (expression_pushes e d pos) \<Longrightarrow> pos \<noteq> WpAllowed \<Longrightarrow> pos' \<noteq> WpAllowed"
  by (cases e) (auto simp: push_window_children_def split: if_splits)

lemma pushed_tree: "m \<in> set (node_pushes n) \<Longrightarrow> set (validation_nodes m) \<subseteq> set (validation_nodes n)"
  by (auto simp: validation_nodes.simps [of n])

lemma node_in_tree: "n \<in> set (validation_nodes n)"
  by (simp add: validation_nodes.simps [of n])

lemma tree_closed: "m \<in> set (validation_nodes n) \<Longrightarrow> set (validation_nodes m) \<subseteq> set (validation_nodes n)"
proof (induction n rule: validation_tree.node_induct)
  case (node n)
  then show ?case by (auto simp: validation_nodes.simps [of n])
qed

lemma restricted_no_window:
  assumes "reaches own_query k0 k" "k0 = NExpression e" "pos \<noteq> WpAllowed"
    and "\<And>m. m \<in> set (validation_nodes (VExpression e d pos)) \<Longrightarrow> check_node l m = Inr ()"
  shows "\<not> is_window k"
  using assms
proof (induction arbitrary: e d pos rule: reaches.induct)
  case (here k)
  have "check_expression l pos e = Inr ()" using here.prems(3) [OF node_in_tree] by simp
  then show ?case using window_needs_allowed here.prems(1,2) by blast
next
  case (below k0 k1 k)
  have "k1 \<in> set (expression_parts e)" using below.hyps(2) below.prems(1) by simp
  from expression_children_pushed [OF this, of "saturating_add_usize d 1" pos]
  obtain m where m: "m \<in> set (node_pushes (VExpression e d pos))" "walk_node m = k1" by auto
  show ?case
  proof (cases m)
    case (VOperation q d')
    then show ?thesis using m(2) below.hyps(3) by (auto elim: reachesE)
  next
    case (VExpression e' d' pos')
    have "pos' \<noteq> WpAllowed" using push_position m(1) below.prems(2) by (auto simp: VExpression)
    moreover have "check_node l m' = Inr ()" if "m' \<in> set (validation_nodes (VExpression e' d' pos'))" for m'
      using that pushed_tree [OF m(1)] below.prems(3) by (auto simp: VExpression)
    ultimately show ?thesis using below.IH [of e' pos' d'] m(2) by (simp add: VExpression)
  qed
qed

definition restricted_expressions :: "query_operation \<Rightarrow> query_expression list" where
  "restricted_expressions q =
     list_of_option (op_filter q) @ op_group_by q @ op_distinct_on q @ list_of_option (op_having q)
     @ concat (map (\<lambda>j. list_of_option (qj_on j)) (op_joins q))
     @ (if op_set_operations q = [] then [] else map qo_expression (op_order_by q))"

lemma operation_push_intros:
  "op_filter q = Some e \<Longrightarrow> VExpression e (saturating_add_usize d 1) WpClause \<in> set (operation_pushes q d)"
  "e \<in> set (op_group_by q) \<Longrightarrow> VExpression e (saturating_add_usize d 1) WpClause \<in> set (operation_pushes q d)"
  "e \<in> set (op_distinct_on q) \<Longrightarrow> VExpression e (saturating_add_usize d 1) WpClause \<in> set (operation_pushes q d)"
  "op_having q = Some e \<Longrightarrow> VExpression e (saturating_add_usize d 1) WpClause \<in> set (operation_pushes q d)"
  "o1 \<in> set (op_order_by q) \<Longrightarrow> op_set_operations q \<noteq> [] \<Longrightarrow>
     VExpression (qo_expression o1) (saturating_add_usize d 1) WpSetOperation \<in> set (operation_pushes q d)"
  by (simp_all add: operation_pushes_def Let_def list_of_option_def)

lemma operation_push_on:
  assumes "j \<in> set (op_joins q)" "m \<in> set (on_pushes (qj_kind j) (qj_on j) (saturating_add_usize d 1))"
  shows "m \<in> set (operation_pushes q d)"
proof -
  let ?d = "saturating_add_usize d 1"
  have "m \<in> set (concat (map (\<lambda>j. derived_pushes (qj_source j) (qj_derived_source j) ?d @ on_pushes (qj_kind j) (qj_on j) ?d)
      (op_joins q)))" using assms by auto
  then show ?thesis unfolding operation_pushes_def Let_def set_append by blast
qed

lemma restricted_pushed:
  assumes "check_operation l q = Inr ()" "e \<in> set (restricted_expressions q)"
  shows "\<exists>pos d'. pos \<noteq> WpAllowed \<and> VExpression e d' pos \<in> set (operation_pushes q d)"
proof -
  have j: "VExpression e d' WpClause \<in> set (on_pushes (qj_kind j) (qj_on j) d')"
    if "j \<in> set (op_joins q)" "qj_on j = Some e" for j d'
    using join_parts(2) [OF check_operation_parts(3) [OF assms(1) that(1)]] that(2)
    by (auto simp: on_push split: if_splits)
  let ?d = "saturating_add_usize d 1"
  from assms(2) consider "op_filter q = Some e" | "e \<in> set (op_group_by q)" | "e \<in> set (op_distinct_on q)"
    | "op_having q = Some e" | j where "j \<in> set (op_joins q)" "qj_on j = Some e"
    | o1 where "op_set_operations q \<noteq> []" "o1 \<in> set (op_order_by q)" "e = qo_expression o1"
    by (auto simp: restricted_expressions_def split: if_splits)
  then have "VExpression e ?d WpClause \<in> set (operation_pushes q d) \<or> VExpression e ?d WpSetOperation \<in> set (operation_pushes q d)"
    by cases (blast intro: operation_push_intros operation_push_on [OF _ j])+
  then show ?thesis by blast
qed

section \<open>Names\<close>

fun node_names :: "query_walk_node \<Rightarrow> string list" where
  "node_names (NSource v) =
     list_of_option (or_catalog (qs_object v)) @ list_of_option (or_schema (qs_object v))
     @ or_object (qs_object v) # list_of_option (qs_alias v)"
| "node_names (NExpression (Wildcard r)) = list_of_option r"
| "node_names (NExpression (Column c)) = list_of_option (cr_relation c) @ [cr_field c]"
| "node_names (NExpression (Parameter n)) = [n]"
| "node_names (NExpression (TypedParameter n _)) = [n]"
| "node_names (NExpression _) = []"
| "node_names (NOperation q) =
     (case (op_source q, op_derived_source q) of (None, Some d) \<Rightarrow> [ds_alias d] | _ \<Rightarrow> [])
     @ map cte_name (common_table_expressions q)
     @ concat (map (\<lambda>p. list_of_option (qp_alias p)) (op_projection q))
     @ concat (map (\<lambda>k. ql_relations k) (list_of_option (op_locking q)))"

definition safe_name :: "limits \<Rightarrow> string \<Rightarrow> bool" where
  "safe_name l n \<longleftrightarrow> n \<noteq> [] \<and> CHR 0x00 \<notin> set n \<and> length n \<le> max 256 (l_max_identifier_bytes l)"

lemma identifier_safe:
  "query_identifier (l_max_identifier_bytes l) n = Inr () \<Longrightarrow> safe_name l n"
  "query_identifier 256 n = Inr () \<Longrightarrow> safe_name l n"
  by (auto simp: query_identifier_def safe_name_def not_less)

lemma source_names_safe:
  "check_source (l_max_identifier_bytes l) v = Inr () \<Longrightarrow> n \<in> set (node_names (NSource v)) \<Longrightarrow> safe_name l n"
  by (auto simp: check_source_def result_simps intro: identifier_safe)

lemma expression_names_safe:
  "check_expression l pos e = Inr () \<Longrightarrow> n \<in> set (node_names (NExpression e)) \<Longrightarrow> safe_name l n"
  by (cases e) (auto simp: result_simps intro: identifier_safe)

lemma operation_names_safe:
  assumes "check_operation l q = Inr ()" "n \<in> set (node_names (NOperation q))"
  shows "safe_name l n"
proof -
  have "query_identifier (l_max_identifier_bytes l) n = Inr ()"
    using assms
    by (auto simp: check_operation_def check_operation_source_def check_locking_def Let_def result_simps split: option.splits)
  then show ?thesis by (rule identifier_safe)
qed

lemma node_names_safe:
  "check_node l m = Inr () \<Longrightarrow> n \<in> set (node_names (walk_node m)) \<Longrightarrow> safe_name l n"
  using operation_names_safe expression_names_safe by (cases m) (simp_all del: node_names.simps)

section \<open>Properties\<close>

text \<open>C1: the iterative validator accepts a query exactly when every node of its tree, subqueries included,
  passes the check of its kind at its place, no node is deeper than the limit, and the nodes counted over
  the whole tree are within the limit; it always ends, and a refusal is a local error.\<close>

theorem validate_query_decides:
  "(validate_query_operation q l = Inr () \<longleftrightarrow>
     (\<forall>n \<in> set (validation_nodes (VOperation q 1)). check_node l n = Inr () \<and> node_depth n \<le> l_max_filter_depth l)
     \<and> min (total_cost (validation_nodes (VOperation q 1))) usize_max \<le> l_max_filter_nodes l)
   \<and> refuses_locally (validate_query_operation q l)"
  using validate_query_iff [of q l] refuses_query [of q l] by (simp add: node_ok_def)

text \<open>Nothing of an accepted query escapes the checks: every name that the complete walk of the query
  meets, of tables, columns, parameters, aliases and locked relations, in any subquery, is non-empty, has
  no NUL and is within the limits.\<close>

lemma accepted_query_names:
  assumes "validate_query_operation q l = Inr ()" "reaches everything (NOperation q) k" "n \<in> set (node_names k)"
  shows "safe_name l n"
proof -
  have ok: "check_node l m = Inr ()" if "m \<in> set (validation_nodes (VOperation q 1))" for m
    using assms(1) that by (auto simp: validate_query_iff node_ok_def)
  have "(\<exists>v. k = NSource v \<and> check_source (l_max_identifier_bytes l) v = Inr ())
      \<or> (\<exists>m \<in> set (validation_nodes (VOperation q 1)). walk_node m = k)"
    by (rule tree_covers_walk [OF assms(2)]) (simp_all add: ok)
  then show ?thesis using assms(3) ok source_names_safe node_names_safe by blast
qed

text \<open>In an accepted query, and in every subquery of it, no window function stands in a filter, a
  grouping, a distinct-on list, a having clause, a join condition or the ordering of a set operation; and
  none stands inside the arguments, partition or ordering of another window function.\<close>

lemma accepted_query_windows:
  assumes "validate_query_operation q l = Inr ()"
  shows "(reaches everything (NOperation q) (NOperation q') \<longrightarrow> e \<in> set (restricted_expressions q') \<longrightarrow> window_free e)
    \<and> (reaches everything (NOperation q) (NExpression (Window f args pb ob fr)) \<longrightarrow>
         e \<in> set args \<union> set pb \<union> qo_expression ` set ob \<longrightarrow> window_free e)"
proof -
  have ok: "check_node l m = Inr ()" if "m \<in> set (validation_nodes (VOperation q 1))" for m
    using assms that by (auto simp: validate_query_iff node_ok_def)
  have found: "\<exists>m \<in> set (validation_nodes (VOperation q 1)). walk_node m = k"
    if "reaches everything (NOperation q) k" "\<And>v. k \<noteq> NSource v" for k
    using tree_covers_walk [OF that(1), of "VOperation q 1" l] that(2) ok by auto
  have free: "window_free e'" if "m \<in> set (validation_nodes (VOperation q 1))"
    "VExpression e' d pos \<in> set (node_pushes m)" "pos \<noteq> WpAllowed" for m e' d pos
    using restricted_no_window [OF _ refl that(3)] pushed_tree [OF that(2)] tree_closed [OF that(1)] ok
    unfolding window_free_def by blast
  have "window_free e" if r: "reaches everything (NOperation q) (NOperation q')" and e: "e \<in> set (restricted_expressions q')"
  proof -
    obtain d where m: "VOperation q' d \<in> set (validation_nodes (VOperation q 1))"
      using found [OF r] by (auto elim!: walk_node.elims)
    then have "check_operation l q' = Inr ()" using ok by force
    from restricted_pushed [OF this e, of d] show ?thesis using free [OF m] by auto
  qed
  moreover have "window_free e" if r: "reaches everything (NOperation q) (NExpression (Window f args pb ob fr))"
    and e: "e \<in> set args \<union> set pb \<union> qo_expression ` set ob"
  proof -
    obtain d pos where m: "VExpression (Window f args pb ob fr) d pos \<in> set (validation_nodes (VOperation q 1))"
      using found [OF r] by (auto elim!: walk_node.elims)
    have "VExpression e (saturating_add_usize d 1) WpNested \<in> set (node_pushes (VExpression (Window f args pb ob fr) d pos))"
      using e by (auto simp: push_window_children_def)
    from free [OF m this] show ?thesis by simp
  qed
  ultimately show ?thesis by blast
qed

text \<open>\<open>SELECT a FROM public.t WHERE a = :p\<close>.\<close>

definition demo_query :: query_operation where
  "demo_query = QueryOperation []
     (Some \<lparr>qs_object = \<lparr>or_catalog = None, or_schema = Some ''public'', or_object = ''t''\<rparr>, qs_alias = None\<rparr>) None
     [QueryProjection (Column \<lparr>cr_relation = None, cr_field = ''a''\<rparr>) None] []
     (Some (Compare (Column \<lparr>cr_relation = None, cr_field = ''a''\<rparr>) CoEq (Parameter ''p'')))
     [] None [] False [] [] None None None []"

lemma demo_query_valid: "validate_query_operation demo_query default_limits = Inr ()"
  by (simp add: demo_query_def validate_query_operation_def check_operation_def check_clauses_def
        check_operation_source_def check_source_def query_identifier_def refuse_if_def default_limits_def
        operation_pushes_def derived_pushes_def saturating_add_usize_def structural_nodes_def list_of_option_def
        usize_max_def predicate_def Let_def)

theorem validate_query_decides_witness:
  "check_node default_limits (VOperation demo_query 1) = Inr () \<and>
   min (total_cost (validation_nodes (VOperation demo_query 1))) usize_max
     \<le> l_max_filter_nodes default_limits"
  using validate_query_decides [of demo_query default_limits] demo_query_valid
    node_in_tree [of "VOperation demo_query 1"] by blast

end
