(* ===== verification/Row.thy ===== *)
theory Row
  imports Plan
begin

text \<open>
  Bound values, parameter bags and rows: \<open>ParameterValue\<close> and \<open>ParameterBag\<close> of
  \<open>plenora-database-core/src/provider.rs\<close>, \<open>Row\<close> and \<open>ColumnDescriptor\<close> of \<open>row.rs\<close>.  The JSON of a
  value is \<open>serde_json::Value\<close> and stays a type variable; an \<open>f64\<close> is its 64 bits; a bag, a
  \<open>BTreeMap\<close>, is a map.  The \<open>Index\<close> implementations panic: \<open>None\<close> is the panic.
\<close>

section \<open>Values\<close>

datatype dimensions = Xy | Xyz | Xym | Xyzm | DimUnknown

datatype 'json parameter_value =
  PvBool bool
| PvI32 "32 word"
| PvI64 "64 word"
| PvF64 u64
| PvString string
| PvBytes "u8 list"
| PvDate string
| PvTimestamp string
| PvTimestampTz string
| PvDecimal string
| PvUuid string
| PvJson 'json
| PvWkb "u8 list" "u32 option" dimensions spatial_semantics
| PvEnum string string
| PvNull string

type_synonym 'json parameter_bag = "string \<rightharpoonup> 'json parameter_value"

text \<open>\<open>f64::is_finite\<close>: the exponent bits are not all ones.\<close>

definition f64_is_finite :: "u64 \<Rightarrow> bool" where
  "f64_is_finite bits \<longleftrightarrow> take_bit 11 (drop_bit 52 bits) \<noteq> 2047"

section \<open>Rows\<close>

record column_descriptor =
  cd_index :: nat
  cd_name :: string

record 'json row =
  row_columns :: "string list"
  row_values :: "'json parameter_value list"

definition row_malformed :: "nat \<Rightarrow> nat \<Rightarrow> database_error" where
  "row_malformed columns values = error_new DataMapping PhRead None
     (''riga malformata: '' @ show_nat columns @ '' nomi di colonna e '' @ show_nat values @ '' valori'')"

definition row_try_new :: "string list \<Rightarrow> 'json parameter_value list \<Rightarrow> 'json row result" where
  "row_try_new columns values =
     (if length columns \<noteq> length values then Inl (row_malformed (length columns) (length values))
      else Inr \<lparr>row_columns = columns, row_values = values\<rparr>)"

definition validate_column_names :: "string list \<Rightarrow> unit result" where
  "validate_column_names columns =
     (if has_repeat {} columns
      then Inl (error_new DataMapping PhRead None
                  ''nomi di colonna duplicati: usare alias distinti o accesso per posizione'')
      else Inr ())"

definition get_index :: "'json row \<Rightarrow> nat \<Rightarrow> 'json parameter_value option" where
  "get_index r i = (if i < length (row_values r) then Some (row_values r ! i) else None)"

definition try_get :: "'json row \<Rightarrow> string \<Rightarrow> 'json parameter_value option result" where
  "try_get r name =
     and_then (validate_column_names (row_columns r)) (\<lambda>_.
       Inr (Option.bind (find_position (\<lambda>c. c = name) (row_columns r)) (get_index r)))"

text \<open>The outer option is the panic of \<open>self.values[descriptor.index()]\<close>.\<close>

definition get_descriptor :: "'json row \<Rightarrow> column_descriptor \<Rightarrow> 'json parameter_value option option" where
  "get_descriptor r d =
     (if cd_index d < length (row_columns r) \<and> row_columns r ! cd_index d = cd_name d
      then map_option Some (get_index r (cd_index d)) else Some None)"

definition index_name :: "'json row \<Rightarrow> string \<Rightarrow> 'json parameter_value option" where
  "index_name r name = (case try_get r name of Inl _ \<Rightarrow> None | Inr v \<Rightarrow> v)"

definition index_position :: "'json row \<Rightarrow> nat \<Rightarrow> 'json parameter_value option" where
  "index_position r i = get_index r i"

section \<open>Lemmas\<close>

definition row_wf :: "'json row \<Rightarrow> bool" where
  "row_wf r \<longleftrightarrow> length (row_columns r) = length (row_values r)"

lemma row_try_new_wf: "row_try_new cs vs = Inr r \<Longrightarrow> row_wf r"
  by (auto simp: row_try_new_def row_wf_def split: if_splits)

interpretation column_names: validator validate_column_names distinct
  by unfold_locales (simp_all add: validate_column_names_def has_repeat_iff refuses_locally_def)

lemma find_position_distinct:
  "distinct xs \<Longrightarrow> i < length xs \<Longrightarrow> find_position (\<lambda>c. c = xs ! i) xs = Some i"
proof (cases "find_position (\<lambda>c. c = xs ! i) xs")
  case None
  then show "distinct xs \<Longrightarrow> i < length xs \<Longrightarrow> ?thesis" by (auto simp: find_position_None)
next
  case (Some j)
  then have "j < length xs" "xs ! j = xs ! i" by (auto dest: find_position_Some)
  then show "distinct xs \<Longrightarrow> i < length xs \<Longrightarrow> ?thesis" using Some by (simp add: nth_eq_iff_index_eq)
qed

lemma try_get_at:
  "row_wf r \<Longrightarrow> distinct (row_columns r) \<Longrightarrow> i < length (row_columns r) \<Longrightarrow>
   try_get r (row_columns r ! i) = Inr (Some (row_values r ! i))"
  by (simp add: try_get_def column_names.guard_ok find_position_distinct get_index_def row_wf_def)

lemma descriptor_never_panics: "row_wf r \<Longrightarrow> get_descriptor r d \<noteq> None"
  by (simp add: get_descriptor_def get_index_def row_wf_def)

lemma descriptor_agrees_with_name:
  "row_wf r \<Longrightarrow> distinct (row_columns r) \<Longrightarrow> get_descriptor r d = Some (Some v) \<Longrightarrow>
   try_get r (cd_name d) = Inr (Some v)"
  using try_get_at [of r "cd_index d"]
  by (auto simp: get_descriptor_def get_index_def row_wf_def split: if_splits)

end
