(* ===== verification/Checkpoint.thy ===== *)
theory Checkpoint
  imports Row
begin

text \<open>
  Resumable keyset reads, \<open>plenora-database-core/src/checkpoint.rs\<close>: the token, its validator, its
  capture from the last delivered row and its application to a new read.  The JSON encoding of the scope
  (\<open>serde_json::to_vec\<close>, \<open>None\<close> when it fails) and the SHA-256 digest are parameters; the JSON form of
  a token (\<open>to_json\<close>, \<open>from_json\<close>) is serde's and is left out.
\<close>

section \<open>The token\<close>

definition READ_CHECKPOINT_SCHEMA_VERSION :: u16 where
  "READ_CHECKPOINT_SCHEMA_VERSION = 2"

definition PARAMETER_PREFIX :: string where
  "PARAMETER_PREFIX = ''__plenora_resume_''"

record 'json read_checkpoint =
  cp_schema_version :: u16
  cp_provider :: provider_kind
  cp_source :: object_ref
  cp_order_by :: "order_by list"
  cp_scope_fingerprint :: string
  cp_values :: "'json parameter_value list"

type_synonym 'json read_scope =
  "provider_kind \<times> object_ref \<times> string list \<times> order_by list \<times> filter_expression option
   \<times> declared_crs list \<times> 'json parameter_bag"

fun ordering_refused :: "string set \<Rightarrow> order_by list \<Rightarrow> bool" where
  "ordering_refused seen [] \<longleftrightarrow> False"
| "ordering_refused seen (ob # rest) \<longleftrightarrow>
     ob_field ob = [] \<or> ob_field ob \<in> seen
     \<or> ordering_refused (insert (ob_field ob) seen) rest"

fun without_portable_order :: "'json parameter_value \<Rightarrow> bool" where
  "without_portable_order (PvNull _) \<longleftrightarrow> True"
| "without_portable_order (PvJson _) \<longleftrightarrow> True"
| "without_portable_order (PvWkb _ _ _ _) \<longleftrightarrow> True"
| "without_portable_order (PvF64 number) \<longleftrightarrow> \<not> f64_is_finite number"
| "without_portable_order _ \<longleftrightarrow> False"

definition is_lower_hex :: "char \<Rightarrow> bool" where
  "is_lower_hex b \<longleftrightarrow> is_ascii_digit b \<or> byte_of CHR ''a'' \<le> byte_of b \<and> byte_of b \<le> byte_of CHR ''f''"

definition fingerprint_refused :: "string \<Rightarrow> bool" where
  "fingerprint_refused fp \<longleftrightarrow>
     length fp \<noteq> 71 \<or> \<not> starts_with fp ''sha256:'' \<or> \<not> list_all is_lower_hex (drop 7 fp)"

definition validate_checkpoint :: "'json read_checkpoint \<Rightarrow> unit result" where
  "validate_checkpoint cp =
     (if cp_schema_version cp \<noteq> READ_CHECKPOINT_SCHEMA_VERSION
      then Inl (invalid_plan ''versione del checkpoint di lettura non supportata'')
      else if cp_order_by cp = [] \<or> length (cp_order_by cp) > 256
      then Inl (invalid_plan ''un checkpoint richiede da una a 256 colonne ordinate'')
      else if length (cp_values cp) \<noteq> length (cp_order_by cp)
      then Inl (invalid_plan ''numero di valori del checkpoint diverso dall'ordinamento'')
      else if fingerprint_refused (cp_scope_fingerprint cp)
      then Inl (invalid_plan ''fingerprint dello scope checkpoint non valido'')
      else if ordering_refused {} (cp_order_by cp)
      then Inl (invalid_plan ''ordinamento del checkpoint vuoto o duplicato'')
      else if list_ex without_portable_order (cp_values cp)
      then Inl (invalid_plan ''checkpoint con valore privo di ordinamento SQL portabile'')
      else Inr ())"

section \<open>The scope of a read\<close>

definition HEX_DIGITS :: string where
  "HEX_DIGITS = ''0123456789abcdef''"

fun encode_digest :: "u8 list \<Rightarrow> string" where
  "encode_digest [] = []"
| "encode_digest (byte # rest) =
     HEX_DIGITS ! unat (drop_bit 4 byte) # HEX_DIGITS ! unat (take_bit 4 byte) # encode_digest rest"

definition scope_fingerprint ::
    "('json read_scope \<Rightarrow> u8 list option) \<Rightarrow> (u8 list \<Rightarrow> u8 list) \<Rightarrow> provider_kind \<Rightarrow> read_operation
     \<Rightarrow> 'json parameter_bag \<Rightarrow> string result" where
  "scope_fingerprint to_vec sha256 provider operation parameters =
     and_then (ok_or (to_vec (provider, ro_source operation, ro_projection operation, ro_order_by operation,
                              ro_filter operation, ro_declared_crs operation, parameters))
                (invalid_plan ''scope checkpoint non serializzabile''))
       (\<lambda>canonical. Inr (''sha256:'' @ encode_digest (sha256 canonical)))"

section \<open>Capture\<close>

definition checkpoint_new ::
    "('json read_scope \<Rightarrow> u8 list option) \<Rightarrow> (u8 list \<Rightarrow> u8 list) \<Rightarrow> provider_kind \<Rightarrow> read_operation
     \<Rightarrow> 'json parameter_bag \<Rightarrow> 'json parameter_value list \<Rightarrow> 'json read_checkpoint result" where
  "checkpoint_new to_vec sha256 provider operation parameters values =
     and_then (scope_fingerprint to_vec sha256 provider operation parameters) (\<lambda>fp.
       let checkpoint = \<lparr>cp_schema_version = READ_CHECKPOINT_SCHEMA_VERSION, cp_provider = provider,
             cp_source = ro_source operation, cp_order_by = ro_order_by operation,
             cp_scope_fingerprint = fp, cp_values = values\<rparr>
       in and_then (validate_checkpoint checkpoint) (\<lambda>_. Inr checkpoint))"

definition ordered_value :: "'json row \<Rightarrow> order_by \<Rightarrow> 'json parameter_value result" where
  "ordered_value r ob =
     and_then (try_get r (ob_field ob)) (\<lambda>v.
       ok_or v (invalid_plan ''la riga del checkpoint non contiene tutte le colonne ordinate''))"

definition checkpoint_from_row ::
    "('json read_scope \<Rightarrow> u8 list option) \<Rightarrow> (u8 list \<Rightarrow> u8 list) \<Rightarrow> provider_kind \<Rightarrow> read_operation
     \<Rightarrow> 'json parameter_bag \<Rightarrow> 'json row \<Rightarrow> 'json read_checkpoint result" where
  "checkpoint_from_row to_vec sha256 provider operation parameters r =
     and_then (try_collect (ordered_value r) (ro_order_by operation))
       (checkpoint_new to_vec sha256 provider operation parameters)"

section \<open>Resumption\<close>

definition parameter_name :: "nat \<Rightarrow> string" where
  "parameter_name index = PARAMETER_PREFIX @ show_nat index"

text \<open>One alternative per ordered column: the columns before it tie, it is strictly after.\<close>

definition strict_term :: "nat \<Rightarrow> order_by \<Rightarrow> filter_expression" where
  "strict_term index ob =
     (case ob_direction ob of
        Asc \<Rightarrow> FGt (ob_field ob) (parameter_name index)
      | Desc \<Rightarrow> FLt (ob_field ob) (parameter_name index))"

definition alternative :: "order_by list \<Rightarrow> nat \<Rightarrow> filter_expression" where
  "alternative order_by index =
     (let terms = map (\<lambda>prefix. FEq (ob_field (order_by ! prefix)) (parameter_name prefix)) [0..<index]
                  @ [strict_term index (order_by ! index)]
      in case terms of [only] \<Rightarrow> only | _ \<Rightarrow> FAnd terms)"

definition lexicographic_filter :: "order_by list \<Rightarrow> filter_expression" where
  "lexicographic_filter order_by =
     (let alternatives = map (alternative order_by) [0..<length order_by]
      in case alternatives of [only] \<Rightarrow> only | _ \<Rightarrow> FOr alternatives)"

fun bind_values ::
    "'json parameter_bag \<Rightarrow> nat \<Rightarrow> 'json parameter_value list \<Rightarrow> 'json parameter_bag result" where
  "bind_values values index [] = Inr values"
| "bind_values values index (v # vs) =
     (if values (parameter_name index) \<noteq> None
      then Inl (invalid_plan ''collisione con un parametro riservato al checkpoint'')
      else bind_values (values(parameter_name index \<mapsto> v)) (Suc index) vs)"

definition scope_mismatch :: database_error where
  "scope_mismatch =
     invalid_plan ''checkpoint non qualificato per provider, sorgente o ordinamento richiesti''"

definition resume ::
    "('json read_scope \<Rightarrow> u8 list option) \<Rightarrow> (u8 list \<Rightarrow> u8 list) \<Rightarrow> 'json read_checkpoint \<Rightarrow> provider_kind
     \<Rightarrow> read_operation \<Rightarrow> 'json parameter_bag \<Rightarrow> (read_operation \<times> 'json parameter_bag) result" where
  "resume to_vec sha256 cp provider operation parameters =
     and_then (validate_checkpoint cp) (\<lambda>_.
       if cp_provider cp \<noteq> provider \<or> cp_source cp \<noteq> ro_source operation
          \<or> cp_order_by cp \<noteq> ro_order_by operation
       then Inl scope_mismatch
       else and_then (scope_fingerprint to_vec sha256 provider operation parameters) (\<lambda>fp.
         if cp_scope_fingerprint cp \<noteq> fp then Inl scope_mismatch
         else if ro_row_offset operation \<noteq> None
         then Inl (invalid_plan ''checkpoint keyset e row_offset non sono componibili'')
         else and_then (bind_values parameters 0 (cp_values cp)) (\<lambda>values.
           let keyset = lexicographic_filter (cp_order_by cp)
           in Inr (operation\<lparr>ro_filter := Some (case ro_filter operation of
                     Some original \<Rightarrow> FAnd [original, keyset] | None \<Rightarrow> keyset)\<rparr>, values))))"

section \<open>What a filter selects\<close>

text \<open>
  The WHERE clause a filter stands for, as SQL defines it.  A comparison with NULL, with an absent column
  or with an unbound parameter is not true; the filter language has no negation, so a filter selects a row
  exactly when its comparisons that are true make it true.  How the server compares two values, matches a
  pattern and evaluates a spatial predicate is a parameter.
\<close>

record 'json sql_semantics =
  sem_less :: "'json parameter_value \<Rightarrow> 'json parameter_value \<Rightarrow> bool"
  sem_like :: "bool \<Rightarrow> 'json parameter_value \<Rightarrow> 'json parameter_value \<Rightarrow> bool"
  sem_spatial :: "spatial_function \<Rightarrow> 'json parameter_value \<Rightarrow> 'json parameter_value \<Rightarrow> 'json parameter_value \<Rightarrow> bool"

fun is_null :: "'json parameter_value \<Rightarrow> bool" where
  "is_null (PvNull _) \<longleftrightarrow> True"
| "is_null _ \<longleftrightarrow> False"

definition column_value :: "'json row \<Rightarrow> string \<Rightarrow> 'json parameter_value" where
  "column_value r f = (case try_get r f of Inr (Some v) \<Rightarrow> v | _ \<Rightarrow> PvNull [])"

definition bound_value :: "'json parameter_bag \<Rightarrow> string \<Rightarrow> 'json parameter_value" where
  "bound_value bag p = (case bag p of Some v \<Rightarrow> v | None \<Rightarrow> PvNull [])"

definition value_lt :: "'json sql_semantics \<Rightarrow> 'json parameter_value \<Rightarrow> 'json parameter_value \<Rightarrow> bool" where
  "value_lt sem v w \<longleftrightarrow> \<not> is_null v \<and> \<not> is_null w \<and> sem_less sem v w"

definition value_eq :: "'json sql_semantics \<Rightarrow> 'json parameter_value \<Rightarrow> 'json parameter_value \<Rightarrow> bool" where
  "value_eq sem v w \<longleftrightarrow> \<not> is_null v \<and> \<not> is_null w \<and> \<not> sem_less sem v w \<and> \<not> sem_less sem w v"

fun filter_holds :: "'json sql_semantics \<Rightarrow> 'json row \<Rightarrow> 'json parameter_bag \<Rightarrow> filter_expression \<Rightarrow> bool" where
  "filter_holds sem r bag (FAnd args) \<longleftrightarrow> (\<forall>a \<in> set args. filter_holds sem r bag a)"
| "filter_holds sem r bag (FOr args) \<longleftrightarrow> (\<exists>a \<in> set args. filter_holds sem r bag a)"
| "filter_holds sem r bag (FEq f p) \<longleftrightarrow> value_eq sem (column_value r f) (bound_value bag p)"
| "filter_holds sem r bag (FNe f p) \<longleftrightarrow>
     value_lt sem (column_value r f) (bound_value bag p) \<or> value_lt sem (bound_value bag p) (column_value r f)"
| "filter_holds sem r bag (FLt f p) \<longleftrightarrow> value_lt sem (column_value r f) (bound_value bag p)"
| "filter_holds sem r bag (FLte f p) \<longleftrightarrow>
     value_lt sem (column_value r f) (bound_value bag p) \<or> value_eq sem (column_value r f) (bound_value bag p)"
| "filter_holds sem r bag (FGt f p) \<longleftrightarrow> value_lt sem (bound_value bag p) (column_value r f)"
| "filter_holds sem r bag (FGte f p) \<longleftrightarrow>
     value_lt sem (bound_value bag p) (column_value r f) \<or> value_eq sem (column_value r f) (bound_value bag p)"
| "filter_holds sem r bag (FIsNull f) \<longleftrightarrow> is_null (column_value r f)"
| "filter_holds sem r bag (FIsNotNull f) \<longleftrightarrow> \<not> is_null (column_value r f)"
| "filter_holds sem r bag (FIn f ps) \<longleftrightarrow> (\<exists>p \<in> set ps. value_eq sem (column_value r f) (bound_value bag p))"
| "filter_holds sem r bag (FBetween f lo hi) \<longleftrightarrow>
     (value_lt sem (bound_value bag lo) (column_value r f) \<or> value_eq sem (column_value r f) (bound_value bag lo)) \<and>
     (value_lt sem (column_value r f) (bound_value bag hi) \<or> value_eq sem (column_value r f) (bound_value bag hi))"
| "filter_holds sem r bag (FLike f p ci) \<longleftrightarrow>
     \<not> is_null (column_value r f) \<and> \<not> is_null (bound_value bag p) \<and>
     sem_like sem ci (column_value r f) (bound_value bag p)"
| "filter_holds sem r bag (FSpatial g f geo dist) \<longleftrightarrow>
     \<not> is_null (column_value r f) \<and>
     sem_spatial sem g (column_value r f) (case geo of None \<Rightarrow> PvNull [] | Some p \<Rightarrow> bound_value bag p)
       (case dist of None \<Rightarrow> PvNull [] | Some p \<Rightarrow> bound_value bag p)"

fun filter_parameters :: "filter_expression \<Rightarrow> string set" where
  "filter_parameters (FAnd args) = (\<Union>a \<in> set args. filter_parameters a)"
| "filter_parameters (FOr args) = (\<Union>a \<in> set args. filter_parameters a)"
| "filter_parameters (FEq _ p) = {p}"
| "filter_parameters (FNe _ p) = {p}"
| "filter_parameters (FLt _ p) = {p}"
| "filter_parameters (FLte _ p) = {p}"
| "filter_parameters (FGt _ p) = {p}"
| "filter_parameters (FGte _ p) = {p}"
| "filter_parameters (FIsNull _) = {}"
| "filter_parameters (FIsNotNull _) = {}"
| "filter_parameters (FIn _ ps) = set ps"
| "filter_parameters (FBetween _ lo hi) = {lo, hi}"
| "filter_parameters (FLike _ p _) = {p}"
| "filter_parameters (FSpatial _ _ geo dist) = set_option geo \<union> set_option dist"

text \<open>
  The rows a read delivers, of a table given in the order of the read: those its filter selects, from the
  offset on and up to the limit.
\<close>

definition row_selected :: "'json sql_semantics \<Rightarrow> read_operation \<Rightarrow> 'json parameter_bag \<Rightarrow> 'json row \<Rightarrow> bool" where
  "row_selected sem op bag r \<longleftrightarrow> (case ro_filter op of None \<Rightarrow> True | Some f \<Rightarrow> filter_holds sem r bag f)"

definition rows_selected :: "'json sql_semantics \<Rightarrow> read_operation \<Rightarrow> 'json parameter_bag \<Rightarrow> 'json row list \<Rightarrow> 'json row list" where
  "rows_selected sem op bag table = filter (row_selected sem op bag) table"

definition rows_skipped :: "read_operation \<Rightarrow> nat" where
  "rows_skipped op = (case ro_row_offset op of None \<Rightarrow> 0 | Some k \<Rightarrow> unat k)"

definition up_to_limit :: "u64 option \<Rightarrow> 'a list \<Rightarrow> 'a list" where
  "up_to_limit limit rows = (case limit of None \<Rightarrow> rows | Some k \<Rightarrow> take (unat k) rows)"

definition rows_read :: "'json sql_semantics \<Rightarrow> read_operation \<Rightarrow> 'json parameter_bag \<Rightarrow> 'json row list \<Rightarrow> 'json row list" where
  "rows_read sem op bag table =
     up_to_limit (ro_row_limit op) (drop (rows_skipped op) (rows_selected sem op bag table))"

text \<open>The order of the read: the keys compared column by column, in the direction of each.\<close>

definition directed_lt :: "'json sql_semantics \<Rightarrow> sort_direction \<Rightarrow> 'json parameter_value \<Rightarrow> 'json parameter_value \<Rightarrow> bool" where
  "directed_lt sem d v w \<longleftrightarrow> (case d of Asc \<Rightarrow> value_lt sem v w | Desc \<Rightarrow> value_lt sem w v)"

fun key_before :: "'json sql_semantics \<Rightarrow> order_by list \<Rightarrow> 'json parameter_value list \<Rightarrow> 'json parameter_value list \<Rightarrow> bool" where
  "key_before sem (ob # obs) (v # vs) (w # ws) \<longleftrightarrow>
     directed_lt sem (ob_direction ob) v w \<or> (value_eq sem v w \<and> key_before sem obs vs ws)"
| "key_before sem _ _ _ \<longleftrightarrow> False"

definition row_key_values :: "order_by list \<Rightarrow> 'json row \<Rightarrow> 'json parameter_value list" where
  "row_key_values obs r = map (\<lambda>ob. column_value r (ob_field ob)) obs"

end
