(* ===== verification/Checkpoint_Proofs.thy ===== *)
theory Checkpoint_Proofs
  imports Checkpoint
begin

text \<open>
  What the checkpoint code promises: the predicate it builds is the strict order of the read after the
  checkpoint's key, a token resumes exactly the scope it was captured from, and a resumed read delivers
  what is left of the interrupted one.
\<close>

section \<open>The token\<close>

lemma ordering_refused_iff:
  "ordering_refused seen obs \<longleftrightarrow>
     \<not> ([] \<notin> ob_field ` set obs \<and> distinct (map ob_field obs) \<and> ob_field ` set obs \<inter> seen = {})"
  by (induction obs arbitrary: seen) auto

definition valid_checkpoint :: "'json read_checkpoint \<Rightarrow> bool" where
  "valid_checkpoint cp \<longleftrightarrow>
     cp_schema_version cp = 2 \<and> length (cp_order_by cp) \<in> {1..256}
     \<and> length (cp_values cp) = length (cp_order_by cp)
     \<and> length (cp_scope_fingerprint cp) = 71 \<and> starts_with (cp_scope_fingerprint cp) ''sha256:''
     \<and> list_all is_lower_hex (drop 7 (cp_scope_fingerprint cp))
     \<and> [] \<notin> ob_field ` set (cp_order_by cp) \<and> distinct (map ob_field (cp_order_by cp))
     \<and> (\<forall>v \<in> set (cp_values cp). \<not> without_portable_order v)"

interpretation checkpoint: validator validate_checkpoint valid_checkpoint
proof
  fix cp :: "'json read_checkpoint"
  have "length (cp_order_by cp) \<in> {1..256} \<longleftrightarrow> cp_order_by cp \<noteq> [] \<and> length (cp_order_by cp) \<le> 256"
    by (cases "cp_order_by cp") auto
  then show "validate_checkpoint cp = Inr () \<longleftrightarrow> valid_checkpoint cp"
    by (auto simp: validate_checkpoint_def valid_checkpoint_def fingerprint_refused_def ordering_refused_iff
        READ_CHECKPOINT_SCHEMA_VERSION_def list_all_iff list_ex_iff)
  show "refuses_locally (validate_checkpoint cp)"
    unfolding validate_checkpoint_def by (intro refusal_intros local_error_constructors)
qed

lemma HEX_DIGITS_hex: "n < 16 \<Longrightarrow> is_lower_hex (HEX_DIGITS ! n)"
proof -
  have "list_all is_lower_hex HEX_DIGITS" by (simp add: HEX_DIGITS_def is_lower_hex_def is_ascii_digit_def)
  moreover have "length HEX_DIGITS = 16" by (simp add: HEX_DIGITS_def)
  ultimately show "n < 16 \<Longrightarrow> is_lower_hex (HEX_DIGITS ! n)" by (simp add: list_all_length)
qed

lemma nibbles_small: "unat (drop_bit 4 (b :: u8)) < 16" "unat (take_bit 4 (b :: u8)) < 16"
proof -
  have "unat b < 256" using unat_lt_width [of b] by simp
  moreover have "unat (drop_bit 4 b) = unat b div 16"
    unfolding unat_drop_bit_eq by (simp add: drop_bit_eq_div)
  ultimately show "unat (drop_bit 4 b) < 16" by (simp add: less_mult_imp_div_less)
  have "unat (take_bit 4 b) = take_bit 4 (unat b)" by (simp add: unsigned_take_bit_eq)
  then show "unat (take_bit 4 b) < 16" by (simp add: take_bit_eq_mod)
qed

lemma encode_digest_hex: "length (encode_digest bs) = 2 * length bs \<and> list_all is_lower_hex (encode_digest bs)"
  by (induction bs) (simp_all add: HEX_DIGITS_hex nibbles_small)

text \<open>The hexadecimal form determines the digest, so two scopes share a fingerprint only when their digests agree.\<close>

lemma HEX_DIGITS_inject: "m < 16 \<Longrightarrow> n < 16 \<Longrightarrow> HEX_DIGITS ! m = HEX_DIGITS ! n \<longleftrightarrow> m = n"
proof -
  have "distinct HEX_DIGITS" by code_simp
  moreover have "length HEX_DIGITS = 16" by code_simp
  ultimately show "HEX_DIGITS ! m = HEX_DIGITS ! n \<longleftrightarrow> m = n" if "m < 16" "n < 16"
    using that nth_eq_iff_index_eq [of HEX_DIGITS m n] by simp
qed

lemma nibbles_inject:
  assumes "drop_bit 4 b = drop_bit 4 (c :: u8)" "take_bit 4 b = take_bit 4 c"
  shows "b = c"
  by (metis assms bits_ident)

lemma encode_digest_inject: "encode_digest bs = encode_digest cs \<longleftrightarrow> bs = cs"
proof (induction bs arbitrary: cs)
  case Nil
  then show ?case by (cases cs) auto
next
  case (Cons b bs)
  show ?case
  proof (cases cs)
    case (Cons c cs')
    have "HEX_DIGITS ! unat (drop_bit 4 b) = HEX_DIGITS ! unat (drop_bit 4 c)
        \<and> HEX_DIGITS ! unat (take_bit 4 b) = HEX_DIGITS ! unat (take_bit 4 c) \<longleftrightarrow> b = c"
      unfolding HEX_DIGITS_inject [OF nibbles_small(1) nibbles_small(1)]
        HEX_DIGITS_inject [OF nibbles_small(2) nibbles_small(2)] word_unat_eq_iff [symmetric]
      using nibbles_inject [of b c] by blast
    with Cons show ?thesis
      by (simp only: encode_digest.simps list.inject Cons.IH) blast
  qed simp
qed

definition read_scope_of :: "provider_kind \<Rightarrow> read_operation \<Rightarrow> 'json parameter_bag \<Rightarrow> 'json read_scope" where
  "read_scope_of p op bag =
     (p, ro_source op, ro_projection op, ro_order_by op, ro_filter op, ro_declared_crs op, bag)"

lemma scope_fingerprint_Inr:
  "scope_fingerprint to_vec sha256 p op bag = Inr fp \<longleftrightarrow>
     (\<exists>bytes. to_vec (read_scope_of p op bag) = Some bytes \<and> fp = ''sha256:'' @ encode_digest (sha256 bytes))"
  by (auto simp: scope_fingerprint_def read_scope_of_def and_then_eq_Inr ok_or_eq_Inr)

lemma scope_fingerprint_determines:
  assumes "scope_fingerprint to_vec sha256 p op bag = Inr fp"
    and "scope_fingerprint to_vec sha256 p' op' bag' = Inr fp"
    and "\<And>c c'. to_vec (read_scope_of p op bag) = Some c \<Longrightarrow> to_vec (read_scope_of p' op' bag') = Some c'
           \<Longrightarrow> sha256 c = sha256 c' \<Longrightarrow> c = c'"
    and "\<And>c. to_vec (read_scope_of p op bag) = Some c \<Longrightarrow> to_vec (read_scope_of p' op' bag') = Some c
           \<Longrightarrow> read_scope_of p op bag = read_scope_of p' op' bag'"
  shows "read_scope_of p op bag = read_scope_of p' op' bag'"
proof -
  obtain c c' where c: "to_vec (read_scope_of p op bag) = Some c" "to_vec (read_scope_of p' op' bag') = Some c'"
    and "encode_digest (sha256 c) = encode_digest (sha256 c')"
    using assms(1,2) by (auto simp: scope_fingerprint_Inr)
  then have "c = c'" using assms(3) by (simp add: encode_digest_inject)
  with c assms(4) show ?thesis by simp
qed

text \<open>Every fingerprint the code computes has the form the validator asks for.\<close>

lemma scope_fingerprint_accepted:
  assumes "length (sha256 (the (to_vec (p, ro_source op, ro_projection op, ro_order_by op, ro_filter op,
             ro_declared_crs op, bag)))) = 32"
    and "scope_fingerprint to_vec sha256 p op bag = Inr fp"
  shows "\<not> fingerprint_refused fp"
  using assms encode_digest_hex
  by (auto simp: scope_fingerprint_def fingerprint_refused_def starts_with_iff and_then_eq_Inr ok_or_eq_Inr)

section \<open>The reserved parameters\<close>

lemma parameter_name_inject [simp]: "parameter_name i = parameter_name j \<longleftrightarrow> i = j"
  by (simp add: parameter_name_def)

lemma bind_values_Inr:
  "bind_values bag k vs = Inr bag' \<longleftrightarrow>
     (\<forall>i < length vs. parameter_name (k + i) \<notin> dom bag)
     \<and> bag' = bag ++ map_of (zip (map parameter_name [k..<k + length vs]) vs)"
proof (induction vs arbitrary: bag k)
  case Nil
  then show ?case by auto
next
  case (Cons v vs)
  have later: "parameter_name k \<notin> dom (map_of (zip (map parameter_name [Suc k..<k + Suc (length vs)]) vs))"
    by (auto simp: dom_map_of_zip)
  have fold: "bag(parameter_name k \<mapsto> v) ++ map_of (zip (map parameter_name [Suc k..<k + Suc (length vs)]) vs)
      = bag ++ map_of (zip (map parameter_name [k..<k + Suc (length vs)]) (v # vs))"
  proof -
    have "map parameter_name [k..<k + Suc (length vs)]
        = parameter_name k # map parameter_name [Suc k..<k + Suc (length vs)]"
      by (simp add: upt_conv_Cons del: upt_Suc)
    with later show ?thesis by (simp add: map_add_upd_left del: upt_Suc)
  qed
  have fresh: "(\<forall>i < Suc (length vs). parameter_name (k + i) \<notin> dom bag) \<longleftrightarrow>
      bag (parameter_name k) = None \<and> (\<forall>i < length vs. parameter_name (Suc k + i) \<notin> dom bag)"
    by (auto simp: less_Suc_eq_0_disj)
  show ?case
  proof (cases "bag (parameter_name k)")
    case None
    then have step: "bind_values bag k (v # vs) = bind_values (bag(parameter_name k \<mapsto> v)) (Suc k) vs" by simp
    have "bind_values bag k (v # vs) = Inr bag' \<longleftrightarrow>
        (\<forall>i < length vs. parameter_name (Suc k + i) \<notin> dom (bag(parameter_name k \<mapsto> v)))
        \<and> bag' = bag ++ map_of (zip (map parameter_name [k..<k + Suc (length vs)]) (v # vs))"
      unfolding fold [symmetric] step Cons.IH by (simp only: add_Suc add_Suc_right)
    also have "(\<forall>i < length vs. parameter_name (Suc k + i) \<notin> dom (bag(parameter_name k \<mapsto> v))) \<longleftrightarrow>
        (\<forall>i < Suc (length vs). parameter_name (k + i) \<notin> dom bag)"
      unfolding fresh using None by simp
    finally show ?thesis by (simp del: upt_Suc)
  next
    case (Some w)
    with fresh show ?thesis by (simp del: upt_Suc)
  qed
qed

lemma bind_values_lookup:
  assumes "bind_values bag 0 vs = Inr bag'"
  shows "p \<in> dom bag \<Longrightarrow> bag' p = bag p" "i < length vs \<Longrightarrow> bag' (parameter_name i) = Some (vs ! i)"
proof -
  let ?m = "map_of (zip (map parameter_name [0..<length vs]) vs)"
  have bag': "bag' = bag ++ ?m" and fresh: "\<forall>i < length vs. parameter_name i \<notin> dom bag"
    using assms by (simp_all add: bind_values_Inr)
  show "p \<in> dom bag \<Longrightarrow> bag' p = bag p"
  proof -
    assume "p \<in> dom bag"
    then have "p \<notin> dom ?m" using fresh by (auto simp: dom_map_of_zip)
    then show ?thesis by (simp add: bag' map_add_dom_app_simps(3))
  qed
  assume i: "i < length vs"
  have "distinct (map parameter_name [0..<length vs])" by (simp add: distinct_map inj_on_def)
  then have "?m (parameter_name i) = Some (vs ! i)"
    using i map_of_zip_nth [of "map parameter_name [0..<length vs]" vs i] by simp
  then show "bag' (parameter_name i) = Some (vs ! i)" by (simp add: bag' map_add_find_right)
qed

section \<open>The keyset predicate\<close>

lemma singleton_case_and:
  "filter_holds sem r bag (case ts of [only] \<Rightarrow> only | _ \<Rightarrow> FAnd ts) \<longleftrightarrow> (\<forall>t \<in> set ts. filter_holds sem r bag t)"
  by (cases ts rule: remdups_adj.cases) auto

lemma singleton_case_or:
  "filter_holds sem r bag (case ts of [only] \<Rightarrow> only | _ \<Rightarrow> FOr ts) \<longleftrightarrow> (\<exists>t \<in> set ts. filter_holds sem r bag t)"
  by (cases ts rule: remdups_adj.cases) auto

lemma value_eq_sym: "value_eq sem v w \<longleftrightarrow> value_eq sem w v"
  by (auto simp: value_eq_def)

lemma strict_term_holds:
  "filter_holds sem r bag (strict_term i ob) \<longleftrightarrow>
     directed_lt sem (ob_direction ob) (bound_value bag (parameter_name i)) (column_value r (ob_field ob))"
  by (cases "ob_direction ob") (simp_all add: strict_term_def directed_lt_def)

lemma alternative_holds:
  "filter_holds sem r bag (alternative obs i) \<longleftrightarrow>
     (\<forall>j < i. value_eq sem (bound_value bag (parameter_name j)) (column_value r (ob_field (obs ! j))))
     \<and> directed_lt sem (ob_direction (obs ! i)) (bound_value bag (parameter_name i))
         (column_value r (ob_field (obs ! i)))"
  unfolding alternative_def Let_def singleton_case_and
  by (auto simp: strict_term_holds value_eq_sym)

lemma key_before_iff:
  "length vs = length obs \<Longrightarrow> length ws = length obs \<Longrightarrow>
   key_before sem obs vs ws \<longleftrightarrow>
     (\<exists>i < length obs. (\<forall>j < i. value_eq sem (vs ! j) (ws ! j))
        \<and> directed_lt sem (ob_direction (obs ! i)) (vs ! i) (ws ! i))"
proof (induction sem obs vs ws rule: key_before.induct)
  case (1 sem ob obs v vs w ws)
  have split: "(\<exists>i < Suc n. P i) \<longleftrightarrow> P 0 \<or> (\<exists>i < n. P (Suc i))" for n and P :: "nat \<Rightarrow> bool"
    by (auto simp: less_Suc_eq_0_disj)
  have all: "(\<forall>j < Suc n. P j) \<longleftrightarrow> P 0 \<and> (\<forall>j < n. P (Suc j))" for n and P :: "nat \<Rightarrow> bool"
    by (auto simp: less_Suc_eq_0_disj)
  show ?case using 1 by (auto simp: split all)
qed auto

lemma lexicographic_filter_holds:
  assumes "length vs = length obs" "\<And>i. i < length vs \<Longrightarrow> bag (parameter_name i) = Some (vs ! i)"
  shows "filter_holds sem r bag (lexicographic_filter obs) \<longleftrightarrow> key_before sem obs vs (row_key_values obs r)"
proof -
  have "filter_holds sem r bag (lexicographic_filter obs) \<longleftrightarrow>
      (\<exists>i < length obs. filter_holds sem r bag (alternative obs i))"
    unfolding lexicographic_filter_def Let_def singleton_case_or by auto
  also have "\<dots> \<longleftrightarrow> (\<exists>i < length obs.
      (\<forall>j < i. value_eq sem (vs ! j) (row_key_values obs r ! j))
      \<and> directed_lt sem (ob_direction (obs ! i)) (vs ! i) (row_key_values obs r ! i))"
    using assms by (auto simp: alternative_holds bound_value_def row_key_values_def)
  also have "\<dots> \<longleftrightarrow> key_before sem obs vs (row_key_values obs r)"
    using assms by (simp add: key_before_iff row_key_values_def)
  finally show ?thesis .
qed

lemma filter_holds_cong:
  "(\<And>p. p \<in> filter_parameters f \<Longrightarrow> bag p = bag' p) \<Longrightarrow> filter_holds sem r bag f = filter_holds sem r bag' f"
proof (induction f)
  case (FSpatial g f geo dist)
  then show ?case by (cases geo; cases dist) (simp_all add: bound_value_def)
qed (auto simp: bound_value_def)

section \<open>Resumption\<close>

definition resumed_filter :: "order_by list \<Rightarrow> filter_expression option \<Rightarrow> filter_expression" where
  "resumed_filter obs f =
     (case f of Some original \<Rightarrow> FAnd [original, lexicographic_filter obs] | None \<Rightarrow> lexicographic_filter obs)"

lemma resume_Inr:
  "resume to_vec sha256 cp p op bag = Inr (op', bag') \<longleftrightarrow>
     valid_checkpoint cp \<and> cp_provider cp = p \<and> cp_source cp = ro_source op \<and> cp_order_by cp = ro_order_by op
     \<and> scope_fingerprint to_vec sha256 p op bag = Inr (cp_scope_fingerprint cp) \<and> ro_row_offset op = None
     \<and> bind_values bag 0 (cp_values cp) = Inr bag'
     \<and> op' = op\<lparr>ro_filter := Some (resumed_filter (ro_order_by op) (ro_filter op))\<rparr>"
  by (auto simp: resume_def checkpoint.decides and_then_eq_Inr Let_def resumed_filter_def split: if_splits)

lemma checkpoint_new_Inr:
  "checkpoint_new to_vec sha256 p op bag vs = Inr cp \<longleftrightarrow>
     (\<exists>fp. scope_fingerprint to_vec sha256 p op bag = Inr fp
        \<and> cp = \<lparr>cp_schema_version = 2, cp_provider = p, cp_source = ro_source op,
                cp_order_by = ro_order_by op, cp_scope_fingerprint = fp, cp_values = vs\<rparr>)
     \<and> valid_checkpoint cp"
  by (auto simp: checkpoint_new_def and_then_eq_Inr checkpoint.decides Let_def READ_CHECKPOINT_SCHEMA_VERSION_def)

lemma checkpoint_from_row_Inr:
  assumes "checkpoint_from_row to_vec sha256 p op bag r = Inr cp"
  shows "checkpoint_new to_vec sha256 p op bag (cp_values cp) = Inr cp"
    and "cp_values cp = row_key_values (ro_order_by op) r"
proof -
  obtain vs where vs: "try_collect (ordered_value r) (ro_order_by op) = Inr vs"
    and new: "checkpoint_new to_vec sha256 p op bag vs = Inr cp"
    using assms by (auto simp: checkpoint_from_row_def and_then_eq_Inr)
  have "cp_values cp = vs" using new by (auto simp: checkpoint_new_Inr)
  with new show "checkpoint_new to_vec sha256 p op bag (cp_values cp) = Inr cp" by simp
  have "vs = row_key_values (ro_order_by op) r"
  proof (rule nth_equalityI)
    show "length vs = length (row_key_values (ro_order_by op) r)"
      using try_collect_Inr [OF vs] by (simp add: row_key_values_def)
  next
    fix i assume "i < length vs"
    then have "ordered_value r (ro_order_by op ! i) = Inr (vs ! i)" "i < length (ro_order_by op)"
      using try_collect_Inr [OF vs] by auto
    then show "vs ! i = row_key_values (ro_order_by op) r ! i"
      by (auto simp: ordered_value_def row_key_values_def column_value_def and_then_eq_Inr ok_or_eq_Inr)
  qed
  with \<open>cp_values cp = vs\<close> show "cp_values cp = row_key_values (ro_order_by op) r" by simp
qed

lemma row_selected_resumed:
  assumes "resume to_vec sha256 cp p op bag = Inr (op', bag')"
    and "\<And>f. ro_filter op = Some f \<Longrightarrow> filter_parameters f \<subseteq> dom bag"
  shows "row_selected sem op' bag' r \<longleftrightarrow>
    row_selected sem op bag r \<and> key_before sem (cp_order_by cp) (cp_values cp) (row_key_values (cp_order_by cp) r)"
proof -
  have valid: "length (cp_values cp) = length (cp_order_by cp)"
    and bind: "bind_values bag 0 (cp_values cp) = Inr bag'"
    and op': "ro_filter op' = Some (resumed_filter (cp_order_by cp) (ro_filter op))"
    using assms(1) by (auto simp: resume_Inr valid_checkpoint_def)
  have keyset: "filter_holds sem r bag' (lexicographic_filter (cp_order_by cp)) \<longleftrightarrow>
      key_before sem (cp_order_by cp) (cp_values cp) (row_key_values (cp_order_by cp) r)"
    by (rule lexicographic_filter_holds [OF valid bind_values_lookup(2) [OF bind]])
  show ?thesis
  proof (cases "ro_filter op")
    case None
    then show ?thesis using keyset op' by (simp add: row_selected_def resumed_filter_def)
  next
    case (Some f)
    then have "filter_holds sem r bag' f = filter_holds sem r bag f"
      using assms(2) bind_values_lookup(1) [OF bind] by (intro filter_holds_cong) blast
    with Some show ?thesis using keyset op' by (simp add: row_selected_def resumed_filter_def)
  qed
qed

lemma key_before_asym:
  assumes "\<And>v w. sem_less sem v w \<Longrightarrow> \<not> sem_less sem w v"
  shows "key_before sem obs vs ws \<Longrightarrow> \<not> key_before sem obs ws vs"
proof (induction obs arbitrary: vs ws)
  case (Cons ob obs)
  then obtain v vs' w ws' where "vs = v # vs'" "ws = w # ws'" by (cases vs; cases ws) auto
  then show ?case using assms Cons
    by (cases "ob_direction ob") (auto simp: directed_lt_def value_lt_def value_eq_def)
qed simp

lemma filter_after_strict_sorted:
  assumes "sorted_wrt R xs" "\<And>x y. R x y \<Longrightarrow> \<not> R y x" "n < length xs"
  shows "filter (\<lambda>x. R (xs ! n) x) xs = drop (Suc n) xs"
proof -
  have before: "filter (R (xs ! n)) (take (Suc n) xs) = []"
  proof (rule filter_False, rule ballI)
    fix x assume "x \<in> set (take (Suc n) xs)"
    then obtain i where "i \<le> n" "x = xs ! i" using assms(3) by (auto simp: in_set_conv_nth less_Suc_eq_le)
    then show "\<not> R (xs ! n) x"
      using assms sorted_wrt_nth_less [OF assms(1), of i n] by (cases "i = n") auto
  qed
  have "filter (R (xs ! n)) (drop (Suc n) xs) = drop (Suc n) xs"
  proof (rule filter_True, rule ballI)
    fix x assume "x \<in> set (drop (Suc n) xs)"
    then obtain i where "i < length xs - Suc n" "x = xs ! (Suc n + i)" by (auto simp: in_set_conv_nth)
    then show "R (xs ! n) x" using sorted_wrt_nth_less [OF assms(1), of n "Suc n + i"] by simp
  qed
  with before show ?thesis by (metis append_take_drop_id filter_append append_Nil)
qed

text \<open>A resumed read selects, of the rows the original selects, those strictly after the checkpoint's key.\<close>

lemma resume_selects:
  assumes "resume to_vec sha256 cp p op bag = Inr (op', bag')"
    and "\<And>f. ro_filter op = Some f \<Longrightarrow> filter_parameters f \<subseteq> dom bag"
  shows "rows_selected sem op' bag' table =
    filter (\<lambda>r. key_before sem (cp_order_by cp) (cp_values cp) (row_key_values (cp_order_by cp) r))
      (rows_selected sem op bag table)"
  unfolding rows_selected_def filter_filter by (rule filter_cong) (auto simp: row_selected_resumed [OF assms])

lemma bind_values_refuses: "refuses_locally (bind_values bag k vs)"
proof (induction bag k vs rule: bind_values.induct)
  case (2 bag k v vs)
  then show ?case
    unfolding bind_values.simps by (intro refuses_locally_if refuses_locally_Inl local_error_constructors)
qed (simp add: refuses_locally_Inr)

lemma scope_fingerprint_refuses: "refuses_locally (scope_fingerprint to_vec sha256 p op bag)"
  unfolding scope_fingerprint_def by (intro refusal_intros local_error_constructors)

lemma resume_refuses: "refuses_locally (resume to_vec sha256 cp p op bag)"
  unfolding resume_def Let_def scope_mismatch_def
  by (intro refusal_intros local_error_constructors checkpoint.refusal bind_values_refuses
      scope_fingerprint_refuses)

lemma is_ok_bind_values: "is_ok (bind_values bag 0 vs) \<longleftrightarrow> (\<forall>i < length vs. parameter_name i \<notin> dom bag)"
  by (auto simp: is_ok_iff bind_values_Inr)

lemma is_ok_resume:
  "is_ok (resume to_vec sha256 cp p op bag) \<longleftrightarrow>
     valid_checkpoint cp \<and> cp_provider cp = p \<and> cp_source cp = ro_source op \<and> cp_order_by cp = ro_order_by op
     \<and> scope_fingerprint to_vec sha256 p op bag = Inr (cp_scope_fingerprint cp) \<and> ro_row_offset op = None
     \<and> (\<forall>i < length (cp_values cp). parameter_name i \<notin> dom bag)"
  unfolding is_ok_bind_values [symmetric] is_ok_iff split_paired_Ex resume_Inr by auto

section \<open>Properties\<close>

text \<open>C8: no row is lost and none is repeated across a resumption.  Take a read whose selected rows are strictly ordered by
  their keys, so that no two of them tie and no key is NULL, and a token captured from the n-th row it delivered
  inside its own window.  Resumed with any limit, the read delivers the rows selected after that row, up to the
  new limit; without a limit, the rows delivered up to the token followed by the resumed ones are all the rows
  the original would have delivered without its limit.  The other hypotheses are that the server's order is
  asymmetric and that the parameters of the original filter are bound.\<close>

theorem resumed_read_continues:
  assumes asym: "\<And>v w. sem_less sem v w \<Longrightarrow> \<not> sem_less sem w v"
    and bound: "\<And>f. ro_filter op = Some f \<Longrightarrow> filter_parameters f \<subseteq> dom bag"
    and order: "sorted_wrt (\<lambda>r s. key_before sem (ro_order_by op) (row_key_values (ro_order_by op) r)
                  (row_key_values (ro_order_by op) s)) (rows_selected sem op bag table)"
    and row: "n < length (rows_read sem op bag table)"
    and token: "checkpoint_from_row to_vec sha256 p op bag (rows_read sem op bag table ! n) = Inr cp"
    and resumed: "resume to_vec sha256 cp p (op\<lparr>ro_row_limit := limit, ro_row_offset := None\<rparr>) bag = Inr (op', bag')"
  shows "rows_read sem op' bag' table =
      up_to_limit limit (drop (rows_skipped op + Suc n) (rows_selected sem op bag table))
    \<and> (limit = None \<longrightarrow> take (Suc n) (rows_read sem op bag table) @ rows_read sem op' bag' table
          = drop (rows_skipped op) (rows_selected sem op bag table))"
proof -
  let ?next = "op\<lparr>ro_row_limit := limit, ro_row_offset := None\<rparr>" and ?rows = "rows_selected sem op bag table"
  have obs: "cp_order_by cp = ro_order_by op" and window: "ro_row_limit op' = limit" "ro_row_offset op' = None"
    using resumed by (auto simp: resume_Inr)
  have row': "rows_skipped op + n < length ?rows"
      "rows_read sem op bag table ! n = ?rows ! (rows_skipped op + n)"
    using row by (auto simp: rows_read_def up_to_limit_def split: option.splits)
  have "rows_selected sem op' bag' table =
      filter (\<lambda>r. key_before sem (cp_order_by cp) (cp_values cp) (row_key_values (cp_order_by cp) r))
        (rows_selected sem ?next bag table)"
    by (rule resume_selects [OF resumed]) (simp add: bound)
  also have "rows_selected sem ?next bag table = ?rows"
    by (simp add: rows_selected_def row_selected_def fun_eq_iff cong: filter_cong)
  also have "filter (\<lambda>r. key_before sem (cp_order_by cp) (cp_values cp) (row_key_values (cp_order_by cp) r)) ?rows
      = drop (Suc (rows_skipped op + n)) ?rows"
    unfolding obs checkpoint_from_row_Inr(2) [OF token] row'(2)
    by (rule filter_after_strict_sorted [OF order key_before_asym [OF asym] row'(1)])
  finally have after: "rows_read sem op' bag' table = up_to_limit limit (drop (rows_skipped op + Suc n) ?rows)"
    by (simp add: rows_read_def window rows_skipped_def)
  have upto: "take (Suc n) (rows_read sem op bag table) = take (Suc n) (drop (rows_skipped op) ?rows)"
    using row by (auto simp: rows_read_def up_to_limit_def min_def split: option.splits if_splits)
  have "take (Suc n) (drop (rows_skipped op) ?rows) @ drop (rows_skipped op + Suc n) ?rows
      = drop (rows_skipped op) ?rows"
    by (metis add.commute append_take_drop_id drop_drop)
  then show ?thesis unfolding upto after by (simp add: up_to_limit_def)
qed

text \<open>C28: a token opens its own scope and no other.  Under the two documented guarantees the code relies on, for the two
  scopes at hand (the canonical JSON of a scope determines it, and SHA-256 tells the two encodings apart), a
  read is accepted exactly when its provider, source, projection, ordering, filter, CRS declarations and bound
  parameters are those the token was captured with, it has no offset and binds none of the reserved names.
  What is then read is the same read with the keyset predicate conjoined, every binding of the caller kept and
  the key bound; every refusal is local.\<close>

theorem checkpoint_scope:
  assumes captured: "checkpoint_new to_vec sha256 p op bag vs = Inr cp"
    and collision_free: "\<And>c c'. to_vec (read_scope_of p op bag) = Some c \<Longrightarrow>
          to_vec (read_scope_of p' op' bag') = Some c' \<Longrightarrow> sha256 c = sha256 c' \<Longrightarrow> c = c'"
    and encoding_determines: "\<And>c. to_vec (read_scope_of p op bag) = Some c \<Longrightarrow>
          to_vec (read_scope_of p' op' bag') = Some c \<Longrightarrow> read_scope_of p op bag = read_scope_of p' op' bag'"
  shows "(is_ok (resume to_vec sha256 cp p' op' bag') \<longleftrightarrow>
      p' = p \<and> ro_source op' = ro_source op \<and> ro_projection op' = ro_projection op
      \<and> ro_order_by op' = ro_order_by op \<and> ro_filter op' = ro_filter op
      \<and> ro_declared_crs op' = ro_declared_crs op \<and> bag' = bag
      \<and> ro_row_offset op' = None \<and> (\<forall>i < length vs. parameter_name i \<notin> dom bag'))
    \<and> refuses_locally (resume to_vec sha256 cp p' op' bag')
    \<and> (\<forall>read binds. resume to_vec sha256 cp p' op' bag' = Inr (read, binds) \<longrightarrow>
        read = op'\<lparr>ro_filter := Some (resumed_filter (ro_order_by op) (ro_filter op))\<rparr>
        \<and> (\<forall>q \<in> dom bag. binds q = bag q) \<and> (\<forall>i < length vs. binds (parameter_name i) = Some (vs ! i)))"
proof (intro conjI allI impI)
  obtain fp where cp: "valid_checkpoint cp" "scope_fingerprint to_vec sha256 p op bag = Inr fp"
    "cp_provider cp = p" "cp_source cp = ro_source op" "cp_order_by cp = ro_order_by op"
    "cp_scope_fingerprint cp = fp" "cp_values cp = vs"
    using captured by (auto simp: checkpoint_new_Inr)
  have "scope_fingerprint to_vec sha256 p' op' bag' = Inr fp \<longleftrightarrow> read_scope_of p op bag = read_scope_of p' op' bag'"
  proof
    assume "scope_fingerprint to_vec sha256 p' op' bag' = Inr fp"
    then show "read_scope_of p op bag = read_scope_of p' op' bag'"
      by (rule scope_fingerprint_determines [OF cp(2) _ collision_free encoding_determines])
  next
    assume "read_scope_of p op bag = read_scope_of p' op' bag'"
    then show "scope_fingerprint to_vec sha256 p' op' bag' = Inr fp"
      using cp(2) unfolding scope_fingerprint_Inr by metis
  qed
  then show same: "is_ok (resume to_vec sha256 cp p' op' bag') \<longleftrightarrow>
      p' = p \<and> ro_source op' = ro_source op \<and> ro_projection op' = ro_projection op
      \<and> ro_order_by op' = ro_order_by op \<and> ro_filter op' = ro_filter op
      \<and> ro_declared_crs op' = ro_declared_crs op \<and> bag' = bag
      \<and> ro_row_offset op' = None \<and> (\<forall>i < length vs. parameter_name i \<notin> dom bag')"
    unfolding is_ok_resume using cp by (auto simp: read_scope_of_def)
  show "refuses_locally (resume to_vec sha256 cp p' op' bag')" by (rule resume_refuses)
  fix r binds assume r: "resume to_vec sha256 cp p' op' bag' = Inr (r, binds)"
  then have scope: "ro_filter op' = ro_filter op" "bag' = bag" using same by (auto simp: is_ok_iff)
  have bind: "bind_values bag' 0 vs = Inr binds" using r cp by (simp add: resume_Inr)
  show "r = op'\<lparr>ro_filter := Some (resumed_filter (ro_order_by op) (ro_filter op))\<rparr>"
    using r cp scope by (simp add: resume_Inr)
  show "\<forall>q \<in> dom bag. binds q = bag q" using bind_values_lookup(1) [OF bind] scope by blast
  show "binds (parameter_name i) = Some (vs ! i)" if "i < length vs" for i
    using bind_values_lookup(2) [OF bind that] .
qed

section \<open>Witnesses\<close>

definition demo_sem :: "unit sql_semantics" where
  "demo_sem = \<lparr>sem_less = (\<lambda>v w. case (v, w) of (PvI64 a, PvI64 b) \<Rightarrow> sint a < sint b | _ \<Rightarrow> False),
     sem_like = (\<lambda>_ _ _. False), sem_spatial = (\<lambda>_ _ _ _. False)\<rparr>"

definition demo_read :: read_operation where
  "demo_read = \<lparr>ro_source = \<lparr>or_catalog = None, or_schema = None, or_object = ''t''\<rparr>, ro_projection = [],
     ro_order_by = [\<lparr>ob_field = ''a'', ob_direction = Asc\<rparr>, \<lparr>ob_field = ''b'', ob_direction = Desc\<rparr>],
     ro_row_limit = Some 2, ro_row_offset = None, ro_filter = None, ro_declared_crs = []\<rparr>"

definition demo_filtered :: read_operation where
  "demo_filtered = demo_read\<lparr>ro_filter := Some (FIsNotNull ''a'')\<rparr>"

definition demo_row :: "64 word \<Rightarrow> 64 word \<Rightarrow> unit row" where
  "demo_row a b = \<lparr>row_columns = [''a'', ''b''], row_values = [PvI64 a, PvI64 b]\<rparr>"

definition demo_table :: "unit row list" where
  "demo_table = [demo_row 1 9, demo_row 1 7, demo_row 1 3, demo_row 2 8]"

definition demo_to_vec :: "unit read_scope \<Rightarrow> u8 list option" where
  "demo_to_vec scope = (case scope of (p, _, columns, _, f, _, _) \<Rightarrow>
     Some [if p = Postgres \<and> columns = [] \<and> f = None then 0 else 1])"

definition demo_sha256 :: "u8 list \<Rightarrow> u8 list" where
  "demo_sha256 bytes = replicate 32 (case bytes of [] \<Rightarrow> 0 | b # _ \<Rightarrow> b)"

definition demo_fingerprint :: string where
  "demo_fingerprint = ''sha256:'' @ replicate 64 CHR ''0''"

definition demo_checkpoint :: "unit read_checkpoint" where
  "demo_checkpoint = \<lparr>cp_schema_version = 2, cp_provider = Postgres, cp_source = ro_source demo_read,
     cp_order_by = ro_order_by demo_read, cp_scope_fingerprint = demo_fingerprint,
     cp_values = [PvI64 1, PvI64 7]\<rparr>"

lemma demo_scope: "scope_fingerprint demo_to_vec demo_sha256 Postgres demo_read Map.empty = Inr demo_fingerprint"
  by (simp add: scope_fingerprint_def demo_to_vec_def demo_sha256_def demo_read_def demo_fingerprint_def
      numeral_eq_Suc HEX_DIGITS_def)

lemma demo_valid: "valid_checkpoint demo_checkpoint"
  by (simp add: valid_checkpoint_def demo_checkpoint_def demo_fingerprint_def demo_read_def starts_with_iff
      is_lower_hex_def is_ascii_digit_def list_all_iff)

lemma demo_new:
  "checkpoint_new demo_to_vec demo_sha256 Postgres demo_read Map.empty [PvI64 1, PvI64 7] = Inr demo_checkpoint"
  unfolding checkpoint_new_Inr demo_scope using demo_valid by (simp add: demo_checkpoint_def)

theorem checkpoint_scope_witness:
  "is_ok (resume demo_to_vec demo_sha256 demo_checkpoint Postgres demo_read Map.empty)
   \<and> \<not> is_ok (resume demo_to_vec demo_sha256 demo_checkpoint Postgres demo_filtered Map.empty)
   \<and> \<not> is_ok (resume demo_to_vec demo_sha256 demo_checkpoint Mysql demo_read Map.empty)"
proof -
  have same: "c = c'" if "demo_to_vec (read_scope_of p op bag) = Some c" "demo_to_vec (read_scope_of p' op' bag') = Some c'"
      "demo_sha256 c = demo_sha256 c'" for c c' p p' op op' bag bag'
    using that by (auto simp: demo_to_vec_def read_scope_of_def demo_sha256_def replicate_eq_replicate split: if_splits)
  show ?thesis
  proof (intro conjI)
    show "is_ok (resume demo_to_vec demo_sha256 demo_checkpoint Postgres demo_read Map.empty)"
      by (subst checkpoint_scope [OF demo_new, THEN conjunct1]; (erule (2) same)?) (auto simp: demo_read_def)
    show "\<not> is_ok (resume demo_to_vec demo_sha256 demo_checkpoint Postgres demo_filtered Map.empty)"
      by (subst checkpoint_scope [OF demo_new, THEN conjunct1]; (erule (2) same)?)
        (auto simp: demo_filtered_def demo_read_def demo_to_vec_def read_scope_of_def)
    show "\<not> is_ok (resume demo_to_vec demo_sha256 demo_checkpoint Mysql demo_read Map.empty)"
      by (subst checkpoint_scope [OF demo_new, THEN conjunct1]; (erule (2) same)?)
        (auto simp: demo_read_def demo_to_vec_def read_scope_of_def)
  qed
qed

lemma demo_value [simp]:
  "column_value (demo_row a b) ''a'' = PvI64 a" "column_value (demo_row a b) ''b'' = PvI64 b"
  by (simp_all add: column_value_def demo_row_def try_get_def validate_column_names_def get_index_def)

definition demo_next :: "(read_operation \<times> unit parameter_bag) result" where
  "demo_next = resume demo_to_vec demo_sha256 demo_checkpoint Postgres
     (demo_read\<lparr>ro_row_limit := None, ro_row_offset := None\<rparr>) Map.empty"

lemma demo_rows:
  "rows_selected demo_sem demo_read Map.empty demo_table = demo_table"
  "rows_read demo_sem demo_read Map.empty demo_table = [demo_row 1 9, demo_row 1 7]"
  by (simp_all add: rows_read_def rows_selected_def row_selected_def demo_read_def demo_table_def up_to_limit_def
      rows_skipped_def)

text \<open>The first page of two rows, then the read resumed from its last row.\<close>

theorem resumed_read_continues_witness:
  "rows_read demo_sem demo_read Map.empty demo_table = [demo_row 1 9, demo_row 1 7]
   \<and> rows_read demo_sem (fst (projr demo_next)) (snd (projr demo_next)) demo_table = [demo_row 1 3, demo_row 2 8]"
proof -
  have "scope_fingerprint demo_to_vec demo_sha256 Postgres (demo_read\<lparr>ro_row_limit := None, ro_row_offset := None\<rparr>)
      Map.empty = Inr demo_fingerprint"
    using demo_scope by (simp add: scope_fingerprint_def demo_read_def)
  then have ok: "is_ok demo_next"
    using demo_valid by (simp add: demo_next_def is_ok_resume demo_checkpoint_def demo_read_def)
  then obtain op' bag' where resumed: "demo_next = Inr (op', bag')" by (auto simp: is_ok_iff)
  have "rows_read demo_sem op' bag' demo_table
      = up_to_limit None (drop (rows_skipped demo_read + Suc 1) (rows_selected demo_sem demo_read Map.empty demo_table))
    \<and> (None = (None :: u64 option) \<longrightarrow> take (Suc 1) (rows_read demo_sem demo_read Map.empty demo_table)
          @ rows_read demo_sem op' bag' demo_table
        = drop (rows_skipped demo_read) (rows_selected demo_sem demo_read Map.empty demo_table))"
  proof (rule resumed_read_continues [OF _ _ _ _ _ resumed [unfolded demo_next_def]])
    show "\<not> sem_less demo_sem w v" if "sem_less demo_sem v w" for v w
      using that by (auto simp: demo_sem_def split: parameter_value.splits)
    show "filter_parameters f \<subseteq> dom Map.empty" if "ro_filter demo_read = Some f" for f
      using that by (simp add: demo_read_def)
    show "sorted_wrt (\<lambda>r s. key_before demo_sem (ro_order_by demo_read) (row_key_values (ro_order_by demo_read) r)
        (row_key_values (ro_order_by demo_read) s)) (rows_selected demo_sem demo_read Map.empty demo_table)"
      unfolding demo_rows
      by (simp add: demo_table_def demo_read_def row_key_values_def directed_lt_def value_lt_def value_eq_def demo_sem_def)
    show "1 < length (rows_read demo_sem demo_read Map.empty demo_table)"
      unfolding demo_rows by simp
    have "try_collect (ordered_value (demo_row 1 7)) (ro_order_by demo_read) = Inr [PvI64 1, PvI64 7]"
      by (simp add: demo_read_def ordered_value_def demo_row_def try_get_def validate_column_names_def get_index_def)
    then show "checkpoint_from_row demo_to_vec demo_sha256 Postgres demo_read Map.empty
        (rows_read demo_sem demo_read Map.empty demo_table ! 1) = Inr demo_checkpoint"
      unfolding demo_rows checkpoint_from_row_def using demo_new by simp
  qed
  then show ?thesis
    unfolding demo_rows resumed by (simp add: demo_table_def demo_read_def up_to_limit_def rows_skipped_def)
qed

end
