(* ===== verification/Arrow.thy ===== *)
theory Arrow
  imports Error_Model
begin

text \<open>
  The part of the Arrow data model that the write rules read.  Arrow is a library the sources only call:
  an array is its data type and its cells (\<open>None\<close> is a null), a batch is its columns, a schema is its
  fields.  A cell holds the bits the typed accessors return: integers, dates, times, timestamps and decimals
  are words of their width, floats their bits, text its UTF-8 bytes.  Data types that no rule names are
  \<open>DtOther\<close> with their debug form.
\<close>

datatype time_unit = TuSecond | TuMillisecond | TuMicrosecond | TuNanosecond

datatype data_type =
  DtBoolean | DtInt8 | DtInt16 | DtInt32 | DtInt64 | DtUInt8 | DtUInt16 | DtUInt32 | DtUInt64
| DtFloat16 | DtFloat32 | DtFloat64
| DtDecimal128 nat int | DtDecimal256 nat int
| DtUtf8 | DtLargeUtf8 | DtBinary | DtLargeBinary | DtFixedSizeBinary nat
| DtDate32 | DtDate64 | DtTime32 time_unit | DtTime64 time_unit | DtTimestamp time_unit "string option"
| DtOther string

datatype arrow_value =
  AvBool bool | AvWord8 u8 | AvWord16 u16 | AvWord32 u32 | AvWord64 u64 | AvWord128 "128 word"
| AvFloat32 u32 | AvFloat64 u64 | AvText string | AvBytes "u8 list"

record arrow_array =
  aa_type :: data_type
  aa_cells :: "arrow_value option list"

record arrow_field =
  af_name :: string
  af_type :: data_type

type_synonym arrow_schema = "arrow_field list"

record record_batch =
  batch_rows :: nat
  batch_columns :: "arrow_array list"

definition index_of :: "arrow_schema \<Rightarrow> string \<Rightarrow> nat option" where
  "index_of schema name = find_position (\<lambda>f. af_name f = name) schema"

text \<open>The values a column of a type can hold; lengths are those a \<open>usize\<close> counts.\<close>

fun value_has_type :: "data_type \<Rightarrow> arrow_value \<Rightarrow> bool" where
  "value_has_type t (AvBool _) \<longleftrightarrow> t = DtBoolean"
| "value_has_type t (AvWord8 _) \<longleftrightarrow> t = DtInt8 \<or> t = DtUInt8"
| "value_has_type t (AvWord16 _) \<longleftrightarrow> t = DtInt16 \<or> t = DtUInt16"
| "value_has_type t (AvWord32 _) \<longleftrightarrow> t = DtInt32 \<or> t = DtUInt32 \<or> t = DtDate32 \<or> (\<exists>u. t = DtTime32 u)"
| "value_has_type t (AvWord64 _) \<longleftrightarrow> t = DtInt64 \<or> t = DtUInt64 \<or> t = DtDate64 \<or> (\<exists>u. t = DtTime64 u)
     \<or> (\<exists>u z. t = DtTimestamp u z)"
| "value_has_type t (AvWord128 _) \<longleftrightarrow> (\<exists>p s. t = DtDecimal128 p s)"
| "value_has_type t (AvFloat32 _) \<longleftrightarrow> t = DtFloat32"
| "value_has_type t (AvFloat64 _) \<longleftrightarrow> t = DtFloat64"
| "value_has_type t (AvText s) \<longleftrightarrow> (t = DtUtf8 \<or> t = DtLargeUtf8) \<and> length s \<le> usize_max"
| "value_has_type t (AvBytes bs) \<longleftrightarrow>
     (t = DtBinary \<or> t = DtLargeBinary \<or> t = DtFixedSizeBinary (length bs)) \<and> length bs \<le> usize_max"

definition array_ok :: "data_type \<Rightarrow> nat \<Rightarrow> arrow_array \<Rightarrow> bool" where
  "array_ok t n a \<longleftrightarrow> aa_type a = t \<and> length (aa_cells a) = n
     \<and> (\<forall>v. Some v \<in> set (aa_cells a) \<longrightarrow> value_has_type t v)"

definition batch_ok :: "arrow_schema \<Rightarrow> record_batch \<Rightarrow> bool" where
  "batch_ok schema b \<longleftrightarrow> list_all2 (\<lambda>f a. array_ok (af_type f) (batch_rows b) a) schema (batch_columns b)"

definition cell_at :: "record_batch \<Rightarrow> nat \<Rightarrow> nat \<Rightarrow> arrow_value option" where
  "cell_at b column row = aa_cells (batch_columns b ! column) ! row"

section \<open>Floats\<close>

definition f64_exponent :: "u64 \<Rightarrow> u64" where
  "f64_exponent bits = take_bit 11 (drop_bit 52 bits)"

definition f64_is_nan :: "u64 \<Rightarrow> bool" where
  "f64_is_nan bits \<longleftrightarrow> f64_exponent bits = 2047 \<and> take_bit 52 bits \<noteq> 0"

definition f64_is_zero :: "u64 \<Rightarrow> bool" where
  "f64_is_zero bits \<longleftrightarrow> take_bit 63 bits = 0"

definition f64_nan :: u64 where
  "f64_nan = 0x7ff8000000000000"

fun top_bit :: "nat \<Rightarrow> nat" where
  "top_bit n = (if n \<le> 1 then 0 else Suc (top_bit (n div 2)))"

declare top_bit.simps [simp del]

text \<open>\<open>f64::from(f32)\<close>: exact, a subnormal becomes normal.\<close>

unbundle bit_operations_syntax

definition f64_from_f32 :: "u32 \<Rightarrow> u64" where
  "f64_from_f32 bits =
     (let sign = push_bit 63 (ucast (drop_bit 31 bits)) :: u64;
          expo = unat (take_bit 8 (drop_bit 23 bits));
          man = take_bit 23 bits;
          k = top_bit (unat man)
      in if expo = 255 then sign OR push_bit 52 2047 OR push_bit 29 (ucast man)
         else if expo = 0 \<and> man = 0 then sign
         else if expo = 0
         then sign OR push_bit 52 (of_nat (k + 874)) OR push_bit (52 - k) (take_bit k (ucast man))
         else sign OR push_bit 52 (of_nat (expo + 896)) OR push_bit 29 (ucast man))"

section \<open>Bytes\<close>

definition word_le_bytes :: "nat \<Rightarrow> 'a::len word \<Rightarrow> u8 list" where
  "word_le_bytes n w = map (\<lambda>i. ucast (drop_bit (8 * i) w)) [0..<n]"

definition char_byte :: "char \<Rightarrow> u8" where
  "char_byte c = of_nat (of_char c)"

lemma length_word_le_bytes [simp]: "length (word_le_bytes n w) = n"
  by (simp add: word_le_bytes_def)

lemma word_le_bytes_inject:
  fixes w v :: "'a::len word"
  assumes "LENGTH('a) \<le> 8 * n" "word_le_bytes n w = word_le_bytes n v"
  shows "w = v"
proof (rule bit_word_eqI)
  fix k assume k: "k < LENGTH('a)"
  let ?i = "k div 8"
  have "?i < n" using k assms(1) by auto
  then have "(ucast (drop_bit (8 * ?i) w) :: u8) = ucast (drop_bit (8 * ?i) v)"
    using assms(2) by (auto simp: word_le_bytes_def)
  then have "bit (ucast (drop_bit (8 * ?i) w) :: u8) (k mod 8) = bit (ucast (drop_bit (8 * ?i) v) :: u8) (k mod 8)"
    by simp
  then show "bit w k = bit v k" using k by (simp add: bit_ucast_iff bit_drop_bit_eq)
qed

lemma char_byte_inject [simp]: "char_byte c = char_byte d \<longleftrightarrow> c = d"
proof
  assume "char_byte c = char_byte d"
  then have "unat (char_byte c) = unat (char_byte d)" by simp
  moreover have "unat (char_byte e) = of_char e" for e :: char
    by (simp add: char_byte_def unat_of_nat)
  ultimately show "c = d" by simp
qed simp

end
