(* ===== verification/Write_Keys.thy ===== *)
theory Write_Keys
  imports Arrow Plan Resource
begin

text \<open>
  Rule K, \<open>plenora-database-core/src/write_keys.rs\<close>: the input of a keyed write carries each key at most
  once.  The keys of the rows seen so far are kept as byte strings; each batch is admitted as a whole, and
  the memory of its keys is leased from the budget of the operation.  The wrapped stream is a parameter: a
  function from its own state to the next batch.
\<close>

section \<open>Modes and refusals\<close>

definition KEYS_WITHOUT_UNIQUE_INDEX :: string where
  "KEYS_WITHOUT_UNIQUE_INDEX =
     ''le chiavi della mode non coincidono con un indice unico, non parziale e immediato del target''"

definition DUPLICATE_INPUT_KEYS :: string where
  "DUPLICATE_INPUT_KEYS =
     ''chiave ripetuta nell'ingresso di una mode per chiavi: nessuna semantica comune fra i provider''"

definition UNCOMPARABLE_KEY_TYPE :: string where
  "UNCOMPARABLE_KEY_TYPE = ''tipo Arrow di una chiave non confrontabile per l'unicita dell'ingresso''"

definition KEY_IN_UPDATE_COLUMNS :: string where
  "KEY_IN_UPDATE_COLUMNS = ''una chiave di Update non puo essere anche una colonna aggiornata''"

definition UPSERT_WITH_OTHER_UNIQUE_INDEX :: string where
  "UPSERT_WITH_OTHER_UNIQUE_INDEX =
     ''Upsert vuole un solo indice unico che coinvolga le chiavi, quello che le prova: un altro indice unico potrebbe arbitrare il conflitto e aggiornare un'altra riga''"

definition ENTRY_OVERHEAD_BYTES :: u64 where
  "ENTRY_OVERHEAD_BYTES = 64"

definition keyed_mode :: "write_mode \<Rightarrow> bool" where
  "keyed_mode mode \<longleftrightarrow> mode \<in> {WmUpdate, WmDeleteByKeys, WmUpsert}"

definition refuse_key_in_update_columns :: "write_operation \<Rightarrow> unit result" where
  "refuse_key_in_update_columns operation =
     (if wr_mode operation = WmUpdate
         \<and> list_ex (\<lambda>key. key \<in> set (wr_update_columns operation)) (wr_keys operation)
      then Inl (invalid_plan KEY_IN_UPDATE_COLUMNS) else Inr ())"

definition upsert_with_other_unique_index :: "provider_kind \<Rightarrow> error_phase \<Rightarrow> database_error" where
  "upsert_with_other_unique_index provider phase =
     error_new Schema phase (Some provider) (''scrittura rifiutata: '' @ UPSERT_WITH_OTHER_UNIQUE_INDEX)"

definition keys_without_unique_index :: "provider_kind \<Rightarrow> error_phase \<Rightarrow> database_error" where
  "keys_without_unique_index provider phase =
     error_new Schema phase (Some provider) (''scrittura rifiutata: '' @ KEYS_WITHOUT_UNIQUE_INDEX)"

definition duplicate_keys :: database_error where
  "duplicate_keys =
     error_new DataMapping PhWrite None (''scrittura rifiutata: '' @ DUPLICATE_INPUT_KEYS)"

definition uncomparable :: database_error where
  "uncomparable = error_new Unsupported PhValidate None UNCOMPARABLE_KEY_TYPE"

section \<open>The encoding of a key\<close>

datatype null_keys = NkDistinct | NkEqual | NkEqualUnlessAllNull

fun comparable :: "data_type \<Rightarrow> bool" where
  "comparable (DtTime32 unit) \<longleftrightarrow> unit = TuSecond \<or> unit = TuMillisecond"
| "comparable (DtTime64 unit) \<longleftrightarrow> unit = TuMicrosecond \<or> unit = TuNanosecond"
| "comparable DtFloat16 \<longleftrightarrow> False"
| "comparable (DtDecimal256 _ _) \<longleftrightarrow> False"
| "comparable (DtOther _) \<longleftrightarrow> False"
| "comparable _ \<longleftrightarrow> True"

definition push_len :: "u8 list \<Rightarrow> u8 list" where
  "push_len bytes = word_le_bytes 8 (of_nat (length bytes) :: u64) @ bytes"

text \<open>\<open>rposition\<close>: the last position that satisfies a predicate.\<close>

definition rposition :: "('a \<Rightarrow> bool) \<Rightarrow> 'a list \<Rightarrow> nat option" where
  "rposition p xs = map_option (\<lambda>i. length xs - Suc i) (find_position p (rev xs))"

definition trim_zeros :: "u8 list \<Rightarrow> u8 list" where
  "trim_zeros bytes = take (case rposition (\<lambda>b. b \<noteq> 0) bytes of None \<Rightarrow> 0 | Some i \<Rightarrow> i + 1) bytes"

definition trim_end_spaces :: "string \<Rightarrow> string" where
  "trim_end_spaces s = rev (dropWhile (\<lambda>c. c = CHR '' '') (rev s))"

definition float_bits :: "u64 \<Rightarrow> u64" where
  "float_bits value =
     (if f64_is_nan value then f64_nan else if f64_is_zero value then 0 else value)"

text \<open>
  The match is on the array's data type, and the typed accessor reads the cell: here the constructor of the
  cell tells the accessor.
\<close>

fun encode_cell :: "arrow_value \<Rightarrow> u8 list" where
  "encode_cell (AvBool b) = [of_bool b]"
| "encode_cell (AvWord8 w) = word_le_bytes 1 w"
| "encode_cell (AvWord16 w) = word_le_bytes 2 w"
| "encode_cell (AvWord32 w) = word_le_bytes 4 w"
| "encode_cell (AvWord64 w) = word_le_bytes 8 w"
| "encode_cell (AvWord128 w) = word_le_bytes 16 w"
| "encode_cell (AvFloat32 w) = word_le_bytes 8 (float_bits (f64_from_f32 w))"
| "encode_cell (AvFloat64 w) = word_le_bytes 8 (float_bits w)"
| "encode_cell (AvText s) = push_len (map char_byte (trim_end_spaces s))"
| "encode_cell (AvBytes bs) = push_len (trim_zeros bs)"

definition encode :: "data_type \<Rightarrow> arrow_value \<Rightarrow> u8 list result" where
  "encode t v = (if comparable t then Inr (encode_cell v) else Inl uncomparable)"

section \<open>The guard\<close>

record unique_input_keys =
  uk_columns :: "nat list"
  uk_nulls :: null_keys
  uk_seen :: "u8 list set"
  uk_leases :: "resource_lease list"

definition unique_input_keys_new :: "arrow_schema \<Rightarrow> string list \<Rightarrow> null_keys \<Rightarrow> unique_input_keys result" where
  "unique_input_keys_new schema keys nulls =
     and_then (try_collect (\<lambda>key. ok_or (index_of schema key) (invalid_plan ''chiave assente nello schema Arrow'')) keys)
       (\<lambda>columns. if list_all (\<lambda>i. comparable (af_type (schema ! i))) columns
          then Inr \<lparr>uk_columns = columns, uk_nulls = nulls, uk_seen = {}, uk_leases = []\<rparr>
          else Inl uncomparable)"

text \<open>The bytes of one row's key and the number of its nulls; \<open>None\<close> is \<open>continue 'rows\<close>.\<close>

fun row_key_bytes ::
    "null_keys \<Rightarrow> record_batch \<Rightarrow> nat \<Rightarrow> nat list \<Rightarrow> u8 list \<Rightarrow> nat \<Rightarrow> (u8 list \<times> nat) option result" where
  "row_key_bytes nulls batch row [] key n = Inr (Some (key, n))"
| "row_key_bytes nulls batch row (index # rest) key n =
     (case cell_at batch index row of
        None \<Rightarrow> if nulls = NkDistinct then Inr None
                else row_key_bytes nulls batch row rest (key @ [0]) (Suc n)
      | Some v \<Rightarrow> and_then (encode (aa_type (batch_columns batch ! index)) v) (\<lambda>bytes.
                    row_key_bytes nulls batch row rest (key @ [1] @ bytes) n))"

definition row_key_of :: "unique_input_keys \<Rightarrow> record_batch \<Rightarrow> nat \<Rightarrow> u8 list option result" where
  "row_key_of uk batch row =
     and_then (row_key_bytes (uk_nulls uk) batch row (uk_columns uk) [] 0) (\<lambda>k.
       Inr (case k of None \<Rightarrow> None
            | Some (key, n) \<Rightarrow>
                if uk_nulls uk = NkEqualUnlessAllNull \<and> n = length (uk_columns uk) then None else Some key))"

definition add_key_bytes :: "u64 \<Rightarrow> u8 list \<Rightarrow> u64 result" where
  "add_key_bytes bytes key =
     ok_or (Option.bind (checked_add bytes (of_nat (length key))) (\<lambda>b. checked_add b ENTRY_OVERHEAD_BYTES))
       (resource_limit ''overflow nella memoria delle chiavi'')"

fun admit_rows ::
    "unique_input_keys \<Rightarrow> record_batch \<Rightarrow> nat list \<Rightarrow> u8 list set \<Rightarrow> u64 \<Rightarrow> (u8 list set \<times> u64) result" where
  "admit_rows uk batch [] batch_keys bytes = Inr (batch_keys, bytes)"
| "admit_rows uk batch (row # rows) batch_keys bytes =
     and_then (row_key_of uk batch row) (\<lambda>k.
       case k of
         None \<Rightarrow> admit_rows uk batch rows batch_keys bytes
       | Some key \<Rightarrow>
           and_then (add_key_bytes bytes key) (\<lambda>bytes'.
             if key \<in> uk_seen uk \<or> key \<in> batch_keys then Inl duplicate_keys
             else admit_rows uk batch rows (insert key batch_keys) bytes'))"

definition admit :: "unique_input_keys \<Rightarrow> record_batch \<Rightarrow> counters \<Rightarrow> (unique_input_keys \<times> counters) result" where
  "admit uk batch budget =
     and_then (admit_rows uk batch [0..<batch_rows batch] {} 0) (\<lambda>(batch_keys, bytes).
       if bytes > 0
       then and_then (try_lease budget MemoryBytes bytes) (\<lambda>(budget', lease).
              Inr (uk\<lparr>uk_leases := uk_leases uk @ [lease], uk_seen := uk_seen uk \<union> batch_keys\<rparr>, budget'))
       else Inr (uk\<lparr>uk_seen := uk_seen uk \<union> batch_keys\<rparr>, budget))"

section \<open>The guarded stream\<close>

type_synonym 's batch_source = "'s \<Rightarrow> record_batch option result \<times> 's"

text \<open>\<open>UniqueKeyStream::next_batch\<close>; on an error the keys and the budget stay as they are.\<close>

definition unique_next ::
    "'s batch_source \<Rightarrow> 's \<times> unique_input_keys \<times> counters \<Rightarrow> record_batch option result \<times> 's \<times> unique_input_keys \<times> counters" where
  "unique_next inner st =
     (case st of (s, uk, budget) \<Rightarrow>
       case inner s of
         (Inl e, s') \<Rightarrow> (Inl e, s', uk, budget)
       | (Inr None, s') \<Rightarrow> (Inr None, s', uk, budget)
       | (Inr (Some batch), s') \<Rightarrow>
           (case admit uk batch budget of
              Inl e \<Rightarrow> (Inl e, s', uk, budget)
            | Inr (uk', budget') \<Rightarrow> (Inr (Some batch), s', uk', budget')))"

definition validate_input_keys :: "write_mode \<Rightarrow> string list \<Rightarrow> arrow_schema \<Rightarrow> unit result" where
  "validate_input_keys mode keys schema =
     (if keyed_mode mode \<and> keys \<noteq> []
      then and_then (unique_input_keys_new schema keys NkEqual) (\<lambda>_. Inr ()) else Inr ())"

text \<open>\<open>None\<close> returns the input as it is.\<close>

definition guard_input_keys ::
    "write_mode \<Rightarrow> string list \<Rightarrow> arrow_schema \<Rightarrow> null_keys \<Rightarrow> unique_input_keys option result" where
  "guard_input_keys mode keys schema nulls =
     (if \<not> keyed_mode mode \<or> keys = [] then Inr None
      else and_then (unique_input_keys_new schema keys nulls) (\<lambda>uk. Inr (Some uk)))"

end
