(* ===== verification/Write_Keys_Proofs.thy ===== *)
theory Write_Keys_Proofs
  imports Write_Keys
begin

text \<open>
  Rule K shown on the model: the bytes kept for a key tell two keys apart exactly when the documented
  comparison does (text without trailing spaces, binaries without trailing zeros, floats by value with one
  NaN), and no two rows that a guarded stream delivers carry the same key.
\<close>

section \<open>When two cells are the same key value\<close>

definition same_float :: "u64 \<Rightarrow> u64 \<Rightarrow> bool" where
  "same_float a b \<longleftrightarrow> (f64_is_nan a \<and> f64_is_nan b) \<or> (f64_is_zero a \<and> f64_is_zero b)
     \<or> (a = b \<and> \<not> f64_is_nan a)"

definition strip_end :: "('a \<Rightarrow> bool) \<Rightarrow> 'a list \<Rightarrow> 'a list" where
  "strip_end p xs = rev (dropWhile p (rev xs))"

fun same_value :: "arrow_value \<Rightarrow> arrow_value \<Rightarrow> bool" where
  "same_value (AvFloat32 a) (AvFloat32 b) \<longleftrightarrow> same_float (f64_from_f32 a) (f64_from_f32 b)"
| "same_value (AvFloat64 a) (AvFloat64 b) \<longleftrightarrow> same_float a b"
| "same_value (AvText s) (AvText t) \<longleftrightarrow> strip_end (\<lambda>c. c = CHR '' '') s = strip_end (\<lambda>c. c = CHR '' '') t"
| "same_value (AvBytes s) (AvBytes t) \<longleftrightarrow> strip_end (\<lambda>b. b = 0) s = strip_end (\<lambda>b. b = 0) t"
| "same_value v w \<longleftrightarrow> v = w"

fun same_cell :: "arrow_value option \<Rightarrow> arrow_value option \<Rightarrow> bool" where
  "same_cell None None \<longleftrightarrow> True"
| "same_cell (Some v) (Some w) \<longleftrightarrow> same_value v w"
| "same_cell _ _ \<longleftrightarrow> False"

definition same_key :: "arrow_value option list \<Rightarrow> arrow_value option list \<Rightarrow> bool" where
  "same_key = list_all2 same_cell"

definition key_cells :: "nat list \<Rightarrow> record_batch \<Rightarrow> nat \<Rightarrow> arrow_value option list" where
  "key_cells columns b row = map (\<lambda>i. cell_at b i row) columns"

text \<open>The keys that the index behind the write does not hold to be unique.\<close>

fun exempt :: "null_keys \<Rightarrow> arrow_value option list \<Rightarrow> bool" where
  "exempt NkDistinct cells \<longleftrightarrow> None \<in> set cells"
| "exempt NkEqual cells \<longleftrightarrow> False"
| "exempt NkEqualUnlessAllNull cells \<longleftrightarrow> set cells \<subseteq> {None}"

section \<open>The encoding is exact\<close>

lemma find_position_takeWhile:
  "find_position p xs = (if \<exists>x \<in> set xs. p x then Some (length (takeWhile (\<lambda>x. \<not> p x) xs)) else None)"
  by (induction xs) auto

lemma trim_zeros_strip: "trim_zeros bs = strip_end (\<lambda>b. b = 0) bs"
proof -
  let ?n = "length (takeWhile (\<lambda>b. b = 0) (rev bs))"
  have strip: "strip_end (\<lambda>b. b = 0) bs = take (length bs - ?n) bs"
    by (simp add: strip_end_def dropWhile_eq_drop rev_drop)
  show ?thesis
  proof (cases "\<exists>b \<in> set bs. b \<noteq> 0")
    case True
    then have "takeWhile (\<lambda>b. b = 0) (rev bs) \<noteq> rev bs" by (auto simp: takeWhile_eq_all_conv)
    then have "?n \<noteq> length bs" using takeWhile_eq_take [of "\<lambda>b. b = 0" "rev bs"] by (metis length_rev take_all_iff order_refl)
    then have "?n < length bs" using length_takeWhile_le [of "\<lambda>b. b = 0" "rev bs"] by simp
    then show ?thesis
      using True by (simp add: trim_zeros_def rposition_def find_position_takeWhile strip Suc_diff_Suc)
  next
    case False
    then have "takeWhile (\<lambda>b. b = 0) (rev bs) = rev bs" by (simp add: takeWhile_eq_all_conv)
    then have "?n = length bs" by (metis length_rev)
    with False show ?thesis by (simp add: trim_zeros_def rposition_def find_position_takeWhile strip)
  qed
qed

lemma trim_end_spaces_strip: "trim_end_spaces s = strip_end (\<lambda>c. c = CHR '' '') s"
  by (simp add: trim_end_spaces_def strip_end_def)

lemma length_strip_end: "length (strip_end p xs) \<le> length xs"
  by (simp add: strip_end_def) (metis length_dropWhile_le length_rev)

lemma f64_nan_is_nan: "f64_is_nan f64_nan" "\<not> f64_is_zero f64_nan" "f64_is_zero 0" "\<not> f64_is_nan 0"
  by (simp_all add: f64_is_nan_def f64_is_zero_def f64_exponent_def f64_nan_def drop_bit_eq_div take_bit_eq_mod)

lemma float_bits_eq: "float_bits a = float_bits b \<longleftrightarrow> same_float a b"
proof -
  have "\<not> (f64_is_nan a \<and> f64_is_zero a)" for a
  proof -
    have "take_bit 52 (take_bit 63 a) = take_bit 52 a" unfolding take_bit_take_bit by simp
    then have "take_bit 63 a = 0 \<Longrightarrow> take_bit 52 a = 0" by (metis take_bit_of_0)
    then show ?thesis by (auto simp: f64_is_nan_def f64_is_zero_def)
  qed
  then show ?thesis using f64_nan_is_nan by (auto simp: float_bits_def same_float_def)
qed

lemma push_len_prefix:
  assumes "length a \<le> usize_max" "length b \<le> usize_max"
  shows "push_len a @ r = push_len b @ s \<longleftrightarrow> a = b \<and> r = s"
proof
  assume "push_len a @ r = push_len b @ s"
  then have "word_le_bytes 8 (of_nat (length a) :: u64) @ a @ r = word_le_bytes 8 (of_nat (length b) :: u64) @ b @ s"
    by (simp add: push_len_def)
  then have bytes: "word_le_bytes 8 (of_nat (length a) :: u64) = word_le_bytes 8 (of_nat (length b) :: u64)"
    and rest: "a @ r = b @ s"
    by (simp_all add: append_eq_append_conv)
  have "(of_nat (length a) :: u64) = of_nat (length b)" by (rule word_le_bytes_inject [OF _ bytes]) simp
  then have "unat (of_nat (length a) :: u64) = unat (of_nat (length b) :: u64)" by simp
  then have "length a = length b" using assms by (simp add: unat_of_nat usize_max_def)
  with rest show "a = b \<and> r = s" by (simp add: append_eq_append_conv)
qed simp

lemma word_le_bytes_eq:
  fixes w v :: "'a::len word"
  shows "LENGTH('a) \<le> 8 * n \<Longrightarrow> word_le_bytes n w = word_le_bytes n v \<longleftrightarrow> w = v"
  using word_le_bytes_inject [of n w v] by auto

lemma map_char_byte: "map char_byte s = map char_byte t \<longleftrightarrow> s = t"
  by (rule inj_map_eq_map) (simp add: inj_def)

text \<open>The encoding of a typed value is prefix free and identifies exactly the same key values.\<close>

lemma encode_cell_prefix:
  assumes "value_has_type t v" "value_has_type t w"
  shows "encode_cell v @ r = encode_cell w @ s \<longleftrightarrow> same_value v w \<and> r = s"
proof -
  have strings: "push_len (map char_byte (trim_end_spaces x)) @ r = push_len (map char_byte (trim_end_spaces y)) @ s \<longleftrightarrow>
      same_value (AvText x) (AvText y) \<and> r = s" if "length x \<le> usize_max" "length y \<le> usize_max" for x y
    using that length_strip_end [of "\<lambda>c. c = CHR '' ''" x] length_strip_end [of "\<lambda>c. c = CHR '' ''" y]
    by (subst push_len_prefix) (auto simp: trim_end_spaces_strip map_char_byte)
  have bytes: "push_len (trim_zeros x) @ r = push_len (trim_zeros y) @ s \<longleftrightarrow>
      same_value (AvBytes x) (AvBytes y) \<and> r = s" if "length x \<le> usize_max" "length y \<le> usize_max" for x y
    using that length_strip_end [of "\<lambda>b. b = 0" x] length_strip_end [of "\<lambda>b. b = 0" y]
    by (subst push_len_prefix) (auto simp: trim_zeros_strip)
  show ?thesis
    using assms strings bytes by (cases v; cases w) (auto simp: word_le_bytes_eq float_bits_eq)
qed

fun encode_option :: "arrow_value option \<Rightarrow> u8 list" where
  "encode_option None = [0]"
| "encode_option (Some v) = 1 # encode_cell v"

definition cell_has_type :: "data_type \<Rightarrow> arrow_value option \<Rightarrow> bool" where
  "cell_has_type t c \<longleftrightarrow> (\<forall>v. c = Some v \<longrightarrow> value_has_type t v)"

lemma encode_option_prefix:
  "cell_has_type t c \<Longrightarrow> cell_has_type t d \<Longrightarrow>
   encode_option c @ r = encode_option d @ s \<longleftrightarrow> same_cell c d \<and> r = s"
  by (cases c; cases d) (auto simp: cell_has_type_def encode_cell_prefix)

lemma encode_key_inject:
  "list_all2 cell_has_type ts cs \<Longrightarrow> list_all2 cell_has_type ts ds \<Longrightarrow>
   concat (map encode_option cs) = concat (map encode_option ds) \<longleftrightarrow> same_key cs ds"
proof (induction ts arbitrary: cs ds)
  case (Cons t ts)
  then obtain c cs' d ds' where "cs = c # cs'" "ds = d # ds'" "cell_has_type t c" "cell_has_type t d"
    "list_all2 cell_has_type ts cs'" "list_all2 cell_has_type ts ds'"
    by (auto simp: list_all2_Cons1)
  then show ?case using Cons.IH [of cs' ds'] by (simp add: encode_option_prefix same_key_def)
qed (simp add: same_key_def)

section \<open>The key of a row\<close>

text \<open>The bytes kept for a row, or none when the index does not hold its key to be unique.\<close>

definition kept_key :: "null_keys \<Rightarrow> nat list \<Rightarrow> record_batch \<times> nat \<Rightarrow> u8 list option" where
  "kept_key nulls columns br =
     (let cells = key_cells columns (fst br) (snd br)
      in if exempt nulls cells then None else Some (concat (map encode_option cells)))"

definition columns_ok :: "arrow_schema \<Rightarrow> nat list \<Rightarrow> bool" where
  "columns_ok schema columns \<longleftrightarrow> (\<forall>i \<in> set columns. i < length schema \<and> comparable (af_type (schema ! i)))"

lemma batch_column_type:
  "batch_ok schema b \<Longrightarrow> i < length schema \<Longrightarrow> aa_type (batch_columns b ! i) = af_type (schema ! i)"
  by (auto simp: batch_ok_def array_ok_def list_all2_conv_all_nth)

lemma cell_at_type:
  "batch_ok schema b \<Longrightarrow> i < length schema \<Longrightarrow> row < batch_rows b \<Longrightarrow> cell_has_type (af_type (schema ! i)) (cell_at b i row)"
  unfolding batch_ok_def list_all2_conv_all_nth array_ok_def cell_at_def cell_has_type_def by (metis nth_mem)

lemma row_key_bytes_eq:
  assumes "batch_ok schema b"
  shows "columns_ok schema columns \<Longrightarrow>
    row_key_bytes nulls b row columns key n =
      Inr (if nulls = NkDistinct \<and> None \<in> set (key_cells columns b row) then None
           else Some (key @ concat (map encode_option (key_cells columns b row)),
                      n + length (filter (\<lambda>c. c = None) (key_cells columns b row))))"
proof (induction columns arbitrary: key n)
  case (Cons i columns)
  then show ?case using batch_column_type [OF assms, of i]
    by (auto simp: columns_ok_def key_cells_def encode_def split: option.split)
qed (simp add: key_cells_def)

lemma all_null_iff: "length (filter (\<lambda>c. c = None) cells) = length cells \<longleftrightarrow> set cells \<subseteq> {None}"
proof (induction cells)
  case (Cons c cells)
  have "length (filter (\<lambda>c. c = None) cells) \<noteq> Suc (length cells)"
    by (metis Suc_n_not_le_n length_filter_le)
  with Cons show ?case by (cases c) auto
qed simp

lemma row_key_of_eq:
  assumes "batch_ok schema b" "columns_ok schema (uk_columns uk)"
  shows "row_key_of uk b row = Inr (kept_key (uk_nulls uk) (uk_columns uk) (b, row))"
proof -
  let ?cells = "key_cells (uk_columns uk) b row"
  have "length ?cells = length (uk_columns uk)" by (simp add: key_cells_def)
  then show ?thesis
    using all_null_iff [of ?cells] row_key_bytes_eq [OF assms, of "uk_nulls uk" row "[]" 0]
    by (cases "uk_nulls uk") (auto simp: row_key_of_def kept_key_def Let_def)
qed

lemma kept_key_inject:
  assumes "batch_ok schema (fst p)" "batch_ok schema (fst q)" "snd p < batch_rows (fst p)" "snd q < batch_rows (fst q)"
    and "columns_ok schema columns" "kept_key nulls columns p = Some k" "kept_key nulls columns q = Some l"
  shows "k = l \<longleftrightarrow> same_key (key_cells columns (fst p) (snd p)) (key_cells columns (fst q) (snd q))"
proof -
  let ?ts = "map (\<lambda>i. af_type (schema ! i)) columns"
  have typed: "list_all2 cell_has_type ?ts (key_cells columns (fst r) (snd r))"
    if "batch_ok schema (fst r)" "snd r < batch_rows (fst r)" for r
    using that assms(5) cell_at_type by (auto simp: key_cells_def columns_ok_def list_all2_conv_all_nth)
  show ?thesis
    using encode_key_inject [OF typed typed, of p q] assms by (auto simp: kept_key_def Let_def split: if_splits)
qed

section \<open>Admission\<close>

lemma admit_rows_Inr:
  assumes "admit_rows uk b rows bk n = Inr (bk', n')" "\<And>row. row \<in> set rows \<Longrightarrow> row_key_of uk b row = Inr (kf row)"
  shows "distinct (List.map_filter kf rows) \<and> set (List.map_filter kf rows) \<inter> (uk_seen uk \<union> bk) = {}
    \<and> bk' = bk \<union> set (List.map_filter kf rows)"
  using assms
proof (induction rows arbitrary: bk n)
  case (Cons row rows)
  then show ?case
  proof (cases "kf row")
    case None
    then show ?thesis using Cons.prems Cons.IH [of bk n] by (simp add: map_filter_simps)
  next
    case (Some k)
    then obtain n1 where "add_key_bytes n k = Inr n1" "k \<notin> uk_seen uk" "k \<notin> bk"
      "admit_rows uk b rows (insert k bk) n1 = Inr (bk', n')"
      using Cons.prems by (auto simp: and_then_eq_Inr split: if_splits)
    then show ?thesis using Cons.prems Cons.IH [of "insert k bk" n1] Some by (auto simp: map_filter_simps)
  qed
qed (simp add: map_filter_simps)

lemma admit_rows_duplicate:
  assumes "admit_rows uk b rows bk n = Inl duplicate_keys" "\<And>row. row \<in> set rows \<Longrightarrow> row_key_of uk b row = Inr (kf row)"
  shows "\<not> (distinct (List.map_filter kf rows) \<and> set (List.map_filter kf rows) \<inter> (uk_seen uk \<union> bk) = {})"
  using assms
proof (induction rows arbitrary: bk n)
  case (Cons row rows)
  then show ?case
  proof (cases "kf row")
    case None
    then show ?thesis using Cons.prems Cons.IH [of bk n] by (simp add: map_filter_simps)
  next
    case (Some k)
    have "add_key_bytes n k \<noteq> Inl duplicate_keys"
      by (auto simp: add_key_bytes_def ok_or_eq_Inl duplicate_keys_def resource_limit_def error_new_def)
    then obtain n1 where "k \<in> uk_seen uk \<or> k \<in> bk \<or> admit_rows uk b rows (insert k bk) n1 = Inl duplicate_keys"
      using Cons.prems Some by (auto simp: and_then_eq_Inl split: if_splits)
    then show ?thesis using Cons.prems(2) Cons.IH [of "insert k bk" n1] Some by (auto simp: map_filter_simps)
  qed
qed simp

lemma admit_Inr:
  assumes "admit uk b budget = Inr (uk', budget')" "batch_ok schema b" "columns_ok schema (uk_columns uk)"
  defines "ks \<equiv> List.map_filter (kept_key (uk_nulls uk) (uk_columns uk)) (map (Pair b) [0..<batch_rows b])"
  shows "distinct ks \<and> set ks \<inter> uk_seen uk = {} \<and> uk_seen uk' = uk_seen uk \<union> set ks
    \<and> uk_columns uk' = uk_columns uk \<and> uk_nulls uk' = uk_nulls uk"
proof -
  have ks: "ks = List.map_filter (\<lambda>row. kept_key (uk_nulls uk) (uk_columns uk) (b, row)) [0..<batch_rows b]"
    by (simp add: ks_def List.map_filter_def filter_map comp_def)
  obtain bk n where rows: "admit_rows uk b [0..<batch_rows b] {} 0 = Inr (bk, n)"
    and uk': "uk_seen uk' = uk_seen uk \<union> bk" "uk_columns uk' = uk_columns uk" "uk_nulls uk' = uk_nulls uk"
    using assms(1) by (auto simp: admit_def and_then_eq_Inr split: if_splits)
  from admit_rows_Inr [OF rows row_key_of_eq [OF assms(2,3)]] uk' show ?thesis by (simp add: ks)
qed

lemma admit_duplicate:
  assumes "admit uk b budget = Inl duplicate_keys" "batch_ok schema b" "columns_ok schema (uk_columns uk)"
  defines "ks \<equiv> List.map_filter (kept_key (uk_nulls uk) (uk_columns uk)) (map (Pair b) [0..<batch_rows b])"
  shows "\<not> (distinct ks \<and> set ks \<inter> uk_seen uk = {})"
proof -
  have ks: "ks = List.map_filter (\<lambda>row. kept_key (uk_nulls uk) (uk_columns uk) (b, row)) [0..<batch_rows b]"
    by (simp add: ks_def List.map_filter_def filter_map comp_def)
  have "try_lease budget MemoryBytes n \<noteq> Inl duplicate_keys" for n
    by (auto simp: try_lease_def lease_next_def zero_lease_error_def ok_or_eq_Inl and_then_eq_Inl
        duplicate_keys_def resource_limit_def error_new_def)
  then have rows: "admit_rows uk b [0..<batch_rows b] {} 0 = Inl duplicate_keys"
    using assms(1) by (auto simp: admit_def and_then_eq_Inl split: if_splits)
  from admit_rows_duplicate [OF rows row_key_of_eq [OF assms(2,3)]] show ?thesis by (simp add: ks)
qed

section \<open>The guarded stream\<close>

text \<open>
  The batches a consumer receives until the first error or the end, at most \<open>n\<close> of them, and the state it
  then finds.
\<close>

fun delivered_batches ::
    "'s batch_source \<Rightarrow> nat \<Rightarrow> 's \<times> unique_input_keys \<times> counters
     \<Rightarrow> record_batch list \<times> 's \<times> unique_input_keys \<times> counters" where
  "delivered_batches inner 0 st = ([], st)"
| "delivered_batches inner (Suc n) st =
     (case unique_next inner st of
        (Inr (Some b), st') \<Rightarrow> (case delivered_batches inner n st' of (bs, st'') \<Rightarrow> (b # bs, st''))
      | _ \<Rightarrow> ([], st))"

definition all_rows :: "record_batch list \<Rightarrow> (record_batch \<times> nat) list" where
  "all_rows bs = concat (map (\<lambda>b. map (Pair b) [0..<batch_rows b]) bs)"

definition conforming_source :: "arrow_schema \<Rightarrow> 's batch_source \<Rightarrow> bool" where
  "conforming_source schema inner \<longleftrightarrow> (\<forall>s b s'. inner s = (Inr (Some b), s') \<longrightarrow> batch_ok schema b)"

lemma all_rows_simps [simp]:
  "all_rows [] = []" "all_rows (b # bs) = map (Pair b) [0..<batch_rows b] @ all_rows bs"
  by (simp_all add: all_rows_def)

lemma all_rows_append: "all_rows (bs @ cs) = all_rows bs @ all_rows cs"
  by (simp add: all_rows_def)

lemma in_all_rows: "p \<in> set (all_rows bs) \<Longrightarrow> fst p \<in> set bs \<and> snd p < batch_rows (fst p)"
  by (auto simp: all_rows_def)

lemma map_filter_append: "List.map_filter f (xs @ ys) = List.map_filter f xs @ List.map_filter f ys"
  by (simp add: List.map_filter_def)

lemma unique_next_batch:
  assumes "unique_next inner (s, uk, budget) = (Inr (Some b), s', uk', budget')"
  shows "inner s = (Inr (Some b), s') \<and> admit uk b budget = Inr (uk', budget')"
  using assms by (auto simp: unique_next_def split: prod.splits sum.splits option.splits)

lemma delivered_distinct:
  assumes "conforming_source schema inner"
  shows "delivered_batches inner n (s, uk, budget) = (bs, s', uk', budget') \<Longrightarrow> columns_ok schema (uk_columns uk) \<Longrightarrow>
    uk_columns uk' = uk_columns uk \<and> uk_nulls uk' = uk_nulls uk \<and> (\<forall>b \<in> set bs. batch_ok schema b)
    \<and> (let ks = List.map_filter (kept_key (uk_nulls uk) (uk_columns uk)) (all_rows bs)
       in distinct ks \<and> set ks \<inter> uk_seen uk = {} \<and> uk_seen uk' = uk_seen uk \<union> set ks)"
proof (induction n arbitrary: s uk budget bs)
  case (Suc n)
  obtain r s1 uk1 budget1 where call: "unique_next inner (s, uk, budget) = (r, s1, uk1, budget1)" by (metis prod_cases4)
  show ?case
  proof (cases "\<exists>b. r = Inr (Some b)")
    case True
    then obtain b where r: "r = Inr (Some b)" by blast
    have admitted: "admit uk b budget = Inr (uk1, budget1)" and b: "batch_ok schema b"
      using unique_next_batch [OF call [unfolded r]] assms by (auto simp: conforming_source_def)
    obtain cs where cs: "delivered_batches inner n (s1, uk1, budget1) = (cs, s', uk', budget')" "bs = b # cs"
      using Suc.prems(1) call r by (auto split: prod.splits)
    from admit_Inr [OF admitted b Suc.prems(2)] have here: "uk_columns uk1 = uk_columns uk" "uk_nulls uk1 = uk_nulls uk"
      by auto
    from Suc.IH [OF cs(1)] admit_Inr [OF admitted b Suc.prems(2)] here b Suc.prems(2) cs(2) show ?thesis
      by (auto simp: Let_def map_filter_append)
  next
    case False
    then have "delivered_batches inner (Suc n) (s, uk, budget) = ([], s, uk, budget)"
      using call by (auto split: sum.splits option.splits)
    with Suc.prems show ?thesis by (simp add: map_filter_simps)
  qed
qed (simp add: map_filter_simps)

lemma distinct_map_filter_nth:
  "distinct (List.map_filter f xs) \<longleftrightarrow>
     (\<forall>p q. p < q \<longrightarrow> q < length xs \<longrightarrow> f (xs ! p) \<noteq> None \<longrightarrow> f (xs ! p) \<noteq> f (xs ! q))"
proof (induction xs)
  case (Cons x xs)
  have mem: "k \<in> set (List.map_filter f xs) \<longleftrightarrow> (\<exists>q < length xs. f (xs ! q) = Some k)" for k
    by (auto simp: List.map_filter_def in_set_conv_nth image_iff)
  have split: "(\<forall>p q. p < q \<longrightarrow> q < Suc n \<longrightarrow> P p q) \<longleftrightarrow>
      (\<forall>q < n. P 0 (Suc q)) \<and> (\<forall>p q. p < q \<longrightarrow> q < n \<longrightarrow> P (Suc p) (Suc q))" for n P
  proof (intro iffI allI impI)
    fix p q assume "(\<forall>q < n. P 0 (Suc q)) \<and> (\<forall>p q. p < q \<longrightarrow> q < n \<longrightarrow> P (Suc p) (Suc q))" "p < q" "q < Suc n"
    then show "P p q" by (cases p; cases q) auto
  qed auto
  show ?case unfolding length_Cons split using Cons mem by (cases "f x") (auto simp: map_filter_simps)
qed (simp add: map_filter_simps)

text \<open>Two rows at different positions carry the same key, and the index holds it to be unique.\<close>

definition key_repeated :: "null_keys \<Rightarrow> nat list \<Rightarrow> (record_batch \<times> nat) list \<Rightarrow> bool" where
  "key_repeated nulls columns rows \<longleftrightarrow>
     (\<exists>p q. p < q \<and> q < length rows
        \<and> \<not> exempt nulls (key_cells columns (fst (rows ! p)) (snd (rows ! p)))
        \<and> \<not> exempt nulls (key_cells columns (fst (rows ! q)) (snd (rows ! q)))
        \<and> same_key (key_cells columns (fst (rows ! p)) (snd (rows ! p))) (key_cells columns (fst (rows ! q)) (snd (rows ! q))))"

lemma key_repeated_iff:
  assumes "columns_ok schema columns" "\<forall>b \<in> set bs. batch_ok schema b"
  shows "key_repeated nulls columns (all_rows bs) \<longleftrightarrow> \<not> distinct (List.map_filter (kept_key nulls columns) (all_rows bs))"
proof -
  let ?rows = "all_rows bs"
  have kept: "kept_key nulls columns r \<noteq> None \<longleftrightarrow> \<not> exempt nulls (key_cells columns (fst r) (snd r))" for r
    by (simp add: kept_key_def Let_def)
  have same: "kept_key nulls columns (?rows ! p) = kept_key nulls columns (?rows ! q) \<longleftrightarrow>
      same_key (key_cells columns (fst (?rows ! p)) (snd (?rows ! p))) (key_cells columns (fst (?rows ! q)) (snd (?rows ! q)))"
    if "p < length ?rows" "q < length ?rows" "kept_key nulls columns (?rows ! p) \<noteq> None"
      "kept_key nulls columns (?rows ! q) \<noteq> None" for p q
  proof -
    have p: "fst (?rows ! p) \<in> set bs \<and> snd (?rows ! p) < batch_rows (fst (?rows ! p))"
      and q: "fst (?rows ! q) \<in> set bs \<and> snd (?rows ! q) < batch_rows (fst (?rows ! q))"
      using in_all_rows that(1,2) by (metis nth_mem)+
    then show ?thesis using that assms kept_key_inject [of schema "?rows ! p" "?rows ! q" columns nulls] by auto
  qed
  show ?thesis unfolding key_repeated_def distinct_map_filter_nth
    using same kept by (smt (verit) order.strict_trans)
qed

section \<open>Properties\<close>

lemma unique_input_keys_new_Inr:
  assumes "unique_input_keys_new schema keys nulls = Inr uk"
  shows "uk_columns uk = map (\<lambda>k. the (index_of schema k)) keys \<and> columns_ok schema (uk_columns uk)
    \<and> uk_nulls uk = nulls \<and> uk_seen uk = {}"
proof -
  obtain columns where cols: "try_collect (\<lambda>key. ok_or (index_of schema key)
        (invalid_plan ''chiave assente nello schema Arrow'')) keys = Inr columns"
    and uk: "uk = \<lparr>uk_columns = columns, uk_nulls = nulls, uk_seen = {}, uk_leases = []\<rparr>"
    and comparable: "list_all (\<lambda>i. comparable (af_type (schema ! i))) columns"
    using assms by (auto simp: unique_input_keys_new_def and_then_eq_Inr split: if_splits)
  have at: "index_of schema (keys ! i) = Some (columns ! i)" if "i < length keys" for i
    using try_collect_Inr [OF cols] that by (simp add: ok_or_eq_Inr)
  have "columns = map (\<lambda>k. the (index_of schema k)) keys"
    using try_collect_Inr [OF cols] at by (intro nth_equalityI) auto
  moreover have "i < length schema" if member: "i \<in> set columns" for i
  proof -
    obtain j where "j < length columns" "columns ! j = i" using member by (auto simp: in_set_conv_nth)
    then have "index_of schema (keys ! j) = Some i" using at [of j] try_collect_Inr [OF cols] by simp
    then show ?thesis by (auto simp: index_of_def dest: find_position_Some)
  qed
  ultimately show ?thesis using uk comparable by (simp add: columns_ok_def list_all_iff)
qed

text \<open>C6: a keyed write never receives a key twice: among all the rows a guarded stream delivers, of one batch or of
  several, no two carry the same key (as the index that proves the keys compares them, nulls included); and a
  batch refused as a repetition does repeat a key, of its own or of a row delivered before.\<close>

theorem input_keys_unique:
  assumes "guard_input_keys mode keys schema nulls = Inr (Some uk)" "conforming_source schema inner"
    and "delivered_batches inner n (s, uk, budget) = (bs, s', uk', budget')"
  shows "\<not> key_repeated nulls (map (\<lambda>k. the (index_of schema k)) keys) (all_rows bs)
    \<and> (\<forall>b s''. inner s' = (Inr (Some b), s'') \<longrightarrow> fst (unique_next inner (s', uk', budget')) = Inl duplicate_keys
         \<longrightarrow> key_repeated nulls (map (\<lambda>k. the (index_of schema k)) keys) (all_rows (bs @ [b])))"
proof -
  let ?columns = "map (\<lambda>k. the (index_of schema k)) keys"
  have uk: "uk_columns uk = ?columns" "columns_ok schema ?columns" "uk_nulls uk = nulls" "uk_seen uk = {}"
    using assms(1) unique_input_keys_new_Inr [of schema keys nulls uk]
    by (auto simp: guard_input_keys_def and_then_eq_Inr split: if_splits)
  note kept = delivered_distinct [OF assms(2,3), unfolded uk Let_def, OF uk(2)]
  show ?thesis
  proof (intro conjI allI impI)
    show "\<not> key_repeated nulls ?columns (all_rows bs)"
      using kept key_repeated_iff [OF uk(2), of bs nulls] by auto
    fix b s'' assume b: "inner s' = (Inr (Some b), s'')"
      and refused: "fst (unique_next inner (s', uk', budget')) = Inl duplicate_keys"
    from b refused have "admit uk' b budget' = Inl duplicate_keys"
      by (auto simp: unique_next_def split: sum.splits prod.splits)
    moreover have "batch_ok schema b" using assms(2) b unfolding conforming_source_def by blast
    moreover have "columns_ok schema (uk_columns uk')" using kept uk by simp
    ultimately have "\<not> distinct (List.map_filter (kept_key nulls ?columns) (all_rows (bs @ [b])))"
      using admit_duplicate [of uk' b budget' schema] kept by (auto simp: all_rows_append map_filter_append)
    moreover have "\<forall>c \<in> set (bs @ [b]). batch_ok schema c" using kept \<open>batch_ok schema b\<close> by simp
    ultimately show "key_repeated nulls ?columns (all_rows (bs @ [b]))"
      using key_repeated_iff [OF uk(2)] by blast
  qed
qed

section \<open>Witness\<close>

definition demo_schema :: arrow_schema where
  "demo_schema = [\<lparr>af_name = ''k'', af_type = DtBoolean\<rparr>]"

definition demo_batch :: "bool option list \<Rightarrow> record_batch" where
  "demo_batch ks = \<lparr>batch_rows = length ks,
     batch_columns = [\<lparr>aa_type = DtBoolean, aa_cells = map (map_option AvBool) ks\<rparr>]\<rparr>"

definition demo_input :: "nat batch_source" where
  "demo_input i = (Inr (if i = 0 then Some (demo_batch [Some True, None])
     else if i = 1 then Some (demo_batch [Some False]) else if i = 2 then Some (demo_batch [Some False]) else None), Suc i)"

lemma demo_conforming: "conforming_source demo_schema demo_input"
  by (auto simp: conforming_source_def demo_input_def demo_batch_def demo_schema_def batch_ok_def array_ok_def
      usize_max_def split: if_splits)

definition demo_keys :: unique_input_keys where
  "demo_keys = \<lparr>uk_columns = [0], uk_nulls = NkDistinct, uk_seen = {}, uk_leases = []\<rparr>"

lemma demo_guard: "guard_input_keys WmUpsert [''k''] demo_schema NkDistinct = Inr (Some demo_keys)"
  by (simp add: guard_input_keys_def keyed_mode_def unique_input_keys_new_def demo_schema_def index_of_def demo_keys_def)

definition demo_budget :: counters where
  "demo_budget = (counters_new default_resource_limits)\<lparr>c_memory_bytes := 200\<rparr>"

lemma demo_rows_1: "admit_rows demo_keys (demo_batch [Some True, None]) [0, Suc 0] {} 0 = Inr ({[1, 1]}, 66)"
  by (simp add: demo_batch_def demo_keys_def row_key_of_def cell_at_def encode_def add_key_bytes_def checked_add_def
      ENTRY_OVERHEAD_BYTES_def)

lemma demo_rows_2: "uk_seen uk = {[1, 1]} \<Longrightarrow> uk_columns uk = [0] \<Longrightarrow> uk_nulls uk = NkDistinct \<Longrightarrow>
    admit_rows uk (demo_batch [Some False]) [0] {} 0 = Inr ({[1, 0]}, 66)"
  by (simp add: demo_batch_def row_key_of_def cell_at_def encode_def add_key_bytes_def checked_add_def
      ENTRY_OVERHEAD_BYTES_def)

lemma demo_delivered:
  "\<exists>uk' budget'. delivered_batches demo_input (Suc (Suc 0)) (0, demo_keys, demo_budget)
     = ([demo_batch [Some True, None], demo_batch [Some False]], Suc (Suc 0), uk', budget')"
proof -
  have lease: "try_lease c MemoryBytes 66 = Inr (c\<lparr>c_memory_bytes := c_memory_bytes c - 66\<rparr>,
      \<lparr>rs_kind = MemoryBytes, rs_amount = 66\<rparr>)" if "66 \<le> c_memory_bytes c" for c
    using that by (simp add: try_lease_def lease_next_def checked_sub_def)
  define uk1 where "uk1 = demo_keys\<lparr>uk_leases := [\<lparr>rs_kind = MemoryBytes, rs_amount = 66\<rparr>], uk_seen := {[1, 1]}\<rparr>"
  define b1 where "b1 = demo_budget\<lparr>c_memory_bytes := 134\<rparr>"
  have "admit demo_keys (demo_batch [Some True, None]) demo_budget = Inr (uk1, b1)"
    using demo_rows_1 lease [of demo_budget]
    by (simp add: admit_def uk1_def b1_def demo_budget_def demo_keys_def demo_batch_def)
  then have first: "unique_next demo_input (0, demo_keys, demo_budget)
      = (Inr (Some (demo_batch [Some True, None])), Suc 0, uk1, b1)"
    by (simp add: unique_next_def demo_input_def)
  have "\<exists>uk' budget'. admit uk1 (demo_batch [Some False]) b1 = Inr (uk', budget')"
    using demo_rows_2 [of uk1] lease [of b1]
    by (simp add: admit_def uk1_def b1_def demo_keys_def demo_batch_def)
  then obtain uk' budget' where "admit uk1 (demo_batch [Some False]) b1 = Inr (uk', budget')" by blast
  then have second: "unique_next demo_input (Suc 0, uk1, b1) = (Inr (Some (demo_batch [Some False])), Suc (Suc 0), uk', budget')"
    by (simp add: unique_next_def demo_input_def)
  show ?thesis using first second by simp
qed

theorem input_keys_unique_witness:
  "\<not> key_repeated NkDistinct [0] (all_rows [demo_batch [Some True, None], demo_batch [Some False]])"
proof -
  obtain uk' budget' where run: "delivered_batches demo_input (Suc (Suc 0)) (0, demo_keys, demo_budget)
      = ([demo_batch [Some True, None], demo_batch [Some False]], Suc (Suc 0), uk', budget')"
    using demo_delivered by blast
  from input_keys_unique [OF demo_guard demo_conforming run] show ?thesis
    by (simp add: demo_schema_def index_of_def)
qed

end
