(* ===== verification/Store_Rewrite.thy ===== *)
theory Store_Rewrite
  imports Arrow Plan
begin

text \<open>
  Rule S, \<open>plenora-database-core/src/store_rewrite.rs\<close>: the values a target type would rewrite when it
  stores them, the guard that refuses them (in a key under every policy, elsewhere under \<open>Strict\<close>) and the
  losses it declares otherwise.  A scan over bytes by index is a recursion over what is left of the text.
\<close>

section \<open>Rewrites\<close>

definition REWRITTEN_VALUE :: string where
  "REWRITTEN_VALUE = ''il server riscriverebbe al salvataggio il valore in uno diverso (regola S): con Strict e una perdita''"

definition REWRITTEN_KEY :: string where
  "REWRITTEN_KEY = ''il server riscriverebbe al salvataggio il valore di una chiave in uno diverso (regola S): la regola K non lo prova, con nessuna politica''"

datatype text_length_unit = TlCharacters | TlUtf16 | TlUtf8Bytes | TlSingleByte

text \<open>\<open>encode_utf16\<close>: a character of four UTF-8 bytes is a surrogate pair.\<close>

definition utf16_count :: "string \<Rightarrow> nat" where
  "utf16_count s = sum_list (map (\<lambda>c. if length c = 4 then 2 else 1) (chars s))"

fun text_length :: "text_length_unit \<Rightarrow> string \<Rightarrow> nat" where
  "text_length TlCharacters s = char_count s"
| "text_length TlSingleByte s = char_count s"
| "text_length TlUtf16 s = utf16_count s"
| "text_length TlUtf8Bytes s = length s"

datatype store_rewrite =
  EmptyToNull | PadText u64 | PadBinary u64 | StripTrailing | ExcessSpaces u64 | Underflow u64 | NegativeZero
| FractionalSeconds u8 | NonAscii | JsonNumbers | EveryValue

fun rewrite_reason :: "store_rewrite \<Rightarrow> string" where
  "rewrite_reason EmptyToNull = ''regola S: il server salva come NULL il testo vuoto e il binario vuoto''"
| "rewrite_reason (PadText _) = ''regola S: il tipo a lunghezza fissa completa con spazi un testo piu corto''"
| "rewrite_reason (PadBinary _) = ''regola S: il tipo a lunghezza fissa completa con 0x00 un binario piu corto''"
| "rewrite_reason StripTrailing = ''regola S: la colonna toglie gli spazi finali del testo e gli 0x00 finali del binario''"
| "rewrite_reason (ExcessSpaces _) = ''regola S: la colonna tronca gli spazi finali oltre la propria lunghezza''"
| "rewrite_reason (Underflow _) = ''regola S: il tipo numerico salva come 0 un float sotto il proprio minimo''"
| "rewrite_reason NegativeZero = ''regola S: il tipo numerico salva -0.0 come 0''"
| "rewrite_reason (FractionalSeconds _) = ''regola S: il tipo temporale arrotonda o tronca le cifre frazionarie oltre la propria precisione''"
| "rewrite_reason NonAscii = ''regola S: il charset della colonna non conserva ogni carattere fuori da ASCII''"
| "rewrite_reason JsonNumbers = ''regola S: il tipo JSON del target riscrive la forma dei numeri fuori dagli interi brevi''"
| "rewrite_reason EveryValue = ''regola S: la misura della coppia di tipi (regola A) ha trovato valori riscritti al salvataggio''"

fun rewrite_category :: "store_rewrite \<Rightarrow> loss_category" where
  "rewrite_category EmptyToNull = LcNullability"
| "rewrite_category (PadText _) = LcNativeType"
| "rewrite_category (PadBinary _) = LcNativeType"
| "rewrite_category StripTrailing = LcNativeType"
| "rewrite_category (ExcessSpaces _) = LcNativeType"
| "rewrite_category EveryValue = LcNativeType"
| "rewrite_category (Underflow _) = LcPrecision"
| "rewrite_category NegativeZero = LcPrecision"
| "rewrite_category (FractionalSeconds _) = LcPrecision"
| "rewrite_category JsonNumbers = LcPrecision"
| "rewrite_category NonAscii = LcEncoding"

definition is_text_type :: "data_type \<Rightarrow> bool" where
  "is_text_type t \<longleftrightarrow> t = DtUtf8 \<or> t = DtLargeUtf8"

definition is_binary_type :: "data_type \<Rightarrow> bool" where
  "is_binary_type t \<longleftrightarrow> t = DtBinary \<or> t = DtLargeBinary \<or> (case t of DtFixedSizeBinary _ \<Rightarrow> True | _ \<Rightarrow> False)"

definition is_float_type :: "data_type \<Rightarrow> bool" where
  "is_float_type t \<longleftrightarrow> t = DtFloat32 \<or> t = DtFloat64"

definition is_instant_type :: "data_type \<Rightarrow> bool" where
  "is_instant_type t \<longleftrightarrow> (case t of DtTimestamp _ _ \<Rightarrow> True | _ \<Rightarrow> False)"

fun rewrite_admits :: "store_rewrite \<Rightarrow> data_type \<Rightarrow> bool" where
  "rewrite_admits EmptyToNull t \<longleftrightarrow> is_text_type t \<or> is_binary_type t"
| "rewrite_admits StripTrailing t \<longleftrightarrow> is_text_type t \<or> is_binary_type t"
| "rewrite_admits (PadText _) t \<longleftrightarrow> is_text_type t"
| "rewrite_admits (ExcessSpaces _) t \<longleftrightarrow> is_text_type t"
| "rewrite_admits NonAscii t \<longleftrightarrow> is_text_type t"
| "rewrite_admits JsonNumbers t \<longleftrightarrow> is_text_type t"
| "rewrite_admits (PadBinary _) t \<longleftrightarrow> is_binary_type t"
| "rewrite_admits (Underflow _) t \<longleftrightarrow> is_float_type t"
| "rewrite_admits NegativeZero t \<longleftrightarrow> is_float_type t"
| "rewrite_admits (FractionalSeconds _) t \<longleftrightarrow> is_instant_type t"
| "rewrite_admits EveryValue t \<longleftrightarrow> True"

section \<open>JSON numbers\<close>

definition is_number_byte :: "char \<Rightarrow> bool" where
  "is_number_byte c \<longleftrightarrow> c \<in> {CHR ''-'', CHR ''+'', CHR ''.'', CHR ''e'', CHR ''E''} \<or> is_ascii_digit c"

definition short_integer :: "string \<Rightarrow> bool" where
  "short_integer token =
     (let digits = (case token of c # cs \<Rightarrow> if c = CHR ''-'' then cs else token | [] \<Rightarrow> token)
      in if digits = [] \<or> length digits > 15 \<or> \<not> list_all is_ascii_digit digits then False
         else if digits = ''0'' then length token = 1
         else hd digits \<noteq> CHR ''0'')"

text \<open>What follows the closing quote of a string; an escape takes two bytes.\<close>

fun skip_string :: "string \<Rightarrow> string" where
  "skip_string [] = []"
| "skip_string [c] = []"
| "skip_string (c # d # cs) =
     (if c = CHR 0x22 then d # cs else if c = CHR 0x5C then skip_string cs else skip_string (d # cs))"

lemma length_skip_string: "length (skip_string cs) \<le> length cs"
  by (induction cs rule: skip_string.induct) auto

function has_rewritten_json_number :: "string \<Rightarrow> bool" where
  "has_rewritten_json_number [] \<longleftrightarrow> False"
| "has_rewritten_json_number (c # cs) \<longleftrightarrow>
     (if c = CHR 0x22 then has_rewritten_json_number (skip_string cs)
      else if c = CHR ''-'' \<or> is_ascii_digit c
      then (if \<not> short_integer (takeWhile is_number_byte (c # cs)) then True
            else has_rewritten_json_number (dropWhile is_number_byte (c # cs)))
      else has_rewritten_json_number cs)"
  by pat_completeness auto
termination
  by (relation "measure length")
    (auto simp: is_number_byte_def le_imp_less_Suc length_dropWhile_le length_skip_string)

section \<open>The value of a cell\<close>

datatype rewrite_value = RvText string | RvBytes "u8 list" | RvFloat u64 | RvInstant int | RvOther

fun per_second :: "time_unit \<Rightarrow> int" where
  "per_second TuSecond = 1"
| "per_second TuMillisecond = 1000"
| "per_second TuMicrosecond = 1000000"
| "per_second TuNanosecond = 1000000000"

definition subsecond_ns :: "time_unit \<Rightarrow> u64 \<Rightarrow> int" where
  "subsecond_ns unit raw = (sint raw mod per_second unit) * (1000000000 div per_second unit)"

definition rewrite_value_of :: "data_type \<Rightarrow> arrow_value \<Rightarrow> rewrite_value" where
  "rewrite_value_of t v =
     (case v of
        AvText s \<Rightarrow> RvText s
      | AvBytes bs \<Rightarrow> RvBytes bs
      | AvFloat32 w \<Rightarrow> RvFloat (f64_from_f32 w)
      | AvFloat64 w \<Rightarrow> RvFloat w
      | AvWord64 w \<Rightarrow> (case t of DtTimestamp unit _ \<Rightarrow> RvInstant (subsecond_ns unit w) | _ \<Rightarrow> RvOther)
      | _ \<Rightarrow> RvOther)"

definition f64_is_negative :: "u64 \<Rightarrow> bool" where
  "f64_is_negative bits \<longleftrightarrow> bit bits 63"

definition f64_abs :: "u64 \<Rightarrow> u64" where
  "f64_abs bits = take_bit 63 bits"

text \<open>\<open>f64::lt\<close>: false with a NaN, the two zeros equal, the bits of the magnitude ordered.\<close>

definition f64_lt :: "u64 \<Rightarrow> u64 \<Rightarrow> bool" where
  "f64_lt a b \<longleftrightarrow> \<not> f64_is_nan a \<and> \<not> f64_is_nan b \<and> \<not> (f64_is_zero a \<and> f64_is_zero b) \<and>
     (if f64_is_negative a then (if f64_is_negative b then f64_abs b < f64_abs a else True)
      else \<not> f64_is_negative b \<and> a < b)"

definition u64_try_from :: "nat \<Rightarrow> u64" where
  "u64_try_from n = (if n < 2 ^ 64 then of_nat n else - 1)"

definition ends_with_space :: "string \<Rightarrow> bool" where
  "ends_with_space s \<longleftrightarrow> s \<noteq> [] \<and> last s = CHR '' ''"

fun rewrites_value :: "text_length_unit \<Rightarrow> store_rewrite \<Rightarrow> rewrite_value \<Rightarrow> bool" where
  "rewrites_value u EmptyToNull (RvText s) \<longleftrightarrow> s = []"
| "rewrites_value u EmptyToNull (RvBytes bs) \<longleftrightarrow> bs = []"
| "rewrites_value u (PadText n) (RvText s) \<longleftrightarrow> u64_try_from (text_length u s) < n"
| "rewrites_value u (PadBinary n) (RvBytes bs) \<longleftrightarrow> u64_try_from (length bs) < n"
| "rewrites_value u StripTrailing (RvText s) \<longleftrightarrow> ends_with_space s"
| "rewrites_value u (ExcessSpaces n) (RvText s) \<longleftrightarrow> ends_with_space s \<and> u64_try_from (length s) > n"
| "rewrites_value u StripTrailing (RvBytes bs) \<longleftrightarrow> bs \<noteq> [] \<and> last bs = 0"
| "rewrites_value u (Underflow min_abs) (RvFloat x) \<longleftrightarrow> \<not> f64_is_zero x \<and> f64_lt (f64_abs x) min_abs"
| "rewrites_value u NegativeZero (RvFloat x) \<longleftrightarrow> f64_is_zero x \<and> f64_is_negative x"
| "rewrites_value u (FractionalSeconds digits) (RvInstant ns) \<longleftrightarrow> ns mod 10 ^ (9 - min (unat digits) 9) \<noteq> 0"
| "rewrites_value u NonAscii (RvText s) \<longleftrightarrow> \<not> list_all (\<lambda>c. byte_of c < 128) s"
| "rewrites_value u JsonNumbers (RvText s) \<longleftrightarrow> has_rewritten_json_number s"
| "rewrites_value u _ _ \<longleftrightarrow> False"

text \<open>
  What \<open>value(row)\<close> of an array reads: the cell, or for a null slot what its buffer happens to hold, which Arrow leaves
  open: \<open>raw\<close>.
\<close>

definition slot_value :: "(arrow_array \<Rightarrow> nat \<Rightarrow> arrow_value) \<Rightarrow> arrow_array \<Rightarrow> nat \<Rightarrow> arrow_value" where
  "slot_value raw array r = (case aa_cells array ! r of None \<Rightarrow> raw array r | Some v \<Rightarrow> v)"

definition rewrites_in_unit ::
    "(arrow_array \<Rightarrow> nat \<Rightarrow> arrow_value) \<Rightarrow> store_rewrite \<Rightarrow> arrow_array \<Rightarrow> nat \<Rightarrow> text_length_unit \<Rightarrow> bool" where
  "rewrites_in_unit raw rw array r unit =
     (if rw = EveryValue then aa_cells array ! r \<noteq> None
      else rewrites_value unit rw (rewrite_value_of (aa_type array) (slot_value raw array r)))"

section \<open>The guard\<close>

record column_rewrites =
  cr_field :: nat
  cr_target_type :: string
  cr_rewrites :: "store_rewrite list"

record rewrite_guard =
  rg_provider :: provider_kind
  rg_columns :: "(column_rewrites \<times> bool) list"
  rg_strict :: bool
  rg_text_units :: "nat \<rightharpoonup> text_length_unit"

definition rewrite_internal :: "provider_kind \<Rightarrow> string \<Rightarrow> database_error" where
  "rewrite_internal provider message = error_new Internal PhPrepare (Some provider) message"

definition rewritten :: "provider_kind \<Rightarrow> bool \<Rightarrow> database_error" where
  "rewritten provider key = error_new DataMapping PhWrite (Some provider)
     (''scrittura rifiutata: '' @ (if key then REWRITTEN_KEY else REWRITTEN_VALUE))"

fun guard_columns ::
    "provider_kind \<Rightarrow> arrow_schema \<Rightarrow> string list \<Rightarrow> column_rewrites list \<Rightarrow> (column_rewrites \<times> bool) list result" where
  "guard_columns provider schema keys [] = Inr []"
| "guard_columns provider schema keys (column # columns) =
     (if cr_rewrites column = [] then guard_columns provider schema keys columns
      else if \<not> cr_field column < length schema
      then Inl (rewrite_internal provider ''regola S: colonna fuori dallo schema dell'ingresso'')
      else let field = schema ! cr_field column
           in if \<not> list_all (\<lambda>rw. rewrite_admits rw (af_type field)) (cr_rewrites column)
              then Inl (rewrite_internal provider ''regola S: riscrittura dichiarata su un tipo Arrow a cui non si applica'')
              else and_then (guard_columns provider schema keys columns) (\<lambda>rest.
                     Inr ((column, af_name field \<in> set keys) # rest)))"

definition rewrite_guard_new ::
    "provider_kind \<Rightarrow> arrow_schema \<Rightarrow> write_operation \<Rightarrow> column_rewrites list \<Rightarrow> rewrite_guard result" where
  "rewrite_guard_new provider schema operation columns =
     and_then (guard_columns provider schema (wr_keys operation) columns) (\<lambda>guarded.
       Inr \<lparr>rg_provider = provider, rg_columns = guarded,
            rg_strict = (wr_mapping_policy operation = Strict), rg_text_units = Map.empty\<rparr>)"

text \<open>Of two units given for a column the last one stays.\<close>

definition with_text_units :: "(nat \<times> text_length_unit) list \<Rightarrow> rewrite_guard \<Rightarrow> rewrite_guard" where
  "with_text_units units g = g\<lparr>rg_text_units := map_of (rev units)\<rparr>"

definition guard_is_empty :: "rewrite_guard \<Rightarrow> bool" where
  "guard_is_empty g \<longleftrightarrow> rg_columns g = []"

definition column_unit :: "rewrite_guard \<Rightarrow> column_rewrites \<Rightarrow> text_length_unit" where
  "column_unit g column = (case rg_text_units g (cr_field column) of None \<Rightarrow> TlCharacters | Some u \<Rightarrow> u)"

definition cell_rewritten ::
    "(arrow_array \<Rightarrow> nat \<Rightarrow> arrow_value) \<Rightarrow> rewrite_guard \<Rightarrow> record_batch \<Rightarrow> column_rewrites \<Rightarrow> nat \<Rightarrow> bool" where
  "cell_rewritten raw g batch column r =
     (let array = batch_columns batch ! cr_field column
      in aa_cells array ! r \<noteq> None
         \<and> list_ex (\<lambda>rw. rewrites_in_unit raw rw array r (column_unit g column)) (cr_rewrites column))"

fun check_columns ::
    "(arrow_array \<Rightarrow> nat \<Rightarrow> arrow_value) \<Rightarrow> rewrite_guard \<Rightarrow> record_batch \<Rightarrow> (column_rewrites \<times> bool) list \<Rightarrow> unit result" where
  "check_columns raw g batch [] = Inr ()"
| "check_columns raw g batch ((column, key) # rest) =
     (if \<not> key \<and> \<not> rg_strict g then check_columns raw g batch rest
      else if list_ex (cell_rewritten raw g batch column) [0..<batch_rows batch]
      then Inl (rewritten (rg_provider g) key)
      else check_columns raw g batch rest)"

definition guard_check :: "(arrow_array \<Rightarrow> nat \<Rightarrow> arrow_value) \<Rightarrow> rewrite_guard \<Rightarrow> record_batch \<Rightarrow> unit result" where
  "guard_check raw g batch = check_columns raw g batch (rg_columns g)"

definition field_id_of :: "nat \<Rightarrow> u32" where
  "field_id_of n = (if n < 2 ^ 32 then of_nat n else - 1)"

definition column_losses :: "column_rewrites \<Rightarrow> mapping_loss list" where
  "column_losses column =
     map (\<lambda>rw. \<lparr>ml_field_id = field_id_of (cr_field column), ml_category = rewrite_category rw,
               ml_severity = DataLoss, ml_reason = rewrite_reason rw, ml_source_type = None,
               ml_target_type = Some (cr_target_type column)\<rparr>) (cr_rewrites column)"

definition guard_losses :: "rewrite_guard \<Rightarrow> mapping_loss list" where
  "guard_losses g =
     (if rg_strict g then []
      else concat (map (\<lambda>(column, key). column_losses column) (filter (\<lambda>(column, key). \<not> key) (rg_columns g))))"

text \<open>\<open>RewriteStream::next_batch\<close>.\<close>

definition rewrite_next ::
    "(arrow_array \<Rightarrow> nat \<Rightarrow> arrow_value) \<Rightarrow> ('s \<Rightarrow> record_batch option result \<times> 's) \<Rightarrow> rewrite_guard \<Rightarrow> 's \<Rightarrow> record_batch option result \<times> 's" where
  "rewrite_next raw inner g s =
     (case inner s of
        (Inr (Some batch), s') \<Rightarrow> (and_then (guard_check raw g batch) (\<lambda>_. Inr (Some batch)), s')
      | (r, s') \<Rightarrow> (r, s'))"

text \<open>The wrapped stream, or the input as it is when no column has a rewrite.\<close>

definition guard_input ::
    "(arrow_array \<Rightarrow> nat \<Rightarrow> arrow_value) \<Rightarrow> ('s \<Rightarrow> record_batch option result \<times> 's) \<Rightarrow> rewrite_guard \<Rightarrow> 's \<Rightarrow> record_batch option result \<times> 's" where
  "guard_input raw inner g = (if guard_is_empty g then inner else rewrite_next raw inner g)"

end
