(* ===== verification/Store_Rewrite_Proofs.thy ===== *)
theory Store_Rewrite_Proofs
  imports Store_Rewrite
begin

text \<open>
  Rule S on the model: the JSON scan lets a document pass exactly when its numbers are canonical integers
  below ten to the fifteenth, and no rewrite a column declares goes unnoticed, refused or declared as a loss.
\<close>

section \<open>Canonical integers\<close>

lemma digit_char: "n < 10 \<Longrightarrow> is_ascii_digit (char_of (48 + n))" for n :: nat
  by (simp add: is_ascii_digit_def byte_of_digit)

lemma show_nat_0: "show_nat 0 = ''0''"
proof -
  have "byte_of CHR ''0'' = 48" by simp
  then have "char_of (48 :: nat) = CHR ''0''" by (metis char_of_char)
  then show ?thesis by (simp add: show_nat.simps)
qed

lemma show_nat_digits: "list_all is_ascii_digit (show_nat n) \<and> show_nat n \<noteq> []"
proof (induction n rule: show_nat.induct)
  case (1 n)
  then show ?case
    using digit_char [of n] digit_char [of "n mod 10"] by (cases "n < 10") (auto simp: show_nat.simps [of n])
qed

lemma show_nat_hd: "0 < n \<Longrightarrow> hd (show_nat n) \<noteq> CHR ''0''"
proof (induction n rule: show_nat.induct)
  case (1 n)
  show ?case
  proof (cases "n < 10")
    case True
    then have "byte_of (hd (show_nat n)) = 48 + n" by (simp add: show_nat.simps [of n] byte_of_digit)
    with 1(2) show ?thesis by auto
  next
    case False
    then show ?thesis using 1 show_nat_digits [of "n div 10"] by (simp add: show_nat.simps [of n])
  qed
qed

lemma show_nat_length: "length (show_nat n) \<le> k \<longleftrightarrow> 0 < k \<and> n < 10 ^ k"
proof (induction n arbitrary: k rule: show_nat.induct)
  case (1 n)
  show ?case
  proof (cases "n < 10")
    case True
    have "n < (10::nat) ^ k" if "0 < k"
      using True that power_increasing [of 1 k "10 :: nat"] by simp
    with True show ?thesis by (cases k) (auto simp: show_nat.simps [of n])
  next
    case False
    show ?thesis
    proof (cases k)
      case 0
      then show ?thesis using show_nat_digits [of n] by simp
    next
      case (Suc j)
      have "length (show_nat n) \<le> k \<longleftrightarrow> length (show_nat (n div 10)) \<le> j"
        using False Suc by (simp add: show_nat.simps [of n])
      also have "\<dots> \<longleftrightarrow> 0 < j \<and> n div 10 < 10 ^ j" using 1 [OF False] by simp
      also have "\<dots> \<longleftrightarrow> n < 10 ^ k"
      proof (cases j)
        case 0
        then show ?thesis using False Suc by simp
      next
        case (Suc i)
        then show ?thesis using \<open>k = Suc j\<close> by (auto simp: div_less_iff_less_mult mult.commute)
      qed
      finally show ?thesis using Suc by simp
    qed
  qed
qed

lemma read_nat_append: "read_nat (xs @ [c]) = 10 * read_nat xs + (byte_of c - 48)"
  by (simp add: read_nat_def)

lemma show_read_nat:
  "ds \<noteq> [] \<Longrightarrow> list_all is_ascii_digit ds \<Longrightarrow> ds = ''0'' \<or> hd ds \<noteq> CHR ''0'' \<Longrightarrow> show_nat (read_nat ds) = ds"
proof (induction ds rule: rev_induct)
  case (snoc c ds)
  obtain d where d: "byte_of c = 48 + d" "d < 10"
  proof
    show "byte_of c = 48 + (byte_of c - 48)" "byte_of c - 48 < 10"
      using snoc.prems by (auto simp: is_ascii_digit_def)
  qed
  then have c: "char_of (48 + d) = c" by (metis char_of_char)
  show ?case
  proof (cases "ds = []")
    case True
    then show ?thesis using c d by (simp add: read_nat_def show_nat.simps)
  next
    case False
    then have hd: "hd ds \<noteq> CHR ''0''" using snoc.prems by (cases ds) auto
    then have ds: "show_nat (read_nat ds) = ds" using snoc False by simp
    have "0 < read_nat ds"
    proof (rule ccontr)
      assume "\<not> 0 < read_nat ds"
      then have "ds = show_nat 0" using ds by simp
      then show False using hd by (simp add: show_nat_0)
    qed
    then show ?thesis using c d ds by (simp add: read_nat_append show_nat.simps [of "10 * read_nat ds + d"])
  qed
qed simp

text \<open>The numbers the scan lets pass are exactly the canonical decimal forms of small integers.\<close>

lemma short_digits:
  "ds \<noteq> [] \<and> length ds \<le> 15 \<and> list_all is_ascii_digit ds \<and> hd ds \<noteq> CHR ''0'' \<longleftrightarrow>
     (\<exists>n. 0 < n \<and> n < 10 ^ 15 \<and> ds = show_nat n)"
proof
  assume l: "ds \<noteq> [] \<and> length ds \<le> 15 \<and> list_all is_ascii_digit ds \<and> hd ds \<noteq> CHR ''0''"
  then have ds: "show_nat (read_nat ds) = ds" by (intro show_read_nat) auto
  then have "read_nat ds < 10 ^ 15" using l show_nat_length [of "read_nat ds" 15] by simp
  moreover have "0 < read_nat ds"
  proof (rule ccontr)
    assume "\<not> 0 < read_nat ds"
    then have "ds = show_nat 0" using ds by simp
    then show False using l by (simp add: show_nat_0)
  qed
  ultimately show "\<exists>n. 0 < n \<and> n < 10 ^ 15 \<and> ds = show_nat n" using ds by metis
next
  assume "\<exists>n. 0 < n \<and> n < 10 ^ 15 \<and> ds = show_nat n"
  then obtain n where n: "0 < n" "n < 10 ^ 15" "ds = show_nat n" by blast
  then show "ds \<noteq> [] \<and> length ds \<le> 15 \<and> list_all is_ascii_digit ds \<and> hd ds \<noteq> CHR ''0''"
    using show_nat_digits [of n] show_nat_hd [of n] show_nat_length [of n 15] by simp
qed

lemma short_integer_iff: "short_integer token \<longleftrightarrow> (\<exists>i. \<bar>i\<bar> < 10 ^ 15 \<and> token = show_int i)"
proof -
  have minus: "CHR ''-'' # ds = show_int i \<longleftrightarrow> i < 0 \<and> ds = show_nat (nat (- i))" for ds i
    using show_nat_digits [of "nat i"] by (cases "show_nat (nat i)") (auto simp: show_int_def is_ascii_digit_def)
  have plain: "token = show_int i \<longleftrightarrow> 0 \<le> i \<and> token = show_nat (nat i)" if "token = [] \<or> hd token \<noteq> CHR ''-''" for i
    using that by (auto simp: show_int_def)
  have "(\<exists>i. \<bar>i\<bar> < 10 ^ 15 \<and> i < 0 \<and> ds = show_nat (nat (- i))) \<longleftrightarrow> (\<exists>n. 0 < n \<and> n < 10 ^ 15 \<and> ds = show_nat n)" for ds
  proof safe
    fix i :: int assume "\<bar>i\<bar> < 10 ^ 15" "i < 0"
    then show "\<exists>n. 0 < n \<and> n < 10 ^ 15 \<and> show_nat (nat (- i)) = show_nat n" by (intro exI [of _ "nat (- i)"]) auto
  next
    fix n :: nat assume "0 < n" "n < 10 ^ 15"
    then show "\<exists>i. \<bar>i\<bar> < 10 ^ 15 \<and> i < 0 \<and> show_nat n = show_nat (nat (- i))" by (intro exI [of _ "- int n"]) auto
  qed
  note negative = this
  have positive: "(\<exists>i. \<bar>i\<bar> < 10 ^ 15 \<and> 0 \<le> i \<and> ds = show_nat (nat i)) \<longleftrightarrow> (\<exists>n. n < 10 ^ 15 \<and> ds = show_nat n)" for ds
  proof safe
    fix i :: int assume "\<bar>i\<bar> < 10 ^ 15" "0 \<le> i"
    then show "\<exists>n. n < 10 ^ 15 \<and> show_nat (nat i) = show_nat n" by (intro exI [of _ "nat i"]) auto
  next
    fix n :: nat assume "n < 10 ^ 15"
    then show "\<exists>i. \<bar>i\<bar> < 10 ^ 15 \<and> 0 \<le> i \<and> show_nat n = show_nat (nat i)" by (intro exI [of _ "int n"]) auto
  qed
  have any: "(\<exists>n. n < 10 ^ 15 \<and> ds = show_nat n) \<longleftrightarrow> ds = ''0'' \<or> (\<exists>n. 0 < n \<and> n < 10 ^ 15 \<and> ds = show_nat n)" for ds
    using show_nat_0 by (metis gr0I zero_less_numeral zero_less_power)
  show ?thesis
  proof (cases "\<exists>ds. token = CHR ''-'' # ds")
    case True
    then obtain ds where token: "token = CHR ''-'' # ds" by blast
    have "short_integer token \<longleftrightarrow> ds \<noteq> [] \<and> length ds \<le> 15 \<and> list_all is_ascii_digit ds \<and> hd ds \<noteq> CHR ''0''"
      by (auto simp: token short_integer_def Let_def)
    then show ?thesis unfolding short_digits token minus negative .
  next
    case False
    then have "short_integer token \<longleftrightarrow> token = ''0''
        \<or> (token \<noteq> [] \<and> length token \<le> 15 \<and> list_all is_ascii_digit token \<and> hd token \<noteq> CHR ''0'')"
      by (cases token) (auto simp: short_integer_def Let_def is_ascii_digit_def)
    moreover have "token = [] \<or> hd token \<noteq> CHR ''-''" using False by (cases token) auto
    ultimately show ?thesis unfolding short_digits any [symmetric] positive [symmetric] by (simp only: plain simp_thms)
  qed
qed

section \<open>The scan of a document\<close>

text \<open>
  A JSON text as its lexemes: strings with their escapes, numbers, and every other byte (punctuation, blanks,
  the letters of the literals).  In a JSON text a number is followed by a blank, a comma or a closing bracket.
\<close>

datatype string_unit = SuPlain char | SuEscape char

datatype lexeme = LxString "string_unit list" | LxNumber string | LxOther char

fun unit_text :: "string_unit \<Rightarrow> string" where
  "unit_text (SuPlain c) = [c]"
| "unit_text (SuEscape c) = [CHR 0x5C, c]"

fun lexeme_text :: "lexeme \<Rightarrow> string" where
  "lexeme_text (LxString us) = CHR 0x22 # concat (map unit_text us) @ [CHR 0x22]"
| "lexeme_text (LxNumber t) = t"
| "lexeme_text (LxOther c) = [c]"

definition document_text :: "lexeme list \<Rightarrow> string" where
  "document_text ls = concat (map lexeme_text ls)"

fun unit_ok :: "string_unit \<Rightarrow> bool" where
  "unit_ok (SuPlain c) \<longleftrightarrow> c \<noteq> CHR 0x22 \<and> c \<noteq> CHR 0x5C"
| "unit_ok (SuEscape c) \<longleftrightarrow> True"

definition number_start :: "char \<Rightarrow> bool" where
  "number_start c \<longleftrightarrow> c = CHR ''-'' \<or> is_ascii_digit c"

fun lexeme_ok :: "lexeme \<Rightarrow> bool" where
  "lexeme_ok (LxString us) \<longleftrightarrow> list_all unit_ok us"
| "lexeme_ok (LxNumber t) \<longleftrightarrow> t \<noteq> [] \<and> number_start (hd t) \<and> list_all is_number_byte t"
| "lexeme_ok (LxOther c) \<longleftrightarrow> c \<noteq> CHR 0x22 \<and> \<not> number_start c"

fun ends_number :: "lexeme list \<Rightarrow> bool" where
  "ends_number [] \<longleftrightarrow> True"
| "ends_number (LxString _ # _) \<longleftrightarrow> True"
| "ends_number (LxNumber _ # _) \<longleftrightarrow> False"
| "ends_number (LxOther c # _) \<longleftrightarrow> \<not> is_number_byte c"

fun document_ok :: "lexeme list \<Rightarrow> bool" where
  "document_ok [] \<longleftrightarrow> True"
| "document_ok (l # ls) \<longleftrightarrow> lexeme_ok l \<and> document_ok ls \<and> (\<forall>t. l = LxNumber t \<longrightarrow> ends_number ls)"

lemma skip_string_Cons:
  "skip_string (c # cs) =
     (if c = CHR 0x22 then cs else if c = CHR 0x5C then skip_string (tl cs) else skip_string cs)"
  by (cases cs) auto

lemma skip_string_units:
  "list_all unit_ok us \<Longrightarrow> skip_string (concat (map unit_text us) @ CHR 0x22 # rest) = rest"
proof (induction us)
  case (Cons u us)
  then show ?case by (cases u) (simp_all add: skip_string_Cons del: skip_string.simps)
qed (simp add: skip_string_Cons)

lemma number_prefix:
  assumes "list_all is_number_byte t" "ends_number ls" "document_ok ls"
  shows "takeWhile is_number_byte (t @ document_text ls) = t"
    and "dropWhile is_number_byte (t @ document_text ls) = document_text ls"
proof -
  have "document_text ls = [] \<or> \<not> is_number_byte (hd (document_text ls))"
    using assms(2,3) by (cases ls rule: ends_number.cases) (auto simp: document_text_def is_number_byte_def is_ascii_digit_def)
  then have stop: "takeWhile is_number_byte (document_text ls) = []" "dropWhile is_number_byte (document_text ls) = document_text ls"
    by (cases "document_text ls"; simp)+
  have t: "\<forall>c \<in> set t. is_number_byte c" using assms(1) by (simp add: list_all_iff)
  show "takeWhile is_number_byte (t @ document_text ls) = t" using t stop by (simp add: takeWhile_append2)
  show "dropWhile is_number_byte (t @ document_text ls) = document_text ls" using t stop by (simp add: dropWhile_append2)
qed

lemma number_step:
  assumes "number_start (hd t)" "t \<noteq> []" "list_all is_number_byte t" "ends_number ls" "document_ok ls"
  shows "has_rewritten_json_number (t @ document_text ls) \<longleftrightarrow>
    \<not> short_integer t \<or> has_rewritten_json_number (document_text ls)"
proof -
  obtain c cs where t: "t = c # cs" using assms(2) by (cases t) auto
  have "c \<noteq> CHR 0x22" "number_start c" using assms(1) by (auto simp: t number_start_def is_ascii_digit_def)
  then show ?thesis
    using number_prefix [OF assms(3-5)] has_rewritten_json_number.simps(2) [of c "cs @ document_text ls"]
    by (auto simp: t number_start_def)
qed

text \<open>C20: the JSON scan is exact on every document: a document counts as rewritten exactly when one of its numbers, outside
  its strings, is not the canonical decimal form of an integer of magnitude below ten to the fifteenth (so
  \<open>-0\<close>, fractions, exponents, leading zeros and long integers all count).\<close>

theorem json_numbers_exact:
  assumes "document_ok ls"
  shows "has_rewritten_json_number (document_text ls) \<longleftrightarrow>
    (\<exists>t. LxNumber t \<in> set ls \<and> (\<forall>i. \<bar>i\<bar> < 10 ^ 15 \<longrightarrow> t \<noteq> show_int i))"
proof -
  have "has_rewritten_json_number (document_text ls) \<longleftrightarrow> (\<exists>t. LxNumber t \<in> set ls \<and> \<not> short_integer t)"
    using assms
  proof (induction ls)
    case (Cons l ls)
    show ?case
    proof (cases l)
      case (LxString us)
      then have "skip_string (concat (map unit_text us) @ CHR 0x22 # document_text ls) = document_text ls"
        using Cons.prems by (simp add: skip_string_units)
      then show ?thesis using Cons LxString by (simp add: document_text_def)
    next
      case (LxNumber t)
      then show ?thesis using Cons number_step [of t ls] by (auto simp: document_text_def)
    next
      case (LxOther c)
      then show ?thesis using Cons by (auto simp: document_text_def number_start_def)
    qed
  qed (simp add: document_text_def)
  then show ?thesis by (auto simp: short_integer_iff)
qed

definition demo_document :: "lexeme list" where
  "demo_document = [LxOther CHR ''['', LxNumber ''-12'', LxOther CHR '','', LxString [SuPlain CHR ''1'', SuEscape CHR 0x22],
     LxOther CHR '','', LxNumber ''1e2'', LxOther CHR '']'']"

theorem json_numbers_exact_witness:
  "has_rewritten_json_number (document_text demo_document)
   \<longleftrightarrow> \<not> short_integer ''-12'' \<or> \<not> short_integer ''1e2''"
proof -
  have "document_ok demo_document"
    by (simp add: demo_document_def number_start_def is_number_byte_def is_ascii_digit_def)
  from json_numbers_exact [OF this] show ?thesis
    by (auto simp: demo_document_def short_integer_iff)
qed

section \<open>The guard\<close>

lemma guard_columns_Inr:
  "guard_columns provider schema keys columns = Inr guarded \<Longrightarrow>
   set guarded = (\<lambda>column. (column, af_name (schema ! cr_field column) \<in> set keys)) ` {column \<in> set columns. cr_rewrites column \<noteq> []}"
  by (induction columns arbitrary: guarded) (auto simp: and_then_eq_Inr Let_def split: if_splits)

lemma check_columns_Inr:
  "check_columns raw g batch cols = Inr () \<longleftrightarrow>
     (\<forall>(column, key) \<in> set cols. key \<or> rg_strict g \<longrightarrow> (\<forall>r < batch_rows batch. \<not> cell_rewritten raw g batch column r))"
  by (induction raw g batch cols rule: check_columns.induct) (auto simp: list_ex_iff)

lemma check_columns_Inl: "check_columns raw g batch cols = Inl e \<Longrightarrow> \<exists>key. e = rewritten (rg_provider g) key"
  by (induction raw g batch cols rule: check_columns.induct) (auto split: if_splits)

lemma rewritten_axes [simp]: "local_error (rewritten p key)" "e_category (rewritten p key) = DataMapping"
  by (simp_all add: rewritten_def)

definition protected_column :: "arrow_schema \<Rightarrow> write_operation \<Rightarrow> column_rewrites \<Rightarrow> bool" where
  "protected_column schema operation column \<longleftrightarrow>
     wr_mapping_policy operation = Strict \<or> af_name (schema ! cr_field column) \<in> set (wr_keys operation)"

text \<open>The loss the report owes for one rewrite of a column.\<close>

definition rewrite_loss :: "column_rewrites \<Rightarrow> store_rewrite \<Rightarrow> mapping_loss" where
  "rewrite_loss column rw =
     \<lparr>ml_field_id = field_id_of (cr_field column), ml_category = rewrite_category rw, ml_severity = DataLoss,
      ml_reason = rewrite_reason rw, ml_source_type = None, ml_target_type = Some (cr_target_type column)\<rparr>"

text \<open>C18: no rewrite is silent.  The guard of a write lets a batch pass exactly when no cell of a protected column (a key,
  or any column under \<open>Strict\<close>) would be rewritten, refuses otherwise with a local data mapping error, and
  for every value of any column that a declared rewrite would change either the batch is refused or the loss
  report declares that rewrite of that column.\<close>

theorem no_silent_rewrite:
  assumes "rewrite_guard_new provider schema operation columns = Inr g0" "g = with_text_units units g0"
  shows "(guard_check raw g batch = Inr () \<longleftrightarrow>
      (\<forall>column \<in> set columns. cr_rewrites column \<noteq> [] \<and> protected_column schema operation column \<longrightarrow>
         (\<forall>r < batch_rows batch. \<not> cell_rewritten raw g batch column r)))
    \<and> (\<forall>e. guard_check raw g batch = Inl e \<longrightarrow> local_error e \<and> e_category e = DataMapping)
    \<and> (\<forall>column \<in> set columns. \<forall>rw \<in> set (cr_rewrites column). \<forall>r < batch_rows batch.
         aa_cells (batch_columns batch ! cr_field column) ! r \<noteq> None
         \<and> rewrites_in_unit raw rw (batch_columns batch ! cr_field column) r (column_unit g column) \<longrightarrow>
         guard_check raw g batch \<noteq> Inr () \<or> rewrite_loss column rw \<in> set (guard_losses g))"
proof -
  obtain guarded where guarded: "guard_columns provider schema (wr_keys operation) columns = Inr guarded"
    and g: "rg_columns g = guarded" "rg_strict g = (wr_mapping_policy operation = Strict)"
    using assms by (auto simp: rewrite_guard_new_def and_then_eq_Inr with_text_units_def)
  have check: "guard_check raw g batch = Inr () \<longleftrightarrow>
      (\<forall>column \<in> set columns. cr_rewrites column \<noteq> [] \<and> protected_column schema operation column \<longrightarrow>
         (\<forall>r < batch_rows batch. \<not> cell_rewritten raw g batch column r))"
    unfolding guard_check_def check_columns_Inr g guard_columns_Inr [OF guarded] protected_column_def by auto
  have declared: "rewrite_loss column rw \<in> set (guard_losses g)"
    if "column \<in> set columns" "rw \<in> set (cr_rewrites column)" "\<not> protected_column schema operation column" for column rw
  proof -
    have "cr_rewrites column \<noteq> []" using that by auto
    then have "(column, False) \<in> set (rg_columns g)"
      using that guard_columns_Inr [OF guarded] by (auto simp: g protected_column_def)
    then have "set (column_losses column) \<subseteq> set (guard_losses g)"
      using that by (fastforce simp: guard_losses_def g protected_column_def)
    then show ?thesis using that by (auto simp: column_losses_def rewrite_loss_def)
  qed
  have changed: "cell_rewritten raw g batch column r"
    if "rw \<in> set (cr_rewrites column)"
      "aa_cells (batch_columns batch ! cr_field column) ! r \<noteq> None"
      "rewrites_in_unit raw rw (batch_columns batch ! cr_field column) r (column_unit g column)" for column rw r
    using that by (auto simp: cell_rewritten_def Let_def list_ex_iff)
  have silent: "guard_check raw g batch \<noteq> Inr () \<or> rewrite_loss column rw \<in> set (guard_losses g)"
    if "column \<in> set columns" "rw \<in> set (cr_rewrites column)" "r < batch_rows batch"
      "aa_cells (batch_columns batch ! cr_field column) ! r \<noteq> None"
      "rewrites_in_unit raw rw (batch_columns batch ! cr_field column) r (column_unit g column)" for column rw r
    using check declared [OF that(1,2)] changed [OF that(2,4,5)] that by (metis empty_iff list.set(1))
  have "local_error e \<and> e_category e = DataMapping" if "guard_check raw g batch = Inl e" for e
    using check_columns_Inl that unfolding guard_check_def by (metis rewritten_axes)
  with check silent show ?thesis by blast
qed

definition demo_write :: write_operation where
  "demo_write = \<lparr>wr_target = \<lparr>or_catalog = None, or_schema = None, or_object = ''t''\<rparr>, wr_mode = WmAppend,
     wr_mapping_policy = Compatible, wr_transaction_profile = SingleTransaction, wr_keys = [''k''],
     wr_update_columns = [], wr_srid_policy = None, wr_create_spatial_index = False, wr_allow_partial = False\<rparr>"

definition demo_rewrites :: "column_rewrites list" where
  "demo_rewrites = [\<lparr>cr_field = 0, cr_target_type = ''varchar2'', cr_rewrites = [EmptyToNull]\<rparr>,
     \<lparr>cr_field = 1, cr_target_type = ''varchar2'', cr_rewrites = [EmptyToNull]\<rparr>]"

definition demo_text_schema :: arrow_schema where
  "demo_text_schema = [\<lparr>af_name = ''k'', af_type = DtUtf8\<rparr>, \<lparr>af_name = ''v'', af_type = DtUtf8\<rparr>]"

definition demo_text_batch :: "string \<Rightarrow> string \<Rightarrow> record_batch" where
  "demo_text_batch k v = \<lparr>batch_rows = 1, batch_columns =
     [\<lparr>aa_type = DtUtf8, aa_cells = [Some (AvText k)]\<rparr>, \<lparr>aa_type = DtUtf8, aa_cells = [Some (AvText v)]\<rparr>]\<rparr>"

theorem no_silent_rewrite_witness:
  "let g = with_text_units [] (projr (rewrite_guard_new Oracle demo_text_schema demo_write demo_rewrites))
   in guard_check (\<lambda>_ _. AvText []) g (demo_text_batch ''a'' []) = Inr () \<and> guard_losses g \<noteq> []"
proof -
  obtain g0 where g0: "rewrite_guard_new Oracle demo_text_schema demo_write demo_rewrites = Inr g0"
    by (simp add: rewrite_guard_new_def demo_rewrites_def demo_text_schema_def is_text_type_def)
  let ?g = "with_text_units [] g0" and ?b = "demo_text_batch ''a'' []"
  note exact = no_silent_rewrite [OF g0 refl, of "\<lambda>_ _. AvText []" "[]" ?b]
  have "guard_check (\<lambda>_ _. AvText []) ?g ?b = Inr ()"
    using exact by (simp add: demo_rewrites_def protected_column_def demo_write_def demo_text_schema_def
        demo_text_batch_def cell_rewritten_def rewrites_in_unit_def slot_value_def rewrite_value_of_def)
  moreover from this have "guard_losses ?g \<noteq> []"
    using exact by (auto simp: demo_rewrites_def demo_text_batch_def rewrites_in_unit_def slot_value_def rewrite_value_of_def)
  ultimately show ?thesis by (simp add: g0 Let_def)
qed

end
