(* ===== verification/Write_Admission.thy ===== *)
theory Write_Admission
  imports Store_Rewrite
begin

text \<open>
  Rule A, \<open>plenora-database-core/src/write_admission.rs\<close>: a pair of an Arrow type and a target type may be
  written only when the measurements embedded for that server show how it stores values.  The decoding of the
  embedded JSON (\<open>strict_json::from_slice\<close>) is a parameter: its result is the decoded fixture.
\<close>

section \<open>The fixture\<close>

definition BATTERY_VERSION :: string where
  "BATTERY_VERSION = ''1''"

definition UNPROVEN_PAIR :: string where
  "UNPROVEN_PAIR = ''scrittura rifiutata: la coppia fra il tipo Arrow e il tipo del target non e misurata su questo server (regola A): non e provata, con nessuna politica''"

definition UNPROVEN_SERVER :: string where
  "UNPROVEN_SERVER = ''scrittura rifiutata: la versione del server non e misurata (regola A): nessuna coppia di tipi e provata, con nessuna politica''"

definition REFUSED_PAIR :: string where
  "REFUSED_PAIR = ''scrittura rifiutata: la misura della coppia fra il tipo Arrow e il tipo del target (regola A) non ha scritto e riletto alcun valore''"

definition INVALID_FIXTURE :: string where
  "INVALID_FIXTURE = ''fixture delle misure di scrittura (regola A) incorporato non valido: nessuna scrittura e provata''"

datatype measured_outcome = Esatto | Riscrive | Rifiuta | Illeggibile

datatype measured_rewrite =
  VuotoANull | RiempieTesto | RiempieBinario | ToglieFinali | SpaziOltre | MrUnderflow u64 | ZeroNegativo
| FrazioneSecondi u8 | MrNonAscii | JsonNumeri | Ogni

record measured_key =
  mk_arrow :: string
  mk_nativo :: string
  mk_dimensione :: "u64 option"
  mk_esito :: measured_outcome
  mk_riscritture :: "measured_rewrite list"
  mk_riscritti :: "string list"
  mk_rifiutati :: "string list"
  mk_per_eccesso :: "string list"

record server_measurement =
  sm_server_major :: string
  sm_server_version :: string
  sm_immagine :: string
  sm_batteria :: string
  sm_chiavi :: "measured_key list"

record admission_fixture =
  fx_schema_version :: u32
  fx_provider :: string
  fx_misure :: "server_measurement list"

record target_dimensions =
  td_chars :: "u64 option"
  td_bytes :: "u64 option"

record admission_key =
  ak_arrow :: string
  ak_nativo :: string
  ak_dimensione :: "u64 option"

record admission_table =
  at_provider :: provider_kind
  at_fixture :: admission_fixture

record server_admission =
  sa_provider :: provider_kind
  sa_measurement :: server_measurement

fun provider_name :: "provider_kind \<Rightarrow> string" where
  "provider_name Postgres = ''postgres''"
| "provider_name Mysql = ''mysql''"
| "provider_name Mariadb = ''mariadb''"
| "provider_name Sqlserver = ''sqlserver''"
| "provider_name Oracle = ''oracle''"
| "provider_name Db2 = ''db2''"
| "provider_name Sqlite = ''sqlite''"
| "provider_name Duckdb = ''duckdb''"

definition unproven :: "provider_kind \<Rightarrow> string \<Rightarrow> database_error" where
  "unproven provider message = error_new Unsupported PhPrepare (Some provider) message"

definition invalid_fixture :: "provider_kind \<Rightarrow> database_error" where
  "invalid_fixture provider = error_new Internal PhPrepare (Some provider) INVALID_FIXTURE"

definition key_coherent :: "measured_key \<Rightarrow> bool" where
  "key_coherent key \<longleftrightarrow>
     (case mk_esito key of
        Esatto \<Rightarrow> mk_riscritture key = [] \<and> mk_riscritti key = []
      | Riscrive \<Rightarrow> mk_riscritture key \<noteq> [] \<and> mk_riscritti key \<noteq> []
      | Rifiuta \<Rightarrow> mk_riscritture key = []
      | Illeggibile \<Rightarrow> mk_riscritture key = [])"

fun check_keys :: "provider_kind \<Rightarrow> (string \<times> string \<times> u64 option) set \<Rightarrow> measured_key list \<Rightarrow> unit result" where
  "check_keys provider keys [] = Inr ()"
| "check_keys provider keys (key # rest) =
     (if (mk_arrow key, mk_nativo key, mk_dimensione key) \<in> keys then Inl (invalid_fixture provider)
      else if \<not> key_coherent key then Inl (invalid_fixture provider)
      else check_keys provider (insert (mk_arrow key, mk_nativo key, mk_dimensione key) keys) rest)"

fun check_measurements :: "provider_kind \<Rightarrow> string set \<Rightarrow> server_measurement list \<Rightarrow> unit result" where
  "check_measurements provider majors [] = Inr ()"
| "check_measurements provider majors (m # rest) =
     (if sm_batteria m \<noteq> BATTERY_VERSION \<or> sm_server_major m \<in> majors then Inl (invalid_fixture provider)
      else and_then (check_keys provider {} (sm_chiavi m)) (\<lambda>_.
             check_measurements provider (insert (sm_server_major m) majors) rest))"

definition admission_parse ::
    "(u8 list \<Rightarrow> admission_fixture option) \<Rightarrow> provider_kind \<Rightarrow> u8 list \<Rightarrow> admission_table result" where
  "admission_parse from_slice provider bytes =
     and_then (ok_or (from_slice bytes) (invalid_fixture provider)) (\<lambda>fixture.
       if fx_schema_version fixture \<noteq> 1 \<or> fx_provider fixture \<noteq> provider_name provider
       then Inl (invalid_fixture provider)
       else and_then (check_measurements provider {} (fx_misure fixture)) (\<lambda>_.
              Inr \<lparr>at_provider = provider, at_fixture = fixture\<rparr>))"

definition admission_server :: "admission_table \<Rightarrow> string \<Rightarrow> server_admission result" where
  "admission_server table server_major =
     ok_or (map_option (\<lambda>m. \<lparr>sa_provider = at_provider table, sa_measurement = m\<rparr>)
              (List.find (\<lambda>m. sm_server_major m = server_major) (fx_misure (at_fixture table))))
       (unproven (at_provider table) UNPROVEN_SERVER)"

section \<open>Admission of a pair\<close>

definition missing_length :: "provider_kind \<Rightarrow> database_error" where
  "missing_length provider = error_new Internal PhPrepare (Some provider)
     ''regola A: classe di riscrittura misurata senza la lunghezza del target''"

fun instantiate :: "provider_kind \<Rightarrow> target_dimensions \<Rightarrow> measured_rewrite \<Rightarrow> store_rewrite result" where
  "instantiate provider d VuotoANull = Inr EmptyToNull"
| "instantiate provider d RiempieTesto =
     and_then (ok_or (td_chars d) (missing_length provider)) (\<lambda>n. Inr (PadText n))"
| "instantiate provider d RiempieBinario =
     and_then (ok_or (td_bytes d) (missing_length provider)) (\<lambda>n. Inr (PadBinary n))"
| "instantiate provider d ToglieFinali = Inr StripTrailing"
| "instantiate provider d SpaziOltre =
     and_then (ok_or (td_bytes d) (missing_length provider)) (\<lambda>n. Inr (ExcessSpaces n))"
| "instantiate provider d (MrUnderflow min_abs) = Inr (Underflow min_abs)"
| "instantiate provider d ZeroNegativo = Inr NegativeZero"
| "instantiate provider d (FrazioneSecondi cifre) = Inr (FractionalSeconds cifre)"
| "instantiate provider d MrNonAscii = Inr NonAscii"
| "instantiate provider d JsonNumeri = Inr JsonNumbers"
| "instantiate provider d Ogni = Inr EveryValue"

definition measured_pairs :: "server_admission \<Rightarrow> admission_key \<Rightarrow> measured_key list" where
  "measured_pairs sa key =
     filter (\<lambda>c. mk_arrow c = ak_arrow key \<and> mk_nativo c = ak_nativo key) (sm_chiavi (sa_measurement sa))"

fun all_lengths :: "measured_key list \<Rightarrow> u64 list option" where
  "all_lengths [] = Some []"
| "all_lengths (k # ks) =
     (case mk_dimensione k of
        None \<Rightarrow> None
      | Some n \<Rightarrow> map_option (\<lambda>ns. n # ns) (all_lengths ks))"

definition check_dimension :: "provider_kind \<Rightarrow> measured_key list \<Rightarrow> u64 option \<Rightarrow> unit result" where
  "check_dimension provider measured dimension =
     (case dimension of
        None \<Rightarrow> if length measured \<noteq> 1 \<or> mk_dimensione (hd measured) \<noteq> None
                then Inl (unproven provider UNPROVEN_PAIR) else Inr ()
      | Some n \<Rightarrow>
          and_then (ok_or (all_lengths measured) (unproven provider UNPROVEN_PAIR)) (\<lambda>lengths.
            if lengths = [] then Inl (unproven provider UNPROVEN_PAIR)
            else if n < fold min (tl lengths) (hd lengths) \<or> n > fold max (tl lengths) (hd lengths)
            then Inl (unproven provider UNPROVEN_PAIR) else Inr ()))"

text \<open>The \<open>contains\<close> of a class is \<open>PartialEq\<close>; an underflow threshold is positive and finite.\<close>

fun union_classes :: "measured_rewrite list \<Rightarrow> measured_rewrite list \<Rightarrow> measured_rewrite list" where
  "union_classes classes [] = classes"
| "union_classes classes (rw # rest) =
     (if rw \<in> set classes then union_classes classes rest else union_classes (classes @ [rw]) rest)"

definition admit_pair :: "server_admission \<Rightarrow> admission_key \<Rightarrow> target_dimensions \<Rightarrow> store_rewrite list result" where
  "admit_pair sa key dimensions =
     (let provider = sa_provider sa; measured = measured_pairs sa key
      in if measured = [] then Inl (unproven provider UNPROVEN_PAIR)
         else and_then (check_dimension provider measured (ak_dimensione key)) (\<lambda>_.
           if list_ex (\<lambda>c. mk_esito c = Rifiuta \<or> mk_esito c = Illeggibile) measured
           then Inl (unproven provider REFUSED_PAIR)
           else try_collect (instantiate provider dimensions)
                  (union_classes [] (concat (map mk_riscritture measured)))))"

definition declares_losses :: "mapping_policy \<Rightarrow> bool" where
  "declares_losses policy \<longleftrightarrow> policy \<noteq> Strict"

section \<open>The key of an Arrow type\<close>

fun unit_key :: "time_unit \<Rightarrow> string" where
  "unit_key TuSecond = ''s''"
| "unit_key TuMillisecond = ''ms''"
| "unit_key TuMicrosecond = ''us''"
| "unit_key TuNanosecond = ''ns''"

fun arrow_key :: "data_type \<Rightarrow> string" where
  "arrow_key DtBoolean = ''bool''"
| "arrow_key DtInt8 = ''int8''"
| "arrow_key DtInt16 = ''int16''"
| "arrow_key DtInt32 = ''int32''"
| "arrow_key DtInt64 = ''int64''"
| "arrow_key DtUInt8 = ''uint8''"
| "arrow_key DtUInt16 = ''uint16''"
| "arrow_key DtUInt32 = ''uint32''"
| "arrow_key DtUInt64 = ''uint64''"
| "arrow_key DtFloat16 = ''float16''"
| "arrow_key DtFloat32 = ''float32''"
| "arrow_key DtFloat64 = ''float64''"
| "arrow_key (DtDecimal128 p s) = ''decimal128('' @ show_nat p @ '','' @ show_int s @ '')''"
| "arrow_key (DtDecimal256 p s) = ''decimal256('' @ show_nat p @ '','' @ show_int s @ '')''"
| "arrow_key DtUtf8 = ''utf8''"
| "arrow_key DtLargeUtf8 = ''large_utf8''"
| "arrow_key DtBinary = ''binary''"
| "arrow_key DtLargeBinary = ''large_binary''"
| "arrow_key (DtFixedSizeBinary n) = ''fixed_size_binary('' @ show_nat n @ '')''"
| "arrow_key DtDate32 = ''date32''"
| "arrow_key DtDate64 = ''date64''"
| "arrow_key (DtTime32 u) = ''time32['' @ unit_key u @ '']''"
| "arrow_key (DtTime64 u) = ''time64['' @ unit_key u @ '']''"
| "arrow_key (DtTimestamp u None) = ''timestamp['' @ unit_key u @ '']''"
| "arrow_key (DtTimestamp u (Some zone)) = ''timestamp['' @ unit_key u @ '','' @ zone @ '']''"
| "arrow_key (DtOther debug) = debug"

section \<open>Lemmas\<close>

lemma all_lengths_Some: "all_lengths ks = Some ns \<longleftrightarrow> map mk_dimensione ks = map Some ns"
proof (induction ks arbitrary: ns)
  case (Cons k ks)
  then show ?case by (cases ns; cases "mk_dimensione k") auto
qed auto

lemma set_union_classes: "set (union_classes cs rws) = set cs \<union> set rws"
  by (induction cs rws rule: union_classes.induct) auto

lemma distinct_union_classes: "distinct cs \<Longrightarrow> distinct (union_classes cs rws)"
  by (induction cs rws rule: union_classes.induct) auto

lemma fold_min_in: "fold min xs a \<in> insert (a :: 'a::linorder) (set xs)"
proof (induction xs arbitrary: a)
  case (Cons x xs)
  then show ?case using Cons.IH [of "min x a"] by (auto simp: min_def)
qed simp

lemma fold_max_in: "fold max xs a \<in> insert (a :: 'a::linorder) (set xs)"
proof (induction xs arbitrary: a)
  case (Cons x xs)
  then show ?case using Cons.IH [of "max x a"] by (auto simp: max_def)
qed simp

text \<open>A length within the measured ones lies between two measured lengths of the pair.\<close>

definition dimension_measured :: "measured_key list \<Rightarrow> u64 option \<Rightarrow> bool" where
  "dimension_measured measured dimension \<longleftrightarrow>
     (case dimension of
        None \<Rightarrow> (\<exists>k. measured = [k] \<and> mk_dimensione k = None)
      | Some n \<Rightarrow> (\<forall>k \<in> set measured. mk_dimensione k \<noteq> None)
          \<and> (\<exists>lo \<in> set measured. \<exists>hi \<in> set measured. the (mk_dimensione lo) \<le> n \<and> n \<le> the (mk_dimensione hi)))"

lemma check_dimension_Inr:
  assumes "check_dimension p measured dimension = Inr ()"
  shows "dimension_measured measured dimension"
proof (cases dimension)
  case None
  then show ?thesis using assms
    by (cases measured) (auto simp: check_dimension_def dimension_measured_def split: if_splits)
next
  case (Some n)
  then obtain ns where ns: "map mk_dimensione measured = map Some ns" "ns \<noteq> []"
    and range: "fold min (tl ns) (hd ns) \<le> n" "n \<le> fold max (tl ns) (hd ns)"
    using assms by (auto simp: check_dimension_def and_then_eq_Inr ok_or_eq_Inr all_lengths_Some split: if_splits)
  have in_ns: "\<exists>k \<in> set measured. mk_dimensione k = Some x" if "x \<in> set ns" for x
  proof -
    have "Some x \<in> set (map Some ns)" using that by simp
    then show ?thesis unfolding ns(1) [symmetric] by auto
  qed
  have hd_tl: "insert (hd ns) (set (tl ns)) = set ns" using ns(2) by (cases ns) auto
  then obtain lo hi where "lo \<in> set measured" "mk_dimensione lo = Some (fold min (tl ns) (hd ns))"
    "hi \<in> set measured" "mk_dimensione hi = Some (fold max (tl ns) (hd ns))"
    using in_ns fold_min_in [of "tl ns" "hd ns"] fold_max_in [of "tl ns" "hd ns"] by metis
  moreover have "\<forall>k \<in> set measured. mk_dimensione k \<noteq> None"
  proof
    fix k assume "k \<in> set measured"
    then have "mk_dimensione k \<in> set (map Some ns)" unfolding ns(1) [symmetric] by simp
    then show "mk_dimensione k \<noteq> None" by auto
  qed
  ultimately show ?thesis using range unfolding Some dimension_measured_def option.case by (metis option.sel)
qed

lemma instantiate_refuses: "refuses_locally (instantiate p d rw)"
  by (cases rw) (auto simp: refuses_locally_def missing_length_def and_then_eq_Inl ok_or_eq_Inl)

lemma try_collect_refuses: "(\<And>x. refuses_locally (f x)) \<Longrightarrow> refuses_locally (try_collect f xs)"
  by (induction xs) (auto intro: refusal_intros)

lemma check_keys_Inr:
  "check_keys p seen ks = Inr () \<Longrightarrow> (\<forall>k \<in> set ks. key_coherent k)"
  by (induction p seen ks rule: check_keys.induct) (auto split: if_splits)

lemma check_measurements_Inr:
  "check_measurements p seen ms = Inr () \<Longrightarrow> (\<forall>m \<in> set ms. \<forall>k \<in> set (sm_chiavi m). key_coherent k)"
  by (induction p seen ms rule: check_measurements.induct)
    (auto simp: and_then_eq_Inr dest: check_keys_Inr split: if_splits)

section \<open>Properties\<close>

text \<open>C21: nothing is written on trust.  A pair of types is admitted only on measurements of that very pair on that very
  server: none of them refused or unreadable, the target's length between two measured lengths; and the rewrites
  handed to rule S are those of every class measured at any length, each with the target's length, and
  none exactly when every measurement stored all values exactly.  A refusal is local.  Lengths measured with
  different classes are admitted with the union of their classes, as the comment inside \<open>admit\<close> says and its
  documentation, which announces a refusal there, does not.\<close>

theorem admitted_pairs_are_measured:
  assumes "admission_parse from_slice provider bytes = Inr table" "admission_server table major = Inr sa"
  shows "refuses_locally (admit_pair sa key dimensions)
    \<and> (\<forall>rws. admit_pair sa key dimensions = Inr rws \<longrightarrow>
        (let measured = measured_pairs sa key
         in measured \<noteq> [] \<and> sm_server_major (sa_measurement sa) = major
            \<and> sa_measurement sa \<in> set (fx_misure (at_fixture table))
            \<and> dimension_measured measured (ak_dimensione key)
            \<and> (\<forall>k \<in> set measured. mk_esito k = Esatto \<or> mk_esito k = Riscrive)
            \<and> Inr ` set rws = instantiate provider dimensions ` (\<Union>k \<in> set measured. set (mk_riscritture k))
            \<and> (rws = [] \<longleftrightarrow> (\<forall>k \<in> set measured. mk_esito k = Esatto))))"
proof (intro conjI allI impI)
  have provider: "sa_provider sa = provider" and measurement: "sa_measurement sa \<in> set (fx_misure (at_fixture table))"
    "sm_server_major (sa_measurement sa) = major"
    using assms by (auto simp: admission_server_def admission_parse_def ok_or_eq_Inr and_then_eq_Inr find_Some_iff
        split: if_splits)
  have "check_measurements provider {} (fx_misure (at_fixture table)) = Inr ()"
    using assms(1) by (auto simp: admission_parse_def and_then_eq_Inr split: if_splits)
  then have coherent: "\<forall>k \<in> set (measured_pairs sa key). key_coherent k"
    using check_measurements_Inr measurement by (auto simp: measured_pairs_def)
  show "refuses_locally (admit_pair sa key dimensions)"
    unfolding admit_pair_def Let_def check_dimension_def
    by (intro refusal_intros try_collect_refuses instantiate_refuses; simp add: unproven_def)
  fix rws assume "admit_pair sa key dimensions = Inr rws"
  then have measured: "measured_pairs sa key \<noteq> []"
      "check_dimension provider (measured_pairs sa key) (ak_dimensione key) = Inr ()"
      "\<forall>k \<in> set (measured_pairs sa key). mk_esito k \<noteq> Rifiuta \<and> mk_esito k \<noteq> Illeggibile"
    and rws: "try_collect (instantiate provider dimensions)
      (union_classes [] (concat (map mk_riscritture (measured_pairs sa key)))) = Inr rws"
    by (auto simp: admit_pair_def Let_def provider and_then_eq_Inr list_ex_iff split: if_splits)
  have outcomes: "\<forall>k \<in> set (measured_pairs sa key). mk_esito k = Esatto \<or> mk_esito k = Riscrive"
    using measured(3) by (metis measured_outcome.exhaust)
  let ?classes = "union_classes [] (concat (map mk_riscritture (measured_pairs sa key)))"
  have classes: "set ?classes = (\<Union>k \<in> set (measured_pairs sa key). set (mk_riscritture k))"
    by (simp add: set_union_classes)
  have "map Inr rws = map (instantiate provider dimensions) ?classes"
    using try_collect_Inr [OF rws] by (intro nth_equalityI) auto
  then have image: "Inr ` set rws = instantiate provider dimensions ` set ?classes" by (metis list.set_map)
  moreover have "rws = [] \<longleftrightarrow> set ?classes = {}" using try_collect_Inr [OF rws] by auto
  moreover have "set ?classes = {} \<longleftrightarrow> (\<forall>k \<in> set (measured_pairs sa key). mk_esito k = Esatto)"
    using outcomes coherent unfolding classes key_coherent_def by (fastforce split: measured_outcome.splits)
  ultimately show "let measured = measured_pairs sa key
         in measured \<noteq> [] \<and> sm_server_major (sa_measurement sa) = major
            \<and> sa_measurement sa \<in> set (fx_misure (at_fixture table))
            \<and> dimension_measured measured (ak_dimensione key)
            \<and> (\<forall>k \<in> set measured. mk_esito k = Esatto \<or> mk_esito k = Riscrive)
            \<and> Inr ` set rws = instantiate provider dimensions ` (\<Union>k \<in> set measured. set (mk_riscritture k))
            \<and> (rws = [] \<longleftrightarrow> (\<forall>k \<in> set measured. mk_esito k = Esatto))"
    using measured(1) measurement check_dimension_Inr [OF measured(2)] outcomes classes by (simp add: Let_def)
qed

definition demo_measured :: "u64 \<Rightarrow> measured_outcome \<Rightarrow> measured_rewrite list \<Rightarrow> measured_key" where
  "demo_measured n esito rws = \<lparr>mk_arrow = ''utf8'', mk_nativo = ''char'', mk_dimensione = Some n, mk_esito = esito,
     mk_riscritture = rws, mk_riscritti = map (\<lambda>_. ''a'') rws, mk_rifiutati = [], mk_per_eccesso = []\<rparr>"

definition demo_fixture :: admission_fixture where
  "demo_fixture = \<lparr>fx_schema_version = 1, fx_provider = ''oracle'', fx_misure =
     [\<lparr>sm_server_major = ''23'', sm_server_version = ''23.5'', sm_immagine = ''i'', sm_batteria = ''1'',
       sm_chiavi = [demo_measured 1 Esatto [], demo_measured 30 Riscrive [RiempieTesto]]\<rparr>]\<rparr>"

theorem admitted_pairs_are_measured_witness:
  "let sa = projr (admission_server \<lparr>at_provider = Oracle, at_fixture = demo_fixture\<rparr> ''23'');
       key = \<lparr>ak_arrow = ''utf8'', ak_nativo = ''char'', ak_dimensione = Some 10\<rparr>
   in admit_pair sa key \<lparr>td_chars = Some 10, td_bytes = None\<rparr> = Inr [PadText 10]
      \<and> dimension_measured (measured_pairs sa key) (Some 10)"
proof -
  let ?table = "\<lparr>at_provider = Oracle, at_fixture = demo_fixture\<rparr>"
  let ?key = "\<lparr>ak_arrow = ''utf8'', ak_nativo = ''char'', ak_dimensione = Some 10\<rparr>"
  have parse: "admission_parse (\<lambda>_. Some demo_fixture) Oracle [] = Inr ?table"
    by (simp add: admission_parse_def demo_fixture_def demo_measured_def key_coherent_def BATTERY_VERSION_def)
  obtain sa where sa: "admission_server ?table ''23'' = Inr sa"
    by (simp add: admission_server_def demo_fixture_def)
  have pairs: "measured_pairs sa ?key = [demo_measured 1 Esatto [], demo_measured 30 Riscrive [RiempieTesto]]"
    and provider: "sa_provider sa = Oracle"
    using sa by (auto simp: admission_server_def demo_fixture_def measured_pairs_def demo_measured_def)
  have run: "admit_pair sa ?key \<lparr>td_chars = Some 10, td_bytes = None\<rparr> = Inr [PadText 10]"
    unfolding admit_pair_def pairs provider
    by (simp add: check_dimension_def demo_measured_def)
  with admitted_pairs_are_measured [OF parse sa, of ?key "\<lparr>td_chars = Some 10, td_bytes = None\<rparr>"]
  show ?thesis by (simp add: sa Let_def)
qed

end
