(* ===== verification/Spatial_Policy.thy ===== *)
theory Spatial_Policy
  imports Row Ewkb Query_Validation
begin

text \<open>
  The portable spatial profile: \<open>SpatialPredicate\<close> and \<open>SpatialReference\<close> of
  \<open>plenora-database-core/src/spatial_predicate.rs\<close>, with the check of a reference against its own EWKB,
  and the policy of \<open>spatial_policy.rs\<close>: which predicate a provider admits on which semantics and SRID.
  A distance is the 64 bits of an \<open>f64\<close>.
\<close>

section \<open>Predicates and references\<close>

datatype spatial_predicate = SpIntersects | SpContains | SpWithin | SpDWithin u64 | SpBoundingBox

definition requires_distance :: "spatial_predicate \<Rightarrow> bool" where
  "requires_distance p = (case p of SpDWithin _ \<Rightarrow> True | _ \<Rightarrow> False)"

text \<open>\<open>x < 0.0\<close> on a finite \<open>f64\<close>: the sign bit is set and the magnitude is not zero.\<close>

definition f64_below_zero :: "u64 \<Rightarrow> bool" where
  "f64_below_zero x \<longleftrightarrow> bit x 63 \<and> take_bit 63 x \<noteq> 0"

record spatial_reference =
  sr_ewkb :: "u8 list"
  sr_srid :: u32
  sr_dimensions :: dimensions
  sr_semantics :: spatial_semantics

fun declared_dimensions_label :: "dimensions \<Rightarrow> string" where
  "declared_dimensions_label Xy = ''xy''"
| "declared_dimensions_label Xyz = ''xyz''"
| "declared_dimensions_label Xym = ''xym''"
| "declared_dimensions_label Xyzm = ''xyzm''"
| "declared_dimensions_label DimUnknown = ''unknown''"

definition show_srid :: "u32 \<Rightarrow> string" where
  "show_srid srid = show_nat (unat srid)"

definition reference_validate :: "spatial_reference \<Rightarrow> unit result" where
  "reference_validate r =
     and_then (inspect_ewkb_detailed (sr_ewkb r) (- 1) (- 1)) (\<lambda>inspection.
     and_then
       (case em_srid (ei_root inspection) of
          None \<Rightarrow> Inr ()
        | Some embedded \<Rightarrow>
            refuse_if (embedded \<noteq> sr_srid r)
              (''SRID divergente: dichiarato '' @ show_srid (sr_srid r) @ '', embedded nell'EWKB ''
               @ show_srid embedded @ ''. Ri-serializza l'EWKB con SRID '' @ show_srid (sr_srid r)
               @ '' o correggi la dichiarazione.'')) (\<lambda>_.
     if sr_dimensions r \<noteq> DimUnknown
     then let embedded_label = dimensions_label (ei_root inspection);
              declared_label = declared_dimensions_label (sr_dimensions r)
          in refuse_if (embedded_label \<noteq> declared_label)
               (''dimensioni EWKB divergenti: dichiarato `'' @ declared_label @ ''`, embedded `''
                @ embedded_label @ ''`. Il consumer deve produrre EWKB coerente col contratto.'')
     else Inr ()))"

definition new_validated :: "u8 list \<Rightarrow> u32 \<Rightarrow> dimensions \<Rightarrow> spatial_semantics \<Rightarrow> spatial_reference result" where
  "new_validated ewkb srid dims semantics =
     (let candidate = \<lparr>sr_ewkb = ewkb, sr_srid = srid, sr_dimensions = dims, sr_semantics = semantics\<rparr>
      in and_then (reference_validate candidate) (\<lambda>_. Inr candidate))"

section \<open>Policy\<close>

definition GEOGRAPHIC_SRIDS :: "u32 list" where
  "GEOGRAPHIC_SRIDS = [4326, 4269, 4267, 4258, 4283]"

definition is_geographic_srid :: "u32 \<Rightarrow> bool" where
  "is_geographic_srid srid \<longleftrightarrow> srid \<in> set GEOGRAPHIC_SRIDS"

definition postgres_cast_for :: "spatial_semantics \<Rightarrow> string" where
  "postgres_cast_for s = (case s of Geometry \<Rightarrow> ''::geometry'' | Geography \<Rightarrow> ''::geography'')"

definition validate_oracle :: "spatial_predicate \<Rightarrow> spatial_reference \<Rightarrow> unit result" where
  "validate_oracle p r =
     (if sr_semantics r = Geography \<and> \<not> is_geographic_srid (sr_srid r)
      then Inl (invalid_plan ''geography Oracle richiede un SRID geografico qualificato'')
      else case p of
        SpDWithin _ \<Rightarrow>
          if is_geographic_srid (sr_srid r) then Inr ()
          else Inl (unsupported Oracle PhPrepare
                 ''DWithin Oracle in metri e qualificato soltanto per un SRID geografico noto'')
      | _ \<Rightarrow> Inr ())"

definition validate_db2 :: "spatial_predicate \<Rightarrow> spatial_reference \<Rightarrow> unit result" where
  "validate_db2 p r =
     (if sr_semantics r \<noteq> Geometry
      then Inl (unsupported Db2 PhPrepare
             ''Db2 Spatial Analytics e qualificato soltanto con semantica geometry'')
      else if p \<in> {SpIntersects, SpContains, SpWithin} then Inr ()
      else Inl (unsupported Db2 PhPrepare ''il predicato spatial richiesto non e qualificato per Db2''))"

definition validate_sqlserver :: "spatial_predicate \<Rightarrow> unit result" where
  "validate_sqlserver p =
     (case p of
        SpDWithin _ \<Rightarrow> Inl (unsupported Sqlserver PhPrepare
          (''STDWithin non esiste in T-SQL, su nessuna delle due semantiche. La forma con ''
           @ ''             STDistance confronterebbe i metri del contratto con le unita del sistema di ''
           @ ''             riferimento su una colonna geometry: usa Intersects su un buffer costruito dal ''
           @ ''             chiamante.''))
      | _ \<Rightarrow> Inr ())"

definition validate_postgres :: "spatial_predicate \<Rightarrow> spatial_reference \<Rightarrow> unit result" where
  "validate_postgres p r =
     (case p of
        SpBoundingBox \<Rightarrow>
          if sr_semantics r = Geography
          then Inl (unsupported Postgres PhPrepare
            (''BoundingBox con SpatialSemantics::Geography non supportato (operator && '' @ [CHR 0xC3, CHR 0xA8] @ '' solo geometry). Usa Intersects.''))
          else Inr ()
      | SpContains \<Rightarrow>
          if sr_semantics r = Geography
          then Inl (unsupported Postgres PhPrepare
            (''ST_Contains non supportato per SpatialSemantics::Geography (PostGIS espone Contains ''
             @ ''solo per geometry). Riproietta su geometry o usa ST_Covers/ST_Intersects.''))
          else Inr ()
      | SpWithin \<Rightarrow>
          if sr_semantics r = Geography
          then Inl (unsupported Postgres PhPrepare
            (''ST_Within non supportato per SpatialSemantics::Geography (PostGIS espone Within ''
             @ ''solo per geometry). Riproietta su geometry o usa ST_CoveredBy/ST_Intersects.''))
          else Inr ()
      | SpDWithin _ \<Rightarrow>
          refuse_if (sr_semantics r = Geometry \<and> is_geographic_srid (sr_srid r))
            (''DWithin con SpatialSemantics::Geometry su SRID geografico '' @ show_srid (sr_srid r)
             @ '' produrrebbe distanza in gradi (fuorviante rispetto al nome `distance_meters`). Usa ''
             @ ''SpatialSemantics::Geography per metri reali, oppure riproietta su un SRID planare.'')
      | SpIntersects \<Rightarrow> Inr ())"

definition validate_mysql :: "spatial_predicate \<Rightarrow> unit result" where
  "validate_mysql p =
     (case p of
        SpDWithin _ \<Rightarrow> Inl (unsupported Mysql PhPrepare
          (''DWithin non supportato da MySQL (no ST_DWithin nativo). ''
           @ ''Usa ST_Distance() < X come workaround via SQL raw.''))
      | _ \<Rightarrow> Inr ())"

definition validate_predicate :: "provider_kind \<Rightarrow> spatial_predicate \<Rightarrow> spatial_reference \<Rightarrow> unit result" where
  "validate_predicate provider p r =
     and_then
       (case p of
          SpDWithin distance \<Rightarrow>
            refuse_if (\<not> f64_is_finite distance \<or> f64_below_zero distance)
              ''DWithin richiede distanza finita non-negativa''
        | _ \<Rightarrow> Inr ()) (\<lambda>_.
     case provider of
       Postgres \<Rightarrow> validate_postgres p r
     | Mysql \<Rightarrow> validate_mysql p
     | Sqlserver \<Rightarrow> validate_sqlserver p
     | Db2 \<Rightarrow> validate_db2 p r
     | Oracle \<Rightarrow> validate_oracle p r
     | _ \<Rightarrow> Inr ())"

section \<open>What the policy admits\<close>

text \<open>Where a distance is in metres: on a geography, or on coordinates that are not degrees.\<close>

definition metric_frame :: "spatial_reference \<Rightarrow> bool" where
  "metric_frame r \<longleftrightarrow> sr_semantics r = Geography \<or> \<not> is_geographic_srid (sr_srid r)"

fun predicate_admitted :: "provider_kind \<Rightarrow> spatial_predicate \<Rightarrow> spatial_reference \<Rightarrow> bool" where
  "predicate_admitted Postgres p r \<longleftrightarrow>
     (case p of SpIntersects \<Rightarrow> True
              | SpDWithin d \<Rightarrow> f64_is_finite d \<and> \<not> f64_below_zero d \<and> metric_frame r
              | _ \<Rightarrow> sr_semantics r = Geometry)"
| "predicate_admitted Oracle p r \<longleftrightarrow>
     (sr_semantics r = Geography \<longrightarrow> is_geographic_srid (sr_srid r)) \<and>
     (case p of SpDWithin d \<Rightarrow> f64_is_finite d \<and> \<not> f64_below_zero d \<and> is_geographic_srid (sr_srid r)
              | _ \<Rightarrow> True)"
| "predicate_admitted Db2 p r \<longleftrightarrow>
     sr_semantics r = Geometry \<and> p \<in> {SpIntersects, SpContains, SpWithin}"
| "predicate_admitted Mysql p r \<longleftrightarrow> \<not> requires_distance p"
| "predicate_admitted Sqlserver p r \<longleftrightarrow> \<not> requires_distance p"
| "predicate_admitted _ p r \<longleftrightarrow> (case p of SpDWithin d \<Rightarrow> f64_is_finite d \<and> \<not> f64_below_zero d | _ \<Rightarrow> True)"

lemma refuse_if_Inr [simp]: "refuse_if c m = Inr () \<longleftrightarrow> \<not> c"
  by (simp add: refuse_if_def)

lemma validate_predicate_decides:
  "validate_predicate k p r = Inr () \<longleftrightarrow> predicate_admitted k p r"
  by (cases k; cases p; cases "sr_semantics r")
    (simp_all add: validate_predicate_def validate_postgres_def validate_mysql_def validate_sqlserver_def
      validate_db2_def validate_oracle_def requires_distance_def metric_frame_def result_simps)

lemma refuses_locally_refuse_if [refusal_intros]: "refuses_locally (refuse_if c m)"
  by (auto simp: refuse_if_def intro!: refusal_intros)

lemma validate_predicate_local: "refuses_locally (validate_predicate k p r)"
  by (cases k; cases p)
    (auto simp: validate_predicate_def validate_postgres_def validate_mysql_def validate_sqlserver_def
      validate_db2_def validate_oracle_def intro!: refusal_intros)

interpretation predicate_policy: validator "\<lambda>(k, p, r). validate_predicate k p r"
  "\<lambda>(k, p, r). predicate_admitted k p r"
  by unfold_locales (auto simp: validate_predicate_decides validate_predicate_local)

text \<open>A reference that passes its own check says what its bytes say: the SRID the EWKB carries, if any, is
  the declared one, and the declared dimensions, unless unknown, are the embedded ones.\<close>

lemma reference_validate_Inr:
  "reference_validate r = Inr () \<longleftrightarrow>
     (\<exists>i. inspect_ewkb_detailed (sr_ewkb r) (- 1) (- 1) = Inr i \<and>
          (\<forall>srid. em_srid (ei_root i) = Some srid \<longrightarrow> srid = sr_srid r) \<and>
          (sr_dimensions r \<noteq> DimUnknown \<longrightarrow>
            dimensions_label (ei_root i) = declared_dimensions_label (sr_dimensions r)))"
  by (auto simp: reference_validate_def result_simps Let_def split: option.splits)

lemma new_validated_Inr:
  "new_validated e s d m = Inr r \<longleftrightarrow>
     r = \<lparr>sr_ewkb = e, sr_srid = s, sr_dimensions = d, sr_semantics = m\<rparr> \<and> reference_validate r = Inr ()"
  by (auto simp: new_validated_def result_simps Let_def)

end
