(* ===== verification/Spatial_Probe.thy ===== *)
theory Spatial_Probe
  imports Spatial_Policy Relational
begin

text \<open>
  The SRID of a probe, \<open>plenora-database-core/src/spatial_probe.rs\<close>: the SRID a bound geometry carries,
  the check of a declared one against it, the admission rule (\<open>admit_probe\<close>) with its table of measured
  server guards, and the SQL forms of the PostGIS guards.
\<close>

section \<open>The SRID of a value\<close>

definition PROBE_WITHOUT_SRID :: string where
  "PROBE_WITHOUT_SRID = ''sonda spatial senza SRID esplicito: dichiararlo nel valore wkb o nell'EWKB''"

definition PROBE_SRID_MISMATCH :: string where
  "PROBE_SRID_MISMATCH = ''sonda spatial con SRID diverso da quello del termine con cui si confronta''"

definition PROBE_PEER_WITHOUT_SRID :: string where
  "PROBE_PEER_WITHOUT_SRID =
     ''termine confrontato con la sonda spatial senza SRID determinabile prima dell'esecuzione''"

definition PROBE_EMBEDDED_MISMATCH :: string where
  "PROBE_EMBEDDED_MISMATCH =
     ''sonda spatial con SRID dichiarato diverso da quello incorporato nell'EWKB''"

definition SPATIAL_VALUE_SRID_MISMATCH :: string where
  "SPATIAL_VALUE_SRID_MISMATCH = ''valore spatial con SRID incorporato diverso da quello dichiarato''"

definition crs :: "provider_kind \<Rightarrow> string \<Rightarrow> database_error" where
  "crs provider message = error_new Crs PhPrepare (Some provider) message"

definition geometry_value :: "'json parameter_value \<Rightarrow> (u8 list \<times> u32 option) option" where
  "geometry_value v =
     (case v of PvWkb bytes srid _ _ \<Rightarrow> Some (bytes, srid) | PvBytes bytes \<Rightarrow> Some (bytes, None) | _ \<Rightarrow> None)"

definition embedded_srid :: "u8 list \<Rightarrow> u64 \<Rightarrow> u32 option result" where
  "embedded_srid bytes max_depth =
     and_then (inspect_ewkb_detailed bytes (- 1) max_depth) (\<lambda>i. Inr (em_srid (ei_root i)))"

definition probe_srid :: "provider_kind \<Rightarrow> 'json parameter_value \<Rightarrow> u64 \<Rightarrow> u32 option result" where
  "probe_srid provider v max_depth =
     (case geometry_value v of
        None \<Rightarrow> Inr None
      | Some (bytes, declared) \<Rightarrow>
          and_then (embedded_srid bytes max_depth) (\<lambda>embedded.
          and_then
            (case (declared, embedded) of
               (Some d, Some e) \<Rightarrow> if d \<noteq> e then Inl (crs provider PROBE_EMBEDDED_MISMATCH) else Inr d
             | (Some d, None) \<Rightarrow> Inr d
             | (None, Some e) \<Rightarrow> Inr e
             | (None, None) \<Rightarrow> Inl (crs provider PROBE_WITHOUT_SRID)) (\<lambda>srid.
          if srid = 0 then Inl (crs provider PROBE_WITHOUT_SRID) else Inr (Some srid))))"

text \<open>\<open>None\<close> is a panic of \<open>with_root_srid\<close>, as in \<open>Ewkb\<close>.\<close>

definition stamped_probe ::
  "provider_kind \<Rightarrow> 'json parameter_value \<Rightarrow> u64 \<Rightarrow> (u32 \<times> u8 list) option result option" where
  "stamped_probe provider v max_depth =
     (case probe_srid provider v max_depth of
        Inl e \<Rightarrow> Some (Inl e)
      | Inr None \<Rightarrow> Some (Inr None)
      | Inr (Some srid) \<Rightarrow>
          (case geometry_value v of
             None \<Rightarrow> Some (Inr None)
           | Some (bytes, _) \<Rightarrow>
               (case embedded_srid bytes max_depth of
                  Inl e \<Rightarrow> Some (Inl e)
                | Inr (Some _) \<Rightarrow> Some (Inr (Some (srid, bytes)))
                | Inr None \<Rightarrow>
                    map_option (\<lambda>r. and_then r (\<lambda>stamped. Inr (Some (srid, stamped))))
                      (with_root_srid bytes srid max_depth))))"

definition check_spatial_value :: "provider_kind \<Rightarrow> 'json parameter_value \<Rightarrow> u32 \<Rightarrow> u64 \<Rightarrow> unit result" where
  "check_spatial_value provider v declared max_depth =
     (case geometry_value v of
        None \<Rightarrow> Inr ()
      | Some (bytes, srid) \<Rightarrow>
          if srid \<noteq> None \<and> srid \<noteq> Some declared then Inl (crs provider SPATIAL_VALUE_SRID_MISMATCH)
          else and_then (embedded_srid bytes max_depth) (\<lambda>embedded.
            if embedded \<noteq> None \<and> embedded \<noteq> Some declared
            then Inl (crs provider SPATIAL_VALUE_SRID_MISMATCH) else Inr ()))"

definition compare_frames :: "provider_kind \<Rightarrow> u32 \<Rightarrow> u32 option \<Rightarrow> unit result" where
  "compare_frames provider probe peer =
     (if peer = None \<or> peer = Some 0 then Inl (crs provider PROBE_PEER_WITHOUT_SRID)
      else if peer \<noteq> Some probe then Inl (crs provider PROBE_SRID_MISMATCH)
      else Inr ())"

section \<open>The PostGIS guards\<close>

definition postgis_empty :: "string \<Rightarrow> string" where
  "postgis_empty srid = ''ST_SetSRID('POINT EMPTY'::geometry, '' @ srid @ '')''"

definition postgres_column_guard :: "string \<Rightarrow> string \<Rightarrow> string \<Rightarrow> string \<Rightarrow> string" where
  "postgres_column_guard v srid relation column =
     ''(CASE WHEN ST_Equals('' @ postgis_empty srid @ '', ''
     @ postgis_empty
         (''COALESCE((SELECT postgis_typmod_srid(a.atttypmod) FROM pg_catalog.pg_attribute a WHERE a.attrelid = to_regclass(''
          @ relation @ '') AND a.attname = '' @ column @ '' AND a.attnum > 0 AND NOT a.attisdropped), 0)'')
     @ '') THEN '' @ v @ '' END)''"

definition postgres_guarded_probe :: "string \<Rightarrow> string \<Rightarrow> string \<Rightarrow> string \<Rightarrow> string" where
  "postgres_guarded_probe g srid relation column =
     postgres_column_guard (''ST_SetSRID(ST_GeomFromEWKB('' @ g @ ''), '' @ srid @ '')'') srid relation column"

definition postgres_text_literal :: "string \<Rightarrow> string" where
  "postgres_text_literal t =
     ''E'' @ [CHR 0x27]
     @ concat (map (\<lambda>c. if c = CHR 0x27 then [CHR 0x27, CHR 0x27] else [c])
         (concat (map (\<lambda>c. if c = CHR 0x5C then [CHR 0x5C, CHR 0x5C] else [c]) t)))
     @ [CHR 0x27]"

definition postgres_relation_text :: "string option \<Rightarrow> string \<Rightarrow> string" where
  "postgres_relation_text schema obj =
     (let quoted = ''quote_ident('' @ postgres_text_literal obj @ '')''
      in case schema of
           Some s \<Rightarrow> ''(quote_ident('' @ postgres_text_literal s @ '') || '.' || '' @ quoted @ '')''
         | None \<Rightarrow> quoted)"

definition postgres_spatial_value :: "string \<Rightarrow> u32 \<Rightarrow> string" where
  "postgres_spatial_value v srid =
     (let g = ''ST_GeomFromEWKB('' @ v @ '')''
      in ''(CASE WHEN ST_SRID('' @ g @ '') = 0 THEN ST_SetSRID('' @ g @ '', '' @ show_srid srid
         @ '') WHEN ST_Equals('' @ postgis_empty (''ST_SRID('' @ g @ '')'') @ '', ''
         @ postgis_empty (show_srid srid) @ '') THEN '' @ g @ '' END)'')"

section \<open>The admission rule\<close>

datatype probe_evidence = EvCatalog | EvCompileOnly
datatype probe_use = UseFunction | UseBoundingBox | UseWriteValue | UseScalarOperand
datatype probe_frame = FrUnbound | FrDeclared u32 | FrMissing
datatype server_guard_form = PostgresColumnTypmod | PostgresTypmodWrite | MysqlSrid
datatype admission = AdCatalog | AdServer server_guard_form | AdValueCarriesFrame

definition server_guard :: "provider_kind \<Rightarrow> probe_use \<Rightarrow> server_guard_form option" where
  "server_guard provider probe_use =
     (if probe_use = UseScalarOperand then None
      else if provider = Postgres \<and> probe_use \<in> {UseFunction, UseBoundingBox} then Some PostgresColumnTypmod
      else if provider = Postgres \<and> probe_use = UseWriteValue then Some PostgresTypmodWrite
      else if provider = Mysql then Some MysqlSrid
      else None)"

definition PROBE_UNBOUND_UNPROVEN :: string where
  "PROBE_UNBOUND_UNPROVEN =
     ''sonda spatial senza SRID noto prima dell'esecuzione: usare un valore spatial con SRID dichiarato''"

definition PROBE_SRID_UNPROVEN :: string where
  "PROBE_SRID_UNPROVEN =
     ''confronto spatial con una sonda: il provider non verifica lo SRID della colonna prima dell'esecuzione''"

definition VALUE_SRID_UNPROVEN :: string where
  "VALUE_SRID_UNPROVEN =
     ''valore spatial scritto senza verifica dello SRID della colonna: il server non lo vincola''"

definition SPATIAL_VALUE_OUTSIDE_SPATIAL :: string where
  "SPATIAL_VALUE_OUTSIDE_SPATIAL =
     ''valore spatial confrontato fuori da una funzione o da un operatore spatial''"

definition admit_probe ::
  "provider_kind \<Rightarrow> probe_evidence \<Rightarrow> probe_use \<Rightarrow> probe_frame \<Rightarrow> admission result" where
  "admit_probe provider evidence probe_use frame =
     (if probe_use = UseScalarOperand
      then Inl (unsupported provider PhPrepare SPATIAL_VALUE_OUTSIDE_SPATIAL)
      else if frame = FrMissing then Inl (crs provider PROBE_WITHOUT_SRID)
      else if evidence = EvCatalog then Inr AdCatalog
      else if frame = FrUnbound then Inl (unsupported provider PhPrepare PROBE_UNBOUND_UNPROVEN)
      else case server_guard provider probe_use of
        Some guard \<Rightarrow> Inr (AdServer guard)
      | None \<Rightarrow>
          if provider = Sqlserver \<and> probe_use = UseWriteValue then Inr AdValueCarriesFrame
          else if probe_use = UseWriteValue then Inl (unsupported provider PhPrepare VALUE_SRID_UNPROVEN)
          else Inl (unsupported provider PhPrepare PROBE_SRID_UNPROVEN))"

section \<open>Lemmas\<close>

lemma embedded_srid_Inr:
  "embedded_srid b d = Inr s \<longleftrightarrow> (\<exists>i. inspect_ewkb_detailed b (- 1) d = Inr i \<and> s = em_srid (ei_root i))"
  by (auto simp: embedded_srid_def result_simps)

lemma probe_srid_geometry:
  "geometry_value v = Some (bytes, declared) \<Longrightarrow> embedded_srid bytes d = Inr embedded \<Longrightarrow>
     probe_srid k v d =
       (if declared \<noteq> None \<and> embedded \<noteq> None \<and> declared \<noteq> embedded
        then Inl (crs k PROBE_EMBEDDED_MISMATCH)
        else if (declared = None \<and> embedded = None) \<or> declared = Some 0 \<or> embedded = Some 0
        then Inl (crs k PROBE_WITHOUT_SRID)
        else Inr (if declared = None then embedded else declared))"
  by (cases declared; cases embedded) (simp_all add: probe_srid_def)

lemma probe_srid_Some:
  assumes "probe_srid k v d = Inr (Some srid)"
  shows "srid \<noteq> 0 \<and> (\<exists>bytes declared embedded. geometry_value v = Some (bytes, declared) \<and>
       embedded_srid bytes d = Inr embedded \<and>
       declared \<in> {None, Some srid} \<and> embedded \<in> {None, Some srid} \<and> (declared \<noteq> None \<or> embedded \<noteq> None))"
proof -
  obtain bytes declared where g: "geometry_value v = Some (bytes, declared)"
    using assms by (cases "geometry_value v") (auto simp: probe_srid_def)
  obtain embedded where e: "embedded_srid bytes d = Inr embedded"
    using assms g by (cases "embedded_srid bytes d") (auto simp: probe_srid_def)
  show ?thesis
    using assms g e unfolding probe_srid_geometry [OF g e]
    by (cases declared; cases embedded) (auto split: if_splits)
qed

lemma check_spatial_value_Inr:
  "check_spatial_value k v declared d = Inr () \<longleftrightarrow>
     (case geometry_value v of None \<Rightarrow> True
      | Some (bytes, srid) \<Rightarrow> srid \<in> {None, Some declared} \<and>
          (\<exists>embedded. embedded_srid bytes d = Inr embedded \<and> embedded \<in> {None, Some declared}))"
  by (auto simp: check_spatial_value_def result_simps split: option.splits if_splits)

lemma compare_frames_Inr: "compare_frames k probe peer = Inr () \<longleftrightarrow> probe \<noteq> 0 \<and> peer = Some probe"
  by (auto simp: compare_frames_def)

text \<open>Compiled without a catalogue, a probe is admitted exactly on PostgreSQL and MySQL with a declared SRID,
  and a written value also on SQL Server.\<close>

lemma admit_probe_compile_only:
  "is_ok (admit_probe k EvCompileOnly u f) \<longleftrightarrow>
     u \<noteq> UseScalarOperand \<and> (\<exists>srid. f = FrDeclared srid) \<and>
     (k \<in> {Postgres, Mysql} \<or> k = Sqlserver \<and> u = UseWriteValue)"
  by (cases k; cases u; cases f) (simp_all add: admit_probe_def server_guard_def)

end
