(* ===== verification/Typed_Parameter.thy ===== *)
theory Typed_Parameter
  imports Row Relational
begin

text \<open>
  Typed parameters, \<open>plenora-database-core/src/typed_parameter.rs\<close>: the SQL type of a declared type in each
  dialect, the one form in which a compared parameter is rendered, and the kinds of value a declared type
  admits, as the bit masks of the source.
\<close>

section \<open>Rendering\<close>

datatype cast_dialect = CdPostgres | CdMysql | CdSqlServer | CdOracle | CdDb2 | CdSqlite | CdDuckdb

definition cast_dialect_of :: "provider_kind \<Rightarrow> cast_dialect" where
  "cast_dialect_of provider =
     (case provider of
        Mysql \<Rightarrow> CdMysql | Mariadb \<Rightarrow> CdMysql | Sqlserver \<Rightarrow> CdSqlServer | Oracle \<Rightarrow> CdOracle | Db2 \<Rightarrow> CdDb2
      | _ \<Rightarrow> CdPostgres)"

definition type_name :: "cast_dialect \<Rightarrow> query_parameter_type \<Rightarrow> string" where
  "type_name d t =
     (case t of
        QtBoolean \<Rightarrow> (if d = CdMysql then ''SIGNED'' else if d = CdSqlServer then ''BIT'' else ''BOOLEAN'')
      | QtInteger \<Rightarrow> (if d = CdMysql then ''SIGNED'' else if d = CdOracle then ''NUMBER(10)'' else ''INTEGER'')
      | QtBigInteger \<Rightarrow> (if d = CdMysql then ''SIGNED'' else if d = CdOracle then ''NUMBER(19)'' else ''BIGINT'')
      | QtFloat \<Rightarrow>
          (case d of CdPostgres \<Rightarrow> ''DOUBLE PRECISION'' | CdSqlServer \<Rightarrow> ''FLOAT'' | CdSqlite \<Rightarrow> ''REAL''
                   | CdOracle \<Rightarrow> ''BINARY_DOUBLE'' | _ \<Rightarrow> ''DOUBLE'')
      | QtString \<Rightarrow>
          (case d of CdPostgres \<Rightarrow> ''TEXT'' | CdSqlite \<Rightarrow> ''TEXT'' | CdMysql \<Rightarrow> ''CHAR''
                   | CdSqlServer \<Rightarrow> ''NVARCHAR(MAX)'' | CdDuckdb \<Rightarrow> ''VARCHAR'' | CdOracle \<Rightarrow> ''VARCHAR2(4000)''
                   | CdDb2 \<Rightarrow> ''VARCHAR(32672)'')
      | QtBinary \<Rightarrow>
          (case d of CdPostgres \<Rightarrow> ''BYTEA'' | CdMysql \<Rightarrow> ''BINARY'' | CdSqlServer \<Rightarrow> ''VARBINARY(MAX)''
                   | CdSqlite \<Rightarrow> ''BLOB'' | CdDuckdb \<Rightarrow> ''BLOB'' | CdOracle \<Rightarrow> ''RAW(2000)''
                   | CdDb2 \<Rightarrow> ''VARCHAR(32672) FOR BIT DATA'')
      | QtDate \<Rightarrow> ''DATE''
      | QtTimestamp \<Rightarrow>
          (case d of CdMysql \<Rightarrow> ''DATETIME(6)'' | CdSqlServer \<Rightarrow> ''DATETIME2'' | CdSqlite \<Rightarrow> ''TEXT''
                   | _ \<Rightarrow> ''TIMESTAMP'')
      | QtTimestampTz \<Rightarrow>
          (case d of CdPostgres \<Rightarrow> ''TIMESTAMPTZ'' | CdSqlite \<Rightarrow> ''TIMESTAMPTZ'' | CdDuckdb \<Rightarrow> ''TIMESTAMPTZ''
                   | CdSqlServer \<Rightarrow> ''DATETIMEOFFSET'' | CdOracle \<Rightarrow> ''TIMESTAMP WITH TIME ZONE''
                   | CdDb2 \<Rightarrow> ''TIMESTAMP WITH TIME ZONE'' | CdMysql \<Rightarrow> ''DATETIME(6)'')
      | QtDecimal \<Rightarrow>
          (case d of CdOracle \<Rightarrow> ''NUMBER(38, 10)'' | CdDb2 \<Rightarrow> ''DECIMAL(31, 10)'' | _ \<Rightarrow> ''DECIMAL(38, 10)'')
      | QtUuid \<Rightarrow>
          (case d of CdPostgres \<Rightarrow> ''UUID'' | CdSqlServer \<Rightarrow> ''UNIQUEIDENTIFIER'' | CdOracle \<Rightarrow> ''VARCHAR2(36)''
                   | _ \<Rightarrow> ''CHAR(36)'')
      | QtJson \<Rightarrow>
          (case d of CdPostgres \<Rightarrow> ''JSONB'' | CdMysql \<Rightarrow> ''JSON'' | CdSqlite \<Rightarrow> ''JSON'' | CdDuckdb \<Rightarrow> ''JSON''
                   | CdSqlServer \<Rightarrow> ''NVARCHAR(MAX)'' | CdOracle \<Rightarrow> ''CLOB'' | CdDb2 \<Rightarrow> ''CLOB''))"

definition ORACLE_TIMESTAMP_TZ_FORMAT_MODEL :: string where
  "ORACLE_TIMESTAMP_TZ_FORMAT_MODEL =
     ''YYYY-MM-DD'' @ [CHR 0x22] @ ''T'' @ [CHR 0x22] @ ''HH24:MI:SS.FFTZH:TZM''"

text \<open>The Oracle conversion of a bound \<open>timestamp_tz\<close>.\<close>

definition to_timestamp_tz :: "string \<Rightarrow> string" where
  "to_timestamp_tz placeholder =
     ''TO_TIMESTAMP_TZ('' @ placeholder @ '', '' @ [CHR 0x27] @ ORACLE_TIMESTAMP_TZ_FORMAT_MODEL @ [CHR 0x27] @ '')''"

definition render :: "cast_dialect \<Rightarrow> string \<Rightarrow> query_parameter_type \<Rightarrow> string" where
  "render d placeholder t =
     (if d = CdMysql \<and> t \<in> {QtString, QtUuid} then placeholder
      else if d = CdOracle \<and> t = QtBoolean then ''TO_BOOLEAN('' @ placeholder @ '')''
      else if d = CdOracle \<and> t = QtTimestampTz then to_timestamp_tz placeholder
      else ''CAST('' @ placeholder @ '' AS '' @ type_name d t @ '')'')"

definition ensure_json_supported :: "provider_kind \<Rightarrow> query_parameter_type \<Rightarrow> unit result" where
  "ensure_json_supported provider kind =
     (if provider = Mariadb \<and> kind = QtJson
      then Inl (unsupported provider PhPrepare
        ''JSON tipizzato MariaDB non supportato: usare SQL con confronto JSON esplicito e parametri String'')
      else Inr ())"

section \<open>Kinds of value\<close>

unbundle bit_operations_syntax

definition KIND_BOOL :: u16 where "KIND_BOOL = 1"
definition KIND_I32 :: u16 where "KIND_I32 = push_bit 1 1"
definition KIND_I64 :: u16 where "KIND_I64 = push_bit 2 1"
definition KIND_F64 :: u16 where "KIND_F64 = push_bit 3 1"
definition KIND_DECIMAL :: u16 where "KIND_DECIMAL = push_bit 4 1"
definition KIND_STRING :: u16 where "KIND_STRING = push_bit 5 1"
definition KIND_ENUM :: u16 where "KIND_ENUM = push_bit 6 1"
definition KIND_BYTES :: u16 where "KIND_BYTES = push_bit 7 1"
definition KIND_DATE :: u16 where "KIND_DATE = push_bit 8 1"
definition KIND_TIMESTAMP :: u16 where "KIND_TIMESTAMP = push_bit 9 1"
definition KIND_TIMESTAMP_TZ :: u16 where "KIND_TIMESTAMP_TZ = push_bit 10 1"
definition KIND_UUID :: u16 where "KIND_UUID = push_bit 11 1"
definition KIND_JSON :: u16 where "KIND_JSON = push_bit 12 1"
definition KIND_WKB :: u16 where "KIND_WKB = push_bit 13 1"

lemmas kind_defs = KIND_BOOL_def KIND_I32_def KIND_I64_def KIND_F64_def KIND_DECIMAL_def KIND_STRING_def
  KIND_ENUM_def KIND_BYTES_def KIND_DATE_def KIND_TIMESTAMP_def KIND_TIMESTAMP_TZ_def KIND_UUID_def
  KIND_JSON_def KIND_WKB_def

definition admitted :: "query_parameter_type \<Rightarrow> u16" where
  "admitted t =
     (case t of
        QtBoolean \<Rightarrow> KIND_BOOL
      | QtInteger \<Rightarrow> KIND_I32 OR KIND_I64
      | QtBigInteger \<Rightarrow> KIND_I32 OR KIND_I64
      | QtFloat \<Rightarrow> KIND_F64 OR KIND_I32
      | QtDecimal \<Rightarrow> KIND_DECIMAL OR KIND_I32 OR KIND_I64
      | QtString \<Rightarrow> KIND_STRING OR KIND_ENUM
      | QtBinary \<Rightarrow> KIND_BYTES
      | QtDate \<Rightarrow> KIND_DATE
      | QtTimestamp \<Rightarrow> KIND_TIMESTAMP
      | QtTimestampTz \<Rightarrow> KIND_TIMESTAMP_TZ
      | QtUuid \<Rightarrow> KIND_UUID
      | QtJson \<Rightarrow> KIND_JSON)"

definition value_kind :: "'json parameter_value \<Rightarrow> u16" where
  "value_kind v =
     (case v of
        PvBool _ \<Rightarrow> KIND_BOOL | PvI32 _ \<Rightarrow> KIND_I32 | PvI64 _ \<Rightarrow> KIND_I64 | PvF64 _ \<Rightarrow> KIND_F64
      | PvDecimal _ \<Rightarrow> KIND_DECIMAL | PvString _ \<Rightarrow> KIND_STRING | PvEnum _ _ \<Rightarrow> KIND_ENUM
      | PvBytes _ \<Rightarrow> KIND_BYTES | PvDate _ \<Rightarrow> KIND_DATE | PvTimestamp _ \<Rightarrow> KIND_TIMESTAMP
      | PvTimestampTz _ \<Rightarrow> KIND_TIMESTAMP_TZ | PvUuid _ \<Rightarrow> KIND_UUID | PvJson _ \<Rightarrow> KIND_JSON
      | PvWkb _ _ _ _ \<Rightarrow> KIND_WKB | PvNull _ \<Rightarrow> 0)"

section \<open>What a declared type admits\<close>

text \<open>The table of the module's documentation.\<close>

fun kind_admitted :: "query_parameter_type \<Rightarrow> 'json parameter_value \<Rightarrow> bool" where
  "kind_admitted t (PvNull _) = True"
| "kind_admitted t (PvBool _) = (t = QtBoolean)"
| "kind_admitted t (PvI32 _) = (t \<in> {QtInteger, QtBigInteger, QtFloat, QtDecimal})"
| "kind_admitted t (PvI64 _) = (t \<in> {QtInteger, QtBigInteger, QtDecimal})"
| "kind_admitted t (PvF64 _) = (t = QtFloat)"
| "kind_admitted t (PvDecimal _) = (t = QtDecimal)"
| "kind_admitted t (PvString _) = (t = QtString)"
| "kind_admitted t (PvEnum _ _) = (t = QtString)"
| "kind_admitted t (PvBytes _) = (t = QtBinary)"
| "kind_admitted t (PvDate _) = (t = QtDate)"
| "kind_admitted t (PvTimestamp _) = (t = QtTimestamp)"
| "kind_admitted t (PvTimestampTz _) = (t = QtTimestampTz)"
| "kind_admitted t (PvUuid _) = (t = QtUuid)"
| "kind_admitted t (PvJson _) = (t = QtJson)"
| "kind_admitted t (PvWkb _ _ _ _) = False"

lemma kinds_within_admitted: "value_kind v AND NOT (admitted t) = 0 \<longleftrightarrow> kind_admitted t v"
  by (cases v; cases t) (simp_all add: value_kind_def admitted_def kind_defs)

end
