(* ===== verification/Portable.thy ===== *)
theory Portable
  imports Spatial_Probe Typed_Parameter Identifier
begin

text \<open>
  The portable statements of the OLTP plane and their compiler: the AST of
  \<open>plenora-database-core/src/portable/mod.rs\<close> and \<open>compile_portable\<close> of \<open>portable/compiler.rs\<close>.  The
  compiler threads one mutable context (bound parameters, dialect, quoted table, inside a predicate); here
  every function takes it and returns it beside its text.  The first argument \<open>js\<close> of the functions that
  bind is the rendering of a JSON document, which belongs to \<open>serde_json\<close>.
\<close>

section \<open>Statements\<close>

record table_ref =
  tr_schema :: "string option"
  tr_name :: string

definition table_new :: "string \<Rightarrow> table_ref" where
  "table_new name = \<lparr>tr_schema = None, tr_name = name\<rparr>"

definition table_qualified :: "string \<Rightarrow> string \<Rightarrow> table_ref" where
  "table_qualified schema name = \<lparr>tr_schema = Some schema, tr_name = name\<rparr>"

datatype 'json expression =
  ExLiteral "'json parameter_value"
| ExColumn string
| ExSpatialValue "'json expression" u32 spatial_semantics
| ExTypedParameter query_parameter_type

datatype direction = DirAsc | DirDesc
datatype nulls = NuFirst | NuLast

record order_by_column =
  oc_column :: string
  oc_direction :: direction
  oc_nulls :: "nulls option"

datatype 'json portable_predicate =
  PrEq string "'json expression"
| PrNe string "'json expression"
| PrLt string "'json expression"
| PrLte string "'json expression"
| PrGt string "'json expression"
| PrGte string "'json expression"
| PrIn string "'json expression list"
| PrBetween string "'json expression" "'json expression"
| PrLike string "'json expression"
| PrIsNull string
| PrIsNotNull string
| PrAnd "'json portable_predicate list"
| PrOr "'json portable_predicate list"
| PrNot "'json portable_predicate"
| PrSpatial string spatial_predicate spatial_reference

datatype projection = PjAll | PjColumns "string list"

record 'json select_statement =
  sel_table :: table_ref
  sel_projection :: projection
  sel_filter :: "'json portable_predicate option"
  sel_order_by :: "order_by_column list"
  sel_limit :: "u64 option"

record 'json insert_statement =
  ins_table :: table_ref
  ins_columns :: "string list"
  ins_values :: "'json expression list list"
  ins_returning :: "string list"

record 'json update_statement =
  upd_table :: table_ref
  upd_assignments :: "(string \<times> 'json expression) list"
  upd_filter :: "'json portable_predicate option"
  upd_returning :: "string list"

record 'json delete_statement =
  del_table :: table_ref
  del_filter :: "'json portable_predicate option"
  del_returning :: "string list"

record 'json upsert_statement =
  ups_table :: table_ref
  ups_columns :: "string list"
  ups_values :: "'json expression list list"
  ups_conflict_target :: "string list"
  ups_update_on_conflict :: "(string \<times> 'json expression) list"
  ups_returning :: "string list"

datatype 'json portable_statement =
  PsSelect "'json select_statement"
| PsInsert "'json insert_statement"
| PsUpdate "'json update_statement"
| PsDelete "'json delete_statement"
| PsUpsert "'json upsert_statement"

text \<open>The builder of a query.\<close>

definition select_all :: "string \<Rightarrow> 'json select_statement" where
  "select_all table =
     \<lparr>sel_table = table_new table, sel_projection = PjAll, sel_filter = None, sel_order_by = [], sel_limit = None\<rparr>"

definition select_columns :: "string \<Rightarrow> string list \<Rightarrow> 'json select_statement" where
  "select_columns table columns =
     \<lparr>sel_table = table_new table, sel_projection = PjColumns columns, sel_filter = None, sel_order_by = [],
      sel_limit = None\<rparr>"

definition with_schema :: "string \<Rightarrow> 'json select_statement \<Rightarrow> 'json select_statement" where
  "with_schema schema s = s\<lparr>sel_table := (sel_table s)\<lparr>tr_schema := Some schema\<rparr>\<rparr>"

definition with_where :: "'json portable_predicate \<Rightarrow> 'json select_statement \<Rightarrow> 'json select_statement" where
  "with_where p s = s\<lparr>sel_filter := Some p\<rparr>"

definition with_order_by :: "string \<Rightarrow> direction \<Rightarrow> 'json select_statement \<Rightarrow> 'json select_statement" where
  "with_order_by column direction s =
     s\<lparr>sel_order_by := sel_order_by s @ [\<lparr>oc_column = column, oc_direction = direction, oc_nulls = None\<rparr>]\<rparr>"

definition with_limit :: "u64 \<Rightarrow> 'json select_statement \<Rightarrow> 'json select_statement" where
  "with_limit n s = s\<lparr>sel_limit := Some n\<rparr>"

section \<open>Dialects and the context\<close>

datatype dialect_kind = DkPostgres | DkMysql | DkSqlServer | DkMariadb | DkDb2 | DkOracle

datatype returning_form = RfInsert | RfUpdate | RfDelete | RfUpsert

definition form_label :: "returning_form \<Rightarrow> string" where
  "form_label f =
     (case f of RfInsert \<Rightarrow> ''INSERT'' | RfUpdate \<Rightarrow> ''UPDATE'' | RfDelete \<Rightarrow> ''DELETE'' | RfUpsert \<Rightarrow> ''l'upsert'')"

record 'json compile_context =
  ctx_params :: "'json parameter_value list"
  ctx_dialect :: dialect_kind
  ctx_relation :: "string option"
  ctx_in_predicate :: bool

type_synonym 'json compiled = "('json compile_context \<times> string) result"

definition context_new :: "dialect_kind \<Rightarrow> 'json compile_context" where
  "context_new dialect =
     \<lparr>ctx_params = [], ctx_dialect = dialect, ctx_relation = None, ctx_in_predicate = False\<rparr>"

definition placeholder :: "dialect_kind \<Rightarrow> nat \<Rightarrow> string" where
  "placeholder dialect n =
     (case dialect of
        DkPostgres \<Rightarrow> CHR ''$'' # show_nat n
      | DkMysql \<Rightarrow> ''?'' | DkMariadb \<Rightarrow> ''?'' | DkDb2 \<Rightarrow> ''?''
      | DkOracle \<Rightarrow> CHR '':'' # show_nat n
      | DkSqlServer \<Rightarrow> ''@P'' @ show_nat n)"

definition push_param :: "'json parameter_value \<Rightarrow> 'json compile_context \<Rightarrow> 'json compile_context" where
  "push_param v ctx = ctx\<lparr>ctx_params := ctx_params ctx @ [v]\<rparr>"

definition bind :: "('json \<Rightarrow> string) \<Rightarrow> 'json parameter_value \<Rightarrow> 'json compile_context
    \<Rightarrow> 'json compile_context \<times> string" where
  "bind js v ctx =
     (case (ctx_dialect ctx, v) of
        (DkMysql, PvJson document) \<Rightarrow> (push_param (PvString (js document)) ctx, ''CAST(? AS JSON)'')
      | _ \<Rightarrow>
          (let ctx' = push_param v ctx;
               p = placeholder (ctx_dialect ctx) (length (ctx_params ctx'))
           in (ctx', case (ctx_dialect ctx, v) of
                       (DkOracle, PvTimestampTz _) \<Rightarrow> to_timestamp_tz p
                     | _ \<Rightarrow> p)))"

definition hex_digit :: "u8 \<Rightarrow> char" where
  "hex_digit n = ''0123456789ABCDEF'' ! unat n"

definition hex_upper :: "u8 list \<Rightarrow> string" where
  "hex_upper bytes = concat (map (\<lambda>b. [hex_digit (drop_bit 4 b), hex_digit (b AND 0x0f)]) bytes)"

definition dialect_provider :: "dialect_kind \<Rightarrow> provider_kind" where
  "dialect_provider d =
     (case d of DkPostgres \<Rightarrow> Postgres | DkMysql \<Rightarrow> Mysql | DkMariadb \<Rightarrow> Mariadb | DkSqlServer \<Rightarrow> Sqlserver
              | DkDb2 \<Rightarrow> Db2 | DkOracle \<Rightarrow> Oracle)"

definition predicate_not_qualified :: "provider_kind \<Rightarrow> database_error" where
  "predicate_not_qualified provider =
     unsupported provider PhPrepare ''il predicato spatial richiesto non e qualificato per il provider''"

definition identifier_dialect_of :: "dialect_kind \<Rightarrow> identifier_dialect" where
  "identifier_dialect_of d =
     (case d of DkPostgres \<Rightarrow> IdPostgres | DkOracle \<Rightarrow> IdPostgres | DkDb2 \<Rightarrow> IdPostgres
              | DkMysql \<Rightarrow> IdMysql | DkMariadb \<Rightarrow> IdMysql | DkSqlServer \<Rightarrow> IdSqlServer)"

definition quote_name :: "string \<Rightarrow> dialect_kind \<Rightarrow> string result" where
  "quote_name name dialect = quote_identifier (identifier_dialect_of dialect) name"

definition cast_dialect_for :: "dialect_kind \<Rightarrow> cast_dialect" where
  "cast_dialect_for d =
     (case d of DkPostgres \<Rightarrow> CdPostgres | DkMysql \<Rightarrow> CdMysql | DkMariadb \<Rightarrow> CdMysql
              | DkSqlServer \<Rightarrow> CdSqlServer | DkOracle \<Rightarrow> CdOracle | DkDb2 \<Rightarrow> CdDb2)"

definition qualify_table :: "table_ref \<Rightarrow> dialect_kind \<Rightarrow> string result" where
  "qualify_table table dialect =
     and_then (quote_name (tr_name table) dialect) (\<lambda>table_id.
     case tr_schema table of
       Some schema \<Rightarrow>
         and_then (quote_name schema dialect) (\<lambda>schema_id. Inr (schema_id @ ''.'' @ table_id))
     | None \<Rightarrow> Inr table_id)"

text \<open>\<open>[S]::join\<close>, and a fallible map that mutates the context, collected into a \<open>Result\<close>.\<close>

fun join :: "string \<Rightarrow> string list \<Rightarrow> string" where
  "join sep [] = []"
| "join sep [x] = x"
| "join sep (x # y # ys) = x @ sep @ join sep (y # ys)"

fun collect :: "('a \<Rightarrow> 'c \<Rightarrow> ('c \<times> 'b) result) \<Rightarrow> 'a list \<Rightarrow> 'c \<Rightarrow> ('c \<times> 'b list) result" where
  "collect f [] ctx = Inr (ctx, [])"
| "collect f (x # xs) ctx =
     and_then (f x ctx) (\<lambda>(ctx', y). and_then (collect f xs ctx') (\<lambda>(ctx'', ys). Inr (ctx'', y # ys)))"

lemma collect_cong [fundef_cong]:
  "xs = ys \<Longrightarrow> ctx = ctx' \<Longrightarrow> (\<And>x c. x \<in> set ys \<Longrightarrow> f x c = g x c) \<Longrightarrow> collect f xs ctx = collect g ys ctx'"
proof (induction ys arbitrary: xs ctx ctx')
  case Nil
  then show ?case by simp
next
  case (Cons y ys)
  have rest: "collect f ys c = collect g ys c" for c using Cons.IH [of ys c c] Cons.prems(3) by simp
  from Cons.prems show ?case by (simp add: rest)
qed

section \<open>Expressions\<close>

definition wkb_axis_argument :: "dialect_kind \<Rightarrow> string" where
  "wkb_axis_argument d = (if d = DkMysql then '', 'axis-order=long-lat'' @ [CHR 0x27] else [])"

definition json_supported :: "'json expression \<Rightarrow> 'json compile_context \<Rightarrow> unit result" where
  "json_supported e ctx =
     (if ctx_dialect ctx = DkMariadb \<and>
         (case e of ExLiteral (PvJson _) \<Rightarrow> True | ExTypedParameter t \<Rightarrow> t = QtJson | _ \<Rightarrow> False)
      then ensure_json_supported Mariadb QtJson else Inr ())"

text \<open>The Db2 spatial literal is bound as hexadecimal text.\<close>

definition literal_bytes :: "'json expression \<Rightarrow> u8 list option" where
  "literal_bytes e =
     (case e of ExLiteral (PvBytes b) \<Rightarrow> Some b | ExLiteral (PvWkb b _ _ _) \<Rightarrow> Some b | _ \<Rightarrow> None)"

definition spatial_constructor :: "dialect_kind \<Rightarrow> string \<Rightarrow> u32 \<Rightarrow> spatial_semantics \<Rightarrow> string result" where
  "spatial_constructor dialect v srid semantics =
     (let refusal = Inl (unsupported (dialect_provider dialect) PhPrepare
                      ''bind spatial OLTP non qualificato per il provider'')
      in case dialect of
        DkPostgres \<Rightarrow>
          let g = postgres_spatial_value v srid
          in Inr (case semantics of Geometry \<Rightarrow> g | Geography \<Rightarrow> ''('' @ g @ '')::geography'')
      | DkSqlServer \<Rightarrow>
          Inr ((case semantics of Geometry \<Rightarrow> ''geometry::STGeomFromWKB'' | Geography \<Rightarrow> ''geography::STGeomFromWKB'')
               @ ''('' @ v @ '', '' @ show_srid srid @ '')'')
      | DkDb2 \<Rightarrow>
          if semantics = Geometry
          then Inr (''ST_GEOMETRY(BLOB(HEXTORAW(CAST('' @ v @ '' AS VARCHAR(32672)))), '' @ show_srid srid @ '')'')
          else refusal
      | DkOracle \<Rightarrow>
          Inr (''MDSYS.SDO_UTIL.FROM_WKBGEOMETRY(TO_BLOB('' @ v @ ''), '' @ show_srid srid @ '')'')
      | _ \<Rightarrow>
          if semantics = Geometry
          then Inr (''ST_GeomFromWKB(CAST('' @ v @ '' AS BINARY), '' @ show_srid srid
                    @ wkb_axis_argument dialect @ '')'')
          else refusal)"

fun compile_expression :: "('json \<Rightarrow> string) \<Rightarrow> 'json expression \<Rightarrow> 'json compile_context \<Rightarrow> 'json compiled" where
  "compile_expression js (ExLiteral v) ctx =
     and_then (json_supported (ExLiteral v) ctx) (\<lambda>_. Inr (bind js v ctx))"
| "compile_expression js (ExTypedParameter t) ctx =
     and_then (json_supported (ExTypedParameter t) ctx) (\<lambda>_.
       let (ctx', p) = bind js (PvI64 0) ctx
       in Inr (ctx', render (cast_dialect_for (ctx_dialect ctx)) p t))"
| "compile_expression js (ExColumn name) ctx =
     and_then (quote_name name (ctx_dialect ctx)) (\<lambda>c. Inr (ctx, c))"
| "compile_expression js (ExSpatialValue e srid semantics) ctx =
     (if srid = 0 then Inl (invalid_plan ''valore spatial richiede SRID positivo'')
      else if ctx_in_predicate ctx
      then Inl (unsupported (dialect_provider (ctx_dialect ctx)) PhPrepare SPATIAL_VALUE_OUTSIDE_SPATIAL)
      else
        and_then (case e of
                    ExLiteral v \<Rightarrow> check_spatial_value (dialect_provider (ctx_dialect ctx)) v srid (- 1)
                  | _ \<Rightarrow> Inr ()) (\<lambda>_.
        and_then (admit_probe (dialect_provider (ctx_dialect ctx)) EvCompileOnly UseWriteValue (FrDeclared srid)) (\<lambda>_.
        and_then (case (ctx_dialect ctx, literal_bytes e) of
                    (DkDb2, Some bytes) \<Rightarrow> Inr (bind js (PvString (hex_upper bytes)) ctx)
                  | _ \<Rightarrow> compile_expression js e ctx) (\<lambda>(ctx', v).
        and_then (spatial_constructor (ctx_dialect ctx) v srid semantics) (\<lambda>text. Inr (ctx', text))))))"

section \<open>Spatial predicates\<close>

definition srid_as_i32 :: "string \<Rightarrow> u32 \<Rightarrow> 32 word result" where
  "srid_as_i32 product srid =
     (if unat srid < 2 ^ 31 then Inr srid
      else Inl (invalid_plan (''SRID '' @ show_srid srid @ '' eccede il range i32 supportato da '' @ product
             @ '' (max 2147483647)'')))"

definition compile_spatial_oracle :: "('json \<Rightarrow> string) \<Rightarrow> string \<Rightarrow> spatial_predicate \<Rightarrow> spatial_reference
    \<Rightarrow> 'json compile_context \<Rightarrow> 'json compiled" where
  "compile_spatial_oracle js col p r ctx =
     and_then (reference_validate r) (\<lambda>_.
     and_then (validate_predicate Oracle p r) (\<lambda>_.
     let (ctx1, g) = bind js (PvBytes (sr_ewkb r)) ctx in
     and_then (srid_as_i32 ''Oracle Spatial'' (sr_srid r)) (\<lambda>srid_value.
     let (ctx2, srid) = bind js (PvI32 srid_value) ctx1;
         reference = ''MDSYS.SDO_UTIL.FROM_WKBGEOMETRY(TO_BLOB('' @ g @ ''), '' @ srid @ '')''
     in case p of
       SpIntersects \<Rightarrow>
         Inr (ctx2, ''(MDSYS.SDO_RELATE('' @ col @ '', '' @ reference @ '', 'mask=ANYINTERACT') = 'TRUE')'')
     | SpContains \<Rightarrow>
         Inr (ctx2, ''(MDSYS.SDO_RELATE('' @ col @ '', '' @ reference @ '', 'mask=CONTAINS') = 'TRUE')'')
     | SpWithin \<Rightarrow>
         Inr (ctx2, ''(MDSYS.SDO_RELATE('' @ col @ '', '' @ reference @ '', 'mask=INSIDE') = 'TRUE')'')
     | SpBoundingBox \<Rightarrow>
         Inr (ctx2, ''(MDSYS.SDO_FILTER('' @ col @ '', '' @ reference @ '', 'querytype=WINDOW') = 'TRUE')'')
     | SpDWithin distance_meters \<Rightarrow>
         let (ctx3, distance) = bind js (PvF64 distance_meters) ctx2
         in Inr (ctx3, ''(MDSYS.SDO_WITHIN_DISTANCE('' @ col @ '', '' @ reference @ '', 'distance=' || ''
                 @ distance @ '' || ' unit=M') = 'TRUE')''))))"

definition compile_spatial_db2 :: "('json \<Rightarrow> string) \<Rightarrow> string \<Rightarrow> spatial_predicate \<Rightarrow> spatial_reference
    \<Rightarrow> 'json compile_context \<Rightarrow> 'json compiled" where
  "compile_spatial_db2 js col p r ctx =
     and_then (reference_validate r) (\<lambda>_.
     and_then (validate_predicate Db2 p r) (\<lambda>_.
     let (ctx1, g) = bind js (PvString (hex_upper (sr_ewkb r))) ctx in
     and_then (srid_as_i32 ''Db2'' (sr_srid r)) (\<lambda>srid_value.
     let (ctx2, srid) = bind js (PvI32 srid_value) ctx1;
         reference = ''ST_GEOMETRY(BLOB(HEXTORAW(CAST('' @ g @ '' AS VARCHAR(32672)))), '' @ srid @ '')''
     in and_then
          (case p of
             SpIntersects \<Rightarrow> Inr ''ST_INTERSECTS''
           | SpContains \<Rightarrow> Inr ''ST_CONTAINS''
           | SpWithin \<Rightarrow> Inr ''ST_WITHIN''
           | _ \<Rightarrow> Inl (predicate_not_qualified Db2)) (\<lambda>f.
          Inr (ctx2, ''('' @ f @ ''('' @ col @ '', '' @ reference @ '') = 1)'')))))"

definition compile_spatial_sqlserver :: "('json \<Rightarrow> string) \<Rightarrow> string \<Rightarrow> spatial_predicate \<Rightarrow> spatial_reference
    \<Rightarrow> 'json compile_context \<Rightarrow> 'json compiled" where
  "compile_spatial_sqlserver js col p r ctx =
     and_then (reference_validate r) (\<lambda>_.
     and_then (validate_predicate Sqlserver p r) (\<lambda>_.
     let constructor = (case sr_semantics r of Geometry \<Rightarrow> ''geometry::STGeomFromWKB''
                                             | Geography \<Rightarrow> ''geography::STGeomFromWKB'');
         (ctx1, g) = bind js (PvBytes (sr_ewkb r)) ctx in
     and_then (srid_as_i32 ''SQL Server'' (sr_srid r)) (\<lambda>srid_value.
     let (ctx2, srid) = bind js (PvI32 srid_value) ctx1;
         geom_expr = constructor @ ''('' @ g @ '', '' @ srid @ '')'';
         call = (\<lambda>m. Inr (ctx2, ''('' @ col @ ''.'' @ m @ ''('' @ geom_expr @ '') = 1)''))
     in case p of
       SpIntersects \<Rightarrow> call ''STIntersects''
     | SpContains \<Rightarrow> call ''STContains''
     | SpWithin \<Rightarrow> call ''STWithin''
     | SpBoundingBox \<Rightarrow>
         Inr (ctx2, ''('' @ col @ ''.STEnvelope().STIntersects(('' @ geom_expr @ '').STEnvelope()) = 1)'')
     | SpDWithin _ \<Rightarrow> Inl (predicate_not_qualified Sqlserver))))"

definition compile_spatial_postgres :: "('json \<Rightarrow> string) \<Rightarrow> string \<Rightarrow> string \<Rightarrow> spatial_predicate
    \<Rightarrow> spatial_reference \<Rightarrow> 'json compile_context \<Rightarrow> 'json compiled" where
  "compile_spatial_postgres js column col p r ctx =
     and_then (reference_validate r) (\<lambda>_.
     and_then (validate_predicate Postgres p r) (\<lambda>_.
     let cast = postgres_cast_for (sr_semantics r);
         col_cast = (if sr_semantics r = Geography then col @ ''::geography'' else col);
         (ctx1, g) = bind js (PvBytes (sr_ewkb r)) ctx in
     and_then (srid_as_i32 ''PostGIS'' (sr_srid r)) (\<lambda>srid_value.
     let (ctx2, srid) = bind js (PvI32 srid_value) ctx1 in
     and_then (ok_or (ctx_relation ctx2)
       (error_new Internal PhPrepare (Some Postgres)
          ''predicato spatial PostgreSQL senza la tabella dello statement'')) (\<lambda>relation_name.
     let (ctx3, relation) = bind js (PvString relation_name) ctx2;
         (ctx4, column_text) = bind js (PvString column) ctx3;
         geom_expr = postgres_guarded_probe g (srid @ ''::int4'') (relation @ ''::text'') (column_text @ ''::text'')
                     @ cast
     in case p of
       SpIntersects \<Rightarrow> Inr (ctx4, ''ST_Intersects('' @ col_cast @ '', '' @ geom_expr @ '')'')
     | SpContains \<Rightarrow> Inr (ctx4, ''ST_Contains('' @ col_cast @ '', '' @ geom_expr @ '')'')
     | SpWithin \<Rightarrow> Inr (ctx4, ''ST_Within('' @ col_cast @ '', '' @ geom_expr @ '')'')
     | SpBoundingBox \<Rightarrow> Inr (ctx4, col_cast @ '' && '' @ geom_expr)
     | SpDWithin distance_meters \<Rightarrow>
         let (ctx5, distance) = bind js (PvF64 distance_meters) ctx4
         in Inr (ctx5, ''ST_DWithin('' @ col_cast @ '', '' @ geom_expr @ '', '' @ distance @ '')'')))))"

definition compile_spatial_mysql :: "('json \<Rightarrow> string) \<Rightarrow> string \<Rightarrow> spatial_predicate \<Rightarrow> spatial_reference
    \<Rightarrow> 'json compile_context \<Rightarrow> 'json compiled" where
  "compile_spatial_mysql js col p r ctx =
     and_then (reference_validate r) (\<lambda>_.
     and_then (validate_predicate Mysql p r) (\<lambda>_.
     let (ctx1, g) = bind js (PvBytes (sr_ewkb r)) ctx in
     and_then (srid_as_i32 ''MySQL'' (sr_srid r)) (\<lambda>srid_value.
     let (ctx2, srid) = bind js (PvI32 srid_value) ctx1;
         geom_expr = ''ST_GeomFromWKB(CAST('' @ g @ '' AS BINARY), '' @ srid
                     @ wkb_axis_argument (ctx_dialect ctx) @ '')'';
         call = (\<lambda>f. Inr (ctx2, f @ ''('' @ col @ '', '' @ geom_expr @ '')''))
     in case p of
       SpIntersects \<Rightarrow> call ''ST_Intersects''
     | SpContains \<Rightarrow> call ''ST_Contains''
     | SpWithin \<Rightarrow> call ''ST_Within''
     | SpBoundingBox \<Rightarrow> call ''MBRIntersects''
     | SpDWithin _ \<Rightarrow> Inl (predicate_not_qualified Mysql))))"

definition compile_spatial_form :: "('json \<Rightarrow> string) \<Rightarrow> string \<Rightarrow> string \<Rightarrow> spatial_predicate
    \<Rightarrow> spatial_reference \<Rightarrow> 'json compile_context \<Rightarrow> 'json compiled" where
  "compile_spatial_form js column col p r ctx =
     (case ctx_dialect ctx of
        DkPostgres \<Rightarrow> compile_spatial_postgres js column col p r ctx
      | DkMysql \<Rightarrow> compile_spatial_mysql js col p r ctx
      | DkMariadb \<Rightarrow> compile_spatial_mysql js col p r ctx
      | DkSqlServer \<Rightarrow> compile_spatial_sqlserver js col p r ctx
      | DkDb2 \<Rightarrow> compile_spatial_db2 js col p r ctx
      | DkOracle \<Rightarrow> compile_spatial_oracle js col p r ctx)"

definition compile_spatial :: "('json \<Rightarrow> string) \<Rightarrow> string \<Rightarrow> spatial_predicate \<Rightarrow> spatial_reference
    \<Rightarrow> 'json compile_context \<Rightarrow> 'json compiled" where
  "compile_spatial js column p r ctx =
     and_then (quote_name column (ctx_dialect ctx)) (\<lambda>col.
     and_then (reference_validate r) (\<lambda>_.
     and_then (admit_probe (dialect_provider (ctx_dialect ctx)) EvCompileOnly
                 (if p = SpBoundingBox then UseBoundingBox else UseFunction)
                 (if sr_srid r = 0 then FrMissing else FrDeclared (sr_srid r))) (\<lambda>_.
     compile_spatial_form js column col p r ctx)))"

section \<open>Predicates\<close>

text \<open>The six comparisons share one body; the operator is the text between column and value.\<close>

definition compile_comparison :: "('json \<Rightarrow> string) \<Rightarrow> string \<Rightarrow> string \<Rightarrow> 'json expression
    \<Rightarrow> 'json compile_context \<Rightarrow> 'json compiled" where
  "compile_comparison js operator column e ctx =
     and_then (quote_name column (ctx_dialect ctx)) (\<lambda>c.
     and_then (compile_expression js e ctx) (\<lambda>(ctx', v). Inr (ctx', c @ operator @ v)))"

function compile_predicate :: "('json \<Rightarrow> string) \<Rightarrow> 'json portable_predicate \<Rightarrow> 'json compile_context \<Rightarrow> 'json compiled"
  and compile_predicate_inner :: "('json \<Rightarrow> string) \<Rightarrow> 'json portable_predicate \<Rightarrow> 'json compile_context \<Rightarrow> 'json compiled"
where
  "compile_predicate js p ctx =
     and_then (compile_predicate_inner js p (ctx\<lparr>ctx_in_predicate := True\<rparr>)) (\<lambda>(ctx', sql).
       Inr (ctx'\<lparr>ctx_in_predicate := ctx_in_predicate ctx\<rparr>, sql))"
| "compile_predicate_inner js (PrEq column e) ctx = compile_comparison js '' = '' column e ctx"
| "compile_predicate_inner js (PrNe column e) ctx = compile_comparison js '' <> '' column e ctx"
| "compile_predicate_inner js (PrLt column e) ctx = compile_comparison js '' < '' column e ctx"
| "compile_predicate_inner js (PrLte column e) ctx = compile_comparison js '' <= '' column e ctx"
| "compile_predicate_inner js (PrGt column e) ctx = compile_comparison js '' > '' column e ctx"
| "compile_predicate_inner js (PrGte column e) ctx = compile_comparison js '' >= '' column e ctx"
| "compile_predicate_inner js (PrLike column e) ctx = compile_comparison js '' LIKE '' column e ctx"
| "compile_predicate_inner js (PrIn column es) ctx =
     (if es = [] then Inl (invalid_plan ''IN richiede almeno un valore'')
      else and_then (quote_name column (ctx_dialect ctx)) (\<lambda>c.
           and_then (collect (compile_expression js) es ctx) (\<lambda>(ctx', items).
           Inr (ctx', c @ '' IN ('' @ join '', '' items @ '')''))))"
| "compile_predicate_inner js (PrBetween column low high) ctx =
     and_then (quote_name column (ctx_dialect ctx)) (\<lambda>c.
     and_then (compile_expression js low ctx) (\<lambda>(ctx1, l).
     and_then (compile_expression js high ctx1) (\<lambda>(ctx2, h).
     Inr (ctx2, c @ '' BETWEEN '' @ l @ '' AND '' @ h))))"
| "compile_predicate_inner js (PrIsNull column) ctx =
     and_then (quote_name column (ctx_dialect ctx)) (\<lambda>c. Inr (ctx, c @ '' IS NULL''))"
| "compile_predicate_inner js (PrIsNotNull column) ctx =
     and_then (quote_name column (ctx_dialect ctx)) (\<lambda>c. Inr (ctx, c @ '' IS NOT NULL''))"
| "compile_predicate_inner js (PrAnd ps) ctx =
     (if ps = [] then Inl (invalid_plan ''AND richiede almeno un predicato'')
      else and_then (collect (compile_predicate js) ps ctx) (\<lambda>(ctx', parts).
           Inr (ctx', ''('' @ join '' AND '' parts @ '')'')))"
| "compile_predicate_inner js (PrOr ps) ctx =
     (if ps = [] then Inl (invalid_plan ''OR richiede almeno un predicato'')
      else and_then (collect (compile_predicate js) ps ctx) (\<lambda>(ctx', parts).
           Inr (ctx', ''('' @ join '' OR '' parts @ '')'')))"
| "compile_predicate_inner js (PrNot p) ctx =
     and_then (compile_predicate js p ctx) (\<lambda>(ctx', inner). Inr (ctx', ''NOT ('' @ inner @ '')''))"
| "compile_predicate_inner js (PrSpatial column p r) ctx = compile_spatial js column p r ctx"
  by pat_completeness auto

termination
  by (relation "measure (case_sum (\<lambda>(_, p, _). 2 * size p + 1) (\<lambda>(_, p, _). 2 * size p))")
    (auto simp: less_Suc_eq_le dest: size_list_estimation' [where f = size])

section \<open>Clauses\<close>

definition compile_projection :: "projection \<Rightarrow> dialect_kind \<Rightarrow> string result" where
  "compile_projection p dialect =
     (case p of
        PjAll \<Rightarrow> Inr ''*''
      | PjColumns cols \<Rightarrow>
          if cols = []
          then Inl (invalid_plan (''projection esplicita non pu'' @ [CHR 0xC3, CHR 0xB2] @ '' essere vuota''))
          else and_then (try_collect (\<lambda>c. quote_name c dialect) cols) (\<lambda>quoted. Inr (join '', '' quoted)))"

definition order_clause :: "dialect_kind \<Rightarrow> order_by_column \<Rightarrow> string result" where
  "order_clause dialect ob =
     and_then (quote_name (oc_column ob) dialect) (\<lambda>col.
     let dir = (case oc_direction ob of DirAsc \<Rightarrow> ''ASC'' | DirDesc \<Rightarrow> ''DESC'')
     in Inr (col @ '' '' @ dir @
          (case oc_nulls ob of
             None \<Rightarrow> []
           | Some n \<Rightarrow> if dialect \<in> {DkPostgres, DkOracle}
                       then (case n of NuFirst \<Rightarrow> '' NULLS FIRST'' | NuLast \<Rightarrow> '' NULLS LAST'')
                       else [])))"

definition compile_order_by :: "order_by_column list \<Rightarrow> dialect_kind \<Rightarrow> string result" where
  "compile_order_by obs dialect =
     and_then (try_collect (order_clause dialect) obs) (\<lambda>parts. Inr (join '', '' parts))"

datatype returning_clause = RcNothing | RcSuffix string | RcOutput string

definition clause_inline :: "returning_clause \<Rightarrow> string" where
  "clause_inline c = (case c of RcOutput s \<Rightarrow> s | _ \<Rightarrow> [])"

definition clause_suffix :: "returning_clause \<Rightarrow> string" where
  "clause_suffix c = (case c of RcSuffix s \<Rightarrow> s | _ \<Rightarrow> [])"

definition clause_is_empty :: "returning_clause \<Rightarrow> bool" where
  "clause_is_empty c \<longleftrightarrow> c = RcNothing"

definition returning_refusal :: "dialect_kind \<Rightarrow> returning_form \<Rightarrow> (provider_kind \<times> string) option" where
  "returning_refusal dialect form =
     (case dialect of
        DkPostgres \<Rightarrow> None
      | DkDb2 \<Rightarrow> Some (Db2, ''Db2 non espone RETURNING nella forma portable '' @ form_label form
                 @ '': usa una SELECT esplicita post-DML'')
      | DkOracle \<Rightarrow> Some (Oracle, ''Oracle richiede bind OUT per RETURNING nella forma '' @ form_label form
                 @ '': usa una SELECT esplicita post-DML'')
      | DkMysql \<Rightarrow> Some (Mysql, ''RETURNING non esiste su MySQL, a nessuna versione e in nessuna forma. ''
                 @ ''Usa una SELECT esplicita post-DML.'')
      | DkSqlServer \<Rightarrow>
          if form = RfUpsert
          then Some (Sqlserver, ''l'upsert T-SQL e un UPDATE seguito da un INSERT condizionale sotto lock, e ''
                 @ ''OUTPUT appartiene a un solo statement: le righe restituite dipenderebbero ''
                 @ ''da quale dei due ha agito. Usa una SELECT esplicita post-scrittura.'')
          else None
      | DkMariadb \<Rightarrow>
          if form = RfUpdate
          then Some (Mariadb, ''MariaDB non ammette RETURNING su '' @ form_label form
                 @ '': il server risponde con un errore di sintassi. Le altre forme di scrittura lo ammettono.'')
          else None)"

definition compile_returning :: "string list \<Rightarrow> dialect_kind \<Rightarrow> returning_form \<Rightarrow> returning_clause result" where
  "compile_returning returning dialect form =
     (if returning = [] then Inr RcNothing
      else case returning_refusal dialect form of
        Some (kind, message) \<Rightarrow> Inl (unsupported kind PhPrepare message)
      | None \<Rightarrow>
          and_then (try_collect (\<lambda>c. quote_name c dialect) returning) (\<lambda>cols.
          if dialect = DkSqlServer
          then let table = (if form = RfDelete then ''DELETED'' else ''INSERTED'')
               in Inr (RcOutput ('' OUTPUT '' @ join '', '' (map (\<lambda>column. table @ ''.'' @ column) cols)))
          else Inr (RcSuffix ('' RETURNING '' @ join '', '' cols))))"

section \<open>Statements\<close>

definition compile_where :: "('json \<Rightarrow> string) \<Rightarrow> 'json portable_predicate option \<Rightarrow> 'json compile_context \<Rightarrow> 'json compiled" where
  "compile_where js flt ctx =
     (case flt of
        None \<Rightarrow> Inr (ctx, [])
      | Some p \<Rightarrow>
          and_then (compile_predicate js p ctx) (\<lambda>(ctx', where_sql). Inr (ctx', '' WHERE '' @ where_sql)))"

definition set_relation :: "string \<Rightarrow> 'json compile_context \<Rightarrow> 'json compile_context" where
  "set_relation table ctx = ctx\<lparr>ctx_relation := Some table\<rparr>"

definition compile_select :: "('json \<Rightarrow> string) \<Rightarrow> 'json select_statement \<Rightarrow> 'json compile_context \<Rightarrow> 'json compiled" where
  "compile_select js s ctx =
     and_then (compile_projection (sel_projection s) (ctx_dialect ctx)) (\<lambda>projection.
     and_then (qualify_table (sel_table s) (ctx_dialect ctx)) (\<lambda>table.
     let top = (case (ctx_dialect ctx, sel_limit s) of
                  (DkSqlServer, Some limit) \<Rightarrow> ''TOP ('' @ show_nat (unat limit) @ '') '' | _ \<Rightarrow> []);
         sql = ''SELECT '' @ top @ projection @ '' FROM '' @ table
     in and_then (compile_where js (sel_filter s) (set_relation table ctx)) (\<lambda>(ctx', where_sql).
        and_then (if sel_order_by s = [] then Inr []
                  else and_then (compile_order_by (sel_order_by s) (ctx_dialect ctx')) (\<lambda>ob.
                       Inr ('' ORDER BY '' @ ob))) (\<lambda>order_sql.
        Inr (ctx', sql @ where_sql @ order_sql @
          (case sel_limit s of
             None \<Rightarrow> []
           | Some limit \<Rightarrow>
               (case ctx_dialect ctx' of
                  DkSqlServer \<Rightarrow> []
                | DkDb2 \<Rightarrow> '' FETCH FIRST '' @ show_nat (unat limit) @ '' ROWS ONLY''
                | DkOracle \<Rightarrow> '' FETCH FIRST '' @ show_nat (unat limit) @ '' ROWS ONLY''
                | _ \<Rightarrow> '' LIMIT '' @ show_nat (unat limit))))))))"

fun check_arity :: "string \<Rightarrow> nat \<Rightarrow> nat \<Rightarrow> 'a list list \<Rightarrow> unit result" where
  "check_arity form columns i [] = Inr ()"
| "check_arity form columns i (row # rows) =
     (if length row \<noteq> columns
      then Inl (invalid_plan (form @ '' riga '' @ show_nat i @ '': arity '' @ show_nat (length row)
             @ '' non allineata a colonne '' @ show_nat columns))
      else check_arity form columns (i + 1) rows)"

text \<open>\<open>col = expr\<close>, the assignment of an \<open>UPDATE\<close> and of a conflict clause.\<close>

definition compile_assignment :: "('json \<Rightarrow> string) \<Rightarrow> string \<times> 'json expression \<Rightarrow> 'json compile_context
    \<Rightarrow> 'json compiled" where
  "compile_assignment js a ctx =
     and_then (quote_name (fst a) (ctx_dialect ctx)) (\<lambda>c.
     and_then (compile_expression js (snd a) ctx) (\<lambda>(ctx', e). Inr (ctx', c @ '' = '' @ e)))"

definition compile_insert :: "('json \<Rightarrow> string) \<Rightarrow> 'json insert_statement \<Rightarrow> 'json compile_context \<Rightarrow> 'json compiled" where
  "compile_insert js s ctx =
     (if ins_columns s = [] then Inl (invalid_plan ''INSERT richiede almeno una colonna'')
      else if ins_values s = [] then Inl (invalid_plan ''INSERT richiede almeno una riga'')
      else
        and_then (check_arity ''INSERT'' (length (ins_columns s)) 0 (ins_values s)) (\<lambda>_.
        and_then (qualify_table (ins_table s) (ctx_dialect ctx)) (\<lambda>table.
        and_then (try_collect (\<lambda>c. quote_name c (ctx_dialect ctx)) (ins_columns s)) (\<lambda>cols.
        let cols_sql = join '', '' cols;
            rows = collect (\<lambda>row c. and_then (collect (compile_expression js) row c) (\<lambda>(c', ps).
                              Inr (c', ''('' @ join '', '' ps @ '')''))) (ins_values s) ctx
        in and_then (compile_returning (ins_returning s) (ctx_dialect ctx) RfInsert) (\<lambda>returning.
           and_then rows (\<lambda>(ctx', row_sql).
           Inr (ctx', ''INSERT INTO '' @ table @ '' ('' @ cols_sql @ '')'' @ clause_inline returning
             @ '' VALUES '' @ join '', '' row_sql @ clause_suffix returning)))))))"

definition compile_update :: "('json \<Rightarrow> string) \<Rightarrow> 'json update_statement \<Rightarrow> 'json compile_context \<Rightarrow> 'json compiled" where
  "compile_update js s ctx =
     (if upd_assignments s = [] then Inl (invalid_plan ''UPDATE richiede almeno un assignment'')
      else
        and_then (qualify_table (upd_table s) (ctx_dialect ctx)) (\<lambda>table.
        let sets = collect (compile_assignment js) (upd_assignments s) ctx
        in and_then (compile_returning (upd_returning s) (ctx_dialect ctx) RfUpdate) (\<lambda>returning.
           and_then sets (\<lambda>(ctx1, set_sql).
           and_then (compile_where js (upd_filter s) (set_relation table ctx1)) (\<lambda>(ctx2, where_sql).
           Inr (ctx2, ''UPDATE '' @ table @ '' SET '' @ join '', '' set_sql @ clause_inline returning
             @ where_sql @ clause_suffix returning))))))"

definition compile_delete :: "('json \<Rightarrow> string) \<Rightarrow> 'json delete_statement \<Rightarrow> 'json compile_context \<Rightarrow> 'json compiled" where
  "compile_delete js s ctx =
     and_then (qualify_table (del_table s) (ctx_dialect ctx)) (\<lambda>table.
     and_then (compile_returning (del_returning s) (ctx_dialect ctx) RfDelete) (\<lambda>returning.
     and_then (compile_where js (del_filter s) (set_relation table ctx)) (\<lambda>(ctx', where_sql).
     Inr (ctx', ''DELETE FROM '' @ table @ clause_inline returning @ where_sql @ clause_suffix returning))))"

section \<open>Upsert\<close>

definition row_text :: "string list \<Rightarrow> string" where
  "row_text row = ''('' @ join '', '' row @ '')''"

definition insert_values :: "string \<Rightarrow> string \<Rightarrow> string list list \<Rightarrow> string" where
  "insert_values table cols_sql rows =
     ''INSERT INTO '' @ table @ '' ('' @ cols_sql @ '') VALUES '' @ join '', '' (map row_text rows)"

definition placeholder_of :: "'json upsert_statement \<Rightarrow> string list \<Rightarrow> string \<Rightarrow> string result" where
  "placeholder_of s row column =
     and_then (ok_or (find_position (\<lambda>c. c = column) (ups_columns s))
       (invalid_plan (''conflict_target nomina una colonna che l'upsert non scrive: '' @ column))) (\<lambda>index.
     if index < length row then Inr (row ! index)
     else Inl (invalid_plan ''riga upsert piu corta dell'elenco delle colonne''))"

definition compile_upsert_sqlserver :: "('json \<Rightarrow> string) \<Rightarrow> 'json upsert_statement \<Rightarrow> string \<Rightarrow> string
    \<Rightarrow> string list list \<Rightarrow> 'json compile_context \<Rightarrow> 'json compiled" where
  "compile_upsert_sqlserver js s table cols_sql rows ctx =
     and_then (compile_returning (ups_returning s) (ctx_dialect ctx) RfUpsert) (\<lambda>_.
     case rows of
       [row] \<Rightarrow>
         if ups_conflict_target s = []
         then Inl (invalid_plan
           (''l'upsert T-SQL richiede un conflict_target esplicito: e la condizione con cui ''
            @ ''             cerca la riga esistente''))
         else
           and_then (try_collect (\<lambda>column.
               and_then (quote_name column (ctx_dialect ctx)) (\<lambda>quoted.
               and_then (placeholder_of s row column) (\<lambda>v. Inr (quoted @ '' = '' @ v)))) (ups_conflict_target s))
             (\<lambda>conditions.
           let condition = join '' AND '' conditions;
               vals = row_text row
           in if ups_update_on_conflict s = []
              then Inr (ctx, ''IF NOT EXISTS (SELECT 1 FROM '' @ table @ '' WITH (UPDLOCK, HOLDLOCK) WHERE ''
                     @ condition @ '')              INSERT INTO '' @ table @ '' ('' @ cols_sql @ '') VALUES ''
                     @ vals @ '';'')
              else and_then (collect (compile_assignment js) (ups_update_on_conflict s) ctx) (\<lambda>(ctx', sets).
                   Inr (ctx', ''UPDATE '' @ table @ '' WITH (UPDLOCK, HOLDLOCK) SET '' @ join '', '' sets
                     @ '' WHERE '' @ condition @ '';          IF @@ROWCOUNT = 0 INSERT INTO '' @ table @ '' (''
                     @ cols_sql @ '') VALUES '' @ vals @ '';'')))
     | _ \<Rightarrow> Inl (unsupported Sqlserver PhPrepare
         (''l'upsert T-SQL vale su una riga per volta e ne sono arrivate '' @ show_nat (length rows)
          @ '': la forma condizionale ragiona su una chiave sola. Usa un INSERT multi-riga per i dati ''
          @ ''nuovi, oppure un upsert per riga.'')))"

record merge_syntax =
  ms_target_alias :: string
  ms_predicate_parentheses :: bool
  ms_provider :: provider_kind

definition source_column :: "'json upsert_statement \<Rightarrow> dialect_kind \<Rightarrow> string \<Rightarrow> string result" where
  "source_column s dialect name =
     (if name \<notin> set (ups_columns s)
      then Inl (invalid_plan (''conflict_target nomina una colonna che l'upsert non scrive: '' @ name))
      else quote_name name dialect)"

definition merge_value :: "('json \<Rightarrow> string) \<Rightarrow> provider_kind \<Rightarrow> 'json expression \<Rightarrow> 'json compile_context
    \<Rightarrow> 'json compiled" where
  "merge_value js provider e ctx =
     (case e of
        ExLiteral v \<Rightarrow> Inr (bind js v ctx)
      | ExTypedParameter _ \<Rightarrow> Inr (bind js (PvI64 0) ctx)
      | ExColumn name \<Rightarrow> and_then (quote_name name (ctx_dialect ctx)) (\<lambda>c. Inr (ctx, ''T.'' @ c))
      | ExSpatialValue _ _ _ \<Rightarrow>
          Inl (unsupported provider PhPrepare ''bind spatial non qualificato nell'upsert MERGE''))"

definition merge_assignment :: "('json \<Rightarrow> string) \<Rightarrow> provider_kind \<Rightarrow> string \<times> 'json expression
    \<Rightarrow> 'json compile_context \<Rightarrow> 'json compiled" where
  "merge_assignment js provider a ctx =
     and_then (quote_name (fst a) (ctx_dialect ctx)) (\<lambda>column.
     and_then (merge_value js provider (snd a) ctx) (\<lambda>(ctx', e). Inr (ctx', ''T.'' @ column @ '' = '' @ e)))"

definition compile_upsert_merge :: "('json \<Rightarrow> string) \<Rightarrow> 'json upsert_statement \<Rightarrow> string \<Rightarrow> string list
    \<Rightarrow> string \<Rightarrow> merge_syntax \<Rightarrow> 'json compile_context \<Rightarrow> 'json compiled" where
  "compile_upsert_merge js s table cols source syntax ctx =
     and_then (compile_returning (ups_returning s) (ctx_dialect ctx) RfUpsert) (\<lambda>_.
     and_then (try_collect (\<lambda>column.
         and_then (source_column s (ctx_dialect ctx) column) (\<lambda>quoted.
         Inr (''T.'' @ quoted @ '' = S.'' @ quoted))) (ups_conflict_target s)) (\<lambda>predicates.
     let insert_vals = join '', '' (map (\<lambda>column. ''S.'' @ column) cols);
         joined = join '' AND '' predicates;
         on = (if ms_predicate_parentheses syntax then ''('' @ joined @ '')'' else joined);
         sql = ''MERGE INTO '' @ table @ ms_target_alias syntax @ '' USING '' @ source @ '' ON '' @ on
     in and_then
          (if ups_update_on_conflict s = [] then Inr (ctx, [])
           else and_then (collect (merge_assignment js (ms_provider syntax)) (ups_update_on_conflict s) ctx)
             (\<lambda>(ctx', assignments). Inr (ctx', '' WHEN MATCHED THEN UPDATE SET '' @ join '', '' assignments)))
          (\<lambda>(ctx', matched).
        Inr (ctx', sql @ matched @ '' WHEN NOT MATCHED THEN INSERT ('' @ join '', '' cols @ '') VALUES (''
          @ insert_vals @ '')''))))"

definition compile_upsert_db2 :: "('json \<Rightarrow> string) \<Rightarrow> 'json upsert_statement \<Rightarrow> string \<Rightarrow> string list
    \<Rightarrow> string list list \<Rightarrow> 'json compile_context \<Rightarrow> 'json compiled" where
  "compile_upsert_db2 js s table cols rows ctx =
     (let source = ''(VALUES '' @ join '', '' (map row_text rows) @ '') AS S ('' @ join '', '' cols @ '')''
      in compile_upsert_merge js s table cols source
           \<lparr>ms_target_alias = '' AS T'', ms_predicate_parentheses = False, ms_provider = Db2\<rparr> ctx)"

definition compile_upsert_oracle :: "('json \<Rightarrow> string) \<Rightarrow> 'json upsert_statement \<Rightarrow> string \<Rightarrow> string list
    \<Rightarrow> string list list \<Rightarrow> 'json compile_context \<Rightarrow> 'json compiled" where
  "compile_upsert_oracle js s table cols rows ctx =
     (let source_rows = join '' UNION ALL '' (map (\<lambda>row.
            ''SELECT '' @ join '', '' (map (\<lambda>(v, column). v @ '' AS '' @ column) (zip row cols)) @ '' FROM DUAL'') rows)
      in compile_upsert_merge js s table cols (''('' @ source_rows @ '') S'')
           \<lparr>ms_target_alias = '' T'', ms_predicate_parentheses = True, ms_provider = Oracle\<rparr> ctx)"

text \<open>\<open>str::replacen(pat, to, 1)\<close>: the first occurrence of a non-empty pattern.\<close>

fun replace_first :: "string \<Rightarrow> string \<Rightarrow> string \<Rightarrow> string" where
  "replace_first pat to [] = []"
| "replace_first pat to (c # cs) =
     (if starts_with (c # cs) pat then to @ drop (length pat) (c # cs) else c # replace_first pat to cs)"

text \<open>The two conflict clauses of an \<open>INSERT .. VALUES\<close>, and what every one of them ends with.\<close>

definition compile_on_conflict :: "('json \<Rightarrow> string) \<Rightarrow> 'json upsert_statement \<Rightarrow> string
    \<Rightarrow> 'json compile_context \<Rightarrow> 'json compiled" where
  "compile_on_conflict js s plain ctx =
     and_then (try_collect (\<lambda>c. quote_name c (ctx_dialect ctx)) (ups_conflict_target s)) (\<lambda>conflict.
     let sql = plain @ '' ON CONFLICT ('' @ join '', '' conflict @ '')''
     in if ups_update_on_conflict s = [] then Inr (ctx, sql @ '' DO NOTHING'')
        else and_then (collect (compile_assignment js) (ups_update_on_conflict s) ctx) (\<lambda>(ctx', sets).
             Inr (ctx', sql @ '' DO UPDATE SET '' @ join '', '' sets)))"

definition compile_on_duplicate_key :: "('json \<Rightarrow> string) \<Rightarrow> 'json upsert_statement \<Rightarrow> string
    \<Rightarrow> 'json compile_context \<Rightarrow> 'json compiled" where
  "compile_on_duplicate_key js s plain ctx =
     (if ups_update_on_conflict s = []
      then Inr (ctx, replace_first ''INSERT INTO'' ''INSERT IGNORE INTO'' plain)
      else and_then (collect (compile_assignment js) (ups_update_on_conflict s) ctx) (\<lambda>(ctx', sets).
           Inr (ctx', plain @ '' ON DUPLICATE KEY UPDATE '' @ join '', '' sets)))"

definition with_returning :: "'json upsert_statement \<Rightarrow> 'json compiled \<Rightarrow> 'json compiled" where
  "with_returning s compiled =
     and_then compiled (\<lambda>(ctx, sql).
     and_then (compile_returning (ups_returning s) (ctx_dialect ctx) RfUpsert) (\<lambda>returning.
     Inr (ctx, sql @ clause_suffix returning)))"

definition compile_upsert :: "('json \<Rightarrow> string) \<Rightarrow> 'json upsert_statement \<Rightarrow> 'json compile_context \<Rightarrow> 'json compiled" where
  "compile_upsert js s ctx =
     (if ups_columns s = [] \<or> ups_values s = [] then Inl (invalid_plan ''UPSERT richiede colonne e valori'')
      else if ups_conflict_target s = [] then Inl (invalid_plan ''UPSERT richiede conflict_target non vuoto'')
      else
        and_then (check_arity ''UPSERT'' (length (ups_columns s)) 0 (ups_values s)) (\<lambda>_.
        and_then (qualify_table (ups_table s) (ctx_dialect ctx)) (\<lambda>table.
        and_then (try_collect (\<lambda>c. quote_name c (ctx_dialect ctx)) (ups_columns s)) (\<lambda>cols.
        let cols_sql = join '', '' cols in
        and_then (collect (collect (compile_expression js)) (ups_values s) ctx) (\<lambda>(ctx1, rows).
        case ctx_dialect ctx1 of
          DkSqlServer \<Rightarrow> compile_upsert_sqlserver js s table cols_sql rows ctx1
        | DkDb2 \<Rightarrow> compile_upsert_db2 js s table cols rows ctx1
        | DkOracle \<Rightarrow> compile_upsert_oracle js s table cols rows ctx1
        | DkPostgres \<Rightarrow>
            with_returning s (compile_on_conflict js s (insert_values table cols_sql rows) ctx1)
        | DkMysql \<Rightarrow>
            with_returning s (compile_on_duplicate_key js s (insert_values table cols_sql rows) ctx1)
        | DkMariadb \<Rightarrow>
            with_returning s (compile_on_duplicate_key js s (insert_values table cols_sql rows) ctx1))))))"

section \<open>The compiler\<close>

record 'json compiled_portable =
  cp_sql :: string
  cp_params :: "'json parameter_value list"

definition param_count :: "'json compiled_portable \<Rightarrow> nat" where
  "param_count c = length (cp_params c)"

definition dialect_of_provider :: "provider_kind \<Rightarrow> dialect_kind result" where
  "dialect_of_provider kind =
     (case kind of
        Postgres \<Rightarrow> Inr DkPostgres | Mysql \<Rightarrow> Inr DkMysql | Mariadb \<Rightarrow> Inr DkMariadb
      | Sqlserver \<Rightarrow> Inr DkSqlServer | Oracle \<Rightarrow> Inr DkOracle | Db2 \<Rightarrow> Inr DkDb2
      | Sqlite \<Rightarrow> Inl (unsupported Sqlite PhPrepare ''compile_portable non supportato per Sqlite'')
      | Duckdb \<Rightarrow> Inl (unsupported Duckdb PhPrepare ''compile_portable non supportato per Duckdb''))"

definition compile_statement :: "('json \<Rightarrow> string) \<Rightarrow> 'json portable_statement \<Rightarrow> 'json compile_context
    \<Rightarrow> 'json compiled" where
  "compile_statement js st ctx =
     (case st of
        PsSelect s \<Rightarrow> compile_select js s ctx
      | PsInsert s \<Rightarrow> compile_insert js s ctx
      | PsUpdate s \<Rightarrow> compile_update js s ctx
      | PsDelete s \<Rightarrow> compile_delete js s ctx
      | PsUpsert s \<Rightarrow> compile_upsert js s ctx)"

definition compile_portable :: "('json \<Rightarrow> string) \<Rightarrow> provider_kind \<Rightarrow> 'json portable_statement
    \<Rightarrow> 'json compiled_portable result" where
  "compile_portable js kind st =
     and_then (dialect_of_provider kind) (\<lambda>dialect.
     and_then (compile_statement js st (context_new dialect)) (\<lambda>(ctx, sql).
     Inr \<lparr>cp_sql = sql, cp_params = ctx_params ctx\<rparr>))"

end
