(* ===== verification/Portable_Proofs.thy ===== *)
theory Portable_Proofs
  imports Portable
begin

text \<open>
  What \<open>compile_portable\<close> promises.  The bound parameters are exactly the values of the statement and the sentinels of
  its typed parameters, in the order the statement has them; every name it writes has passed the identifier rules of the dialect; and the
  SQL text depends on the statement without its values alone, so no value can reach the text.
\<close>

section \<open>The values and the names of a statement\<close>

definition bound :: "('json \<Rightarrow> string) \<Rightarrow> dialect_kind \<Rightarrow> 'json parameter_value \<Rightarrow> 'json parameter_value" where
  "bound js d v = (case (d, v) of (DkMysql, PvJson document) \<Rightarrow> PvString (js document) | _ \<Rightarrow> v)"

text \<open>
  A typed parameter has no value in the statement: the code binds the sentinel \<open>0\<close> for it, so that its placeholder
  takes its place in the numbering (\<open>compile_expression\<close> and the assignments of a \<open>MERGE\<close> in \<open>compiler.rs\<close>).
\<close>

definition typed_sentinel :: "'json parameter_value" where
  "typed_sentinel = PvI64 0"

fun expression_binds :: "('json \<Rightarrow> string) \<Rightarrow> dialect_kind \<Rightarrow> 'json expression \<Rightarrow> 'json parameter_value list" where
  "expression_binds js d (ExLiteral v) = [bound js d v]"
| "expression_binds js d (ExTypedParameter t) = [typed_sentinel]"
| "expression_binds js d (ExColumn name) = []"
| "expression_binds js d (ExSpatialValue e srid semantics) =
     (case (d, literal_bytes e) of
        (DkDb2, Some bytes) \<Rightarrow> [PvString (hex_upper bytes)] | _ \<Rightarrow> expression_binds js d e)"

fun expression_names :: "'json expression \<Rightarrow> string list" where
  "expression_names (ExColumn name) = [name]"
| "expression_names (ExSpatialValue e srid semantics) = expression_names e"
| "expression_names _ = []"

text \<open>A spatial predicate binds the geometry and its SRID; PostgreSQL also the table and the column its guard
  looks up; a distance comes last.\<close>

definition spatial_binds :: "dialect_kind \<Rightarrow> string option \<Rightarrow> string \<Rightarrow> spatial_predicate \<Rightarrow> spatial_reference
    \<Rightarrow> 'json parameter_value list" where
  "spatial_binds d relation column p r =
     [if d = DkDb2 then PvString (hex_upper (sr_ewkb r)) else PvBytes (sr_ewkb r), PvI32 (sr_srid r)]
     @ (if d = DkPostgres then [PvString (the relation), PvString column] else [])
     @ (case p of SpDWithin distance \<Rightarrow> [PvF64 distance] | _ \<Rightarrow> [])"

fun predicate_binds :: "('json \<Rightarrow> string) \<Rightarrow> dialect_kind \<Rightarrow> string option \<Rightarrow> 'json portable_predicate
    \<Rightarrow> 'json parameter_value list" where
  "predicate_binds js d rel (PrEq c e) = expression_binds js d e"
| "predicate_binds js d rel (PrNe c e) = expression_binds js d e"
| "predicate_binds js d rel (PrLt c e) = expression_binds js d e"
| "predicate_binds js d rel (PrLte c e) = expression_binds js d e"
| "predicate_binds js d rel (PrGt c e) = expression_binds js d e"
| "predicate_binds js d rel (PrGte c e) = expression_binds js d e"
| "predicate_binds js d rel (PrLike c e) = expression_binds js d e"
| "predicate_binds js d rel (PrIn c es) = concat (map (expression_binds js d) es)"
| "predicate_binds js d rel (PrBetween c low high) = expression_binds js d low @ expression_binds js d high"
| "predicate_binds js d rel (PrIsNull c) = []"
| "predicate_binds js d rel (PrIsNotNull c) = []"
| "predicate_binds js d rel (PrAnd ps) = concat (map (predicate_binds js d rel) ps)"
| "predicate_binds js d rel (PrOr ps) = concat (map (predicate_binds js d rel) ps)"
| "predicate_binds js d rel (PrNot p) = predicate_binds js d rel p"
| "predicate_binds js d rel (PrSpatial c p r) = spatial_binds d rel c p r"

fun predicate_names :: "'json portable_predicate \<Rightarrow> string list" where
  "predicate_names (PrEq c e) = c # expression_names e"
| "predicate_names (PrNe c e) = c # expression_names e"
| "predicate_names (PrLt c e) = c # expression_names e"
| "predicate_names (PrLte c e) = c # expression_names e"
| "predicate_names (PrGt c e) = c # expression_names e"
| "predicate_names (PrGte c e) = c # expression_names e"
| "predicate_names (PrLike c e) = c # expression_names e"
| "predicate_names (PrIn c es) = c # concat (map expression_names es)"
| "predicate_names (PrBetween c low high) = c # expression_names low @ expression_names high"
| "predicate_names (PrIsNull c) = [c]"
| "predicate_names (PrIsNotNull c) = [c]"
| "predicate_names (PrAnd ps) = concat (map predicate_names ps)"
| "predicate_names (PrOr ps) = concat (map predicate_names ps)"
| "predicate_names (PrNot p) = predicate_names p"
| "predicate_names (PrSpatial c p r) = [c]"

definition names_ok :: "dialect_kind \<Rightarrow> string list \<Rightarrow> bool" where
  "names_ok d names \<longleftrightarrow> list_all (identifier_ok (identifier_dialect_of d)) names"

lemma names_ok_simps [simp]:
  "names_ok d []"
  "names_ok d (n # ns) \<longleftrightarrow> identifier_ok (identifier_dialect_of d) n \<and> names_ok d ns"
  "names_ok d (xs @ ys) \<longleftrightarrow> names_ok d xs \<and> names_ok d ys"
  by (simp_all add: names_ok_def)

section \<open>What compiling does to the context\<close>

definition extend :: "'json parameter_value list \<Rightarrow> 'json compile_context \<Rightarrow> 'json compile_context" where
  "extend vs ctx = ctx\<lparr>ctx_params := ctx_params ctx @ vs\<rparr>"

lemma extend_simps [simp]:
  "ctx_params (extend vs ctx) = ctx_params ctx @ vs"
  "ctx_dialect (extend vs ctx) = ctx_dialect ctx"
  "ctx_relation (extend vs ctx) = ctx_relation ctx"
  "ctx_in_predicate (extend vs ctx) = ctx_in_predicate ctx"
  "extend [] ctx = ctx"
  "extend ws (extend vs ctx) = extend (vs @ ws) ctx"
  by (simp_all add: extend_def)

lemma extend_update [simp]:
  "(extend vs (ctx\<lparr>ctx_in_predicate := b\<rparr>))\<lparr>ctx_in_predicate := ctx_in_predicate ctx\<rparr> = extend vs ctx"
  "extend vs (set_relation t ctx) = set_relation t (extend vs ctx)"
  by (simp_all add: extend_def set_relation_def)

lemma set_relation_simps [simp]:
  "ctx_dialect (set_relation t ctx) = ctx_dialect ctx"
  "ctx_relation (set_relation t ctx) = Some t"
  "ctx_params (set_relation t ctx) = ctx_params ctx"
  by (simp_all add: set_relation_def)

lemma bind_context: "fst (bind js v ctx) = extend [bound js (ctx_dialect ctx) v] ctx"
  by (cases "ctx_dialect ctx"; cases v)
    (simp_all add: bind_def bound_def push_param_def extend_def Let_def)

lemma bind_pair: "bind js v ctx = (ctx', p) \<Longrightarrow> ctx' = extend [bound js (ctx_dialect ctx) v] ctx"
  using bind_context [of js v ctx] by simp

lemma bound_plain [simp]:
  "bound js d (PvI64 i) = PvI64 i" "bound js d (PvI32 k) = PvI32 k" "bound js d (PvBytes b) = PvBytes b"
  "bound js d (PvString s) = PvString s" "bound js d (PvF64 f) = PvF64 f"
  by (cases d; simp add: bound_def)+

lemma quote_name_Inr: "quote_name n d = Inr q \<Longrightarrow> identifier_ok (identifier_dialect_of d) n"
  by (simp add: quote_name_def quote_identifier_Inr)

lemma quote_names_Inr:
  "try_collect (\<lambda>c. quote_name c d) ns = Inr qs \<Longrightarrow> names_ok d ns"
  by (induction ns arbitrary: qs) (auto simp: result_simps dest: quote_name_Inr)

text \<open>A compiled part binds \<open>vs\<close> and writes validated names \<open>ns\<close>.\<close>

definition compiles :: "'json compile_context \<Rightarrow> 'json parameter_value list \<Rightarrow> string list \<Rightarrow> ('json compile_context \<times> 'b) result \<Rightarrow> bool" where
  "compiles ctx vs ns r \<longleftrightarrow>
     result_sat (\<lambda>(ctx', _). ctx' = extend vs ctx \<and> names_ok (ctx_dialect ctx) ns) r"

lemma compilesD:
  "compiles ctx vs ns r \<Longrightarrow> r = Inr (ctx', s) \<Longrightarrow> ctx' = extend vs ctx \<and> names_ok (ctx_dialect ctx) ns"
  by (simp add: compiles_def)

lemma compiles_Inl [simp]: "compiles ctx vs ns (Inl e)"
  by (simp add: compiles_def)

lemma compiles_Inr [simp]:
  "compiles ctx vs ns (Inr (ctx', s)) \<longleftrightarrow> ctx' = extend vs ctx \<and> names_ok (ctx_dialect ctx) ns"
  by (simp add: compiles_def)

lemma compiles_guard:
  "(\<And>x. r = Inr x \<Longrightarrow> compiles ctx vs ns (f x)) \<Longrightarrow> compiles ctx vs ns (and_then r f)"
  by (cases r) simp_all

lemma compiles_quote:
  "(\<And>q. compiles ctx vs ns (f q)) \<Longrightarrow> compiles ctx vs (n # ns) (and_then (quote_name n (ctx_dialect ctx)) f)"
  by (cases "quote_name n (ctx_dialect ctx)") (auto simp: compiles_def result_sat_def dest: quote_name_Inr)

lemma compiles_then:
  assumes "compiles ctx vs ns r"
    and "\<And>s. compiles (extend vs ctx) ws ms (f (extend vs ctx, s))"
  shows "compiles ctx (vs @ ws) (ns @ ms) (and_then r f)"
proof (cases r)
  case (Inr x)
  then obtain ctx' s where x: "r = Inr (ctx', s)" by (cases x) simp
  with assms(1) have c: "ctx' = extend vs ctx" "names_ok (ctx_dialect ctx) ns" by (auto dest: compilesD)
  show ?thesis
    using assms(2) [of s] c by (auto simp: x compiles_def result_sat_def)
qed simp

lemma compiles_last:
  assumes "compiles ctx vs ns r" and "\<And>s. compiles (extend vs ctx) [] [] (f (extend vs ctx, s))"
  shows "compiles ctx vs ns (and_then r f)"
  using compiles_then [of ctx vs ns r "[]" "[]" f, OF assms(1)] assms(2) by simp

lemma compiles_collect:
  assumes "\<And>x c. x \<in> set xs \<Longrightarrow> ctx_dialect c = ctx_dialect ctx \<Longrightarrow> ctx_relation c = ctx_relation ctx
      \<Longrightarrow> compiles c (vs x) (ns x) (f x c)"
  shows "compiles ctx (concat (map vs xs)) (concat (map ns xs)) (collect f xs ctx)"
  using assms
proof (induction xs arbitrary: ctx)
  case Nil
  then show ?case by simp
next
  case (Cons x xs)
  have head: "compiles ctx (vs x) (ns x) (f x ctx)" using Cons.prems by simp
  have tail: "compiles (extend (vs x) ctx) (concat (map vs xs)) (concat (map ns xs)) (collect f xs (extend (vs x) ctx))"
    using Cons.prems by (intro Cons.IH) simp
  show ?case
    by (simp, rule compiles_then [OF head]) (auto intro!: compiles_last [OF tail])
qed

section \<open>Expressions and predicates\<close>

lemma compiles_bind: "compiles ctx [bound js (ctx_dialect ctx) v] [] (Inr (bind js v ctx))"
  by (cases "bind js v ctx") (auto dest: bind_pair)

lemma compiles_bind_string: "compiles ctx [PvString s] [] (Inr (bind js (PvString s) ctx))"
  using compiles_bind [of ctx js "PvString s"] by simp

lemma compile_expression_compiles:
  "compiles ctx (expression_binds js (ctx_dialect ctx) e) (expression_names e) (compile_expression js e ctx)"
proof (induction js e ctx rule: compile_expression.induct)
  case (1 js v ctx)
  then show ?case by (auto intro!: compiles_guard compiles_bind)
next
  case (2 js t ctx)
  then show ?case by (auto simp: typed_sentinel_def intro!: compiles_guard dest: bind_pair split: prod.splits)
next
  case (3 js name ctx)
  then show ?case by (auto intro!: compiles_quote)
next
  case (4 js e srid semantics ctx)
  let ?inner = "case (ctx_dialect ctx, literal_bytes e) of
      (DkDb2, Some bytes) \<Rightarrow> Inr (bind js (PvString (hex_upper bytes)) ctx)
    | _ \<Rightarrow> compile_expression js e ctx"
  have lit: "literal_bytes e = Some b \<Longrightarrow> expression_names e = []" for b
    by (cases e) (auto simp: literal_bytes_def)
  have inner: "srid \<noteq> 0 \<Longrightarrow> \<not> ctx_in_predicate ctx \<Longrightarrow>
      compiles ctx (expression_binds js (ctx_dialect ctx) (ExSpatialValue e srid semantics))
        (expression_names e) ?inner"
    if adm: "(case e of ExLiteral v \<Rightarrow> check_spatial_value (dialect_provider (ctx_dialect ctx)) v srid (- 1) | _ \<Rightarrow> Inr ()) = Inr ()"
      "admit_probe (dialect_provider (ctx_dialect ctx)) EvCompileOnly UseWriteValue (FrDeclared srid) = Inr a"
    for a
    using 4 adm lit by (cases "ctx_dialect ctx"; cases "literal_bytes e") (auto intro!: compiles_bind_string)
  show ?case
  proof (cases "srid = 0 \<or> ctx_in_predicate ctx")
    case True
    then show ?thesis by auto
  next
    case False
    then have body: "compile_expression js (ExSpatialValue e srid semantics) ctx =
      and_then (case e of ExLiteral v \<Rightarrow> check_spatial_value (dialect_provider (ctx_dialect ctx)) v srid (- 1)
                | _ \<Rightarrow> Inr ()) (\<lambda>_.
      and_then (admit_probe (dialect_provider (ctx_dialect ctx)) EvCompileOnly UseWriteValue (FrDeclared srid)) (\<lambda>_.
      and_then ?inner (\<lambda>(ctx', v).
      and_then (spatial_constructor (ctx_dialect ctx) v srid semantics) (\<lambda>text. Inr (ctx', text)))))"
      by simp
    have tail: "compiles (extend vs ctx) [] []
        (and_then (spatial_constructor (ctx_dialect ctx) s srid semantics) (\<lambda>text. Inr (extend vs ctx, text)))"
      for vs s by (rule compiles_guard) simp
    show ?thesis
      unfolding body expression_names.simps
    proof (rule compiles_guard, rule compiles_guard)
      fix u a
      assume "(case e of ExLiteral v \<Rightarrow> check_spatial_value (dialect_provider (ctx_dialect ctx)) v srid (- 1)
                | _ \<Rightarrow> Inr ()) = Inr u"
        and "admit_probe (dialect_provider (ctx_dialect ctx)) EvCompileOnly UseWriteValue (FrDeclared srid) = Inr a"
      with False have "compiles ctx (expression_binds js (ctx_dialect ctx) (ExSpatialValue e srid semantics))
          (expression_names e) ?inner" by (intro inner) auto
      then show "compiles ctx (expression_binds js (ctx_dialect ctx) (ExSpatialValue e srid semantics)) (expression_names e)
          (and_then ?inner (\<lambda>(ctx', v).
             and_then (spatial_constructor (ctx_dialect ctx) v srid semantics) (\<lambda>text. Inr (ctx', text))))"
        by (rule compiles_last) (simp only: prod.case tail)
    qed
  qed
qed

lemma srid_as_i32_Inr: "srid_as_i32 product srid = Inr i \<longleftrightarrow> i = srid \<and> unat srid < 2 ^ 31"
  by (auto simp: srid_as_i32_def)

definition bind_text :: "('json \<Rightarrow> string) \<Rightarrow> 'json parameter_value \<Rightarrow> 'json compile_context \<Rightarrow> string" where
  "bind_text js v ctx = snd (bind js v ctx)"

lemma bind_eq: "bind js v ctx = (extend [bound js (ctx_dialect ctx) v] ctx, bind_text js v ctx)"
  by (metis bind_context bind_text_def prod.collapse)

lemma distance_needs_support:
  "k \<in> {Mysql, Sqlserver, Db2} \<Longrightarrow> validate_predicate k (SpDWithin x) r \<noteq> Inr ()"
  by (auto simp: validate_predicate_decides requires_distance_def)

text \<open>The binds of each form, once its checks have passed.\<close>

lemmas spatial_forms = compile_spatial_form_def compile_spatial_postgres_def compile_spatial_mysql_def compile_spatial_sqlserver_def
  compile_spatial_db2_def compile_spatial_oracle_def

lemma compile_spatial_compiles:
  "compiles ctx (spatial_binds (ctx_dialect ctx) (ctx_relation ctx) c p r) [c] (compile_spatial js c p r ctx)"
  unfolding compile_spatial_def
  by (rule compiles_quote, rule compiles_guard, rule compiles_guard)
    (cases "ctx_dialect ctx"; cases p;
      auto simp: spatial_forms bind_eq spatial_binds_def compiles_def result_sat_def result_simps Let_def
        srid_as_i32_Inr distance_needs_support)

lemma compile_comparison_compiles:
  "compiles ctx (expression_binds js (ctx_dialect ctx) e) (c # expression_names e) (compile_comparison js op c e ctx)"
  unfolding compile_comparison_def
  by (rule compiles_quote, rule compiles_last [OF compile_expression_compiles]) simp

lemma compiles_text: "compiles ctx vs ns r \<Longrightarrow> compiles ctx vs ns (and_then r (\<lambda>(ctx', s). Inr (ctx', f s)))"
  by (rule compiles_last) simp_all

lemma compile_predicate_compiles:
  "compiles ctx (predicate_binds js (ctx_dialect ctx) (ctx_relation ctx) p) (predicate_names p)
     (compile_predicate js p ctx)"
  "compiles ctx (predicate_binds js (ctx_dialect ctx) (ctx_relation ctx) p) (predicate_names p)
     (compile_predicate_inner js p ctx)"
proof (induction js p ctx and js p ctx rule: compile_predicate_compile_predicate_inner.induct)
  case (1 js p ctx)
  then show ?case
    by (auto simp: compiles_def result_sat_def result_simps)
next
  case (9 js column es ctx)
  have "compiles ctx (concat (map (expression_binds js (ctx_dialect ctx)) es)) (concat (map expression_names es))
      (collect (compile_expression js) es ctx)"
    by (rule compiles_collect) (metis compile_expression_compiles)
  then show ?case by (auto intro!: compiles_quote compiles_text)
next
  case (10 js column low high ctx)
  show ?case
    unfolding compile_predicate_inner.simps predicate_binds.simps predicate_names.simps
    using compile_expression_compiles [of "extend _ ctx" js high]
    by (auto intro!: compiles_quote compiles_then [OF compile_expression_compiles] compiles_text)
next
  case (13 js ps ctx)
  have "ps \<noteq> [] \<Longrightarrow> compiles ctx (concat (map (predicate_binds js (ctx_dialect ctx) (ctx_relation ctx)) ps))
      (concat (map predicate_names ps)) (collect (compile_predicate js) ps ctx)"
    by (rule compiles_collect) (metis 13)
  then show ?case by (auto intro!: compiles_text)
next
  case (14 js ps ctx)
  have "ps \<noteq> [] \<Longrightarrow> compiles ctx (concat (map (predicate_binds js (ctx_dialect ctx) (ctx_relation ctx)) ps))
      (concat (map predicate_names ps)) (collect (compile_predicate js) ps ctx)"
    by (rule compiles_collect) (metis 14)
  then show ?case by (auto intro!: compiles_text)
next
  case (15 js p ctx)
  then show ?case by (auto intro!: compiles_text)
qed (simp_all add: compile_comparison_compiles compile_spatial_compiles compiles_quote)

section \<open>Statements\<close>

definition table_names :: "table_ref \<Rightarrow> string list" where
  "table_names t = tr_name t # (case tr_schema t of None \<Rightarrow> [] | Some schema \<Rightarrow> [schema])"

definition quoted_table :: "dialect_kind \<Rightarrow> table_ref \<Rightarrow> string option" where
  "quoted_table d t = (case qualify_table t d of Inr q \<Rightarrow> Some q | Inl _ \<Rightarrow> None)"

definition where_binds :: "('json \<Rightarrow> string) \<Rightarrow> dialect_kind \<Rightarrow> table_ref \<Rightarrow> 'json portable_predicate option
    \<Rightarrow> 'json parameter_value list" where
  "where_binds js d t flt = (case flt of None \<Rightarrow> [] | Some p \<Rightarrow> predicate_binds js d (quoted_table d t) p)"

definition where_names :: "'json portable_predicate option \<Rightarrow> string list" where
  "where_names flt = (case flt of None \<Rightarrow> [] | Some p \<Rightarrow> predicate_names p)"

definition row_binds :: "('json \<Rightarrow> string) \<Rightarrow> dialect_kind \<Rightarrow> 'json expression list \<Rightarrow> 'json parameter_value list" where
  "row_binds js d row = concat (map (expression_binds js d) row)"

definition assignment_binds :: "('json \<Rightarrow> string) \<Rightarrow> dialect_kind \<Rightarrow> (string \<times> 'json expression) list
    \<Rightarrow> 'json parameter_value list" where
  "assignment_binds js d as = concat (map (\<lambda>a. expression_binds js d (snd a)) as)"

definition row_names :: "'json expression list \<Rightarrow> string list" where
  "row_names row = concat (map expression_names row)"

definition assignment_names :: "(string \<times> 'json expression) list \<Rightarrow> string list" where
  "assignment_names as = concat (map (\<lambda>a. fst a # expression_names (snd a)) as)"

fun statement_binds :: "('json \<Rightarrow> string) \<Rightarrow> dialect_kind \<Rightarrow> 'json portable_statement
    \<Rightarrow> 'json parameter_value list" where
  "statement_binds js d (PsSelect s) = where_binds js d (sel_table s) (sel_filter s)"
| "statement_binds js d (PsInsert s) = concat (map (row_binds js d) (ins_values s))"
| "statement_binds js d (PsUpdate s) =
     assignment_binds js d (upd_assignments s) @ where_binds js d (upd_table s) (upd_filter s)"
| "statement_binds js d (PsDelete s) = where_binds js d (del_table s) (del_filter s)"
| "statement_binds js d (PsUpsert s) =
     concat (map (row_binds js d) (ups_values s)) @ assignment_binds js d (ups_update_on_conflict s)"

text \<open>MySQL and MariaDB take the conflict target from their unique indexes: it is not written.\<close>

fun statement_names :: "dialect_kind \<Rightarrow> 'json portable_statement \<Rightarrow> string list" where
  "statement_names d (PsSelect s) =
     table_names (sel_table s)
     @ (case sel_projection s of PjAll \<Rightarrow> [] | PjColumns cols \<Rightarrow> cols)
     @ where_names (sel_filter s) @ map oc_column (sel_order_by s)"
| "statement_names d (PsInsert s) =
     table_names (ins_table s) @ ins_columns s @ concat (map row_names (ins_values s)) @ ins_returning s"
| "statement_names d (PsUpdate s) =
     table_names (upd_table s) @ assignment_names (upd_assignments s) @ where_names (upd_filter s)
     @ upd_returning s"
| "statement_names d (PsDelete s) =
     table_names (del_table s) @ where_names (del_filter s) @ del_returning s"
| "statement_names d (PsUpsert s) =
     table_names (ups_table s) @ ups_columns s @ concat (map row_names (ups_values s))
     @ (if d \<in> {DkMysql, DkMariadb} then [] else ups_conflict_target s)
     @ assignment_names (ups_update_on_conflict s) @ ups_returning s"

lemma qualify_table_Inr:
  "qualify_table t d = Inr q \<Longrightarrow> names_ok d (table_names t) \<and> quoted_table d t = Some q"
  by (auto simp: qualify_table_def table_names_def quoted_table_def result_simps split: option.splits
      dest: quote_name_Inr)

lemma compile_where_compiles:
  "qualify_table t (ctx_dialect ctx) = Inr q \<Longrightarrow>
   compiles (set_relation q ctx) (where_binds js (ctx_dialect ctx) t flt) (where_names flt)
     (compile_where js flt (set_relation q ctx))"
  using compile_predicate_compiles(1) [of "set_relation q ctx" js]
  by (auto simp: compile_where_def where_binds_def where_names_def qualify_table_Inr split: option.splits
      intro!: compiles_text)

lemma compile_rows_compiles:
  "compiles ctx (concat (map (row_binds js (ctx_dialect ctx)) rows)) (concat (map row_names rows))
     (collect (collect (compile_expression js)) rows ctx)"
proof (rule compiles_collect)
  fix row and c :: "'a compile_context" assume "ctx_dialect c = ctx_dialect ctx"
  then show "compiles c (row_binds js (ctx_dialect ctx) row) (row_names row) (collect (compile_expression js) row c)"
    unfolding row_binds_def row_names_def by (intro compiles_collect) (metis compile_expression_compiles)
qed

lemma compile_assignment_compiles:
  "compiles ctx (expression_binds js (ctx_dialect ctx) (snd a)) (fst a # expression_names (snd a))
     (compile_assignment js a ctx)"
  unfolding compile_assignment_def
  by (rule compiles_quote, rule compiles_text [OF compile_expression_compiles])

lemma compile_assignments_compiles:
  "compiles ctx (assignment_binds js (ctx_dialect ctx) as) (assignment_names as)
     (collect (compile_assignment js) as ctx)"
  unfolding assignment_binds_def assignment_names_def
  by (rule compiles_collect) (metis compile_assignment_compiles)

lemma merge_assignments_compiles:
  "compiles ctx (assignment_binds js (ctx_dialect ctx) as) (assignment_names as)
     (collect (merge_assignment js k) as ctx)"
  unfolding assignment_binds_def assignment_names_def
proof (rule compiles_collect)
  fix a :: "string \<times> 'a expression" and c :: "'a compile_context" assume d: "ctx_dialect c = ctx_dialect ctx"
  have "compiles c (expression_binds js (ctx_dialect c) (snd a)) (expression_names (snd a)) (merge_value js k (snd a) c)"
    by (cases "snd a") (auto simp: merge_value_def typed_sentinel_def bind_eq intro!: compiles_quote)
  then show "compiles c (expression_binds js (ctx_dialect ctx) (snd a)) (fst a # expression_names (snd a))
      (merge_assignment js k a c)"
    unfolding merge_assignment_def d [symmetric] by (rule compiles_quote [OF compiles_text])
qed

lemma compile_returning_Inr:
  "compile_returning ns d form = Inr c \<Longrightarrow> names_ok d ns"
  by (auto simp: compile_returning_def result_simps Let_def split: if_splits option.splits dest: quote_names_Inr)

text \<open>The same as elimination rules, for the statements.\<close>

lemma compile_whereD:
  assumes "compile_where js flt (set_relation q ctx) = Inr (ctx', sql)" "qualify_table t (ctx_dialect ctx) = Inr q"
  shows "ctx_params ctx' = ctx_params ctx @ where_binds js (ctx_dialect ctx) t flt \<and>
    names_ok (ctx_dialect ctx) (where_names flt)"
  using compilesD [OF compile_where_compiles [OF assms(2)] assms(1)] by simp

lemmas compile_rowsD = compilesD [OF compile_rows_compiles]
lemmas compile_assignmentsD = compilesD [OF compile_assignments_compiles]
lemmas merge_assignmentsD = compilesD [OF merge_assignments_compiles]

definition keeps_promise :: "('json \<Rightarrow> string) \<Rightarrow> 'json compile_context \<Rightarrow> 'json portable_statement
    \<Rightarrow> 'json compile_context \<Rightarrow> bool" where
  "keeps_promise js ctx st ctx' \<longleftrightarrow>
     ctx_params ctx' = ctx_params ctx @ statement_binds js (ctx_dialect ctx) st \<and>
     names_ok (ctx_dialect ctx) (statement_names (ctx_dialect ctx) st)"

lemma compile_projection_Inr:
  "compile_projection p d = Inr t \<Longrightarrow> names_ok d (case p of PjAll \<Rightarrow> [] | PjColumns cols \<Rightarrow> cols)"
  by (auto simp: compile_projection_def result_simps split: projection.splits if_splits dest: quote_names_Inr)

lemma compile_order_by_Inr: "compile_order_by obs d = Inr t \<Longrightarrow> names_ok d (map oc_column obs)"
proof -
  have "try_collect (order_clause d) obs = Inr parts \<Longrightarrow> names_ok d (map oc_column obs)" for parts
    by (induction obs arbitrary: parts) (auto simp: result_simps order_clause_def dest: quote_name_Inr)
  then show "compile_order_by obs d = Inr t \<Longrightarrow> names_ok d (map oc_column obs)"
    by (auto simp: compile_order_by_def result_simps)
qed

lemma compile_delete_promise:
  "compile_delete js s ctx = Inr (ctx', sql) \<Longrightarrow> keeps_promise js ctx (PsDelete s) ctx'"
  by (auto simp: compile_delete_def keeps_promise_def result_simps
      dest: compile_whereD qualify_table_Inr compile_returning_Inr)

lemma compile_select_promise:
  "compile_select js s ctx = Inr (ctx', sql) \<Longrightarrow> keeps_promise js ctx (PsSelect s) ctx'"
proof -
  assume "compile_select js s ctx = Inr (ctx', sql)"
  then obtain pj q c w ord where
    pj: "compile_projection (sel_projection s) (ctx_dialect ctx) = Inr pj"
    and q: "qualify_table (sel_table s) (ctx_dialect ctx) = Inr q"
    and w: "compile_where js (sel_filter s) (set_relation q ctx) = Inr (c, w)"
    and ord: "(if sel_order_by s = [] then Inr []
               else and_then (compile_order_by (sel_order_by s) (ctx_dialect c)) (\<lambda>ob. Inr ('' ORDER BY '' @ ob))) = Inr ord"
    and c: "ctx' = c"
    unfolding compile_select_def Let_def by (auto simp only: and_then_eq_Inr prod.case split_paired_Ex Inr_inject prod.inject)
  have "ctx_dialect c = ctx_dialect ctx"
    using compilesD [OF compile_where_compiles [OF q] w] by simp
  with ord have "names_ok (ctx_dialect ctx) (map oc_column (sel_order_by s))"
    by (auto simp: result_simps split: if_splits dest: compile_order_by_Inr)
  with compile_projection_Inr [OF pj] qualify_table_Inr [OF q] compile_whereD [OF w q] c
  show ?thesis by (simp add: keeps_promise_def)
qed

lemma collect_map:
  "collect (\<lambda>x c. and_then (f x c) (\<lambda>(c', y). Inr (c', g y))) xs ctx =
     and_then (collect f xs ctx) (\<lambda>(ctx', ys). Inr (ctx', map g ys))"
proof (induction xs arbitrary: ctx)
  case Nil
  then show ?case by simp
next
  case (Cons x xs)
  show ?case
  proof (cases "f x ctx")
    case (Inr r)
    obtain c y where r: "r = (c, y)" by (cases r)
    show ?thesis
      by (simp add: Inr r Cons.IH) (cases "collect f xs c"; auto split: prod.splits)
  qed simp
qed

lemma compile_insert_promise:
  "compile_insert js s ctx = Inr (ctx', sql) \<Longrightarrow> keeps_promise js ctx (PsInsert s) ctx'"
  by (auto simp: compile_insert_def keeps_promise_def result_simps Let_def collect_map split: if_splits
      dest!: compile_rowsD qualify_table_Inr compile_returning_Inr quote_names_Inr)

lemma compile_update_promise:
  "compile_update js s ctx = Inr (ctx', sql) \<Longrightarrow> keeps_promise js ctx (PsUpdate s) ctx'"
proof -
  assume "compile_update js s ctx = Inr (ctx', sql)"
  then obtain q ret c1 sets c2 w where q: "qualify_table (upd_table s) (ctx_dialect ctx) = Inr q"
    and ret: "compile_returning (upd_returning s) (ctx_dialect ctx) RfUpdate = Inr ret"
    and sets: "collect (compile_assignment js) (upd_assignments s) ctx = Inr (c1, sets)"
    and w: "compile_where js (upd_filter s) (set_relation q c1) = Inr (c2, w)"
    and c2: "ctx' = c2"
    unfolding compile_update_def Let_def
    by (auto simp: and_then_eq_Inr split: if_splits)
  have c1: "c1 = extend (assignment_binds js (ctx_dialect ctx) (upd_assignments s)) ctx"
    and names: "names_ok (ctx_dialect ctx) (assignment_names (upd_assignments s))"
    using compile_assignmentsD [OF sets] by simp_all
  then have "qualify_table (upd_table s) (ctx_dialect c1) = Inr q" using q by simp
  from compile_whereD [OF w this] qualify_table_Inr [OF q] compile_returning_Inr [OF ret] names c1 c2
  show ?thesis by (simp add: keeps_promise_def)
qed

lemma conditions_names:
  "try_collect (\<lambda>c. and_then (quote_name c d) (g c)) ns = Inr qs \<Longrightarrow> names_ok d ns"
  by (induction ns arbitrary: qs) (auto simp: result_simps dest: quote_name_Inr)

lemma source_columns_names:
  "try_collect (\<lambda>c. and_then (source_column s d c) (g c)) ns = Inr qs \<Longrightarrow> names_ok d ns"
  by (induction ns arbitrary: qs) (auto simp: result_simps source_column_def split: if_splits dest: quote_name_Inr)

text \<open>What the forms of an upsert add after the rows.\<close>

definition tail_promise :: "('json \<Rightarrow> string) \<Rightarrow> 'json compile_context \<Rightarrow> 'json upsert_statement
    \<Rightarrow> 'json compile_context \<Rightarrow> bool" where
  "tail_promise js ctx s ctx' \<longleftrightarrow>
     ctx_params ctx' = ctx_params ctx @ assignment_binds js (ctx_dialect ctx) (ups_update_on_conflict s) \<and>
     names_ok (ctx_dialect ctx)
       ((if ctx_dialect ctx \<in> {DkMysql, DkMariadb} then [] else ups_conflict_target s)
        @ assignment_names (ups_update_on_conflict s) @ ups_returning s)"

lemma no_assignments [simp]: "assignment_binds js d [] = []" "assignment_names [] = []"
  by (simp_all add: assignment_binds_def assignment_names_def)

lemma compile_upsert_sqlserver_tail:
  "compile_upsert_sqlserver js s table cols_sql rows ctx = Inr (ctx', sql) \<Longrightarrow> ctx_dialect ctx = DkSqlServer \<Longrightarrow>
   tail_promise js ctx s ctx'"
  by (auto simp: compile_upsert_sqlserver_def tail_promise_def result_simps Let_def
      split: list.splits if_splits dest!: compile_returning_Inr conditions_names compile_assignmentsD)

lemma compile_upsert_merge_tail:
  "compile_upsert_merge js s table cols source syntax ctx = Inr (ctx', sql) \<Longrightarrow>
   ctx_dialect ctx \<in> {DkDb2, DkOracle} \<Longrightarrow> tail_promise js ctx s ctx'"
  by (auto simp: compile_upsert_merge_def tail_promise_def result_simps Let_def
      split: if_splits dest!: compile_returning_Inr source_columns_names merge_assignmentsD)

lemma compile_upsert_promise:
  assumes "compile_upsert js s ctx = Inr (ctx', sql)"
  shows "keeps_promise js ctx (PsUpsert s) ctx'"
proof -
  obtain table cols c1 rows where
    table: "qualify_table (ups_table s) (ctx_dialect ctx) = Inr table"
    and cols: "try_collect (\<lambda>c. quote_name c (ctx_dialect ctx)) (ups_columns s) = Inr cols"
    and rows: "collect (collect (compile_expression js)) (ups_values s) ctx = Inr (c1, rows)"
    using assms by (auto simp: compile_upsert_def Let_def and_then_eq_Inr split: if_splits)
  have c1: "c1 = extend (concat (map (row_binds js (ctx_dialect ctx)) (ups_values s))) ctx"
    and row_ok: "names_ok (ctx_dialect ctx) (concat (map row_names (ups_values s)))"
    using compile_rowsD [OF rows] by simp_all
  have "tail_promise js c1 s ctx'"
    using assms table cols rows
    by (cases "ctx_dialect c1")
      (auto simp: compile_upsert_def tail_promise_def result_simps Let_def compile_upsert_db2_def
        compile_upsert_oracle_def with_returning_def compile_on_conflict_def compile_on_duplicate_key_def split: if_splits
        dest!: compile_returning_Inr quote_names_Inr [where ns = "ups_conflict_target s"] compile_assignmentsD
          compile_upsert_sqlserver_tail [unfolded tail_promise_def] compile_upsert_merge_tail [unfolded tail_promise_def])
  with c1 row_ok qualify_table_Inr [OF table] quote_names_Inr [OF cols]
  show ?thesis by (simp add: keeps_promise_def tail_promise_def)
qed

lemma compile_statement_promise:
  "compile_statement js st ctx = Inr (ctx', sql) \<Longrightarrow> keeps_promise js ctx st ctx'"
  by (cases st)
    (auto simp: compile_statement_def intro: compile_select_promise compile_insert_promise compile_update_promise
      compile_delete_promise compile_upsert_promise)

lemma compile_portable_promise:
  assumes "compile_portable js k st = Inr c"
  obtains d where "dialect_of_provider k = Inr d" "cp_params c = statement_binds js d st"
    "names_ok d (statement_names d st)"
proof -
  obtain d ctx sql where d: "dialect_of_provider k = Inr d"
    and st: "compile_statement js st (context_new d) = Inr (ctx, sql)"
    and c: "c = \<lparr>cp_sql = sql, cp_params = ctx_params ctx\<rparr>"
    using assms by (auto simp: compile_portable_def result_simps)
  from compile_statement_promise [OF st] c d that [of d] show ?thesis
    by (simp add: keeps_promise_def context_new_def)
qed

end
