(* ===== verification/Portable_Shape.thy ===== *)
theory Portable_Shape
  imports Portable_Proofs
begin

text \<open>
  The shape of a portable statement is the statement without its values: literals keep their variant alone, a
  spatial reference keeps its semantics, a distance is dropped.  Two statements of the same shape compile to
  the same SQL text, whatever their values: the text of a literal never reaches the SQL.
\<close>

section \<open>Shapes\<close>

fun shape_value :: "'json parameter_value \<Rightarrow> unit parameter_value" where
  "shape_value (PvBool _) = PvBool False"
| "shape_value (PvI32 _) = PvI32 0"
| "shape_value (PvI64 _) = PvI64 0"
| "shape_value (PvF64 _) = PvF64 0"
| "shape_value (PvString _) = PvString []"
| "shape_value (PvBytes _) = PvBytes []"
| "shape_value (PvDate _) = PvDate []"
| "shape_value (PvTimestamp _) = PvTimestamp []"
| "shape_value (PvTimestampTz _) = PvTimestampTz []"
| "shape_value (PvDecimal _) = PvDecimal []"
| "shape_value (PvUuid _) = PvUuid []"
| "shape_value (PvJson _) = PvJson ()"
| "shape_value (PvWkb _ _ _ _) = PvWkb [] None DimUnknown Geometry"
| "shape_value (PvEnum _ _) = PvEnum [] []"
| "shape_value (PvNull _) = PvNull []"

fun shape_expression :: "'json expression \<Rightarrow> unit expression" where
  "shape_expression (ExLiteral v) = ExLiteral (shape_value v)"
| "shape_expression (ExColumn name) = ExColumn name"
| "shape_expression (ExSpatialValue e srid semantics) = ExSpatialValue (shape_expression e) srid semantics"
| "shape_expression (ExTypedParameter t) = ExTypedParameter t"

fun shape_spatial :: "spatial_predicate \<Rightarrow> spatial_predicate" where
  "shape_spatial (SpDWithin _) = SpDWithin 0"
| "shape_spatial p = p"

definition shape_reference :: "spatial_reference \<Rightarrow> spatial_reference" where
  "shape_reference r =
     \<lparr>sr_ewkb = [], sr_srid = 0, sr_dimensions = DimUnknown, sr_semantics = sr_semantics r\<rparr>"

fun shape_predicate :: "'json portable_predicate \<Rightarrow> unit portable_predicate" where
  "shape_predicate (PrEq c e) = PrEq c (shape_expression e)"
| "shape_predicate (PrNe c e) = PrNe c (shape_expression e)"
| "shape_predicate (PrLt c e) = PrLt c (shape_expression e)"
| "shape_predicate (PrLte c e) = PrLte c (shape_expression e)"
| "shape_predicate (PrGt c e) = PrGt c (shape_expression e)"
| "shape_predicate (PrGte c e) = PrGte c (shape_expression e)"
| "shape_predicate (PrIn c es) = PrIn c (map shape_expression es)"
| "shape_predicate (PrBetween c low high) = PrBetween c (shape_expression low) (shape_expression high)"
| "shape_predicate (PrLike c e) = PrLike c (shape_expression e)"
| "shape_predicate (PrIsNull c) = PrIsNull c"
| "shape_predicate (PrIsNotNull c) = PrIsNotNull c"
| "shape_predicate (PrAnd ps) = PrAnd (map shape_predicate ps)"
| "shape_predicate (PrOr ps) = PrOr (map shape_predicate ps)"
| "shape_predicate (PrNot p) = PrNot (shape_predicate p)"
| "shape_predicate (PrSpatial c p r) = PrSpatial c (shape_spatial p) (shape_reference r)"

definition shape_assignments :: "(string \<times> 'json expression) list \<Rightarrow> (string \<times> unit expression) list" where
  "shape_assignments = map (\<lambda>(c, e). (c, shape_expression e))"

fun shape_statement :: "'json portable_statement \<Rightarrow> unit portable_statement" where
  "shape_statement (PsSelect s) = PsSelect
     \<lparr>sel_table = sel_table s, sel_projection = sel_projection s,
      sel_filter = map_option shape_predicate (sel_filter s), sel_order_by = sel_order_by s,
      sel_limit = sel_limit s\<rparr>"
| "shape_statement (PsInsert s) = PsInsert
     \<lparr>ins_table = ins_table s, ins_columns = ins_columns s,
      ins_values = map (map shape_expression) (ins_values s), ins_returning = ins_returning s\<rparr>"
| "shape_statement (PsUpdate s) = PsUpdate
     \<lparr>upd_table = upd_table s, upd_assignments = shape_assignments (upd_assignments s),
      upd_filter = map_option shape_predicate (upd_filter s), upd_returning = upd_returning s\<rparr>"
| "shape_statement (PsDelete s) = PsDelete
     \<lparr>del_table = del_table s, del_filter = map_option shape_predicate (del_filter s),
      del_returning = del_returning s\<rparr>"
| "shape_statement (PsUpsert s) = PsUpsert
     \<lparr>ups_table = ups_table s, ups_columns = ups_columns s,
      ups_values = map (map shape_expression) (ups_values s), ups_conflict_target = ups_conflict_target s,
      ups_update_on_conflict = shape_assignments (ups_update_on_conflict s),
      ups_returning = ups_returning s\<rparr>"

section \<open>Two runs side by side\<close>

definition agree_runs :: "('a \<Rightarrow> 'b \<Rightarrow> bool) \<Rightarrow> 'a result \<Rightarrow> 'b result \<Rightarrow> bool" where
  "agree_runs R r r' \<longleftrightarrow> (\<forall>x y. r = Inr x \<longrightarrow> r' = Inr y \<longrightarrow> R x y)"

lemma agreeD: "agree_runs R r r' \<Longrightarrow> r = Inr x \<Longrightarrow> r' = Inr y \<Longrightarrow> R x y"
  by (simp add: agree_runs_def)

lemma agree_Inl [simp]: "agree_runs R (Inl e) r'" "agree_runs R r (Inl e')"
  by (simp_all add: agree_runs_def)

lemma agree_Inr [simp]: "agree_runs R (Inr x) (Inr y) \<longleftrightarrow> R x y"
  by (simp add: agree_runs_def)

lemma agree_then:
  "agree_runs Q r r' \<Longrightarrow> (\<And>x y. Q x y \<Longrightarrow> agree_runs R (f x) (g y)) \<Longrightarrow> agree_runs R (and_then r f) (and_then r' g)"
  by (cases r; cases r') simp_all

lemma agree_same: "(\<And>x. r = Inr x \<Longrightarrow> agree_runs R (f x) (g x)) \<Longrightarrow> agree_runs R (and_then r f) (and_then r g)"
  by (cases r) simp_all

lemma agree_guard:
  "(\<And>x y. agree_runs R (f x) (g y)) \<Longrightarrow> agree_runs R (and_then r f) (and_then r' g)"
  by (cases r; cases r') simp_all

lemma agree_if:
  "(b \<Longrightarrow> agree_runs R x y) \<Longrightarrow> (\<not> b \<Longrightarrow> agree_runs R x' y') \<Longrightarrow>
   agree_runs R (if b then x else x') (if b then y else y')"
  by simp

lemmas agree_rules = agree_if agree_Inl(1) agree_same

definition same_context :: "'json compile_context \<Rightarrow> 'json compile_context \<Rightarrow> bool" where
  "same_context c c' \<longleftrightarrow>
     ctx_dialect c = ctx_dialect c' \<and> ctx_relation c = ctx_relation c' \<and>
     ctx_in_predicate c = ctx_in_predicate c' \<and> length (ctx_params c) = length (ctx_params c')"

definition twin :: "'json compile_context \<times> 'b \<Rightarrow> 'json compile_context \<times> 'b \<Rightarrow> bool" where
  "twin x y \<longleftrightarrow> same_context (fst x) (fst y) \<and> snd x = snd y"

lemma twin_pair [simp]: "twin (c, s) (c', s') \<longleftrightarrow> same_context c c' \<and> s = s'"
  by (simp add: twin_def)

lemma twin_then:
  assumes "agree_runs twin r r'" and "\<And>c c' s. same_context c c' \<Longrightarrow> agree_runs R (f (c, s)) (g (c', s))"
  shows "agree_runs R (and_then r f) (and_then r' g)"
  using assms(1) by (rule agree_then) (auto simp: twin_def split_paired_all intro: assms(2))

lemma same_contextD:
  "same_context c c' \<Longrightarrow> ctx_dialect c' = ctx_dialect c"
  "same_context c c' \<Longrightarrow> ctx_relation c' = ctx_relation c"
  "same_context c c' \<Longrightarrow> ctx_in_predicate c' = ctx_in_predicate c"
  by (simp_all add: same_context_def)

lemma same_context_update [simp]:
  "same_context c c' \<Longrightarrow> same_context (c\<lparr>ctx_in_predicate := b\<rparr>) (c'\<lparr>ctx_in_predicate := b\<rparr>)"
  "same_context c c' \<Longrightarrow> same_context (set_relation t c) (set_relation t c')"
  by (simp_all add: same_context_def set_relation_def)

lemma bind_twin:
  "shape_value v = shape_value v' \<Longrightarrow> same_context c c' \<Longrightarrow> twin (bind js v c) (bind js v' c')"
  by (cases v; cases v'; cases "ctx_dialect c")
    (auto simp: bind_def push_param_def same_context_def Let_def twin_def)

lemma collect_twin:
  assumes "list_all2 P xs ys" "same_context c c'"
    and "\<And>x y c c'. x \<in> set xs \<Longrightarrow> P x y \<Longrightarrow> same_context c c' \<Longrightarrow> agree_runs twin (f x c) (f y c')"
  shows "agree_runs twin (collect f xs c) (collect f ys c')"
  using assms
proof (induction xs ys arbitrary: c c' rule: list_all2_induct)
  case Nil
  then show ?case by simp
next
  case (Cons x xs y ys)
  show ?case
    unfolding collect.simps
  proof (rule twin_then)
    show "agree_runs twin (f x c) (f y c')" using Cons.hyps(1) Cons.prems by simp
  next
    fix d d' :: "'b compile_context" and s assume d: "same_context d d'"
    have "agree_runs twin (collect f xs d) (collect f ys d')" using Cons.IH [OF d] Cons.prems(2) by simp
    then show "agree_runs twin (case (d, s) of (ctx', y) \<Rightarrow> and_then (collect f xs ctx') (\<lambda>(ctx'', ys). Inr (ctx'', y # ys)))
        (case (d', s) of (ctx', y) \<Rightarrow> and_then (collect f ys ctx') (\<lambda>(ctx'', ys). Inr (ctx'', y # ys)))"
      unfolding prod.case by (rule twin_then) simp
  qed
qed

lemma map_shape_list_all2: "map g xs = map g ys \<Longrightarrow> list_all2 (\<lambda>x y. g x = g y) xs ys"
  by (simp add: list_all2_conv_all_nth) (metis length_map nth_map)

section \<open>Expressions and predicates\<close>

lemma bind_agree:
  "shape_value v = shape_value v' \<Longrightarrow> same_context c c' \<Longrightarrow> agree_runs twin (Inr (bind js v c)) (Inr (bind js v' c'))"
  by (simp add: bind_twin)

lemma quote_agree:
  "same_context c c' \<Longrightarrow> (\<And>q. agree_runs R (f q) (g q)) \<Longrightarrow>
   agree_runs R (and_then (quote_name n (ctx_dialect c)) f) (and_then (quote_name n (ctx_dialect c')) g)"
  by (simp add: same_contextD agree_same)

lemma literal_bytes_shape:
  "shape_expression e = shape_expression e' \<Longrightarrow> literal_bytes e = None \<longleftrightarrow> literal_bytes e' = None"
proof (cases e; cases e')
  fix v v' assume "shape_expression e = shape_expression e'" "e = ExLiteral v" "e' = ExLiteral v'"
  then show ?thesis by (cases v; cases v') (simp_all add: literal_bytes_def)
qed (simp_all add: literal_bytes_def)

lemma compile_expression_agree:
  "shape_expression e = shape_expression e' \<Longrightarrow> same_context c c' \<Longrightarrow>
   agree_runs twin (compile_expression js e c) (compile_expression js e' c')"
proof (induction e arbitrary: e' c c')
  case (ExLiteral v)
  then obtain v' where e': "e' = ExLiteral v'" "shape_value v = shape_value v'" by (cases e') simp_all
  with ExLiteral.prems(2) show ?case by (auto intro!: agree_guard bind_twin)
next
  case (ExColumn name)
  then have "e' = ExColumn name" by (cases e') simp_all
  with ExColumn.prems(2) show ?case by (auto intro!: quote_agree)
next
  case (ExTypedParameter t)
  then have e': "e' = ExTypedParameter t" by (cases e') simp_all
  have "twin (bind js (PvI64 0) c) (bind js (PvI64 0) c')"
    using ExTypedParameter.prems(2) by (intro bind_twin) simp_all
  with e' same_contextD [OF ExTypedParameter.prems(2)] show ?case
    by (auto intro!: agree_guard split: prod.splits)
next
  case (ExSpatialValue e srid semantics)
  then obtain e2 where e': "e' = ExSpatialValue e2 srid semantics" and sh: "shape_expression e = shape_expression e2"
    by (cases e') simp_all
  let ?inner = "\<lambda>e c. case (ctx_dialect c, literal_bytes e) of
      (DkDb2, Some bytes) \<Rightarrow> Inr (bind js (PvString (hex_upper bytes)) c) | _ \<Rightarrow> compile_expression js e c"
  have inner: "agree_runs twin (?inner e c) (?inner e2 c')"
    using ExSpatialValue.IH [OF sh ExSpatialValue.prems(2)] literal_bytes_shape [OF sh] ExSpatialValue.prems(2)
    by (cases "ctx_dialect c"; cases "literal_bytes e"; cases "literal_bytes e2")
      (auto simp: same_contextD intro: bind_twin)
  have tail: "agree_runs twin
      (and_then (?inner e c) (\<lambda>(d, v). and_then (spatial_constructor (ctx_dialect c) v srid semantics) (\<lambda>t. Inr (d, t))))
      (and_then (?inner e2 c') (\<lambda>(d, v). and_then (spatial_constructor (ctx_dialect c') v srid semantics) (\<lambda>t. Inr (d, t))))"
    by (rule twin_then [OF inner]) (auto simp: same_contextD [OF ExSpatialValue.prems(2)] intro!: agree_same)
  show ?case
    using tail same_contextD [OF ExSpatialValue.prems(2)]
    unfolding e' compile_expression.simps by (auto intro!: agree_guard simp del: split_paired_All)
qed

lemma compile_expressions_agree:
  "map shape_expression es = map shape_expression es' \<Longrightarrow> same_context c c' \<Longrightarrow>
   agree_runs twin (collect (compile_expression js) es c) (collect (compile_expression js) es' c')"
  by (rule collect_twin [OF map_shape_list_all2]) (auto intro: compile_expression_agree)

lemma compile_comparison_agree:
  "shape_expression e = shape_expression e' \<Longrightarrow> same_context c c' \<Longrightarrow>
   agree_runs twin (compile_comparison js op column e c) (compile_comparison js op column e' c')"
  unfolding compile_comparison_def
  by (intro quote_agree twin_then [OF compile_expression_agree]) simp_all

text \<open>The spatial forms: the checks may fail on one side, the text is the same.\<close>

lemma bind_text_plain [simp]:
  "bind_text js (PvBytes b) c = placeholder (ctx_dialect c) (Suc (length (ctx_params c)))"
  "bind_text js (PvString s) c = placeholder (ctx_dialect c) (Suc (length (ctx_params c)))"
  "bind_text js (PvI32 i) c = placeholder (ctx_dialect c) (Suc (length (ctx_params c)))"
  "bind_text js (PvF64 f) c = placeholder (ctx_dialect c) (Suc (length (ctx_params c)))"
  by (cases "ctx_dialect c"; simp add: bind_text_def bind_def push_param_def Let_def)+

lemma same_context_extend: "same_context c c' \<Longrightarrow> length vs = length ws \<Longrightarrow> same_context (extend vs c) (extend ws c')"
  by (simp add: same_context_def)

lemma same_context_size: "same_context c c' \<Longrightarrow> length (ctx_params c') = length (ctx_params c)"
  by (simp add: same_context_def)

lemma shape_spatial_cases:
  assumes "shape_spatial p = shape_spatial p'"
  obtains "p' = p" | x y where "p = SpDWithin x" "p' = SpDWithin y"
  using assms by (cases p; cases p') auto

lemma compile_spatial_form_agree:
  assumes "shape_spatial p = shape_spatial p'" and r: "shape_reference r = shape_reference r'"
    and c: "same_context c c'"
  shows "agree_runs twin (compile_spatial_form js column col p r c) (compile_spatial_form js column col p' r' c')"
proof -
  have r': "sr_semantics r' = sr_semantics r" using r by (simp add: shape_reference_def)
  note facts = spatial_forms bind_eq Let_def agree_runs_def result_simps twin_def same_contextD [OF c] r'
    same_context_size [OF c] same_context_extend [OF c]
  show ?thesis
    using assms(1)
    by (cases rule: shape_spatial_cases; cases "ctx_dialect c"; cases p)
      (auto simp: facts)
qed

lemma compile_spatial_agree:
  "shape_spatial p = shape_spatial p' \<Longrightarrow> shape_reference r = shape_reference r' \<Longrightarrow> same_context c c' \<Longrightarrow>
   agree_runs twin (compile_spatial js column p r c) (compile_spatial js column p' r' c')"
  unfolding compile_spatial_def
  by (rule quote_agree, assumption, rule agree_guard, rule agree_guard, rule compile_spatial_form_agree)

lemma predicates_agree:
  assumes "\<And>x y d d'. x \<in> set ps \<Longrightarrow> shape_predicate x = shape_predicate y \<Longrightarrow> same_context d d' \<Longrightarrow>
      agree_runs twin (compile_predicate js x d) (compile_predicate js y d')"
    and "map shape_predicate ps = map shape_predicate ps'" and "same_context c c'"
  shows "agree_runs twin (and_then (collect (compile_predicate js) ps c) (\<lambda>(d, parts). Inr (d, f parts)))
    (and_then (collect (compile_predicate js) ps' c') (\<lambda>(d, parts). Inr (d, f parts)))"
  by (rule twin_then [OF collect_twin [OF map_shape_list_all2 [OF assms(2)] assms(3) assms(1)]]) simp_all

lemma compile_predicate_agree_step:
  assumes "\<And>d d'. same_context d d' \<Longrightarrow> agree_runs twin (compile_predicate_inner js p d) (compile_predicate_inner js p' d')"
    and c: "same_context c c'"
  shows "agree_runs twin (compile_predicate js p c) (compile_predicate js p' c')"
  unfolding compile_predicate.simps
  by (rule twin_then [OF assms(1)]) (simp_all add: c same_contextD [OF c])

lemma compile_predicate_inner_agree:
  "shape_predicate p = shape_predicate p' \<Longrightarrow> same_context c c' \<Longrightarrow>
   agree_runs twin (compile_predicate_inner js p c) (compile_predicate_inner js p' c')"
proof (induction p arbitrary: p' c c')
  case (PrIn column es)
  then obtain es' where p': "p' = PrIn column es'" and es: "map shape_expression es = map shape_expression es'"
    by (cases p') auto
  have "es = [] \<longleftrightarrow> es' = []" using es by auto
  then show ?case
    using PrIn.prems(2) unfolding p' compile_predicate_inner.simps
    by (auto intro!: quote_agree twin_then [OF compile_expressions_agree [OF es]])
next
  case (PrBetween column low high)
  then obtain low' high' where p': "p' = PrBetween column low' high'"
    and sh: "shape_expression low = shape_expression low'" "shape_expression high = shape_expression high'"
    by (cases p') auto
  show ?case
    using PrBetween.prems(2) unfolding p' compile_predicate_inner.simps
    by (auto intro!: quote_agree twin_then [OF compile_expression_agree [OF sh(1)]]
        twin_then [OF compile_expression_agree [OF sh(2)]])
next
  case (PrAnd ps)
  then obtain ps' where p': "p' = PrAnd ps'" and ps: "map shape_predicate ps = map shape_predicate ps'"
    by (cases p') auto
  have "agree_runs twin (and_then (collect (compile_predicate js) ps c) (\<lambda>(d, parts). Inr (d, f parts)))
      (and_then (collect (compile_predicate js) ps' c') (\<lambda>(d, parts). Inr (d, f parts)))" for f :: "string list \<Rightarrow> string"
    by (rule predicates_agree [OF _ ps PrAnd.prems(2)], rule compile_predicate_agree_step)
      (auto intro: PrAnd.IH)
  then show ?case unfolding p' compile_predicate_inner.simps using ps by auto
next
  case (PrOr ps)
  then obtain ps' where p': "p' = PrOr ps'" and ps: "map shape_predicate ps = map shape_predicate ps'"
    by (cases p') auto
  have "agree_runs twin (and_then (collect (compile_predicate js) ps c) (\<lambda>(d, parts). Inr (d, f parts)))
      (and_then (collect (compile_predicate js) ps' c') (\<lambda>(d, parts). Inr (d, f parts)))" for f :: "string list \<Rightarrow> string"
    by (rule predicates_agree [OF _ ps PrOr.prems(2)], rule compile_predicate_agree_step)
      (auto intro: PrOr.IH)
  then show ?case unfolding p' compile_predicate_inner.simps using ps by auto
next
  case (PrNot p)
  then obtain q where p': "p' = PrNot q" and sh: "shape_predicate p = shape_predicate q" by (cases p') auto
  show ?case
    unfolding p' compile_predicate_inner.simps
    by (rule twin_then [OF compile_predicate_agree_step [OF PrNot.IH [OF sh] PrNot.prems(2)]]) simp_all
next
  case (PrSpatial column p r)
  then show ?case by (cases p') (auto intro!: compile_spatial_agree)
next
  case (PrIsNull column)
  then show ?case by (cases p') (auto intro!: quote_agree)
next
  case (PrIsNotNull column)
  then show ?case by (cases p') (auto intro!: quote_agree)
next
  case (PrEq column e)
  then show ?case by (cases p') (auto intro!: compile_comparison_agree)
next
  case (PrNe column e)
  then show ?case by (cases p') (auto intro!: compile_comparison_agree)
next
  case (PrLt column e)
  then show ?case by (cases p') (auto intro!: compile_comparison_agree)
next
  case (PrLte column e)
  then show ?case by (cases p') (auto intro!: compile_comparison_agree)
next
  case (PrGt column e)
  then show ?case by (cases p') (auto intro!: compile_comparison_agree)
next
  case (PrGte column e)
  then show ?case by (cases p') (auto intro!: compile_comparison_agree)
next
  case (PrLike column e)
  then show ?case by (cases p') (auto intro!: compile_comparison_agree)
qed

lemma compile_predicate_agree:
  "shape_predicate p = shape_predicate p' \<Longrightarrow> same_context c c' \<Longrightarrow>
   agree_runs twin (compile_predicate js p c) (compile_predicate js p' c')"
  by (rule compile_predicate_agree_step) (auto intro: compile_predicate_inner_agree)

lemma compile_where_agree:
  "map_option shape_predicate flt = map_option shape_predicate flt' \<Longrightarrow> same_context c c' \<Longrightarrow>
   agree_runs twin (compile_where js flt c) (compile_where js flt' c')"
  by (cases flt; cases flt')
    (auto simp: compile_where_def simp del: compile_predicate.simps intro!: twin_then [OF compile_predicate_agree])

lemma compile_rows_agree:
  assumes "map (map shape_expression) rows = map (map shape_expression) rows'" "same_context c c'"
  shows "agree_runs twin (collect (collect (compile_expression js)) rows c) (collect (collect (compile_expression js)) rows' c')"
  by (rule collect_twin [OF map_shape_list_all2 [OF assms(1)] assms(2)]) (rule compile_expressions_agree)

lemma compile_assignments_agree:
  assumes "shape_assignments as = shape_assignments as'" "same_context c c'"
  shows "agree_runs twin (collect (compile_assignment js) as c) (collect (compile_assignment js) as' c')"
proof (rule collect_twin [OF map_shape_list_all2 [OF assms(1) [unfolded shape_assignments_def]] assms(2)])
  fix x y :: "string \<times> 'a expression" and d d' :: "'a compile_context"
  assume "(case x of (n, e) \<Rightarrow> (n, shape_expression e)) = (case y of (n, e) \<Rightarrow> (n, shape_expression e))" "same_context d d'"
  then show "agree_runs twin (compile_assignment js x d) (compile_assignment js y d')"
    by (cases x; cases y)
      (auto simp: compile_assignment_def intro!: quote_agree twin_then [OF compile_expression_agree])
qed

lemma merge_value_agree:
  "shape_expression e = shape_expression e' \<Longrightarrow> same_context c c' \<Longrightarrow>
   agree_runs twin (merge_value js k e c) (merge_value js k e' c')"
  by (cases e; cases e') (auto simp: merge_value_def intro!: quote_agree bind_twin)

lemma merge_assignments_agree:
  assumes "shape_assignments as = shape_assignments as'" "same_context c c'"
  shows "agree_runs twin (collect (merge_assignment js k) as c) (collect (merge_assignment js k) as' c')"
proof (rule collect_twin [OF map_shape_list_all2 [OF assms(1) [unfolded shape_assignments_def]] assms(2)])
  fix x y :: "string \<times> 'a expression" and d d' :: "'a compile_context"
  assume "(case x of (n, e) \<Rightarrow> (n, shape_expression e)) = (case y of (n, e) \<Rightarrow> (n, shape_expression e))" "same_context d d'"
  then show "agree_runs twin (merge_assignment js k x d) (merge_assignment js k y d')"
    by (cases x; cases y)
      (auto simp: merge_assignment_def intro!: quote_agree twin_then [OF merge_value_agree])
qed

section \<open>Statements\<close>

lemma check_arity_cong: "map length rows = map length rows' \<Longrightarrow> check_arity form n i rows = check_arity form n i rows'"
proof (induction rows arbitrary: rows' i)
  case Nil
  then show ?case by simp
next
  case (Cons row rows)
  then show ?case by (cases rows') auto
qed

lemma shape_rows_length:
  "map (map shape_expression) rows = map (map shape_expression) rows' \<Longrightarrow> map length rows = map length rows'"
  by (metis (no_types, lifting) length_map map_map comp_apply map_eq_conv)

lemma compile_select_agree:
  assumes "shape_statement (PsSelect s) = shape_statement (PsSelect s')" and c: "same_context c c'"
  shows "agree_runs twin (compile_select js s c) (compile_select js s' c')"
proof -
  have s': "sel_table s' = sel_table s" "sel_projection s' = sel_projection s" "sel_order_by s' = sel_order_by s"
      "sel_limit s' = sel_limit s"
    and flt: "map_option shape_predicate (sel_filter s) = map_option shape_predicate (sel_filter s')"
    using assms(1) by simp_all
  show ?thesis
    unfolding compile_select_def Let_def s' same_contextD [OF c]
    by (rule agree_same, rule agree_same, rule twin_then [OF compile_where_agree [OF flt same_context_update(2) [OF c]]])
      (frule same_contextD(1), auto intro!: agree_same split: option.split)
qed

lemma row_texts_agree:
  assumes "map (map shape_expression) rows = map (map shape_expression) rows'" "same_context c c'"
  shows "agree_runs twin
    (collect (\<lambda>row c. and_then (collect (compile_expression js) row c) (\<lambda>(c', ps). Inr (c', ''('' @ join '', '' ps @ '')''))) rows c)
    (collect (\<lambda>row c. and_then (collect (compile_expression js) row c) (\<lambda>(c', ps). Inr (c', ''('' @ join '', '' ps @ '')''))) rows' c')"
  unfolding collect_map by (rule twin_then [OF compile_rows_agree [OF assms]]) simp

lemma compile_insert_agree:
  assumes "shape_statement (PsInsert s) = shape_statement (PsInsert s')" and c: "same_context c c'"
  shows "agree_runs twin (compile_insert js s c) (compile_insert js s' c')"
proof -
  have s': "ins_table s' = ins_table s" "ins_columns s' = ins_columns s" "ins_returning s' = ins_returning s"
    and rows: "map (map shape_expression) (ins_values s) = map (map shape_expression) (ins_values s')"
    using assms(1) by simp_all
  have nil: "ins_values s' = [] \<longleftrightarrow> ins_values s = []" using rows by auto
  show ?thesis
    unfolding compile_insert_def Let_def s' same_contextD [OF c] nil
      check_arity_cong [OF shape_rows_length [OF rows], symmetric]
    by (intro agree_rules twin_then [OF row_texts_agree [OF rows c]]) simp
qed

lemma compile_update_agree:
  assumes "shape_statement (PsUpdate s) = shape_statement (PsUpdate s')" and c: "same_context c c'"
  shows "agree_runs twin (compile_update js s c) (compile_update js s' c')"
proof -
  have s': "upd_table s' = upd_table s" "upd_returning s' = upd_returning s"
    and sets: "shape_assignments (upd_assignments s) = shape_assignments (upd_assignments s')"
    and flt: "map_option shape_predicate (upd_filter s) = map_option shape_predicate (upd_filter s')"
    using assms(1) by simp_all
  have nil: "upd_assignments s' = [] \<longleftrightarrow> upd_assignments s = []" using sets by (auto simp: shape_assignments_def)
  show ?thesis
    unfolding compile_update_def Let_def s' same_contextD [OF c] nil
    by (intro agree_rules twin_then [OF compile_assignments_agree [OF sets c]])
      (auto intro!: twin_then [OF compile_where_agree [OF flt]])
qed

lemma compile_delete_agree:
  assumes "shape_statement (PsDelete s) = shape_statement (PsDelete s')" and c: "same_context c c'"
  shows "agree_runs twin (compile_delete js s c) (compile_delete js s' c')"
proof -
  have s': "del_table s' = del_table s" "del_returning s' = del_returning s"
    and flt: "map_option shape_predicate (del_filter s) = map_option shape_predicate (del_filter s')"
    using assms(1) by simp_all
  show ?thesis
    unfolding compile_delete_def s' same_contextD [OF c]
    by (intro agree_rules twin_then [OF compile_where_agree [OF flt]]) (simp_all add: c)
qed

lemma compile_upsert_merge_agree:
  assumes "ups_columns s' = ups_columns s" "ups_conflict_target s' = ups_conflict_target s"
    and "ups_returning s' = ups_returning s"
    and sets: "shape_assignments (ups_update_on_conflict s) = shape_assignments (ups_update_on_conflict s')"
    and c: "same_context c c'"
  shows "agree_runs twin (compile_upsert_merge js s table cols source syntax c)
    (compile_upsert_merge js s' table cols source syntax c')"
proof -
  have nil: "ups_update_on_conflict s' = [] \<longleftrightarrow> ups_update_on_conflict s = []"
    using sets by (auto simp: shape_assignments_def)
  have source: "source_column s' = source_column s" by (simp add: source_column_def assms(1) fun_eq_iff)
  show ?thesis
    unfolding compile_upsert_merge_def Let_def assms(2,3) same_contextD [OF c] nil source
    by (intro agree_rules twin_then [where r = "if _ then Inr (c, _) else _"] agree_if
          twin_then [OF merge_assignments_agree [OF sets c]]) (simp_all add: c)
qed

lemma compile_upsert_sqlserver_agree:
  assumes "ups_columns s' = ups_columns s" "ups_conflict_target s' = ups_conflict_target s"
    and "ups_returning s' = ups_returning s"
    and sets: "shape_assignments (ups_update_on_conflict s) = shape_assignments (ups_update_on_conflict s')"
    and c: "same_context c c'"
  shows "agree_runs twin (compile_upsert_sqlserver js s table cols_sql rows c)
    (compile_upsert_sqlserver js s' table cols_sql rows c')"
proof -
  have nil: "ups_update_on_conflict s' = [] \<longleftrightarrow> ups_update_on_conflict s = []"
    using sets by (auto simp: shape_assignments_def)
  have place: "placeholder_of s' = placeholder_of s" by (simp add: placeholder_of_def assms(1) fun_eq_iff)
  show ?thesis
    unfolding compile_upsert_sqlserver_def Let_def assms(2,3) same_contextD [OF c] nil place
    by (cases rows rule: list.exhaust; cases "tl rows")
      (auto simp: c intro!: agree_same twin_then [OF compile_assignments_agree [OF sets c]])
qed

lemma with_returning_agree:
  assumes "ups_returning s' = ups_returning s" and "agree_runs twin r r'"
  shows "agree_runs twin (with_returning s r) (with_returning s' r')"
  unfolding with_returning_def
  by (rule twin_then [OF assms(2)]) (frule same_contextD(1), auto simp: assms(1) intro!: agree_same)

lemma conflict_clauses_agree:
  assumes "ups_conflict_target s' = ups_conflict_target s"
    and sets: "shape_assignments (ups_update_on_conflict s) = shape_assignments (ups_update_on_conflict s')"
    and c: "same_context c c'"
  shows "agree_runs twin (compile_on_conflict js s plain c) (compile_on_conflict js s' plain c')"
    and "agree_runs twin (compile_on_duplicate_key js s plain c) (compile_on_duplicate_key js s' plain c')"
proof -
  have none: "ups_update_on_conflict s' = [] \<longleftrightarrow> ups_update_on_conflict s = []"
    using sets by (auto simp: shape_assignments_def)
  show "agree_runs twin (compile_on_conflict js s plain c) (compile_on_conflict js s' plain c')"
    unfolding compile_on_conflict_def Let_def assms(1) none same_contextD [OF c]
    by (intro agree_rules twin_then [OF compile_assignments_agree [OF sets c]]) (simp_all add: c)
  show "agree_runs twin (compile_on_duplicate_key js s plain c) (compile_on_duplicate_key js s' plain c')"
    unfolding compile_on_duplicate_key_def none
    by (intro agree_if twin_then [OF compile_assignments_agree [OF sets c]]) (simp_all add: c)
qed

lemma compile_upsert_agree:
  assumes "shape_statement (PsUpsert s) = shape_statement (PsUpsert s')" and c: "same_context c c'"
  shows "agree_runs twin (compile_upsert js s c) (compile_upsert js s' c')"
proof -
  have s': "ups_table s' = ups_table s" "ups_columns s' = ups_columns s" "ups_returning s' = ups_returning s"
      "ups_conflict_target s' = ups_conflict_target s"
    and rows: "map (map shape_expression) (ups_values s) = map (map shape_expression) (ups_values s')"
    and sets: "shape_assignments (ups_update_on_conflict s) = shape_assignments (ups_update_on_conflict s')"
    using assms(1) by simp_all
  have nil: "ups_values s' = [] \<longleftrightarrow> ups_values s = []" using rows by auto
  note merge = compile_upsert_merge_agree [OF s'(2,4,3) sets]
    and tsql = compile_upsert_sqlserver_agree [OF s'(2,4,3) sets]
    and clauses = with_returning_agree [OF s'(3)] conflict_clauses_agree [OF s'(4) sets]
  show ?thesis
    unfolding compile_upsert_def Let_def s' same_contextD [OF c] nil
      check_arity_cong [OF shape_rows_length [OF rows], symmetric]
    by (intro agree_rules twin_then [OF compile_rows_agree [OF rows c]], unfold prod.case,
        frule same_contextD(1), unfold compile_upsert_db2_def compile_upsert_oracle_def Let_def)
      (auto intro: merge tsql clauses split: dialect_kind.split)
qed

lemma compile_statement_agree:
  "shape_statement st = shape_statement st' \<Longrightarrow> same_context c c' \<Longrightarrow>
   agree_runs twin (compile_statement js st c) (compile_statement js st' c')"
  by (cases st; cases st')
    (auto simp: compile_statement_def
      intro: compile_select_agree compile_insert_agree compile_update_agree compile_delete_agree compile_upsert_agree)

lemma compile_portable_agree:
  assumes "shape_statement st = shape_statement st'"
    and "compile_portable js k st = Inr c" "compile_portable js k st' = Inr c'"
  shows "cp_sql c = cp_sql c' \<and> param_count c = param_count c'"
proof -
  obtain d x x' where d: "compile_statement js st (context_new d) = Inr x" "compile_statement js st' (context_new d) = Inr x'"
    and c: "c = \<lparr>cp_sql = snd x, cp_params = ctx_params (fst x)\<rparr>" "c' = \<lparr>cp_sql = snd x', cp_params = ctx_params (fst x')\<rparr>"
    using assms(2,3) by (auto simp: compile_portable_def result_simps split_paired_Ex)
  have "twin x x'"
    by (rule agreeD [OF compile_statement_agree [OF assms(1)] d]) (simp add: same_context_def)
  then show ?thesis by (simp add: c twin_def same_context_def param_count_def)
qed

section \<open>Properties\<close>

text \<open>An honest value and an attempt at injection, in the same place of the same statement.\<close>

definition sample_delete :: "string \<Rightarrow> nat portable_statement" where
  "sample_delete v = PsDelete
     \<lparr>del_table = table_new ''t'', del_filter = Some (PrEq ''a'' (ExLiteral (PvString v))), del_returning = []\<rparr>"

definition sample_injection :: string where
  "sample_injection = [CHR 0x27] @ ''; DROP TABLE t; --''"

lemma sample_delete_compiles:
  "compile_portable show_nat Postgres (sample_delete v) =
     Inr \<lparr>cp_sql = ''DELETE FROM '' @ [CHR 0x22] @ ''t'' @ [CHR 0x22] @ '' WHERE '' @ [CHR 0x22] @ ''a'' @ [CHR 0x22]
            @ '' = $1'',
          cp_params = [PvString v]\<rparr>"
proof -
  have q: "quote_identifier IdPostgres ''t'' = Inr [CHR 0x22, CHR ''t'', CHR 0x22]"
    "quote_identifier IdPostgres ''a'' = Inr [CHR 0x22, CHR ''a'', CHR 0x22]"
    by code_simp+
  have n: "show_nat (Suc 0) = ''1''" by code_simp
  show ?thesis
    by (simp add: sample_delete_def compile_portable_def dialect_of_provider_def compile_statement_def
        compile_delete_def qualify_table_def quote_name_def identifier_dialect_of_def table_new_def context_new_def q
        compile_returning_def clause_inline_def clause_suffix_def compile_where_def set_relation_def
        compile_comparison_def json_supported_def bind_def push_param_def placeholder_def n)
qed

text \<open>C5: no value of a statement reaches its SQL text.  Two statements that differ in their literal values
  alone (and in the bytes, SRID and distance of a spatial predicate) compile, on every provider, to the same
  SQL with the same number of parameters; a quote or a comment inside a value changes nothing.\<close>

theorem sql_ignores_values:
  assumes "shape_statement st = shape_statement st'"
    and "compile_portable js k st = Inr c" and "compile_portable js k st' = Inr c'"
  shows "cp_sql c = cp_sql c' \<and> param_count c = param_count c'"
  using assms by (rule compile_portable_agree)

theorem sql_ignores_values_witness:
  "\<exists>c c'. compile_portable show_nat Postgres (sample_delete ''x'') = Inr c \<and>
     compile_portable show_nat Postgres (sample_delete sample_injection) = Inr c' \<and> cp_sql c = cp_sql c'"
proof -
  have "shape_statement (sample_delete ''x'') = shape_statement (sample_delete sample_injection)"
    by (simp add: sample_delete_def)
  from sql_ignores_values [OF this sample_delete_compiles sample_delete_compiles]
  show ?thesis unfolding sample_delete_compiles by blast
qed

text \<open>C13: the parameters of a compiled statement are its values and nothing else: each literal exactly once, in
  the order of the statement (a JSON document as text on MySQL, a spatial literal as hexadecimal on Db2), with
  the geometry, SRID, guarded table and column (PostgreSQL), and distance of each spatial predicate, and the
  sentinel \<open>0\<close> of each typed parameter, which has no value in the statement, in their places.\<close>

theorem parameters_are_the_values:
  assumes "compile_portable js k st = Inr c"
  shows "\<exists>d. dialect_of_provider k = Inr d \<and> cp_params c = statement_binds js d st"
  using compile_portable_promise [OF assms] by metis

theorem parameters_are_the_values_witness:
  "\<exists>d. dialect_of_provider Postgres = Inr d \<and>
     [PvString ''x''] = statement_binds show_nat d (sample_delete ''x'')"
  using parameters_are_the_values [OF sample_delete_compiles [of "''x''"]] by simp

text \<open>C27: every name a compiled statement writes has passed the identifier rules of its dialect, on every path:
  table and schema, projection, assignments, predicates at any depth, ordering, conflict target (where it is
  written) and returned columns.\<close>

theorem written_names_are_valid:
  assumes "compile_portable js k st = Inr c"
  shows "\<exists>d. dialect_of_provider k = Inr d \<and>
    list_all (identifier_ok (identifier_dialect_of d)) (statement_names d st)"
  using compile_portable_promise [OF assms] by (metis names_ok_def)

theorem written_names_are_valid_witness:
  "\<exists>d. dialect_of_provider Postgres = Inr d \<and>
    list_all (identifier_ok (identifier_dialect_of d)) (statement_names d (sample_delete ''x''))"
  by (rule written_names_are_valid [OF sample_delete_compiles])

end
