(* ===== verification/Relational_Mutation.thy ===== *)
theory Relational_Mutation
  imports Portable_Proofs
begin

text \<open>
  The relational DML and its lowering to a portable statement: the mutation operations of
  \<open>plenora-database-core/src/relational.rs\<close> and \<open>relational_mutation.rs\<close>.  The lowering mutates the
  collected binds (names in order, positions of spatial and typed ones); here they are passed and returned.
\<close>

section \<open>Operations\<close>

record mutation_assignment =
  ma_column :: string
  ma_value :: query_expression

record insert_operation =
  io_target :: object_ref
  io_columns :: "string list"
  io_rows :: "query_expression list list"
  io_returning :: "string list"

record update_operation =
  uo_target :: object_ref
  uo_assignments :: "mutation_assignment list"
  uo_filter :: "query_expression option"
  uo_returning :: "string list"

record delete_operation =
  do_target :: object_ref
  do_filter :: "query_expression option"
  do_returning :: "string list"

record upsert_operation =
  po_target :: object_ref
  po_columns :: "string list"
  po_rows :: "query_expression list list"
  po_conflict_target :: "string list"
  po_update_on_conflict :: "mutation_assignment list"
  po_returning :: "string list"

datatype mutation_operation =
  MoInsert insert_operation
| MoUpdate update_operation
| MoDelete delete_operation
| MoUpsert upsert_operation

record lowered_mutation =
  lm_sql :: string
  lm_bind_names :: "string list"
  lm_returns_rows :: bool

section \<open>Binds\<close>

record 'json binds =
  bn_names :: "string list"
  bn_values :: "'json parameter_value list option"
  bn_spatial :: "nat list"
  bn_typed :: "(nat \<times> query_parameter_type) list"

definition binds_sentinels :: "'json binds" where
  "binds_sentinels = \<lparr>bn_names = [], bn_values = None, bn_spatial = [], bn_typed = []\<rparr>"

definition binds_values :: "'json parameter_value list \<Rightarrow> 'json binds" where
  "binds_values vs = \<lparr>bn_names = [], bn_values = Some vs, bn_spatial = [], bn_typed = []\<rparr>"

definition bind_scalar :: "string \<Rightarrow> query_parameter_type option \<Rightarrow> 'json binds
    \<Rightarrow> ('json binds \<times> 'json expression) result" where
  "bind_scalar name t b =
     (let position = length (bn_names b);
          b' = b\<lparr>bn_names := bn_names b @ [name]\<rparr>
      in and_then
           (case bn_values b of
              Some vs \<Rightarrow>
                if position < length vs then Inr (vs ! position)
                else Inl (invalid_plan ''valori DML meno dei segnaposto del piano'')
            | None \<Rightarrow> Inr (if t = Some QtTimestampTz then PvTimestampTz [] else PvI64 0))
           (\<lambda>v. Inr (b', ExLiteral v)))"

definition bind_typed :: "string \<Rightarrow> query_parameter_type \<Rightarrow> 'json binds \<Rightarrow> 'json binds \<times> 'json expression" where
  "bind_typed name t b =
     (b\<lparr>bn_typed := bn_typed b @ [(length (bn_names b), t)], bn_names := bn_names b @ [name]\<rparr>, ExTypedParameter t)"

definition bind_spatial :: "string \<Rightarrow> 'json binds \<Rightarrow> 'json binds" where
  "bind_spatial name b =
     b\<lparr>bn_spatial := bn_spatial b @ [length (bn_names b)], bn_names := bn_names b @ [name]\<rparr>"

section \<open>Lowering\<close>

definition lower_table :: "object_ref \<Rightarrow> table_ref result" where
  "lower_table target =
     (if or_catalog target \<noteq> None then Inl (invalid_plan ''target DML cross-catalog non supportato'')
      else Inr \<lparr>tr_schema = or_schema target, tr_name = or_object target\<rparr>)"

definition lower_column :: "query_expression \<Rightarrow> object_ref \<Rightarrow> string result" where
  "lower_column e target =
     (case e of
        Column c \<Rightarrow>
          if cr_relation c \<noteq> None \<and> cr_relation c \<noteq> Some (or_object target)
          then Inl (invalid_plan ''predicato DML riferito a una relazione diversa dal target'')
          else Inr (cr_field c)
      | _ \<Rightarrow> Inl (invalid_plan ''predicato DML richiede una colonna a sinistra''))"

definition lower_spatial_value :: "query_expression \<Rightarrow> u32 \<Rightarrow> spatial_semantics \<Rightarrow> 'json binds
    \<Rightarrow> ('json binds \<times> 'json expression) result" where
  "lower_spatial_value e srid semantics b =
     (if srid = 0 then Inl (invalid_plan ''valore spatial richiede SRID positivo'')
      else and_then
        (case e of
           Parameter name \<Rightarrow> Inr name
         | TypedParameter name _ \<Rightarrow> Inr name
         | _ \<Rightarrow> Inl (invalid_plan ''valore spatial richiede un bind'')) (\<lambda>name.
        Inr (bind_spatial name b, ExSpatialValue (ExLiteral (PvNull ''bytea'')) srid semantics)))"

definition lower_insert_value :: "query_expression \<Rightarrow> 'json binds \<Rightarrow> ('json binds \<times> 'json expression) result" where
  "lower_insert_value e b =
     (case e of
        Parameter name \<Rightarrow> bind_scalar name None b
      | TypedParameter name t \<Rightarrow> bind_scalar name (Some t) b
      | SpatialValue inner srid semantics \<Rightarrow> lower_spatial_value inner srid semantics b
      | _ \<Rightarrow> Inl (invalid_plan ''valore INSERT richiede bind()''))"

definition lower_value :: "object_ref \<Rightarrow> bool \<Rightarrow> query_expression \<Rightarrow> 'json binds
    \<Rightarrow> ('json binds \<times> 'json expression) result" where
  "lower_value target compared e b =
     (case e of
        Parameter name \<Rightarrow> bind_scalar name None b
      | TypedParameter name t \<Rightarrow> if compared then Inr (bind_typed name t b) else bind_scalar name (Some t) b
      | Column _ \<Rightarrow> and_then (lower_column e target) (\<lambda>c. Inr (b, ExColumn c))
      | SpatialValue inner srid semantics \<Rightarrow> lower_spatial_value inner srid semantics b
      | _ \<Rightarrow> Inl (invalid_plan ''valore DML richiede bind() o Column''))"

definition negate :: "'json portable_predicate \<Rightarrow> bool \<Rightarrow> 'json portable_predicate" where
  "negate p negated = (if negated then PrNot p else p)"

definition comparison_predicate :: "comparison_operator \<Rightarrow> string \<Rightarrow> 'json expression \<Rightarrow> 'json portable_predicate" where
  "comparison_predicate op =
     (case op of CoEq \<Rightarrow> PrEq | CoNe \<Rightarrow> PrNe | CoLt \<Rightarrow> PrLt | CoLte \<Rightarrow> PrLte | CoGt \<Rightarrow> PrGt | CoGte \<Rightarrow> PrGte)"

fun lower_predicate :: "object_ref \<Rightarrow> query_expression \<Rightarrow> 'json binds \<Rightarrow> ('json binds \<times> 'json portable_predicate) result" where
  "lower_predicate target (Compare left op right) b =
     and_then (lower_column left target) (\<lambda>column.
     and_then (lower_value target True right b) (\<lambda>(b', v). Inr (b', comparison_predicate op column v)))"
| "lower_predicate target (InList e es negated) b =
     and_then (lower_column e target) (\<lambda>column.
     and_then (collect (lower_value target True) es b) (\<lambda>(b', vs). Inr (b', negate (PrIn column vs) negated)))"
| "lower_predicate target (Between e low high negated) b =
     and_then (lower_column e target) (\<lambda>column.
     and_then (lower_value target True low b) (\<lambda>(b1, l).
     and_then (lower_value target True high b1) (\<lambda>(b2, h). Inr (b2, negate (PrBetween column l h) negated))))"
| "lower_predicate target (Like e pattern case_insensitive negated) b =
     (if case_insensitive then Inl (invalid_plan ''ILIKE DML non ancora portabile'')
      else and_then (lower_column e target) (\<lambda>column.
           and_then (lower_value target True pattern b) (\<lambda>(b', p). Inr (b', negate (PrLike column p) negated))))"
| "lower_predicate target (IsNull e negated) b =
     and_then (lower_column e target) (\<lambda>column. Inr (b, if negated then PrIsNotNull column else PrIsNull column))"
| "lower_predicate target (And arguments) b =
     and_then (collect (lower_predicate target) arguments b) (\<lambda>(b', ps). Inr (b', PrAnd ps))"
| "lower_predicate target (Or arguments) b =
     and_then (collect (lower_predicate target) arguments b) (\<lambda>(b', ps). Inr (b', PrOr ps))"
| "lower_predicate target (Not e) b =
     and_then (lower_predicate target e b) (\<lambda>(b', p). Inr (b', PrNot p))"
| "lower_predicate target e b = Inl (invalid_plan ''predicato DML non ancora supportato'')"

definition lower_filter :: "object_ref \<Rightarrow> query_expression option \<Rightarrow> 'json binds
    \<Rightarrow> ('json binds \<times> 'json portable_predicate option) result" where
  "lower_filter target flt b =
     (case flt of
        None \<Rightarrow> Inr (b, None)
      | Some e \<Rightarrow> and_then (lower_predicate target e b) (\<lambda>(b', p). Inr (b', Some p)))"

definition lower_assignment :: "object_ref \<Rightarrow> mutation_assignment \<Rightarrow> 'json binds
    \<Rightarrow> ('json binds \<times> (string \<times> 'json expression)) result" where
  "lower_assignment target a b =
     and_then (lower_value target False (ma_value a) b) (\<lambda>(b', v). Inr (b', (ma_column a, v)))"

definition lower_insert :: "insert_operation \<Rightarrow> 'json binds \<Rightarrow> ('json binds \<times> 'json insert_statement) result" where
  "lower_insert op b =
     and_then (collect (collect lower_insert_value) (io_rows op) b) (\<lambda>(b', vals).
     and_then (lower_table (io_target op)) (\<lambda>table.
     Inr (b', \<lparr>ins_table = table, ins_columns = io_columns op, ins_values = vals, ins_returning = io_returning op\<rparr>)))"

definition lower_update :: "update_operation \<Rightarrow> 'json binds \<Rightarrow> ('json binds \<times> 'json update_statement) result" where
  "lower_update op b =
     and_then (collect (lower_assignment (uo_target op)) (uo_assignments op) b) (\<lambda>(b1, assignments).
     and_then (lower_filter (uo_target op) (uo_filter op) b1) (\<lambda>(b2, flt).
     and_then (lower_table (uo_target op)) (\<lambda>table.
     Inr (b2, \<lparr>upd_table = table, upd_assignments = assignments, upd_filter = flt, upd_returning = uo_returning op\<rparr>))))"

definition lower_delete :: "delete_operation \<Rightarrow> 'json binds \<Rightarrow> ('json binds \<times> 'json delete_statement) result" where
  "lower_delete op b =
     and_then (lower_filter (do_target op) (do_filter op) b) (\<lambda>(b', flt).
     and_then (lower_table (do_target op)) (\<lambda>table.
     Inr (b', \<lparr>del_table = table, del_filter = flt, del_returning = do_returning op\<rparr>)))"

definition lower_upsert :: "upsert_operation \<Rightarrow> 'json binds \<Rightarrow> ('json binds \<times> 'json upsert_statement) result" where
  "lower_upsert op b =
     and_then (collect (collect lower_insert_value) (po_rows op) b) (\<lambda>(b1, vals).
     and_then (collect (lower_assignment (po_target op)) (po_update_on_conflict op) b1) (\<lambda>(b2, assignments).
     and_then (lower_table (po_target op)) (\<lambda>table.
     Inr (b2, \<lparr>ups_table = table, ups_columns = po_columns op, ups_values = vals,
       ups_conflict_target = po_conflict_target op, ups_update_on_conflict = assignments,
       ups_returning = po_returning op\<rparr>))))"

definition lower :: "mutation_operation \<Rightarrow> 'json binds \<Rightarrow> ('json binds \<times> ('json portable_statement \<times> bool)) result" where
  "lower op b =
     (case op of
        MoInsert i \<Rightarrow> and_then (lower_insert i b) (\<lambda>(b', s). Inr (b', (PsInsert s, io_returning i \<noteq> [])))
      | MoUpdate u \<Rightarrow> and_then (lower_update u b) (\<lambda>(b', s). Inr (b', (PsUpdate s, uo_returning u \<noteq> [])))
      | MoDelete d \<Rightarrow> and_then (lower_delete d b) (\<lambda>(b', s). Inr (b', (PsDelete s, do_returning d \<noteq> [])))
      | MoUpsert u \<Rightarrow> and_then (lower_upsert u b) (\<lambda>(b', s). Inr (b', (PsUpsert s, po_returning u \<noteq> []))))"

definition layout_error :: "provider_kind \<Rightarrow> database_error" where
  "layout_error provider =
     error_new Internal PhPrepare (Some provider) ''layout bind DML incoerente dopo il lowering''"

definition compile_relational_mutation :: "('json \<Rightarrow> string) \<Rightarrow> provider_kind \<Rightarrow> mutation_operation
    \<Rightarrow> lowered_mutation result" where
  "compile_relational_mutation js provider op =
     and_then (lower op binds_sentinels) (\<lambda>(b, (statement, returns_rows)).
     and_then (compile_portable js provider statement) (\<lambda>lowered.
     if length (cp_params lowered) \<noteq> length (bn_names b) then Inl (layout_error provider)
     else Inr \<lparr>lm_sql = cp_sql lowered, lm_bind_names = bn_names b, lm_returns_rows = returns_rows\<rparr>))"

section \<open>The layout of the binds\<close>

text \<open>The parameters an operation names, in the order the lowering meets them.\<close>

fun value_parameters :: "query_expression \<Rightarrow> string list" where
  "value_parameters (Parameter name) = [name]"
| "value_parameters (TypedParameter name t) = [name]"
| "value_parameters (SpatialValue e srid semantics) = value_parameters e"
| "value_parameters e = []"

fun predicate_parameters :: "query_expression \<Rightarrow> string list" where
  "predicate_parameters (Compare left op right) = value_parameters right"
| "predicate_parameters (InList e es negated) = concat (map value_parameters es)"
| "predicate_parameters (Between e low high negated) = value_parameters low @ value_parameters high"
| "predicate_parameters (Like e pattern case_insensitive negated) = value_parameters pattern"
| "predicate_parameters (And arguments) = concat (map predicate_parameters arguments)"
| "predicate_parameters (Or arguments) = concat (map predicate_parameters arguments)"
| "predicate_parameters (Not e) = predicate_parameters e"
| "predicate_parameters e = []"

definition where_parameters :: "query_expression option \<Rightarrow> string list" where
  "where_parameters flt = (case flt of None \<Rightarrow> [] | Some e \<Rightarrow> predicate_parameters e)"

definition rows_parameters :: "query_expression list list \<Rightarrow> string list" where
  "rows_parameters rows = concat (map (\<lambda>row. concat (map value_parameters row)) rows)"

definition assignments_parameters :: "mutation_assignment list \<Rightarrow> string list" where
  "assignments_parameters as = concat (map (\<lambda>a. value_parameters (ma_value a)) as)"

fun mutation_parameters :: "mutation_operation \<Rightarrow> string list" where
  "mutation_parameters (MoInsert i) = rows_parameters (io_rows i)"
| "mutation_parameters (MoUpdate u) = assignments_parameters (uo_assignments u) @ where_parameters (uo_filter u)"
| "mutation_parameters (MoDelete d) = where_parameters (do_filter d)"
| "mutation_parameters (MoUpsert u) = rows_parameters (po_rows u) @ assignments_parameters (po_update_on_conflict u)"

text \<open>A lowered part appends the names \<open>ns\<close> and binds as many parameters.\<close>

definition lowers :: "('x \<Rightarrow> nat) \<Rightarrow> 'json binds \<Rightarrow> string list \<Rightarrow> ('json binds \<times> 'x) result \<Rightarrow> bool" where
  "lowers size_of b ns r \<longleftrightarrow>
     result_sat (\<lambda>(b', x). bn_names b' = bn_names b @ ns \<and> size_of x = length ns) r"

lemma lowersD: "lowers size_of b ns r \<Longrightarrow> r = Inr (b', x) \<Longrightarrow> bn_names b' = bn_names b @ ns \<and> size_of x = length ns"
  by (simp add: lowers_def)

lemma lowersI:
  assumes "\<And>b' x. r = Inr (b', x) \<Longrightarrow> bn_names b' = bn_names b @ ns \<and> size_of x = length ns"
  shows "lowers size_of b ns r"
proof -
  have "case y of (b', x) \<Rightarrow> bn_names b' = bn_names b @ ns \<and> size_of x = length ns" if "r = Inr y" for y
    unfolding prod.case_eq_if by (rule assms) (simp add: that)
  then show ?thesis by (simp add: lowers_def result_sat_def)
qed

lemma lowers_collect:
  assumes "\<And>x b. x \<in> set xs \<Longrightarrow> lowers size_of b (ns x) (f x b)"
  shows "lowers (\<lambda>ys. sum_list (map size_of ys)) b (concat (map ns xs)) (collect f xs b)"
  using assms
proof (induction xs arbitrary: b)
  case Nil
  then show ?case by (simp add: lowers_def)
next
  case (Cons x xs)
  have x: "lowers size_of b (ns x) (f x b)" for b using Cons.prems by simp
  have xs: "lowers (\<lambda>ys. sum_list (map size_of ys)) b (concat (map ns xs)) (collect f xs b)" for b
    using Cons.prems by (intro Cons.IH) simp
  show ?case
  proof (rule lowersI)
    fix b' ys assume "collect f (x # xs) b = Inr (b', ys)"
    then obtain b1 y zs where y: "f x b = Inr (b1, y)" and zs: "collect f xs b1 = Inr (b', zs)" and ys: "ys = y # zs"
      by (auto simp: result_simps)
    show "bn_names b' = bn_names b @ concat (map ns (x # xs)) \<and> sum_list (map size_of ys) = length (concat (map ns (x # xs)))"
      using lowersD [OF x y] lowersD [OF xs zs] by (simp add: ys)
  qed
qed

section \<open>Every part lowers\<close>

abbreviation (input) esize :: "('json \<Rightarrow> string) \<Rightarrow> dialect_kind \<Rightarrow> 'json expression \<Rightarrow> nat" where
  "esize js d e \<equiv> length (expression_binds js d e)"

lemma bind_scalar_lowers: "lowers (esize js d) b [name] (bind_scalar name t b)"
  by (rule lowersI) (auto simp: bind_scalar_def Let_def result_simps split: option.splits if_splits)

lemma spatial_value_lowers:
  "lowers (esize js d) b (value_parameters e) (lower_spatial_value e srid semantics b)"
  by (rule lowersI)
    (auto simp: lower_spatial_value_def bind_spatial_def literal_bytes_def result_simps
      split: if_splits query_expression.splits dialect_kind.splits)

lemma insert_value_lowers: "lowers (esize js d) b (value_parameters e) (lower_insert_value e b)"
  by (rule lowersI, cases e)
    (auto simp: lower_insert_value_def dest!: lowersD [OF bind_scalar_lowers] lowersD [OF spatial_value_lowers])

lemma value_lowers: "lowers (esize js d) b (value_parameters e) (lower_value target compared e b)"
  by (rule lowersI, cases e)
    (auto simp: lower_value_def bind_typed_def result_simps split: if_splits
      dest!: lowersD [OF bind_scalar_lowers] lowersD [OF spatial_value_lowers])

abbreviation (input) psize :: "('json \<Rightarrow> string) \<Rightarrow> dialect_kind \<Rightarrow> string option \<Rightarrow> 'json portable_predicate \<Rightarrow> nat" where
  "psize js d rel p \<equiv> length (predicate_binds js d rel p)"

lemma values_lower:
  "lowers (\<lambda>es. sum_list (map (esize js d) es)) b (concat (map value_parameters es))
     (collect (lower_value target compared) es b)"
  by (rule lowers_collect) (rule value_lowers)

lemma length_concat_map: "length (concat (map f xs)) = sum_list (map (\<lambda>x. length (f x)) xs)"
  by (induction xs) simp_all

lemma negate_binds [simp]: "predicate_binds js d rel (negate p negated) = predicate_binds js d rel p"
  by (simp add: negate_def)

lemma comparison_binds [simp]:
  "predicate_binds js d rel (comparison_predicate op column v) = expression_binds js d v"
  by (cases op) (simp_all add: comparison_predicate_def)

lemma predicate_lowers: "lowers (psize js d rel) b (predicate_parameters e) (lower_predicate target e b)"
proof (induction target e b rule: lower_predicate.induct)
  case (6 target arguments b)
  have "lowers (\<lambda>ps. sum_list (map (psize js d rel) ps)) b (concat (map predicate_parameters arguments))
      (collect (lower_predicate target) arguments b)"
    by (rule lowers_collect) (rule 6)
  then show ?case by (intro lowersI) (auto simp: result_simps length_concat_map dest!: lowersD)
next
  case (7 target arguments b)
  have "lowers (\<lambda>ps. sum_list (map (psize js d rel) ps)) b (concat (map predicate_parameters arguments))
      (collect (lower_predicate target) arguments b)"
    by (rule lowers_collect) (rule 7)
  then show ?case by (intro lowersI) (auto simp: result_simps length_concat_map dest!: lowersD)
next
  case (8 target e b)
  then show ?case by (intro lowersI) (auto simp: result_simps dest!: lowersD)
qed (rule lowersI, auto simp: result_simps length_concat_map split: if_splits
      dest!: lowersD [OF value_lowers [where js = js and d = d]] lowersD [OF values_lower [where js = js and d = d]])+

lemma filter_lowers:
  "lowers (\<lambda>flt. length (where_binds js d t flt)) b (where_parameters flt) (lower_filter target flt b)"
  by (cases flt; intro lowersI)
    (auto simp: lower_filter_def where_parameters_def where_binds_def result_simps dest!: lowersD [OF predicate_lowers])

lemma rows_lower:
  "lowers (\<lambda>rows. length (concat (map (row_binds js d) rows))) b (rows_parameters rows)
     (collect (collect lower_insert_value) rows b)"
proof -
  have row: "lowers (\<lambda>row. sum_list (map (esize js d) row)) b (concat (map value_parameters row))
      (collect lower_insert_value row b)" for row b
    by (rule lowers_collect) (rule insert_value_lowers)
  have "lowers (\<lambda>rows. sum_list (map (\<lambda>row. sum_list (map (esize js d) row)) rows)) b (rows_parameters rows)
      (collect (collect lower_insert_value) rows b)"
    unfolding rows_parameters_def by (rule lowers_collect) (rule row)
  then show ?thesis by (simp add: row_binds_def length_concat_map)
qed

lemma assignments_lower:
  "lowers (\<lambda>as. length (assignment_binds js d as)) b (assignments_parameters as)
     (collect (lower_assignment target) as b)"
proof -
  have one: "lowers (\<lambda>a. esize js d (snd a)) b (value_parameters (ma_value a)) (lower_assignment target a b)" for a b
    by (rule lowersI) (auto simp: lower_assignment_def result_simps dest!: lowersD [OF value_lowers])
  have "lowers (\<lambda>as. sum_list (map (\<lambda>a. esize js d (snd a)) as)) b (assignments_parameters as)
      (collect (lower_assignment target) as b)"
    unfolding assignments_parameters_def by (rule lowers_collect) (rule one)
  then show ?thesis by (simp add: assignment_binds_def length_concat_map)
qed

lemma filter_lowersD:
  assumes "lower_filter target flt b = Inr (b', p)"
  shows "bn_names b' = bn_names b @ where_parameters flt \<and>
    length (where_binds js d t p) = length (where_parameters flt)"
  by (rule lowersD [OF filter_lowers assms])

lemma lower_layout:
  "lowers (\<lambda>(st, _). length (statement_binds js d st)) b (mutation_parameters op) (lower op b)"
  by (cases op; intro lowersI)
    (auto simp: lower_def lower_insert_def lower_update_def lower_delete_def lower_upsert_def result_simps
      dest!: lowersD [OF rows_lower [where js = js and d = d]] lowersD [OF assignments_lower [where js = js and d = d]]
      simp: filter_lowersD [where js = js and d = d])

section \<open>Properties\<close>

lemma compile_param_count:
  assumes "lower op binds_sentinels = Inr (b, (statement, returns_rows))" "compile_portable js k statement = Inr c"
  shows "bn_names b = mutation_parameters op \<and> length (cp_params c) = length (mutation_parameters op)"
proof -
  obtain d where "cp_params c = statement_binds js d statement"
    using compile_portable_promise [OF assms(2)] .
  with lowersD [OF lower_layout [of js d] assms(1)] show ?thesis
    by (simp add: binds_sentinels_def)
qed

text \<open>C15: the layout of a compiled mutation is right by construction.  Compiling is lowering and compiling alone,
  on every provider: the check of the layout after the lowering never fires, so its internal error is never
  returned; and on success the bind names are the parameters of the operation in its order, one per
  placeholder.\<close>

theorem mutation_layout_holds:
  "compile_relational_mutation js k op =
     and_then (lower op binds_sentinels) (\<lambda>(b, (statement, returns_rows)).
     and_then (compile_portable js k statement) (\<lambda>c.
     Inr \<lparr>lm_sql = cp_sql c, lm_bind_names = mutation_parameters op, lm_returns_rows = returns_rows\<rparr>))"
proof (cases "lower op binds_sentinels :: ('a binds \<times> ('a portable_statement \<times> bool)) result")
  case (Inl e)
  then show ?thesis by (simp add: compile_relational_mutation_def)
next
  case (Inr r)
  then obtain b st rr where r: "lower op binds_sentinels = Inr (b :: 'a binds, (st, rr))" by (cases r) auto
  then show ?thesis
    by (cases "compile_portable js k st") (simp_all add: compile_relational_mutation_def compile_param_count)
qed

end
