(* ===== verification/Probe_Rule.thy ===== *)
theory Probe_Rule
  imports Spatial_Probe
begin

text \<open>
  Rule P, \<open>plenora-database-core/src/spatial_probe.rs\<close>: where a spatial probe may stand in a query.  The names a
  block resolves its columns with, the frame of a geometric term without a catalogue, and \<open>judge\<close>, the loop
  over an explicit stack that classifies every geometric argument of the query.  The source refers to a block
  by its index in a vector that only grows, with the index of its parent; here a reference is the list of the
  block and its parents, innermost first.
\<close>

type_synonym cte = "query_operation common_table_expression"

section \<open>Scopes and frames\<close>

record base_column_ref =
  bc_schema :: "string option"
  bc_object :: string
  bc_column :: string

record relation_scope =
  rs_sources :: "(string \<times> string option \<times> string) list"
  rs_derived :: "string set"
  rs_common_tables :: "string set"

definition operation_sources :: "query_operation \<Rightarrow> query_source list" where
  "operation_sources q =
     list_of_option (op_source q) @ concat (map (\<lambda>j. list_of_option (qj_source j)) (op_joins q))"

definition operation_derived :: "query_operation \<Rightarrow> query_operation query_derived_source list" where
  "operation_derived q =
     list_of_option (op_derived_source q)
     @ concat (map (\<lambda>j. list_of_option (qj_derived_source j)) (op_joins q))"

definition source_name :: "query_source \<Rightarrow> string" where
  "source_name s = (case qs_alias s of Some alias \<Rightarrow> alias | None \<Rightarrow> or_object (qs_object s))"

definition scope_of :: "query_operation \<Rightarrow> string set \<Rightarrow> relation_scope" where
  "scope_of q common_tables =
     \<lparr>rs_sources = map (\<lambda>s. (source_name s, or_schema (qs_object s), or_object (qs_object s))) (operation_sources q),
      rs_derived = set (map ds_alias (operation_derived q)),
      rs_common_tables = common_tables \<union> set (map cte_name (common_table_expressions q))\<rparr>"

definition scope_single :: "string \<Rightarrow> relation_scope" where
  "scope_single relation =
     \<lparr>rs_sources = [(relation, None, relation)], rs_derived = {}, rs_common_tables = {}\<rparr>"

definition scope_names :: "relation_scope \<Rightarrow> string \<Rightarrow> bool" where
  "scope_names s relation \<longleftrightarrow>
     relation \<in> rs_derived s \<or> list_ex (\<lambda>(name, _, _). name = relation) (rs_sources s)"

definition has_non_base_relation :: "relation_scope \<Rightarrow> bool" where
  "has_non_base_relation s \<longleftrightarrow>
     rs_derived s \<noteq> {} \<or>
     list_ex (\<lambda>(_, schema, obj). schema = None \<and> obj \<in> rs_common_tables s) (rs_sources s)"

definition base_column :: "relation_scope \<Rightarrow> column_ref \<Rightarrow> base_column_ref option" where
  "base_column s c =
     (let named = (case cr_relation c of
            Some relation \<Rightarrow>
              if relation \<in> rs_derived s then None
              else Some (filter (\<lambda>(name, _, _). name = relation) (rs_sources s))
          | None \<Rightarrow> if rs_derived s = {} then Some (rs_sources s) else None)
      in case named of
           Some [(_, schema, obj)] \<Rightarrow>
             if schema = None \<and> obj \<in> rs_common_tables s then None
             else Some \<lparr>bc_schema = schema, bc_object = obj, bc_column = cr_field c\<rparr>
         | _ \<Rightarrow> None)"

datatype term_frame_kind = TfColumn base_column_ref | TfDeclared u32 | TfParameter string | TfUnresolved

definition geometric_arguments :: "spatial_function \<Rightarrow> query_expression list \<Rightarrow> (nat \<times> query_expression) list" where
  "geometric_arguments f args = filter (\<lambda>(i, _). takes_geometry_at f i) (enumerate 0 args)"

text \<open>The single geometric argument of a function that keeps its frame.\<close>

definition preserved_argument :: "query_expression \<Rightarrow> (nat \<times> query_expression) option" where
  "preserved_argument e =
     (case e of
        Spatial f args \<Rightarrow>
          if \<not> returns_geometry f \<or> crs_rule f \<noteq> Some CrsPreserves then None
          else (case geometric_arguments f args of [(i, a)] \<Rightarrow> Some (i, a) | _ \<Rightarrow> None)
      | _ \<Rightarrow> None)"

lemma geometric_arguments_member: "(i, a) \<in> set (geometric_arguments f args) \<Longrightarrow> a \<in> set args"
  by (auto simp: geometric_arguments_def in_set_enumerate_eq)

lemma geometric_single: "geometric_arguments f args = [(i, a)] \<Longrightarrow> a \<in> set args"
  by (rule geometric_arguments_member [of i a f]) simp

lemma preserved_argument_child:
  "preserved_argument e = Some (i, a) \<Longrightarrow> NExpression a \<in> set (expression_parts e)"
  by (auto dest: geometric_single simp: preserved_argument_def split: query_expression.splits if_splits list.splits prod.splits)

lemma preserved_argument_size: "preserved_argument e = Some (i, a) \<Longrightarrow> size a < size e"
  using expression_child_size [OF preserved_argument_child] by simp

function term_frame :: "relation_scope \<Rightarrow> query_expression \<Rightarrow> term_frame_kind" where
  "term_frame s e =
     (case e of
        Column c \<Rightarrow> (case base_column s c of Some b \<Rightarrow> TfColumn b | None \<Rightarrow> TfUnresolved)
      | Parameter name \<Rightarrow> TfParameter name
      | TypedParameter name _ \<Rightarrow> TfParameter name
      | SpatialValue _ srid _ \<Rightarrow> TfDeclared srid
      | _ \<Rightarrow> (case preserved_argument e of Some (_, a) \<Rightarrow> term_frame s a | None \<Rightarrow> TfUnresolved))"
  by pat_completeness auto
termination
  by (relation "measure (\<lambda>(s, e). size e)") (auto dest!: preserved_argument_size)

declare term_frame.simps [simp del]

definition is_bind :: "query_expression \<Rightarrow> bool" where
  "is_bind e \<longleftrightarrow> (case e of Parameter _ \<Rightarrow> True | TypedParameter _ _ \<Rightarrow> True | _ \<Rightarrow> False)"

definition is_spatial_value :: "query_expression \<Rightarrow> bool" where
  "is_spatial_value e \<longleftrightarrow> (case e of SpatialValue _ _ _ \<Rightarrow> True | _ \<Rightarrow> False)"

function is_probe_term :: "query_expression \<Rightarrow> bool" where
  "is_probe_term e =
     (if is_bind e \<or> is_spatial_value e then True
      else case preserved_argument e of Some (_, a) \<Rightarrow> is_probe_term a | None \<Rightarrow> False)"
  by pat_completeness auto
termination
  by (relation "measure size") (auto dest!: preserved_argument_size)

declare is_probe_term.simps [simp del]

text \<open>The closure of \<open>contains_geometry_probe\<close>: the flag and whether the walk goes on.\<close>

definition geometric_probe_node :: "query_expression \<Rightarrow> bool" where
  "geometric_probe_node e \<longleftrightarrow>
     (case e of
        Spatial f args \<Rightarrow> list_ex (\<lambda>(i, a). is_bind a) (geometric_arguments f args)
      | SpatialWindow f args _ _ _ \<Rightarrow> list_ex (\<lambda>(i, a). is_bind a) (geometric_arguments f args)
      | SpatialOperator _ left right \<Rightarrow> is_bind left \<or> is_bind right
      | _ \<Rightarrow> False)"

definition probe_visitor :: "bool \<Rightarrow> query_walk_node \<Rightarrow> bool \<times> query_walk_control" where
  "probe_visitor found n =
     (case n of
        NExpression e \<Rightarrow>
          if is_spatial_value e \<or> geometric_probe_node e then (True, WBreak) else (found, WContinue)
      | _ \<Rightarrow> (found, WSkip))"

definition contains_geometry_probe :: "query_expression \<Rightarrow> bool" where
  "contains_geometry_probe e = snd (walk_query_expression probe_visitor e (is_bind e \<or> is_spatial_value e))"

section \<open>Relation columns\<close>

datatype clause = ClPredicate | ClElsewhere

record block =
  bl_scope :: relation_scope
  bl_operation :: "query_operation option"
  bl_common_tables :: "cte list"

definition MAX_RELATION_DEPTH :: nat where "MAX_RELATION_DEPTH = 64"

text \<open>The relation a name of the \<open>FROM\<close> stands for, when it is a derived source or a common table; the last
  common table of a name wins.\<close>

definition common_table_of :: "cte list \<Rightarrow> query_source \<Rightarrow> (query_operation \<times> string option) option" where
  "common_table_of visible s =
     (if or_schema (qs_object s) \<noteq> None then None
      else map_option (\<lambda>c. (cte_query c, Some (cte_name c)))
             (find (\<lambda>c. cte_name c = or_object (qs_object s)) (rev visible)))"

definition named_relation ::
  "query_operation \<Rightarrow> cte list \<Rightarrow> string option \<Rightarrow> (query_operation \<times> string option) option" where
  "named_relation q visible relation =
     (let derived = operation_derived q; sources = operation_sources q
      in case relation of
           None \<Rightarrow>
             (case (derived, sources) of
                ([d], []) \<Rightarrow> Some (ds_query d, None)
              | ([], [s]) \<Rightarrow> common_table_of visible s
              | _ \<Rightarrow> None)
         | Some name \<Rightarrow>
             (case find (\<lambda>d. ds_alias d = name) derived of
                Some d \<Rightarrow> Some (ds_query d, None)
              | None \<Rightarrow> Option.bind (find (\<lambda>s. source_name s = name) sources) (common_table_of visible)))"

text \<open>The branches of a set operation, breadth first.\<close>

function set_branches :: "query_operation list \<Rightarrow> query_operation list" where
  "set_branches [] = []"
| "set_branches (q # rest) = q # set_branches (rest @ map so_query (op_set_operations q))"
  by pat_completeness auto
termination
proof (relation "stack_order size")
  show "wf (stack_order size :: (query_operation list \<times> query_operation list) set)" by (rule wf_stack_order)
next
  fix q :: query_operation and rest
  have "(map so_query (op_set_operations q) @ rest, q # rest) \<in> stack_order size"
  proof (rule stack_order_push)
    fix k assume "k \<in> set (map so_query (op_set_operations q))"
    then have "NOperation k \<in> set (operation_parts q)"
      by (auto simp: operation_parts_def)
    from operation_child_size [OF this] show "size k < size q" by simp
  qed
  then show "(rest @ map so_query (op_set_operations q), q # rest) \<in> stack_order size"
    by (simp add: stack_order_def add.commute)
qed

definition projection_position :: "query_operation \<Rightarrow> string \<Rightarrow> nat option" where
  "projection_position q field =
     find_position (\<lambda>item.
         case qp_alias item of
           Some alias \<Rightarrow> alias = field
         | None \<Rightarrow> (case qp_expression item of Column c \<Rightarrow> cr_field c = field | _ \<Rightarrow> False))
       (op_projection q)"

text \<open>The name pushed on \<open>visiting\<close> is popped before the function returns: the callee gets a longer list.\<close>

function relation_output_is_column ::
    "query_operation \<Rightarrow> cte list \<Rightarrow> column_ref \<Rightarrow> string list \<Rightarrow> nat \<Rightarrow> bool"
  and output_is_column :: "query_operation \<Rightarrow> cte list \<Rightarrow> string \<Rightarrow> string list \<Rightarrow> nat \<Rightarrow> bool"
  and expression_is_column ::
    "query_expression \<Rightarrow> query_operation \<Rightarrow> relation_scope \<Rightarrow> cte list \<Rightarrow> string list \<Rightarrow> nat \<Rightarrow> bool"
where
  "relation_output_is_column q common_tables column visiting depth =
     (if depth > MAX_RELATION_DEPTH then False
      else
        let visible = common_tables @ common_table_expressions q
        in case named_relation q visible (cr_relation column) of
             None \<Rightarrow> False
           | Some (query, None) \<Rightarrow> output_is_column query visible (cr_field column) visiting (depth + 1)
           | Some (query, Some name) \<Rightarrow>
               if name \<in> set visiting then True
               else output_is_column query visible (cr_field column) (visiting @ [name]) (depth + 1))"
| "output_is_column query common_tables field visiting depth =
     (case projection_position query field of
        None \<Rightarrow> False
      | Some position \<Rightarrow>
          list_all (\<lambda>branch.
            if position < length (op_projection branch)
            then expression_is_column (qp_expression (op_projection branch ! position)) branch
                   (scope_of branch (set (map cte_name common_tables))) common_tables visiting depth
            else False) (set_branches [query]))"
| "expression_is_column e q s common_tables visiting depth =
     (case e of
        Column c \<Rightarrow> base_column s c \<noteq> None \<or> relation_output_is_column q common_tables c visiting depth
      | Spatial f args \<Rightarrow>
          returns_geometry f \<and>
          list_all (\<lambda>(_, a). expression_is_column a q s common_tables visiting depth) (geometric_arguments f args)
      | _ \<Rightarrow> False)"
  by pat_completeness auto
termination
proof (relation "measures
    [case_sum (\<lambda>(_, _, _, _, depth). 66 - depth)
      (case_sum (\<lambda>(_, _, _, _, depth). 66 - depth) (\<lambda>(_, _, _, _, _, depth). 66 - depth)),
     case_sum (\<lambda>_. 1) (case_sum (\<lambda>_. 3) (\<lambda>_. 2)),
     case_sum (\<lambda>_. 0) (case_sum (\<lambda>_. 0) (\<lambda>(e, _, _, _, _, _). size e))]")
qed (auto simp: MAX_RELATION_DEPTH_def
    dest!: geometric_arguments_member size_list_member [where f = "size :: query_expression \<Rightarrow> nat"])

declare relation_output_is_column.simps [simp del] output_is_column.simps [simp del]
  expression_is_column.simps [simp del]

text \<open>An unqualified name stays in its own block, unless an outer block could provide it; a qualified one
  belongs to the innermost block that names the relation.\<close>

fun block_naming :: "string \<Rightarrow> block list \<Rightarrow> block option" where
  "block_naming relation [] = None"
| "block_naming relation (b # outer) =
     (if scope_names (bl_scope b) relation then Some b else block_naming relation outer)"

definition column_block :: "column_ref \<Rightarrow> block list \<Rightarrow> block option" where
  "column_block c blocks =
     (case cr_relation c of
        None \<Rightarrow>
          if list_ex (\<lambda>b. has_non_base_relation (bl_scope b)) (tl blocks) then None else Some (hd blocks)
      | Some relation \<Rightarrow> block_naming relation blocks)"

definition is_relation_column :: "column_ref \<Rightarrow> block list \<Rightarrow> bool" where
  "is_relation_column c blocks =
     (case column_block c blocks of
        None \<Rightarrow> False
      | Some b \<Rightarrow>
          base_column (bl_scope b) c \<noteq> None \<or>
          (case bl_operation b of
             None \<Rightarrow> False
           | Some q \<Rightarrow> relation_output_is_column q (bl_common_tables b) c [] 0))"

section \<open>The judgement\<close>

definition PROBE_OUTSIDE_PREDICATE :: string where
  "PROBE_OUTSIDE_PREDICATE =
     ''sonda spatial fuori da un predicato WHERE, ON o HAVING: e ammessa soltanto come argomento di una funzione o di un operatore spatial''"

definition PROBE_PEER_OUTSIDE_BLOCK :: string where
  "PROBE_PEER_OUTSIDE_BLOCK =
     ''sonda spatial confrontata con un termine che non e una colonna di una tabella nella FROM dello stesso blocco''"

definition GEOMETRY_ARGUMENT_UNCLASSIFIED :: string where
  "GEOMETRY_ARGUMENT_UNCLASSIFIED =
     ''argomento geometrico di un nodo spatial che non e una colonna di una relazione nella FROM, una funzione spatial o una sonda diretta: CAST, COALESCE, CASE, subquery e altre espressioni non sono ammesse in posizione geometrica''"

datatype geometry_class = GcProbe | GcColumn | GcProduced | GcUnclassified

definition classify_geometry :: "query_expression \<Rightarrow> block list \<Rightarrow> geometry_class" where
  "classify_geometry a blocks =
     (if is_probe_term a then GcProbe
      else case a of
        Column c \<Rightarrow> if is_relation_column c blocks then GcColumn else GcUnclassified
      | Spatial f _ \<Rightarrow> if returns_geometry f then GcProduced else GcUnclassified
      | _ \<Rightarrow> GcUnclassified)"

text \<open>The arguments of a spatial node with the geometric ones marked, and whether it compares two geometries.\<close>

definition spatial_arguments :: "query_expression \<Rightarrow> ((query_expression \<times> bool) list \<times> bool) option" where
  "spatial_arguments e =
     (let of_function = (\<lambda>f args.
            let marked = map (\<lambda>(i, a). (a, takes_geometry_at f i)) (enumerate 0 args)
            in Some (marked, length (filter snd marked) \<ge> 2))
      in case e of
           SpatialOperator _ left right \<Rightarrow> Some ([(left, True), (right, True)], True)
         | Spatial f args \<Rightarrow> of_function f args
         | SpatialWindow f args _ _ _ \<Rightarrow> of_function f args
         | _ \<Rightarrow> None)"

datatype probe_item =
  PiOperation query_operation "cte list" "block list"
| PiExpression query_expression clause "block list"

definition refuse :: "provider_kind \<Rightarrow> probe_evidence \<Rightarrow> clause \<Rightarrow> database_error" where
  "refuse provider evidence clause =
     (case clause of
        ClPredicate \<Rightarrow>
          (case admit_probe provider evidence UseScalarOperand FrUnbound of
             Inl e \<Rightarrow> e
           | Inr _ \<Rightarrow> unsupported provider PhPrepare SPATIAL_VALUE_OUTSIDE_SPATIAL)
      | ClElsewhere \<Rightarrow> unsupported provider PhPrepare PROBE_OUTSIDE_PREDICATE)"

definition internal_unclassified :: database_error where
  "internal_unclassified = error_new Internal PhPrepare None GEOMETRY_ARGUMENT_UNCLASSIFIED"

text \<open>What the loop of \<open>push_probe\<close> pushes: the other arguments of every function on the way to the probe, and
  what a spatial value holds.\<close>

function push_probe :: "query_expression \<Rightarrow> block list \<Rightarrow> probe_item list result" where
  "push_probe e blocks =
     (case e of
        SpatialValue inner _ _ \<Rightarrow> Inr [PiExpression inner ClPredicate blocks]
      | Parameter _ \<Rightarrow> Inr []
      | TypedParameter _ _ \<Rightarrow> Inr []
      | Spatial _ args \<Rightarrow>
          (case preserved_argument e of
             None \<Rightarrow> Inl internal_unclassified
           | Some (preserved, a) \<Rightarrow>
               and_then (push_probe a blocks) (\<lambda>items.
               Inr (map (\<lambda>(_, child). PiExpression child ClPredicate blocks)
                      (filter (\<lambda>(i, _). i \<noteq> preserved) (enumerate 0 args)) @ items)))
      | _ \<Rightarrow> Inl internal_unclassified)"
  by pat_completeness auto
termination
  by (relation "measure (\<lambda>(e, blocks). size e)") (auto dest!: preserved_argument_size)

declare push_probe.simps [simp del]

definition is_column_frame :: "term_frame_kind \<Rightarrow> bool" where
  "is_column_frame t \<longleftrightarrow> (case t of TfColumn _ \<Rightarrow> True | _ \<Rightarrow> False)"

text \<open>The arguments of a spatial node: what is pushed, and whether one of them is of no class.\<close>

fun judge_arguments :: "provider_kind \<Rightarrow> probe_evidence \<Rightarrow> bool \<Rightarrow> bool \<Rightarrow> clause \<Rightarrow> block list
    \<Rightarrow> (query_expression \<times> bool) list \<Rightarrow> (probe_item list \<times> bool) result" where
  "judge_arguments k ev judging probes clause blocks [] = Inr ([], False)"
| "judge_arguments k ev judging probes clause blocks ((a, geometric) # rest) =
     (let continue = (\<lambda>pushed unclassified.
            and_then (judge_arguments k ev judging probes clause blocks rest) (\<lambda>(items, u).
            Inr (pushed @ items, unclassified \<or> u)))
      in if \<not> geometric then continue [PiExpression a clause blocks] False
         else if probes \<and> \<not> is_probe_term a \<and> \<not> is_column_frame (term_frame (bl_scope (hd blocks)) a)
         then Inl (unsupported k PhPrepare PROBE_PEER_OUTSIDE_BLOCK)
         else case classify_geometry a blocks of
           GcProbe \<Rightarrow>
             if judging then and_then (push_probe a blocks) (\<lambda>pushed. continue pushed False)
             else Inl (refuse k ev clause)
         | GcColumn \<Rightarrow> continue [] False
         | GcProduced \<Rightarrow> continue [PiExpression a clause blocks] False
         | GcUnclassified \<Rightarrow> continue [PiExpression a clause blocks] True)"

definition spatial_step :: "provider_kind \<Rightarrow> probe_evidence \<Rightarrow> query_expression \<Rightarrow> clause \<Rightarrow> block list
    \<Rightarrow> (query_expression \<times> bool) list \<Rightarrow> bool \<Rightarrow> (probe_item list \<times> bool) result" where
  "spatial_step k ev e clause blocks args comparing =
     (let clause' = (case e of SpatialWindow _ _ _ _ _ \<Rightarrow> ClElsewhere | _ \<Rightarrow> clause);
          judging = (comparing \<and> clause' = ClPredicate);
          probes = (judging \<and> list_ex (\<lambda>(a, geometric). geometric \<and> is_probe_term a) args)
      in and_then (judge_arguments k ev judging probes clause' blocks args) (\<lambda>(items, u).
         Inr (items @ (case e of
                SpatialWindow _ _ partition_by order_by _ \<Rightarrow>
                  map (\<lambda>child. PiExpression child ClElsewhere blocks) (partition_by @ map qo_expression order_by)
              | _ \<Rightarrow> []), u)))"

definition operation_step :: "query_operation \<Rightarrow> cte list \<Rightarrow> block list \<Rightarrow> probe_item list" where
  "operation_step q visible parent =
     (let inner = visible @ common_table_expressions q;
          blocks = \<lparr>bl_scope = scope_of q (set (map cte_name visible)), bl_operation = Some q,
                    bl_common_tables = inner\<rparr> # parent
      in map (\<lambda>c. PiOperation (cte_query c) inner []) (common_table_expressions q)
         @ map (\<lambda>d. PiOperation (ds_query d) inner []) (list_of_option (op_derived_source q))
         @ concat (map (\<lambda>j. map (\<lambda>d. PiOperation (ds_query d) inner (if qj_lateral j then blocks else []))
             (list_of_option (qj_derived_source j))) (op_joins q))
         @ map (\<lambda>s. PiOperation (so_query s) inner parent) (op_set_operations q)
         @ map (\<lambda>e. PiExpression e ClElsewhere blocks)
             (map qp_expression (op_projection q) @ op_distinct_on q @ op_group_by q
              @ map qo_expression (op_order_by q))
         @ map (\<lambda>e. PiExpression e ClPredicate blocks)
             (list_of_option (op_filter q) @ concat (map (\<lambda>j. list_of_option (qj_on j)) (op_joins q))
              @ list_of_option (op_having q)))"

text \<open>The expressions that are not spatial nodes.\<close>

definition plain_step :: "provider_kind \<Rightarrow> probe_evidence \<Rightarrow> query_expression \<Rightarrow> clause \<Rightarrow> block list
    \<Rightarrow> probe_item list result" where
  "plain_step k ev e clause blocks =
     (let same = map (\<lambda>child. PiExpression child clause blocks);
          elsewhere = map (\<lambda>child. PiExpression child ClElsewhere blocks);
          query = (\<lambda>q. PiOperation q (bl_common_tables (hd blocks)) blocks)
      in case e of
        Wildcard _ \<Rightarrow> Inr []
      | Column _ \<Rightarrow> Inr []
      | Parameter _ \<Rightarrow> Inr []
      | TypedParameter _ _ \<Rightarrow> Inr []
      | SpatialValue _ _ _ \<Rightarrow> Inl (refuse k ev clause)
      | Spatial _ _ \<Rightarrow> Inl (unsupported k PhPrepare GEOMETRY_ARGUMENT_UNCLASSIFIED)
      | SpatialOperator _ _ _ \<Rightarrow> Inl (unsupported k PhPrepare GEOMETRY_ARGUMENT_UNCLASSIFIED)
      | SpatialWindow _ _ _ _ _ \<Rightarrow> Inl (unsupported k PhPrepare GEOMETRY_ARGUMENT_UNCLASSIFIED)
      | Window _ args partition_by order_by _ \<Rightarrow>
          Inr (elsewhere (args @ partition_by @ map qo_expression order_by))
      | ScalarSubquery q \<Rightarrow> Inr [query q]
      | Exists q _ \<Rightarrow> Inr [query q]
      | InSubquery x q _ \<Rightarrow> Inr (same [x] @ [query q])
      | Arithmetic l _ r \<Rightarrow> Inr (same [l, r])
      | Compare l _ r \<Rightarrow> Inr (same [l, r])
      | Cast x _ \<Rightarrow> Inr (same [x])
      | NullsOrder x _ \<Rightarrow> Inr (same [x])
      | SpatialOutput x _ \<Rightarrow> Inr (same [x])
      | Not x \<Rightarrow> Inr (same [x])
      | IsNull x _ \<Rightarrow> Inr (same [x])
      | Case branches otherwise \<Rightarrow>
          Inr (same (concat (map (\<lambda>b. [cb_when b, cb_then b]) branches) @ list_of_option otherwise))
      | Scalar _ args \<Rightarrow> Inr (same args)
      | And args \<Rightarrow> Inr (same args)
      | Or args \<Rightarrow> Inr (same args)
      | InList x vs _ \<Rightarrow> Inr (same (x # vs))
      | Between x l u _ \<Rightarrow> Inr (same [x, l, u])
      | Like x p _ _ \<Rightarrow> Inr (same [x, p]))"

fun judge_step :: "provider_kind \<Rightarrow> probe_evidence \<Rightarrow> probe_item \<Rightarrow> (probe_item list \<times> bool) result" where
  "judge_step k ev (PiOperation q visible parent) = Inr (operation_step q visible parent, False)"
| "judge_step k ev (PiExpression e clause blocks) =
     (case spatial_arguments e of
        Some (args, comparing) \<Rightarrow> spatial_step k ev e clause blocks args comparing
      | None \<Rightarrow> and_then (plain_step k ev e clause blocks) (\<lambda>items. Inr (items, False)))"

subsection \<open>The loop ends\<close>

fun item_size :: "probe_item \<Rightarrow> nat" where
  "item_size (PiOperation q visible parent) = size q"
| "item_size (PiExpression e clause blocks) = size e"

lemma push_probe_size: "push_probe e blocks = Inr items \<Longrightarrow> i \<in> set items \<Longrightarrow> item_size i < size e"
proof (induction e blocks arbitrary: items rule: push_probe.induct)
  case (1 e blocks)
  show ?case
  proof (cases e)
    case (Spatial f args)
    with "1.prems" obtain p a rest where a: "preserved_argument e = Some (p, a)" and rest: "push_probe a blocks = Inr rest"
      and items: "items = map (\<lambda>(_, child). PiExpression child ClPredicate blocks)
                      (filter (\<lambda>(i, _). i \<noteq> p) (enumerate 0 args)) @ rest"
      by (auto simp: push_probe.simps [of "Spatial f args"] result_simps split: option.splits)
    from "1.prems"(2) items have "i \<in> set rest \<or> (\<exists>child \<in> set args. i = PiExpression child ClPredicate blocks)"
      by (auto simp: in_set_enumerate_eq)
    with "1.IH" [OF Spatial a refl rest] preserved_argument_size [OF a] show ?thesis
      by (auto simp: Spatial dest: size_list_member [where f = size])
  qed (use "1.prems" in \<open>auto simp: push_probe.simps\<close>)
qed

lemma judge_arguments_size:
  "judge_arguments k ev judging probes clause blocks args = Inr (items, u) \<Longrightarrow> i \<in> set items \<Longrightarrow>
     \<exists>(a, g) \<in> set args. item_size i \<le> size a"
proof (induction k ev judging probes clause blocks args arbitrary: items u rule: judge_arguments.induct)
  case (2 k ev judging probes clause blocks a g rest)
  obtain pushed ps u' where rest: "judge_arguments k ev judging probes clause blocks rest = Inr (ps, u')"
    and items: "items = pushed @ ps"
    and pushed: "pushed = [] \<or> pushed = [PiExpression a clause blocks] \<or> push_probe a blocks = Inr pushed"
    using "2.prems"(1) by (auto simp: Let_def result_simps split: if_splits geometry_class.splits)
  show ?case
  proof (cases "i \<in> set ps")
    case True
    have "\<exists>(a, g) \<in> set rest. item_size i \<le> size a" using 2 rest True by (fastforce split: if_splits)
    then show ?thesis by auto
  next
    case False
    with "2.prems"(2) items pushed have "item_size i \<le> size a" by (auto dest: push_probe_size)
    then show ?thesis by auto
  qed
qed simp

end
