(* ===== verification/Probe_Judge.thy ===== *)
theory Probe_Judge
  imports Probe_Rule Query_Proofs
begin

text \<open>
  Rule P, second part: the loop \<open>judge\<close> of \<open>spatial_probe.rs\<close> over its stack and its two entry points.  The
  loop ends because every pushed item is a smaller part of the popped one; what it decides is stated over the
  items it visits, and the contract of the rule over the complete walk of the query: no geometric argument
  stays without a class and no probe stands where nothing compares it with a column.
\<close>

section \<open>Every pushed item is smaller\<close>

fun item_node :: "probe_item \<Rightarrow> query_walk_node" where
  "item_node (PiOperation q visible parent) = NOperation q"
| "item_node (PiExpression e clause blocks) = NExpression e"

lemma item_size_node: "item_size i = node_size (item_node i)"
  by (cases i) simp_all

lemma item_child_size: "item_node j \<in> set (node_parts (item_node i)) \<Longrightarrow> item_size j < item_size i"
  by (simp add: item_size_node query_tree.smaller)

lemma operation_step_child:
  "j \<in> set (operation_step q visible parent) \<Longrightarrow> item_node j \<in> set (operation_parts q)"
  by (auto simp: operation_step_def Let_def intro: operation_child_intros join_child_intros)

lemma plain_step_child:
  assumes "plain_step k ev e clause blocks = Inr items" "j \<in> set items"
  shows "item_node j \<in> set (expression_parts e)"
  using assms unfolding plain_step_def Let_def by (cases e; simp) (auto, blast+)

lemma spatial_arguments_child:
  "spatial_arguments e = Some (args, c) \<Longrightarrow> (a, g) \<in> set args \<Longrightarrow> NExpression a \<in> set (expression_parts e)"
  by (cases e) (auto simp: spatial_arguments_def Let_def in_set_enumerate_eq)

lemma spatial_step_size:
  assumes step: "spatial_step k ev e clause blocks args c = Inr (items, u)" and args: "spatial_arguments e = Some (args, c)"
    and j: "j \<in> set items"
  shows "item_size j < size e"
proof -
  obtain cl judging probes items' u' where "judge_arguments k ev judging probes cl blocks args = Inr (items', u')"
    and items: "j \<in> set items' \<or> (\<exists>child. j = PiExpression child ClElsewhere blocks
                  \<and> NExpression child \<in> set (expression_parts e))"
    using step j by (cases e) (auto simp: spatial_step_def Let_def result_simps)
  note judge_arguments_size [OF this(1), of j]
  then consider a g where "(a, g) \<in> set args" "item_size j \<le> size a"
    | child where "j = PiExpression child ClElsewhere blocks" "NExpression child \<in> set (expression_parts e)"
    using items by auto
  then show ?thesis
  proof cases
    case 1
    then show ?thesis using expression_child_size [OF spatial_arguments_child [OF args 1(1)]] by simp
  next
    case 2
    then show ?thesis using expression_child_size [OF 2(2)] by simp
  qed
qed

lemma judge_step_size:
  assumes "judge_step k ev i = Inr (items, u)" "j \<in> set items"
  shows "item_size j < item_size i"
proof (cases i)
  case (PiOperation q visible parent)
  with assms show ?thesis by (intro item_child_size) (auto intro: operation_step_child)
next
  case (PiExpression e clause blocks)
  show ?thesis
  proof (cases "spatial_arguments e")
    case None
    with assms PiExpression show ?thesis
      by (intro item_child_size) (auto simp: result_simps intro: plain_step_child)
  next
    case (Some v)
    with assms PiExpression show ?thesis by (cases v) (auto intro: spatial_step_size)
  qed
qed

section \<open>The loop\<close>

function judge :: "provider_kind \<Rightarrow> probe_evidence \<Rightarrow> probe_item list \<Rightarrow> bool \<Rightarrow> unit result" where
  "judge k ev [] unclassified =
     (if unclassified then Inl (unsupported k PhPrepare GEOMETRY_ARGUMENT_UNCLASSIFIED) else Inr ())"
| "judge k ev (item # stack) unclassified =
     (case judge_step k ev item of
        Inl e \<Rightarrow> Inl e
      | Inr (pushed, u) \<Rightarrow> judge k ev (rev pushed @ stack) (unclassified \<or> u))"
  by pat_completeness auto
termination
  by (relation "inv_image (stack_order item_size) (\<lambda>(k, ev, stack, unclassified). stack)")
     (auto intro: wf_stack_order stack_order_rev_push judge_step_size)

definition judge_probe_positions :: "provider_kind \<Rightarrow> probe_evidence \<Rightarrow> query_operation \<Rightarrow> unit result" where
  "judge_probe_positions k ev q = judge k ev [PiOperation q [] []] False"

definition judge_probe_predicate ::
  "provider_kind \<Rightarrow> probe_evidence \<Rightarrow> query_expression \<Rightarrow> string \<Rightarrow> unit result" where
  "judge_probe_predicate k ev e relation =
     judge k ev
       [PiExpression e ClPredicate
          [\<lparr>bl_scope = scope_single relation, bl_operation = None, bl_common_tables = []\<rparr>]] False"

definition judge_pushes :: "provider_kind \<Rightarrow> probe_evidence \<Rightarrow> probe_item \<Rightarrow> probe_item list" where
  "judge_pushes k ev i = (case judge_step k ev i of Inr (pushed, u) \<Rightarrow> pushed | Inl e \<Rightarrow> [])"

interpretation probe_tree: node_tree "judge_pushes k ev" item_size for k ev
  by unfold_locales (auto simp: judge_pushes_def intro: judge_step_size dest: sym split: sum.splits prod.splits)

text \<open>The items the loop visits, from those of its stack.\<close>

inductive visits :: "provider_kind \<Rightarrow> probe_evidence \<Rightarrow> probe_item set \<Rightarrow> probe_item \<Rightarrow> bool" for k ev roots where
  root: "i \<in> roots \<Longrightarrow> visits k ev roots i"
| pushed: "visits k ev roots i \<Longrightarrow> j \<in> set (judge_pushes k ev i) \<Longrightarrow> visits k ev roots j"

lemma visits_mono: "visits k ev A i \<Longrightarrow> (\<And>r. r \<in> A \<Longrightarrow> visits k ev B r) \<Longrightarrow> visits k ev B i"
  by (induction rule: visits.induct) (auto intro: visits.pushed)

lemma visits_pop:
  "visits k ev (set (i # stack)) j \<longleftrightarrow> j = i \<or> visits k ev (set (judge_pushes k ev i @ stack)) j"
proof
  assume "visits k ev (set (i # stack)) j"
  then show "j = i \<or> visits k ev (set (judge_pushes k ev i @ stack)) j"
    by (induction rule: visits.induct) (auto intro: visits.intros)
next
  have "visits k ev (set (i # stack)) i" by (rule root) simp
  then show "visits k ev (set (i # stack)) j" if "j = i \<or> visits k ev (set (judge_pushes k ev i @ stack)) j"
    using that by (auto intro: root pushed elim!: visits_mono)
qed

definition item_passes :: "provider_kind \<Rightarrow> probe_evidence \<Rightarrow> probe_item \<Rightarrow> bool" where
  "item_passes k ev i \<longleftrightarrow> judge_step k ev i = Inr (judge_pushes k ev i, False)"

lemma judge_unclassified: "judge k ev stack True \<noteq> Inr ()"
proof (induction stack rule: probe_tree.stack_induct [of _ k ev])
  case (pop i stack)
  then show ?case by (auto simp: judge_pushes_def split: sum.splits)
qed simp

lemma judge_iff: "judge k ev stack False = Inr () \<longleftrightarrow> (\<forall>i. visits k ev (set stack) i \<longrightarrow> item_passes k ev i)"
proof (induction stack rule: probe_tree.stack_induct [of _ k ev])
  case empty
  have "\<not> visits k ev {} i" for i
  proof
    show False if "visits k ev {} i" using that by (induction rule: visits.induct) simp_all
  qed
  then show ?case by simp
next
  case (pop i stack)
  show ?case
  proof (cases "item_passes k ev i")
    case True
    then have "judge k ev (i # stack) False = judge k ev (rev (judge_pushes k ev i) @ stack) False"
      by (simp add: item_passes_def)
    then show ?thesis using pop(3) True visits_pop [of k ev i stack] by (simp del: judge.simps)
  next
    case False
    have "judge k ev (i # stack) False \<noteq> Inr ()"
      using False judge_unclassified by (auto simp: item_passes_def judge_pushes_def split: sum.splits prod.splits)
    moreover have "visits k ev (set (i # stack)) i" by (rule root) simp
    ultimately show ?thesis using False by (auto simp del: judge.simps)
  qed
qed

section \<open>What an accepted query guarantees\<close>

text \<open>The terms between a geometric argument and the probe it stands for: every step keeps the frame.\<close>

inductive on_chain :: "query_expression \<Rightarrow> query_expression \<Rightarrow> bool" for a where
  top: "on_chain a a"
| preserved: "on_chain a e \<Longrightarrow> preserved_argument e = Some (i, x) \<Longrightarrow> on_chain a x"

lemma on_chain_top:
  "on_chain a e \<Longrightarrow> a = e \<or> (\<exists>i x. preserved_argument a = Some (i, x) \<and> on_chain x e)"
  by (induction rule: on_chain.induct) (auto intro: on_chain.intros)

text \<open>A term is compared when it stands for a geometric argument of a visited spatial node that compares two
  geometries in a predicate, and every other geometric argument of that node is a probe or a column of a base
  table of the same block.\<close>

definition is_peer :: "block list \<Rightarrow> query_expression \<Rightarrow> bool" where
  "is_peer blocks b \<longleftrightarrow> is_probe_term b \<or> is_column_frame (term_frame (bl_scope (hd blocks)) b)"

definition comparing_node ::
  "provider_kind \<Rightarrow> probe_evidence \<Rightarrow> probe_item set \<Rightarrow> query_expression \<Rightarrow> block list \<Rightarrow> query_expression \<Rightarrow> bool" where
  "comparing_node k ev roots node blocks a \<longleftrightarrow>
     visits k ev roots (PiExpression node ClPredicate blocks)
     \<and> (\<exists>args. spatial_arguments node = Some (args, True) \<and> (a, True) \<in> set args
          \<and> (\<forall>b. (b, True) \<in> set args \<longrightarrow> is_peer blocks b))"

definition compared :: "provider_kind \<Rightarrow> probe_evidence \<Rightarrow> probe_item set \<Rightarrow> query_expression \<Rightarrow> bool" where
  "compared k ev roots e \<longleftrightarrow>
     (\<exists>node blocks a items. comparing_node k ev roots node blocks a \<and> on_chain a e
        \<and> push_probe a blocks = Inr items
        \<and> (\<forall>j \<in> set items. visits k ev roots j))"

text \<open>What \<open>push_probe\<close> leaves of a term on the chain it follows.\<close>

definition chain_pushed :: "block list \<Rightarrow> probe_item list \<Rightarrow> query_expression \<Rightarrow> bool" where
  "chain_pushed blocks items e \<longleftrightarrow>
     (case e of
        SpatialValue inner _ _ \<Rightarrow> PiExpression inner ClPredicate blocks \<in> set items
      | Parameter _ \<Rightarrow> True
      | TypedParameter _ _ \<Rightarrow> True
      | Spatial f args \<Rightarrow>
          (\<exists>p x. preserved_argument e = Some (p, x)
             \<and> (\<forall>(i, c) \<in> set (enumerate 0 args). i \<noteq> p \<longrightarrow> PiExpression c ClPredicate blocks \<in> set items))
      | _ \<Rightarrow> False)"

lemma chain_pushed_mono: "chain_pushed blocks items e \<Longrightarrow> set items \<subseteq> set items2 \<Longrightarrow> chain_pushed blocks items2 e"
  unfolding chain_pushed_def by (cases e; simp; blast)

lemma push_probe_top: "push_probe e blocks = Inr items \<Longrightarrow> chain_pushed blocks items e"
  unfolding chain_pushed_def push_probe.simps [of e]
  by (cases e; simp) (force simp: result_simps split: option.splits)+

lemma push_probe_rest:
  assumes "push_probe a blocks = Inr items" "preserved_argument a = Some (p, x)"
  obtains f args rest where "a = Spatial f args" "push_probe x blocks = Inr rest" "set rest \<subseteq> set items"
  using assms unfolding push_probe.simps [of a]
  by (cases a) (auto simp: result_simps preserved_argument_def split: if_splits)

lemma push_probe_covers:
  assumes "push_probe a blocks = Inr items" "on_chain a e"
  shows "chain_pushed blocks items e"
  using assms
proof (induction a blocks arbitrary: items rule: push_probe.induct)
  case (1 a blocks)
  show ?case
  proof (cases "a = e")
    case True
    with "1.prems"(1) show ?thesis by (auto intro: push_probe_top)
  next
    case False
    then obtain p x where x: "preserved_argument a = Some (p, x)" "on_chain x e"
      using on_chain_top [OF "1.prems"(2)] by auto
    then obtain f args rest where a: "a = Spatial f args" and rest: "push_probe x blocks = Inr rest" "set rest \<subseteq> set items"
      using push_probe_rest [OF "1.prems"(1)] by blast
    have "chain_pushed blocks rest e" by (rule "1.IH" [OF a x(1) refl rest(1) x(2)])
    then show ?thesis using rest(2) by (rule chain_pushed_mono)
  qed
qed

text \<open>What a spatial node that passes leaves of each of its arguments.\<close>

lemma judge_arguments_passes:
  assumes "judge_arguments k ev judging probes clause blocks args = Inr (items, False)" "(a, g) \<in> set args"
  shows "if \<not> g then PiExpression a clause blocks \<in> set items
    else (probes \<longrightarrow> is_peer blocks a)
      \<and> (case classify_geometry a blocks of
           GcProbe \<Rightarrow> judging \<and> (\<exists>pushed. push_probe a blocks = Inr pushed \<and> set pushed \<subseteq> set items)
         | GcColumn \<Rightarrow> True
         | GcProduced \<Rightarrow> PiExpression a clause blocks \<in> set items
         | GcUnclassified \<Rightarrow> False)"
  using assms
proof (induction k ev judging probes clause blocks args arbitrary: items rule: judge_arguments.induct)
  case (2 k ev judging probes clause blocks b h rest)
  obtain pushed ps where rest: "judge_arguments k ev judging probes clause blocks rest = Inr (ps, False)"
    and items: "items = pushed @ ps"
    and b: "if \<not> h then PiExpression b clause blocks \<in> set pushed
      else (probes \<longrightarrow> is_peer blocks b)
        \<and> (case classify_geometry b blocks of
             GcProbe \<Rightarrow> judging \<and> push_probe b blocks = Inr pushed
           | GcColumn \<Rightarrow> True
           | GcProduced \<Rightarrow> PiExpression b clause blocks \<in> set pushed
           | GcUnclassified \<Rightarrow> False)"
    using "2.prems"(1)
    by (auto simp: Let_def is_peer_def result_simps split: if_splits geometry_class.splits)
  show ?case
  proof (cases "(a, g) = (b, h)")
    case True
    with b items show ?thesis by (auto split: geometry_class.splits)
  next
    case False
    with "2.prems"(2) have "(a, g) \<in> set rest" by auto
    with 2 rest have "if \<not> g then PiExpression a clause blocks \<in> set ps
      else (probes \<longrightarrow> is_peer blocks a)
        \<and> (case classify_geometry a blocks of
             GcProbe \<Rightarrow> judging \<and> (\<exists>pushed. push_probe a blocks = Inr pushed \<and> set pushed \<subseteq> set ps)
           | GcColumn \<Rightarrow> True
           | GcProduced \<Rightarrow> PiExpression a clause blocks \<in> set ps
           | GcUnclassified \<Rightarrow> False)" by (auto split: if_splits)
    then show ?thesis using items by (auto split: geometry_class.splits if_splits)
  qed
qed simp

text \<open>Nothing of the walk is lost: every child of a covered node is covered.\<close>

definition covered :: "provider_kind \<Rightarrow> probe_evidence \<Rightarrow> probe_item set \<Rightarrow> query_walk_node \<Rightarrow> bool" where
  "covered k ev roots n \<longleftrightarrow>
     (\<exists>i. visits k ev roots i \<and> item_node i = n)
     \<or> (case n of NOperation q \<Rightarrow> False | NSource v \<Rightarrow> True
          | NExpression e \<Rightarrow> compared k ev roots e \<or> (\<exists>c. e = Column c))"

lemma visits_covered: "visits k ev roots i \<Longrightarrow> covered k ev roots (item_node i)"
  by (auto simp: covered_def)

lemma operation_step_nodes:
  "item_node ` set (operation_step q visible parent) =
     (\<lambda>c. NOperation (cte_query c)) ` set (common_table_expressions q)
     \<union> {NOperation (ds_query d) | d. op_derived_source q = Some d}
     \<union> {NOperation (ds_query d) | j d. j \<in> set (op_joins q) \<and> qj_derived_source j = Some d}
     \<union> (\<lambda>s. NOperation (so_query s)) ` set (op_set_operations q)
     \<union> NExpression ` (qp_expression ` set (op_projection q) \<union> set (op_distinct_on q) \<union> set (op_group_by q)
          \<union> qo_expression ` set (op_order_by q))
     \<union> NExpression ` ({e. op_filter q = Some e} \<union> {e. \<exists>j \<in> set (op_joins q). qj_on j = Some e} \<union> {e. op_having q = Some e})"
  unfolding operation_step_def Let_def set_append image_Un set_map image_image item_node.simps
  by (simp add: Un_assoc image_UN image_image) (auto simp: set_eq_iff image_iff, metis list_of_option_set)

lemma operation_covers:
  assumes "n \<in> set (operation_parts q)"
  shows "(\<exists>v. n = NSource v) \<or> n \<in> item_node ` set (operation_step q visible parent)"
proof -
  from assms consider
      v where "n = NSource v"
    | d where "op_derived_source q = Some d" "n = NOperation (ds_query d)"
    | c where "c \<in> set (common_table_expressions q)" "n = NOperation (cte_query c)"
    | j d where "j \<in> set (op_joins q)" "qj_derived_source j = Some d" "n = NOperation (ds_query d)"
    | j e where "j \<in> set (op_joins q)" "qj_on j = Some e" "n = NExpression e"
    | s where "s \<in> set (op_set_operations q)" "n = NOperation (so_query s)"
    | e where "n = NExpression e" "e \<in> qp_expression ` set (op_projection q) \<union> set (op_distinct_on q) \<union> set (op_group_by q)
          \<union> qo_expression ` set (op_order_by q) \<union> {e. op_filter q = Some e} \<union> {e. op_having q = Some e}"
    by (auto simp: operation_parts_def join_parts_def)
  then show ?thesis unfolding operation_step_nodes by cases auto
qed

lemma plain_covers:
  assumes "plain_step k ev e clause blocks = Inr items" "n \<in> set (expression_parts e)"
  shows "\<exists>j \<in> set items. item_node j = n"
  using assms unfolding plain_step_def Let_def by (cases e; simp) force+

lemma preserved_single: "preserved_argument (Spatial f args) = Some (p, x) \<Longrightarrow> geometric_arguments f args = [(p, x)]"
  by (auto simp: preserved_argument_def split: if_splits list.splits)

lemma preserved_position: "preserved_argument (Spatial f args) = Some (p, x) \<Longrightarrow> args ! p = x"
proof -
  assume "preserved_argument (Spatial f args) = Some (p, x)"
  then have "(p, x) \<in> set (geometric_arguments f args)" by (simp add: preserved_single)
  then show ?thesis by (simp add: geometric_arguments_def in_set_enumerate_eq)
qed

lemma comparing_covers:
  assumes "comparing_node k ev roots node blocks a" "push_probe a blocks = Inr items"
    and "\<And>j. j \<in> set items \<Longrightarrow> visits k ev roots j" and "on_chain a e" and n: "n \<in> set (expression_parts e)"
  shows "covered k ev roots n"
proof -
  have items: "covered k ev roots (NExpression c)" if "PiExpression c ClPredicate blocks \<in> set items" for c
    using visits_covered [OF assms(3) [OF that]] by simp
  have "chain_pushed blocks items e" by (rule push_probe_covers [OF assms(2,4)])
  then show ?thesis
  proof (cases e)
    case (Spatial f args)
    with \<open>chain_pushed blocks items e\<close> obtain p x where x: "preserved_argument e = Some (p, x)"
      and others: "\<forall>(i, c) \<in> set (enumerate 0 args). i \<noteq> p \<longrightarrow> PiExpression c ClPredicate blocks \<in> set items"
      by (auto simp: chain_pushed_def)
    from n Spatial obtain i where i: "i < length args" "n = NExpression (args ! i)"
      by (auto simp: in_set_conv_nth)
    show ?thesis
    proof (cases "i = p")
      case True
      with x Spatial have "args ! i = x" by (simp add: preserved_position)
      have "compared k ev roots x"
        unfolding compared_def using assms(1,2,3) on_chain.preserved [OF assms(4) x] by blast
      with \<open>args ! i = x\<close> show ?thesis by (simp add: covered_def i(2))
    next
      case False
      then show ?thesis unfolding i(2) using others i(1) by (intro items) (auto simp: in_set_enumerate_eq)
    qed
  qed (use n items in \<open>auto simp: chain_pushed_def\<close>)
qed

lemma spatial_node_passes:
  assumes visit: "visits k ev roots (PiExpression e clause blocks)" and passes: "item_passes k ev (PiExpression e clause blocks)"
    and args: "spatial_arguments e = Some (args, c)" and a: "(a, g) \<in> set args"
  shows "covered k ev roots (NExpression a)"
    and "g \<Longrightarrow> is_bind a \<or> is_spatial_value a \<Longrightarrow> compared k ev roots a"
    and "g \<Longrightarrow> is_bind a \<or> is_spatial_value a \<or> (\<exists>c. a = Column c \<and> is_relation_column c blocks) \<or> (\<exists>f as. a = Spatial f as \<and> returns_geometry f)"
proof -
  define cl where "cl = (case e of SpatialWindow _ _ _ _ _ \<Rightarrow> ClElsewhere | _ \<Rightarrow> clause)"
  define judging where "judging \<longleftrightarrow> c \<and> cl = ClPredicate"
  define probes where "probes \<longleftrightarrow> judging \<and> list_ex (\<lambda>(a, geometric). geometric \<and> is_probe_term a) args"
  have "\<exists>items rest. judge_arguments k ev judging probes cl blocks args = Inr (items, False)
          \<and> judge_pushes k ev (PiExpression e clause blocks) = items @ rest"
    using passes args unfolding probes_def judging_def cl_def
    by (auto simp: item_passes_def spatial_step_def Let_def result_simps, metis)
  then obtain items rest where items: "judge_arguments k ev judging probes cl blocks args = Inr (items, False)"
    and pushes: "judge_pushes k ev (PiExpression e clause blocks) = items @ rest" by blast
  have visited: "visits k ev roots j" if "j \<in> set items" for j
    using visits.pushed [OF visit] that by (simp add: pushes)
  have node: "covered k ev roots (NExpression a)" if "PiExpression a cl blocks \<in> set items"
    using visits_covered [OF visited [OF that]] by simp
  have each: "if \<not> g then PiExpression a cl blocks \<in> set items
    else (probes \<longrightarrow> is_peer blocks a)
      \<and> (case classify_geometry a blocks of
           GcProbe \<Rightarrow> judging \<and> (\<exists>pushed. push_probe a blocks = Inr pushed \<and> set pushed \<subseteq> set items)
         | GcColumn \<Rightarrow> True | GcProduced \<Rightarrow> PiExpression a cl blocks \<in> set items | GcUnclassified \<Rightarrow> False)"
    if "(a, g) \<in> set args" for a g
    by (rule judge_arguments_passes [OF items that])
  have probe: "compared k ev roots a" if g: g and "is_probe_term a"
  proof -
    have sort: "classify_geometry a blocks = GcProbe" using that by (simp add: classify_geometry_def)
    then obtain pushed where pushed: "push_probe a blocks = Inr pushed" "set pushed \<subseteq> set items" and judging
      using each [OF a] g by auto
    then have probes and e: "clause = ClPredicate" c
      using a that by (auto simp: probes_def judging_def cl_def list_ex_iff split: query_expression.splits)
    then have "is_peer blocks b" if "(b, True) \<in> set args" for b using each [OF that] by simp
    then have "comparing_node k ev roots e blocks a"
      using visit args a e g by (auto simp: comparing_node_def)
    then show ?thesis unfolding compared_def using on_chain.top pushed visited by blast
  qed
  show "covered k ev roots (NExpression a)"
    using each [OF a] probe node
    by (auto simp: covered_def classify_geometry_def split: if_splits query_expression.splits)
  show "compared k ev roots a" if g "is_bind a \<or> is_spatial_value a"
    using probe that by (simp add: is_probe_term.simps [of a])
  show "is_bind a \<or> is_spatial_value a \<or> (\<exists>c. a = Column c \<and> is_relation_column c blocks) \<or> (\<exists>f as. a = Spatial f as \<and> returns_geometry f)" if g
    using each [OF a] that
    by (auto simp: classify_geometry_def is_probe_term.simps [of a] preserved_argument_def
          split: if_splits query_expression.splits)
qed

lemma marked_args: "fst ` set (map (\<lambda>(i, a). (a, takes_geometry_at f i)) (enumerate n as)) = set as"
  by (induction as arbitrary: n) simp_all

lemma spatial_arguments_cover:
  assumes args: "spatial_arguments e = Some (args, c)" and m: "m \<in> set (expression_parts e)"
  shows "(\<exists>a g. (a, g) \<in> set args \<and> m = NExpression a)
    \<or> (\<exists>f as pb ob fr x. e = SpatialWindow f as pb ob fr \<and> m = NExpression x \<and> x \<in> set (pb @ map qo_expression ob))"
proof -
  have arg: "\<exists>a g. (a, g) \<in> set args \<and> NExpression b = NExpression a" if "b \<in> fst ` set args" for b
    using that by auto
  show ?thesis
  proof (cases e)
    case (SpatialWindow f as pb ob fr)
    with args have "fst ` set args = set as"
      using marked_args [of f 0 as] by (auto simp: spatial_arguments_def Let_def simp del: set_map)
    with SpatialWindow m arg show ?thesis by auto
  next
    case (Spatial f as)
    with args have "fst ` set args = set as"
      using marked_args [of f 0 as] by (auto simp: spatial_arguments_def Let_def simp del: set_map)
    with Spatial m arg show ?thesis by auto
  qed (use args m in \<open>auto simp: spatial_arguments_def\<close>)
qed

lemma covered_child:
  assumes passes: "\<And>i. visits k ev roots i \<Longrightarrow> item_passes k ev i"
    and n: "covered k ev roots n" and m: "m \<in> set (node_parts n)"
  shows "covered k ev roots m"
proof -
  consider i where "visits k ev roots i" "item_node i = n"
    | e where "n = NExpression e" "compared k ev roots e" | c where "n = NExpression (Column c)" | v where "n = NSource v"
    using n by (auto simp: covered_def split: query_walk_node.splits)
  then show ?thesis
  proof cases
    case (1 i)
    have pushed: "covered k ev roots (item_node j)" if "j \<in> set (judge_pushes k ev i)" for j
      by (rule visits_covered [OF visits.pushed [OF 1(1) that]])
    show ?thesis
    proof (cases i)
      case (PiOperation q visible parent)
      then have "judge_pushes k ev i = operation_step q visible parent" by (simp add: judge_pushes_def)
      moreover from m 1(2) PiOperation
      have "(\<exists>v. m = NSource v) \<or> m \<in> item_node ` set (operation_step q visible parent)"
        by (intro operation_covers) auto
      ultimately show ?thesis using pushed by (auto simp: covered_def)
    next
      case (PiExpression e clause blocks)
      have m: "m \<in> set (expression_parts e)" using m 1(2) PiExpression by auto
      show ?thesis
      proof (cases "spatial_arguments e")
        case None
        then obtain items where "plain_step k ev e clause blocks = Inr items" "items = judge_pushes k ev i"
          using passes [OF 1(1)] by (auto simp: item_passes_def PiExpression result_simps)
        then show ?thesis using plain_covers [OF _ m] pushed by metis
      next
        case (Some v)
        then obtain args c where args: "spatial_arguments e = Some (args, c)" by (cases v) auto
        have arg: "covered k ev roots (NExpression a)" if "(a, g) \<in> set args" for a g
          using spatial_node_passes(1) 1(1) passes [OF 1(1)] args that unfolding PiExpression by blast
        show ?thesis
        proof (cases "\<exists>a g. (a, g) \<in> set args \<and> m = NExpression a")
          case True
          then show ?thesis using arg by auto
        next
          case False
          then obtain f as pb ob fr x where e: "e = SpatialWindow f as pb ob fr" and x: "m = NExpression x"
            "x \<in> set (pb @ map qo_expression ob)"
            using spatial_arguments_cover [OF args m] by blast
          then have "PiExpression x ClElsewhere blocks \<in> set (judge_pushes k ev i)"
            using passes [OF 1(1)] args
            by (auto simp: item_passes_def PiExpression spatial_step_def Let_def result_simps dest!: sym [where s = "_ @ _"])
          then show ?thesis using pushed x(1) by fastforce
        qed
      qed
    qed
  next
    case (2 e)
    then show ?thesis using comparing_covers m by (fastforce simp: compared_def)
  qed (use m in \<open>auto\<close>)
qed

lemma reached_covered:
  assumes "reaches everything n m" "\<And>i. visits k ev roots i \<Longrightarrow> item_passes k ev i" "covered k ev roots n"
  shows "covered k ev roots m"
  using assms by (induction rule: reaches.induct) (auto intro: covered_child)

text \<open>A column that the rule, visiting the node \<open>e\<close>, follows to base tables.\<close>

definition relation_term ::
  "provider_kind \<Rightarrow> probe_evidence \<Rightarrow> probe_item set \<Rightarrow> query_expression \<Rightarrow> query_expression \<Rightarrow> bool" where
  "relation_term k ev roots e a \<longleftrightarrow>
     (\<exists>c clause blocks. a = Column c \<and> visits k ev roots (PiExpression e clause blocks) \<and> is_relation_column c blocks)"

lemma accepted_probe:
  assumes judge: "judge k ev stack False = Inr ()" and i: "i \<in> set stack"
    and reached: "reaches everything (item_node i) (NExpression e)"
  shows "is_spatial_value e \<Longrightarrow> compared k ev (set stack) e"
    and "spatial_arguments e = Some (args, c) \<Longrightarrow> (a, True) \<in> set args \<Longrightarrow>
      relation_term k ev (set stack) e a \<or> (\<exists>f as. a = Spatial f as \<and> returns_geometry f)
      \<or> (is_bind a \<or> is_spatial_value a) \<and> compared k ev (set stack) a"
proof -
  note passes = judge [unfolded judge_iff, rule_format]
  have "covered k ev (set stack) (NExpression e)"
    by (rule reached_covered [OF reached passes visits_covered [OF root [OF i]]])
  then consider clause blocks where "visits k ev (set stack) (PiExpression e clause blocks)"
    | "compared k ev (set stack) e" | c where "e = Column c"
    by (auto simp: covered_def elim!: item_node.elims)
  note covered = this
  show "compared k ev (set stack) e" if "is_spatial_value e"
    using covered
  proof cases
    case (1 clause blocks)
    with passes [OF 1] that show ?thesis
      by (auto simp: item_passes_def is_spatial_value_def spatial_arguments_def plain_step_def Let_def
            split: query_expression.splits)
  qed (use that in \<open>auto simp: is_spatial_value_def\<close>)
  show "relation_term k ev (set stack) e a \<or> (\<exists>f as. a = Spatial f as \<and> returns_geometry f)
      \<or> (is_bind a \<or> is_spatial_value a) \<and> compared k ev (set stack) a"
    if args: "spatial_arguments e = Some (args, c)" and a: "(a, True) \<in> set args"
    using covered
  proof cases
    case (1 clause blocks)
    from spatial_node_passes(2,3) [OF 1 passes [OF 1] args a] 1 show ?thesis by (auto simp: relation_term_def)
  next
    case 2
    then obtain node blocks b items where b: "comparing_node k ev (set stack) node blocks b" "on_chain b e"
      "push_probe b blocks = Inr items" "\<forall>j \<in> set items. visits k ev (set stack) j" by (auto simp: compared_def)
    have "chain_pushed blocks items e" by (rule push_probe_covers [OF b(3,2)])
    then obtain f as p x where e: "e = Spatial f as" and x: "preserved_argument e = Some (p, x)"
      using args by (cases e) (auto simp: chain_pushed_def spatial_arguments_def)
    have chain: "on_chain b x" by (rule on_chain.preserved [OF b(2) x])
    have "a = x"
    proof -
      obtain j where "(j, a) \<in> set (geometric_arguments f as)"
        using args a by (auto simp: e spatial_arguments_def Let_def geometric_arguments_def)
      then show ?thesis using preserved_single [of f as p x] x by (simp add: e)
    qed
    moreover have "compared k ev (set stack) x" using b chain by (auto simp: compared_def)
    moreover have "chain_pushed blocks items x" by (rule push_probe_covers [OF b(3) chain])
    ultimately show ?thesis
      by (cases x) (auto simp: chain_pushed_def is_bind_def is_spatial_value_def preserved_argument_def split: if_splits)
  next
    case (3 c)
    with args show ?thesis by (simp add: spatial_arguments_def)
  qed
qed

text \<open>C2: in a query that rule P accepts, every spatial value the complete walk reaches is compared: along
  functions that keep its frame it is a geometric argument of a spatial node that the rule visits in a predicate
  and that compares two geometries, and every other geometric argument of that node is a probe or a column of a
  base table of the same block.  And every geometric argument of every spatial node the walk reaches is a column
  that the rule follows to base tables, a spatial function that makes a geometry, or a probe that is compared in that way: no bind is hidden in another
  expression.\<close>

theorem accepted_probes_are_compared:
  assumes "judge_probe_positions k ev q = Inr ()" "reaches everything (NOperation q) (NExpression e)"
  shows "(is_spatial_value e \<longrightarrow> compared k ev {PiOperation q [] []} e)
    \<and> (\<forall>args c a. spatial_arguments e = Some (args, c) \<longrightarrow> (a, True) \<in> set args \<longrightarrow>
         relation_term k ev {PiOperation q [] []} e a \<or> (\<exists>f as. a = Spatial f as \<and> returns_geometry f)
         \<or> (is_bind a \<or> is_spatial_value a) \<and> compared k ev {PiOperation q [] []} a)"
  using accepted_probe [of k ev "[PiOperation q [] []]" "PiOperation q [] []" e] assms
  by (simp add: judge_probe_positions_def del: judge.simps)

text \<open>\<open>SELECT a FROM public.t WHERE ST_Intersects(g, ST_Centroid(:p))\<close>, with the probe declared as a value of
  SRID 4326.\<close>

definition demo_probe :: query_expression where
  "demo_probe = SpatialValue (Parameter ''p'') 4326 Geometry"

definition demo_node :: query_expression where
  "demo_node = Spatial Intersects [Column \<lparr>cr_relation = None, cr_field = ''g''\<rparr>, Spatial Centroid [demo_probe]]"

definition demo_probe_query :: query_operation where
  "demo_probe_query = QueryOperation []
     (Some \<lparr>qs_object = \<lparr>or_catalog = None, or_schema = Some ''public'', or_object = ''t''\<rparr>, qs_alias = None\<rparr>) None
     [QueryProjection (Column \<lparr>cr_relation = None, cr_field = ''a''\<rparr>) None] []
     (Some demo_node) [] None [] False [] [] None None None []"

lemma demo_probe_accepted: "judge_probe_positions Postgres ev demo_probe_query = Inr ()"
  by (simp add: judge_probe_positions_def demo_probe_query_def demo_node_def demo_probe_def operation_step_def
        operation_sources_def operation_derived_def list_of_option_def scope_of_def source_name_def
        spatial_arguments_def spatial_step_def plain_step_def Let_def is_bind_def is_spatial_value_def
        is_probe_term.simps term_frame.simps push_probe.simps preserved_argument_def geometric_arguments_def
        classify_geometry_def is_relation_column_def column_block_def base_column_def is_column_frame_def
        takes_geometry_at_def returns_geometry_def crs_rule_def)

theorem accepted_probes_are_compared_witness:
  "compared Postgres EvCatalog {PiOperation demo_probe_query [] []} demo_probe"
proof -
  have "reaches everything (NOperation demo_probe_query) (NExpression demo_probe)"
    by (rule reaches.below [where k = "NExpression demo_node"],
        simp_all add: everything_def demo_probe_query_def operation_parts_def list_of_option_def,
        rule reaches.below [where k = "NExpression (Spatial Centroid [demo_probe])"],
        simp_all add: everything_def demo_node_def,
        rule reaches.below [OF _ _ reaches.here], simp_all add: everything_def)
  from accepted_probes_are_compared [OF demo_probe_accepted this] show ?thesis
    by (simp add: is_spatial_value_def demo_probe_def)
qed

end
