(* ===== verification/Session_Context.thy ===== *)
theory Session_Context
  imports Error_Model "HOL-Library.Char_ord" "HOL-Library.List_Lexorder"
begin

text \<open>
  \<open>plenora-database-core/src/session_context.rs\<close>: the context a request hands to the session of a
  transaction, a map of keys to classified values.  A \<open>BTreeMap\<close> is the list of its entries in key order.  A
  context is built by insertions, which check the key and the value, or read by serde, which checks neither
  (\<open>#[serde(transparent)]\<close> on the derived \<open>Deserialize\<close>); \<open>plenora-db-mysql/src/transaction.rs\<close> checks the keys
  again for that reason.  The lemmas show what is well formed in every context, and that its \<open>Debug\<close> text tells
  nothing about a value that is not public.
\<close>

section \<open>Data\<close>

datatype session_classification = ScPublic | ScInternal | ScSensitive

definition is_public :: "session_classification \<Rightarrow> bool" where
  "is_public c \<longleftrightarrow> c = ScPublic"

datatype session_value = SvText string | SvInteger "64 word" | SvBoolean bool

definition show_i64 :: "64 word \<Rightarrow> string" where
  "show_i64 i = (if sint i < 0 then CHR ''-'' # show_nat (nat (- sint i)) else show_nat (nat (sint i)))"

fun as_provider_string :: "session_value \<Rightarrow> string" where
  "as_provider_string (SvText v) = v"
| "as_provider_string (SvInteger v) = show_i64 v"
| "as_provider_string (SvBoolean v) = (if v then ''true'' else ''false'')"

record session_entry =
  se_value :: session_value
  se_classification :: session_classification

definition entry_public :: "session_value \<Rightarrow> session_entry" where
  "entry_public v = \<lparr>se_value = v, se_classification = ScPublic\<rparr>"

definition entry_internal :: "session_value \<Rightarrow> session_entry" where
  "entry_internal v = \<lparr>se_value = v, se_classification = ScInternal\<rparr>"

definition entry_sensitive :: "session_value \<Rightarrow> session_entry" where
  "entry_sensitive v = \<lparr>se_value = v, se_classification = ScSensitive\<rparr>"

type_synonym session_context = "(string \<times> session_entry) list"

section \<open>The checks\<close>

definition EMPTY_SEGMENT :: string where
  "EMPTY_SEGMENT = ''namespace e nome locale del context di sessione non possono essere vuoti''"

fun segment_tail :: "string \<Rightarrow> unit result" where
  "segment_tail [] = Inr ()"
| "segment_tail (c # cs) =
     (if \<not> (is_ascii_lowercase c \<or> is_ascii_digit c \<or> c = CHR ''_'')
      then Inl (invalid_plan (''segmento del context pu'' @ [CHR 0xC3, CHR 0xB2] @ '' contenere solo [a-z0-9_]''))
      else segment_tail cs)"

definition validate_identifier_segment :: "string \<Rightarrow> unit result" where
  "validate_identifier_segment segment =
     (case segment of
        [] \<Rightarrow> Inl (invalid_plan EMPTY_SEGMENT)
      | c # cs \<Rightarrow>
          if \<not> (is_ascii_lowercase c \<or> c = CHR ''_'')
          then Inl (invalid_plan ''segmento del context deve iniziare con lettera minuscola o underscore'')
          else segment_tail cs)"

text \<open>\<open>split_once('.')\<close>: the text before the first dot and the text after it.\<close>

definition split_dot :: "string \<Rightarrow> (string \<times> string) option" where
  "split_dot name =
     (case dropWhile (\<lambda>c. c \<noteq> CHR ''.'') name of
        [] \<Rightarrow> None
      | _ # rest \<Rightarrow> Some (takeWhile (\<lambda>c. c \<noteq> CHR ''.'') name, rest))"

definition validate_context_key :: "string \<Rightarrow> unit result" where
  "validate_context_key name =
     (if name = [] then Inl (invalid_plan (''il nome del context di sessione non pu'' @ [CHR 0xC3, CHR 0xB2] @ '' essere vuoto''))
      else if length name > 63 then Inl (invalid_plan ''il nome del context di sessione eccede 63 caratteri'')
      else
        let dot_count = length (filter (\<lambda>c. c = CHR ''.'') name)
        in case (if dot_count = 1 then split_dot name else None) of
             None \<Rightarrow> Inl (invalid_plan ''il nome del context di sessione richiede formato `namespace.name`'')
           | Some (namespace, local) \<Rightarrow>
               if namespace = [] \<or> local = [] then Inl (invalid_plan EMPTY_SEGMENT)
               else and_then (validate_identifier_segment namespace) (\<lambda>_. validate_identifier_segment local))"

definition validate_context_value :: "session_value \<Rightarrow> unit result" where
  "validate_context_value value =
     (case value of
        SvText txt \<Rightarrow>
          if length txt > 8192 then Inl (invalid_plan ''valore di context di sessione eccede 8192 byte'')
          else if list_ex (\<lambda>c. c \<in> {CHR 0x00, CHR 0x0D, CHR 0x0A}) txt
          then Inl (invalid_plan ''valore di context di sessione contiene caratteri di controllo'')
          else Inr ()
      | _ \<Rightarrow> Inr ())"

section \<open>The context\<close>

fun btree_insert :: "string \<Rightarrow> session_entry \<Rightarrow> session_context \<Rightarrow> session_context" where
  "btree_insert k v [] = [(k, v)]"
| "btree_insert k v ((k', v') # rest) =
     (if k < k' then (k, v) # (k', v') # rest
      else if k = k' then (k, v) # rest
      else (k', v') # btree_insert k v rest)"

definition session_context_new :: session_context where "session_context_new = []"

definition context_insert :: "string \<Rightarrow> session_entry \<Rightarrow> session_context \<Rightarrow> session_context result" where
  "context_insert name entry ctx =
     and_then (validate_context_key name) (\<lambda>_.
     and_then (validate_context_value (se_value entry)) (\<lambda>_.
     Inr (btree_insert name entry ctx)))"

text \<open>
  What the derived \<open>Deserialize\<close> makes of the entries of a JSON object, in the order of the text: the map is filled
  entry by entry, with no check of the crate; a repeated key keeps its last value.
\<close>

definition context_deserialized :: "(string \<times> session_entry) list \<Rightarrow> session_context" where
  "context_deserialized entries = fold (\<lambda>(name, entry) ctx. btree_insert name entry ctx) entries session_context_new"

definition context_get :: "session_context \<Rightarrow> string \<Rightarrow> session_entry option" where
  "context_get ctx name = map_of ctx name"

definition context_is_empty :: "session_context \<Rightarrow> bool" where
  "context_is_empty ctx \<longleftrightarrow> ctx = []"

definition context_len :: "session_context \<Rightarrow> nat" where
  "context_len ctx = length ctx"

section \<open>The check of MySQL\<close>

definition MAX_USER_VARIABLE_NAME :: nat where "MAX_USER_VARIABLE_NAME = 64"

definition CONTEXT_VARIABLE_PREFIX :: string where "CONTEXT_VARIABLE_PREFIX = ''plenora_ctx_''"

definition MAX_CONTEXT_KEY :: nat where
  "MAX_CONTEXT_KEY = MAX_USER_VARIABLE_NAME - length CONTEXT_VARIABLE_PREFIX"

definition is_safe_context_name :: "string \<Rightarrow> bool" where
  "is_safe_context_name name \<longleftrightarrow> is_ok (validate_context_key name)"

fun validate_context_keys :: "session_context \<Rightarrow> unit result" where
  "validate_context_keys [] = Inr ()"
| "validate_context_keys ((name, _) # rest) =
     (if \<not> is_safe_context_name name
      then Inl (invalid_plan (''session context: nome non sicuro '' @ [CHR 0x27] @ name @ [CHR 0x27]))
      else if length name > MAX_CONTEXT_KEY
      then Inl (invalid_plan (''session context: chiave '' @ [CHR 0x27] @ name @ [CHR 0x27] @ '' di ''
             @ show_nat (length name) @ '' caratteri; con il prefisso '' @ [CHR 0x27] @ CONTEXT_VARIABLE_PREFIX
             @ [CHR 0x27] @ '' la variabile utente supererebbe i '' @ show_nat MAX_USER_VARIABLE_NAME
             @ '' caratteri ammessi, quindi al massimo '' @ show_nat MAX_CONTEXT_KEY))
      else validate_context_keys rest)"

section \<open>The debug text\<close>

text \<open>The \<open>Debug\<close> form of a \<open>str\<close> depends on the Unicode tables of the standard library: \<open>quoted\<close>.\<close>

fun classification_debug :: "session_classification \<Rightarrow> string" where
  "classification_debug ScPublic = ''Public''"
| "classification_debug ScInternal = ''Internal''"
| "classification_debug ScSensitive = ''Sensitive''"

definition session_value_debug :: "session_value \<Rightarrow> string" where
  "session_value_debug v = ''SessionValue(_)''"

definition session_entry_debug :: "(string \<Rightarrow> string) \<Rightarrow> session_entry \<Rightarrow> string" where
  "session_entry_debug quoted e =
     ''SessionEntry { value: ''
     @ quoted (if is_public (se_classification e) then as_provider_string (se_value e) else ''[REDACTED]'')
     @ '', classification: '' @ classification_debug (se_classification e) @ '' }''"

fun debug_entries :: "(string \<Rightarrow> string) \<Rightarrow> session_context \<Rightarrow> string" where
  "debug_entries quoted [] = []"
| "debug_entries quoted [(k, e)] = quoted k @ '': '' @ session_entry_debug quoted e"
| "debug_entries quoted ((k, e) # next # rest) =
     quoted k @ '': '' @ session_entry_debug quoted e @ '', '' @ debug_entries quoted (next # rest)"

definition session_context_debug :: "(string \<Rightarrow> string) \<Rightarrow> session_context \<Rightarrow> string" where
  "session_context_debug quoted ctx = ''{'' @ debug_entries quoted ctx @ ''}''"

section \<open>What the checks accept\<close>

definition segment_ok :: "string \<Rightarrow> bool" where
  "segment_ok s \<longleftrightarrow> s \<noteq> [] \<and> (is_ascii_lowercase (hd s) \<or> hd s = CHR ''_'')
     \<and> list_all (\<lambda>c. is_ascii_lowercase c \<or> is_ascii_digit c \<or> c = CHR ''_'') s"

definition context_key_ok :: "string \<Rightarrow> bool" where
  "context_key_ok name \<longleftrightarrow>
     length name \<le> 63 \<and> (\<exists>namespace local. name = namespace @ CHR ''.'' # local \<and> segment_ok namespace \<and> segment_ok local)"

definition context_value_ok :: "session_value \<Rightarrow> bool" where
  "context_value_ok v \<longleftrightarrow>
     (\<forall>t. v = SvText t \<longrightarrow> length t \<le> 8192 \<and> CHR 0x00 \<notin> set t \<and> CHR 0x0D \<notin> set t \<and> CHR 0x0A \<notin> set t)"

lemma segment_tail_iff:
  "segment_tail cs = Inr () \<longleftrightarrow> list_all (\<lambda>c. is_ascii_lowercase c \<or> is_ascii_digit c \<or> c = CHR ''_'') cs"
  by (induction cs) simp_all

lemma segment_iff: "validate_identifier_segment s = Inr () \<longleftrightarrow> segment_ok s"
  by (auto simp: validate_identifier_segment_def segment_ok_def segment_tail_iff split: list.splits)

lemma no_dot: "segment_ok s \<Longrightarrow> CHR ''.'' \<notin> set s"
  by (auto simp: segment_ok_def list_all_iff is_ascii_lowercase_def is_ascii_digit_def)

lemma split_dot_append: "CHR ''.'' \<notin> set a \<Longrightarrow> split_dot (a @ CHR ''.'' # b) = Some (a, b)"
proof -
  assume "CHR ''.'' \<notin> set a"
  then have "\<forall>x \<in> set a. x \<noteq> CHR ''.''" by auto
  then show ?thesis by (simp add: split_dot_def dropWhile_append2 takeWhile_append2)
qed

lemma split_dot_Some: "split_dot name = Some (a, b) \<Longrightarrow> name = a @ CHR ''.'' # b"
  by (auto simp: split_dot_def dropWhile_eq_Cons_conv split: list.splits)

lemma context_key_iff: "validate_context_key name = Inr () \<longleftrightarrow> context_key_ok name"
proof
  assume "validate_context_key name = Inr ()"
  then obtain namespace local where "split_dot name = Some (namespace, local)" "length name \<le> 63"
    "segment_ok namespace" "segment_ok local"
    by (auto simp: validate_context_key_def Let_def segment_iff result_simps split: if_splits option.splits)
  then show "context_key_ok name" by (auto simp: context_key_ok_def dest: split_dot_Some)
next
  assume "context_key_ok name"
  then obtain namespace local where name: "name = namespace @ CHR ''.'' # local"
    and ok: "segment_ok namespace" "segment_ok local" "length name \<le> 63" by (auto simp: context_key_ok_def)
  have one: "filter (\<lambda>c. c = CHR ''.'') namespace = []" "filter (\<lambda>c. c = CHR ''.'') local = []"
    using no_dot [OF ok(1)] no_dot [OF ok(2)] by (auto simp: filter_empty_conv)
  have "namespace \<noteq> []" "local \<noteq> []" using ok(1,2) by (simp_all add: segment_ok_def)
  moreover have "split_dot name = Some (namespace, local)" unfolding name by (rule split_dot_append [OF no_dot [OF ok(1)]])
  moreover have "length (filter (\<lambda>c. c = CHR ''.'') name) = 1" by (simp add: name one)
  ultimately show "validate_context_key name = Inr ()"
    using ok(1,2) [folded segment_iff] ok(3) by (simp add: validate_context_key_def Let_def) (simp add: name)
qed

lemma context_value_iff: "validate_context_value v = Inr () \<longleftrightarrow> context_value_ok v"
  by (cases v) (auto simp: validate_context_value_def context_value_ok_def list_ex_iff)

section \<open>Contexts are well formed\<close>

text \<open>
  A context starts empty or as serde read it, and changes by successful insertions; \<open>received\<close> are the entries serde
  was given.
\<close>

inductive built_context :: "(string \<times> session_entry) list \<Rightarrow> session_context \<Rightarrow> bool" where
  empty: "built_context [] session_context_new"
| received: "built_context received (context_deserialized received)"
| insert: "built_context received ctx \<Longrightarrow> context_insert name entry ctx = Inr ctx' \<Longrightarrow> built_context received ctx'"

definition entry_ok :: "string \<times> session_entry \<Rightarrow> bool" where
  "entry_ok x \<longleftrightarrow> context_key_ok (fst x) \<and> context_value_ok (se_value (snd x))"

definition context_wf :: "(string \<times> session_entry) list \<Rightarrow> session_context \<Rightarrow> bool" where
  "context_wf received ctx \<longleftrightarrow>
     sorted_wrt (<) (map fst ctx) \<and> (\<forall>x \<in> set ctx. entry_ok x \<or> x \<in> set received)"

lemma set_btree_insert: "set (map fst (btree_insert k v ctx)) = insert k (set (map fst ctx))"
  by (induction k v ctx rule: btree_insert.induct) auto

lemma btree_insert_sorted: "sorted_wrt (<) (map fst ctx) \<Longrightarrow> sorted_wrt (<) (map fst (btree_insert k v ctx))"
proof (induction k v ctx rule: btree_insert.induct)
  case (2 k v k' v' rest)
  then show ?case using set_btree_insert [of k v rest] by (auto dest: less_trans)
qed simp

lemma btree_insert_entry: "x \<in> set (btree_insert k v ctx) \<Longrightarrow> x = (k, v) \<or> x \<in> set ctx"
  by (induction k v ctx rule: btree_insert.induct) (auto split: if_splits)

lemma map_of_btree_insert:
  "sorted_wrt (<) (map fst ctx) \<Longrightarrow> map_of (btree_insert k v ctx) = (map_of ctx)(k \<mapsto> v)"
  by (induction k v ctx rule: btree_insert.induct) (auto simp: fun_eq_iff)

lemma context_insert_Inr:
  "context_insert name entry ctx = Inr ctx' \<longleftrightarrow>
     context_key_ok name \<and> context_value_ok (se_value entry) \<and> ctx' = btree_insert name entry ctx"
  by (auto simp: context_insert_def context_key_iff context_value_iff result_simps)

lemma deserialized_sorted: "sorted_wrt (<) (map fst ctx) \<Longrightarrow>
    sorted_wrt (<) (map fst (fold (\<lambda>(name, entry) ctx. btree_insert name entry ctx) entries ctx))"
  by (induction entries arbitrary: ctx) (auto simp: btree_insert_sorted split: prod.splits)

lemma deserialized_entry: "x \<in> set (fold (\<lambda>(name, entry) ctx. btree_insert name entry ctx) entries ctx) \<Longrightarrow>
    x \<in> set entries \<or> x \<in> set ctx"
  by (induction entries arbitrary: ctx) (auto split: prod.splits dest!: btree_insert_entry)

lemma deserialized_get: "sorted_wrt (<) (map fst ctx) \<Longrightarrow>
    map_of (fold (\<lambda>(name, entry) ctx. btree_insert name entry ctx) entries ctx) = map_of ctx ++ map_of (rev entries)"
  by (induction entries arbitrary: ctx)
    (auto simp: btree_insert_sorted map_of_btree_insert split: prod.splits)

lemma validate_context_keys_iff:
  "is_ok (validate_context_keys ctx) \<longleftrightarrow> (\<forall>(k, e) \<in> set ctx. context_key_ok k \<and> length k \<le> 52)"
  by (induction ctx rule: validate_context_keys.induct)
    (auto simp: is_safe_context_name_def is_ok_iff context_key_iff MAX_CONTEXT_KEY_def MAX_USER_VARIABLE_NAME_def
      CONTEXT_VARIABLE_PREFIX_def)

lemma built_context_wf: "built_context received ctx \<Longrightarrow> context_wf received ctx"
proof (induction rule: built_context.induct)
  case (received entries)
  then show ?case
    by (auto simp: context_wf_def context_deserialized_def session_context_new_def deserialized_sorted
        dest: deserialized_entry)
next
  case (insert received ctx name entry ctx')
  then show ?case
    by (auto simp: context_wf_def entry_ok_def context_insert_Inr btree_insert_sorted dest!: btree_insert_entry)
qed (simp add: context_wf_def session_context_new_def)


definition demo_entry :: session_entry where "demo_entry = entry_sensitive (SvText ''acme'')"

lemma demo_context: "context_insert ''app.tenant'' demo_entry session_context_new = Inr [(''app.tenant'', demo_entry)]"
  by (simp add: context_insert_def session_context_new_def demo_entry_def entry_sensitive_def validate_context_key_def
        validate_context_value_def split_dot_def validate_identifier_segment_def is_ascii_lowercase_def)


section \<open>Redaction\<close>

text \<open>Two contexts that differ only in values that are not public.\<close>

definition same_but_secrets :: "session_context \<Rightarrow> session_context \<Rightarrow> bool" where
  "same_but_secrets a b \<longleftrightarrow>
     list_all2 (\<lambda>(k, e) (k', e'). k = k' \<and> se_classification e = se_classification e'
       \<and> (is_public (se_classification e) \<longrightarrow> e = e')) a b"

text \<open>The debug text of a context is a function of its keys, its classifications and its public values:
  contexts that differ only in internal or sensitive values print the same text, whatever the text form of a
  string is.\<close>

lemma debug_redacts_secrets:
  assumes "same_but_secrets a b"
  shows "session_context_debug quoted a = session_context_debug quoted b"
proof -
  have entry: "session_entry_debug quoted e = session_entry_debug quoted e'"
    if "se_classification e = se_classification e'" "is_public (se_classification e) \<longrightarrow> e = e'" for e e' quoted
    using that by (auto simp: session_entry_debug_def)
  have "debug_entries quoted a = debug_entries quoted b"
    using assms unfolding same_but_secrets_def
  proof (induction quoted a arbitrary: b rule: debug_entries.induct)
    case (2 quoted k e)
    then show ?case by (auto simp: list_all2_Cons1 session_entry_debug_def)
  next
    case (3 quoted k e n rest)
    from "3.prems" obtain e' n' rest' where b: "b = (k, e') # n' # rest'"
      "se_classification e = se_classification e'" "is_public (se_classification e) \<longrightarrow> e = e'"
      and rest: "list_all2 (\<lambda>(k, e) (k', e'). k = k' \<and> se_classification e = se_classification e'
       \<and> (is_public (se_classification e) \<longrightarrow> e = e')) (n # rest) (n' # rest')"
      by (auto simp: list_all2_Cons1)
    from "3.IH" [OF rest] entry [OF b(2,3), of quoted] show ?case by (simp add: b(1))
  qed simp
  then show ?thesis by (simp add: session_context_debug_def)
qed

end
