(* ===== verification/Row_Visibility.thy ===== *)
theory Row_Visibility
  imports Plan Arrow
begin

text \<open>
  Two rules that refuse a write.  Rule R, \<open>plenora-database-core/src/row_visibility.rs\<close>:
  a write starts only when the catalogue knows no mechanism of the target that would make its published counts
  false.  And \<open>primary_key.rs\<close>: the structure of the key a \<open>create\<close> declares.  The lemmas say exactly what each
  rule refuses and with which reason.
\<close>

section \<open>Rule R\<close>

datatype write_event = WeInsert | WeUpdate | WeDelete

fun mode_events :: "write_mode \<Rightarrow> write_event list" where
  "mode_events WmCreate = []"
| "mode_events WmAppend = [WeInsert]"
| "mode_events WmTruncateInsert = [WeInsert]"
| "mode_events WmReplace = [WeDelete, WeInsert]"
| "mode_events WmUpdate = [WeUpdate]"
| "mode_events WmUpsert = [WeInsert, WeUpdate]"
| "mode_events WmDeleteByKeys = [WeDelete]"

datatype destructive = DeDelete | DeUpdate

fun destructive_event :: "write_mode \<Rightarrow> destructive option" where
  "destructive_event WmReplace = Some DeDelete"
| "destructive_event WmDeleteByKeys = Some DeDelete"
| "destructive_event WmUpdate = Some DeUpdate"
| "destructive_event WmCreate = None"
| "destructive_event WmAppend = None"
| "destructive_event WmTruncateInsert = None"
| "destructive_event WmUpsert = None"

record row_filters =
  rf_row_security :: bool
  rf_rewrite_rule :: bool
  rf_instead_trigger :: bool
  rf_row_trigger :: bool
  rf_path_bypass :: bool
  rf_view :: bool
  rf_opaque_relation :: bool
  rf_unreadable :: bool

definition HIDDEN_BY_ROW_SECURITY :: string where
  "HIDDEN_BY_ROW_SECURITY = ''una policy di sicurezza di riga puo nascondere righe del target allo statement''"
definition HIDDEN_BY_RULE :: string where
  "HIDDEN_BY_RULE = ''una regola di riscrittura del target puo sostituire lo statement''"
definition HIDDEN_BY_INSTEAD_TRIGGER :: string where
  "HIDDEN_BY_INSTEAD_TRIGGER =
     ''un trigger INSTEAD OF del target sostituisce lo statement: i conteggi non direbbero righe del target''"
definition HIDDEN_BY_TRIGGER :: string where
  "HIDDEN_BY_TRIGGER = ''un trigger di riga BEFORE o INSTEAD OF del target puo sopprimere righe''"
definition BYPASSED_BY_PATH :: string where
  "BYPASSED_BY_PATH =
     ''il profilo di scrittura non applica garanzie del target (vincoli, regole, identita, trigger o default)''"
definition HIDDEN_BY_VIEW :: string where
  "HIDDEN_BY_VIEW = ''replace su una vista: la definizione della vista puo escludere righe''"
definition HIDDEN_BY_OPAQUE_RELATION :: string where
  "HIDDEN_BY_OPAQUE_RELATION = ''il target dipende da una relazione di cui il catalogo non dice filtri e riscritture''"
definition HIDDEN_UNREADABLE :: string where
  "HIDDEN_UNREADABLE = ''il catalogo che dice se lo statement scrive tutte le righe nel target non e leggibile''"

fun mode_name :: "write_mode \<Rightarrow> string" where
  "mode_name WmReplace = ''replace''"
| "mode_name WmDeleteByKeys = ''delete_by_keys''"
| "mode_name WmUpdate = ''update''"
| "mode_name WmCreate = ''create''"
| "mode_name WmAppend = ''append''"
| "mode_name WmTruncateInsert = ''truncate_insert''"
| "mode_name WmUpsert = ''upsert''"

definition refusal_reason :: "write_mode \<Rightarrow> row_filters \<Rightarrow> string option" where
  "refusal_reason mode filters =
     (if mode_events mode = [] then None
      else
        let destructive = destructive_event mode \<noteq> None
        in if rf_unreadable filters then Some HIDDEN_UNREADABLE
           else if destructive \<and> rf_row_security filters then Some HIDDEN_BY_ROW_SECURITY
           else if rf_rewrite_rule filters then Some HIDDEN_BY_RULE
           else if rf_instead_trigger filters then Some HIDDEN_BY_INSTEAD_TRIGGER
           else if destructive \<and> rf_row_trigger filters then Some HIDDEN_BY_TRIGGER
           else if rf_path_bypass filters then Some BYPASSED_BY_PATH
           else if rf_opaque_relation filters then Some HIDDEN_BY_OPAQUE_RELATION
           else if rf_view filters \<and> mode = WmReplace then Some HIDDEN_BY_VIEW
           else None)"

definition refuse_unfaithful_write :: "provider_kind \<Rightarrow> write_mode \<Rightarrow> error_phase \<Rightarrow> row_filters \<Rightarrow> unit result" where
  "refuse_unfaithful_write provider mode phase filters =
     (case refusal_reason mode filters of
        None \<Rightarrow> Inr ()
      | Some reason \<Rightarrow> Inl (unsupported provider phase (mode_name mode @ '' rifiutata: '' @ reason)))"

text \<open>The contract of the rule, said by mechanism instead of by order: what makes the counts of a mode false.\<close>

definition deletes_or_updates :: "write_mode \<Rightarrow> bool" where
  "deletes_or_updates mode \<longleftrightarrow> mode \<in> {WmReplace, WmUpdate, WmDeleteByKeys}"

definition unfaithful :: "write_mode \<Rightarrow> row_filters \<Rightarrow> bool" where
  "unfaithful mode f \<longleftrightarrow>
     mode \<noteq> WmCreate
     \<and> (rf_unreadable f \<or> rf_rewrite_rule f \<or> rf_instead_trigger f \<or> rf_path_bypass f \<or> rf_opaque_relation f
        \<or> deletes_or_updates mode \<and> (rf_row_security f \<or> rf_row_trigger f)
        \<or> mode = WmReplace \<and> rf_view f)"

lemma refusal_reason_iff: "refusal_reason mode f = None \<longleftrightarrow> \<not> unfaithful mode f"
  by (cases mode) (auto simp: refusal_reason_def unfaithful_def deletes_or_updates_def Let_def)

text \<open>More facts about a target never admit a write.\<close>

definition fewer_facts :: "row_filters \<Rightarrow> row_filters \<Rightarrow> bool" where
  "fewer_facts f g \<longleftrightarrow>
     (rf_row_security f \<longrightarrow> rf_row_security g) \<and> (rf_rewrite_rule f \<longrightarrow> rf_rewrite_rule g)
     \<and> (rf_instead_trigger f \<longrightarrow> rf_instead_trigger g) \<and> (rf_row_trigger f \<longrightarrow> rf_row_trigger g)
     \<and> (rf_path_bypass f \<longrightarrow> rf_path_bypass g) \<and> (rf_view f \<longrightarrow> rf_view g)
     \<and> (rf_opaque_relation f \<longrightarrow> rf_opaque_relation g) \<and> (rf_unreadable f \<longrightarrow> rf_unreadable g)"

lemma unfaithful_mono: "fewer_facts f g \<Longrightarrow> unfaithful mode f \<Longrightarrow> unfaithful mode g"
  by (auto simp: fewer_facts_def unfaithful_def)

text \<open>C26: rule R refuses a write exactly when a mechanism of the target can make its published counts false: every
  mode but \<open>create\<close> for an unreadable catalogue, a rewrite rule, an \<open>INSTEAD OF\<close> trigger, a path that bypasses the
  target or an opaque relation, the modes that delete or update for row security and row triggers, and \<open>replace\<close>
  for a view.  A refusal is an \<open>unsupported\<close> error of the given phase that claims no remote effect, and a target with
  more of these facts is refused too.  The rule is a function of the facts read: when it is applied (before the
  write, and by PostgreSQL again under the lock of the target) is the caller's.\<close>

theorem rule_r_exact:
  assumes "fewer_facts f g"
  shows "(refuse_unfaithful_write provider mode phase f = Inr () \<longleftrightarrow> \<not> unfaithful mode f)
    \<and> (\<forall>e. refuse_unfaithful_write provider mode phase f = Inl e \<longrightarrow>
         e_category e = Unsupported \<and> e_phase e = phase \<and> e_remote_effect e = EffNone \<and> e_retry e = Never)
    \<and> (refuse_unfaithful_write provider mode phase g = Inr () \<longrightarrow>
         refuse_unfaithful_write provider mode phase f = Inr ())"
proof -
  have iff: "refuse_unfaithful_write provider mode phase h = Inr () \<longleftrightarrow> \<not> unfaithful mode h" for h
    by (auto simp: refuse_unfaithful_write_def refusal_reason_iff [symmetric] split: option.splits)
  show ?thesis
    using unfaithful_mono [OF assms] unfolding iff
    by (auto simp: refuse_unfaithful_write_def unsupported_def error_new_def split: option.splits)
qed

definition no_filters :: row_filters where
  "no_filters = \<lparr>rf_row_security = False, rf_rewrite_rule = False, rf_instead_trigger = False, rf_row_trigger = False,
     rf_path_bypass = False, rf_view = False, rf_opaque_relation = False, rf_unreadable = False\<rparr>"

theorem rule_r_exact_witness:
  "refuse_unfaithful_write Postgres WmAppend PhPrepare (no_filters\<lparr>rf_row_trigger := True\<rparr>) = Inr ()
   \<and> refuse_unfaithful_write Postgres WmUpdate PhPrepare (no_filters\<lparr>rf_row_trigger := True\<rparr>) \<noteq> Inr ()"
proof -
  let ?f = "no_filters\<lparr>rf_row_trigger := True\<rparr>"
  have "fewer_facts ?f ?f" by (simp add: fewer_facts_def)
  from rule_r_exact [OF this, of Postgres WmAppend PhPrepare] rule_r_exact [OF this, of Postgres WmUpdate PhPrepare]
  show ?thesis by (simp add: unfaithful_def deletes_or_updates_def no_filters_def)
qed

section \<open>The key of a created table\<close>

record create_field = arrow_field +
  cf_nullable :: bool

datatype primary_key_violation = PkMissing string | PkNullable string | PkRepeated string

fun violation_key :: "primary_key_violation \<Rightarrow> string" where
  "violation_key (PkMissing key) = key"
| "violation_key (PkNullable key) = key"
| "violation_key (PkRepeated key) = key"

fun violation_message :: "primary_key_violation \<Rightarrow> string \<Rightarrow> string" where
  "violation_message (PkMissing key) provider =
     ''chiave primaria '' @ provider @ '' '' @ [CHR 0x27] @ key @ [CHR 0x27] @ '' assente dallo schema Arrow''"
| "violation_message (PkNullable key) provider =
     ''chiave primaria '' @ provider @ '' '' @ [CHR 0x27] @ key @ [CHR 0x27] @ '' e nullable nello schema Arrow: ''
     @ ''una PRIMARY KEY non ammette NULL''"
| "violation_message (PkRepeated key) provider =
     ''chiave primaria '' @ provider @ '' '' @ [CHR 0x27] @ key @ [CHR 0x27] @ '' ripetuta''"

text \<open>\<open>field_with_name\<close> of Arrow is the first field of that name.\<close>

fun check_primary_key :: "create_field list \<Rightarrow> string set \<Rightarrow> string list \<Rightarrow> primary_key_violation + unit" where
  "check_primary_key schema seen [] = Inr ()"
| "check_primary_key schema seen (key # keys) =
     (case find (\<lambda>f. af_name f = key) schema of
        None \<Rightarrow> Inl (PkMissing key)
      | Some field \<Rightarrow>
          if cf_nullable field then Inl (PkNullable key)
          else if key \<in> seen then Inl (PkRepeated key)
          else check_primary_key schema (insert key seen) keys)"

definition validate_create_primary_key :: "create_field list \<Rightarrow> string list \<Rightarrow> primary_key_violation + unit" where
  "validate_create_primary_key schema keys = check_primary_key schema {} keys"

definition key_field :: "create_field list \<Rightarrow> string \<Rightarrow> create_field option" where
  "key_field schema key = find (\<lambda>f. af_name f = key) schema"

lemma check_primary_key_Inr:
  "check_primary_key schema seen keys = Inr () \<longleftrightarrow>
     distinct keys \<and> set keys \<inter> seen = {} \<and> (\<forall>key \<in> set keys. \<exists>f. key_field schema key = Some f \<and> \<not> cf_nullable f)"
  by (induction schema seen keys rule: check_primary_key.induct) (auto simp: key_field_def split: option.splits)

text \<open>The rule a column of the key breaks, given the columns before it.\<close>

fun breaks :: "create_field list \<Rightarrow> string set \<Rightarrow> primary_key_violation \<Rightarrow> bool" where
  "breaks schema before (PkMissing key) \<longleftrightarrow> key_field schema key = None"
| "breaks schema before (PkNullable key) \<longleftrightarrow> (\<exists>f. key_field schema key = Some f \<and> cf_nullable f)"
| "breaks schema before (PkRepeated key) \<longleftrightarrow> key \<in> before"

lemma check_primary_key_Inl:
  "check_primary_key schema seen keys = Inl v \<Longrightarrow>
     \<exists>before after. keys = before @ violation_key v # after
       \<and> check_primary_key schema seen before = Inr () \<and> breaks schema (seen \<union> set before) v"
proof (induction schema seen keys rule: check_primary_key.induct)
  case (2 schema seen key keys)
  consider "violation_key v = key" "breaks schema seen v"
    | f where "find (\<lambda>f. af_name f = key) schema = Some f" "\<not> cf_nullable f" "key \<notin> seen"
        "check_primary_key schema (insert key seen) keys = Inl v"
    using "2.prems" by (auto simp: key_field_def split: option.splits if_splits)
  then show ?case
  proof cases
    case 1
    then show ?thesis by (intro exI [of _ "[]"] exI [of _ keys]) simp
  next
    case (2 f)
    from "2.IH" [OF 2] obtain before after where "keys = before @ violation_key v # after"
      "check_primary_key schema (insert key seen) before = Inr ()" "breaks schema (insert key seen \<union> set before) v" by blast
    then show ?thesis using 2 by (intro exI [of _ "key # before"] exI [of _ after]) simp
  qed
qed simp

text \<open>A declared key is accepted exactly when its columns are distinct and each is a field of the schema, the
  first of its name, that admits no null; a refusal names the first column of the key that breaks a rule and the
  rule it breaks, and everything before it is a valid key.\<close>

lemma create_primary_key_exact:
  "(validate_create_primary_key schema keys = Inr () \<longleftrightarrow>
      distinct keys \<and> (\<forall>key \<in> set keys. \<exists>f. key_field schema key = Some f \<and> \<not> cf_nullable f))
   \<and> (\<forall>v. validate_create_primary_key schema keys = Inl v \<longrightarrow>
        (\<exists>before after. keys = before @ violation_key v # after
           \<and> validate_create_primary_key schema before = Inr () \<and> breaks schema (set before) v))"
  using check_primary_key_Inr [of schema "{}" keys] check_primary_key_Inl [of schema "{}" keys]
  unfolding validate_create_primary_key_def Un_empty_left Int_empty_right by blast

end
