(* ===== verification/Ddl_Residue.thy ===== *)
theory Ddl_Residue
  imports Plan
begin

text \<open>
  \<open>plenora-database-core/src/ddl_residue.rs\<close>: the register of the tables a \<open>create\<close> that was abandoned may have
  left behind.  A guard is armed before the DDL is sent and settled by an outcome; a guard that is dropped armed
  records its target.  The lock of the register makes each operation one step; the lemmas relate every run of
  concurrent operations to the list of the targets abandoned so far.
\<close>

definition RECENT_RESIDUES :: nat where "RECENT_RESIDUES = 32"

record residue_ledger =
  rl_total :: u64
  rl_recent :: "object_ref list"

record residue_snapshot =
  rsn_total :: u64
  rsn_recent :: "object_ref list"

record residue_guard =
  rg_target :: "object_ref option"

definition ledger_default :: residue_ledger where
  "ledger_default = \<lparr>rl_total = 0, rl_recent = []\<rparr>"

definition arm :: "object_ref \<Rightarrow> residue_guard" where
  "arm target = \<lparr>rg_target = Some target\<rparr>"

definition ledger_snapshot :: "residue_ledger \<Rightarrow> residue_snapshot" where
  "ledger_snapshot l = \<lparr>rsn_total = rl_total l, rsn_recent = rl_recent l\<rparr>"

definition record_residue :: "object_ref \<Rightarrow> residue_ledger \<Rightarrow> residue_ledger" where
  "record_residue target l =
     \<lparr>rl_total = saturating_add (rl_total l) 1,
      rl_recent = (if length (rl_recent l) = RECENT_RESIDUES then tl (rl_recent l) else rl_recent l) @ [target]\<rparr>"

definition drop_guard :: "residue_guard \<Rightarrow> residue_ledger \<Rightarrow> residue_ledger" where
  "drop_guard g l = (case rg_target g of None \<Rightarrow> l | Some target \<Rightarrow> record_residue target l)"

text \<open>\<open>settle\<close> takes the guard: it is dropped at the end of the call.\<close>

definition settle_guard :: "residue_guard \<Rightarrow> residue_ledger \<Rightarrow> residue_ledger" where
  "settle_guard g l = drop_guard (g\<lparr>rg_target := None\<rparr>) l"

text \<open>
  How the future of a write ends: dropped before its first poll, when nothing of its body has run and the guard is not
  yet armed; dropped or unwound after it and before its work has a result; or with that result.
\<close>

datatype 'a ending = NeverPolled | Abandoned | Finished "'a result"

definition with_residue_guard :: "object_ref \<Rightarrow> 'a ending \<Rightarrow> residue_ledger \<Rightarrow> 'a result option \<times> residue_ledger" where
  "with_residue_guard target ending l =
     (case ending of
        NeverPolled \<Rightarrow> (None, l)
      | Abandoned \<Rightarrow> (let guard = arm target in (None, drop_guard guard l))
      | Finished r \<Rightarrow> (let guard = arm target in (Some r, settle_guard guard l)))"

section \<open>Runs\<close>

text \<open>Any number of operations in any order: the live guards by a number of their own, and the targets of the
  armed guards dropped so far.\<close>

record residue_state =
  rst_ledger :: residue_ledger
  rst_guards :: "nat \<Rightarrow> residue_guard option"

inductive residue_step :: "residue_state \<Rightarrow> object_ref list \<Rightarrow> residue_state \<Rightarrow> bool" where
  armed: "rst_guards s i = None \<Longrightarrow> residue_step s [] (s\<lparr>rst_guards := (rst_guards s)(i \<mapsto> arm target)\<rparr>)"
| settled: "rst_guards s i = Some g \<Longrightarrow>
     residue_step s [] \<lparr>rst_ledger = settle_guard g (rst_ledger s), rst_guards = (rst_guards s)(i := None)\<rparr>"
| dropped: "rst_guards s i = Some g \<Longrightarrow> rg_target g = Some target \<Longrightarrow>
     residue_step s [target] \<lparr>rst_ledger = drop_guard g (rst_ledger s), rst_guards = (rst_guards s)(i := None)\<rparr>"

inductive_cases residue_stepE: "residue_step s lost s'"

inductive residue_run :: "object_ref list \<Rightarrow> residue_state \<Rightarrow> bool" where
  start: "residue_run [] \<lparr>rst_ledger = ledger_default, rst_guards = \<lambda>i. None\<rparr>"
| step: "residue_run abandoned s \<Longrightarrow> residue_step s lost s' \<Longrightarrow> residue_run (abandoned @ lost) s'"

text \<open>What the register shows of the abandoned targets: how many, up to the width of the counter, and the last
  thirty-two.\<close>

definition ledger_of :: "object_ref list \<Rightarrow> residue_ledger" where
  "ledger_of abandoned =
     \<lparr>rl_total = of_nat (min (length abandoned) (2 ^ 64 - 1)),
      rl_recent = drop (length abandoned - RECENT_RESIDUES) abandoned\<rparr>"

lemma unat_of_nat_u64: "n < 2 ^ 64 \<Longrightarrow> unat (of_nat n :: u64) = n"
  by (simp add: unat_of_nat)

lemma record_ledger_of: "record_residue target (ledger_of abandoned) = ledger_of (abandoned @ [target])"
proof -
  have "unat (saturating_add (of_nat (min (length abandoned) (2 ^ 64 - 1)) :: u64) 1) = min (Suc (length abandoned)) (2 ^ 64 - 1)"
    unfolding saturating_add_unat by (subst unat_of_nat_u64) simp_all
  moreover have "unat (of_nat (min (Suc (length abandoned)) (2 ^ 64 - 1)) :: u64) = min (Suc (length abandoned)) (2 ^ 64 - 1)"
    by (rule unat_of_nat_u64) (simp add: min_def)
  ultimately have "saturating_add (of_nat (min (length abandoned) (2 ^ 64 - 1)) :: u64) 1 = of_nat (min (Suc (length abandoned)) (2 ^ 64 - 1))"
    unfolding word_unat_eq_iff by (simp only:)
  moreover have "tl (drop (length abandoned - RECENT_RESIDUES) abandoned) = drop (Suc (length abandoned) - RECENT_RESIDUES) abandoned"
    if "RECENT_RESIDUES \<le> length abandoned"
    using that by (simp add: tl_drop Suc_diff_le drop_Suc)
  ultimately show ?thesis
    by (auto simp: record_residue_def ledger_of_def RECENT_RESIDUES_def)
qed

text \<open>C24: the register refines the list of abandoned targets: after any run of operations that arm, settle and drop
  guards in any order, it shows exactly the number of the targets abandoned with an armed guard (up to \<open>u64::MAX\<close>)
  and the last thirty-two of them, oldest first; a write that ends with a result of its own, or whose future is
  dropped before it is ever polled, leaves it unchanged, and one that is abandoned while it runs adds its
  target.\<close>

theorem residues_are_abandoned_targets:
  assumes "residue_run abandoned s"
  shows "rst_ledger s = ledger_of abandoned
    \<and> with_residue_guard target (Finished (r :: 'a result)) (rst_ledger s) = (Some r, ledger_of abandoned)
    \<and> with_residue_guard target NeverPolled (rst_ledger s) = (None :: 'a result option, ledger_of abandoned)
    \<and> with_residue_guard target Abandoned (rst_ledger s) = (None :: 'a result option, ledger_of (abandoned @ [target]))"
proof -
  have "rst_ledger s = ledger_of abandoned" using assms
  proof (induction rule: residue_run.induct)
    case (step abandoned s lost s')
    from step.hyps(2) step.IH show ?case
      by cases (simp_all add: settle_guard_def drop_guard_def record_ledger_of)
  qed (simp add: ledger_default_def ledger_of_def)
  then show ?thesis
    by (simp add: with_residue_guard_def arm_def settle_guard_def drop_guard_def record_ledger_of)
qed

definition demo_target :: object_ref where
  "demo_target = \<lparr>or_catalog = None, or_schema = None, or_object = ''t''\<rparr>"

theorem residues_are_abandoned_targets_witness:
  "\<exists>s. residue_run [demo_target] s \<and> rst_ledger s = \<lparr>rl_total = 1, rl_recent = [demo_target]\<rparr>"
proof -
  obtain s where s: "residue_run ([] @ [] @ [demo_target]) s"
    using residue_run.step [OF residue_run.step [OF residue_run.start residue_step.armed [of _ 0 demo_target]]
        residue_step.dropped [of _ 0 "arm demo_target" demo_target]]
    by (fastforce simp: arm_def)
  with residues_are_abandoned_targets [of "[demo_target]" s] show ?thesis
    by (auto simp: ledger_of_def RECENT_RESIDUES_def)
qed

end
