(* ===== verification/Retry.thy ===== *)
theory Retry
  imports Error_Model
begin

text \<open>
  \<open>plenora-database-engine/src/retry.rs\<close>: the executor that runs an operation again as the retry disposition of
  its errors allows.  The operation, the clock of the runtime and the token are parameters over a world of their
  own: \<open>op\<close> is one attempt, \<open>reason\<close> the cause of the cancellation seen in a world, \<open>wait\<close> the race of a sleep with
  the token (true when the token wins).  The lemmas follow the loop through a log of what it does.
\<close>

record retry_policy =
  ry_max_attempts :: u32
  ry_max_delay_ms :: "u64 option"

definition policy_new :: "u32 \<Rightarrow> retry_policy" where
  "policy_new max_attempts = \<lparr>ry_max_attempts = max_attempts, ry_max_delay_ms = None\<rparr>"

definition default_conservative :: retry_policy where
  "default_conservative = \<lparr>ry_max_attempts = 3, ry_max_delay_ms = Some 5000\<rparr>"

definition interrupted_error :: "('w \<Rightarrow> cancellation_reason option) \<Rightarrow> database_error option \<Rightarrow> 'w \<Rightarrow> database_error" where
  "interrupted_error reason last_error w =
     interrupted (reason w) (Option.bind last_error e_provider) PhCleanup ''retry interrotto''"

definition sleep_cancellable ::
  "('w \<Rightarrow> cancellation_reason option) \<Rightarrow> (u64 \<Rightarrow> 'w \<Rightarrow> bool \<times> 'w) \<Rightarrow> u64 \<Rightarrow> 'w \<Rightarrow> bool \<times> 'w" where
  "sleep_cancellable reason wait ms w =
     (if ms = 0 then (reason w \<noteq> None, w)
      else case wait ms w of (woken, w') \<Rightarrow> (woken \<or> reason w' \<noteq> None, w'))"

definition retry_delay :: "retry_policy \<Rightarrow> u64 \<Rightarrow> u64" where
  "retry_delay policy ms = (case ry_max_delay_ms policy of None \<Rightarrow> ms | Some cap \<Rightarrow> min ms cap)"

text \<open>The attempt stays below \<open>max_attempts\<close>, so the addition of the source does not overflow its \<open>u32\<close>: the
  number of the attempt is a natural number here.\<close>

function retry_loop ::
  "('w \<Rightarrow> cancellation_reason option) \<Rightarrow> (u64 \<Rightarrow> 'w \<Rightarrow> bool \<times> 'w) \<Rightarrow> (u32 \<Rightarrow> 'w \<Rightarrow> 'a result \<times> 'w)
     \<Rightarrow> retry_policy \<Rightarrow> nat \<Rightarrow> database_error option \<Rightarrow> 'w \<Rightarrow> 'a result \<times> 'w" where
  "retry_loop reason wait op policy attempt last_error w =
     (if reason w \<noteq> None then (Inl (interrupted_error reason last_error w), w)
      else case op (of_nat attempt) w of
          (Inr value, w1) \<Rightarrow> (Inr value, w1)
        | (Inl e, w1) \<Rightarrow>
            if attempt + 1 \<ge> unat (ry_max_attempts policy) then (Inl e, w1)
            else (case e_retry e of
                Safe \<Rightarrow> retry_loop reason wait op policy (attempt + 1) (Some e) w1
              | After ms \<Rightarrow>
                  (case sleep_cancellable reason wait (retry_delay policy ms) w1 of
                     (stopped, w2) \<Rightarrow>
                       if stopped then (Inl (interrupted_error reason (Some e) w2), w2)
                       else retry_loop reason wait op policy (attempt + 1) (Some e) w2)
              | _ \<Rightarrow> (Inl e, w1)))"
  by pat_completeness auto
termination
  by (relation "measure (\<lambda>(reason, wait, op, policy, attempt, last_error, w). unat (ry_max_attempts policy) - attempt)") auto

declare retry_loop.simps [simp del]

definition retry_with_policy ::
  "('w \<Rightarrow> cancellation_reason option) \<Rightarrow> (u64 \<Rightarrow> 'w \<Rightarrow> bool \<times> 'w) \<Rightarrow> (u32 \<Rightarrow> 'w \<Rightarrow> 'a result \<times> 'w)
     \<Rightarrow> retry_policy \<Rightarrow> 'w \<Rightarrow> 'a result \<times> 'w" where
  "retry_with_policy reason wait op policy w =
     (if ry_max_attempts policy = 0 then (Inl (invalid_plan ''RetryPolicy.max_attempts deve essere >= 1''), w)
      else retry_loop reason wait op policy 0 None w)"

section \<open>The log of a run\<close>

text \<open>The same run in a world that also writes down every attempt with its result and every delay.\<close>

datatype 'a retry_event = Attempted u32 "'a result" | Slept u64

type_synonym ('w, 'a) logged = "'w \<times> 'a retry_event list"

definition logged_op :: "(u32 \<Rightarrow> 'w \<Rightarrow> 'a result \<times> 'w) \<Rightarrow> u32 \<Rightarrow> ('w, 'a) logged \<Rightarrow> 'a result \<times> ('w, 'a) logged" where
  "logged_op op n = (\<lambda>(w, log). case op n w of (r, w') \<Rightarrow> (r, (w', log @ [Attempted n r])))"

definition logged_wait :: "(u64 \<Rightarrow> 'w \<Rightarrow> bool \<times> 'w) \<Rightarrow> u64 \<Rightarrow> ('w, 'a) logged \<Rightarrow> bool \<times> ('w, 'a) logged" where
  "logged_wait wait ms = (\<lambda>(w, log). case wait ms w of (b, w') \<Rightarrow> (b, (w', log @ [Slept ms])))"

definition logged_retry ::
  "('w \<Rightarrow> cancellation_reason option) \<Rightarrow> (u64 \<Rightarrow> 'w \<Rightarrow> bool \<times> 'w) \<Rightarrow> (u32 \<Rightarrow> 'w \<Rightarrow> 'a result \<times> 'w)
     \<Rightarrow> retry_policy \<Rightarrow> 'w \<Rightarrow> 'a result \<times> ('w, 'a) logged" where
  "logged_retry reason wait op policy w =
     retry_with_policy (reason \<circ> fst) (logged_wait wait) (logged_op op) policy (w, [])"

fun attempts_of :: "'a retry_event list \<Rightarrow> (u32 \<times> 'a result) list" where
  "attempts_of [] = []"
| "attempts_of (Attempted n r # log) = (n, r) # attempts_of log"
| "attempts_of (Slept ms # log) = attempts_of log"

definition delays_of :: "'a retry_event list \<Rightarrow> u64 set" where
  "delays_of log = {ms. Slept ms \<in> set log}"

lemma attempts_of_append [simp]: "attempts_of (a @ b) = attempts_of a @ attempts_of b"
  by (induction a rule: attempts_of.induct) simp_all

lemma delays_of_simps [simp]:
  "delays_of [] = {}" "delays_of (a @ b) = delays_of a \<union> delays_of b"
  "delays_of (Attempted n r # log) = delays_of log" "delays_of (Slept ms # log) = insert ms (delays_of log)"
  by (auto simp: delays_of_def)

text \<open>The result a run gives for the attempts it made: that of the last one, or the interruption.\<close>

definition is_interruption :: "database_error \<Rightarrow> bool" where
  "is_interruption e \<longleftrightarrow> e_category e \<in> {Cancelled, Timeout} \<and> e_phase e = PhCleanup \<and> e_retry e = Never"

definition attempts_ok :: "retry_policy \<Rightarrow> nat \<Rightarrow> (u32 \<times> 'a result) list \<Rightarrow> 'a result \<Rightarrow> bool" where
  "attempts_ok policy first attempts r \<longleftrightarrow>
     map fst attempts = map of_nat [first..<first + length attempts]
     \<and> first + length attempts \<le> unat (ry_max_attempts policy)
     \<and> (\<forall>x \<in> set (butlast attempts). \<exists>e. snd x = Inl e \<and> is_retryable e)
     \<and> (attempts \<noteq> [] \<and> snd (last attempts) = r
        \<or> (\<exists>e. r = Inl e \<and> is_interruption e)
          \<and> (attempts \<noteq> [] \<longrightarrow> (\<exists>e. snd (last attempts) = Inl e \<and> is_retryable e)))"

lemma interrupted_error_is: "is_interruption (interrupted_error reason last_error w)"
  by (simp add: is_interruption_def interrupted_error_def interrupted_def interruption_category_def
      cancelled_def error_new_def)

lemma retry_delay_le: "ry_max_delay_ms policy = Some cap \<Longrightarrow> retry_delay policy ms \<le> cap"
  by (simp add: retry_delay_def)

lemma attempts_ok_one: "first < unat (ry_max_attempts policy) \<Longrightarrow> attempts_ok policy first [(of_nat first, r)] r"
  by (simp add: attempts_ok_def)

lemma attempts_ok_more:
  assumes "attempts_ok policy (Suc first) attempts r" "is_retryable e"
  shows "attempts_ok policy first ((of_nat first, Inl e) # attempts) r"
  using assms unfolding attempts_ok_def by (auto simp: upt_rec [of first] simp del: upt_Suc)

lemma attempts_ok_interrupted:
  "Suc first < unat (ry_max_attempts policy) \<Longrightarrow> is_retryable e \<Longrightarrow> is_interruption d \<Longrightarrow>
     attempts_ok policy first [(of_nat first, Inl e)] (Inl d)"
  by (simp add: attempts_ok_def)

lemma sleep_logged:
  "sleep_cancellable (reason \<circ> fst) (logged_wait wait) ms (w, log) = (b, (w', log')) \<Longrightarrow>
     log' = log \<or> log' = log @ [Slept ms]"
  by (auto simp: sleep_cancellable_def logged_wait_def split: if_splits prod.splits)

lemma retry_loop_log:
  assumes "retry_loop (reason \<circ> fst) (logged_wait wait) (logged_op op) policy attempt last_error (w, log) = (r, (w', log'))"
    and "attempt < unat (ry_max_attempts policy)"
  shows "\<exists>new. log' = log @ new \<and> attempts_ok policy attempt (attempts_of new) r
    \<and> (\<forall>ms \<in> delays_of new. \<exists>asked. ms = retry_delay policy asked)"
  using assms
proof (induction "unat (ry_max_attempts policy) - attempt" arbitrary: attempt last_error w log rule: less_induct)
  case less
  obtain r1 w1 where op: "op (of_nat attempt) w = (r1, w1)" by (cases "op (of_nat attempt) w")
  note unfold = less.prems(1) [unfolded retry_loop.simps [of _ _ _ _ attempt]]
  have one: ?case if "log' = log @ [Attempted (of_nat attempt) r]"
    using that attempts_ok_one [OF less.prems(2), of r] by auto
  have again: ?case
    if loop: "retry_loop (reason \<circ> fst) (logged_wait wait) (logged_op op) policy (attempt + 1) (Some e)
           (w2, log @ Attempted (of_nat attempt) (Inl e) # log1) = (r, (w', log'))"
      and "is_retryable e" "attempt + 1 < unat (ry_max_attempts policy)"
      and slept: "log1 = [] \<or> (\<exists>ms. log1 = [Slept (retry_delay policy ms)])" for e log1 w2
  proof -
    have "unat (ry_max_attempts policy) - (attempt + 1) < unat (ry_max_attempts policy) - attempt" using less.prems(2) by linarith
    from less.hyps [OF this loop that(3)] obtain new where
      "log' = (log @ Attempted (of_nat attempt) (Inl e) # log1) @ new"
      "attempts_ok policy (Suc attempt) (attempts_of new) r" "\<forall>ms \<in> delays_of new. \<exists>asked. ms = retry_delay policy asked"
      unfolding Suc_eq_plus1 by blast
    moreover have "attempts_of log1 = []" "\<forall>ms \<in> delays_of log1. \<exists>asked. ms = retry_delay policy asked"
      using slept by auto
    ultimately show ?thesis using that(2)
      by (intro exI [of _ "Attempted (of_nat attempt) (Inl e) # log1 @ new"]) (auto intro: attempts_ok_more)
  qed
  show ?case
  proof (cases "reason w = None")
    case False
    with unfold have "log' = log" "\<exists>d. r = Inl d \<and> is_interruption d" by (auto simp: interrupted_error_is)
    with less.prems(2) show ?thesis by (intro exI [of _ "[]"]) (auto simp: attempts_ok_def)
  next
    case True
    show ?thesis
    proof (cases r1)
      case (Inr v)
      with unfold True op show ?thesis by (intro one) (auto simp: logged_op_def)
    next
      case (Inl e)
      show ?thesis
      proof (cases "is_retryable e \<and> attempt + 1 < unat (ry_max_attempts policy)")
        case False
        with unfold True op Inl show ?thesis
          by (intro one) (auto simp: logged_op_def is_retryable_def split: retry_disposition.splits)
      next
        case retry: True
        show ?thesis
        proof (cases "e_retry e")
          case (After ms)
          obtain b w2 log2 where sleep: "sleep_cancellable (reason \<circ> fst) (logged_wait wait) (retry_delay policy ms)
              (w1, log @ [Attempted (of_nat attempt) (Inl e)]) = (b, (w2, log2))" by (metis prod_cases3)
          from sleep_logged [OF this] obtain log1 where log1: "log2 = log @ Attempted (of_nat attempt) (Inl e) # log1"
            "log1 = [] \<or> (\<exists>ms. log1 = [Slept (retry_delay policy ms)])" by auto
          show ?thesis
          proof (cases b)
            case True
            with unfold \<open>reason w = None\<close> op Inl retry After sleep have "log' = log2"
              "r = Inl (interrupted_error (reason \<circ> fst) (Some e) (w2, log2))" by (auto simp: logged_op_def)
            moreover have "attempts_ok policy attempt [(of_nat attempt, Inl e)] r"
              unfolding calculation(2) by (rule attempts_ok_interrupted) (use retry interrupted_error_is in simp_all)
            ultimately show ?thesis using log1
              by (intro exI [of _ "Attempted (of_nat attempt) (Inl e) # log1"]) auto
          next
            case False
            with unfold \<open>reason w = None\<close> op Inl retry After sleep log1 show ?thesis
              by (intro again [of e w2 log1]) (auto simp: logged_op_def)
          qed
        next
          case Safe
          with unfold True op Inl retry show ?thesis
            by (intro again [of e w1 "[]"]) (auto simp: logged_op_def)
        qed (use retry in \<open>simp_all add: is_retryable_def\<close>)
      qed
    qed
  qed
qed

text \<open>C11: the executor returns, whatever the operation, the clock and the token do, after at most \<open>max_attempts\<close>
  attempts, numbered from zero without gaps.  Every attempt but the last failed with an error that asks for another
  attempt (\<open>Safe\<close> or \<open>After\<close>); no delay exceeds the cap of the policy; the result is that of the last attempt,
  or an interruption of the cleanup phase after an error that asked for another attempt.\<close>

theorem retry_respects_policy:
  assumes "logged_retry reason wait op policy w = (r, (w', log))" and "ry_max_attempts policy \<noteq> 0"
  shows "attempts_ok policy 0 (attempts_of log) r
    \<and> (\<forall>cap. ry_max_delay_ms policy = Some cap \<longrightarrow> (\<forall>ms \<in> delays_of log. ms \<le> cap))"
proof -
  have "0 < unat (ry_max_attempts policy)" using assms(2) by (simp add: unat_gt_0)
  with retry_loop_log [of reason wait op policy 0 None w "[]" r w' log] assms show ?thesis
    by (auto simp: logged_retry_def retry_with_policy_def dest: retry_delay_le)
qed

text \<open>An operation that asks for a long delay once and then succeeds.\<close>

definition demo_op :: "u32 \<Rightarrow> nat \<Rightarrow> u32 result \<times> nat" where
  "demo_op n w =
     (if n = 0 then (Inl ((error_new Transient PhRead None ''busy'')\<lparr>e_retry := After 60000\<rparr>), w) else (Inr n, w))"

theorem retry_respects_policy_witness:
  "attempts_ok default_conservative 0
     [(0, Inl ((error_new Transient PhRead None ''busy'')\<lparr>e_retry := After 60000\<rparr>)), (1, Inr 1)] (Inr 1 :: u32 result)"
proof -
  have "logged_retry (\<lambda>w. None) (\<lambda>ms w. (False, w)) demo_op default_conservative 0 =
      (Inr 1, (0, [Attempted 0 (Inl ((error_new Transient PhRead None ''busy'')\<lparr>e_retry := After 60000\<rparr>)), Slept 5000, Attempted 1 (Inr 1)]))"
    by (simp add: logged_retry_def retry_with_policy_def retry_loop.simps default_conservative_def logged_op_def
        logged_wait_def sleep_cancellable_def retry_delay_def demo_op_def)
  from retry_respects_policy [OF this] show ?thesis by (simp add: default_conservative_def)
qed

end
