(* ===== verification/Transaction.thy ===== *)
theory Transaction
  imports Row Outcome Sql_Policy Session_Context
begin

text \<open>
  The application plane of the core: \<open>transaction.rs\<close> (options, statements, the outcome of a commit and the rule
  for errors after the \<open>COMMIT\<close> was sent), \<open>graph.rs\<close> (graph statements and what a probe of Apache AGE opens) and
  \<open>caller_sql.rs\<close> (the mandatory point of the caller's SQL: a marker per operation and a transaction whose every
  error passes the rule).  A \<open>SendMarker\<close>, an atomic flag behind an \<open>Arc\<close>, is an address in a store of markers.
\<close>

section \<open>Options and statements\<close>

datatype isolation_level = ReadUncommitted | ReadCommitted | RepeatableRead | Serializable

datatype access_mode = ReadWrite | AmReadOnly

record transaction_options =
  to_isolation :: "isolation_level option"
  to_access_mode :: "access_mode option"
  to_deferrable :: "bool option"
  to_statement_timeout_ms :: "u64 option"
  to_context :: session_context
  to_native_query_policy :: native_query_policy

definition options_default :: transaction_options where
  "options_default =
     \<lparr>to_isolation = None, to_access_mode = None, to_deferrable = None, to_statement_timeout_ms = None,
      to_context = session_context_new, to_native_query_policy = Allow\<rparr>"

definition pfm_defaults :: transaction_options where
  "pfm_defaults = options_default\<lparr>to_native_query_policy := Deny\<rparr>"

record 'json statement =
  st_sql :: string
  st_params :: "'json parameter_value list"

definition statement_new :: "string \<Rightarrow> 'json statement" where
  "statement_new sql = \<lparr>st_sql = sql, st_params = []\<rparr>"

definition with_params :: "'json statement \<Rightarrow> 'json parameter_value list \<Rightarrow> 'json statement" where
  "with_params s params = s\<lparr>st_params := params\<rparr>"

record 'json conditional_update =
  cu_update :: "'json statement"
  cu_key_probe :: "'json statement option"
  cu_expected_affected_rows :: u64

section \<open>The outcome of a commit\<close>

datatype commit_outcome = CommitCommitted | CommitUnknown recovery

definition is_committed :: "commit_outcome \<Rightarrow> bool" where
  "is_committed o1 \<longleftrightarrow> o1 = CommitCommitted"

definition outcome_unknown_recovery :: recovery where
  "outcome_unknown_recovery =
     \<lparr>re_last_certain_phase = CommitRequested, re_automatic_retry_allowed = False, re_idempotency_key = None,
      re_staging_object = None,
      re_verification_action = Some ''verificare fuori banda lo stato del target prima di ritentare'',
      re_cause = None\<rparr>"

definition outcome_unknown_recovery_for :: "error_category \<Rightarrow> recovery" where
  "outcome_unknown_recovery_for cause = outcome_unknown_recovery\<lparr>re_cause := Some cause\<rparr>"

definition after_commit_sent :: "database_error \<Rightarrow> bool \<Rightarrow> database_error" where
  "after_commit_sent e proves_rollback =
     (if proves_rollback then e\<lparr>e_phase := PhCommit, e_remote_effect := EffRolledBack\<rparr>
      else e\<lparr>e_phase := PhCommit, e_remote_effect := EffUnknown,
             e_retry := (if e_retry e = Quarantine then Quarantine else RequiresRecovery)\<rparr>)"

definition commit_failure_outcome :: "database_error \<Rightarrow> bool \<Rightarrow> commit_outcome result" where
  "commit_failure_outcome e proves_rollback =
     (let e' = after_commit_sent e proves_rollback
      in if e_remote_effect e' = EffRolledBack then Inl e'
         else Inr (CommitUnknown (outcome_unknown_recovery_for (e_category e'))))"

definition unknown_category :: "commit_outcome \<Rightarrow> error_category option" where
  "unknown_category o1 =
     (case o1 of
        CommitCommitted \<Rightarrow> None
      | CommitUnknown r \<Rightarrow> Some (case re_cause r of None \<Rightarrow> Internal | Some c \<Rightarrow> c))"

definition concurrent_modification_error :: "string \<Rightarrow> database_error" where
  "concurrent_modification_error message =
     \<lparr>e_category = ConcurrentModification, e_phase = PhWrite, e_remote_effect = EffRolledBack, e_retry = Never,
      e_provider = None, e_execution_id = None, e_message = message, e_diagnostics = None\<rparr>"

section \<open>Names\<close>

definition is_name_char :: "char \<Rightarrow> bool" where
  "is_name_char c \<longleftrightarrow> is_ascii_alphanumeric c \<or> c = CHR ''_''"

definition is_name_start :: "char \<Rightarrow> bool" where
  "is_name_start c \<longleftrightarrow> is_ascii_alphabetic c \<or> c = CHR ''_''"

fun savepoint_tail :: "string \<Rightarrow> unit result" where
  "savepoint_tail [] = Inr ()"
| "savepoint_tail (c # cs) =
     (if \<not> (is_ascii_alphanumeric c \<or> c = CHR ''_'')
      then Inl (invalid_plan (''il nome di savepoint pu'' @ [CHR 0xC3, CHR 0xB2] @ '' contenere solo lettere, cifre o underscore''))
      else savepoint_tail cs)"

definition validate_savepoint_name :: "string \<Rightarrow> unit result" where
  "validate_savepoint_name name =
     (if name = [] then Inl (invalid_plan (''il nome di savepoint non pu'' @ [CHR 0xC3, CHR 0xB2] @ '' essere vuoto''))
      else if length name > 63 then Inl (invalid_plan ''il nome di savepoint eccede 63 caratteri'')
      else case name of
        [] \<Rightarrow> Inl (invalid_plan (''il nome di savepoint non pu'' @ [CHR 0xC3, CHR 0xB2] @ '' essere vuoto''))
      | c # cs \<Rightarrow>
          if \<not> (is_ascii_alphabetic c \<or> c = CHR ''_'')
          then Inl (invalid_plan ''il nome di savepoint deve iniziare con lettera o underscore'')
          else savepoint_tail cs)"

definition simple_name :: "string \<Rightarrow> bool" where
  "simple_name name \<longleftrightarrow> name \<noteq> [] \<and> length name \<le> 63 \<and> is_name_start (hd name) \<and> list_all is_name_char name"

lemma name_start_char: "is_name_start c \<Longrightarrow> is_name_char c"
  by (auto simp: is_name_start_def is_name_char_def is_ascii_alphanumeric_def)

lemma savepoint_tail_iff: "savepoint_tail cs = Inr () \<longleftrightarrow> list_all is_name_char cs"
  by (induction cs) (simp_all add: is_name_char_def)

lemma savepoint_name_iff: "validate_savepoint_name name = Inr () \<longleftrightarrow> simple_name name"
  using name_start_char
  by (cases name) (auto simp: validate_savepoint_name_def simple_name_def savepoint_tail_iff is_name_start_def [symmetric])

section \<open>Graph statements\<close>

definition QUALIFIED_AGE_VERSION :: string where "QUALIFIED_AGE_VERSION = ''1.7.0''"
definition QUALIFIED_POSTGRES_MAJOR :: u16 where "QUALIFIED_POSTGRES_MAJOR = 18"
definition MAX_CYPHER_BYTES :: nat where "MAX_CYPHER_BYTES = 1048576"
definition MAX_GRAPH_COLUMNS :: nat where "MAX_GRAPH_COLUMNS = 64"
definition MAX_GRAPH_PARAMETERS :: nat where "MAX_GRAPH_PARAMETERS = 256"
definition MAX_GRAPH_PARAMETER_BYTES :: nat where "MAX_GRAPH_PARAMETER_BYTES = 1048576"
definition DEFAULT_GRAPH_MAX_ROWS :: nat where "DEFAULT_GRAPH_MAX_ROWS = 10000"
definition MAX_GRAPH_ROWS :: nat where "MAX_GRAPH_ROWS = 1000000"

record age_capabilities =
  ag_schema_version :: u32
  ag_postgres_major :: "u16 option"
  ag_extension_version :: "string option"
  ag_query :: bool
  ag_parameters :: bool
  ag_writes :: bool
  ag_transactions :: bool
  ag_vertex :: bool
  ag_edge :: bool
  ag_path :: bool

definition age_default :: age_capabilities where
  "age_default =
     \<lparr>ag_schema_version = 1, ag_postgres_major = None, ag_extension_version = None, ag_query = False,
      ag_parameters = False, ag_writes = False, ag_transactions = False, ag_vertex = False, ag_edge = False,
      ag_path = False\<rparr>"

definition age_from_probe :: "u16 \<Rightarrow> string option \<Rightarrow> bool \<Rightarrow> age_capabilities" where
  "age_from_probe postgres_major extension_version runtime_objects_present =
     (let qualified = (postgres_major = QUALIFIED_POSTGRES_MAJOR
                       \<and> extension_version = Some QUALIFIED_AGE_VERSION \<and> runtime_objects_present)
      in \<lparr>ag_schema_version = 1, ag_postgres_major = Some postgres_major, ag_extension_version = extension_version,
          ag_query = qualified, ag_parameters = qualified, ag_writes = qualified, ag_transactions = qualified,
          ag_vertex = qualified, ag_edge = qualified, ag_path = qualified\<rparr>)"

definition age_qualified :: "age_capabilities \<Rightarrow> bool" where
  "age_qualified c \<longleftrightarrow>
     ag_query c \<and> ag_parameters c \<and> ag_writes c \<and> ag_transactions c \<and> ag_vertex c \<and> ag_edge c \<and> ag_path c"

record age_admin_capabilities =
  aa_schema_version :: u32
  aa_postgres_major :: "u16 option"
  aa_extension_version :: "string option"
  aa_list_graphs :: bool
  aa_create_graph :: bool
  aa_drop_graph :: bool

definition age_admin_default :: age_admin_capabilities where
  "age_admin_default =
     \<lparr>aa_schema_version = 1, aa_postgres_major = None, aa_extension_version = None, aa_list_graphs = False,
      aa_create_graph = False, aa_drop_graph = False\<rparr>"

definition age_admin_from :: "age_capabilities \<Rightarrow> age_admin_capabilities" where
  "age_admin_from c =
     (let qualified = age_qualified c
      in \<lparr>aa_schema_version = 1, aa_postgres_major = ag_postgres_major c,
          aa_extension_version = ag_extension_version c, aa_list_graphs = qualified, aa_create_graph = qualified,
          aa_drop_graph = qualified\<rparr>)"

definition age_admin_qualified :: "age_admin_capabilities \<Rightarrow> bool" where
  "age_admin_qualified c \<longleftrightarrow> aa_list_graphs c \<and> aa_create_graph c \<and> aa_drop_graph c"

text \<open>The parameters, a \<open>BTreeMap\<close> of JSON values, are the list of their entries in key order.\<close>

record 'json graph_statement =
  gs_graph :: string
  gs_cypher :: string
  gs_columns :: "string list"
  gs_params :: "(string \<times> 'json) list"
  gs_max_rows :: nat

definition graph_statement_new :: "string \<Rightarrow> string \<Rightarrow> string list \<Rightarrow> 'json graph_statement" where
  "graph_statement_new graph cypher columns =
     \<lparr>gs_graph = graph, gs_cypher = cypher, gs_columns = columns, gs_params = [], gs_max_rows = DEFAULT_GRAPH_MAX_ROWS\<rparr>"

text \<open>\<open>char::is_whitespace\<close> on UTF-8: the number of bytes of the white character a text starts with.\<close>

definition white_bytes :: "string \<Rightarrow> nat" where
  "white_bytes s =
     (case map byte_of (take 3 s) of
        [] \<Rightarrow> 0
      | a # rest \<Rightarrow>
          if a \<in> {9, 10, 11, 12, 13, 32} then 1
          else (case rest of
              [] \<Rightarrow> 0
            | b # rest' \<Rightarrow>
                if a = 0xC2 \<and> b \<in> {0x85, 0xA0} then 2
                else (case rest' of
                    [] \<Rightarrow> 0
                  | c # _ \<Rightarrow>
                      if a = 0xE1 \<and> b = 0x9A \<and> c = 0x80 then 3
                      else if a = 0xE2 \<and> b = 0x80 \<and> (0x80 \<le> c \<and> c \<le> 0x8A \<or> c \<in> {0xA8, 0xA9, 0xAF}) then 3
                      else if a = 0xE2 \<and> b = 0x81 \<and> c = 0x9F then 3
                      else if a = 0xE3 \<and> b = 0x80 \<and> c = 0x80 then 3
                      else 0)))"

function trim_start :: "string \<Rightarrow> string" where
  "trim_start s = (if s = [] \<or> white_bytes s = 0 then s else trim_start (drop (white_bytes s) s))"
  by pat_completeness auto
termination
  by (relation "measure length") auto

declare trim_start.simps [simp del]

definition validate_graph_identifier :: "string \<Rightarrow> string \<Rightarrow> unit result" where
  "validate_graph_identifier value role =
     (if value = [] \<or> length value > 63 then Inl (invalid_plan (role @ '' deve contenere tra 1 e 63 byte''))
      else
        let valid_first = (case value of [] \<Rightarrow> False | c # _ \<Rightarrow> is_ascii_alphabetic c \<or> c = CHR ''_'')
        in if \<not> valid_first \<or> \<not> list_all (\<lambda>c. is_ascii_alphanumeric c \<or> c = CHR ''_'') (tl value)
           then Inl (invalid_plan (role @ '' deve essere un identificatore ASCII semplice''))
           else Inr ())"

definition validate_graph_name :: "string \<Rightarrow> unit result" where
  "validate_graph_name value = validate_graph_identifier value ''nome del grafo''"

fun validate_graph_columns :: "string set \<Rightarrow> string list \<Rightarrow> unit result" where
  "validate_graph_columns seen [] = Inr ()"
| "validate_graph_columns seen (c # cs) =
     and_then (validate_graph_identifier c ''nome colonna Cypher'') (\<lambda>_.
       if c \<in> seen then Inl (invalid_plan ''i nomi delle colonne Cypher devono essere univoci'')
       else validate_graph_columns (insert c seen) cs)"

fun validate_graph_parameters :: "string list \<Rightarrow> unit result" where
  "validate_graph_parameters [] = Inr ()"
| "validate_graph_parameters (name # names) =
     and_then (validate_graph_identifier name ''nome parametro Cypher'') (\<lambda>_. validate_graph_parameters names)"

text \<open>\<open>serde_json::to_vec\<close> is \<open>to_json\<close>: the bytes of the parameter map, if it has a JSON form.\<close>

definition validate_graph_statement :: "((string \<times> 'json) list \<Rightarrow> string option) \<Rightarrow> 'json graph_statement \<Rightarrow> unit result" where
  "validate_graph_statement to_json s =
     and_then (validate_graph_identifier (gs_graph s) ''nome del grafo'') (\<lambda>_.
     if trim_start (gs_cypher s) = [] then Inl (invalid_plan ''la query Cypher non puo essere vuota'')
     else if length (gs_cypher s) > MAX_CYPHER_BYTES then Inl (invalid_plan ''la query Cypher supera il limite di 1 MiB'')
     else if gs_columns s = [] \<or> length (gs_columns s) > MAX_GRAPH_COLUMNS
     then Inl (invalid_plan ''le colonne Cypher devono essere tra 1 e 64'')
     else and_then (validate_graph_columns {} (gs_columns s)) (\<lambda>_.
       if length (gs_params s) > MAX_GRAPH_PARAMETERS
       then Inl (invalid_plan ''la mappa parametri Cypher supera 256 elementi'')
       else if gs_max_rows s = 0 \<or> gs_max_rows s > MAX_GRAPH_ROWS
       then Inl (invalid_plan ''il limite righe Cypher deve essere tra 1 e 1000000'')
       else and_then (validate_graph_parameters (map fst (gs_params s))) (\<lambda>_.
       and_then (ok_or (to_json (gs_params s)) (invalid_plan ''la mappa parametri Cypher non e serializzabile'')) (\<lambda>bytes.
         if length bytes > MAX_GRAPH_PARAMETER_BYTES
         then Inl (invalid_plan ''la mappa parametri Cypher supera il limite di 1 MiB'')
         else Inr ()))))"

definition graph_statement_ok :: "((string \<times> 'json) list \<Rightarrow> string option) \<Rightarrow> 'json graph_statement \<Rightarrow> bool" where
  "graph_statement_ok to_json s \<longleftrightarrow>
     simple_name (gs_graph s)
     \<and> trim_start (gs_cypher s) \<noteq> [] \<and> length (gs_cypher s) \<le> MAX_CYPHER_BYTES
     \<and> gs_columns s \<noteq> [] \<and> length (gs_columns s) \<le> MAX_GRAPH_COLUMNS
     \<and> distinct (gs_columns s) \<and> list_all simple_name (gs_columns s)
     \<and> length (gs_params s) \<le> MAX_GRAPH_PARAMETERS \<and> list_all simple_name (map fst (gs_params s))
     \<and> 0 < gs_max_rows s \<and> gs_max_rows s \<le> MAX_GRAPH_ROWS
     \<and> (\<exists>bytes. to_json (gs_params s) = Some bytes \<and> length bytes \<le> MAX_GRAPH_PARAMETER_BYTES)"

lemma graph_identifier_iff: "validate_graph_identifier v role = Inr () \<longleftrightarrow> simple_name v"
  using name_start_char
  by (cases v) (auto simp: validate_graph_identifier_def simple_name_def Let_def is_name_char_def [symmetric]
      is_name_start_def [symmetric])

lemma graph_columns_iff:
  "validate_graph_columns seen cs = Inr () \<longleftrightarrow> list_all simple_name cs \<and> distinct cs \<and> set cs \<inter> seen = {}"
  by (induction seen cs rule: validate_graph_columns.induct) (auto simp: graph_identifier_iff result_simps)

lemma graph_parameters_iff: "validate_graph_parameters ns = Inr () \<longleftrightarrow> list_all simple_name ns"
  by (induction ns) (auto simp: graph_identifier_iff result_simps)

lemma graph_statement_iff: "validate_graph_statement to_json s = Inr () \<longleftrightarrow> graph_statement_ok to_json s"
  by (auto simp: validate_graph_statement_def graph_statement_ok_def graph_identifier_iff graph_columns_iff
      graph_parameters_iff result_simps not_less)

lemma age_qualified_iff:
  "age_qualified (age_from_probe major version present) \<longleftrightarrow>
     major = QUALIFIED_POSTGRES_MAJOR \<and> version = Some QUALIFIED_AGE_VERSION \<and> present"
  by (simp add: age_qualified_def age_from_probe_def Let_def)

lemma age_admin_qualified_iff: "age_admin_qualified (age_admin_from c) \<longleftrightarrow> age_qualified c"
  by (simp add: age_admin_qualified_def age_admin_from_def Let_def)

end
