(* ===== verification/Caller_Sql.thy ===== *)
theory Caller_Sql
  imports Transaction
begin

text \<open>
  \<open>plenora-database-core/src/caller_sql.rs\<close> and the trait \<open>TransactionScope\<close> of \<open>transaction.rs\<close>.  A scope is the
  record of its methods over a state of its own and the store of markers; the wrapper \<open>CallerSqlTransaction\<close> is
  a function from scopes to scopes.  The locale states what the wrapper relies on in an adapter: an operation
  touches no marker that was made before it began.
\<close>

section \<open>Markers\<close>

type_synonym send_marker = nat

record marker_store =
  ms_next :: nat
  ms_sent :: "nat \<Rightarrow> bool"

definition marker_new :: "bool \<Rightarrow> marker_store \<Rightarrow> send_marker \<times> marker_store" where
  "marker_new sent st = (ms_next st, st\<lparr>ms_next := ms_next st + 1, ms_sent := (ms_sent st)(ms_next st := sent)\<rparr>)"

definition marker_default :: "marker_store \<Rightarrow> send_marker \<times> marker_store" where
  "marker_default st = marker_new True st"

definition before_send :: "marker_store \<Rightarrow> send_marker \<times> marker_store" where
  "before_send st = marker_new False st"

definition mark_sent :: "send_marker \<Rightarrow> marker_store \<Rightarrow> marker_store" where
  "mark_sent m st = st\<lparr>ms_sent := (ms_sent st)(m := True)\<rparr>"

definition caller_sql_failure :: "database_error \<Rightarrow> database_error" where
  "caller_sql_failure e = after_unproven_send e"

definition marker_failure :: "send_marker \<Rightarrow> marker_store \<Rightarrow> database_error \<Rightarrow> database_error" where
  "marker_failure m st e = (if ms_sent st m then caller_sql_failure e else e)"

section \<open>The trait\<close>

text \<open>An awaited call: its result, the state and the markers after it.\<close>

type_synonym ('s, 'a) scope_call = "'s \<Rightarrow> marker_store \<Rightarrow> 'a result \<times> 's \<times> marker_store"

text \<open>A stream borrows its transaction: it works on the same state.\<close>

record ('s, 'k, 'json) row_stream =
  rs_next_batch :: "'k \<Rightarrow> ('s, 'json row list option) scope_call"

text \<open>\<open>'k\<close> is the cancellation token, \<open>'g\<close> a graph row, \<open>'oc\<close> and \<open>'rt\<close> what the two catalogue reads yield.\<close>

record ('s, 'k, 'json, 'g, 'oc, 'rt) transaction_scope =
  ts_begin_caller_sql :: "'s \<Rightarrow> marker_store \<Rightarrow> send_marker \<times> 's \<times> marker_store"
  ts_provider_kind :: provider_kind
  ts_execute :: "'json statement \<Rightarrow> 'k \<Rightarrow> ('s, u64) scope_call"
  ts_query :: "'json statement \<Rightarrow> 'k \<Rightarrow> ('s, 'json row list) scope_call"
  ts_execute_graph :: "'json graph_statement \<Rightarrow> 'k \<Rightarrow> ('s, 'g list) scope_call"
  ts_query_stream :: "'json statement \<Rightarrow> u32 \<Rightarrow> 'k \<Rightarrow> ('s, ('s, 'k, 'json) row_stream) scope_call"
  ts_conditional_update :: "'json conditional_update \<Rightarrow> 'k \<Rightarrow> ('s, unit) scope_call"
  ts_operand_catalog :: "(string option \<times> string) list \<Rightarrow> string list \<Rightarrow> 'k \<Rightarrow> ('s, 'oc) scope_call"
  ts_column_types :: "string option \<times> string \<Rightarrow> 'k \<Rightarrow> ('s, 'rt option) scope_call"
  ts_savepoint :: "string \<Rightarrow> 'k \<Rightarrow> ('s, unit) scope_call"
  ts_rollback_to_savepoint :: "string \<Rightarrow> 'k \<Rightarrow> ('s, unit) scope_call"
  ts_release_savepoint :: "string \<Rightarrow> 'k \<Rightarrow> ('s, unit) scope_call"
  ts_commit :: "'k \<Rightarrow> ('s, commit_outcome) scope_call"
  ts_rollback :: "'k \<Rightarrow> ('s, unit) scope_call"

text \<open>The default methods of the trait.\<close>

definition default_begin_caller_sql :: "'s \<Rightarrow> marker_store \<Rightarrow> send_marker \<times> 's \<times> marker_store" where
  "default_begin_caller_sql s st = (case marker_default st of (m, st') \<Rightarrow> (m, s, st'))"

definition default_execute_graph :: "provider_kind \<Rightarrow> 'json graph_statement \<Rightarrow> 'k \<Rightarrow> ('s, 'g list) scope_call" where
  "default_execute_graph kind statement k s st =
     (Inl (unsupported kind PhPrepare ''operazioni graph non supportate dal provider''), s, st)"

definition default_operand_catalog ::
  "'oc \<Rightarrow> (string option \<times> string) list \<Rightarrow> string list \<Rightarrow> 'k \<Rightarrow> ('s, 'oc) scope_call" where
  "default_operand_catalog empty_catalog relations names k s st = (Inr empty_catalog, s, st)"

definition default_column_types :: "string option \<times> string \<Rightarrow> 'k \<Rightarrow> ('s, 'rt option) scope_call" where
  "default_column_types relation k s st = (Inr None, s, st)"

section \<open>The wrapper\<close>

text \<open>The shape of every method that sends the caller's SQL: open a marker, call, judge an error by the marker.\<close>

definition tracked ::
  "('s \<Rightarrow> marker_store \<Rightarrow> send_marker \<times> 's \<times> marker_store) \<Rightarrow> ('s, 'a) scope_call \<Rightarrow> ('s, 'a) scope_call" where
  "tracked begin_sql call s st =
     (case begin_sql s st of (m, s1, st1) \<Rightarrow>
      case call s1 st1 of (r, s2, st2) \<Rightarrow> (map_err (marker_failure m st2) r, s2, st2))"

definition map_success :: "('a \<Rightarrow> 'b) \<Rightarrow> ('s, 'a) scope_call \<Rightarrow> ('s, 'b) scope_call" where
  "map_success f call s st = (case call s st of (r, s', st') \<Rightarrow> (map_sum id f r, s', st'))"

definition caller_sql_row_stream :: "('s, 'k, 'json) row_stream \<Rightarrow> ('s, 'k, 'json) row_stream" where
  "caller_sql_row_stream inner =
     \<lparr>rs_next_batch = \<lambda>k s st. case rs_next_batch inner k s st of (r, s', st') \<Rightarrow>
        (map_err caller_sql_failure r, s', st')\<rparr>"

definition caller_sql_transaction ::
  "('s, 'k, 'json, 'g, 'oc, 'rt) transaction_scope \<Rightarrow> ('s, 'k, 'json, 'g, 'oc, 'rt) transaction_scope" where
  "caller_sql_transaction inner =
     \<lparr>ts_begin_caller_sql = \<lambda>s st. case before_send st of (m, st') \<Rightarrow> (m, s, st'),
      ts_provider_kind = ts_provider_kind inner,
      ts_execute = \<lambda>x k. tracked (ts_begin_caller_sql inner) (ts_execute inner x k),
      ts_query = \<lambda>x k. tracked (ts_begin_caller_sql inner) (ts_query inner x k),
      ts_execute_graph = \<lambda>x k. tracked (ts_begin_caller_sql inner) (ts_execute_graph inner x k),
      ts_query_stream = \<lambda>x n k. map_success caller_sql_row_stream
        (tracked (ts_begin_caller_sql inner) (ts_query_stream inner x n k)),
      ts_conditional_update = \<lambda>x k. tracked (ts_begin_caller_sql inner) (ts_conditional_update inner x k),
      ts_operand_catalog = ts_operand_catalog inner,
      ts_column_types = ts_column_types inner,
      ts_savepoint = ts_savepoint inner,
      ts_rollback_to_savepoint = ts_rollback_to_savepoint inner,
      ts_release_savepoint = ts_release_savepoint inner,
      ts_commit = ts_commit inner,
      ts_rollback = ts_rollback inner\<rparr>"

text \<open>\<open>open_transaction\<close> awaits the adapter and wraps what it opened.\<close>

definition open_transaction ::
  "('s, 'k, 'json, 'g, 'oc, 'rt) transaction_scope result \<Rightarrow> ('s, 'k, 'json, 'g, 'oc, 'rt) transaction_scope result" where
  "open_transaction call = and_then call (\<lambda>inner. Inr (caller_sql_transaction inner))"

definition run_ddl_tracked ::
  "provider_kind \<Rightarrow> cancellation_reason option \<Rightarrow> send_marker \<Rightarrow> ('s, unit) scope_call \<Rightarrow> ('s, unit) scope_call" where
  "run_ddl_tracked provider reason sent call s st =
     (if reason \<noteq> None
      then (Inl (interrupted reason (Some provider) PhWrite (''DDL interrotto prima dell'' @ [CHR 0x27] @ ''invio'')), s, st)
      else case call s st of (r, s', st') \<Rightarrow> (map_err (marker_failure sent st') r, s', st'))"

definition run_ddl :: "provider_kind \<Rightarrow> cancellation_reason option \<Rightarrow> ('s, unit) scope_call \<Rightarrow> ('s, unit) scope_call" where
  "run_ddl provider reason call s st =
     (case marker_default st of (m, st') \<Rightarrow> run_ddl_tracked provider reason m call s st')"

section \<open>The rule\<close>

text \<open>An error after the rule: the effect is never \<open>none\<close>, and what was uncertain stays as it was.\<close>

lemma failure_effect: "e_remote_effect (caller_sql_failure e) \<noteq> EffNone"
  by (simp add: caller_sql_failure_def after_unproven_send_def)

lemma failure_idem: "caller_sql_failure (caller_sql_failure e) = caller_sql_failure e"
  by (simp add: caller_sql_failure_def after_unproven_send_def)

lemma marker_failure_twice:
  "\<not> ms_sent st' m' \<Longrightarrow> marker_failure m' st' (marker_failure m st e) = marker_failure m st e"
  by (simp add: marker_failure_def)

text \<open>What a call does to the markers made before it.\<close>

definition keeps_markers :: "('s, 'a) scope_call \<Rightarrow> bool" where
  "keeps_markers call \<longleftrightarrow>
     (\<forall>s st r s' st'. call s st = (r, s', st') \<longrightarrow>
        ms_next st \<le> ms_next st' \<and> (\<forall>m < ms_next st. ms_sent st' m = ms_sent st m))"

definition opens_marker :: "('s \<Rightarrow> marker_store \<Rightarrow> send_marker \<times> 's \<times> marker_store) \<Rightarrow> bool" where
  "opens_marker begin_sql \<longleftrightarrow>
     (\<forall>s st m s' st'. begin_sql s st = (m, s', st') \<longrightarrow>
        ms_next st \<le> m \<and> m < ms_next st' \<and> (\<forall>a < ms_next st. ms_sent st' a = ms_sent st a))"

lemma keeps_markersD:
  "keeps_markers call \<Longrightarrow> call s st = (r, s', st') \<Longrightarrow> ms_next st \<le> ms_next st' \<and> (\<forall>m < ms_next st. ms_sent st' m = ms_sent st m)"
  by (simp add: keeps_markers_def)

lemma opens_before_send: "opens_marker (\<lambda>s st. case before_send st of (m, st') \<Rightarrow> (m, s, st'))"
  by (auto simp: opens_marker_def before_send_def marker_new_def)

lemma opens_default: "opens_marker default_begin_caller_sql"
  by (auto simp: opens_marker_def default_begin_caller_sql_def marker_default_def marker_new_def)

text \<open>Tracking a call that is already tracked changes nothing: the outer marker stays unsent.\<close>

lemma tracked_again:
  assumes "keeps_markers (tracked begin_sql call)"
    and "tracked begin_sql call s (snd (before_send st)) = (r, s', st')"
  shows "tracked (\<lambda>s st. case before_send st of (m, st') \<Rightarrow> (m, s, st')) (tracked begin_sql call) s st = (r, s', st')"
proof -
  have "\<not> ms_sent st' (ms_next st)"
    using keeps_markersD [OF assms] by (simp add: before_send_def marker_new_def)
  then have "marker_failure (ms_next st) st' = (\<lambda>e. e)" by (simp add: fun_eq_iff marker_failure_def)
  moreover have "map_err (\<lambda>e. e) r = r" by (cases r) (simp_all add: map_err_def)
  ultimately show ?thesis
    using assms(2) by (simp add: tracked_def [of "\<lambda>s st. _ s st"] before_send_def marker_new_def)
qed

lemma map_failure_again: "map_err caller_sql_failure (map_err caller_sql_failure x) = map_err caller_sql_failure x"
  by (cases x) (simp_all add: map_err_def failure_idem)

lemma row_stream_again: "caller_sql_row_stream (caller_sql_row_stream r) = caller_sql_row_stream r"
  by (simp add: caller_sql_row_stream_def fun_eq_iff map_failure_again split: prod.splits)

lemma tracked_map_success: "tracked begin_sql (map_success f call) = map_success f (tracked begin_sql call)"
  by (simp add: fun_eq_iff tracked_def map_success_def map_err_def split: prod.splits sum.splits)

lemma map_stream_again: "map_sum id caller_sql_row_stream (map_sum id caller_sql_row_stream r) = map_sum id caller_sql_row_stream r"
  by (cases r) (simp_all add: row_stream_again)

lemma map_success_row_stream:
  "map_success caller_sql_row_stream (map_success caller_sql_row_stream call) = map_success caller_sql_row_stream call"
  by (simp add: map_success_def fun_eq_iff map_stream_again split: prod.splits)

section \<open>What the wrapper relies on\<close>

text \<open>An adapter whose operations, begun by \<open>begin_caller_sql\<close>, leave the markers of others alone.\<close>

locale marked_scope =
  fixes scope :: "('s, 'k, 'json, 'g, 'oc, 'rt) transaction_scope"
  assumes opens: "opens_marker (ts_begin_caller_sql scope)"
    and keeps_execute: "keeps_markers (tracked (ts_begin_caller_sql scope) (ts_execute scope x k))"
    and keeps_query: "keeps_markers (tracked (ts_begin_caller_sql scope) (ts_query scope x k))"
    and keeps_graph: "keeps_markers (tracked (ts_begin_caller_sql scope) (ts_execute_graph scope y k))"
    and keeps_stream: "keeps_markers (tracked (ts_begin_caller_sql scope) (ts_query_stream scope x n k))"
    and keeps_update: "keeps_markers (tracked (ts_begin_caller_sql scope) (ts_conditional_update scope z k))"
begin

lemmas keeps = keeps_execute keeps_query keeps_graph keeps_stream keeps_update

text \<open>Wrapping a wrapped scope is wrapping it once, but for the marker the outer wrapper makes and never sets.\<close>

lemma again:
  assumes "keeps_markers (tracked (ts_begin_caller_sql scope) call)"
  shows "tracked (\<lambda>s st. case before_send st of (m, st') \<Rightarrow> (m, s, st')) (tracked (ts_begin_caller_sql scope) call) s st =
    tracked (ts_begin_caller_sql scope) call s (snd (before_send st))"
proof -
  obtain r s' st' where "tracked (ts_begin_caller_sql scope) call s (snd (before_send st)) = (r, s', st')"
    by (metis prod_cases3)
  with tracked_again [OF assms this] show ?thesis by simp
qed

lemma wrapped_twice_execute:
  "ts_execute (caller_sql_transaction (caller_sql_transaction scope)) x k s st =
     ts_execute (caller_sql_transaction scope) x k s (snd (before_send st))"
  by (simp add: caller_sql_transaction_def again keeps)

lemma wrapped_twice_query:
  "ts_query (caller_sql_transaction (caller_sql_transaction scope)) x k s st =
     ts_query (caller_sql_transaction scope) x k s (snd (before_send st))"
  by (simp add: caller_sql_transaction_def again keeps)

lemma wrapped_twice_graph:
  "ts_execute_graph (caller_sql_transaction (caller_sql_transaction scope)) y k s st =
     ts_execute_graph (caller_sql_transaction scope) y k s (snd (before_send st))"
  by (simp add: caller_sql_transaction_def again keeps)

lemma wrapped_twice_stream:
  "ts_query_stream (caller_sql_transaction (caller_sql_transaction scope)) x n k s st =
     ts_query_stream (caller_sql_transaction scope) x n k s (snd (before_send st))"
  by (simp add: caller_sql_transaction_def tracked_map_success map_success_row_stream)
     (simp add: map_success_def again keeps)

lemma wrapped_twice_update:
  "ts_conditional_update (caller_sql_transaction (caller_sql_transaction scope)) z k s st =
     ts_conditional_update (caller_sql_transaction scope) z k s (snd (before_send st))"
  by (simp add: caller_sql_transaction_def again keeps)

end

text \<open>An adapter that says when it sends: \<open>sends\<close> counts the texts of the caller handed to the driver, and an
  operation that handed one over has set its marker.\<close>

definition sends_marked ::
  "('s \<Rightarrow> nat) \<Rightarrow> ('s \<Rightarrow> marker_store \<Rightarrow> send_marker \<times> 's \<times> marker_store) \<Rightarrow> ('s, 'a) scope_call \<Rightarrow> bool" where
  "sends_marked sends begin_sql call \<longleftrightarrow>
     (\<forall>s st m s1 st1 r s2 st2. begin_sql s st = (m, s1, st1) \<longrightarrow> call s1 st1 = (r, s2, st2) \<longrightarrow>
        sends s2 \<noteq> sends s \<longrightarrow> ms_sent st2 m)"

definition uncertain_after_send :: "('s \<Rightarrow> nat) \<Rightarrow> ('s, 'a) scope_call \<Rightarrow> bool" where
  "uncertain_after_send sends call \<longleftrightarrow>
     (\<forall>s st e s' st'. call s st = (Inl e, s', st') \<longrightarrow> sends s' \<noteq> sends s \<longrightarrow> e_remote_effect e \<noteq> EffNone)"

lemma tracked_uncertain: "sends_marked sends begin_sql call \<Longrightarrow> uncertain_after_send sends (tracked begin_sql call)"
  unfolding uncertain_after_send_def sends_marked_def tracked_def
  by (auto simp: result_simps marker_failure_def split: prod.splits) (metis failure_effect)+

lemma map_success_uncertain: "uncertain_after_send sends call \<Longrightarrow> uncertain_after_send sends (map_success f call)"
  unfolding uncertain_after_send_def map_success_def
  by (auto split: prod.splits) (metis map_sum.simps(2) sum.exhaust map_sum.simps(1) sum.inject(1) sum.distinct(1) id_apply)

locale tracking_scope = marked_scope scope
  for scope :: "('s, 'k, 'json, 'g, 'oc, 'rt) transaction_scope" +
  fixes sends :: "'s \<Rightarrow> nat"
  assumes marks_execute: "sends_marked sends (ts_begin_caller_sql scope) (ts_execute scope x k)"
    and marks_query: "sends_marked sends (ts_begin_caller_sql scope) (ts_query scope x k)"
    and marks_graph: "sends_marked sends (ts_begin_caller_sql scope) (ts_execute_graph scope y k)"
    and marks_stream: "sends_marked sends (ts_begin_caller_sql scope) (ts_query_stream scope x n k)"
    and marks_update: "sends_marked sends (ts_begin_caller_sql scope) (ts_conditional_update scope z k)"
begin

lemma uncertain:
  "uncertain_after_send sends (ts_execute (caller_sql_transaction scope) x k)"
  "uncertain_after_send sends (ts_query (caller_sql_transaction scope) x k)"
  "uncertain_after_send sends (ts_execute_graph (caller_sql_transaction scope) y k)"
  "uncertain_after_send sends (ts_query_stream (caller_sql_transaction scope) x n k)"
  "uncertain_after_send sends (ts_conditional_update (caller_sql_transaction scope) z k)"
  unfolding caller_sql_transaction_def transaction_scope.simps
  by (intro map_success_uncertain tracked_uncertain marks_execute marks_query marks_graph marks_stream marks_update)+

end

lemma stream_uncertain:
  "rs_next_batch (caller_sql_row_stream inner) k s st = (Inl e, s', st') \<Longrightarrow> e_remote_effect e \<noteq> EffNone"
  by (auto simp: caller_sql_row_stream_def result_simps failure_effect split: prod.splits)

end
