(* ===== verification/Pg_Errors.thy ===== *)
theory Pg_Errors
  imports Transaction
begin

text \<open>
  \<open>plenora-db-postgres/src/error.rs\<close>: how an error of the driver becomes the public error of the library.  What
  the code reads of a driver error (its SQLSTATE, whether the connection is closed, the message of a server
  error) is the record \<open>driver_error\<close>.  The lemmas read the axes off the table and give the rule for an error
  that answers a \<open>COMMIT\<close>.
\<close>

record driver_error =
  de_sqlstate :: "string option"
  de_closed :: bool
  de_message :: "string option"

record pg_error_mapping =
  pm_category :: error_category
  pm_retry :: retry_disposition
  pm_remote_effect :: remote_effect
  pm_message :: string

definition pg_mapping :: "error_category \<Rightarrow> retry_disposition \<Rightarrow> remote_effect \<Rightarrow> string \<Rightarrow> pg_error_mapping" where
  "pg_mapping category retry effect message =
     \<lparr>pm_category = category, pm_retry = retry, pm_remote_effect = effect, pm_message = message\<rparr>"

text \<open>The arms of the match of \<open>mapping_for_sqlstate\<close>, in order.\<close>

definition SQLSTATE_TABLE :: "(string list \<times> pg_error_mapping) list" where
  "SQLSTATE_TABLE =
    [([''08000'', ''08003'', ''08006''], pg_mapping Transient Safe EffNone
       ''connessione PostgreSQL interrotta''),
     ([''08001'', ''08004''], pg_mapping Io Safe EffNone
       ''connessione PostgreSQL non stabilita''),
     ([''08007''], pg_mapping Transient RequiresRecovery EffUnknown
       ''esito transazione PostgreSQL non verificabile''),
     ([''08P01''], pg_mapping Protocol Never EffNone
       ''violazione protocollo PostgreSQL''),
     ([''0A000''], pg_mapping Unsupported Never EffNone
       (''funzionalit'' @ [CHR 0xC3, CHR 0xA0] @ '' PostgreSQL non supportata'')),
     ([''22001''], pg_mapping DataMapping Never EffRolledBack
       ''valore stringa PostgreSQL troncato''),
     ([''22003''], pg_mapping DataMapping Never EffRolledBack
       ''valore numerico PostgreSQL fuori intervallo''),
     ([''22007'', ''22008''], pg_mapping DataMapping Never EffRolledBack
       ''valore temporale PostgreSQL non valido''),
     ([''22012''], pg_mapping Execution Never EffRolledBack
       ''divisione per zero in PostgreSQL''),
     ([''22P02''], pg_mapping DataMapping Never EffRolledBack
       ''rappresentazione testuale PostgreSQL non valida''),
     ([''2200N'', ''2200S''], pg_mapping DataMapping Never EffRolledBack
       ''documento XML/JSON PostgreSQL non valido''),
     ([''23502''], pg_mapping Conflict Never EffRolledBack
       ''violazione NOT NULL in PostgreSQL''),
     ([''23503''], pg_mapping Conflict Never EffRolledBack
       ''violazione foreign key in PostgreSQL''),
     ([''23505''], pg_mapping Conflict Never EffRolledBack
       (''violazione vincolo di unicit'' @ [CHR 0xC3, CHR 0xA0] @ '' in PostgreSQL'')),
     ([''23514''], pg_mapping Conflict Never EffRolledBack
       ''violazione CHECK in PostgreSQL''),
     ([''23P01''], pg_mapping Conflict Never EffRolledBack
       ''violazione vincolo di esclusione in PostgreSQL''),
     ([''25001''], pg_mapping Protocol Never EffNone
       (''transazione PostgreSQL gi'' @ [CHR 0xC3, CHR 0xA0] @ '' attiva'')),
     ([''25006''], pg_mapping Authorization Never EffNone
       ''transazione PostgreSQL in sola lettura''),
     ([''25P02''], pg_mapping Protocol Never EffRolledBack
       ''transazione PostgreSQL in stato di errore''),
     ([''28000'', ''28P01''], pg_mapping Authentication Never EffNone
       ''autenticazione PostgreSQL fallita''),
     ([''3F000''], pg_mapping NotFound Never EffNone
       ''schema PostgreSQL non trovato''),
     ([''40001''], pg_mapping Transient Safe EffRolledBack
       ''serializzazione PostgreSQL fallita''),
     ([''40003''], pg_mapping Transient RequiresRecovery EffUnknown
       ''completamento statement PostgreSQL non verificabile''),
     ([''40P01''], pg_mapping Transient Safe EffRolledBack
       ''deadlock PostgreSQL rilevato''),
     ([''42501''], pg_mapping Authorization Never EffNone
       ''permesso PostgreSQL insufficiente''),
     ([''42601''], pg_mapping InvalidPlan Never EffNone
       ''sintassi SQL PostgreSQL non valida''),
     ([''42P01'', ''42703''], pg_mapping NotFound Never EffNone
       ''oggetto PostgreSQL non trovato''),
     ([''42P07''], pg_mapping Conflict Never EffNone
       (''oggetto PostgreSQL gi'' @ [CHR 0xC3, CHR 0xA0] @ '' esistente'')),
     ([''42P16''], pg_mapping Schema Never EffNone
       ''definizione tabella PostgreSQL non valida''),
     ([''428C9''], pg_mapping InvalidPlan Never EffRolledBack
       (''colonna generata (GENERATED ALWAYS) non scrivibile: escludila dalla lista colonne dell'' @ [CHR 0x27] @ ''INSERT/UPDATE'')),
     ([''42P10''], pg_mapping InvalidPlan Never EffNone
       ''colonne del piano non utilizzabili dal target PostgreSQL: chiavi senza vincolo unico che le arbitri o colonna generata''),
     ([''55000'', ''42809''], pg_mapping Unsupported Never EffNone
       (''oggetto PostgreSQL che non ammette l'' @ [CHR 0x27] @ ''operazione di scrittura'')),
     ([''53100''], pg_mapping ResourceLimit RequiresRecovery EffUnknown
       ''spazio disco PostgreSQL esaurito''),
     ([''53200''], pg_mapping ResourceLimit Safe EffUnknown
       ''memoria PostgreSQL esaurita''),
     ([''53300''], pg_mapping ResourceLimit (After 1000) EffNone
       ''connessioni PostgreSQL esaurite''),
     ([''53400''], pg_mapping ResourceLimit Never EffNone
       ''limite di configurazione PostgreSQL superato''),
     ([''55006''], pg_mapping Transient (After 500) EffNone
       ''oggetto PostgreSQL in uso''),
     ([''55P03''], pg_mapping Transient Safe EffNone
       ''lock PostgreSQL non acquisibile''),
     ([''57014''], pg_mapping Cancelled Never EffRolledBack
       ''operazione PostgreSQL cancellata''),
     ([''57P01'', ''57P02''], pg_mapping Transient Quarantine EffUnknown
       ''shutdown PostgreSQL in corso''),
     ([''57P03''], pg_mapping Transient (After 2000) EffNone
       ''PostgreSQL non ancora disponibile''),
     ([''58000'', ''58030''], pg_mapping Io RequiresRecovery EffUnknown
       ''errore di sistema PostgreSQL''),
     ([''XX000'', ''XX001'', ''XX002''], pg_mapping Internal Never EffUnknown
       ''errore interno PostgreSQL'')]"

definition mapping_for_sqlstate :: "string \<Rightarrow> pg_error_mapping option" where
  "mapping_for_sqlstate sqlstate = map_option snd (find (\<lambda>(codes, _). sqlstate \<in> set codes) SQLSTATE_TABLE)"

fun phase_is_state_mutating :: "error_phase \<Rightarrow> bool" where
  "phase_is_state_mutating PhWrite = True"
| "phase_is_state_mutating PhCommit = True"
| "phase_is_state_mutating PhFinalize = True"
| "phase_is_state_mutating PhRollback = True"
| "phase_is_state_mutating _ = False"

definition resolve_mapping :: "string option \<Rightarrow> bool \<Rightarrow> error_phase \<Rightarrow> pg_error_mapping" where
  "resolve_mapping sqlstate transport_closed phase =
     (case Option.bind sqlstate mapping_for_sqlstate of
        Some mapping \<Rightarrow>
          if transport_closed \<and> phase_is_state_mutating phase
          then mapping\<lparr>pm_remote_effect := EffUnknown, pm_retry := RequiresRecovery\<rparr>
          else mapping
      | None \<Rightarrow>
          if transport_closed
          then pg_mapping Io Quarantine (if phase_is_state_mutating phase then EffUnknown else EffNone)
                 ''connessione PostgreSQL chiusa''
          else if phase = PhCommit
          then pg_mapping Protocol RequiresRecovery EffUnknown ''risposta al commit PostgreSQL non interpretabile''
          else pg_mapping Protocol Never EffNone ''operazione PostgreSQL fallita'')"

definition public_error_envelope ::
  "error_category \<Rightarrow> error_phase \<Rightarrow> remote_effect \<Rightarrow> retry_disposition \<Rightarrow> string \<Rightarrow> database_error" where
  "public_error_envelope category phase effect retry message =
     \<lparr>e_category = category, e_phase = phase, e_remote_effect = effect, e_retry = retry,
      e_provider = Some Postgres, e_execution_id = None, e_message = message, e_diagnostics = None\<rparr>"

definition public_error :: "error_category \<Rightarrow> error_phase \<Rightarrow> bool \<Rightarrow> string \<Rightarrow> database_error" where
  "public_error category phase retryable message =
     public_error_envelope category phase EffNone (if retryable then Safe else Never) message"

definition mapped_error :: "pg_error_mapping \<Rightarrow> error_phase \<Rightarrow> database_error" where
  "mapped_error m phase = public_error_envelope (pm_category m) phase (pm_remote_effect m) (pm_retry m) (pm_message m)"

definition mixed_srid_message :: "string \<Rightarrow> bool" where
  "mixed_srid_message message \<longleftrightarrow> contains_sub message ''Operation on mixed SRID geometries''"

definition column_srid_message :: "string \<Rightarrow> bool" where
  "column_srid_message message \<longleftrightarrow> contains_sub message ''does not match column SRID''"

definition mixed_srid_error :: "error_phase \<Rightarrow> database_error" where
  "mixed_srid_error phase =
     public_error_envelope Crs phase (if phase_is_state_mutating phase then EffRolledBack else EffNone) Never
       ''geometrie PostGIS in sistemi di riferimento diversi''"

definition classify_error :: "error_phase \<Rightarrow> driver_error \<Rightarrow> database_error" where
  "classify_error phase e =
     (if de_sqlstate e = Some ''XX000'' \<and> (case de_message e of None \<Rightarrow> False | Some m \<Rightarrow> mixed_srid_message m)
      then mixed_srid_error phase
      else if de_sqlstate e = Some ''22023'' \<and> (case de_message e of None \<Rightarrow> False | Some m \<Rightarrow> column_srid_message m)
      then mixed_srid_error phase
      else mapped_error (resolve_mapping (de_sqlstate e) (de_closed e) phase) phase)"

definition sqlstate_error :: "string \<Rightarrow> error_phase \<Rightarrow> database_error" where
  "sqlstate_error sqlstate phase =
     (case mapping_for_sqlstate sqlstate of
        None \<Rightarrow> public_error Internal phase False ''SQLSTATE PostgreSQL senza voce nella tabella del provider''
      | Some m \<Rightarrow> mapped_error m phase)"

definition row_decode_error :: database_error where
  "row_decode_error = public_error DataMapping PhRead False ''valore PostgreSQL non convertibile nel tipo Arrow''"

definition check_cancelled :: "cancellation_reason option \<Rightarrow> error_phase \<Rightarrow> unit result" where
  "check_cancelled reason phase =
     (if reason = None then Inr ()
      else
        let category = interruption_category reason
        in Inl (public_error category phase False
             (if category = Timeout then ''durata massima operazione PostgreSQL esaurita'' else ''operazione cancellata'')))"

section \<open>The answer to a commit\<close>

definition COMMIT_ROLLBACK_SQLSTATES :: "string list" where
  "COMMIT_ROLLBACK_SQLSTATES =
     [''40001'', ''40002'', ''40P01'', ''23502'', ''23503'', ''23505'', ''23514'', ''23P01'']"

definition proves_rollback :: "string option \<Rightarrow> bool" where
  "proves_rollback sqlstate \<longleftrightarrow> (case sqlstate of None \<Rightarrow> False | Some s \<Rightarrow> s \<in> set COMMIT_ROLLBACK_SQLSTATES)"

definition commit_failure :: "string option \<Rightarrow> bool \<Rightarrow> commit_outcome result" where
  "commit_failure sqlstate transport_closed =
     commit_failure_outcome (mapped_error (resolve_mapping sqlstate transport_closed PhCommit) PhCommit)
       (proves_rollback sqlstate)"

definition commit_rejection_proves_rollback :: "driver_error \<Rightarrow> bool" where
  "commit_rejection_proves_rollback e \<longleftrightarrow> proves_rollback (de_sqlstate e)"

definition proven_commit_rollback :: "driver_error \<Rightarrow> database_error option" where
  "proven_commit_rollback e =
     (if commit_rejection_proves_rollback e then Some (after_commit_sent (classify_error PhCommit e) True) else None)"

section \<open>The axes\<close>

lemma mapping_of_code:
  "mapping_for_sqlstate sqlstate = Some m \<Longrightarrow> \<exists>codes. (codes, m) \<in> set SQLSTATE_TABLE \<and> sqlstate \<in> set codes"
  by (auto simp: mapping_for_sqlstate_def find_Some_iff) (metis nth_mem)

lemma table_automatic_retry:
  "\<forall>(codes, m) \<in> set SQLSTATE_TABLE.
     pm_remote_effect m = EffUnknown \<and> (pm_retry m = Safe \<or> (\<exists>ms. pm_retry m = After ms)) \<longrightarrow> codes = [''53200'']"
  by (simp add: SQLSTATE_TABLE_def pg_mapping_def)

lemma table_never_committed:
  "\<forall>(codes, m) \<in> set SQLSTATE_TABLE. pm_remote_effect m \<in> {EffNone, EffRolledBack, EffUnknown}"
  by (simp add: SQLSTATE_TABLE_def pg_mapping_def)

lemma out_of_memory: "mapping_for_sqlstate ''53200'' = Some (pg_mapping ResourceLimit Safe EffUnknown ''memoria PostgreSQL esaurita'')"
  by (simp add: mapping_for_sqlstate_def SQLSTATE_TABLE_def)

lemma resolve_closed:
  "phase_is_state_mutating phase \<Longrightarrow>
     pm_remote_effect (resolve_mapping sqlstate True phase) = EffUnknown
     \<and> pm_retry (resolve_mapping sqlstate True phase) \<in> {RequiresRecovery, Quarantine}"
  by (simp add: resolve_mapping_def pg_mapping_def split: option.split)

lemma resolve_automatic_retry:
  assumes "pm_remote_effect (resolve_mapping sqlstate closed phase) = EffUnknown"
    and "pm_retry (resolve_mapping sqlstate closed phase) = Safe \<or> (\<exists>ms. pm_retry (resolve_mapping sqlstate closed phase) = After ms)"
  shows "sqlstate = Some ''53200'' \<and> \<not> (closed \<and> phase_is_state_mutating phase)"
proof (cases "Option.bind sqlstate mapping_for_sqlstate")
  case None
  with assms show ?thesis by (auto simp: resolve_mapping_def pg_mapping_def split: if_splits)
next
  case (Some m)
  then obtain s where s: "sqlstate = Some s" "mapping_for_sqlstate s = Some m" by (cases sqlstate) auto
  from mapping_of_code [OF s(2)] obtain codes where codes: "(codes, m) \<in> set SQLSTATE_TABLE" "s \<in> set codes" by blast
  have "\<not> (closed \<and> phase_is_state_mutating phase)"
    and "pm_remote_effect m = EffUnknown" "pm_retry m = Safe \<or> (\<exists>ms. pm_retry m = After ms)"
    using assms Some by (auto simp: resolve_mapping_def split: if_splits)
  moreover from this codes(1) have "codes = [''53200'']" using table_automatic_retry by fastforce
  ultimately show ?thesis using s(1) codes(2) by simp
qed

text \<open>C10: the axes of a PostgreSQL error.  Every classified error names the provider and the phase and never claims a
  committed or partial effect.  A connection lost in a phase that changes state is an unknown effect that a human or
  a recovery must settle, unless the server itself refused the SRID of a geometry.  An error that asks for an
  automatic retry proves that it left no unknown effect, with one exception in the table: out of memory, SQLSTATE
  53200, is published as unknown and safe to retry.\<close>

theorem pg_error_axes:
  "(let d = classify_error phase e in
      e_provider d = Some Postgres \<and> e_phase d = phase
      \<and> e_remote_effect d \<in> {EffNone, EffRolledBack, EffUnknown}
      \<and> (de_closed e \<and> phase_is_state_mutating phase \<and> de_message e = None \<longrightarrow>
           e_remote_effect d = EffUnknown \<and> e_retry d \<in> {RequiresRecovery, Quarantine})
      \<and> (e_remote_effect d = EffUnknown \<and> is_retryable d \<longrightarrow> de_sqlstate e = Some ''53200''))
   \<and> e_remote_effect (classify_error PhWrite \<lparr>de_sqlstate = Some ''53200'', de_closed = False, de_message = None\<rparr>) = EffUnknown
   \<and> e_retry (classify_error PhWrite \<lparr>de_sqlstate = Some ''53200'', de_closed = False, de_message = None\<rparr>) = Safe"
proof -
  have envelope: "e_provider (mapped_error m phase) = Some Postgres" "e_phase (mapped_error m phase) = phase"
    "e_remote_effect (mapped_error m phase) = pm_remote_effect m" "e_retry (mapped_error m phase) = pm_retry m" for m phase
    by (simp_all add: mapped_error_def public_error_envelope_def)
  have entry: "pm_remote_effect m \<in> {EffNone, EffRolledBack, EffUnknown}" if "mapping_for_sqlstate s = Some m" for s m
    using table_never_committed mapping_of_code [OF that] by blast
  have effects: "pm_remote_effect (resolve_mapping sqlstate closed phase) \<in> {EffNone, EffRolledBack, EffUnknown}"
    for sqlstate closed
  proof (cases "Option.bind sqlstate mapping_for_sqlstate")
    case None
    then show ?thesis by (simp add: resolve_mapping_def pg_mapping_def)
  next
    case (Some m)
    then obtain s where "mapping_for_sqlstate s = Some m" by (cases sqlstate) auto
    from entry [OF this] Some show ?thesis by (auto simp: resolve_mapping_def)
  qed
  have retry: "sqlstate = Some ''53200''"
    if "pm_remote_effect (resolve_mapping sqlstate closed phase) = EffUnknown"
      "case pm_retry (resolve_mapping sqlstate closed phase) of Safe \<Rightarrow> True | After _ \<Rightarrow> True | _ \<Rightarrow> False" for sqlstate closed
    using resolve_automatic_retry [OF that(1)] that(2) by (auto split: retry_disposition.splits)
  have "let d = classify_error phase e in
      e_provider d = Some Postgres \<and> e_phase d = phase
      \<and> e_remote_effect d \<in> {EffNone, EffRolledBack, EffUnknown}
      \<and> (de_closed e \<and> phase_is_state_mutating phase \<and> de_message e = None \<longrightarrow>
           e_remote_effect d = EffUnknown \<and> e_retry d \<in> {RequiresRecovery, Quarantine})
      \<and> (e_remote_effect d = EffUnknown \<and> is_retryable d \<longrightarrow> de_sqlstate e = Some ''53200'')"
  proof (cases "classify_error phase e = mixed_srid_error phase")
    case True
    then have "de_message e = None \<longrightarrow> classify_error phase e = mapped_error (resolve_mapping (de_sqlstate e) (de_closed e) phase) phase"
      by (simp add: classify_error_def)
    with True show ?thesis using resolve_closed [of phase "de_sqlstate e"]
      by (auto simp: Let_def envelope mixed_srid_error_def public_error_envelope_def is_retryable_def mapped_error_def)
  next
    case False
    then have "classify_error phase e = mapped_error (resolve_mapping (de_sqlstate e) (de_closed e) phase) phase"
      by (auto simp: classify_error_def split: if_splits)
    then show ?thesis using effects [of "de_sqlstate e" "de_closed e"] resolve_closed [of phase "de_sqlstate e"] retry
      by (auto simp: Let_def envelope is_retryable_def)
  qed
  moreover have "resolve_mapping (Some ''53200'') False PhWrite = pg_mapping ResourceLimit Safe EffUnknown ''memoria PostgreSQL esaurita''"
    by (simp add: resolve_mapping_def out_of_memory)
  ultimately show ?thesis by (simp add: classify_error_def envelope pg_mapping_def)
qed

theorem pg_error_axes_witness:
  "e_remote_effect (classify_error PhWrite \<lparr>de_sqlstate = None, de_closed = True, de_message = None\<rparr>) = EffUnknown"
  using pg_error_axes [of PhWrite "\<lparr>de_sqlstate = None, de_closed = True, de_message = None\<rparr>"] by (simp add: Let_def)

lemma commit_list_is_not_srid:
  "commit_rejection_proves_rollback e \<Longrightarrow>
     classify_error PhCommit e = mapped_error (resolve_mapping (de_sqlstate e) (de_closed e) PhCommit) PhCommit"
  by (auto simp: commit_rejection_proves_rollback_def proves_rollback_def COMMIT_ROLLBACK_SQLSTATES_def
      classify_error_def split: option.splits)

text \<open>The retry the table gives to the codes that prove a rollback; \<open>40002\<close> has no entry and takes the fallback.\<close>

definition commit_list_retry :: "string \<Rightarrow> retry_disposition option" where
  "commit_list_retry code =
     (if code \<in> {''40001'', ''40P01''} then Some Safe else if code = ''40002'' then None else Some Never)"

lemma commit_list_mappings:
  "list_all (\<lambda>code. map_option pm_retry (mapping_for_sqlstate code) = commit_list_retry code) COMMIT_ROLLBACK_SQLSTATES"
  by (simp add: COMMIT_ROLLBACK_SQLSTATES_def mapping_for_sqlstate_def SQLSTATE_TABLE_def pg_mapping_def
      commit_list_retry_def)

lemma commit_list_retryable:
  assumes "code \<in> set COMMIT_ROLLBACK_SQLSTATES"
  shows "pm_retry (resolve_mapping (Some code) closed PhCommit) = Safe \<longleftrightarrow> \<not> closed \<and> code \<in> {''40001'', ''40P01''}"
    and "pm_retry (resolve_mapping (Some code) closed PhCommit) \<noteq> After ms"
proof -
  have "map_option pm_retry (mapping_for_sqlstate code) = commit_list_retry code"
    using commit_list_mappings assms by (simp only: list_all_iff)
  then have "commit_list_retry code = map_option pm_retry (mapping_for_sqlstate code)" by simp
  then have "pm_retry (resolve_mapping (Some code) closed PhCommit)
      = (case commit_list_retry code of
           None \<Rightarrow> if closed then Quarantine else RequiresRecovery
         | Some retry \<Rightarrow> if closed then RequiresRecovery else retry)"
    by (cases "mapping_for_sqlstate code") (auto simp: resolve_mapping_def pg_mapping_def)
  then show "pm_retry (resolve_mapping (Some code) closed PhCommit) = Safe \<longleftrightarrow> \<not> closed \<and> code \<in> {''40001'', ''40P01''}"
    and "pm_retry (resolve_mapping (Some code) closed PhCommit) \<noteq> After ms"
    by (simp_all add: commit_list_retry_def)
qed

text \<open>C9: the answer to a \<open>COMMIT\<close> that was sent.  The SQLSTATE alone decides it, whether the connection is still open
  or not: it is a rolled back transaction exactly for the eight codes of the closed list, and then the
  transaction API and the two write paths publish the same error, at the commit, with the effect rolled back;
  that error asks for an automatic retry only for a serialization failure or a deadlock on a connection still
  open.  Every other answer, one without a code included, is an unknown outcome that carries its cause, asks for
  a verification out of band and allows no automatic retry.\<close>

theorem pg_commit_failure_exact:
  "(\<forall>d. commit_failure (de_sqlstate e) (de_closed e) = Inl d \<longleftrightarrow> proven_commit_rollback e = Some d)
   \<and> (is_ok (commit_failure (de_sqlstate e) (de_closed e)) \<longleftrightarrow>
        de_sqlstate e \<notin> Some ` {''40001'', ''40002'', ''40P01'', ''23502'', ''23503'', ''23505'', ''23514'', ''23P01''})
   \<and> (\<forall>d. commit_failure (de_sqlstate e) (de_closed e) = Inl d \<longrightarrow>
        e_phase d = PhCommit \<and> e_remote_effect d = EffRolledBack \<and> e_provider d = Some Postgres
        \<and> (is_retryable d \<longleftrightarrow> \<not> de_closed e \<and> de_sqlstate e \<in> {Some ''40001'', Some ''40P01''}))
   \<and> (\<forall>o1. commit_failure (de_sqlstate e) (de_closed e) = Inr o1 \<longrightarrow>
        (\<exists>r. o1 = CommitUnknown r \<and> \<not> re_automatic_retry_allowed r \<and> re_verification_action r \<noteq> None
             \<and> re_last_certain_phase r = CommitRequested
             \<and> unknown_category o1 = Some (pm_category (resolve_mapping (de_sqlstate e) (de_closed e) PhCommit))))"
proof (cases "commit_rejection_proves_rollback e")
  case True
  let ?d = "after_commit_sent (mapped_error (resolve_mapping (de_sqlstate e) (de_closed e) PhCommit) PhCommit) True"
  obtain code where code: "de_sqlstate e = Some code" "code \<in> set COMMIT_ROLLBACK_SQLSTATES"
    using True by (auto simp: commit_rejection_proves_rollback_def proves_rollback_def split: option.splits)
  have "commit_failure (de_sqlstate e) (de_closed e) = Inl ?d"
    using code by (simp add: commit_failure_def commit_failure_outcome_def proves_rollback_def after_commit_sent_def)
  moreover have "proven_commit_rollback e = Some ?d"
    using True by (simp add: proven_commit_rollback_def commit_list_is_not_srid)
  moreover have "de_sqlstate e \<in> Some ` {''40001'', ''40002'', ''40P01'', ''23502'', ''23503'', ''23505'', ''23514'', ''23P01''}"
    using code by (simp add: COMMIT_ROLLBACK_SQLSTATES_def)
  moreover have "is_retryable ?d \<longleftrightarrow> \<not> de_closed e \<and> de_sqlstate e \<in> {Some ''40001'', Some ''40P01''}"
    using commit_list_retryable [OF code(2), of "de_closed e"] code(1)
    by (auto simp: is_retryable_def after_commit_sent_def mapped_error_def public_error_envelope_def
        split: retry_disposition.splits)
  ultimately show ?thesis
    by (simp add: after_commit_sent_def mapped_error_def public_error_envelope_def)
next
  case False
  then have "\<not> proves_rollback (de_sqlstate e)" and "proven_commit_rollback e = None"
    by (simp_all add: commit_rejection_proves_rollback_def proven_commit_rollback_def)
  moreover have "de_sqlstate e \<notin> Some ` {''40001'', ''40002'', ''40P01'', ''23502'', ''23503'', ''23505'', ''23514'', ''23P01''}"
    using False by (auto simp: commit_rejection_proves_rollback_def proves_rollback_def COMMIT_ROLLBACK_SQLSTATES_def)
  ultimately show ?thesis
    by (simp add: commit_failure_def commit_failure_outcome_def after_commit_sent_def Let_def mapped_error_def
        public_error_envelope_def outcome_unknown_recovery_for_def outcome_unknown_recovery_def unknown_category_def)
qed

text \<open>A serialization failure, a deferred constraint reported on a closed connection, and a lost connection.\<close>

theorem pg_commit_failure_exact_witness:
  "(\<exists>d. commit_failure (Some ''40001'') False = Inl d \<and> e_remote_effect d = EffRolledBack \<and> is_retryable d)
   \<and> (\<exists>d. commit_failure (Some ''23505'') True = Inl d \<and> e_remote_effect d = EffRolledBack \<and> \<not> is_retryable d)
   \<and> is_ok (commit_failure (Some ''08006'') True)"
proof (intro conjI)
  have split: "\<exists>d. r = Inl d" if "\<not> is_ok r" for r :: "commit_outcome result"
    using that by (cases r) auto
  show "\<exists>d. commit_failure (Some ''40001'') False = Inl d \<and> e_remote_effect d = EffRolledBack \<and> is_retryable d"
    using pg_commit_failure_exact [of "\<lparr>de_sqlstate = Some ''40001'', de_closed = False, de_message = None\<rparr>"]
      split [of "commit_failure (Some ''40001'') False"] by auto
  show "\<exists>d. commit_failure (Some ''23505'') True = Inl d \<and> e_remote_effect d = EffRolledBack \<and> \<not> is_retryable d"
    using pg_commit_failure_exact [of "\<lparr>de_sqlstate = Some ''23505'', de_closed = True, de_message = None\<rparr>"]
      split [of "commit_failure (Some ''23505'') True"] by auto
  show "is_ok (commit_failure (Some ''08006'') True)"
    using pg_commit_failure_exact [of "\<lparr>de_sqlstate = Some ''08006'', de_closed = True, de_message = None\<rparr>"] by simp
qed

end
