(* ===== verification/Pg_Transaction.thy ===== *)
theory Pg_Transaction
  imports Caller_Sql Pg_Errors
begin

text \<open>
  The PostgreSQL adapter of a transaction: \<open>plenora-db-postgres/src/transaction/mod.rs\<close>, \<open>sql.rs\<close> and \<open>stream.rs\<close>,
  and the pooled client of \<open>pool.rs\<close>.  The driver \<open>tokio_postgres\<close> with its server and the token is the record
  \<open>pg_client\<close> over a world \<open>'d\<close>; the codecs of parameters and rows and what the graph surface asks of \<open>age.rs\<close>
  are the records \<open>pg_codec\<close> and \<open>pg_graph\<close>.
\<close>

section \<open>Text\<close>

definition isolation_name :: "isolation_level \<Rightarrow> string" where
  "isolation_name level =
     (case level of ReadUncommitted \<Rightarrow> ''read uncommitted'' | ReadCommitted \<Rightarrow> ''read committed''
        | RepeatableRead \<Rightarrow> ''repeatable read'' | Serializable \<Rightarrow> ''serializable'')"

definition isolation_sql :: "isolation_level \<Rightarrow> string" where
  "isolation_sql level =
     (case level of ReadUncommitted \<Rightarrow> ''ISOLATION LEVEL READ UNCOMMITTED''
        | ReadCommitted \<Rightarrow> ''ISOLATION LEVEL READ COMMITTED''
        | RepeatableRead \<Rightarrow> ''ISOLATION LEVEL REPEATABLE READ''
        | Serializable \<Rightarrow> ''ISOLATION LEVEL SERIALIZABLE'')"

fun join_words :: "string list \<Rightarrow> string" where
  "join_words [] = []"
| "join_words [w] = w"
| "join_words (w # v # ws) = w @ '' '' @ join_words (v # ws)"

definition build_begin_sql :: "transaction_options \<Rightarrow> string" where
  "build_begin_sql options =
     join_words (''BEGIN''
       # (case to_isolation options of None \<Rightarrow> [] | Some level \<Rightarrow> [isolation_sql level])
       @ (case to_access_mode options of None \<Rightarrow> []
            | Some mode \<Rightarrow> [case mode of ReadWrite \<Rightarrow> ''READ WRITE'' | AmReadOnly \<Rightarrow> ''READ ONLY''])
       @ (case to_deferrable options of None \<Rightarrow> [] | Some d \<Rightarrow> [if d then ''DEFERRABLE'' else ''NOT DEFERRABLE'']))
     @ '';''
     @ (case to_statement_timeout_ms options of
          None \<Rightarrow> []
        | Some ms \<Rightarrow> '' SET LOCAL statement_timeout = '' @ show_nat (unat ms) @ '';'')"

definition pg_quote_identifier :: "string \<Rightarrow> string" where
  "pg_quote_identifier name =
     [CHR 0x22] @ concat (map (\<lambda>c. if c = CHR 0x22 then [CHR 0x22, CHR 0x22] else [c]) name) @ [CHR 0x22]"

definition phase_of :: "string \<Rightarrow> error_phase" where
  "phase_of sql =
     (let head = map ascii_upper (takeWhile is_ascii_alphabetic (trim_start sql))
      in if head \<in> {''SELECT'', ''WITH'', ''SHOW'', ''TABLE'', ''VALUES'', ''EXPLAIN''} then PhRead else PhWrite)"

section \<open>The driver\<close>

text \<open>The race of a driver call with the token: the token may win before the call is polled or after it.\<close>

datatype 'a race = NotPolled | TokenWon | Answer 'a

record ('d, 'k, 'p, 'enc, 'row) pg_client =
  pc_reason :: "'k \<Rightarrow> 'd \<Rightarrow> cancellation_reason option"
  pc_prepare :: "string \<Rightarrow> 'k \<Rightarrow> 'd \<Rightarrow> (driver_error + 'p) race \<times> 'd"
  pc_execute :: "'p \<Rightarrow> 'enc \<Rightarrow> 'k \<Rightarrow> 'd \<Rightarrow> (driver_error + u64) race \<times> 'd"
  pc_query :: "'p \<Rightarrow> 'enc \<Rightarrow> 'k \<Rightarrow> 'd \<Rightarrow> (driver_error + 'row list) race \<times> 'd"
  pc_query_text :: "string \<Rightarrow> 'enc option \<Rightarrow> 'k \<Rightarrow> 'd \<Rightarrow> (driver_error + 'row list) race \<times> 'd"
  pc_batch :: "string \<Rightarrow> 'k \<Rightarrow> 'd \<Rightarrow> (driver_error + unit) race \<times> 'd"
  pc_batch_await :: "string \<Rightarrow> 'd \<Rightarrow> (driver_error + unit) \<times> 'd"
  pc_isolation :: "'d \<Rightarrow> (driver_error + string) \<times> 'd"
  pc_set_config :: "string \<Rightarrow> string \<Rightarrow> 'd \<Rightarrow> (driver_error + unit) \<times> 'd"
  pc_search_path :: "'d \<Rightarrow> (driver_error + string) \<times> 'd"

record ('json, 'p, 'enc, 'row) pg_codec =
  px_encode :: "'json parameter_value list \<Rightarrow> 'enc result"
  px_targets :: "'json parameter_value list \<Rightarrow> 'p \<Rightarrow> unit result"
  px_decode :: "'row list \<Rightarrow> 'json row list result"

record ('d, 'json, 'enc, 'row, 'g) pg_graph =
  pg_probe :: "'d \<Rightarrow> age_capabilities result \<times> 'd"
  pg_to_json :: "(string \<times> 'json) list \<Rightarrow> string option"
  pg_build :: "'json graph_statement \<Rightarrow> string result"
  pg_parameter :: "string \<Rightarrow> 'enc"
  pg_rows :: "'json graph_statement \<Rightarrow> 'row list \<Rightarrow> 'g list result"

section \<open>The state\<close>

record pooled_client =
  pcl_present :: bool
  pcl_reusable :: bool

definition invalidate :: "pooled_client \<Rightarrow> pooled_client" where
  "invalidate c = c\<lparr>pcl_reusable := False\<rparr>"

text \<open>\<open>PooledClient::drop\<close>: whether the connection goes back to the idle ones; \<open>closed\<close> is what the driver says.\<close>

definition pooled_drop :: "nat \<Rightarrow> nat \<Rightarrow> bool \<Rightarrow> pooled_client \<Rightarrow> bool" where
  "pooled_drop idle max_idle closed c \<longleftrightarrow> pcl_present c \<and> \<not> (\<not> pcl_reusable c \<or> closed) \<and> idle < max_idle"

text \<open>At most one stream borrows the transaction: its flag is kept with the transaction.\<close>

record pg_transaction =
  pt_sent :: send_marker
  pt_client :: pooled_client
  pt_open :: bool
  pt_cursor_counter :: u32
  pt_policy :: native_query_policy
  pt_exhausted :: bool

type_synonym ('d, 'a) pg_call = "(pg_transaction \<times> 'd, 'a) scope_call"

definition pg_drop :: "pg_transaction \<Rightarrow> pooled_client" where
  "pg_drop t = (if pt_open t then invalidate (pt_client t) else pt_client t)"

definition quarantined :: "pg_transaction \<Rightarrow> pg_transaction" where
  "quarantined t = t\<lparr>pt_client := invalidate (pt_client t), pt_open := False\<rparr>"

section \<open>Steps\<close>

definition call_bind :: "('s, 'a) scope_call \<Rightarrow> ('a \<Rightarrow> ('s, 'b) scope_call) \<Rightarrow> ('s, 'b) scope_call" where
  "call_bind m f s st =
     (case m s st of (r, s', st') \<Rightarrow> case r of Inl e \<Rightarrow> (Inl e, s', st') | Inr x \<Rightarrow> f x s' st')"

definition call_lift :: "'a result \<Rightarrow> ('s, 'a) scope_call" where
  "call_lift r s st = (r, s, st)"

definition ensure_open :: "error_phase \<Rightarrow> ('d, unit) pg_call" where
  "ensure_open phase = (\<lambda>(t, d) st.
     (if pt_open t then Inr ()
      else Inl (public_error InvalidPlan phase False
             (''transazione gi'' @ [CHR 0xC3, CHR 0xA0] @ '' chiusa (commit/rollback/cancel): apri una nuova tx'')), (t, d), st))"

definition enforce :: "string \<Rightarrow> ('d, unit) pg_call" where
  "enforce sql = (\<lambda>(t, d) st. (enforce_policy (pt_policy t) sql, (t, d), st))"

definition refuse_cancelled :: "('d, 'k, 'p, 'enc, 'row) pg_client \<Rightarrow> 'k \<Rightarrow> error_phase \<Rightarrow> ('d, unit) pg_call" where
  "refuse_cancelled c k phase = (\<lambda>(t, d) st. (check_cancelled (pc_reason c k d) phase, (t, d), st))"

definition pg_client_of :: "('d, unit) pg_call" where
  "pg_client_of = (\<lambda>(t, d) st.
     (if pcl_present (pt_client t) then Inr ()
      else Inl (public_error Internal PhConnect False ''client PostgreSQL del pool non disponibile''), (t, d), st))"

definition interruption_error :: "cancellation_reason option \<Rightarrow> error_phase \<Rightarrow> string \<Rightarrow> database_error" where
  "interruption_error reason phase message =
     after_interrupted_send
       \<lparr>e_category = interruption_category reason, e_phase = phase, e_remote_effect = EffNone, e_retry = Never,
        e_provider = Some Postgres, e_execution_id = None, e_message = message, e_diagnostics = None\<rparr>"

text \<open>A raced driver call; \<open>tracked_send\<close> is \<open>self.sent.sending(...)\<close> around it, which marks when it is polled.  When the
  token wins the connection is invalidated and the transaction closed.\<close>

definition pg_race ::
  "('d, 'k, 'p, 'enc, 'row) pg_client \<Rightarrow> bool \<Rightarrow> 'k \<Rightarrow> error_phase \<Rightarrow> string \<Rightarrow> ('k \<Rightarrow> 'd \<Rightarrow> 'a race \<times> 'd) \<Rightarrow> ('d, 'a) pg_call" where
  "pg_race c tracked_send k phase message call = (\<lambda>(t, d) st.
     case call k d of (answer, d') \<Rightarrow>
       let sent = (if tracked_send then mark_sent (pt_sent t) st else st);
           lost = Inl (interruption_error (pc_reason c k d') phase message)
       in case answer of
            NotPolled \<Rightarrow> (lost, (quarantined t, d'), st)
          | TokenWon \<Rightarrow> (lost, (quarantined t, d'), sent)
          | Answer x \<Rightarrow> (Inr x, (t, d'), sent))"

text \<open>The answer of the driver: \<open>closes\<close> says whether the method looks at a closed connection.\<close>

definition pg_answer :: "bool \<Rightarrow> error_phase \<Rightarrow> driver_error + 'a \<Rightarrow> ('d, 'a) pg_call" where
  "pg_answer closes phase answer = (\<lambda>(t, d) st.
     case answer of
       Inr x \<Rightarrow> (Inr x, (t, d), st)
     | Inl e \<Rightarrow> (Inl (classify_error phase e), (if closes \<and> de_closed e then quarantined t else t, d), st))"

definition prepare_bind ::
  "('d, 'k, 'p, 'enc, 'row) pg_client \<Rightarrow> ('json, 'p, 'enc, 'row) pg_codec \<Rightarrow> string \<Rightarrow> 'json parameter_value list \<Rightarrow> 'k
     \<Rightarrow> error_phase \<Rightarrow> ('d, 'p) pg_call" where
  "prepare_bind c px sql params k phase =
     call_bind pg_client_of (\<lambda>_.
     call_bind (pg_race c True k phase ''preparazione PostgreSQL cancellata'' (pc_prepare c sql)) (\<lambda>answer.
     call_bind (pg_answer False phase answer) (\<lambda>prepared.
     call_bind (call_lift (px_targets px params prepared)) (\<lambda>_.
     call_lift (Inr prepared)))))"

section \<open>The methods\<close>

definition pg_begin_caller_sql :: "pg_transaction \<times> 'd \<Rightarrow> marker_store \<Rightarrow> send_marker \<times> (pg_transaction \<times> 'd) \<times> marker_store" where
  "pg_begin_caller_sql = (\<lambda>(t, d) st. case before_send st of (m, st') \<Rightarrow> (m, (t\<lparr>pt_sent := m\<rparr>, d), st'))"

definition pg_execute ::
  "('d, 'k, 'p, 'enc, 'row) pg_client \<Rightarrow> ('json, 'p, 'enc, 'row) pg_codec \<Rightarrow> 'json statement \<Rightarrow> 'k \<Rightarrow> ('d, u64) pg_call" where
  "pg_execute c px x k =
     (let phase = phase_of (st_sql x)
      in call_bind (ensure_open phase) (\<lambda>_.
         call_bind (enforce (st_sql x)) (\<lambda>_.
         call_bind (refuse_cancelled c k phase) (\<lambda>_.
         call_bind (call_lift (px_encode px (st_params x))) (\<lambda>encoded.
         call_bind (prepare_bind c px (st_sql x) (st_params x) k phase) (\<lambda>prepared.
         call_bind pg_client_of (\<lambda>_.
         call_bind (pg_race c False k phase (''operazione cancellata durante l'' @ [CHR 0x27] @ ''esecuzione'')
             (pc_execute c prepared encoded)) (\<lambda>answer.
         pg_answer True phase answer))))))))"

definition pg_query ::
  "('d, 'k, 'p, 'enc, 'row) pg_client \<Rightarrow> ('json, 'p, 'enc, 'row) pg_codec \<Rightarrow> 'json statement \<Rightarrow> 'k \<Rightarrow> ('d, 'json row list) pg_call" where
  "pg_query c px x k =
     call_bind (ensure_open PhRead) (\<lambda>_.
     call_bind (enforce (st_sql x)) (\<lambda>_.
     call_bind (refuse_cancelled c k PhRead) (\<lambda>_.
     call_bind (call_lift (px_encode px (st_params x))) (\<lambda>encoded.
     call_bind (prepare_bind c px (st_sql x) (st_params x) k PhRead) (\<lambda>prepared.
     call_bind pg_client_of (\<lambda>_.
     call_bind (pg_race c False k PhRead (''operazione cancellata durante l'' @ [CHR 0x27] @ ''esecuzione'')
         (pc_query c prepared encoded)) (\<lambda>answer.
     call_bind (pg_answer False PhRead answer) (\<lambda>rows.
     call_lift (px_decode px rows)))))))))"

text \<open>A control statement on a savepoint.\<close>

definition pg_savepoint_call ::
  "('d, 'k, 'p, 'enc, 'row) pg_client \<Rightarrow> string \<Rightarrow> string \<Rightarrow> error_phase \<Rightarrow> (database_error \<Rightarrow> database_error) \<Rightarrow> string \<Rightarrow> 'k
     \<Rightarrow> ('d, unit) pg_call" where
  "pg_savepoint_call c verb message phase fix_error name k =
     call_bind (ensure_open phase) (\<lambda>_.
     call_bind (refuse_cancelled c k phase) (\<lambda>_.
     call_bind (call_lift (validate_savepoint_name name)) (\<lambda>_.
     call_bind pg_client_of (\<lambda>_.
     call_bind (pg_race c False k phase message (pc_batch c (verb @ pg_quote_identifier name))) (\<lambda>answer.
     call_lift (map_err (\<lambda>e. fix_error (classify_error phase e)) answer))))))"

definition pg_savepoint :: "('d, 'k, 'p, 'enc, 'row) pg_client \<Rightarrow> string \<Rightarrow> 'k \<Rightarrow> ('d, unit) pg_call" where
  "pg_savepoint c = pg_savepoint_call c ''SAVEPOINT ''
     (''SAVEPOINT cancellato durante l'' @ [CHR 0x27] @ ''esecuzione'') PhWrite (\<lambda>e. e)"

definition pg_rollback_to_savepoint :: "('d, 'k, 'p, 'enc, 'row) pg_client \<Rightarrow> string \<Rightarrow> 'k \<Rightarrow> ('d, unit) pg_call" where
  "pg_rollback_to_savepoint c = pg_savepoint_call c ''ROLLBACK TO SAVEPOINT ''
     (''ROLLBACK TO SAVEPOINT cancellato durante l'' @ [CHR 0x27] @ ''esecuzione'') PhRollback after_unconfirmed_rollback"

definition pg_release_savepoint :: "('d, 'k, 'p, 'enc, 'row) pg_client \<Rightarrow> string \<Rightarrow> 'k \<Rightarrow> ('d, unit) pg_call" where
  "pg_release_savepoint c = pg_savepoint_call c ''RELEASE SAVEPOINT ''
     (''RELEASE SAVEPOINT cancellato durante l'' @ [CHR 0x27] @ ''esecuzione'') PhFinalize (\<lambda>e. e)"

text \<open>\<open>execute_graph\<close>: the search path is set around the query and restored after it.\<close>

definition await_driver :: "error_phase \<Rightarrow> ('d \<Rightarrow> (driver_error + 'a) \<times> 'd) \<Rightarrow> ('d, 'a) pg_call" where
  "await_driver phase call = (\<lambda>(t, d) st.
     case call d of (answer, d') \<Rightarrow> (map_err (classify_error phase) answer, (t, d'), st))"

definition await_probe :: "('d \<Rightarrow> 'a result \<times> 'd) \<Rightarrow> ('d, 'a) pg_call" where
  "await_probe call = (\<lambda>(t, d) st. case call d of (r, d') \<Rightarrow> (r, (t, d'), st))"

definition pg_execute_graph ::
  "('d, 'k, 'p, 'enc, 'row) pg_client \<Rightarrow> ('d, 'json, 'enc, 'row, 'g) pg_graph \<Rightarrow> 'json graph_statement \<Rightarrow> 'k \<Rightarrow> ('d, 'g list) pg_call" where
  "pg_execute_graph c gr x k =
     call_bind (ensure_open PhWrite) (\<lambda>_.
     call_bind (refuse_cancelled c k PhWrite) (\<lambda>_.
     call_bind (call_lift (validate_graph_statement (pg_to_json gr) x)) (\<lambda>_.
     call_bind pg_client_of (\<lambda>_.
     call_bind (await_probe (pg_probe gr)) (\<lambda>capabilities.
     if \<not> age_qualified capabilities
     then call_lift (Inl (unsupported Postgres PhPrepare ''Apache AGE 1.7.0 su PostgreSQL 18 non e disponibile o qualificato''))
     else
     call_bind (call_lift (pg_build gr x)) (\<lambda>sql.
     call_bind (call_lift
         (if gs_params x = [] then Inr None
          else and_then (ok_or (pg_to_json gr (gs_params x)) (invalid_plan ''la mappa parametri Cypher non e serializzabile''))
                 (\<lambda>json. Inr (Some (pg_parameter gr json))))) (\<lambda>encoded.
     call_bind (await_driver PhPrepare (pc_search_path c)) (\<lambda>previous.
     call_bind (await_driver PhPrepare (pc_set_config c ''search_path'' (''ag_catalog,'' @ [CHR 0x22] @ ''$user'' @ [CHR 0x22] @ '',public''))) (\<lambda>_.
     call_bind (pg_race c True k PhWrite (''operazione graph cancellata durante l'' @ [CHR 0x27] @ ''esecuzione'')
         (pc_query_text c sql encoded)) (\<lambda>answer.
     call_bind (pg_answer True PhWrite answer) (\<lambda>rows.
     call_bind (await_driver PhWrite (pc_set_config c ''search_path'' previous)) (\<lambda>_.
     if length rows > gs_max_rows x
     then call_lift (Inl (resource_limit ''il risultato Cypher supera il limite righe dichiarato''))
     else call_lift (pg_rows gr x rows)))))))))))))"

definition cursor_name :: "u32 \<Rightarrow> string" where
  "cursor_name n = ''_plenora_stream_'' @ show_nat (unat n)"

definition pg_next_batch ::
  "('d, 'k, 'p, 'enc, 'row) pg_client \<Rightarrow> ('json, 'p, 'enc, 'row) pg_codec \<Rightarrow> string \<Rightarrow> u32 \<Rightarrow> 'k
     \<Rightarrow> ('d, 'json row list option) pg_call" where
  "pg_next_batch c px cursor batch_size k = (\<lambda>(t, d) st.
     if pt_exhausted t then (Inr None, (t, d), st)
     else case check_cancelled (pc_reason c k d) PhRead of
         Inl e \<Rightarrow> (Inl e, (t, d), st)
       | Inr _ \<Rightarrow>
           (case pc_query_text c (''FETCH FORWARD '' @ show_nat (unat batch_size) @ '' FROM '' @ cursor) None k d of (answer, d') \<Rightarrow>
              case answer of
                Answer (Inl e) \<Rightarrow> (Inl (classify_error PhRead e), (t, d'), st)
              | Answer (Inr rows) \<Rightarrow>
                  (case px_decode px rows of
                     Inl e \<Rightarrow> (Inl e, (t, d'), st)
                   | Inr out \<Rightarrow>
                       (Inr (if out = [] then None else Some out),
                        (if min (length rows) (2 ^ 32 - 1) < unat batch_size then t\<lparr>pt_exhausted := True\<rparr> else t, d'), st))
              | _ \<Rightarrow>
                  (Inl (public_error (interruption_category (pc_reason c k d')) PhRead False
                     (''FETCH FORWARD interrotto durante l'' @ [CHR 0x27] @ ''esecuzione'')),
                   (t\<lparr>pt_exhausted := True\<rparr>, d'), st)))"

definition next_cursor :: "('d, string) pg_call" where
  "next_cursor = (\<lambda>(t, d) st.
     let n = pt_cursor_counter t + 1 in (Inr (cursor_name n), (t\<lparr>pt_cursor_counter := n\<rparr>, d), st))"

definition open_stream :: "('d, unit) pg_call" where
  "open_stream = (\<lambda>(t, d) st. (Inr (), (t\<lparr>pt_exhausted := False\<rparr>, d), st))"

definition pg_query_stream ::
  "('d, 'k, 'p, 'enc, 'row) pg_client \<Rightarrow> ('json, 'p, 'enc, 'row) pg_codec \<Rightarrow> 'json statement \<Rightarrow> u32 \<Rightarrow> 'k
     \<Rightarrow> ('d, (pg_transaction \<times> 'd, 'k, 'json) row_stream) pg_call" where
  "pg_query_stream c px x batch_size k =
     call_bind (ensure_open PhRead) (\<lambda>_.
     call_bind (enforce (st_sql x)) (\<lambda>_.
     call_bind (refuse_cancelled c k PhRead) (\<lambda>_.
     if batch_size = 0
     then call_lift (Inl (public_error InvalidPlan PhPrepare False ''batch_size del cursor deve essere > 0''))
     else
     call_bind next_cursor (\<lambda>cursor.
     call_bind (call_lift (px_encode px (st_params x))) (\<lambda>encoded.
     call_bind (prepare_bind c px (''DECLARE '' @ cursor @ '' NO SCROLL CURSOR FOR '' @ st_sql x) (st_params x) k PhRead) (\<lambda>prepared.
     call_bind pg_client_of (\<lambda>_.
     call_bind (pg_race c False k PhPrepare (''DECLARE CURSOR cancellato durante l'' @ [CHR 0x27] @ ''esecuzione'')
         (pc_execute c prepared encoded)) (\<lambda>answer.
     call_bind (pg_answer False PhPrepare answer) (\<lambda>_.
     call_bind pg_client_of (\<lambda>_.
     call_bind open_stream (\<lambda>_.
     call_lift (Inr \<lparr>rs_next_batch = pg_next_batch c px cursor batch_size\<rparr>))))))))))))"

definition pg_conditional_update ::
  "('d, 'k, 'p, 'enc, 'row) pg_client \<Rightarrow> ('json, 'p, 'enc, 'row) pg_codec \<Rightarrow> 'json conditional_update \<Rightarrow> 'k \<Rightarrow> ('d, unit) pg_call" where
  "pg_conditional_update c px x k =
     (let update = cu_update x; phase = phase_of (st_sql update);
          conflict = call_lift (Inl (concurrent_modification_error
            (''versione attesa non allineata: la riga '' @ [CHR 0xC3, CHR 0xA8] @ '' stata modificata concorrentemente'')))
      in call_bind (ensure_open phase) (\<lambda>_.
         call_bind (enforce (st_sql update)) (\<lambda>_.
         call_bind (case cu_key_probe x of None \<Rightarrow> call_lift (Inr ()) | Some probe \<Rightarrow> enforce (st_sql probe)) (\<lambda>_.
         call_bind (refuse_cancelled c k phase) (\<lambda>_.
         call_bind (call_lift (px_encode px (st_params update))) (\<lambda>encoded.
         call_bind (prepare_bind c px (st_sql update) (st_params update) k PhWrite) (\<lambda>prepared.
         call_bind pg_client_of (\<lambda>_.
         call_bind (pg_race c False k phase (''UPDATE condizionale cancellato durante l'' @ [CHR 0x27] @ ''esecuzione'')
             (pc_execute c prepared encoded)) (\<lambda>answer.
         call_bind (pg_answer True phase answer) (\<lambda>affected.
         if affected = cu_expected_affected_rows x then call_lift (Inr ())
         else case cu_key_probe x of
             None \<Rightarrow> conflict
           | Some probe \<Rightarrow>
               call_bind (refuse_cancelled c k PhRead) (\<lambda>_.
               call_bind (call_lift (px_encode px (st_params probe))) (\<lambda>encoded.
               call_bind (prepare_bind c px (st_sql probe) (st_params probe) k PhRead) (\<lambda>prepared.
               call_bind pg_client_of (\<lambda>_.
               call_bind (pg_race c False k PhRead (''key probe cancellato durante l'' @ [CHR 0x27] @ ''esecuzione'')
                   (pc_query c prepared encoded)) (\<lambda>answer.
               call_bind (pg_answer False PhRead answer) (\<lambda>rows.
               if rows = []
               then call_lift (Inl (public_error NotFound PhWrite False (''chiave assente per l'' @ [CHR 0x27] @ ''update ottimistico'')))
               else conflict))))))))))))))))"

text \<open>\<open>commit\<close> and \<open>rollback\<close> consume the transaction: it is dropped when they return.\<close>

definition pg_commit :: "('d, 'k, 'p, 'enc, 'row) pg_client \<Rightarrow> 'k \<Rightarrow> ('d, commit_outcome) pg_call" where
  "pg_commit c k =
     call_bind (ensure_open PhCommit) (\<lambda>_.
     call_bind (refuse_cancelled c k PhCommit) (\<lambda>_.
     call_bind pg_client_of (\<lambda>_.
     (\<lambda>(t, d) st. case pc_batch c ''COMMIT'' k d of (answer, d') \<Rightarrow>
        (case answer of
           Answer (Inr _) \<Rightarrow> (Inr CommitCommitted, (t\<lparr>pt_open := False\<rparr>, d'), st)
         | Answer (Inl e) \<Rightarrow>
             (commit_failure (de_sqlstate e) (de_closed e),
              (if \<not> commit_rejection_proves_rollback e \<or> de_closed e then quarantined t else t\<lparr>pt_open := False\<rparr>, d'), st)
         | _ \<Rightarrow>
             (Inr (CommitUnknown (outcome_unknown_recovery_for (interruption_category (pc_reason c k d')))),
              (quarantined t, d'), st))))))"

definition pg_rollback :: "('d, 'k, 'p, 'enc, 'row) pg_client \<Rightarrow> 'k \<Rightarrow> ('d, unit) pg_call" where
  "pg_rollback c k =
     call_bind pg_client_of (\<lambda>_.
     (\<lambda>(t, d) st. case pc_batch_await c ''ROLLBACK'' d of (answer, d') \<Rightarrow>
        (case answer of
           Inr _ \<Rightarrow> (Inr (), (t\<lparr>pt_open := False\<rparr>, d'), st)
         | Inl e \<Rightarrow> (Inl (after_unconfirmed_rollback (classify_error PhRollback e)), (quarantined t, d'), st))))"

section \<open>Opening\<close>

definition context_failure :: "database_error \<Rightarrow> bool \<Rightarrow> database_error" where
  "context_failure e rolled_back = (if rolled_back then e else after_unconfirmed_rollback e)"

text \<open>The session context, entry by entry; the first failure is the error and the world at it.\<close>

fun set_context ::
  "('d, 'k, 'p, 'enc, 'row) pg_client \<Rightarrow> session_context \<Rightarrow> 'd \<Rightarrow> unit result \<times> 'd" where
  "set_context c [] d = (Inr (), d)"
| "set_context c ((name, entry) # rest) d =
     (case pc_set_config c name (as_provider_string (se_value entry)) d of
        (Inl e, d') \<Rightarrow> (Inl (classify_error PhPrepare e), d')
      | (Inr _, d') \<Rightarrow> set_context c rest d')"

definition verify_isolation :: "('d, 'k, 'p, 'enc, 'row) pg_client \<Rightarrow> isolation_level \<Rightarrow> 'd \<Rightarrow> unit result \<times> 'd" where
  "verify_isolation c level d =
     (case pc_isolation c d of
        (Inl e, d') \<Rightarrow> (Inl (classify_error PhPrepare e), d')
      | (Inr effective, d') \<Rightarrow>
          (if effective = isolation_name level then Inr ()
           else Inl (unsupported Postgres PhPrepare ''livello di isolamento PostgreSQL chiesto non verificato nella transazione''), d'))"

text \<open>The transaction, or the error with the client it leaves to be dropped.\<close>

definition pg_begin ::
  "('d, 'k, 'p, 'enc, 'row) pg_client \<Rightarrow> transaction_options \<Rightarrow> 'k \<Rightarrow> pooled_client \<Rightarrow> 'd \<Rightarrow> marker_store
     \<Rightarrow> (database_error \<times> pooled_client + pg_transaction) \<times> 'd \<times> marker_store" where
  "pg_begin c options k client d st =
     (case check_cancelled (pc_reason c k d) PhPrepare of
        Inl e \<Rightarrow> (Inl (e, client), d, st)
      | Inr _ \<Rightarrow>
          if \<not> pcl_present client
          then (Inl (public_error Internal PhConnect False ''client PostgreSQL del pool non disponibile'', client), d, st)
          else case pc_batch_await c (build_begin_sql options) d of
              (Inl e, d1) \<Rightarrow> (Inl (classify_error PhPrepare e, invalidate client), d1, st)
            | (Inr _, d1) \<Rightarrow>
                (case (case to_isolation options of None \<Rightarrow> (Inr (), d1) | Some level \<Rightarrow> verify_isolation c level d1) of
                   (Inl e, d2) \<Rightarrow>
                     (case pc_batch_await c ''ROLLBACK'' d2 of (answer, d3) \<Rightarrow>
                        (Inl (e, if is_ok answer then client else invalidate client), d3, st))
                 | (Inr _, d2) \<Rightarrow>
                     (case set_context c (to_context options) d2 of
                        (Inl e, d3) \<Rightarrow>
                          (case pc_batch_await c ''ROLLBACK'' d3 of (answer, d4) \<Rightarrow>
                             (Inl (context_failure e (is_ok answer), invalidate client), d4, st))
                      | (Inr _, d3) \<Rightarrow>
                          (case marker_default st of (m, st') \<Rightarrow>
                             (Inr \<lparr>pt_sent = m, pt_client = client, pt_open = True, pt_cursor_counter = 0,
                                   pt_policy = to_native_query_policy options, pt_exhausted = False\<rparr>, d3, st')))))"

text \<open>The scope: the two catalogue reads are those of other modules, \<open>oc\<close> and \<open>ct\<close>.\<close>

definition pg_catalog_read ::
  "('d, 'k, 'p, 'enc, 'row) pg_client \<Rightarrow> ('k \<Rightarrow> 'd \<Rightarrow> 'a result race \<times> 'd) \<Rightarrow> 'k \<Rightarrow> ('d, 'a) pg_call" where
  "pg_catalog_read c read k =
     call_bind (ensure_open PhPrepare) (\<lambda>_.
     call_bind (refuse_cancelled c k PhPrepare) (\<lambda>_.
     call_bind pg_client_of (\<lambda>_.
     call_bind (pg_race c False k PhPrepare ''lettura del catalogo PostgreSQL cancellata'' read) call_lift)))"

definition pg_scope ::
  "('d, 'k, 'p, 'enc, 'row) pg_client \<Rightarrow> ('json, 'p, 'enc, 'row) pg_codec \<Rightarrow> ('d, 'json, 'enc, 'row, 'g) pg_graph
     \<Rightarrow> ((string option \<times> string) list \<Rightarrow> 'k \<Rightarrow> 'd \<Rightarrow> 'oc result race \<times> 'd)
     \<Rightarrow> (string option \<times> string \<Rightarrow> 'k \<Rightarrow> 'd \<Rightarrow> 'rt option result race \<times> 'd)
     \<Rightarrow> (pg_transaction \<times> 'd, 'k, 'json, 'g, 'oc, 'rt) transaction_scope" where
  "pg_scope c px gr oc ct =
     \<lparr>ts_begin_caller_sql = pg_begin_caller_sql,
      ts_provider_kind = Postgres,
      ts_execute = pg_execute c px,
      ts_query = pg_query c px,
      ts_execute_graph = pg_execute_graph c gr,
      ts_query_stream = pg_query_stream c px,
      ts_conditional_update = pg_conditional_update c px,
      ts_operand_catalog = \<lambda>relations names. pg_catalog_read c (oc relations),
      ts_column_types = \<lambda>relation. pg_catalog_read c (ct relation),
      ts_savepoint = pg_savepoint c,
      ts_rollback_to_savepoint = pg_rollback_to_savepoint c,
      ts_release_savepoint = pg_release_savepoint c,
      ts_commit = pg_commit c,
      ts_rollback = pg_rollback c\<rparr>"

end
