(* ===== verification/Pg_Transaction_Proofs.thy ===== *)
theory Pg_Transaction_Proofs
  imports Pg_Transaction
begin

text \<open>
  What the PostgreSQL transaction guarantees: it marks every text of the caller before the driver sees it, so the
  core's rule makes every later error uncertain, and it gives its connection back to the pool only when the server
  has confirmed the end of the transaction.  Both are read off a log that the driver of the run writes.
\<close>

section \<open>Honest marking\<close>

named_theorems honest_intros \<open>calls that mark what they send\<close>

text \<open>Of a call with a given count of the caller's texts sent in a world: it touches its own marker only, never
  clears it, and has set it when the count changes; \<open>pre\<close> says that the marker is set before the call.\<close>

definition honest :: "('d \<Rightarrow> nat) \<Rightarrow> bool \<Rightarrow> ('d, 'a) pg_call \<Rightarrow> bool" where
  "honest sends pre call \<longleftrightarrow>
     (\<forall>t d st r t' d' st'. call (t, d) st = (r, (t', d'), st') \<longrightarrow> (pre \<longrightarrow> ms_sent st (pt_sent t)) \<longrightarrow>
        pt_sent t' = pt_sent t \<and> ms_next st' = ms_next st
        \<and> (\<forall>m. m \<noteq> pt_sent t \<longrightarrow> ms_sent st' m = ms_sent st m)
        \<and> (ms_sent st (pt_sent t) \<longrightarrow> ms_sent st' (pt_sent t))
        \<and> (sends d' \<noteq> sends d \<longrightarrow> ms_sent st' (pt_sent t)))"

text \<open>A call whose success means that the marker is set.\<close>

definition arms :: "('d, 'a) pg_call \<Rightarrow> bool" where
  "arms call \<longleftrightarrow> (\<forall>t d st x t' d' st'. call (t, d) st = (Inr x, (t', d'), st') \<longrightarrow> ms_sent st' (pt_sent t'))"

text \<open>A call that changes neither the world nor the markers, nor which marker is its own.\<close>

definition local_call :: "('d, 'a) pg_call \<Rightarrow> bool" where
  "local_call call \<longleftrightarrow>
     (\<forall>t d st r t' d' st'. call (t, d) st = (r, (t', d'), st') \<longrightarrow> pt_sent t' = pt_sent t \<and> d' = d \<and> st' = st)"

lemma honestD:
  assumes "honest sends pre call" "call (t, d) st = (r, (t', d'), st')" "pre \<longrightarrow> ms_sent st (pt_sent t)"
  shows "pt_sent t' = pt_sent t" "ms_next st' = ms_next st" "\<And>m. m \<noteq> pt_sent t \<Longrightarrow> ms_sent st' m = ms_sent st m"
    "ms_sent st (pt_sent t) \<Longrightarrow> ms_sent st' (pt_sent t)" "sends d' \<noteq> sends d \<Longrightarrow> ms_sent st' (pt_sent t)"
  using assms unfolding honest_def by blast+

lemma local_honest: "local_call call \<Longrightarrow> honest sends pre call"
  unfolding local_call_def honest_def by blast

lemma call_bindE:
  assumes "call_bind m f (t, d) st = (r, (t', d'), st')"
  obtains e where "m (t, d) st = (Inl e, (t', d'), st')" "r = Inl e"
  | x t1 d1 st1 where "m (t, d) st = (Inr x, (t1, d1), st1)" "f x (t1, d1) st1 = (r, (t', d'), st')"
  using assms by (auto simp: call_bind_def split: prod.splits sum.splits)

lemma honest_bind [honest_intros]:
  assumes m: "honest sends pre m" and f: "\<And>x. honest sends pre (f x)"
  shows "honest sends pre (call_bind m f)"
  unfolding honest_def
proof (intro allI impI)
  fix t d st r t' d' st'
  assume call: "call_bind m f (t, d) st = (r, (t', d'), st')" and pre: "pre \<longrightarrow> ms_sent st (pt_sent t)"
  from call show "pt_sent t' = pt_sent t \<and> ms_next st' = ms_next st
      \<and> (\<forall>m. m \<noteq> pt_sent t \<longrightarrow> ms_sent st' m = ms_sent st m)
      \<and> (ms_sent st (pt_sent t) \<longrightarrow> ms_sent st' (pt_sent t)) \<and> (sends d' \<noteq> sends d \<longrightarrow> ms_sent st' (pt_sent t))"
  proof (cases rule: call_bindE)
    case (1 e)
    from honestD [OF m 1(1) pre] show ?thesis by blast
  next
    case (2 x t1 d1 st1)
    note first = honestD [OF m 2(1) pre]
    have "pre \<longrightarrow> ms_sent st1 (pt_sent t1)" using first(1,4) pre by simp
    note honestD [OF f 2(2) this]
    with first show ?thesis by (metis (no_types))
  qed
qed

lemma honest_arm:
  assumes m: "honest sends pre m" and arms: "arms m" and f: "\<And>x. honest sends True (f x)"
  shows "honest sends pre (call_bind m f)"
  unfolding honest_def
proof (intro allI impI)
  fix t d st r t' d' st'
  assume call: "call_bind m f (t, d) st = (r, (t', d'), st')" and pre: "pre \<longrightarrow> ms_sent st (pt_sent t)"
  from call show "pt_sent t' = pt_sent t \<and> ms_next st' = ms_next st
      \<and> (\<forall>m. m \<noteq> pt_sent t \<longrightarrow> ms_sent st' m = ms_sent st m)
      \<and> (ms_sent st (pt_sent t) \<longrightarrow> ms_sent st' (pt_sent t)) \<and> (sends d' \<noteq> sends d \<longrightarrow> ms_sent st' (pt_sent t))"
  proof (cases rule: call_bindE)
    case (1 e)
    from honestD [OF m 1(1) pre] show ?thesis by blast
  next
    case (2 x t1 d1 st1)
    note first = honestD [OF m 2(1) pre]
    have "True \<longrightarrow> ms_sent st1 (pt_sent t1)" using arms 2(1) unfolding arms_def by blast
    note honestD [OF f 2(2) this]
    with first show ?thesis by (metis (no_types))
  qed
qed

lemma local_calls [honest_intros]:
  "honest sends pre (ensure_open phase)" "honest sends pre (enforce sql)" "honest sends pre (refuse_cancelled c k phase)"
  "honest sends pre pg_client_of" "honest sends pre (call_lift r)" "honest sends pre next_cursor"
  "honest sends pre open_stream" "honest sends pre (pg_answer closes phase answer)"
  by (rule local_honest; force simp: local_call_def ensure_open_def enforce_def refuse_cancelled_def pg_client_of_def
        call_lift_def next_cursor_def open_stream_def pg_answer_def quarantined_def Let_def split: sum.splits if_splits)+

text \<open>A call counts its text only when it is polled.\<close>

definition counts_polled :: "('d \<Rightarrow> nat) \<Rightarrow> ('d \<Rightarrow> 'a race \<times> 'd) \<Rightarrow> bool" where
  "counts_polled sends call \<longleftrightarrow> (\<forall>d d'. call d = (NotPolled, d') \<longrightarrow> sends d' = sends d)"

lemma honest_sending [honest_intros]:
  "(\<And>k. counts_polled sends (call k)) \<Longrightarrow> honest sends pre (pg_race c True k phase message call)"
  unfolding honest_def counts_polled_def pg_race_def
  by (auto simp: Let_def mark_sent_def quarantined_def split: prod.splits race.splits)

lemma honest_sent [honest_intros]: "honest sends True (pg_race c False k phase message call)"
  unfolding honest_def pg_race_def by (auto simp: Let_def quarantined_def split: prod.splits race.splits)

text \<open>A call that sends no text of the caller.\<close>

definition silent :: "('d \<Rightarrow> nat) \<Rightarrow> ('d \<Rightarrow> 'a \<times> 'd) \<Rightarrow> bool" where
  "silent sends call \<longleftrightarrow> (\<forall>d r d'. call d = (r, d') \<longrightarrow> sends d' = sends d)"

lemma honest_silent:
  "(\<And>k. silent sends (call k)) \<Longrightarrow> honest sends pre (pg_race c False k phase message call)"
  unfolding honest_def silent_def pg_race_def
  by (auto simp: Let_def quarantined_def split: prod.splits race.splits)

lemma honest_await: "silent sends call \<Longrightarrow> honest sends pre (await_driver phase call)"
  unfolding honest_def silent_def await_driver_def by (auto split: prod.splits)

lemma honest_probe: "silent sends call \<Longrightarrow> honest sends pre (await_probe call)"
  unfolding honest_def silent_def await_probe_def by (auto split: prod.splits)

lemma arms_prepare: "arms (prepare_bind c px sql params k phase)"
  unfolding arms_def prepare_bind_def
  by (auto simp: call_bind_def pg_client_of_def pg_race_def pg_answer_def call_lift_def Let_def mark_sent_def quarantined_def
      split: prod.splits race.splits sum.splits if_splits)

text \<open>A driver and a graph surface whose count moves only when a text of the caller is polled.\<close>

definition counting ::
  "('d \<Rightarrow> nat) \<Rightarrow> ('d, 'k, 'p, 'enc, 'row) pg_client \<Rightarrow> ('d, 'json, 'enc, 'row, 'g) pg_graph \<Rightarrow> bool" where
  "counting sends c gr \<longleftrightarrow>
     (\<forall>sql k. counts_polled sends (pc_prepare c sql k)) \<and> (\<forall>sql encoded k. counts_polled sends (pc_query_text c sql encoded k))
     \<and> silent sends (pc_search_path c) \<and> (\<forall>n v. silent sends (pc_set_config c n v)) \<and> silent sends (pg_probe gr)"

lemma honest_prepare: "counting sends c gr \<Longrightarrow> honest sends pre (prepare_bind c px sql params k phase)"
  unfolding prepare_bind_def by (intro honest_intros) (simp_all add: counting_def)

lemmas honest_prepared = honest_arm [OF honest_prepare arms_prepare]

lemma honest_execute: "counting sends c gr \<Longrightarrow> honest sends False (pg_execute c px x k)"
  unfolding pg_execute_def Let_def by (intro honest_prepared honest_intros)

lemma honest_query: "counting sends c gr \<Longrightarrow> honest sends False (pg_query c px x k)"
  unfolding pg_query_def by (intro honest_prepared honest_intros)

lemma honest_if [honest_intros]: "honest sends pre a \<Longrightarrow> honest sends pre b \<Longrightarrow> honest sends pre (if q then a else b)"
  by simp

lemma honest_stream: "counting sends c gr \<Longrightarrow> honest sends False (pg_query_stream c px x n k)"
  unfolding pg_query_stream_def by (intro honest_prepared honest_intros)

lemma honest_option:
  "honest sends pre a \<Longrightarrow> (\<And>x. honest sends pre (f x)) \<Longrightarrow> honest sends pre (case v of None \<Rightarrow> a | Some x \<Rightarrow> f x)"
  by (cases v) simp_all

lemma honest_update: "counting sends c gr \<Longrightarrow> honest sends False (pg_conditional_update c px x k)"
  unfolding pg_conditional_update_def Let_def
  by (intro honest_prepared honest_intros honest_option)

lemma honest_graph: "counting sends c gr \<Longrightarrow> honest sends False (pg_execute_graph c gr x k)"
  unfolding pg_execute_graph_def
  by (intro honest_intros honest_await honest_probe) (simp_all add: counting_def)

lemma honest_keeps_markers: "honest sends False call \<Longrightarrow> keeps_markers (tracked pg_begin_caller_sql call)"
proof -
  assume call: "honest sends False call"
  show ?thesis
    unfolding keeps_markers_def
  proof (intro allI impI)
    fix s :: "pg_transaction \<times> 'a" and st r s' st'
    obtain t d where s: "s = (t, d)" by (cases s)
    assume run: "tracked pg_begin_caller_sql call s st = (r, s', st')"
    let ?st = "snd (before_send st)"
    obtain r2 t2 d2 where "call (t\<lparr>pt_sent := ms_next st\<rparr>, d) ?st = (r2, (t2, d2), st')"
      using run by (auto simp: tracked_def pg_begin_caller_sql_def before_send_def marker_new_def s split: prod.splits)
    from honestD [OF call this]
    show "ms_next st \<le> ms_next st' \<and> (\<forall>m < ms_next st. ms_sent st' m = ms_sent st m)"
      by (simp add: before_send_def marker_new_def)
  qed
qed

lemma honest_sends_marked:
  "honest sends False call \<Longrightarrow> sends_marked (\<lambda>(t, d). sends d) pg_begin_caller_sql call"
proof -
  assume call: "honest sends False call"
  show ?thesis
    unfolding sends_marked_def
  proof (intro allI impI)
    fix s :: "pg_transaction \<times> 'a" and st m s1 st1 r s2 st2
    obtain t d where s: "s = (t, d)" by (cases s)
    assume begun: "pg_begin_caller_sql s st = (m, s1, st1)" and run: "call s1 st1 = (r, s2, st2)"
      and sent: "(case s2 of (t, d) \<Rightarrow> sends d) \<noteq> (case s of (t, d) \<Rightarrow> sends d)"
    obtain t2 d2 where s2: "s2 = (t2, d2)" by (cases s2)
    from begun have s1: "s1 = (t\<lparr>pt_sent := m\<rparr>, d)"
      by (auto simp: pg_begin_caller_sql_def before_send_def marker_new_def s)
    from honestD(5) [OF call, of "t\<lparr>pt_sent := m\<rparr>" d st1 r t2 d2 st2] run sent
    show "ms_sent st2 m" by (simp add: s s1 s2)
  qed
qed

lemma counting_zero: "counting (\<lambda>d. 0) c gr"
  by (simp add: counting_def counts_polled_def silent_def)

lemmas pg_honest = honest_execute honest_query honest_graph honest_stream honest_update

lemma pg_marked_scope: "marked_scope (pg_scope c px gr oc ct)"
proof
  show "opens_marker (ts_begin_caller_sql (pg_scope c px gr oc ct))"
    by (auto simp: opens_marker_def pg_scope_def pg_begin_caller_sql_def before_send_def marker_new_def)
qed (simp add: pg_scope_def honest_keeps_markers [OF honest_execute [OF counting_zero]]
      honest_keeps_markers [OF honest_query [OF counting_zero]] honest_keeps_markers [OF honest_graph [OF counting_zero]]
      honest_keeps_markers [OF honest_stream [OF counting_zero]] honest_keeps_markers [OF honest_update [OF counting_zero]])+

interpretation pg: marked_scope "pg_scope c px gr oc ct" for c px gr oc ct
  by (rule pg_marked_scope)

section \<open>The log of a run\<close>

text \<open>The same driver in a world that also writes down what the driver was given, and the answers to control
  statements.\<close>

datatype pg_event =
  EvPrepare string
| EvRun
| EvText string
| EvBatch string "(driver_error + unit) race"
| EvAwait string "driver_error + unit"

definition polled :: "'a race \<Rightarrow> bool" where
  "polled a \<longleftrightarrow> (case a of NotPolled \<Rightarrow> False | _ \<Rightarrow> True)"

definition logged_race ::
  "('a race \<Rightarrow> pg_event) \<Rightarrow> ('d \<Rightarrow> 'a race \<times> 'd) \<Rightarrow> 'd \<times> pg_event list \<Rightarrow> 'a race \<times> 'd \<times> pg_event list" where
  "logged_race ev call = (\<lambda>(d, log). case call d of (a, d') \<Rightarrow> (a, (d', if polled a then log @ [ev a] else log)))"

definition unlogged :: "('d \<Rightarrow> 'a \<times> 'd) \<Rightarrow> 'd \<times> pg_event list \<Rightarrow> 'a \<times> 'd \<times> pg_event list" where
  "unlogged call = (\<lambda>(d, log). case call d of (a, d') \<Rightarrow> (a, (d', log)))"

definition logged_client ::
  "('d, 'k, 'p, 'enc, 'row) pg_client \<Rightarrow> ('d \<times> pg_event list, 'k, 'p, 'enc, 'row) pg_client" where
  "logged_client c =
     \<lparr>pc_reason = \<lambda>k (d, log). pc_reason c k d,
      pc_prepare = \<lambda>sql k. logged_race (\<lambda>_. EvPrepare sql) (pc_prepare c sql k),
      pc_execute = \<lambda>p encoded k. logged_race (\<lambda>_. EvRun) (pc_execute c p encoded k),
      pc_query = \<lambda>p encoded k. logged_race (\<lambda>_. EvRun) (pc_query c p encoded k),
      pc_query_text = \<lambda>sql encoded k. logged_race (\<lambda>_. EvText sql) (pc_query_text c sql encoded k),
      pc_batch = \<lambda>sql k. logged_race (EvBatch sql) (pc_batch c sql k),
      pc_batch_await = \<lambda>sql (d, log). case pc_batch_await c sql d of (a, d') \<Rightarrow> (a, (d', log @ [EvAwait sql a])),
      pc_isolation = unlogged (pc_isolation c),
      pc_set_config = \<lambda>n v. unlogged (pc_set_config c n v),
      pc_search_path = unlogged (pc_search_path c)\<rparr>"

definition logged_graph ::
  "('d, 'json, 'enc, 'row, 'g) pg_graph \<Rightarrow> ('d \<times> pg_event list, 'json, 'enc, 'row, 'g) pg_graph" where
  "logged_graph gr =
     \<lparr>pg_probe = unlogged (pg_probe gr), pg_to_json = pg_to_json gr, pg_build = pg_build gr,
      pg_parameter = pg_parameter gr, pg_rows = pg_rows gr\<rparr>"

text \<open>The caller's texts in a log: what was prepared, run or queried.\<close>

fun caller_event :: "pg_event \<Rightarrow> bool" where
  "caller_event (EvPrepare sql) = True"
| "caller_event EvRun = True"
| "caller_event (EvText sql) = True"
| "caller_event (EvBatch sql a) = False"
| "caller_event (EvAwait sql a) = False"

definition caller_sends :: "'d \<times> pg_event list \<Rightarrow> nat" where
  "caller_sends = (\<lambda>(d, log). length (filter caller_event log))"

lemma logged_counts: "counts_polled caller_sends (logged_race ev call)"
  by (auto simp: counts_polled_def logged_race_def caller_sends_def polled_def split: prod.splits)

lemma unlogged_silent: "silent caller_sends (unlogged call)"
  by (auto simp: silent_def unlogged_def caller_sends_def split: prod.splits)

lemma logged_counting: "counting caller_sends (logged_client c) (logged_graph gr)"
  by (simp add: counting_def logged_client_def logged_graph_def logged_counts unlogged_silent)

interpretation pg_logged: tracking_scope "pg_scope (logged_client c) px (logged_graph gr) oc ct" "\<lambda>(t, d). caller_sends d"
  for c px gr oc ct
  by unfold_locales
    (simp_all add: pg_scope_def honest_sends_marked pg_honest [OF logged_counting])

text \<open>C7: the rule for the caller's SQL, through the core's wrapper and the PostgreSQL adapter together: whatever the
  driver, the server and the token do, an error of \<open>execute\<close>, \<open>query\<close>, \<open>query_stream\<close>, \<open>execute_graph\<close> or of a
  conditional update that comes back after a text of the caller was handed to the driver never claims that there was
  no remote effect.\<close>

theorem caller_errors_after_send:
  "uncertain_after_send (\<lambda>(t, d). caller_sends d)
     (ts_execute (caller_sql_transaction (pg_scope (logged_client c) px (logged_graph gr) oc ct)) x k)
   \<and> uncertain_after_send (\<lambda>(t, d). caller_sends d)
     (ts_query (caller_sql_transaction (pg_scope (logged_client c) px (logged_graph gr) oc ct)) x k)
   \<and> uncertain_after_send (\<lambda>(t, d). caller_sends d)
     (ts_execute_graph (caller_sql_transaction (pg_scope (logged_client c) px (logged_graph gr) oc ct)) y k)
   \<and> uncertain_after_send (\<lambda>(t, d). caller_sends d)
     (ts_query_stream (caller_sql_transaction (pg_scope (logged_client c) px (logged_graph gr) oc ct)) x n k)
   \<and> uncertain_after_send (\<lambda>(t, d). caller_sends d)
     (ts_conditional_update (caller_sql_transaction (pg_scope (logged_client c) px (logged_graph gr) oc ct)) z k)"
  by (intro conjI pg_logged.uncertain)

text \<open>Wrapping a transaction that is already wrapped changes nothing a caller can see: every method of the doubly
  wrapped PostgreSQL transaction gives the result and the state of the singly wrapped one, with one marker more that
  nobody sets; the wrapper's \<open>before_send\<close> marker leaves the judgement to the inner wrapper.\<close>

lemma wrapping_is_idempotent:
  "(let once = caller_sql_transaction (pg_scope c px gr oc ct); twice = caller_sql_transaction once;
        fresh = snd (before_send st)
    in ts_execute twice x k s st = ts_execute once x k s fresh
     \<and> ts_query twice x k s st = ts_query once x k s fresh
     \<and> ts_execute_graph twice y k s st = ts_execute_graph once y k s fresh
     \<and> ts_query_stream twice x n k s st = ts_query_stream once x n k s fresh
     \<and> ts_conditional_update twice z k s st = ts_conditional_update once z k s fresh)"
  unfolding Let_def
  by (intro conjI pg.wrapped_twice_execute pg.wrapped_twice_query pg.wrapped_twice_graph pg.wrapped_twice_stream
      pg.wrapped_twice_update)

section \<open>The connection goes back clean\<close>

text \<open>A transaction that is closed without a confirmed end has a connection that will not be reused.\<close>

definition tidy_state :: "pg_transaction \<Rightarrow> bool" where
  "tidy_state t \<longleftrightarrow> pt_open t \<or> \<not> pcl_reusable (pt_client t)"

definition tidy :: "('d, 'a) pg_call \<Rightarrow> bool" where
  "tidy call \<longleftrightarrow> (\<forall>t d st r t' d' st'. call (t, d) st = (r, (t', d'), st') \<longrightarrow> tidy_state t \<longrightarrow> tidy_state t')"

named_theorems tidy_intros \<open>calls that keep a transaction tidy\<close>

lemma tidyD: "tidy call \<Longrightarrow> call (t, d) st = (r, (t', d'), st') \<Longrightarrow> tidy_state t \<Longrightarrow> tidy_state t'"
  unfolding tidy_def by blast

lemma tidy_bind [tidy_intros]: "tidy m \<Longrightarrow> (\<And>x. tidy (f x)) \<Longrightarrow> tidy (call_bind m f)"
  unfolding tidy_def [of "call_bind m f"] by (auto elim!: call_bindE dest: tidyD)

lemma tidy_quarantined [simp]: "tidy_state (quarantined t)"
  by (simp add: tidy_state_def quarantined_def invalidate_def)

lemma tidy_steps [tidy_intros]:
  "tidy (ensure_open phase)" "tidy (enforce sql)" "tidy (refuse_cancelled c k phase)" "tidy pg_client_of"
  "tidy (call_lift r)" "tidy next_cursor" "tidy open_stream" "tidy (pg_answer closes phase answer)"
  "tidy (pg_race c tracked_send k phase message call)" "tidy (await_driver phase call2)" "tidy (await_probe call3)"
  by (auto simp: tidy_def ensure_open_def enforce_def refuse_cancelled_def pg_client_of_def call_lift_def
      next_cursor_def open_stream_def pg_answer_def pg_race_def await_driver_def await_probe_def Let_def
      split: sum.splits if_splits prod.splits race.splits) (simp_all add: tidy_state_def)

lemma tidy_if [tidy_intros]: "tidy a \<Longrightarrow> tidy b \<Longrightarrow> tidy (if q then a else b)"
  by simp

lemma tidy_option [tidy_intros]: "tidy a \<Longrightarrow> (\<And>x. tidy (f x)) \<Longrightarrow> tidy (case v of None \<Rightarrow> a | Some x \<Rightarrow> f x)"
  by (cases v) simp_all

lemma tidy_methods [tidy_intros]:
  "tidy (pg_execute c px x k)" "tidy (pg_query c px x k)" "tidy (pg_execute_graph c gr y k)"
  "tidy (pg_query_stream c px x n k)" "tidy (pg_conditional_update c px z k)" "tidy (pg_savepoint_call c v m ph g name k)"
  "tidy (pg_catalog_read c r k)"
  unfolding pg_execute_def pg_query_def pg_execute_graph_def pg_query_stream_def pg_conditional_update_def
    pg_savepoint_call_def prepare_bind_def pg_catalog_read_def Let_def
  by (intro tidy_intros)+

lemma tidy_fetch [tidy_intros]: "tidy (pg_next_batch c px cursor n k)"
  by (auto simp: tidy_def pg_next_batch_def split: sum.splits if_splits prod.splits race.splits)
     (simp_all add: tidy_state_def)

text \<open>The life of a transaction: requests in any order, errors or not, then a commit, a rollback or neither, and the
  drop.\<close>

datatype ('json, 'k) pg_request =
  RqExecute "'json statement" 'k
| RqQuery "'json statement" 'k
| RqGraph "'json graph_statement" 'k
| RqStream "'json statement" u32 'k
| RqFetch string u32 'k
| RqUpdate "'json conditional_update" 'k
| RqSavepoint string 'k
| RqRollbackTo string 'k
| RqRelease string 'k

definition state_after :: "('s, 'a) scope_call \<Rightarrow> 's \<Rightarrow> marker_store \<Rightarrow> 's \<times> marker_store" where
  "state_after call s st = snd (call s st)"

fun pg_request_state ::
  "('d, 'k, 'p, 'enc, 'row) pg_client \<Rightarrow> ('json, 'p, 'enc, 'row) pg_codec \<Rightarrow> ('d, 'json, 'enc, 'row, 'g) pg_graph
     \<Rightarrow> ('json, 'k) pg_request \<Rightarrow> pg_transaction \<times> 'd \<Rightarrow> marker_store \<Rightarrow> (pg_transaction \<times> 'd) \<times> marker_store" where
  "pg_request_state c px gr (RqExecute x k) = state_after (pg_execute c px x k)"
| "pg_request_state c px gr (RqQuery x k) = state_after (pg_query c px x k)"
| "pg_request_state c px gr (RqGraph x k) = state_after (pg_execute_graph c gr x k)"
| "pg_request_state c px gr (RqStream x n k) = state_after (pg_query_stream c px x n k)"
| "pg_request_state c px gr (RqFetch cursor n k) = state_after (pg_next_batch c px cursor n k)"
| "pg_request_state c px gr (RqUpdate x k) = state_after (pg_conditional_update c px x k)"
| "pg_request_state c px gr (RqSavepoint name k) = state_after (pg_savepoint c name k)"
| "pg_request_state c px gr (RqRollbackTo name k) = state_after (pg_rollback_to_savepoint c name k)"
| "pg_request_state c px gr (RqRelease name k) = state_after (pg_release_savepoint c name k)"

fun pg_requests ::
  "('d, 'k, 'p, 'enc, 'row) pg_client \<Rightarrow> ('json, 'p, 'enc, 'row) pg_codec \<Rightarrow> ('d, 'json, 'enc, 'row, 'g) pg_graph
     \<Rightarrow> ('json, 'k) pg_request list \<Rightarrow> pg_transaction \<times> 'd \<Rightarrow> marker_store \<Rightarrow> (pg_transaction \<times> 'd) \<times> marker_store" where
  "pg_requests c px gr [] s st = (s, st)"
| "pg_requests c px gr (r # rs) s st =
     (case pg_request_state c px gr r s st of (s', st') \<Rightarrow> pg_requests c px gr rs s' st')"

datatype 'k pg_ending = EndCommit 'k | EndRollback 'k | EndDrop

text \<open>The client that is left to the pool, and the world.\<close>

definition pg_finish ::
  "('d, 'k, 'p, 'enc, 'row) pg_client \<Rightarrow> 'k pg_ending \<Rightarrow> pg_transaction \<times> 'd \<Rightarrow> marker_store \<Rightarrow> pooled_client \<times> 'd" where
  "pg_finish c ending s st =
     (let (t, d) = (case ending of
            EndCommit k \<Rightarrow> fst (state_after (pg_commit c k) s st)
          | EndRollback k \<Rightarrow> fst (state_after (pg_rollback c k) s st)
          | EndDrop \<Rightarrow> s)
      in (pg_drop t, d))"

text \<open>The server has confirmed that the transaction is over.\<close>

fun confirmed_end :: "pg_event \<Rightarrow> bool" where
  "confirmed_end (EvBatch sql (Answer (Inr _))) \<longleftrightarrow> sql = ''COMMIT''"
| "confirmed_end (EvBatch sql (Answer (Inl e))) \<longleftrightarrow> sql = ''COMMIT'' \<and> proves_rollback (de_sqlstate e) \<and> \<not> de_closed e"
| "confirmed_end (EvAwait sql (Inr _)) \<longleftrightarrow> sql = ''ROLLBACK''"
| "confirmed_end _ \<longleftrightarrow> False"

lemma tidy_after: "tidy call \<Longrightarrow> state_after call (t, d) st = ((t', d'), st') \<Longrightarrow> tidy_state t \<Longrightarrow> tidy_state t'"
  by (cases "call (t, d) st") (auto simp: state_after_def dest: tidyD)

lemma request_tidy:
  assumes "pg_request_state c px gr rq (t, d) st = ((t', d'), st')" "tidy_state t"
  shows "tidy_state t'"
proof -
  show ?thesis
    using assms
    by (cases rq; simp add: pg_savepoint_def pg_rollback_to_savepoint_def pg_release_savepoint_def)
       (erule tidy_after [rotated], assumption, rule tidy_intros)+
qed

lemma requests_tidy:
  "pg_requests c px gr rqs (t, d) st = ((t', d'), st') \<Longrightarrow> tidy_state t \<Longrightarrow> tidy_state t'"
proof (induction rqs arbitrary: t d st)
  case (Cons rq rqs)
  obtain t1 d1 st1 where "pg_request_state c px gr rq (t, d) st = ((t1, d1), st1)" by (metis prod.exhaust)
  with Cons show ?case using request_tidy by fastforce
qed simp

lemma finish_confirmed:
  assumes "pg_finish (logged_client c) ending (t, (d, log)) st = (client, (d', log'))" "pcl_reusable client" "tidy_state t"
  shows "\<exists>ev. log' = log @ [ev] \<and> confirmed_end ev"
proof (cases ending)
  case (EndCommit k)
  with assms show ?thesis
    by (auto simp: pg_finish_def state_after_def pg_commit_def call_bind_def ensure_open_def refuse_cancelled_def
        pg_client_of_def logged_client_def logged_race_def polled_def pg_drop_def quarantined_def invalidate_def
        tidy_state_def commit_rejection_proves_rollback_def Let_def
        split: if_splits sum.splits prod.splits race.splits)
next
  case (EndRollback k)
  with assms show ?thesis
    by (auto simp: pg_finish_def state_after_def pg_rollback_def call_bind_def pg_client_of_def logged_client_def
        pg_drop_def quarantined_def invalidate_def tidy_state_def Let_def split: if_splits sum.splits prod.splits)
next
  case EndDrop
  with assms show ?thesis
    by (auto simp: pg_finish_def pg_drop_def invalidate_def tidy_state_def split: if_splits)
qed

lemma set_context_unlogged:
  "set_context (logged_client c) ctx (d, log) = (case set_context c ctx d of (r, d') \<Rightarrow> (r, (d', log)))"
  by (induction c ctx d rule: set_context.induct)
     (auto simp: logged_client_def unlogged_def split: prod.splits sum.splits)

lemma verify_unlogged:
  "verify_isolation (logged_client c) level (d, log) = (case verify_isolation c level d of (r, d') \<Rightarrow> (r, (d', log)))"
  by (auto simp: verify_isolation_def logged_client_def unlogged_def split: prod.splits sum.splits)

lemma driver_ok: "is_ok (a :: driver_error + unit) \<longleftrightarrow> a = Inr ()"
  by (simp add: is_ok_iff)

lemma begin_failed:
  assumes "pg_begin (logged_client c) options k client (d, []) st = (Inl (e, client'), (d', log), st')" "pcl_reusable client'"
  shows "log = [] \<or> confirmed_end (last log)"
proof -
  have batch: "pc_batch_await (logged_client c) sql (d, log) =
      (case pc_batch_await c sql d of (a, d') \<Rightarrow> (a, (d', log @ [EvAwait sql a])))" for sql d log
    by (simp add: logged_client_def)
  show ?thesis using assms
    by (auto simp: driver_ok pg_begin_def batch set_context_unlogged verify_unlogged invalidate_def marker_default_def marker_new_def
        split: sum.splits prod.splits if_splits option.splits)
qed

lemma begin_open: "pg_begin c options k client d st = (Inr t, w, st') \<Longrightarrow> pt_open t"
  by (auto simp: pg_begin_def split: sum.splits prod.splits if_splits option.splits)

text \<open>C3: a connection goes back to the pool only when the server has confirmed that no transaction is open on it.
  Whatever the driver, the server, the token and the requests do: an opening that fails leaves a reusable client only
  when nothing was sent or the \<open>ROLLBACK\<close> was confirmed, and a transaction leaves one only when the last thing its
  driver did was a confirmed \<open>COMMIT\<close>, a \<open>COMMIT\<close> refused with a code that proves the rollback on an open
  connection, or a confirmed \<open>ROLLBACK\<close>.\<close>

theorem pg_session_hygiene:
  assumes "pg_begin (logged_client c) options k client (d, []) st = (opened, (d1, log1), st1)"
  shows "(\<forall>e client'. opened = Inl (e, client') \<longrightarrow> pcl_reusable client' \<longrightarrow> log1 = [] \<or> confirmed_end (last log1))
    \<and> (\<forall>t rqs t2 d2 log2 st2 ending client' d3 log3.
         opened = Inr t \<longrightarrow>
         pg_requests (logged_client c) px (logged_graph gr) rqs (t, (d1, log1)) st1 = ((t2, (d2, log2)), st2) \<longrightarrow>
         pg_finish (logged_client c) ending (t2, (d2, log2)) st2 = (client', (d3, log3)) \<longrightarrow>
         pcl_reusable client' \<longrightarrow> (\<exists>ev. log3 = log2 @ [ev] \<and> confirmed_end ev))"
proof (intro conjI allI impI)
  show "log1 = [] \<or> confirmed_end (last log1)" if "opened = Inl (e, client')" "pcl_reusable client'" for e client'
    using begin_failed [of c options k client d st e client' d1 log1 st1] assms that by simp
  show "\<exists>ev. log3 = log2 @ [ev] \<and> confirmed_end ev"
    if "opened = Inr t"
      and requests: "pg_requests (logged_client c) px (logged_graph gr) rqs (t, (d1, log1)) st1 = ((t2, (d2, log2)), st2)"
      and finish: "pg_finish (logged_client c) ending (t2, (d2, log2)) st2 = (client', (d3, log3))"
      and reusable: "pcl_reusable client'" for t rqs t2 d2 log2 st2 ending client' d3 log3
  proof -
    have "tidy_state t" using begin_open [of "logged_client c" options k client "(d, [])" st t "(d1, log1)" st1] assms that(1)
      by (simp add: tidy_state_def)
    from requests_tidy [OF requests this] show ?thesis by (rule finish_confirmed [OF finish reusable])
  qed
qed

text \<open>A server that answers everything, and one that loses the connection at the \<open>COMMIT\<close>.\<close>

definition demo_client :: "(driver_error + unit) race \<Rightarrow> (unit, unit, unit, unit, unit) pg_client" where
  "demo_client commit =
     \<lparr>pc_reason = \<lambda>k d. None, pc_prepare = \<lambda>sql k d. (Answer (Inr ()), d), pc_execute = \<lambda>p e k d. (Answer (Inr 1), d),
      pc_query = \<lambda>p e k d. (Answer (Inr []), d), pc_query_text = \<lambda>sql e k d. (Answer (Inr []), d),
      pc_batch = \<lambda>sql k d. (commit, d), pc_batch_await = \<lambda>sql d. (Inr (), d), pc_isolation = \<lambda>d. (Inr [], d),
      pc_set_config = \<lambda>n v d. (Inr (), d), pc_search_path = \<lambda>d. (Inr [], d)\<rparr>"

definition demo_opened :: pg_transaction where
  "demo_opened = \<lparr>pt_sent = 0, pt_client = \<lparr>pcl_present = True, pcl_reusable = True\<rparr>, pt_open = True,
     pt_cursor_counter = 0, pt_policy = Allow, pt_exhausted = False\<rparr>"

lemma demo_begin:
  "pg_begin (logged_client (demo_client commit)) options_default () \<lparr>pcl_present = True, pcl_reusable = True\<rparr> ((), [])
     \<lparr>ms_next = 0, ms_sent = \<lambda>m. False\<rparr>
   = (Inr demo_opened, ((), [EvAwait (build_begin_sql options_default) (Inr ())]),
      \<lparr>ms_next = 1, ms_sent = (\<lambda>m. False)(0 := True)\<rparr>)"
  by (simp add: pg_begin_def logged_client_def demo_client_def check_cancelled_def options_default_def session_context_new_def
      marker_default_def marker_new_def demo_opened_def)

lemma demo_commit:
  "pg_finish (logged_client (demo_client (Answer (Inr ())))) (EndCommit ()) (demo_opened, ((), log)) st =
     (\<lparr>pcl_present = True, pcl_reusable = True\<rparr>, ((), log @ [EvBatch ''COMMIT'' (Answer (Inr ()))]))"
  by (simp add: pg_finish_def state_after_def pg_commit_def call_bind_def ensure_open_def refuse_cancelled_def
      pg_client_of_def logged_client_def logged_race_def polled_def demo_client_def demo_opened_def check_cancelled_def
      pg_drop_def)

theorem pg_session_hygiene_witness:
  "confirmed_end (EvBatch ''COMMIT'' (Answer (Inr ())))
   \<and> \<not> pcl_reusable (fst (pg_finish (logged_client (demo_client TokenWon)) (EndCommit ()) (demo_opened, ((), []))
          \<lparr>ms_next = 1, ms_sent = \<lambda>m. True\<rparr>))"
proof
  have "\<exists>ev. [EvAwait (build_begin_sql options_default) (Inr ())] @ [EvBatch ''COMMIT'' (Answer (Inr ()))] =
      [EvAwait (build_begin_sql options_default) (Inr ())] @ [ev] \<and> confirmed_end ev"
    using pg_session_hygiene [OF demo_begin, of "Answer (Inr ())" undefined undefined] demo_commit
      pg_requests.simps(1) pooled_client.simps(2) by metis
  then show "confirmed_end (EvBatch ''COMMIT'' (Answer (Inr ())))" by simp
qed (simp add: pg_finish_def state_after_def pg_commit_def call_bind_def ensure_open_def refuse_cancelled_def
    pg_client_of_def logged_client_def logged_race_def polled_def demo_client_def demo_opened_def check_cancelled_def
    pg_drop_def quarantined_def invalidate_def)

end
