(* ===== verification/Sql_Dialect.thy ===== *)
theory Sql_Dialect
  imports Relational Identifier Typed_Parameter
begin

text \<open>
  What \<open>plenora-database-sql/src/lib.rs\<close> and \<open>filter.rs\<close> know of a dialect before anything is rendered: the
  identifiers, the names and shapes of the spatial functions in each product, and the lowering of the simple
  query and of a plan's filter to the relational query.
\<close>

section \<open>Identifiers and dialects\<close>

definition SQL_SERVER_MAX_IDENTIFIER_CHARS :: nat where "SQL_SERVER_MAX_IDENTIFIER_CHARS = 128"
definition SQL_SERVER_MAX_BIND_PARAMETERS :: nat where "SQL_SERVER_MAX_BIND_PARAMETERS = 2100"
definition ORACLE_MAX_IDENTIFIER_BYTES :: nat where "ORACLE_MAX_IDENTIFIER_BYTES = 128"

text \<open>An \<open>Identifier\<close> is its text, once \<open>new\<close> has accepted it.\<close>

definition identifier_new :: "string \<Rightarrow> string result" where
  "identifier_new v =
     (if v = [] \<or> CHR 0x00 \<in> set v then Inl (invalid_plan ''identificatore SQL vuoto o contenente NUL'')
      else if char_count v > 256 then Inl (invalid_plan ''identificatore SQL oltre il limite del core'')
      else Inr v)"

record object_name =
  on_catalog :: "string option"
  on_schema :: "string option"
  on_object :: string

datatype dialect = DlPostgres | DlMysql | DlSqlServer | DlOracle | DlDb2 | DlSqlite | DlDuckdb

fun to_identifier_dialect :: "dialect \<Rightarrow> identifier_dialect" where
  "to_identifier_dialect DlPostgres = IdPostgres"
| "to_identifier_dialect DlDb2 = IdPostgres"
| "to_identifier_dialect DlSqlite = IdPostgres"
| "to_identifier_dialect DlDuckdb = IdPostgres"
| "to_identifier_dialect DlOracle = IdOracle"
| "to_identifier_dialect DlMysql = IdMysql"
| "to_identifier_dialect DlSqlServer = IdSqlServer"

fun renderer_dialect_provider :: "dialect \<Rightarrow> provider_kind" where
  "renderer_dialect_provider DlPostgres = Postgres"
| "renderer_dialect_provider DlMysql = Mysql"
| "renderer_dialect_provider DlSqlServer = Sqlserver"
| "renderer_dialect_provider DlOracle = Oracle"
| "renderer_dialect_provider DlDb2 = Db2"
| "renderer_dialect_provider DlSqlite = Sqlite"
| "renderer_dialect_provider DlDuckdb = Duckdb"

fun renderer_cast_dialect :: "dialect \<Rightarrow> cast_dialect" where
  "renderer_cast_dialect DlPostgres = CdPostgres"
| "renderer_cast_dialect DlMysql = CdMysql"
| "renderer_cast_dialect DlSqlServer = CdSqlServer"
| "renderer_cast_dialect DlOracle = CdOracle"
| "renderer_cast_dialect DlDb2 = CdDb2"
| "renderer_cast_dialect DlSqlite = CdSqlite"
| "renderer_cast_dialect DlDuckdb = CdDuckdb"

section \<open>Symbols\<close>

fun comparison_symbol :: "comparison_operator \<Rightarrow> string" where
  "comparison_symbol CoEq = ''=''"
| "comparison_symbol CoNe = ''<>''"
| "comparison_symbol CoLt = ''<''"
| "comparison_symbol CoLte = ''<=''"
| "comparison_symbol CoGt = ''>''"
| "comparison_symbol CoGte = ''>=''"

fun arithmetic_symbol :: "arithmetic_operator \<Rightarrow> string" where
  "arithmetic_symbol ArAdd = ''+''"
| "arithmetic_symbol ArSubtract = ''-''"
| "arithmetic_symbol ArMultiply = ''*''"
| "arithmetic_symbol ArDivide = ''/''"

fun operator_symbol :: "spatial_operator \<Rightarrow> string" where
  "operator_symbol BoundingBoxIntersects = ''&&''"
| "operator_symbol BoundingBoxContains = ''~''"
| "operator_symbol BoundingBoxContainedBy = ''@''"
| "operator_symbol KnnDistance = ''<->''"
| "operator_symbol KnnCentroidDistance = ''<<->>''"

fun scalar_name :: "scalar_function \<Rightarrow> string" where
  "scalar_name Lower = ''LOWER''"
| "scalar_name Upper = ''UPPER''"
| "scalar_name Coalesce = ''COALESCE''"
| "scalar_name Count = ''COUNT''"
| "scalar_name Sum = ''SUM''"
| "scalar_name Average = ''AVG''"
| "scalar_name Minimum = ''MIN''"
| "scalar_name Maximum = ''MAX''"
| "scalar_name RowNumber = ''ROW_NUMBER''"
| "scalar_name Rank = ''RANK''"
| "scalar_name DenseRank = ''DENSE_RANK''"
| "scalar_name Lag = ''LAG''"
| "scalar_name Lead = ''LEAD''"

definition dialect_scalar_name :: "dialect \<Rightarrow> scalar_function \<Rightarrow> string" where
  "dialect_scalar_name d f = (if d = DlSqlServer \<and> f = Count then ''COUNT_BIG'' else scalar_name f)"

definition show_u64 :: "u64 \<Rightarrow> string" where "show_u64 n = show_nat (unat n)"

fun frame_units_text :: "window_frame_units \<Rightarrow> string" where
  "frame_units_text FrRows = ''ROWS''"
| "frame_units_text FrRange = ''RANGE''"
| "frame_units_text FrGroups = ''GROUPS''"

fun frame_bound_text :: "window_frame_bound \<Rightarrow> string" where
  "frame_bound_text UnboundedPreceding = ''UNBOUNDED PRECEDING''"
| "frame_bound_text (Preceding offset) = show_u64 offset @ '' PRECEDING''"
| "frame_bound_text CurrentRow = ''CURRENT ROW''"
| "frame_bound_text (Following offset) = show_u64 offset @ '' FOLLOWING''"
| "frame_bound_text UnboundedFollowing = ''UNBOUNDED FOLLOWING''"

definition render_window_frame :: "window_frame \<Rightarrow> string" where
  "render_window_frame f =
     (case wf_end f of
        None \<Rightarrow> frame_units_text (wf_units f) @ '' '' @ frame_bound_text (wf_start f)
      | Some e \<Rightarrow> frame_units_text (wf_units f) @ '' BETWEEN '' @ frame_bound_text (wf_start f) @ '' AND ''
                 @ frame_bound_text e)"

section \<open>Spatial functions by product\<close>

text \<open>The PostGIS names.\<close>

primrec spatial_name :: "spatial_function \<Rightarrow> string" where
  "spatial_name GeometryType = ''ST_GeometryType''"
| "spatial_name SfSrid = ''ST_SRID''"
| "spatial_name Dimensions = ''ST_NDims''"
| "spatial_name SfX = ''ST_X''"
| "spatial_name SfY = ''ST_Y''"
| "spatial_name SfZ = ''ST_Z''"
| "spatial_name SfM = ''ST_M''"
| "spatial_name NPoints = ''ST_NPoints''"
| "spatial_name NRings = ''ST_NRings''"
| "spatial_name StartPoint = ''ST_StartPoint''"
| "spatial_name EndPoint = ''ST_EndPoint''"
| "spatial_name PointN = ''ST_PointN''"
| "spatial_name IsEmpty = ''ST_IsEmpty''"
| "spatial_name IsValid = ''ST_IsValid''"
| "spatial_name IsSimple = ''ST_IsSimple''"
| "spatial_name IsClosed = ''ST_IsClosed''"
| "spatial_name Intersects = ''ST_Intersects''"
| "spatial_name Contains = ''ST_Contains''"
| "spatial_name ContainsProperly = ''ST_ContainsProperly''"
| "spatial_name Within = ''ST_Within''"
| "spatial_name Covers = ''ST_Covers''"
| "spatial_name CoveredBy = ''ST_CoveredBy''"
| "spatial_name Touches = ''ST_Touches''"
| "spatial_name Crosses = ''ST_Crosses''"
| "spatial_name Overlaps = ''ST_Overlaps''"
| "spatial_name Disjoint = ''ST_Disjoint''"
| "spatial_name Equals = ''ST_Equals''"
| "spatial_name Relate = ''ST_Relate''"
| "spatial_name DWithin = ''ST_DWithin''"
| "spatial_name SetSrid = ''ST_SetSRID''"
| "spatial_name Transform = ''ST_Transform''"
| "spatial_name Force2d = ''ST_Force2D''"
| "spatial_name Force3d = ''ST_Force3D''"
| "spatial_name Force3dm = ''ST_Force3DM''"
| "spatial_name Force4d = ''ST_Force4D''"
| "spatial_name Buffer = ''ST_Buffer''"
| "spatial_name OffsetCurve = ''ST_OffsetCurve''"
| "spatial_name Intersection = ''ST_Intersection''"
| "spatial_name Difference = ''ST_Difference''"
| "spatial_name SymDifference = ''ST_SymDifference''"
| "spatial_name SfUnion = ''ST_Union''"
| "spatial_name UnaryUnion = ''ST_UnaryUnion''"
| "spatial_name Simplify = ''ST_Simplify''"
| "spatial_name SimplifyPreserveTopology = ''ST_SimplifyPreserveTopology''"
| "spatial_name MakeValid = ''ST_MakeValid''"
| "spatial_name Centroid = ''ST_Centroid''"
| "spatial_name PointOnSurface = ''ST_PointOnSurface''"
| "spatial_name Envelope = ''ST_Envelope''"
| "spatial_name ConvexHull = ''ST_ConvexHull''"
| "spatial_name OrientedEnvelope = ''ST_OrientedEnvelope''"
| "spatial_name Boundary = ''ST_Boundary''"
| "spatial_name LineMerge = ''ST_LineMerge''"
| "spatial_name Reverse = ''ST_Reverse''"
| "spatial_name Subdivide = ''ST_Subdivide''"
| "spatial_name SnapToGrid = ''ST_SnapToGrid''"
| "spatial_name Distance = ''ST_Distance''"
| "spatial_name Distance3d = ''ST_3DDistance''"
| "spatial_name MaxDistance = ''ST_MaxDistance''"
| "spatial_name HausdorffDistance = ''ST_HausdorffDistance''"
| "spatial_name FrechetDistance = ''ST_FrechetDistance''"
| "spatial_name Azimuth = ''ST_Azimuth''"
| "spatial_name Area = ''ST_Area''"
| "spatial_name Length = ''ST_Length''"
| "spatial_name Perimeter = ''ST_Perimeter''"
| "spatial_name Collect = ''ST_Collect''"
| "spatial_name Extent = ''ST_Extent''"
| "spatial_name AsGeoJson = ''ST_AsGeoJSON''"
| "spatial_name AsMvtGeom = ''ST_AsMVTGeom''"
| "spatial_name AsMvt = ''ST_AsMVT''"
| "spatial_name AsGeobuf = ''ST_AsGeobuf''"
| "spatial_name ClusterDbscan = ''ST_ClusterDBSCAN''"
| "spatial_name ClusterKMeans = ''ST_ClusterKMeans''"

definition mysql_spatial_name :: "spatial_function \<Rightarrow> string option" where
  "mysql_spatial_name f =
     (if f = Dimensions then Some ''ST_Dimension'' else if f = NPoints then Some ''ST_NumPoints'' else None)"

definition db2_spatial_name :: "spatial_function \<Rightarrow> string option" where
  "db2_spatial_name f = (if f = Dimensions then Some ''ST_COORDDIM'' else None)"

definition dialect_spatial_name :: "dialect \<Rightarrow> spatial_function \<Rightarrow> string" where
  "dialect_spatial_name d f =
     (case d of
        DlMysql \<Rightarrow> (case mysql_spatial_name f of Some name \<Rightarrow> name | None \<Rightarrow> spatial_name f)
      | DlDb2 \<Rightarrow> (case db2_spatial_name f of Some name \<Rightarrow> name | None \<Rightarrow> spatial_name f)
      | _ \<Rightarrow> spatial_name f)"

datatype sql_server_spatial_shape =
  SssProperty | SssUnary | SssUnaryPredicate | SssBinaryValue | SssBinaryPredicate | SssNumeric

definition sql_server_spatial_method ::
  "spatial_function \<Rightarrow> spatial_semantics option \<Rightarrow> (string \<times> sql_server_spatial_shape) option" where
  "sql_server_spatial_method f semantics =
     (if f = SfX \<or> f = SfY then
        (case semantics of
           None \<Rightarrow> None
         | Some s \<Rightarrow>
             Some (if f = SfX \<and> s = Geometry then ''STX''
                   else if f = SfX \<and> s = Geography then ''Long''
                   else if f = SfY \<and> s = Geometry then ''STY''
                   else ''Lat'', SssProperty))
      else case f of
          GeometryType \<Rightarrow> Some (''STGeometryType'', SssUnary)
        | SfSrid \<Rightarrow> Some (''STSrid'', SssProperty)
        | Dimensions \<Rightarrow> Some (''STDimension'', SssUnary)
        | NPoints \<Rightarrow> Some (''STNumPoints'', SssUnary)
        | IsEmpty \<Rightarrow> Some (''STIsEmpty'', SssUnaryPredicate)
        | IsValid \<Rightarrow> Some (''STIsValid'', SssUnaryPredicate)
        | IsClosed \<Rightarrow> Some (''STIsClosed'', SssUnaryPredicate)
        | Intersects \<Rightarrow> Some (''STIntersects'', SssBinaryPredicate)
        | Contains \<Rightarrow> Some (''STContains'', SssBinaryPredicate)
        | Within \<Rightarrow> Some (''STWithin'', SssBinaryPredicate)
        | Disjoint \<Rightarrow> Some (''STDisjoint'', SssBinaryPredicate)
        | Equals \<Rightarrow> Some (''STEquals'', SssBinaryPredicate)
        | Overlaps \<Rightarrow> Some (''STOverlaps'', SssBinaryPredicate)
        | Distance \<Rightarrow> Some (''STDistance'', SssBinaryValue)
        | Area \<Rightarrow> Some (''STArea'', SssUnary)
        | Length \<Rightarrow> Some (''STLength'', SssUnary)
        | StartPoint \<Rightarrow> Some (''STStartPoint'', SssUnary)
        | EndPoint \<Rightarrow> Some (''STEndPoint'', SssUnary)
        | PointN \<Rightarrow> Some (''STPointN'', SssNumeric)
        | Buffer \<Rightarrow> Some (''STBuffer'', SssNumeric)
        | Simplify \<Rightarrow> Some (''Reduce'', SssNumeric)
        | Intersection \<Rightarrow> Some (''STIntersection'', SssBinaryValue)
        | Difference \<Rightarrow> Some (''STDifference'', SssBinaryValue)
        | SymDifference \<Rightarrow> Some (''STSymDifference'', SssBinaryValue)
        | SfUnion \<Rightarrow> Some (''STUnion'', SssBinaryValue)
        | ConvexHull \<Rightarrow> Some (''STConvexHull'', SssUnary)
        | MakeValid \<Rightarrow> Some (''MakeValid'', SssUnary)
        | Centroid \<Rightarrow> Some (''STCentroid'', SssUnary)
        | Envelope \<Rightarrow> Some (''STEnvelope'', SssUnary)
        | Boundary \<Rightarrow> Some (''STBoundary'', SssUnary)
        | PointOnSurface \<Rightarrow> Some (''STPointOnSurface'', SssUnary)
        | IsSimple \<Rightarrow> Some (''STIsSimple'', SssUnaryPredicate)
        | Touches \<Rightarrow> Some (''STTouches'', SssBinaryPredicate)
        | Crosses \<Rightarrow> Some (''STCrosses'', SssBinaryPredicate)
        | SfZ \<Rightarrow> Some (''Z'', SssProperty)
        | SfM \<Rightarrow> Some (''M'', SssProperty)
        | _ \<Rightarrow> None)"

datatype oracle_point_position = OppFirst | OppLast | OppArgument

datatype oracle_shape_kind =
  OsGeometryType | OsSrid | OsDimensions | OsCoordinate string | OsNPoints | OsPoint oracle_point_position
| OsIsValid | OsRelate string | OsDisjoint | OsDWithin | OsSetSrid | OsTransform | OsBuffer
| OsUnaryGeometry string | OsUnaryGeometryNoTolerance string | OsBinaryGeometry string
| OsUnaryMeasure string string | OsBinaryMeasure string string | OsGeoJson

definition oracle_spatial_shape :: "spatial_function \<Rightarrow> oracle_shape_kind option" where
  "oracle_spatial_shape f =
     (case f of
        GeometryType \<Rightarrow> Some (OsGeometryType)
      | SfSrid \<Rightarrow> Some (OsSrid)
      | Dimensions \<Rightarrow> Some (OsDimensions)
      | SfX \<Rightarrow> Some (OsCoordinate ''X'')
      | SfY \<Rightarrow> Some (OsCoordinate ''Y'')
      | SfZ \<Rightarrow> Some (OsCoordinate ''Z'')
      | NPoints \<Rightarrow> Some (OsNPoints)
      | StartPoint \<Rightarrow> Some (OsPoint OppFirst)
      | EndPoint \<Rightarrow> Some (OsPoint OppLast)
      | PointN \<Rightarrow> Some (OsPoint OppArgument)
      | IsValid \<Rightarrow> Some (OsIsValid)
      | Intersects \<Rightarrow> Some (OsRelate ''ANYINTERACT'')
      | Contains \<Rightarrow> Some (OsRelate ''CONTAINS'')
      | Within \<Rightarrow> Some (OsRelate ''INSIDE'')
      | Covers \<Rightarrow> Some (OsRelate ''COVERS'')
      | CoveredBy \<Rightarrow> Some (OsRelate ''COVEREDBY'')
      | Touches \<Rightarrow> Some (OsRelate ''TOUCH'')
      | Overlaps \<Rightarrow> Some (OsRelate ''OVERLAPBDYDISJOINT+OVERLAPBDYINTERSECT'')
      | Equals \<Rightarrow> Some (OsRelate ''EQUAL'')
      | Disjoint \<Rightarrow> Some (OsDisjoint)
      | DWithin \<Rightarrow> Some (OsDWithin)
      | SetSrid \<Rightarrow> Some (OsSetSrid)
      | Transform \<Rightarrow> Some (OsTransform)
      | Buffer \<Rightarrow> Some (OsBuffer)
      | Intersection \<Rightarrow> Some (OsBinaryGeometry ''SDO_INTERSECTION'')
      | Difference \<Rightarrow> Some (OsBinaryGeometry ''SDO_DIFFERENCE'')
      | SymDifference \<Rightarrow> Some (OsBinaryGeometry ''SDO_XOR'')
      | SfUnion \<Rightarrow> Some (OsBinaryGeometry ''SDO_UNION'')
      | Centroid \<Rightarrow> Some (OsUnaryGeometry ''SDO_CENTROID'')
      | PointOnSurface \<Rightarrow> Some (OsUnaryGeometry ''SDO_POINTONSURFACE'')
      | Envelope \<Rightarrow> Some (OsUnaryGeometryNoTolerance ''SDO_MBR'')
      | ConvexHull \<Rightarrow> Some (OsUnaryGeometry ''SDO_CONVEXHULL'')
      | Distance \<Rightarrow> Some (OsBinaryMeasure ''SDO_DISTANCE'' ''M'')
      | Area \<Rightarrow> Some (OsUnaryMeasure ''SDO_AREA'' ''SQ_M'')
      | Length \<Rightarrow> Some (OsUnaryMeasure ''SDO_LENGTH'' ''M'')
      | Perimeter \<Rightarrow> Some (OsUnaryMeasure ''SDO_LENGTH'' ''M'')
      | AsGeoJson \<Rightarrow> Some (OsGeoJson)
      | _ \<Rightarrow> None)"

section \<open>The simple query\<close>

datatype simple_expression =
  SxAnd "simple_expression list"
| SxOr "simple_expression list"
| SxCompare string comparison_operator string
| SxIsNull string
| SxIsNotNull string
| SxIn string "string list"
| SxBetween string string string
| SxLike string string bool
| SxSpatialIntersects string string
| SxSpatialPredicate spatial_function string "string option" "string option"

record simple_ordering =
  sor_field :: string
  sor_direction :: sort_direction

record simple_select =
  sse_source :: object_name
  sse_projection :: "string list"
  sse_filter :: "simple_expression option"
  sse_order_by :: "simple_ordering list"
  sse_limit :: "u64 option"

definition simple_column :: "string \<Rightarrow> string option \<Rightarrow> query_expression" where
  "simple_column field relation = Column \<lparr>cr_relation = relation, cr_field = field\<rparr>"

fun simple_expression_to_relational :: "simple_expression \<Rightarrow> string option \<Rightarrow> query_expression" where
  "simple_expression_to_relational (SxAnd args) relation =
     And (map (\<lambda>a. simple_expression_to_relational a relation) args)"
| "simple_expression_to_relational (SxOr args) relation =
     Or (map (\<lambda>a. simple_expression_to_relational a relation) args)"
| "simple_expression_to_relational (SxCompare field op name) relation =
     Compare (simple_column field relation) op (Parameter name)"
| "simple_expression_to_relational (SxIsNull field) relation = IsNull (simple_column field relation) False"
| "simple_expression_to_relational (SxIsNotNull field) relation = IsNull (simple_column field relation) True"
| "simple_expression_to_relational (SxIn field names) relation =
     InList (simple_column field relation) (map Parameter names) False"
| "simple_expression_to_relational (SxBetween field lower upper) relation =
     Between (simple_column field relation) (Parameter lower) (Parameter upper) False"
| "simple_expression_to_relational (SxLike field name case_insensitive) relation =
     Like (simple_column field relation) (Parameter name) case_insensitive False"
| "simple_expression_to_relational (SxSpatialIntersects field name) relation =
     Spatial Intersects [simple_column field relation, Parameter name]"
| "simple_expression_to_relational (SxSpatialPredicate f field g distance) relation =
     Spatial f (simple_column field relation # map Parameter (list_of_option g) @ map Parameter (list_of_option distance))"

definition simple_select_to_relational :: "simple_select \<Rightarrow> query_operation" where
  "simple_select_to_relational s =
     QueryOperation []
       (Some \<lparr>qs_object = \<lparr>or_catalog = on_catalog (sse_source s), or_schema = on_schema (sse_source s),
               or_object = on_object (sse_source s)\<rparr>, qs_alias = None\<rparr>)
       None (map (\<lambda>field. QueryProjection (simple_column field None) None) (sse_projection s)) []
       (map_option (\<lambda>e. simple_expression_to_relational e None) (sse_filter s)) [] None
       (map (\<lambda>o1. QueryOrdering (simple_column (sor_field o1) None) (sor_direction o1)) (sse_order_by s))
       False [] [] (sse_limit s) None None []"

section \<open>The filter of a plan\<close>

definition CASE_INSENSITIVE_LIKE_REFUSAL :: string where
  "CASE_INSENSITIVE_LIKE_REFUSAL = ''LIKE case-insensitive richiede una collation esplicita''"

definition SPATIAL_FILTER_REFUSAL :: string where
  "SPATIAL_FILTER_REFUSAL = ''filtro spatial richiede tipo, WKB e SRID risolti''"

record filter_lowering =
  fl_provider :: provider_kind
  fl_case_insensitive_like :: bool
  fl_spatial :: bool

definition lower_comparison ::
  "string \<Rightarrow> comparison_operator \<Rightarrow> string \<Rightarrow> (string \<Rightarrow> string result) \<Rightarrow> simple_expression result" where
  "lower_comparison field op parameter ident = and_then (ident field) (\<lambda>f. Inr (SxCompare f op parameter))"

fun lower_plan_filter :: "filter_expression \<Rightarrow> filter_lowering \<Rightarrow> (string \<Rightarrow> string result) \<Rightarrow> simple_expression result"
  and lower_plan_filters :: "filter_expression list \<Rightarrow> filter_lowering \<Rightarrow> (string \<Rightarrow> string result) \<Rightarrow> simple_expression list result"
where
  "lower_plan_filter (FAnd args) policy ident = and_then (lower_plan_filters args policy ident) (\<lambda>es. Inr (SxAnd es))"
| "lower_plan_filter (FOr args) policy ident = and_then (lower_plan_filters args policy ident) (\<lambda>es. Inr (SxOr es))"
| "lower_plan_filter (FEq field p) policy ident = lower_comparison field CoEq p ident"
| "lower_plan_filter (FNe field p) policy ident = lower_comparison field CoNe p ident"
| "lower_plan_filter (FLt field p) policy ident = lower_comparison field CoLt p ident"
| "lower_plan_filter (FLte field p) policy ident = lower_comparison field CoLte p ident"
| "lower_plan_filter (FGt field p) policy ident = lower_comparison field CoGt p ident"
| "lower_plan_filter (FGte field p) policy ident = lower_comparison field CoGte p ident"
| "lower_plan_filter (FIsNull field) policy ident = and_then (ident field) (\<lambda>f. Inr (SxIsNull f))"
| "lower_plan_filter (FIsNotNull field) policy ident = and_then (ident field) (\<lambda>f. Inr (SxIsNotNull f))"
| "lower_plan_filter (FIn field ps) policy ident = and_then (ident field) (\<lambda>f. Inr (SxIn f ps))"
| "lower_plan_filter (FBetween field lower upper) policy ident =
     and_then (ident field) (\<lambda>f. Inr (SxBetween f lower upper))"
| "lower_plan_filter (FLike field p case_insensitive) policy ident =
     (if case_insensitive \<and> \<not> fl_case_insensitive_like policy
      then Inl (unsupported (fl_provider policy) PhPrepare CASE_INSENSITIVE_LIKE_REFUSAL)
      else and_then (ident field) (\<lambda>f. Inr (SxLike f p case_insensitive)))"
| "lower_plan_filter (FSpatial function field g distance) policy ident =
     (if \<not> fl_spatial policy
      then Inl (unsupported (fl_provider policy) PhPrepare SPATIAL_FILTER_REFUSAL)
      else and_then (ident field) (\<lambda>f. Inr (SxSpatialPredicate function f g distance)))"
| "lower_plan_filters [] policy ident = Inr []"
| "lower_plan_filters (a # rest) policy ident =
     and_then (lower_plan_filter a policy ident) (\<lambda>e.
     and_then (lower_plan_filters rest policy ident) (\<lambda>es. Inr (e # es)))"

definition select_columns_by_name :: "'t list \<Rightarrow> string list \<Rightarrow> ('t \<Rightarrow> string) \<Rightarrow> database_error \<Rightarrow> 't list result" where
  "select_columns_by_name available projection name_of missing =
     (if projection = [] then Inr available
      else try_collect (\<lambda>name. ok_or (find (\<lambda>column. name_of column = name) available) missing) projection)"

end
