(* ===== verification/Sql_Renderer.thy ===== *)
theory Sql_Renderer
  imports Sql_Dialect Probe_Judge
begin

text \<open>
  The renderer of \<open>plenora-database-sql/src/lib.rs\<close>: a relational query becomes the SQL text of a dialect and the
  list of its binds.  A rendering is a function on the state of the render (the binds so far and the scopes of the
  operations around) that returns an error or a value with the next state.  Every method that renders children takes
  the two recursive entry points as \<open>re\<close> and \<open>rq\<close>; the recursion is closed at the end.  The judgement of scalar
  operands (\<open>spatial_operand.rs\<close>) is the parameter \<open>operands\<close>.
\<close>

section \<open>The renderer and its state\<close>

record renderer =
  rn_dialect :: dialect
  rn_spatial_intersects :: bool
  rn_parameter_types :: "string \<Rightarrow> query_parameter_type option"
  rn_spatial_parameters :: "string \<Rightarrow> (spatial_semantics \<times> u32) option"
  rn_spatial_columns :: "string option \<times> string \<Rightarrow> spatial_semantics option"
  rn_wkb_axis_option :: "string option"
  rn_provider :: "provider_kind option"
  rn_evidence :: probe_evidence

definition MYSQL_WKB_AXIS_OPTION :: string where "MYSQL_WKB_AXIS_OPTION = ''axis-order=long-lat''"

definition renderer_new :: "dialect \<Rightarrow> bool \<Rightarrow> renderer" where
  "renderer_new d spatial_intersects =
     \<lparr>rn_dialect = d, rn_spatial_intersects = spatial_intersects, rn_parameter_types = \<lambda>_. None,
      rn_spatial_parameters = \<lambda>_. None, rn_spatial_columns = \<lambda>_. None,
      rn_wkb_axis_option = (if d = DlMysql then Some MYSQL_WKB_AXIS_OPTION else None),
      rn_provider = None, rn_evidence = EvCompileOnly\<rparr>"

definition with_provider :: "provider_kind \<Rightarrow> renderer \<Rightarrow> renderer" where
  "with_provider p r = r\<lparr>rn_provider := Some p\<rparr>"

definition with_parameter_types :: "(string \<Rightarrow> query_parameter_type option) \<Rightarrow> renderer \<Rightarrow> renderer" where
  "with_parameter_types types r = r\<lparr>rn_parameter_types := types\<rparr>"

definition with_spatial_probes_verified :: "renderer \<Rightarrow> renderer" where
  "with_spatial_probes_verified r = r\<lparr>rn_evidence := EvCatalog\<rparr>"

definition with_wkb_axis_option :: "string option \<Rightarrow> renderer \<Rightarrow> renderer" where
  "with_wkb_axis_option option r = r\<lparr>rn_wkb_axis_option := option\<rparr>"

definition with_sql_server_spatial_parameters ::
  "(string \<Rightarrow> (spatial_semantics \<times> u32) option) \<Rightarrow> renderer \<Rightarrow> renderer" where
  "with_sql_server_spatial_parameters ps r = r\<lparr>rn_spatial_parameters := ps\<rparr>"

definition with_sql_server_spatial_columns ::
  "(string option \<times> string \<Rightarrow> spatial_semantics option) \<Rightarrow> renderer \<Rightarrow> renderer" where
  "with_sql_server_spatial_columns cs r = r\<lparr>rn_spatial_columns := cs\<rparr>"

definition renderer_provider :: "renderer \<Rightarrow> provider_kind" where
  "renderer_provider r = (case rn_provider r of Some p \<Rightarrow> p | None \<Rightarrow> renderer_dialect_provider (rn_dialect r))"

definition renderer_axis_argument :: "renderer \<Rightarrow> string" where
  "renderer_axis_argument r =
     (case rn_wkb_axis_option r of
        None \<Rightarrow> []
      | Some option \<Rightarrow> '', '' @ [CHR 0x27] @ option @ [CHR 0x27])"

record render_state =
  rst_binds :: "(nat \<times> string) list"
  rst_scopes :: "relation_scope list"
  rst_outer :: "string set"

definition render_state_default :: render_state where
  "render_state_default = \<lparr>rst_binds = [], rst_scopes = [], rst_outer = {}\<rparr>"

definition no_scope :: relation_scope where
  "no_scope = \<lparr>rs_sources = [], rs_derived = {}, rs_common_tables = {}\<rparr>"

text \<open>The innermost scope is the head of the list.\<close>

definition current_scope :: "render_state \<Rightarrow> relation_scope" where
  "current_scope st = (case rst_scopes st of [] \<Rightarrow> no_scope | s # _ \<Rightarrow> s)"

definition visible_common_tables :: "render_state \<Rightarrow> string set" where
  "visible_common_tables st = (case rst_scopes st of [] \<Rightarrow> rst_outer st | s # _ \<Rightarrow> rs_common_tables s)"

section \<open>Renderings\<close>

type_synonym 'a rendering = "render_state \<Rightarrow> ('a \<times> render_state) result"

definition written :: "'a \<Rightarrow> 'a rendering" where "written x st = Inr (x, st)"

definition failed :: "database_error \<Rightarrow> 'a rendering" where "failed e st = Inl e"

definition attempt :: "'a result \<Rightarrow> 'a rendering" where
  "attempt v st = and_then v (\<lambda>x. Inr (x, st))"

definition followed :: "'a rendering \<Rightarrow> ('a \<Rightarrow> 'b rendering) \<Rightarrow> 'b rendering" where
  "followed m f st = and_then (m st) (\<lambda>(x, st'). f x st')"

text \<open>A judgement that reads the scope and writes nothing.\<close>

definition judged :: "(relation_scope \<Rightarrow> 'a result) \<Rightarrow> 'a rendering" where
  "judged f st = and_then (f (current_scope st)) (\<lambda>x. Inr (x, st))"

fun collected :: "'a rendering list \<Rightarrow> 'a list rendering" where
  "collected [] = written []"
| "collected (m # ms) = followed m (\<lambda>x. followed (collected ms) (\<lambda>xs. written (x # xs)))"

fun join_texts :: "string \<Rightarrow> string list \<Rightarrow> string" where
  "join_texts sep [] = []"
| "join_texts sep [s] = s"
| "join_texts sep (s # ss) = s @ sep @ join_texts sep ss"

text \<open>Parts written one after the other, and the same with a separator.\<close>

definition texts :: "string rendering list \<Rightarrow> string rendering" where
  "texts ms = followed (collected ms) (\<lambda>ss. written (concat ss))"

definition joined :: "string \<Rightarrow> string rendering list \<Rightarrow> string rendering" where
  "joined sep ms = followed (collected ms) (\<lambda>ss. written (join_texts sep ss))"

definition invalid :: "string \<Rightarrow> 'a rendering" where "invalid message = failed (invalid_plan message)"

definition refused :: "renderer \<Rightarrow> string \<Rightarrow> 'a rendering" where
  "refused r message = failed (unsupported (renderer_provider r) PhPrepare message)"

section \<open>Names, objects and binds\<close>

definition quote :: "renderer \<Rightarrow> string \<Rightarrow> string result" where
  "quote r ident = quote_identifier (to_identifier_dialect (rn_dialect r)) ident"

text \<open>\<open>self.quote(&Identifier::new(name)?)?\<close>.\<close>

definition quoted :: "renderer \<Rightarrow> string \<Rightarrow> string result" where
  "quoted r name = and_then (identifier_new name) (quote r)"

definition render_object :: "renderer \<Rightarrow> object_name \<Rightarrow> string result" where
  "render_object r obj =
     and_then (try_collect (quote r)
        (list_of_option (on_catalog obj) @ list_of_option (on_schema obj) @ [on_object obj])) (\<lambda>parts.
     Inr (join_texts ''.'' parts))"

definition identifier_part :: "string option \<Rightarrow> string option result" where
  "identifier_part part =
     (case part of None \<Rightarrow> Inr None | Some name \<Rightarrow> and_then (identifier_new name) (\<lambda>v. Inr (Some v)))"

definition placeholder_text :: "dialect \<Rightarrow> nat \<Rightarrow> string" where
  "placeholder_text d ordinal =
     (case d of
        DlPostgres \<Rightarrow> ''$'' @ show_nat ordinal
      | DlOracle \<Rightarrow> '':'' @ show_nat ordinal
      | DlSqlServer \<Rightarrow> ''@p'' @ show_nat ordinal
      | _ \<Rightarrow> ''?'')"

definition bind_parameter :: "renderer \<Rightarrow> string \<Rightarrow> string rendering" where
  "bind_parameter r name st =
     (let ordinal = length (rst_binds st) + 1
      in Inr (placeholder_text (rn_dialect r) ordinal, st\<lparr>rst_binds := rst_binds st @ [(ordinal, name)]\<rparr>))"

definition validate_bind_count :: "renderer \<Rightarrow> (nat \<times> string) list \<Rightarrow> unit result" where
  "validate_bind_count r binds =
     (if rn_dialect r = DlSqlServer \<and> length binds > SQL_SERVER_MAX_BIND_PARAMETERS
      then Inl (resource_limit ''query SQL Server oltre il limite di 2100 parametri'') else Inr ())"

definition render_query_source :: "renderer \<Rightarrow> query_source \<Rightarrow> string result" where
  "render_query_source r s =
     and_then (identifier_part (or_catalog (qs_object s))) (\<lambda>catalog.
     and_then (identifier_part (or_schema (qs_object s))) (\<lambda>schema.
     and_then (identifier_new (or_object (qs_object s))) (\<lambda>obj.
     and_then (render_object r \<lparr>on_catalog = catalog, on_schema = schema, on_object = obj\<rparr>) (\<lambda>v.
     case qs_alias s of
       Some alias \<Rightarrow>
         and_then (quoted r alias) (\<lambda>name. Inr (v @ (if rn_dialect r = DlOracle then '' '' else '' AS '') @ name))
     | None \<Rightarrow>
         if rn_dialect r = DlOracle
         then and_then (quoted r (or_object (qs_object s))) (\<lambda>name. Inr (v @ '' '' @ name))
         else if rn_dialect r = DlDb2
         then and_then (quoted r (or_object (qs_object s))) (\<lambda>name. Inr (v @ '' AS '' @ name))
         else Inr v))))"

section \<open>Locks\<close>

definition sql_server_lock_hints :: "renderer \<Rightarrow> query_source \<Rightarrow> query_lock option \<Rightarrow> string list option result" where
  "sql_server_lock_hints r s locking =
     (if rn_dialect r \<noteq> DlSqlServer then Inr None
      else case locking of
        None \<Rightarrow> Inr None
      | Some lock \<Rightarrow>
          if ql_relations lock \<noteq> [] \<and> source_name s \<notin> set (ql_relations lock) then Inr None
          else
            and_then (case ql_strength lock of
                LkUpdate \<Rightarrow> Inr ''UPDLOCK''
              | LkShare \<Rightarrow> Inr ''HOLDLOCK''
              | _ \<Rightarrow> Inl (unsupported (renderer_provider r) PhPrepare
                      ''forza di locking PostgreSQL senza equivalente SQL Server esatto'')) (\<lambda>strength.
            case ql_wait lock of
              LkWait \<Rightarrow> Inr (Some [strength])
            | LkNoWait \<Rightarrow> Inr (Some [strength, ''NOWAIT''])
            | LkSkipLocked \<Rightarrow> Inl (unsupported (renderer_provider r) PhPrepare
                ''READPAST SQL Server non equivale a SKIP LOCKED in ogni isolamento'')))"

fun check_lock_targets :: "renderer \<Rightarrow> string list \<Rightarrow> string list \<Rightarrow> string list \<Rightarrow> unit result" where
  "check_lock_targets r physical derived [] = Inr ()"
| "check_lock_targets r physical derived (target # targets) =
     (if target \<in> set derived
      then Inl (unsupported (renderer_provider r) PhPrepare
        ''table hint SQL Server non applicabile a una derived source'')
      else if target \<notin> set physical
      then Inl (invalid_plan ''target locking SQL Server non presente fra le source fisiche'')
      else check_lock_targets r physical derived targets)"

definition validate_sql_server_lock_targets :: "renderer \<Rightarrow> query_operation \<Rightarrow> query_lock \<Rightarrow> unit result" where
  "validate_sql_server_lock_targets r q lock =
     (let physical = map source_name (operation_sources q); derived = map ds_alias (operation_derived q)
      in if ql_relations lock = [] then
           (if derived \<noteq> []
            then Inl (unsupported (renderer_provider r) PhPrepare
              ''locking SQL Server senza target non puo includere derived source'')
            else Inr ())
         else check_lock_targets r physical derived (ql_relations lock))"

section \<open>Spatial arguments\<close>

definition unproven :: "renderer \<Rightarrow> database_error" where
  "unproven r = unsupported (renderer_provider r) PhPrepare PROBE_SRID_UNPROVEN"

text \<open>The terms a probe of SRID \<open>srid\<close> is compared with, in order: the guard is the last column.\<close>

fun judge_peers ::
  "renderer \<Rightarrow> probe_use \<Rightarrow> nat \<Rightarrow> u32 \<Rightarrow> (base_column_ref \<times> u32) option \<Rightarrow> (nat \<times> term_frame_kind) list
     \<Rightarrow> (base_column_ref \<times> u32) option result" where
  "judge_peers r use index srid guard [] = Inr guard"
| "judge_peers r use index srid guard ((peer, frame) # rest) =
     (if peer = index then judge_peers r use index srid guard rest
      else case frame of
        TfColumn column \<Rightarrow> judge_peers r use index srid (Some (column, srid)) rest
      | TfDeclared other \<Rightarrow>
          if other = srid then judge_peers r use index srid guard rest
          else Inl (error_new Crs PhPrepare (Some (renderer_provider r)) PROBE_SRID_MISMATCH)
      | TfParameter _ \<Rightarrow>
          and_then (admit_probe (renderer_provider r) (rn_evidence r) use FrUnbound) (\<lambda>_.
          judge_peers r use index srid guard rest)
      | TfUnresolved \<Rightarrow> Inl (unproven r))"

definition judge_argument ::
  "renderer \<Rightarrow> probe_use \<Rightarrow> (nat \<times> term_frame_kind) list \<Rightarrow> nat \<Rightarrow> term_frame_kind \<Rightarrow> query_expression
     \<Rightarrow> (base_column_ref \<times> u32) option result" where
  "judge_argument r use frames index frame a =
     (let admitted_as = (\<lambda>probe.
            and_then (admit_probe (renderer_provider r) (rn_evidence r) use probe) (\<lambda>admission.
            case (admission, probe) of
              (AdServer PostgresColumnTypmod, FrDeclared srid) \<Rightarrow> judge_peers r use index srid None frames
            | _ \<Rightarrow> Inr None))
      in case frame of
           TfDeclared srid \<Rightarrow> admitted_as (if srid = 0 then FrMissing else FrDeclared srid)
         | TfParameter _ \<Rightarrow> admitted_as FrUnbound
         | TfColumn _ \<Rightarrow> Inr None
         | TfUnresolved \<Rightarrow>
             if \<not> contains_geometry_probe a then Inr None
             else if rn_evidence r = EvCatalog then Inr None
             else Inl (unproven r))"

definition judge_geometry_arguments ::
  "renderer \<Rightarrow> probe_use \<Rightarrow> query_expression list \<Rightarrow> relation_scope \<Rightarrow> (base_column_ref \<times> u32) option list result" where
  "judge_geometry_arguments r use args scope =
     (if length args < 2 then Inr (replicate (length args) None)
      else
        let frames = enumerate 0 (map (term_frame scope) args)
        in try_collect (\<lambda>((index, frame), a). judge_argument r use frames index frame a) (zip frames args))"

definition guarded_value :: "string \<Rightarrow> (base_column_ref \<times> u32) option \<Rightarrow> string" where
  "guarded_value v guard =
     (case guard of
        None \<Rightarrow> v
      | Some (column, srid) \<Rightarrow>
          postgres_column_guard v (show_srid srid) (postgres_relation_text (bc_schema column) (bc_object column))
            (postgres_text_literal (bc_column column)))"

definition apply_probe_guards ::
  "renderer \<Rightarrow> string list \<Rightarrow> (base_column_ref \<times> u32) option list \<Rightarrow> string list" where
  "apply_probe_guards r rendered guards =
     (if rn_dialect r \<noteq> DlPostgres then rendered else map2 guarded_value rendered guards)"

text \<open>The rendered arguments with the guards written around the geometric ones, each at its own position.\<close>

definition guard_geometry_arguments ::
  "renderer \<Rightarrow> spatial_function \<Rightarrow> query_expression list \<Rightarrow> string list \<Rightarrow> relation_scope \<Rightarrow> string list result" where
  "guard_geometry_arguments r f args rendered scope =
     (let geometric = geometric_arguments f args
      in and_then (judge_geometry_arguments r UseFunction (map snd geometric) scope) (\<lambda>guards.
         let guarded = apply_probe_guards r (map (\<lambda>(index, _). rendered ! index) geometric) guards
         in Inr (fold (\<lambda>((index, _), v) out. out[index := v]) (zip geometric guarded) rendered)))"

definition judge_function_arguments ::
  "renderer \<Rightarrow> spatial_function \<Rightarrow> query_expression list \<Rightarrow> relation_scope \<Rightarrow> unit result" where
  "judge_function_arguments r f args scope =
     and_then (judge_geometry_arguments r UseFunction (map snd (geometric_arguments f args)) scope) (\<lambda>_. Inr ())"

section \<open>Expressions\<close>

type_synonym expression_renderer = "query_expression \<Rightarrow> string rendering"
type_synonym query_renderer = "query_operation \<Rightarrow> bool \<Rightarrow> string rendering"

definition render_parameter :: "renderer \<Rightarrow> string \<Rightarrow> query_parameter_type option \<Rightarrow> string rendering" where
  "render_parameter r name declared =
     followed (bind_parameter r name) (\<lambda>v.
     case (case declared of Some kind \<Rightarrow> Some kind | None \<Rightarrow> rn_parameter_types r name) of
       None \<Rightarrow> written v
     | Some kind \<Rightarrow>
         followed (attempt (ensure_json_supported (renderer_provider r) kind)) (\<lambda>_.
         written (render (renderer_cast_dialect (rn_dialect r)) v kind)))"

definition render_arithmetic ::
  "expression_renderer \<Rightarrow> query_expression \<Rightarrow> arithmetic_operator \<Rightarrow> query_expression \<Rightarrow> string rendering" where
  "render_arithmetic re left op right =
     texts [written ''('', re left, written '' '', written (arithmetic_symbol op), written '' '', re right, written '')'']"

definition render_cast ::
  "renderer \<Rightarrow> expression_renderer \<Rightarrow> query_expression \<Rightarrow> query_parameter_type \<Rightarrow> string rendering" where
  "render_cast r re e target =
     followed (attempt (ensure_json_supported (renderer_provider r) target)) (\<lambda>_.
     if rn_dialect r = DlOracle then followed (re e) (\<lambda>v. written (render CdOracle v target))
     else texts [written ''CAST('', re e, written '' AS '', written (type_name (renderer_cast_dialect (rn_dialect r)) target),
            written '')''])"

definition render_case ::
  "expression_renderer \<Rightarrow> query_expression query_case_branch list \<Rightarrow> query_expression option \<Rightarrow> string rendering" where
  "render_case re branches otherwise =
     texts [written ''CASE'',
       texts (map (\<lambda>b. texts [written '' WHEN '', re (cb_when b), written '' THEN '', re (cb_then b)]) branches),
       (case otherwise of None \<Rightarrow> written [] | Some e \<Rightarrow> texts [written '' ELSE '', re e]),
       written '' END'']"

definition render_spatial_output ::
  "renderer \<Rightarrow> expression_renderer \<Rightarrow> query_expression \<Rightarrow> spatial_semantics \<Rightarrow> string rendering" where
  "render_spatial_output r re e semantics =
     followed (re e) (\<lambda>v.
     case (rn_dialect r, semantics) of
       (DlPostgres, Geometry) \<Rightarrow> written (''ST_AsEWKB('' @ v @ '')'')
     | (DlPostgres, Geography) \<Rightarrow> written (''ST_AsEWKB(('' @ v @ '')::geometry)'')
     | (DlMysql, Geometry) \<Rightarrow> written (''ST_AsBinary('' @ v @ renderer_axis_argument r @ '')'')
     | (DlSqlServer, _) \<Rightarrow> written (''('' @ v @ '').AsBinaryZM()'')
     | (DlDb2, Geometry) \<Rightarrow> written (''ST_ASBINARY('' @ v @ '')'')
     | (DlOracle, _) \<Rightarrow> written (''MDSYS.SDO_UTIL.TO_WKBGEOMETRY('' @ v @ '')'')
     | _ \<Rightarrow> refused r ''projection spatial OLTP non qualificata per il provider'')"

definition render_spatial_value ::
  "renderer \<Rightarrow> expression_renderer \<Rightarrow> query_expression \<Rightarrow> u32 \<Rightarrow> spatial_semantics \<Rightarrow> string rendering" where
  "render_spatial_value r re e srid semantics =
     followed (re e) (\<lambda>v.
     case (rn_dialect r, semantics) of
       (DlPostgres, Geometry) \<Rightarrow> written (postgres_spatial_value v srid)
     | (DlPostgres, Geography) \<Rightarrow> written (''('' @ postgres_spatial_value v srid @ '')::geography'')
     | (DlMysql, Geometry) \<Rightarrow>
         written (''ST_GeomFromWKB(CAST('' @ v @ '' AS BINARY), '' @ show_srid srid @ renderer_axis_argument r @ '')'')
     | (DlSqlServer, Geometry) \<Rightarrow> written (''geometry::STGeomFromWKB('' @ v @ '', '' @ show_srid srid @ '')'')
     | (DlSqlServer, Geography) \<Rightarrow> written (''geography::STGeomFromWKB('' @ v @ '', '' @ show_srid srid @ '')'')
     | (DlDb2, Geometry) \<Rightarrow>
         written (''ST_GEOMETRY(BLOB(HEXTORAW(CAST('' @ v @ '' AS VARCHAR(32672)))), '' @ show_srid srid @ '')'')
     | (DlOracle, _) \<Rightarrow> written (''MDSYS.SDO_UTIL.FROM_WKBGEOMETRY('' @ v @ '', '' @ show_srid srid @ '')'')
     | _ \<Rightarrow> refused r ''bind spatial OLTP non qualificato per il provider'')"

definition render_spatial_operator ::
  "renderer \<Rightarrow> expression_renderer \<Rightarrow> spatial_operator \<Rightarrow> query_expression \<Rightarrow> query_expression \<Rightarrow> string rendering" where
  "render_spatial_operator r re op left right =
     (if rn_dialect r \<noteq> DlPostgres
      then refused r ''operatori spatial indicizzati supportati solo da PostgreSQL/PostGIS''
      else
        let operand = (\<lambda>e. if is_bind e then texts [written ''ST_GeomFromEWKB('', re e, written '')''] else re e)
        in followed (operand left) (\<lambda>l.
           followed (operand right) (\<lambda>rt.
           followed (judged (judge_geometry_arguments r UseBoundingBox [left, right])) (\<lambda>guards.
           let rendered = apply_probe_guards r [l, rt] guards
           in written (rendered ! 0 @ '' '' @ operator_symbol op @ '' '' @ rendered ! 1)))))"

definition render_query_ordering :: "renderer \<Rightarrow> expression_renderer \<Rightarrow> query_expression query_ordering \<Rightarrow> string rendering" where
  "render_query_ordering r re o1 =
     (let direction = (case qo_direction o1 of Asc \<Rightarrow> ''ASC'' | Desc \<Rightarrow> ''DESC'')
      in case qo_expression o1 of
           NullsOrder e position \<Rightarrow>
             if rn_dialect r = DlMysql \<or> rn_dialect r = DlSqlServer then
               followed (re e) (\<lambda>v.
               let null_direction = (case position of NullsFirst \<Rightarrow> ''DESC'' | NullsLast \<Rightarrow> ''ASC'');
                   null_key = (if rn_dialect r = DlSqlServer
                               then ''CASE WHEN '' @ v @ '' IS NULL THEN 1 ELSE 0 END''
                               else ''('' @ v @ '' IS NULL)'')
               in written (null_key @ '' '' @ null_direction @ '', '' @ v @ '' '' @ direction))
             else
               texts [re e, written '' '', written direction, written '' NULLS '',
                 written (case position of NullsFirst \<Rightarrow> ''FIRST'' | NullsLast \<Rightarrow> ''LAST'')]
         | e \<Rightarrow> texts [re e, written '' '', written direction])"

definition render_window_call ::
  "renderer \<Rightarrow> expression_renderer \<Rightarrow> string rendering \<Rightarrow> query_expression list \<Rightarrow> query_expression query_ordering list
     \<Rightarrow> window_frame option \<Rightarrow> string rendering" where
  "render_window_call r re call partition_by order_by frame =
     texts [call, written '' OVER ('',
       joined '' ''
         ((if partition_by = [] then [] else [texts [written ''PARTITION BY '', joined '', '' (map re partition_by)]])
          @ (if order_by = [] then []
             else [texts [written ''ORDER BY '', joined '', '' (map (render_query_ordering r re) order_by)]])
          @ (case frame of None \<Rightarrow> [] | Some f \<Rightarrow> [written (render_window_frame f)])),
       written '')'']"

definition render_function :: "expression_renderer \<Rightarrow> string \<Rightarrow> query_expression list \<Rightarrow> string rendering" where
  "render_function re name args = texts [written name, written ''('', joined '', '' (map re args), written '')'']"

definition render_query_group :: "expression_renderer \<Rightarrow> string \<Rightarrow> query_expression list \<Rightarrow> string rendering" where
  "render_query_group re op args =
     (if args = [] then invalid ''gruppo query vuoto''
      else texts [written ''('', joined ('' '' @ op @ '' '') (map re args), written '')''])"

definition render_predicate_expression :: "renderer \<Rightarrow> expression_renderer \<Rightarrow> query_expression \<Rightarrow> string rendering" where
  "render_predicate_expression r re predicate_expression =
     (let negation = (\<lambda>negated. written (if negated then ''NOT '' else []))
      in case predicate_expression of
        Compare left op right \<Rightarrow> texts [re left, written '' '', written (comparison_symbol op), written '' '', re right]
      | InList e vs negated \<Rightarrow>
          if vs = [] then invalid ''lista IN query vuota''
          else texts [re e, written '' '', negation negated, written ''IN ('', joined '', '' (map re vs), written '')'']
      | Between e lower upper negated \<Rightarrow>
          texts [re e, written '' '', negation negated, written ''BETWEEN '', re lower, written '' AND '', re upper]
      | Like e pattern case_insensitive negated \<Rightarrow>
          texts [re e, written '' '', negation negated,
            written (if case_insensitive \<and> rn_dialect r = DlPostgres then ''ILIKE'' else ''LIKE''), written '' '', re pattern]
      | Not e \<Rightarrow> texts [written ''NOT ('', re e, written '')'']
      | And args \<Rightarrow> render_query_group re ''AND'' args
      | Or args \<Rightarrow> render_query_group re ''OR'' args
      | IsNull e negated \<Rightarrow> texts [re e, written '' IS '', negation negated, written ''NULL'']
      | _ \<Rightarrow> failed (error_new Internal PhPrepare None ''espressione non predicato passata al renderer dei predicati''))"

section \<open>Spatial functions\<close>

definition MYSQL_SPATIAL_PARAMETER_REFUSAL :: string where
  "MYSQL_SPATIAL_PARAMETER_REFUSAL =
     ''parametro geometry MySQL/MariaDB senza SRID: un WKB non porta il CRS, e confrontarlo con una colonna richiederebbe di supporlo; il path query non qualifica ancora un valore spatial con SRID e assi dichiarati''"

definition spatial_argument :: "renderer \<Rightarrow> expression_renderer \<Rightarrow> spatial_function \<Rightarrow> nat \<Rightarrow> query_expression \<Rightarrow> string rendering" where
  "spatial_argument r re f index a =
     followed (re a) (\<lambda>v.
     if takes_geometry_at f index \<and> is_bind a then
       (case rn_dialect r of
          DlPostgres \<Rightarrow> written (''ST_GeomFromEWKB('' @ v @ '')'')
        | DlMysql \<Rightarrow> refused r MYSQL_SPATIAL_PARAMETER_REFUSAL
        | DlSqlServer \<Rightarrow> refused r ''spatial SQL Server senza tipo e SRID risolti''
        | DlOracle \<Rightarrow> written (''SDO_UTIL.FROM_WKBGEOMETRY('' @ v @ '')'')
        | DlDb2 \<Rightarrow> refused r ''parametro geometry Db2 richiede SRID dichiarato nel piano portable''
        | _ \<Rightarrow> written (''ST_GeomFromWKB('' @ v @ '')''))
     else written v)"

definition required_argument :: "expression_renderer \<Rightarrow> string \<Rightarrow> query_expression list \<Rightarrow> nat \<Rightarrow> string rendering" where
  "required_argument re missing args index = (if index < length args then re (args ! index) else invalid missing)"

definition oracle_argument :: "expression_renderer \<Rightarrow> query_expression list \<Rightarrow> nat \<Rightarrow> string rendering" where
  "oracle_argument re = required_argument re ''funzione spatial Oracle con arieta incompleta''"

definition oracle_operand :: "expression_renderer \<Rightarrow> query_expression list \<Rightarrow> nat \<Rightarrow> string \<Rightarrow> string rendering" where
  "oracle_operand re args index left =
     followed (oracle_argument re args index) (\<lambda>v.
     written (if is_bind (args ! index) then ''MDSYS.SDO_UTIL.FROM_WKBGEOMETRY('' @ v @ '', '' @ left @ ''.SDO_SRID)'' else v))"

definition oracle_point_from_vertex :: "string \<Rightarrow> string \<Rightarrow> string" where
  "oracle_point_from_vertex g position =
     ''(SELECT MDSYS.SDO_GEOMETRY((TRUNC('' @ g @ ''.SDO_GTYPE / 1000) * 1000) + 1, '' @ g
     @ ''.SDO_SRID, MDSYS.SDO_POINT_TYPE(V.X, V.Y, V.Z), NULL, NULL) FROM TABLE(MDSYS.SDO_UTIL.GETVERTICES('' @ g
     @ '')) V WHERE V.ID = '' @ position @ '')''"

definition oracle_geometry_type :: "string \<Rightarrow> string" where
  "oracle_geometry_type left =
     ''CASE MOD('' @ left @ ''.SDO_GTYPE, 100) WHEN 1 THEN 'POINT' WHEN 2 THEN 'LINESTRING' WHEN 3 THEN 'POLYGON' WHEN 4 THEN 'GEOMETRYCOLLECTION' WHEN 5 THEN 'MULTIPOINT' WHEN 6 THEN 'MULTILINESTRING' WHEN 7 THEN 'MULTIPOLYGON' ELSE 'GEOMETRY' END''"

text \<open>What is written once the first argument is rendered as \<open>left\<close>.\<close>

definition oracle_shape ::
  "renderer \<Rightarrow> expression_renderer \<Rightarrow> query_expression list \<Rightarrow> string \<Rightarrow> oracle_shape_kind option \<Rightarrow> string rendering" where
  "oracle_shape r re args left shape =
     (let argument = oracle_argument re args; operand = (\<lambda>f. followed (oracle_operand re args 1 left) (\<lambda>right. written (f right)))
      in case shape of
        None \<Rightarrow> refused r ''funzione spatial Oracle non qualificata''
      | Some OsGeometryType \<Rightarrow> written (oracle_geometry_type left)
      | Some OsSrid \<Rightarrow> written (''CAST('' @ left @ ''.SDO_SRID AS NUMBER(10))'')
      | Some OsDimensions \<Rightarrow> written (''CAST('' @ left @ ''.ST_CoordDim() AS NUMBER(10))'')
      | Some (OsCoordinate axis) \<Rightarrow>
          written (''(SELECT V.'' @ axis @ '' FROM TABLE(MDSYS.SDO_UTIL.GETVERTICES('' @ left @ '')) V WHERE V.ID = 1)'')
      | Some OsNPoints \<Rightarrow> written (''MDSYS.SDO_UTIL.GETNUMVERTICES('' @ left @ '')'')
      | Some (OsPoint OppFirst) \<Rightarrow> written (oracle_point_from_vertex left ''1'')
      | Some (OsPoint OppLast) \<Rightarrow>
          written (oracle_point_from_vertex left (''MDSYS.SDO_UTIL.GETNUMVERTICES('' @ left @ '')''))
      | Some (OsPoint OppArgument) \<Rightarrow> followed (argument 1) (\<lambda>p. written (oracle_point_from_vertex left p))
      | Some OsIsValid \<Rightarrow> written (''('' @ left @ ''.ST_IsValid() = 1)'')
      | Some (OsRelate m) \<Rightarrow>
          operand (\<lambda>right. ''(MDSYS.SDO_RELATE('' @ left @ '', '' @ right @ '', 'mask='' @ m @ [CHR 0x27] @ '') = 'TRUE')'')
      | Some OsDisjoint \<Rightarrow>
          operand (\<lambda>right. ''(MDSYS.SDO_GEOM.RELATE('' @ left @ '', 'DISJOINT', '' @ right @ '', 0.005) = 'DISJOINT')'')
      | Some OsDWithin \<Rightarrow>
          followed (oracle_operand re args 1 left) (\<lambda>right.
          followed (argument 2) (\<lambda>distance.
          written (''(MDSYS.SDO_WITHIN_DISTANCE('' @ left @ '', '' @ right @ '', 'distance=' || '' @ distance
            @ '' || ' unit=M') = 'TRUE')'')))
      | Some OsSetSrid \<Rightarrow>
          followed (argument 1) (\<lambda>srid.
          written (''MDSYS.SDO_GEOMETRY('' @ left @ ''.SDO_GTYPE, '' @ srid @ '', '' @ left @ ''.SDO_POINT, '' @ left
            @ ''.SDO_ELEM_INFO, '' @ left @ ''.SDO_ORDINATES)''))
      | Some OsTransform \<Rightarrow>
          followed (argument 1) (\<lambda>srid. written (''MDSYS.SDO_CS.TRANSFORM('' @ left @ '', '' @ srid @ '')''))
      | Some OsBuffer \<Rightarrow>
          followed (argument 1) (\<lambda>distance.
          written (''MDSYS.SDO_GEOM.SDO_BUFFER('' @ left @ '', '' @ distance @ '', 0.005, 'unit=M')''))
      | Some (OsUnaryGeometry name) \<Rightarrow> written (''MDSYS.SDO_GEOM.'' @ name @ ''('' @ left @ '', 0.005)'')
      | Some (OsUnaryGeometryNoTolerance name) \<Rightarrow> written (''MDSYS.SDO_GEOM.'' @ name @ ''('' @ left @ '')'')
      | Some (OsBinaryGeometry name) \<Rightarrow>
          operand (\<lambda>right. ''MDSYS.SDO_GEOM.'' @ name @ ''('' @ left @ '', '' @ right @ '', 0.005)'')
      | Some (OsUnaryMeasure name unit_name) \<Rightarrow>
          written (''MDSYS.SDO_GEOM.'' @ name @ ''('' @ left @ '', 0.005, 'unit='' @ unit_name @ [CHR 0x27] @ '')'')
      | Some (OsBinaryMeasure name unit_name) \<Rightarrow>
          operand (\<lambda>right. ''MDSYS.SDO_GEOM.'' @ name @ ''('' @ left @ '', '' @ right @ '', 0.005, 'unit='' @ unit_name
            @ [CHR 0x27] @ '')'')
      | Some OsGeoJson \<Rightarrow> written (left @ ''.Get_GeoJson()''))"

definition render_oracle_spatial_function ::
  "renderer \<Rightarrow> expression_renderer \<Rightarrow> spatial_function \<Rightarrow> query_expression list \<Rightarrow> string rendering" where
  "render_oracle_spatial_function r re f args =
     followed (judged (judge_function_arguments r f args)) (\<lambda>_.
     followed (oracle_argument re args 0) (\<lambda>left.
     oracle_shape r re args left (oracle_spatial_shape f)))"

definition sql_server_operand :: "renderer \<Rightarrow> expression_renderer \<Rightarrow> query_expression \<Rightarrow> string rendering" where
  "sql_server_operand r re e =
     (let operand = (\<lambda>name.
        case rn_spatial_parameters r name of
          None \<Rightarrow> refused r ''parametro spatial SQL Server senza semantica e SRID risolti''
        | Some (semantics, srid) \<Rightarrow>
            if srid \<ge> 2 ^ 31 then invalid ''SRID parametro spatial oltre il range int SQL Server''
            else followed (bind_parameter r name) (\<lambda>v.
              written ((case semantics of Geometry \<Rightarrow> ''geometry::STGeomFromWKB('' | Geography \<Rightarrow> ''geography::STGeomFromWKB('')
                @ v @ '', '' @ show_srid srid @ '')'')))
      in case e of
           Parameter name \<Rightarrow> operand name
         | TypedParameter name _ \<Rightarrow> operand name
         | _ \<Rightarrow> re e)"

definition sql_server_function_value ::
  "renderer \<Rightarrow> expression_renderer \<Rightarrow> spatial_function \<Rightarrow> query_expression list \<Rightarrow> bool \<Rightarrow> string rendering" where
  "sql_server_function_value r re f args predicate_context =
     (if \<not> rn_spatial_intersects r then refused r ''AST spatial SQL Server non abilitato''
      else
        followed (judged (judge_function_arguments r f args)) (\<lambda>_.
        followed (if args = [] then invalid ''funzione spatial SQL Server senza ricevitore''
                  else sql_server_operand r re (hd args)) (\<lambda>receiver.
        let semantics = (case args of
              Column c # _ \<Rightarrow> rn_spatial_columns r (cr_relation c, cr_field c)
            | _ \<Rightarrow> None);
            as_predicate = (\<lambda>call. if predicate_context then ''('' @ call @ '' = 1)'' else call);
            binary = (\<lambda>name wrap.
              if length args < 2 then invalid ''funzione spatial SQL Server senza secondo operando''
              else followed (sql_server_operand r re (args ! 1)) (\<lambda>right.
                written (wrap (receiver @ ''.'' @ name @ ''('' @ right @ '')''))))
        in case sql_server_spatial_method f semantics of
             None \<Rightarrow> refused r ''funzione spatial non disponibile nel sottoinsieme SQL Server verificato''
           | Some (name, shape) \<Rightarrow>
               (case shape of
                  SssProperty \<Rightarrow> written (receiver @ ''.'' @ name)
                | SssUnary \<Rightarrow> written (receiver @ ''.'' @ name @ ''()'')
                | SssUnaryPredicate \<Rightarrow> written (as_predicate (receiver @ ''.'' @ name @ ''()''))
                | SssBinaryValue \<Rightarrow> binary name (\<lambda>call. call)
                | SssBinaryPredicate \<Rightarrow> binary name as_predicate
                | SssNumeric \<Rightarrow>
                    followed (required_argument re ''funzione spatial SQL Server senza argomento numerico'' args 1) (\<lambda>n.
                    written (receiver @ ''.'' @ name @ ''('' @ n @ '')''))))))"

definition render_spatial_function ::
  "renderer \<Rightarrow> expression_renderer \<Rightarrow> spatial_function \<Rightarrow> query_expression list \<Rightarrow> string rendering" where
  "render_spatial_function r re f args =
     (if \<not> rn_spatial_intersects r then refused r ''AST spatial non abilitato per il dialect''
      else if f = DWithin \<and> rn_dialect r \<noteq> DlPostgres \<and> rn_dialect r \<noteq> DlOracle
      then refused r ''d_within richiede PostgreSQL/PostGIS''
      else if rn_dialect r = DlSqlServer then sql_server_function_value r re f args True
      else if rn_dialect r = DlOracle then render_oracle_spatial_function r re f args
      else
        followed (collected (map (\<lambda>(index, a). spatial_argument r re f index a) (enumerate 0 args))) (\<lambda>rendered.
        followed (judged (guard_geometry_arguments r f args rendered)) (\<lambda>guarded.
        written
          (if rn_dialect r = DlMysql \<and> rn_wkb_axis_option r \<noteq> None \<and> (f = SfX \<or> f = SfY) \<and> length guarded = 1
           then dialect_spatial_name (rn_dialect r) f @ ''(ST_SRID('' @ hd guarded @ '', 0))''
           else dialect_spatial_name (rn_dialect r) f @ ''('' @ join_texts '', '' guarded @ '')''))))"

section \<open>One expression\<close>

definition expression_step :: "renderer \<Rightarrow> expression_renderer \<Rightarrow> query_renderer \<Rightarrow> query_expression \<Rightarrow> string rendering" where
  "expression_step r re rq e =
     (let name = (\<lambda>n. attempt (quoted r n)); predicate_expression = render_predicate_expression r re e
      in case e of
        Wildcard None \<Rightarrow> written ''*''
      | Wildcard (Some relation) \<Rightarrow> texts [name relation, written ''.*'']
      | Column c \<Rightarrow>
          followed (name (cr_field c)) (\<lambda>field.
          case cr_relation c of
            None \<Rightarrow> written field
          | Some relation \<Rightarrow> texts [name relation, written ''.'', written field])
      | Parameter n \<Rightarrow> render_parameter r n None
      | TypedParameter n t \<Rightarrow> render_parameter r n (Some t)
      | Arithmetic left op right \<Rightarrow> render_arithmetic re left op right
      | Cast x t \<Rightarrow> render_cast r re x t
      | NullsOrder _ _ \<Rightarrow> invalid ''NULLS FIRST/LAST ammesso soltanto in ORDER BY''
      | Case branches otherwise \<Rightarrow> render_case re branches otherwise
      | Scalar f args \<Rightarrow> render_function re (dialect_scalar_name (rn_dialect r) f) args
      | Spatial f args \<Rightarrow> render_spatial_function r re f args
      | SpatialOutput x semantics \<Rightarrow> render_spatial_output r re x semantics
      | SpatialValue x srid semantics \<Rightarrow> render_spatial_value r re x srid semantics
      | SpatialOperator op left right \<Rightarrow> render_spatial_operator r re op left right
      | Window f args partition_by order_by frame \<Rightarrow>
          render_window_call r re (render_function re (dialect_scalar_name (rn_dialect r) f) args) partition_by order_by frame
      | SpatialWindow f args partition_by order_by frame \<Rightarrow>
          render_window_call r re (render_spatial_function r re f args) partition_by order_by frame
      | ScalarSubquery q \<Rightarrow> texts [written ''('', rq q False, written '')'']
      | Exists q negated \<Rightarrow> texts [written (if negated then ''NOT '' else []), written ''EXISTS ('', rq q False, written '')'']
      | InSubquery x q negated \<Rightarrow>
          texts [re x, written '' '', written (if negated then ''NOT '' else []), written ''IN ('', rq q False, written '')'']
      | Compare _ _ _ \<Rightarrow> predicate_expression
      | InList _ _ _ \<Rightarrow> predicate_expression
      | Between _ _ _ _ \<Rightarrow> predicate_expression
      | Like _ _ _ _ \<Rightarrow> predicate_expression
      | Not _ \<Rightarrow> predicate_expression
      | And _ \<Rightarrow> predicate_expression
      | Or _ \<Rightarrow> predicate_expression
      | IsNull _ _ \<Rightarrow> predicate_expression)"

section \<open>One operation\<close>

definition render_query_relation ::
  "renderer \<Rightarrow> query_renderer \<Rightarrow> query_source option \<Rightarrow> query_operation query_derived_source option \<Rightarrow> bool
     \<Rightarrow> query_lock option \<Rightarrow> string rendering" where
  "render_query_relation r rq source derived lateral locking =
     (case (source, derived) of
        (Some s, None) \<Rightarrow>
          if lateral then invalid ''LATERAL richiede una subquery come source''
          else texts [attempt (render_query_source r s),
                 attempt (and_then (sql_server_lock_hints r s locking) (\<lambda>hints.
                   Inr (case hints of None \<Rightarrow> [] | Some hs \<Rightarrow> '' WITH ('' @ join_texts '', '' hs @ '')'')))]
      | (None, Some d) \<Rightarrow>
          if lateral \<and> rn_dialect r \<noteq> DlPostgres \<and> rn_dialect r \<noteq> DlSqlServer
          then refused r ''LATERAL supportato solo dal renderer PostgreSQL''
          else texts [written (if lateral \<and> rn_dialect r = DlPostgres then ''LATERAL '' else []), written ''('',
                 rq (ds_query d) False, written '')'', written (if rn_dialect r = DlOracle then '' '' else '' AS ''),
                 attempt (quoted r (ds_alias d))]
      | _ \<Rightarrow> invalid ''query richiede una sola source, tabella o subquery'')"

text \<open>The \<open>WITH\<close> clause, the same in the whole query and in its parts.\<close>

definition with_clause :: "renderer \<Rightarrow> query_renderer \<Rightarrow> cte list \<Rightarrow> string rendering" where
  "with_clause r rq ctes =
     (if ctes = [] then written []
      else if list_ex cte_recursive ctes \<and> rn_dialect r \<noteq> DlPostgres \<and> rn_dialect r \<noteq> DlSqlServer
      then refused r ''CTE ricorsiva non supportata dal dialect''
      else texts [written ''WITH '',
        written (if list_ex cte_recursive ctes \<and> rn_dialect r = DlPostgres then ''RECURSIVE '' else []),
        joined '', '' (map (\<lambda>c. texts [attempt (quoted r (cte_name c)), written '' AS ('', rq (cte_query c) False, written '')'']) ctes),
        written '' ''])"

definition distinct_clause :: "renderer \<Rightarrow> expression_renderer \<Rightarrow> query_operation \<Rightarrow> string rendering" where
  "distinct_clause r re q =
     (if op_distinct_on q \<noteq> [] then
        (if rn_dialect r \<noteq> DlPostgres then refused r ''DISTINCT ON supportato solo da PostgreSQL''
         else texts [written ''DISTINCT ON ('', joined '', '' (map re (op_distinct_on q)), written '') ''])
      else written (if op_distinct q then ''DISTINCT '' else []))"

definition top_clause :: "renderer \<Rightarrow> query_operation \<Rightarrow> string" where
  "top_clause r q =
     (case (op_row_limit q, op_row_offset q) of
        (Some limit, None) \<Rightarrow> if rn_dialect r = DlSqlServer then ''TOP ('' @ show_u64 limit @ '') '' else []
      | _ \<Rightarrow> [])"

definition spatial_encoding :: "renderer \<Rightarrow> bool \<Rightarrow> query_expression \<Rightarrow> string \<Rightarrow> string" where
  "spatial_encoding r encode e v =
     (case e of
        Spatial f _ \<Rightarrow>
          if returns_geometry f \<and> encode then
            (case rn_dialect r of
               DlPostgres \<Rightarrow> ''ST_AsEWKB('' @ v @ '')''
             | DlSqlServer \<Rightarrow> ''('' @ v @ '').AsBinaryZM()''
             | DlMysql \<Rightarrow> ''ST_AsBinary('' @ v @ renderer_axis_argument r @ '')''
             | DlOracle \<Rightarrow> ''MDSYS.SDO_UTIL.TO_WKBGEOMETRY('' @ v @ '')''
             | _ \<Rightarrow> v)
          else v
      | _ \<Rightarrow> v)"

definition render_projection ::
  "renderer \<Rightarrow> expression_renderer \<Rightarrow> bool \<Rightarrow> query_expression query_projection \<Rightarrow> string rendering" where
  "render_projection r re encode item =
     followed (case qp_expression item of
         Spatial f args \<Rightarrow>
           if rn_dialect r = DlSqlServer \<and> returns_boolean f (length args)
           then sql_server_function_value r re f args False else re (qp_expression item)
       | _ \<Rightarrow> re (qp_expression item)) (\<lambda>v.
     texts [written (spatial_encoding r encode (qp_expression item) v),
       (case qp_alias item of None \<Rightarrow> written [] | Some alias \<Rightarrow> texts [written '' AS '', attempt (quoted r alias)])])"

definition from_clause :: "renderer \<Rightarrow> query_renderer \<Rightarrow> query_operation \<Rightarrow> string rendering" where
  "from_clause r rq q =
     (if op_source q \<noteq> None \<or> op_derived_source q \<noteq> None
      then texts [written '' FROM '', render_query_relation r rq (op_source q) (op_derived_source q) False (op_locking q)]
      else written (case rn_dialect r of DlOracle \<Rightarrow> '' FROM DUAL'' | DlDb2 \<Rightarrow> '' FROM SYSIBM.SYSDUMMY1'' | _ \<Rightarrow> []))"

fun join_keyword :: "join_kind \<Rightarrow> bool \<Rightarrow> string option" where
  "join_keyword JkCross True = Some '' CROSS APPLY ''"
| "join_keyword JkInner False = Some '' INNER JOIN ''"
| "join_keyword JkLeft False = Some '' LEFT JOIN ''"
| "join_keyword JkRight False = Some '' RIGHT JOIN ''"
| "join_keyword JkFull False = Some '' FULL JOIN ''"
| "join_keyword JkCross False = Some '' CROSS JOIN ''"
| "join_keyword _ True = None"

definition render_join ::
  "renderer \<Rightarrow> expression_renderer \<Rightarrow> query_renderer \<Rightarrow> query_lock option \<Rightarrow> (query_expression, query_operation) query_join
     \<Rightarrow> string rendering" where
  "render_join r re rq locking j =
     (let apply_join = (rn_dialect r = DlSqlServer \<and> qj_lateral j)
      in case join_keyword (qj_kind j) apply_join of
           None \<Rightarrow> refused r ''SQL Server qualifica soltanto CROSS APPLY per lateral v1''
         | Some keyword \<Rightarrow>
             texts [written keyword,
               render_query_relation r rq (qj_source j) (qj_derived_source j) (qj_lateral j) locking,
               (if qj_kind j = JkCross \<or> apply_join
                then if qj_on j \<noteq> None then invalid ''CROSS JOIN con clausola ON'' else written []
                else case qj_on j of
                  None \<Rightarrow> invalid ''JOIN senza clausola ON''
                | Some e \<Rightarrow> texts [written '' ON '', re e])])"

definition clause_of :: "string \<Rightarrow> ('a \<Rightarrow> string rendering) \<Rightarrow> 'a option \<Rightarrow> string rendering" where
  "clause_of keyword f v = (case v of None \<Rightarrow> written [] | Some x \<Rightarrow> texts [written keyword, f x])"

definition list_clause :: "string \<Rightarrow> ('a \<Rightarrow> string rendering) \<Rightarrow> 'a list \<Rightarrow> string rendering" where
  "list_clause keyword f vs = (if vs = [] then written [] else texts [written keyword, joined '', '' (map f vs)])"

fun set_operator_text :: "query_set_operator \<Rightarrow> string" where
  "set_operator_text SoUnion = '' UNION''"
| "set_operator_text SoIntersect = '' INTERSECT''"
| "set_operator_text SoExcept = '' EXCEPT''"

definition render_set_operation ::
  "query_renderer \<Rightarrow> bool \<Rightarrow> query_operation query_set_operation \<Rightarrow> string rendering" where
  "render_set_operation rq encode s =
     texts [written (set_operator_text (so_operator s)), written (if so_all s then '' ALL'' else []), written '' ('',
       rq (so_query s) encode, written '')'']"

definition limit_clause :: "renderer \<Rightarrow> query_operation \<Rightarrow> string" where
  "limit_clause r q =
     (case op_row_limit q of
        None \<Rightarrow> []
      | Some limit \<Rightarrow>
          if rn_dialect r = DlSqlServer then []
          else if rn_dialect r = DlOracle \<or> rn_dialect r = DlDb2 then
            (if op_row_offset q = None then '' FETCH FIRST '' @ show_u64 limit @ '' ROWS ONLY'' else [])
          else '' LIMIT '' @ show_u64 limit)"

definition offset_clause :: "renderer \<Rightarrow> query_operation \<Rightarrow> string" where
  "offset_clause r q =
     (case op_row_offset q of
        None \<Rightarrow> []
      | Some offset \<Rightarrow>
          if rn_dialect r = DlSqlServer \<or> rn_dialect r = DlOracle \<or> rn_dialect r = DlDb2 then
            '' OFFSET '' @ show_u64 offset @ '' ROWS''
            @ (case op_row_limit q of None \<Rightarrow> [] | Some limit \<Rightarrow> '' FETCH NEXT '' @ show_u64 limit @ '' ROWS ONLY'')
          else '' OFFSET '' @ show_u64 offset)"

fun lock_strength_text :: "query_lock_strength \<Rightarrow> string" where
  "lock_strength_text LkUpdate = '' FOR UPDATE''"
| "lock_strength_text LkNoKeyUpdate = '' FOR NO KEY UPDATE''"
| "lock_strength_text LkShare = '' FOR SHARE''"
| "lock_strength_text LkKeyShare = '' FOR KEY SHARE''"

fun lock_wait_text :: "query_lock_wait \<Rightarrow> string" where
  "lock_wait_text LkWait = []"
| "lock_wait_text LkNoWait = '' NOWAIT''"
| "lock_wait_text LkSkipLocked = '' SKIP LOCKED''"

definition lock_clause :: "renderer \<Rightarrow> query_operation \<Rightarrow> string rendering" where
  "lock_clause r q =
     (case op_locking q of
        None \<Rightarrow> written []
      | Some lock \<Rightarrow>
          if rn_dialect r = DlSqlServer
          then followed (attempt (validate_sql_server_lock_targets r q lock)) (\<lambda>_. written [])
          else if rn_dialect r \<noteq> DlPostgres then refused r ''locking avanzato supportato solo da PostgreSQL''
          else texts [written (lock_strength_text (ql_strength lock)),
                 list_clause '' OF '' (\<lambda>relation. attempt (quoted r relation)) (ql_relations lock),
                 written (lock_wait_text (ql_wait lock))])"

definition is_parameter :: "query_expression \<Rightarrow> bool" where
  "is_parameter e = (case e of Parameter _ \<Rightarrow> True | _ \<Rightarrow> False)"

definition operation_clauses :: "renderer \<Rightarrow> expression_renderer \<Rightarrow> query_renderer \<Rightarrow> query_operation \<Rightarrow> bool \<Rightarrow> string rendering" where
  "operation_clauses r re rq q encode =
     (if op_projection q = [] then invalid ''query senza projection''
      else if rn_dialect r = DlDb2 \<and> list_ex (\<lambda>item. is_parameter (qp_expression item)) (op_projection q)
      then refused r ''projection Db2 con parametro privo di contesto di tipo non supportata''
      else
        texts [with_clause r rq (common_table_expressions q), written ''SELECT '', distinct_clause r re q,
          written (top_clause r q), joined '', '' (map (render_projection r re encode) (op_projection q)),
          from_clause r rq q, texts (map (render_join r re rq (op_locking q)) (op_joins q)),
          clause_of '' WHERE '' re (op_filter q), list_clause '' GROUP BY '' re (op_group_by q),
          clause_of '' HAVING '' re (op_having q), texts (map (render_set_operation rq encode) (op_set_operations q)),
          list_clause '' ORDER BY '' (render_query_ordering r re) (op_order_by q),
          written (limit_clause r q), written (offset_clause r q), lock_clause r q])"

text \<open>An operation renders in its own scope.\<close>

definition scoped :: "query_operation \<Rightarrow> 'a rendering \<Rightarrow> 'a rendering" where
  "scoped q m st =
     and_then (m (st\<lparr>rst_scopes := scope_of q (visible_common_tables st) # rst_scopes st\<rparr>)) (\<lambda>(x, st').
     Inr (x, st'\<lparr>rst_scopes := tl (rst_scopes st')\<rparr>))"

section \<open>The recursion\<close>

text \<open>The nodes strictly below a node.\<close>

definition below :: "query_walk_node \<Rightarrow> query_walk_node \<Rightarrow> bool" where
  "below k n \<longleftrightarrow> (\<exists>c \<in> set (node_parts n). reaches everything c k)"

lemma reaches_size: "reaches everything n k \<Longrightarrow> node_size k \<le> node_size n"
proof (induction rule: reaches.induct)
  case (below n c m)
  then show ?case using query_tree.smaller [of c n] by simp
qed simp

lemma below_size: "below k n \<Longrightarrow> node_size k < node_size n"
  unfolding below_def using reaches_size query_tree.smaller by (meson le_less_trans)

lemma below_child: "k \<in> set (node_parts n) \<Longrightarrow> below k n"
  unfolding below_def by (blast intro: reaches.here)

lemma below_grandchild: "k \<in> set (node_parts m) \<Longrightarrow> m \<in> set (node_parts n) \<Longrightarrow> below k n"
  unfolding below_def by (force intro: reaches.intros simp: everything_def)

lemma reaches_trans: "reaches everything a b \<Longrightarrow> reaches everything b c \<Longrightarrow> reaches everything a c"
  by (induction rule: reaches.induct) (auto intro: reaches.intros)

lemma below_trans: "below k m \<Longrightarrow> below m n \<Longrightarrow> below k n"
  unfolding below_def by (meson reaches_trans reaches.below everything_def)

text \<open>What a step renders below it is all it depends on.\<close>

named_theorems render_congs \<open>a rendering depends on the renderings of the nodes below it\<close>

lemma render_function_cong [render_congs]:
  "(\<And>a. a \<in> set args \<Longrightarrow> re a = re' a) \<Longrightarrow> render_function re name args = render_function re' name args"
  by (simp add: render_function_def cong: map_cong)

lemma render_query_group_cong [render_congs]:
  "(\<And>a. a \<in> set args \<Longrightarrow> re a = re' a) \<Longrightarrow> render_query_group re op args = render_query_group re' op args"
  by (simp add: render_query_group_def cong: map_cong)

lemma render_query_ordering_cong:
  assumes "re (qo_expression o1) = re' (qo_expression o1)" "\<And>e p. qo_expression o1 = NullsOrder e p \<Longrightarrow> re e = re' e"
  shows "render_query_ordering r re o1 = render_query_ordering r re' o1"
proof (cases "\<exists>e p. qo_expression o1 = NullsOrder e p")
  case True
  then obtain e p where o1: "qo_expression o1 = NullsOrder e p" by blast
  show ?thesis by (simp add: render_query_ordering_def o1 assms(2) [OF o1] cong: if_cong)
next
  case False
  with assms(1) show ?thesis by (cases "qo_expression o1") (simp_all add: render_query_ordering_def)
qed

lemma render_window_call_cong [render_congs]:
  assumes "call = call'" "\<And>a. a \<in> set partition_by \<Longrightarrow> re a = re' a"
    and "\<And>o1. o1 \<in> set order_by \<Longrightarrow> render_query_ordering r re o1 = render_query_ordering r re' o1"
  shows "render_window_call r re call partition_by order_by frame = render_window_call r re' call' partition_by order_by frame"
proof -
  have maps: "map re partition_by = map re' partition_by"
    "map (render_query_ordering r re) order_by = map (render_query_ordering r re') order_by"
    using assms(2,3) by simp_all
  show ?thesis unfolding render_window_call_def assms(1) maps by (rule refl)
qed

lemma required_argument_cong:
  "(\<And>a. a \<in> set args \<Longrightarrow> re a = re' a) \<Longrightarrow> required_argument re missing args index = required_argument re' missing args index"
  by (simp add: required_argument_def)

lemma oracle_argument_cong:
  "(\<And>a. a \<in> set args \<Longrightarrow> re a = re' a) \<Longrightarrow> oracle_argument re args = oracle_argument re' args"
  unfolding oracle_argument_def by (rule ext) (rule required_argument_cong)

lemma oracle_operand_cong:
  assumes "\<And>a. a \<in> set args \<Longrightarrow> re a = re' a"
  shows "oracle_operand re args index left = oracle_operand re' args index left"
  by (simp only: oracle_operand_def oracle_argument_cong [OF assms])

lemma oracle_cong:
  assumes "\<And>a. a \<in> set args \<Longrightarrow> re a = re' a"
  shows "render_oracle_spatial_function r re f args = render_oracle_spatial_function r re' f args"
proof -
  have operand: "oracle_operand re args = oracle_operand re' args"
    by (rule ext, rule ext, rule oracle_operand_cong, rule assms)
  have argument: "oracle_argument re args = oracle_argument re' args"
    by (rule oracle_argument_cong) (rule assms)
  show ?thesis
    by (simp only: render_oracle_spatial_function_def oracle_shape_def operand argument)
qed

lemma sql_server_operand_cong: "re a = re' a \<Longrightarrow> sql_server_operand r re a = sql_server_operand r re' a"
  by (cases a) (simp_all add: sql_server_operand_def)

lemma sql_server_cong:
  assumes "\<And>a. a \<in> set args \<Longrightarrow> re a = re' a"
  shows "sql_server_function_value r re f args ctx = sql_server_function_value r re' f args ctx"
proof -
  have operand: "sql_server_operand r re a = sql_server_operand r re' a" if "a \<in> set args" for a
    using assms that by (intro sql_server_operand_cong)
  have receiver: "(if args = [] then x else sql_server_operand r re (hd args)) =
      (if args = [] then x else sql_server_operand r re' (hd args))" for x
    using operand by simp
  have second: "(if length args < 2 then x else followed (sql_server_operand r re (args ! 1)) k) =
      (if length args < 2 then x else followed (sql_server_operand r re' (args ! 1)) k)"
    for x :: "string rendering" and k
    using operand by simp
  have number: "required_argument re missing args 1 = required_argument re' missing args 1" for missing
    by (rule required_argument_cong, rule assms)
  show ?thesis by (simp only: sql_server_function_value_def receiver second number)
qed

lemma render_spatial_function_cong [render_congs]:
  assumes "\<And>a. a \<in> set args \<Longrightarrow> re a = re' a"
  shows "render_spatial_function r re f args = render_spatial_function r re' f args"
proof -
  have maps: "map (\<lambda>(index, a). spatial_argument r re f index a) (enumerate 0 args) =
      map (\<lambda>(index, a). spatial_argument r re' f index a) (enumerate 0 args)"
    using assms by (auto simp: spatial_argument_def in_set_enumerate_eq)
  have sql_server: "sql_server_function_value r re f args True = sql_server_function_value r re' f args True"
    by (rule sql_server_cong, rule assms)
  have ora: "render_oracle_spatial_function r re f args = render_oracle_spatial_function r re' f args"
    by (rule oracle_cong, rule assms)
  show ?thesis by (simp only: render_spatial_function_def sql_server ora maps)
qed

lemma render_case_cong [render_congs]:
  assumes "\<And>b. b \<in> set branches \<Longrightarrow> re (cb_when b) = re' (cb_when b) \<and> re (cb_then b) = re' (cb_then b)"
    and "\<And>e. otherwise = Some e \<Longrightarrow> re e = re' e"
  shows "render_case re branches otherwise = render_case re' branches otherwise"
proof -
  have maps: "map (\<lambda>b. texts [written '' WHEN '', re (cb_when b), written '' THEN '', re (cb_then b)]) branches =
      map (\<lambda>b. texts [written '' WHEN '', re' (cb_when b), written '' THEN '', re' (cb_then b)]) branches"
    using assms(1) by simp
  have otherwise: "(case otherwise of None \<Rightarrow> written [] | Some e \<Rightarrow> texts [written '' ELSE '', re e]) =
      (case otherwise of None \<Rightarrow> written [] | Some e \<Rightarrow> texts [written '' ELSE '', re' e])"
    using assms(2) by (simp split: option.split)
  show ?thesis by (simp only: render_case_def maps otherwise)
qed

lemma expression_step_cong:
  assumes re: "\<And>x. below (NExpression x) (NExpression e) \<Longrightarrow> re x = re' x"
    and rq: "\<And>q b. below (NOperation q) (NExpression e) \<Longrightarrow> rq q b = rq' q b"
  shows "expression_step r re rq e = expression_step r re' rq' e"
proof -
  have child: "NExpression x \<in> set (expression_parts e) \<Longrightarrow> re x = re' x" for x
    by (rule re, rule below_child) simp
  have query: "NOperation q \<in> set (expression_parts e) \<Longrightarrow> rq q b = rq' q b" for q b
    by (rule rq, rule below_child) simp
  have ordering: "render_query_ordering r re o1 = render_query_ordering r re' o1"
    if "NExpression (qo_expression o1) \<in> set (expression_parts e)" for o1
  proof (rule render_query_ordering_cong)
    show "re (qo_expression o1) = re' (qo_expression o1)" using that by (rule child)
    show "re x = re' x" if "qo_expression o1 = NullsOrder x p" for x p
      using that \<open>NExpression (qo_expression o1) \<in> set (expression_parts e)\<close>
      by (intro re below_grandchild [where m = "NExpression (NullsOrder x p)"]) simp_all
  qed
  show ?thesis
  proof (cases e)
    case (Case branches otherwise)
    have "render_case re branches otherwise = render_case re' branches otherwise"
      by (rule render_case_cong) (use child Case in auto)
    then show ?thesis by (simp add: expression_step_def Case)
  next
    case (Window f args partition_by order_by frame)
    then show ?thesis
      by (auto simp: expression_step_def intro!: render_window_call_cong render_function_cong child ordering)
  next
    case (SpatialWindow f args partition_by order_by frame)
    then show ?thesis
      by (auto simp: expression_step_def intro!: render_window_call_cong render_spatial_function_cong child ordering)
  next
    case (Scalar f args)
    then show ?thesis by (auto simp: expression_step_def intro!: render_function_cong child)
  next
    case (Spatial f args)
    then show ?thesis by (auto simp: expression_step_def intro!: render_spatial_function_cong child)
  next
    case (And args)
    then show ?thesis
      by (auto simp: expression_step_def render_predicate_expression_def intro!: render_query_group_cong child)
  next
    case (Or args)
    then show ?thesis
      by (auto simp: expression_step_def render_predicate_expression_def intro!: render_query_group_cong child)
  next
    case (InList x vs negated)
    then have "map re vs = map re' vs" "re x = re' x" using child by simp_all
    then show ?thesis by (simp only: expression_step_def render_predicate_expression_def InList query_expression.case Let_def)
  next
    case (InSubquery x q negated)
    then show ?thesis using child query by (simp add: expression_step_def)
  next
    case (SpatialOperator op left right)
    then have "re left = re' left" "re right = re' right" using child by simp_all
    then show ?thesis
      by (simp only: expression_step_def render_spatial_operator_def SpatialOperator query_expression.case Let_def)
  qed (use child query in \<open>simp_all add: expression_step_def render_arithmetic_def render_cast_def render_spatial_output_def
        render_spatial_value_def render_predicate_expression_def\<close>)
qed

lemma render_query_relation_cong:
  assumes "\<And>d b. derived = Some d \<Longrightarrow> rq (ds_query d) b = rq' (ds_query d) b"
  shows "render_query_relation r rq source derived lateral locking = render_query_relation r rq' source derived lateral locking"
  using assms by (cases source; cases derived) (simp_all add: render_query_relation_def)

lemma with_clause_cong:
  assumes "\<And>c b. c \<in> set ctes \<Longrightarrow> rq (cte_query c) b = rq' (cte_query c) b"
  shows "with_clause r rq ctes = with_clause r rq' ctes"
proof -
  have maps: "map (\<lambda>c. texts [attempt (quoted r (cte_name c)), written '' AS ('', rq (cte_query c) False, written '')'']) ctes =
      map (\<lambda>c. texts [attempt (quoted r (cte_name c)), written '' AS ('', rq' (cte_query c) False, written '')'']) ctes"
    using assms by simp
  show ?thesis by (simp only: with_clause_def maps)
qed

lemma render_projection_cong:
  assumes "re (qp_expression item) = re' (qp_expression item)"
    and "\<And>f args a. qp_expression item = Spatial f args \<Longrightarrow> a \<in> set args \<Longrightarrow> re a = re' a"
  shows "render_projection r re encode item = render_projection r re' encode item"
proof (cases "\<exists>f args. qp_expression item = Spatial f args")
  case True
  then obtain f args where item: "qp_expression item = Spatial f args" by blast
  have value_cong: "sql_server_function_value r re f args False = sql_server_function_value r re' f args False"
    by (rule sql_server_cong, rule assms(2) [OF item])
  show ?thesis
    using assms(1) unfolding item by (simp only: render_projection_def item query_expression.case value_cong)
next
  case False
  with assms(1) show ?thesis by (cases "qp_expression item") (simp_all add: render_projection_def)
qed

lemma clause_of_cong: "(\<And>x. v = Some x \<Longrightarrow> f x = g x) \<Longrightarrow> clause_of keyword f v = clause_of keyword g v"
  by (cases v) (simp_all add: clause_of_def)

lemma list_clause_cong: "(\<And>x. x \<in> set vs \<Longrightarrow> f x = g x) \<Longrightarrow> list_clause keyword f vs = list_clause keyword g vs"
  by (simp add: list_clause_def cong: map_cong)

lemma render_join_cong:
  assumes "\<And>e. qj_on j = Some e \<Longrightarrow> re e = re' e"
    and "\<And>d b. qj_derived_source j = Some d \<Longrightarrow> rq (ds_query d) b = rq' (ds_query d) b"
  shows "render_join r re rq locking j = render_join r re' rq' locking j"
proof -
  have relation: "render_query_relation r rq (qj_source j) (qj_derived_source j) (qj_lateral j) locking =
      render_query_relation r rq' (qj_source j) (qj_derived_source j) (qj_lateral j) locking"
    by (rule render_query_relation_cong) (rule assms(2))
  have on: "(case qj_on j of None \<Rightarrow> m | Some e \<Rightarrow> texts [written '' ON '', re e]) =
      (case qj_on j of None \<Rightarrow> m | Some e \<Rightarrow> texts [written '' ON '', re' e])" for m
    using assms(1) by (simp split: option.split)
  show ?thesis by (simp only: render_join_def relation on)
qed

lemma operation_clauses_cong:
  assumes re: "\<And>x. below (NExpression x) (NOperation q) \<Longrightarrow> re x = re' x"
    and rq: "\<And>k b. below (NOperation k) (NOperation q) \<Longrightarrow> rq k b = rq' k b"
  shows "operation_clauses r re rq q encode = operation_clauses r re' rq' q encode"
proof -
  have child: "NExpression x \<in> set (operation_parts q) \<Longrightarrow> re x = re' x" for x
    by (rule re, rule below_child) simp
  have query: "NOperation k \<in> set (operation_parts q) \<Longrightarrow> rq k b = rq' k b" for k b
    by (rule rq, rule below_child) simp
  have grandchild: "re x = re' x"
    if "NExpression m \<in> set (operation_parts q)" "NExpression x \<in> set (expression_parts m)" for m x
    using that by (intro re below_grandchild [where m = "NExpression m"]) simp_all
  have ctes: "with_clause r rq (common_table_expressions q) = with_clause r rq' (common_table_expressions q)"
    by (rule with_clause_cong, rule query) (auto intro: operation_child_intros)
  have distinct: "distinct_clause r re q = distinct_clause r re' q"
  proof -
    have "map re (op_distinct_on q) = map re' (op_distinct_on q)"
      by (auto intro: child operation_child_intros)
    then show ?thesis by (simp only: distinct_clause_def)
  qed
  have projection: "map (render_projection r re encode) (op_projection q) = map (render_projection r re' encode) (op_projection q)"
  proof (rule map_cong [OF refl], rule render_projection_cong)
    fix item assume item: "item \<in> set (op_projection q)"
    then have i: "NExpression (qp_expression item) \<in> set (operation_parts q)" by (intro operation_child_intros)
    then show "re (qp_expression item) = re' (qp_expression item)" by (rule child)
    show "re a = re' a" if "qp_expression item = Spatial f args" "a \<in> set args" for f args a
      using i that by (intro grandchild [where m = "qp_expression item"]) simp_all
  qed
  have from_c: "from_clause r rq q = from_clause r rq' q"
    unfolding from_clause_def
    by (subst render_query_relation_cong [where rq = rq and rq' = rq']) (auto intro: query operation_child_intros)
  have joins: "map (render_join r re rq (op_locking q)) (op_joins q) = map (render_join r re' rq' (op_locking q)) (op_joins q)"
    by (auto intro!: render_join_cong intro: child query join_child_intros operation_child_intros)
  have filters: "clause_of '' WHERE '' re (op_filter q) = clause_of '' WHERE '' re' (op_filter q)"
    "clause_of '' HAVING '' re (op_having q) = clause_of '' HAVING '' re' (op_having q)"
    "list_clause '' GROUP BY '' re (op_group_by q) = list_clause '' GROUP BY '' re' (op_group_by q)"
    by (auto intro!: clause_of_cong list_clause_cong intro: child operation_child_intros)
  have sets: "map (render_set_operation rq encode) (op_set_operations q) = map (render_set_operation rq' encode) (op_set_operations q)"
    by (auto simp: render_set_operation_def query operation_child_intros)
  have order: "list_clause '' ORDER BY '' (render_query_ordering r re) (op_order_by q) =
      list_clause '' ORDER BY '' (render_query_ordering r re') (op_order_by q)"
    by (rule list_clause_cong, rule render_query_ordering_cong) (auto intro: child grandchild operation_child_intros)
  show ?thesis
    by (simp only: operation_clauses_def ctes distinct projection from_c joins filters sets order)
qed

text \<open>The two recursive entry points.\<close>

lemma scoped_cong: "m = m' \<Longrightarrow> scoped q m = scoped q m'"
  by simp

lemmas render_fundef_congs [fundef_cong] = expression_step_cong operation_clauses_cong

function render_query_expression :: "renderer \<Rightarrow> query_expression \<Rightarrow> string rendering"
  and render_query_inner :: "renderer \<Rightarrow> query_operation \<Rightarrow> bool \<Rightarrow> string rendering" where
  "render_query_expression r e =
     expression_step r (\<lambda>x. render_query_expression r x) (\<lambda>q b. render_query_inner r q b) e"
| "render_query_inner r q encode =
     scoped q (operation_clauses r (\<lambda>x. render_query_expression r x) (\<lambda>k b. render_query_inner r k b) q encode)"
  by pat_completeness auto
termination
  by (relation "measure (case_sum (\<lambda>(r, e). size e) (\<lambda>(r, q, encode). size q))") (auto dest: below_size)

declare render_query_expression.simps [simp del] render_query_inner.simps [simp del]

section \<open>The entry points\<close>

record rendered_sql =
  rsq_sql :: string
  rsq_binds :: "(nat \<times> string) list"

record rendered_query_parts =
  rqp_with_clause :: string
  rqp_body :: string
  rqp_binds :: "(nat \<times> string) list"

definition render_limits :: "renderer \<Rightarrow> limits" where
  "render_limits r =
     (if rn_dialect r = DlSqlServer then default_limits\<lparr>l_max_identifier_bytes := SQL_SERVER_MAX_IDENTIFIER_CHARS\<rparr>
      else if rn_dialect r = DlOracle then default_limits\<lparr>l_max_identifier_bytes := ORACLE_MAX_IDENTIFIER_BYTES\<rparr>
      else default_limits)"

text \<open>Rule P on the whole plan, then the scalar operands.\<close>

definition judge_positions :: "(provider_kind \<Rightarrow> query_operation \<Rightarrow> unit result) \<Rightarrow> renderer \<Rightarrow> query_operation \<Rightarrow> unit result" where
  "judge_positions operands r q =
     and_then (judge_probe_positions (renderer_provider r) (rn_evidence r) q) (\<lambda>_.
     operands (renderer_provider r) q)"

definition render_query_with_spatial_encoding ::
  "(provider_kind \<Rightarrow> query_operation \<Rightarrow> unit result) \<Rightarrow> renderer \<Rightarrow> query_operation \<Rightarrow> bool \<Rightarrow> rendered_sql result" where
  "render_query_with_spatial_encoding operands r q encode =
     and_then (validate_query_operation q (render_limits r)) (\<lambda>_.
     and_then (judge_positions operands r q) (\<lambda>_.
     and_then (render_query_inner r q encode render_state_default) (\<lambda>(sql, st).
     and_then (validate_bind_count r (rst_binds st)) (\<lambda>_.
     Inr \<lparr>rsq_sql = sql, rsq_binds = rst_binds st\<rparr>))))"

definition render_query ::
  "(provider_kind \<Rightarrow> query_operation \<Rightarrow> unit result) \<Rightarrow> renderer \<Rightarrow> query_operation \<Rightarrow> rendered_sql result" where
  "render_query operands r q = render_query_with_spatial_encoding operands r q True"

definition render_query_native_spatial ::
  "(provider_kind \<Rightarrow> query_operation \<Rightarrow> unit result) \<Rightarrow> renderer \<Rightarrow> query_operation \<Rightarrow> rendered_sql result" where
  "render_query_native_spatial operands r q = render_query_with_spatial_encoding operands r q False"

definition render_select ::
  "(provider_kind \<Rightarrow> query_operation \<Rightarrow> unit result) \<Rightarrow> renderer \<Rightarrow> simple_select \<Rightarrow> rendered_sql result" where
  "render_select operands r s = render_query operands r (simple_select_to_relational s)"

definition without_common_tables :: "query_operation \<Rightarrow> query_operation" where
  "without_common_tables q =
     (case q of QueryOperation ctes source derived projection joins filters groups having orders once distinct_on sets
          limit offset locking declared \<Rightarrow>
        QueryOperation [] source derived projection joins filters groups having orders once distinct_on sets
          limit offset locking declared)"

definition render_query_native_spatial_parts ::
  "(provider_kind \<Rightarrow> query_operation \<Rightarrow> unit result) \<Rightarrow> renderer \<Rightarrow> query_operation \<Rightarrow> rendered_query_parts result" where
  "render_query_native_spatial_parts operands r q =
     and_then (validate_query_operation q (render_limits r)) (\<lambda>_.
     and_then (judge_positions operands r q) (\<lambda>_.
     and_then (with_clause r (render_query_inner r) (common_table_expressions q) render_state_default) (\<lambda>(ctes, st).
     and_then (render_query_inner r (without_common_tables q) False
         (st\<lparr>rst_outer := set (map cte_name (common_table_expressions q))\<rparr>)) (\<lambda>(body, st').
     and_then (validate_bind_count r (rst_binds st')) (\<lambda>_.
     Inr \<lparr>rqp_with_clause = ctes, rqp_body = body, rqp_binds = rst_binds st'\<rparr>)))))"

definition render_filter_inner :: "renderer \<Rightarrow> simple_expression \<Rightarrow> string option \<Rightarrow> rendered_sql result" where
  "render_filter_inner r e relation =
     (let relational = simple_expression_to_relational e relation
      in and_then (judge_probe_predicate (renderer_provider r) (rn_evidence r) relational
             (case relation of None \<Rightarrow> [] | Some name \<Rightarrow> name)) (\<lambda>_.
         and_then (render_query_expression r relational render_state_default) (\<lambda>(sql, st).
         and_then (validate_bind_count r (rst_binds st)) (\<lambda>_.
         Inr \<lparr>rsq_sql = sql, rsq_binds = rst_binds st\<rparr>))))"

definition render_filter :: "renderer \<Rightarrow> simple_expression \<Rightarrow> rendered_sql result" where
  "render_filter r e = render_filter_inner r e None"

definition render_filter_for_relation :: "renderer \<Rightarrow> simple_expression \<Rightarrow> string \<Rightarrow> rendered_sql result" where
  "render_filter_for_relation r e relation = render_filter_inner r e (Some relation)"

text \<open>What the fingerprint hashes, a byte of the digest's input per character.\<close>

definition fingerprint_component :: "string \<Rightarrow> string" where
  "fingerprint_component v = show_nat (length v) @ '':'' @ v"

definition fingerprint_input :: "rendered_sql \<Rightarrow> string" where
  "fingerprint_input s =
     ''plenora-lowered-statement-v1'' @ [CHR 0x00] @ fingerprint_component (rsq_sql s)
     @ concat (map (\<lambda>(ordinal, name). fingerprint_component (show_nat ordinal) @ fingerprint_component name) (rsq_binds s))"

definition fingerprint :: "(string \<Rightarrow> u8 list) \<Rightarrow> rendered_sql \<Rightarrow> u8 list" where
  "fingerprint sha256 s = sha256 (fingerprint_input s)"

end
