(* ===== verification/Sql_Words.thy ===== *)
theory Sql_Words
  imports Sql_Renderer
begin

text \<open>
  What a rendering may write, for the proofs about \<open>plenora-database-sql/src/lib.rs\<close>: the closed list of the fixed
  words of the renderer, and the texts that are made of such words, quoted identifiers, decimal numbers and
  placeholders.  \<open>yields\<close> is the contract of a rendering: it appends binds, numbered from the next ordinal, leaves the
  scopes as they were, and its value stands in a given relation to the names it appended.
\<close>

section \<open>Fixed words\<close>

definition FIXED_WORDS :: "string list" where
  "FIXED_WORDS =
    [''('', '' '', '')'', ''CAST('', '' AS '', ''CASE'', '' WHEN '', '' THEN '', '' ELSE '', '' END'',
     ''ST_AsEWKB('', ''ST_AsEWKB(('', '')::geometry)'', ''ST_AsBinary('', '').AsBinaryZM()'', ''ST_ASBINARY('',
     ''MDSYS.SDO_UTIL.TO_WKBGEOMETRY('', '')::geography'', ''ST_GeomFromWKB(CAST('', '' AS BINARY), '',
     ''geometry::STGeomFromWKB('', '', '', ''geography::STGeomFromWKB('', ''ST_GEOMETRY(BLOB(HEXTORAW(CAST('',
     '' AS VARCHAR(32672)))), '', ''MDSYS.SDO_UTIL.FROM_WKBGEOMETRY('', ''ST_GeomFromEWKB('', ''ASC'',
     ''DESC'', ''CASE WHEN '', '' IS NULL THEN 1 ELSE 0 END'', '' IS NULL)'', '' NULLS '', ''FIRST'', ''LAST'',
     '' OVER ('', ''PARTITION BY '', ''ORDER BY '', ''NOT '', ''IN ('', ''BETWEEN '', '' AND '', ''ILIKE'',
     ''LIKE'', ''NOT ('', ''AND'', ''OR'', '' IS '', ''NULL'', ''SDO_UTIL.FROM_WKBGEOMETRY('',
     ''ST_GeomFromWKB('', ''.SDO_SRID)'', ''(SELECT MDSYS.SDO_GEOMETRY((TRUNC('',
     ''.SDO_GTYPE / 1000) * 1000) + 1, '',
     ''.SDO_SRID, MDSYS.SDO_POINT_TYPE(V.X, V.Y, V.Z), NULL, NULL) FROM TABLE(MDSYS.SDO_UTIL.GETVERTICES('',
     '')) V WHERE V.ID = '', ''CASE MOD('',
     ''.SDO_GTYPE, 100) WHEN 1 THEN 'POINT' WHEN 2 THEN 'LINESTRING' WHEN 3 THEN 'POLYGON' WHEN 4 THEN 'GEOMETRYCOLLECTION' WHEN 5 THEN 'MULTIPOINT' WHEN 6 THEN 'MULTILINESTRING' WHEN 7 THEN 'MULTIPOLYGON' ELSE 'GEOMETRY' END'',
     ''.SDO_SRID AS NUMBER(10))'', ''.ST_CoordDim() AS NUMBER(10))'', ''(SELECT V.'',
     '' FROM TABLE(MDSYS.SDO_UTIL.GETVERTICES('', '')) V WHERE V.ID = 1)'', ''MDSYS.SDO_UTIL.GETNUMVERTICES('',
     ''1'', ''.ST_IsValid() = 1)'', ''(MDSYS.SDO_RELATE('', '', 'mask='', '') = 'TRUE')'',
     ''(MDSYS.SDO_GEOM.RELATE('', '', 'DISJOINT', '', '', 0.005) = 'DISJOINT')'',
     ''(MDSYS.SDO_WITHIN_DISTANCE('', '', 'distance=' || '', '' || ' unit=M') = 'TRUE')'',
     ''MDSYS.SDO_GEOMETRY('', ''.SDO_GTYPE, '', ''.SDO_POINT, '', ''.SDO_ELEM_INFO, '', ''.SDO_ORDINATES)'',
     ''MDSYS.SDO_CS.TRANSFORM('', ''MDSYS.SDO_GEOM.SDO_BUFFER('', '', 0.005, 'unit=M')'', ''MDSYS.SDO_GEOM.'',
     '', 0.005)'', '', 0.005, 'unit='', ''.Get_GeoJson()'', '' = 1)'', ''.'', ''()'', ''(ST_SRID('', '', 0))'',
     ''*'', ''.*'', ''EXISTS ('', '' WITH ('', ''LATERAL '', ''WITH '', ''RECURSIVE '', '' AS ('',
     ''DISTINCT ON ('', '') '', ''DISTINCT '', ''TOP ('', '' FROM '', '' FROM DUAL'',
     '' FROM SYSIBM.SYSDUMMY1'', '' CROSS APPLY '', '' INNER JOIN '', '' LEFT JOIN '', '' RIGHT JOIN '',
     '' FULL JOIN '', '' CROSS JOIN '', '' ON '', '' UNION'', '' INTERSECT'', '' EXCEPT'', '' ALL'', '' ('',
     '' FETCH FIRST '', '' ROWS ONLY'', '' LIMIT '', '' OFFSET '', '' ROWS'', '' FETCH NEXT '',
     '' FOR UPDATE'', '' FOR NO KEY UPDATE'', '' FOR SHARE'', '' FOR KEY SHARE'', '' NOWAIT'',
     '' SKIP LOCKED'', '' OF '', ''SELECT '', '' WHERE '', '' GROUP BY '', '' HAVING '', '' ORDER BY '',
     ''ST_SetSRID('POINT EMPTY'::geometry, '', ''(CASE WHEN ST_Equals('',
     ''COALESCE((SELECT postgis_typmod_srid(a.atttypmod) FROM pg_catalog.pg_attribute a WHERE a.attrelid = to_regclass('',
     '') AND a.attname = '', '' AND a.attnum > 0 AND NOT a.attisdropped), 0)'', '') THEN '', '' END)'',
     ''ST_SetSRID(ST_GeomFromEWKB('', ''), '', ''E'', ''quote_ident('', ''(quote_ident('', '') || '.' || '',
     ''(CASE WHEN ST_SRID('', '') = 0 THEN ST_SetSRID('', '') WHEN ST_Equals('', ''ST_SRID('',
     ''TO_TIMESTAMP_TZ('', ''TO_BOOLEAN('', ''='', ''<>'', ''<'', ''<='', ''>'', ''>='', ''+'', ''-'', ''/'',
     ''&&'', ''~'', ''@'', ''<->'', ''<<->>'', ''LOWER'', ''UPPER'', ''COALESCE'', ''COUNT'', ''SUM'', ''AVG'',
     ''MIN'', ''MAX'', ''ROW_NUMBER'', ''RANK'', ''DENSE_RANK'', ''LAG'', ''LEAD'', ''COUNT_BIG'', ''ROWS'',
     ''RANGE'', ''GROUPS'', ''UNBOUNDED PRECEDING'', '' PRECEDING'', ''CURRENT ROW'', '' FOLLOWING'',
     ''UNBOUNDED FOLLOWING'', '' BETWEEN '', ''X'', ''Y'', ''Z'', ''ANYINTERACT'', ''CONTAINS'', ''INSIDE'',
     ''COVERS'', ''COVEREDBY'', ''TOUCH'', ''OVERLAPBDYDISJOINT+OVERLAPBDYINTERSECT'', ''EQUAL'',
     ''SDO_INTERSECTION'', ''SDO_DIFFERENCE'', ''SDO_XOR'', ''SDO_UNION'', ''SDO_CENTROID'',
     ''SDO_POINTONSURFACE'', ''SDO_MBR'', ''SDO_CONVEXHULL'', ''SDO_DISTANCE'', ''M'', ''SDO_AREA'', ''SQ_M'',
     ''SDO_LENGTH'', ''UPDLOCK'', ''HOLDLOCK'', ''NOWAIT'', [CHR 0x27]]"

text \<open>The fixed words, the names of functions, methods and types, and the axis option of the profile.\<close>

definition word :: "renderer \<Rightarrow> string \<Rightarrow> bool" where
  "word r s \<longleftrightarrow>
     s \<in> set FIXED_WORDS \<or> (\<exists>f. s = dialect_spatial_name (rn_dialect r) f) \<or> (\<exists>d t. s = type_name d t)
     \<or> (\<exists>f semantics shape. sql_server_spatial_method f semantics = Some (s, shape))
     \<or> s = ORACLE_TIMESTAMP_TZ_FORMAT_MODEL \<or> s = renderer_axis_argument r"

lemma all_fixed_words: "list_all (word r) FIXED_WORDS"
  by (simp add: list_all_iff word_def)

lemmas fixed_words [simp] = all_fixed_words [unfolded FIXED_WORDS_def list.pred_inject]

lemma table_words:
  shows "word r (dialect_spatial_name (rn_dialect r) f)" "word r (type_name d t)"
    "sql_server_spatial_method f semantics = Some (name, shape) \<Longrightarrow> word r name"
    "word r ORACLE_TIMESTAMP_TZ_FORMAT_MODEL" "word r (renderer_axis_argument r)"
  by (auto simp: word_def)

section \<open>The contract of a rendering\<close>

definition extended :: "render_state \<Rightarrow> string list \<Rightarrow> render_state" where
  "extended st ns = st\<lparr>rst_binds := rst_binds st @ enumerate (Suc (length (rst_binds st))) ns\<rparr>"

definition yields :: "string set \<Rightarrow> (nat \<Rightarrow> string list \<Rightarrow> 'a \<Rightarrow> bool) \<Rightarrow> 'a rendering \<Rightarrow> bool" where
  "yields N A m \<longleftrightarrow>
     (\<forall>st x st'. m st = Inr (x, st') \<longrightarrow> (\<exists>ns. set ns \<subseteq> N \<and> st' = extended st ns \<and> A (length (rst_binds st)) ns x))"

lemma extended_simps [simp]:
  "extended st [] = st" "length (rst_binds (extended st ns)) = length (rst_binds st) + length ns"
  "rst_scopes (extended st ns) = rst_scopes st" "rst_outer (extended st ns) = rst_outer st"
  by (simp_all add: extended_def)

lemma extended_extended [simp]: "extended (extended st ns) ms = extended st (ns @ ms)"
  by (simp add: extended_def enumerate_append_eq)

lemma yieldsD:
  assumes "yields N A m" "m st = Inr (x, st')"
  obtains ns where "set ns \<subseteq> N" "st' = extended st ns" "A (length (rst_binds st)) ns x"
  using assms unfolding yields_def by blast

lemma yields_written: "(\<And>k. A k [] x) \<Longrightarrow> yields N A (written x)"
  by (auto simp: yields_def written_def intro: exI [of _ "[]"])

lemma yields_failed [simp, intro!]: "yields N A (failed e)" "yields N A (invalid message)" "yields N A (refused r message)"
  by (simp_all add: yields_def failed_def invalid_def refused_def)

lemma yields_attempt: "(\<And>k x. v = Inr x \<Longrightarrow> A k [] x) \<Longrightarrow> yields N A (attempt v)"
  by (auto simp: yields_def attempt_def result_simps intro!: exI [of _ "[]"])

lemma yields_judged: "(\<And>k x scope. f scope = Inr x \<Longrightarrow> A k [] x) \<Longrightarrow> yields N A (judged f)"
  by (auto simp: yields_def judged_def result_simps intro!: exI [of _ "[]"])

lemma yields_followed:
  assumes m: "yields N A m"
    and f: "\<And>k ns x. A k ns x \<Longrightarrow> yields N (\<lambda>k' ms y. k' = k + length ns \<longrightarrow> B k (ns @ ms) y) (f x)"
  shows "yields N B (followed m f)"
  unfolding yields_def
proof (intro allI impI)
  fix st y st'
  assume "followed m f st = Inr (y, st')"
  then obtain x st1 where x: "m st = Inr (x, st1)" and y: "f x st1 = Inr (y, st')"
    by (auto simp: followed_def result_simps)
  obtain ns where ns: "set ns \<subseteq> N" "st1 = extended st ns" "A (length (rst_binds st)) ns x" by (rule yieldsD [OF m x])
  obtain ms where ms: "set ms \<subseteq> N" "st' = extended st1 ms"
    "length (rst_binds st1) = length (rst_binds st) + length ns \<longrightarrow> B (length (rst_binds st)) (ns @ ms) y"
    by (rule yieldsD [OF f [OF ns(3)] y])
  from ns ms show "\<exists>ns. set ns \<subseteq> N \<and> st' = extended st ns \<and> B (length (rst_binds st)) ns y" by (intro exI [of _ "ns @ ms"]) simp
qed

text \<open>A rendering that only changes the text of another one, and one that only judges first.\<close>

lemma yields_map: "yields N A m \<Longrightarrow> (\<And>k ns x. A k ns x \<Longrightarrow> B k ns (f x)) \<Longrightarrow> yields N B (followed m (\<lambda>x. written (f x)))"
  by (rule yields_followed, assumption, rule yields_written) simp

lemma yields_after:
  assumes "\<And>x. P x \<Longrightarrow> yields N B (f x)" "yields N (\<lambda>k ns x. ns = [] \<and> P x) m"
  shows "yields N B (followed m f)"
proof (rule yields_followed [OF assms(2)])
  fix k :: nat and ns :: "string list" and x
  assume "ns = [] \<and> P x"
  then show "yields N (\<lambda>k' ms y. k' = k + length ns \<longrightarrow> B k (ns @ ms) y) (f x)"
    using assms(1) [of x] unfolding yields_def by simp metis
qed

lemma yields_mono: "yields N A m \<Longrightarrow> (\<And>k ns x. A k ns x \<Longrightarrow> B k ns x) \<Longrightarrow> yields N B m"
  unfolding yields_def by blast

text \<open>The parts of a text, one after the other.\<close>

primrec listed :: "(nat \<Rightarrow> string list \<Rightarrow> 'a \<Rightarrow> bool) \<Rightarrow> nat \<Rightarrow> string list \<Rightarrow> 'a list \<Rightarrow> bool" where
  "listed A k ns [] \<longleftrightarrow> ns = []"
| "listed A k ns (x # xs) \<longleftrightarrow> (\<exists>a b. ns = a @ b \<and> A k a x \<and> listed A (k + length a) b xs)"

lemma yields_collected: "(\<And>m. m \<in> set ms \<Longrightarrow> yields N A m) \<Longrightarrow> yields N (listed A) (collected ms)"
proof (induction ms)
  case (Cons m ms)
  then have "yields N A m" "yields N (listed A) (collected ms)" by simp_all
  then show ?case
    unfolding collected.simps
    by (intro yields_followed [where A = A] yields_followed [where A = "listed A"] yields_written) auto
qed (simp add: yields_written)

lemma yields_scoped:
  assumes "yields N A m"
  shows "yields N A (scoped q m)"
  unfolding yields_def
proof (intro allI impI)
  fix st x st'
  assume "scoped q m st = Inr (x, st')"
  then obtain st1 where m: "m (st\<lparr>rst_scopes := scope_of q (visible_common_tables st) # rst_scopes st\<rparr>) = Inr (x, st1)"
    and st': "st' = st1\<lparr>rst_scopes := tl (rst_scopes st1)\<rparr>"
    by (auto simp: scoped_def result_simps)
  from yieldsD [OF assms m] obtain ns where "set ns \<subseteq> N" "st1 = extended (st\<lparr>rst_scopes := scope_of q (visible_common_tables st) # rst_scopes st\<rparr>) ns"
    "A (length (rst_binds st)) ns x" by auto
  with st' show "\<exists>ns. set ns \<subseteq> N \<and> st' = extended st ns \<and> A (length (rst_binds st)) ns x"
    by (intro exI [of _ ns]) (simp add: extended_def)
qed

end
