(* ===== verification/Sql_Texts.thy ===== *)
theory Sql_Texts
  imports Sql_Words
begin

text \<open>
  Every method of the renderer of \<open>plenora-database-sql/src/lib.rs\<close> keeps a relation between the names it binds and
  the text it writes, for any relation closed under the ways texts are put together.  The locale \<open>text_rules\<close> states
  those ways; \<open>exact\<close> marks a relation that counts every placeholder once, which the dialects that repeat an operand
  in the text do not keep.
\<close>

lemma symbol_words [simp]:
  "word r (arithmetic_symbol a)" "word r (comparison_symbol c)" "word r (operator_symbol p)"
  "word r (dialect_scalar_name d f)" "word r (frame_units_text u)" "word r (set_operator_text s)"
  "word r (lock_strength_text ls)" "join_keyword jk ap = Some kw \<Longrightarrow> word r kw"
proof -
  show "word r (arithmetic_symbol a)" by (cases a) simp_all
  show "word r (comparison_symbol c)" by (cases c) simp_all
  show "word r (operator_symbol p)" by (cases p) simp_all
  show "word r (dialect_scalar_name d f)" by (cases f) (simp_all add: dialect_scalar_name_def)
  show "word r (frame_units_text u)" by (cases u) simp_all
  show "word r (set_operator_text s)" by (cases s) simp_all
  show "word r (lock_strength_text ls)" by (cases ls) simp_all
  show "join_keyword jk ap = Some kw \<Longrightarrow> word r kw" by (cases jk; cases ap) auto
qed

declare table_words [simp]

locale text_rules =
  fixes r :: renderer and names :: "string set" and exact :: bool and J :: "nat \<Rightarrow> string list \<Rightarrow> string \<Rightarrow> bool"
  assumes J_nil: "J k [] []"
    and J_append: "J k ns s \<Longrightarrow> J (k + length ns) ms t \<Longrightarrow> J k (ns @ ms) (s @ t)"
    and J_word: "word r s \<Longrightarrow> J k [] s"
    and J_name: "quote r n = Inr q \<Longrightarrow> J k [] q"
    and J_number: "J k [] (show_nat i)"
    and J_mark: "n \<in> names \<Longrightarrow> J k [n] (placeholder_text (rn_dialect r) (Suc k))"
    and J_literal: "rn_dialect r = DlPostgres \<Longrightarrow> J k [] (postgres_text_literal t)"
    and J_both: "\<not> exact \<Longrightarrow> J k ns s \<Longrightarrow> J k ns t \<Longrightarrow> J k ns (s @ t)"
    and J_more: "\<not> exact \<Longrightarrow> J k ns s \<Longrightarrow> J k (ns @ ms) s"
    and J_later: "\<not> exact \<Longrightarrow> J (k + length ns) ms s \<Longrightarrow> J k (ns @ ms) s"
    and exact_dialect: "exact \<Longrightarrow> rn_dialect r \<in> {DlMysql, DlDb2, DlSqlite, DlDuckdb}"
begin

subsection \<open>Texts\<close>

lemma J_pre: "J k [] x \<Longrightarrow> J k ns y \<Longrightarrow> J k ns (x @ y)"
  using J_append [of k "[]" x ns y] by simp

lemma J_post: "J k ns x \<Longrightarrow> (\<And>j. J j [] y) \<Longrightarrow> J k ns (x @ y)"
  using J_append [of k ns x "[]" y] by simp

lemma J_around: "word r a \<Longrightarrow> word r b \<Longrightarrow> J k ns v \<Longrightarrow> J k ns (a @ v @ b)"
  by (intro J_pre J_post J_word)

lemma J_free: "\<not> exact \<Longrightarrow> J k [] s \<Longrightarrow> J k ns s"
  using J_more [of k "[]" s ns] by simp

lemma J_u64: "J k [] (show_u64 n)"
  unfolding show_u64_def by (rule J_number)

lemma J_srid: "J k [] (show_srid n)"
  unfolding show_srid_def by (rule J_number)

lemma J_quoted: "quoted r name = Inr q \<Longrightarrow> J k [] q"
  by (auto simp: quoted_def result_simps intro: J_name)

lemma J_concat: "listed J k ns ss \<Longrightarrow> J k ns (concat ss)"
  by (induction ss arbitrary: k ns) (auto intro: J_nil J_append)

lemma J_join: "listed J k ns ss \<Longrightarrow> (\<And>j. J j [] sep) \<Longrightarrow> J k ns (join_texts sep ss)"
proof (induction sep ss arbitrary: k ns rule: join_texts.induct)
  case (3 sep s t ss)
  then obtain a b where ns: "ns = a @ b" and s: "J k a s" and rest: "listed J (k + length a) b (t # ss)" by auto
  have "J (k + length a) b (sep @ join_texts sep (t # ss))" by (rule J_pre [OF "3.prems"(2) "3.IH" [OF rest "3.prems"(2)]])
  from J_append [OF s this] ns show ?case by simp
qed (auto intro: J_nil)

lemma J_parts: "(\<And>s. s \<in> set ss \<Longrightarrow> J k [] s) \<Longrightarrow> J k [] sep \<Longrightarrow> J k [] (join_texts sep ss)"
  by (induction sep ss rule: join_texts.induct) (auto intro!: J_nil J_pre)

subsection \<open>Combinators\<close>

lemma good_word [simp]: "word r w \<Longrightarrow> yields names J (written w)"
  by (rule yields_written) (rule J_word)

lemma good_nil [simp]: "yields names J (written [])"
  by (rule yields_written) (rule J_nil)

lemma good_closed: "(\<And>k. J k [] s) \<Longrightarrow> yields names J (written s)"
  by (rule yields_written)

lemma good_quoted [simp]: "yields names J (attempt (quoted r name))"
  by (rule yields_attempt) (rule J_quoted)

lemma good_texts: "list_all (yields names J) ms \<Longrightarrow> yields names J (texts ms)"
  unfolding texts_def by (rule yields_map [OF yields_collected]) (auto simp: list_all_iff intro: J_concat)

lemma good_joined: "list_all (yields names J) ms \<Longrightarrow> (\<And>k. J k [] sep) \<Longrightarrow> yields names J (joined sep ms)"
  unfolding joined_def by (rule yields_map [OF yields_collected]) (auto simp: list_all_iff intro: J_join)

lemma good_commas: "list_all (yields names J) ms \<Longrightarrow> yields names J (joined '', '' ms)"
  by (rule good_joined) (simp_all add: J_word)

lemma good_map: "(\<And>x. x \<in> set xs \<Longrightarrow> yields names J (f x)) \<Longrightarrow> list_all (yields names J) (map f xs)"
  by (simp add: list_all_iff)

lemma good_after_attempt: "(\<And>x. v = Inr x \<Longrightarrow> yields names B (f x)) \<Longrightarrow> yields names B (followed (attempt v) f)"
  by (rule yields_after [where P = "\<lambda>x. v = Inr x"]) (auto intro: yields_attempt)

lemma good_after_judged: "(\<And>x scope. j scope = Inr x \<Longrightarrow> yields names B (f x)) \<Longrightarrow> yields names B (followed (judged j) f)"
  by (rule yields_after [where P = "\<lambda>x. \<exists>scope. j scope = Inr x"]) (auto intro: yields_judged)

text \<open>Two operands, each of them any number of times.\<close>

lemma good_two:
  assumes "\<not> exact" "yields names J m" "\<And>x. yields names J (m2 x)"
    and "\<And>k ns x y. J k ns x \<Longrightarrow> J k ns y \<Longrightarrow> J k ns (f x y)"
  shows "yields names J (followed m (\<lambda>x. followed (m2 x) (\<lambda>y. written (f x y))))"
proof (rule yields_followed [OF assms(2)])
  fix k ns x assume "J k ns x"
  then show "yields names (\<lambda>k' ms y. k' = k + length ns \<longrightarrow> J k (ns @ ms) y) (followed (m2 x) (\<lambda>y. written (f x y)))"
    using assms(1,4) by (intro yields_map [OF assms(3)]) (blast intro: J_more J_later)
qed

lemma good_bind: "n \<in> names \<Longrightarrow> yields names J (bind_parameter r n)"
  using J_mark [of n] by (auto simp: yields_def bind_parameter_def Let_def extended_def intro!: exI [of _ "[n]"])

end

section \<open>Expressions\<close>

context text_rules
begin

lemma good_then:
  assumes "yields names J m" and "\<And>k ns x. J k ns x \<Longrightarrow> yields names (\<lambda>k' ms y. ms = [] \<and> J k ns y) (f x)"
  shows "yields names J (followed m f)"
  by (rule yields_followed [OF assms(1)]) (auto intro: yields_mono [OF assms(2)])

lemma then_written: "J k ns s \<Longrightarrow> yields names (\<lambda>k' ms y. ms = [] \<and> J k ns y) (written s)"
  by (auto simp: yields_def written_def intro!: exI [of _ "[]"])

lemma J_wrap: "J k ns v \<Longrightarrow> word r a \<Longrightarrow> (\<And>j. J j [] b) \<Longrightarrow> J k ns (a @ v @ b)"
  by (blast intro: J_pre J_post J_word)

lemma J_sep: "word r w \<Longrightarrow> J k [] t \<Longrightarrow> J k [] (w @ t)"
  by (blast intro: J_pre J_word)

lemma J_then: "J k [] s \<Longrightarrow> J k [] t \<Longrightarrow> J k [] (s @ t)"
  by (rule J_pre)

lemma J_render: "J k ns v \<Longrightarrow> J k ns (render d v t)"
  unfolding render_def to_timestamp_tz_def
  by (auto intro!: J_wrap J_then intro: J_word simp del: append.simps)

lemma good_parameter: "n \<in> names \<Longrightarrow> yields names J (render_parameter r n t)"
  unfolding render_parameter_def
  by (rule good_then [OF good_bind]) (auto intro!: then_written good_after_attempt J_render split: option.splits)

lemma good_arithmetic: "(\<And>x. yields names J (re x)) \<Longrightarrow> yields names J (render_arithmetic re left op right)"
  unfolding render_arithmetic_def by (rule good_texts) simp

lemma good_cast: "(\<And>x. yields names J (re x)) \<Longrightarrow> yields names J (render_cast r re e t)"
  unfolding render_cast_def
  by (rule good_after_attempt) (auto intro!: good_texts good_then then_written J_render)

lemma good_case: "(\<And>x. yields names J (re x)) \<Longrightarrow> yields names J (render_case re branches otherwise)"
  unfolding render_case_def by (rule good_texts) (auto intro!: good_texts good_map split: option.split)

lemma good_spatial_output: "(\<And>x. yields names J (re x)) \<Longrightarrow> yields names J (render_spatial_output r re e semantics)"
  unfolding render_spatial_output_def
  by (rule good_then, assumption, cases "rn_dialect r"; cases semantics)
     (auto intro!: then_written J_wrap J_then intro: J_word simp del: append.simps)

end

context text_rules
begin

lemma repeats: "rn_dialect r \<in> {DlPostgres, DlSqlServer, DlOracle} \<Longrightarrow> \<not> exact"
  using exact_dialect by auto

text \<open>Texts that may repeat an operand.\<close>

lemma R_word: "\<not> exact \<Longrightarrow> word r w \<Longrightarrow> J k ns w"
  by (blast intro: J_free J_word)

lemma R_srid: "\<not> exact \<Longrightarrow> J k ns (show_srid srid)"
  by (blast intro: J_free J_srid)

lemmas R_intros = J_both R_srid

lemma J_postgres_value: "\<not> exact \<Longrightarrow> J k ns v \<Longrightarrow> J k ns (postgres_spatial_value v srid)"
  unfolding postgres_spatial_value_def postgis_empty_def Let_def
  by (auto intro!: R_intros intro: R_word simp del: append.simps)

lemma good_spatial_value: "(\<And>x. yields names J (re x)) \<Longrightarrow> yields names J (render_spatial_value r re e srid semantics)"
  unfolding render_spatial_value_def
  by (rule good_then, assumption, cases "rn_dialect r"; cases semantics)
     (auto intro!: then_written J_wrap J_then J_srid J_postgres_value repeats intro: J_word simp del: append.simps)

lemma J_literal_free: "rn_dialect r = DlPostgres \<Longrightarrow> J k ns (postgres_text_literal t)"
  using repeats by (blast intro: J_free J_literal)

lemma J_relation_text: "rn_dialect r = DlPostgres \<Longrightarrow> J k ns (postgres_relation_text schema obj)"
  unfolding postgres_relation_text_def Let_def using repeats
  by (auto intro!: R_intros J_literal_free intro: R_word simp del: append.simps split: option.split)

lemma J_guarded: "rn_dialect r = DlPostgres \<Longrightarrow> J k ns v \<Longrightarrow> J k ns (guarded_value v guard)"
  unfolding guarded_value_def postgres_column_guard_def postgis_empty_def using repeats
  by (auto intro!: R_intros J_literal_free J_relation_text intro: R_word simp del: append.simps split: option.split)

lemma J_apply_guards:
  "rn_dialect r = DlPostgres \<Longrightarrow> \<forall>s \<in> set rendered. J k ns s \<Longrightarrow> s \<in> set (apply_probe_guards r rendered guards) \<Longrightarrow> J k ns s"
  by (auto simp: apply_probe_guards_def dest!: set_zip_leftD intro: J_guarded)

lemma listed_members:
  assumes "\<not> exact"
  shows "listed J k ns ss \<Longrightarrow> s \<in> set ss \<Longrightarrow> J k ns s"
proof (induction ss arbitrary: k ns)
  case (Cons t ss)
  then obtain a b where "ns = a @ b" "J k a t" "listed J (k + length a) b ss" by auto
  with Cons show ?case using assms by (auto intro: J_more J_later)
qed simp

lemma join_members:
  assumes "\<not> exact"
  shows "J k ns sep \<Longrightarrow> (\<And>s. s \<in> set ss \<Longrightarrow> J k ns s) \<Longrightarrow> J k ns (join_texts sep ss)"
proof (induction sep ss rule: join_texts.induct)
  case (3 sep s t ss)
  then have "J k ns s" "J k ns sep" "J k ns (join_texts sep (t # ss))" by auto
  with assms show ?case by (simp add: J_both)
qed (use assms in \<open>auto intro: J_free J_nil\<close>)

end

section \<open>Spatial functions\<close>

text \<open>A rendering that goes on after one that bound \<open>ns\<close> from \<open>k\<close> on: what it returns may use both.\<close>

definition continues :: "string set \<Rightarrow> (nat \<Rightarrow> string list \<Rightarrow> 'a \<Rightarrow> bool) \<Rightarrow> nat \<Rightarrow> string list \<Rightarrow> 'a rendering \<Rightarrow> bool" where
  "continues N J k ns m \<longleftrightarrow>
     (\<forall>st y st'. length (rst_binds st) = k + length ns \<longrightarrow> m st = Inr (y, st') \<longrightarrow>
        (\<exists>ms. set ms \<subseteq> N \<and> st' = extended st ms \<and> J k (ns @ ms) y))"

lemma continuesD:
  assumes "continues N J k ns m" "length (rst_binds st) = k + length ns" "m st = Inr (y, st')"
  obtains ms where "set ms \<subseteq> N" "st' = extended st ms" "J k (ns @ ms) y"
  using assms unfolding continues_def by blast

lemma continues_failed [simp]:
  "continues N J k ns (refused r message)" "continues N J k ns (invalid message)" "continues N J k ns (failed e)"
  by (simp_all add: continues_def refused_def invalid_def failed_def)

lemma continues_written: "J k ns s \<Longrightarrow> continues N J k ns (written s)"
  by (auto simp: continues_def written_def intro!: exI [of _ "[]"])

lemma continues_followed:
  assumes "continues N A k ns m" "\<And>ms y. A k (ns @ ms) y \<Longrightarrow> continues N J k (ns @ ms) (f y)"
  shows "continues N J k ns (followed m f)"
  unfolding continues_def
proof (intro allI impI)
  fix st y st'
  assume k: "length (rst_binds st) = k + length ns" and "followed m f st = Inr (y, st')"
  then obtain x st1 where x: "m st = Inr (x, st1)" and y: "f x st1 = Inr (y, st')"
    by (auto simp: followed_def result_simps)
  obtain ms where ms: "set ms \<subseteq> N" "st1 = extended st ms" "A k (ns @ ms) x" by (rule continuesD [OF assms(1) k x])
  from k ms(2) have "length (rst_binds st1) = k + length (ns @ ms)" by simp
  from continuesD [OF assms(2) [OF ms(3)] this y] obtain ls where "set ls \<subseteq> N" "st' = extended st1 ls" "J k ((ns @ ms) @ ls) y" .
  with ms show "\<exists>ls. set ls \<subseteq> N \<and> st' = extended st ls \<and> J k (ns @ ls) y" by (intro exI [of _ "ms @ ls"]) simp
qed

lemma yields_continues: "yields N J m \<longleftrightarrow> (\<forall>k. continues N J k [] m)"
  unfolding yields_def continues_def by auto

lemma good_continue:
  assumes "yields N A m" "\<And>k ns x. A k ns x \<Longrightarrow> continues N J k ns (f x)"
  shows "yields N J (followed m f)"
  using assms unfolding yields_continues by (auto intro: continues_followed)

lemma continues_attempt:
  "(\<And>x. v = Inr x \<Longrightarrow> continues N J k ns (f x)) \<Longrightarrow> continues N J k ns (followed (attempt v) f)"
  by (auto simp: continues_def followed_def attempt_def result_simps)

lemma continues_judged:
  "(\<And>x scope. j scope = Inr x \<Longrightarrow> continues N J k ns (f x)) \<Longrightarrow> continues N J k ns (followed (judged j) f)"
  by (auto simp: continues_def followed_def judged_def result_simps)

lemma yields_with: "yields N A m \<Longrightarrow> (\<And>st x st'. m st = Inr (x, st') \<Longrightarrow> P x) \<Longrightarrow> yields N (\<lambda>k ns x. A k ns x \<and> P x) m"
  unfolding yields_def by blast

lemma collected_length: "collected ms st = Inr (xs, st') \<Longrightarrow> length xs = length ms"
  by (induction ms arbitrary: st xs) (auto simp: written_def followed_def result_simps)

lemma judge_geometry_length: "judge_geometry_arguments r use args scope = Inr guards \<Longrightarrow> length guards = length args"
  by (auto simp: judge_geometry_arguments_def Let_def dest!: try_collect_Inr split: if_splits)

text \<open>The guards change geometric arguments in place, and nothing at all outside PostgreSQL.\<close>

lemma fold_update_same:
  "fold (\<lambda>((i, a), v) out. out[i := v]) (zip g (map (\<lambda>(i, a). xs ! i) g)) xs = xs"
  by (induction g) auto

lemma guard_unchanged:
  "rn_dialect r \<noteq> DlPostgres \<Longrightarrow> guard_geometry_arguments r f args rendered scope = Inr out \<Longrightarrow> out = rendered"
  by (auto simp: guard_geometry_arguments_def Let_def apply_probe_guards_def result_simps fold_update_same)

lemma fold_update_members:
  "s \<in> set (fold (\<lambda>((i, a), v) out. out[i := v]) gv xs) \<Longrightarrow> s \<in> set xs \<or> s \<in> snd ` set gv"
proof (induction gv arbitrary: xs)
  case (Cons g gv)
  obtain i a v where g: "g = ((i, a), v)" by (metis surj_pair)
  from Cons.prems have "s \<in> set (fold (\<lambda>((i, a), v) out. out[i := v]) gv (xs[i := v]))" by (simp add: g)
  then have "s \<in> set (xs[i := v]) \<or> s \<in> snd ` set gv" by (rule Cons.IH)
  then show ?case using set_update_subset_insert [of xs i v] by (auto simp: g)
qed simp

end
