(* ===== verification/Sql_Spatial_Texts.thy ===== *)
theory Sql_Spatial_Texts
  imports Sql_Texts
begin

text \<open>
  The spatial functions and operators of \<open>plenora-database-sql/src/lib.rs\<close> keep the text relations of \<open>Sql_Texts\<close>:
  the generic call, the guarded arguments of PostgreSQL, the shapes of Oracle and the methods of SQL Server.
\<close>

lemma yields_if: "(c \<Longrightarrow> yields N B m) \<Longrightarrow> (\<not> c \<Longrightarrow> yields N B m') \<Longrightarrow> yields N B (if c then m else m')"
  by simp

lemma geometric_index: "(i, a) \<in> set (geometric_arguments f args) \<Longrightarrow> i < length args"
  by (auto simp: geometric_arguments_def in_set_enumerate_eq)

context text_rules
begin

subsection \<open>The generic call\<close>

lemma guarded_members:
  assumes pg: "rn_dialect r = DlPostgres" and listed: "listed J k ns rendered" "length rendered = length args"
    and guarded: "guard_geometry_arguments r f args rendered scope = Inr guarded" and s: "s \<in> set guarded"
  shows "J k ns s"
proof -
  have member: "t \<in> set rendered \<Longrightarrow> J k ns t" for t
    using listed_members [OF repeats listed(1)] pg by simp
  let ?geometric = "geometric_arguments f args"
  let ?ts = "map (\<lambda>(index, _). rendered ! index) ?geometric"
  obtain guards where "s \<in> set (fold (\<lambda>((i, a), v) out. out[i := v]) (zip ?geometric (apply_probe_guards r ?ts guards)) rendered)"
    using guarded s by (auto simp: guard_geometry_arguments_def Let_def result_simps)
  from fold_update_members [OF this] have "s \<in> set rendered \<or> s \<in> set (apply_probe_guards r ?ts guards)"
    by (auto dest: set_zip_rightD)
  moreover have "\<forall>t \<in> set ?ts. J k ns t"
    using listed(2) by (auto intro!: member nth_mem dest: geometric_index)
  ultimately show ?thesis using member J_apply_guards [OF pg] by blast
qed

lemma J_guarded_arguments:
  assumes "listed J k ns rendered" "length rendered = length args"
    and "guard_geometry_arguments r f args rendered scope = Inr guarded"
  shows "J k ns (join_texts '', '' guarded)"
proof (cases "rn_dialect r = DlPostgres")
  case True
  then show ?thesis
    using guarded_members [OF True assms] repeats by (intro join_members) (auto intro: R_word)
next
  case False
  from guard_unchanged [OF this assms(3)] assms(1) show ?thesis by (simp add: J_join J_word)
qed

lemma J_only_argument:
  assumes "listed J k ns rendered" "rn_dialect r \<noteq> DlPostgres" "length guarded = 1"
    and "guard_geometry_arguments r f args rendered scope = Inr guarded"
  shows "J k ns (hd guarded)"
proof -
  from guard_unchanged [OF assms(2,4)] assms(3) obtain x where "rendered = [x]" "guarded = [x]"
    by (auto simp: length_Suc_conv)
  with assms(1) show ?thesis by simp
qed

lemma good_spatial_argument:
  "(\<And>x. yields names J (re x)) \<Longrightarrow> yields names J (spatial_argument r re f index a)"
  unfolding spatial_argument_def
  by (rule good_then, assumption, cases "rn_dialect r")
     (auto intro!: then_written J_wrap intro: J_word simp del: append.simps)

end

context text_rules
begin

lemma good_generic_function:
  assumes "\<And>x. yields names J (re x)" "rn_spatial_intersects r" "\<not> (f = DWithin \<and> rn_dialect r \<noteq> DlPostgres \<and> rn_dialect r \<noteq> DlOracle)"
    and d: "rn_dialect r \<noteq> DlSqlServer" "rn_dialect r \<noteq> DlOracle"
  shows "yields names J (render_spatial_function r re f args)"
proof -
  let ?parts = "collected (map (\<lambda>(index, a). spatial_argument r re f index a) (enumerate 0 args))"
  have parts: "yields names (\<lambda>k ns rendered. listed J k ns rendered \<and> length rendered = length args) ?parts"
  proof (rule yields_with [OF yields_collected])
    show "yields names J m" if "m \<in> set (map (\<lambda>(index, a). spatial_argument r re f index a) (enumerate 0 args))" for m
      using that assms(1) by (auto intro: good_spatial_argument)
    show "length rendered = length args" if "?parts st = Inr (rendered, st')" for st rendered st'
      using collected_length [OF that] by simp
  qed
  have "yields names J (followed ?parts (\<lambda>rendered.
      followed (judged (guard_geometry_arguments r f args rendered)) (\<lambda>guarded.
      written
        (if rn_dialect r = DlMysql \<and> rn_wkb_axis_option r \<noteq> None \<and> (f = SfX \<or> f = SfY) \<and> length guarded = 1
         then dialect_spatial_name (rn_dialect r) f @ ''(ST_SRID('' @ hd guarded @ '', 0))''
         else dialect_spatial_name (rn_dialect r) f @ ''('' @ join_texts '', '' guarded @ '')''))))"
  proof (rule good_continue [OF parts], rule continues_judged, rule continues_written)
    fix k ns rendered guarded scope
    assume args: "listed J k ns rendered \<and> length rendered = length args"
      and guarded: "guard_geometry_arguments r f args rendered scope = Inr guarded"
    have name: "J k ns (dialect_spatial_name (rn_dialect r) f @ v @ x @ w)" if "word r v" "word r w" "J k ns x" for v w x
      by (rule J_pre [OF J_word J_around], rule table_words, rule that(1), rule that(2), rule that(3))
    have "J k ns (join_texts '', '' guarded)" using J_guarded_arguments args guarded by blast
    then have call: "J k ns (dialect_spatial_name (rn_dialect r) f @ ''('' @ join_texts '', '' guarded @ '')'')"
      by (intro name) simp_all
    have "J k ns (dialect_spatial_name (rn_dialect r) f @ ''(ST_SRID('' @ hd guarded @ '', 0))'')"
      if "rn_dialect r = DlMysql" "length guarded = 1"
      using J_only_argument [of k ns rendered guarded f args scope] args guarded that by (intro name) simp_all
    with call show "J k ns
        (if rn_dialect r = DlMysql \<and> rn_wkb_axis_option r \<noteq> None \<and> (f = SfX \<or> f = SfY) \<and> length guarded = 1
         then dialect_spatial_name (rn_dialect r) f @ ''(ST_SRID('' @ hd guarded @ '', 0))''
         else dialect_spatial_name (rn_dialect r) f @ ''('' @ join_texts '', '' guarded @ '')'')"
      by simp
  qed
  with assms(2,3) d show ?thesis by (simp add: render_spatial_function_def)
qed

subsection \<open>Operators of PostgreSQL\<close>

lemma J_three: "\<not> exact \<Longrightarrow> J k ns x \<Longrightarrow> word r w \<Longrightarrow> J k ns y \<Longrightarrow> J k ns (x @ '' '' @ w @ '' '' @ y)"
  by (auto intro!: J_both intro: R_word simp del: append.simps)

lemma J_operator:
  assumes "rn_dialect r = DlPostgres" "J k ns x" "J k ns y"
    and "judge_geometry_arguments r use [left, right] scope = Inr guards"
  shows "J k ns (apply_probe_guards r [x, y] guards ! 0 @ '' '' @ operator_symbol op @ '' '' @ apply_probe_guards r [x, y] guards ! 1)"
proof -
  from judge_geometry_length [OF assms(4)] have "length (apply_probe_guards r [x, y] guards) = 2"
    by (simp add: apply_probe_guards_def)
  then have "J k ns (apply_probe_guards r [x, y] guards ! i)" if "i < 2" for i
    using that assms nth_mem [of i "apply_probe_guards r [x, y] guards"]
    by (intro J_apply_guards [OF assms(1), where rendered = "[x, y]" and guards = guards]) auto
  then show ?thesis using repeats assms(1) by (intro J_three) auto
qed

lemma good_spatial_operator:
  assumes "\<And>x. yields names J (re x)"
  shows "yields names J (render_spatial_operator r re op left right)"
proof (cases "rn_dialect r = DlPostgres")
  case True
  let ?operand = "\<lambda>e. if is_bind e then texts [written ''ST_GeomFromEWKB('', re e, written '')''] else re e"
  have operand: "yields names J (?operand e)" for e using assms by (auto intro: good_texts)
  have "continues names J k ns (followed (?operand right) (\<lambda>rt.
      followed (judged (judge_geometry_arguments r UseBoundingBox [left, right])) (\<lambda>guards.
      written (apply_probe_guards r [l, rt] guards ! 0 @ '' '' @ operator_symbol op @ '' '' @ apply_probe_guards r [l, rt] guards ! 1))))"
    if "J k ns l" for k ns l
  proof (rule continues_followed)
    show "continues names (\<lambda>k ns' y. \<exists>ms. ns' = ns @ ms \<and> J (k + length ns) ms y) k ns (?operand right)"
      using operand [of right] unfolding yields_def continues_def by fastforce
    fix ms y
    assume "\<exists>ls. ns @ ms = ns @ ls \<and> J (k + length ns) ls y"
    then have "J k (ns @ ms) l" "J k (ns @ ms) y" using that True repeats by (auto intro: J_more J_later)
    then show "continues names J k (ns @ ms)
        (followed (judged (judge_geometry_arguments r UseBoundingBox [left, right])) (\<lambda>guards.
         written (apply_probe_guards r [l, y] guards ! 0 @ '' '' @ operator_symbol op @ '' '' @ apply_probe_guards r [l, y] guards ! 1)))"
      by (intro continues_judged continues_written J_operator True)
  qed
  from good_continue [OF operand this] True show ?thesis
    by (simp only: render_spatial_operator_def Let_def simp_thms if_False)
qed (simp add: render_spatial_operator_def)

end

section \<open>Oracle and SQL Server\<close>

context text_rules
begin

lemma continues_child:
  assumes "\<not> exact" "yields names J m" "\<And>ms y. J k (ns @ ms) y \<Longrightarrow> continues names B k (ns @ ms) (f y)"
  shows "continues names B k ns (followed m f)"
proof (rule continues_followed)
  show "continues names (\<lambda>k ns' y. \<exists>ms. ns' = ns @ ms \<and> J (k + length ns) ms y) k ns m"
    using assms(2) unfolding yields_def continues_def by fastforce
  show "continues names B k (ns @ ms) (f y)" if "\<exists>ls. ns @ ms = ns @ ls \<and> J (k + length ns) ls y" for ms y
    using that assms(1) by (intro assms(3)) (auto intro: J_later)
qed

lemma good_required: "(\<And>x. yields names J (re x)) \<Longrightarrow> yields names J (required_argument re missing args index)"
  by (simp add: required_argument_def)

lemma J_vertex:
  "\<not> exact \<Longrightarrow> J k ns g \<Longrightarrow> J k ns position \<Longrightarrow> J k ns (oracle_point_from_vertex g position)"
  unfolding oracle_point_from_vertex_def
  by (auto intro!: J_both intro: R_word simp del: append.simps)

lemma J_geometry_type: "\<not> exact \<Longrightarrow> J k ns g \<Longrightarrow> J k ns (oracle_geometry_type g)"
  unfolding oracle_geometry_type_def by (auto intro!: J_both intro: R_word simp del: append.simps)

lemma continues_oracle_operand:
  assumes "\<not> exact" "\<And>x. yields names J (re x)" "J k ns left"
    and "\<And>ms y. J k (ns @ ms) left \<Longrightarrow> J k (ns @ ms) y \<Longrightarrow> continues names J k (ns @ ms) (f y)"
  shows "continues names J k ns (followed (oracle_operand re args index left) f)"
proof (rule continues_followed)
  show "continues names J k ns (oracle_operand re args index left)"
    unfolding oracle_operand_def oracle_argument_def
  proof (rule continues_child [OF assms(1) good_required])
    fix ms y assume y: "J k (ns @ ms) y"
    have "J k (ns @ ms) left" by (rule J_more, rule assms(1), rule assms(3))
    with y assms(1) show "continues names J k (ns @ ms)
        (written (if is_bind (args ! index) then ''MDSYS.SDO_UTIL.FROM_WKBGEOMETRY('' @ y @ '', '' @ left @ ''.SDO_SRID)'' else y))"
      by (intro continues_written) (auto intro!: J_both intro: R_word simp del: append.simps)
  qed (rule assms(2))
  show "continues names J k (ns @ ms) (f y)" if "J k (ns @ ms) y" for ms y
    using that by (intro assms(4) J_more [OF assms(1,3)])
qed

lemma oracle_shape_words:
  "oracle_spatial_shape f = Some shape \<Longrightarrow>
     (case shape of
        OsCoordinate axis \<Rightarrow> word r axis
      | OsRelate m \<Rightarrow> word r m
      | OsUnaryGeometry name \<Rightarrow> word r name
      | OsUnaryGeometryNoTolerance name \<Rightarrow> word r name
      | OsBinaryGeometry name \<Rightarrow> word r name
      | OsUnaryMeasure name u \<Rightarrow> word r name \<and> word r u
      | OsBinaryMeasure name u \<Rightarrow> word r name \<and> word r u
      | _ \<Rightarrow> True)"
  by (cases f) (auto simp: oracle_spatial_shape_def)

lemma continues_oracle_shape:
  assumes "\<not> exact" "\<And>x. yields names J (re x)" "J k ns left"
  shows "continues names J k ns (oracle_shape r re args left (oracle_spatial_shape f))"
proof (cases "oracle_spatial_shape f")
  case (Some shape)
  note rules = J_both [OF assms(1)] J_vertex [OF assms(1)] J_geometry_type [OF assms(1)]
  note two = continues_oracle_operand [OF assms] continues_child [OF assms(1) good_required [OF assms(2)]]
  have left: "J k (ns @ ms) left" for ms by (rule J_more, rule assms(1), rule assms(3))
  have right: "J k (ns @ ms) y \<Longrightarrow> J k (ns @ ms @ ls) y" for ms ls y using J_more [OF assms(1), of k "ns @ ms" y ls] by simp
  show ?thesis
    using oracle_shape_words [OF Some] assms(3)
    by (cases shape)
       (auto simp: Some oracle_shape_def oracle_argument_def simp del: append.simps split: oracle_point_position.split
          intro!: two continues_written rules intro: left right R_word [OF assms(1)])
qed (simp add: oracle_shape_def)

end

context text_rules
begin

lemma good_oracle:
  assumes "rn_dialect r = DlOracle" "\<And>x. yields names J (re x)"
  shows "yields names J (render_oracle_spatial_function r re f args)"
  unfolding render_oracle_spatial_function_def oracle_argument_def
  using assms repeats
  by (intro good_after_judged good_continue [OF good_required] continues_oracle_shape) auto

subsection \<open>SQL Server\<close>

lemma good_sql_server_operand:
  assumes "\<not> exact" "yields names J (re e)" "\<And>n. e = Parameter n \<or> (\<exists>t. e = TypedParameter n t) \<Longrightarrow> n \<in> names"
  shows "yields names J (sql_server_operand r re e)"
proof -
  have operand: "yields names J (followed (bind_parameter r n) (\<lambda>v.
      written ((case semantics of Geometry \<Rightarrow> ''geometry::STGeomFromWKB('' | Geography \<Rightarrow> ''geography::STGeomFromWKB('')
        @ v @ '', '' @ show_srid srid @ '')'')))"
    if "n \<in> names" for n srid semantics
    using assms(1) that
    by (intro good_then [OF good_bind] then_written)
      (auto intro!: J_both R_srid intro: R_word simp del: append.simps split: spatial_semantics.split)
  show ?thesis
    using assms(2,3) operand by (cases e) (auto simp: sql_server_operand_def split: option.split)
qed

lemma continues_sql_server_binary:
  assumes "\<not> exact" "yields names J m" "word r name" "J k ns receiver"
  shows "continues names J k ns (followed m (\<lambda>right. written (receiver @ ''.'' @ name @ ''('' @ right @ '')'')))"
    "continues names J k ns (followed m (\<lambda>right. written (''('' @ receiver @ ''.'' @ name @ ''('' @ right @ '')'' @ '' = 1)'')))"
proof -
  have receiver: "J k (ns @ ms) receiver" for ms by (rule J_more, rule assms(1), rule assms(4))
  note rules = continues_child [OF assms(1,2)] continues_written J_both [OF assms(1)]
  show "continues names J k ns (followed m (\<lambda>right. written (receiver @ ''.'' @ name @ ''('' @ right @ '')'')))"
    using assms(3) by (auto intro!: rules receiver intro: R_word [OF assms(1)] simp del: append.simps)
  show "continues names J k ns (followed m (\<lambda>right. written (''('' @ receiver @ ''.'' @ name @ ''('' @ right @ '')'' @ '' = 1)'')))"
    using assms(3) by (auto intro!: rules receiver intro: R_word [OF assms(1)] simp del: append.simps)
qed

lemma good_sql_server_function:
  assumes "rn_dialect r = DlSqlServer" "\<And>x. yields names J (re x)"
    and "\<And>a n. a \<in> set args \<Longrightarrow> a = Parameter n \<or> (\<exists>t. a = TypedParameter n t) \<Longrightarrow> n \<in> names"
  shows "yields names J (sql_server_function_value r re f args context_flag)"
proof -
  from assms(1) repeats have many: "\<not> exact" by simp
  have operand: "yields names J (sql_server_operand r re a)" if "a \<in> set args" for a
    using assms(2,3) that many by (intro good_sql_server_operand) auto
  have second: "yields names J (sql_server_operand r re (args ! 1))" if "\<not> length args < 2"
    using that by (intro operand nth_mem) simp
  note rules = continues_sql_server_binary [OF many second] continues_written J_both [OF many]
    continues_child [OF many good_required [OF assms(2)]]
  have "continues names J k ns
      (let semantics = (case args of Column c # _ \<Rightarrow> rn_spatial_columns r (cr_relation c, cr_field c) | _ \<Rightarrow> None);
           as_predicate = (\<lambda>call. if context_flag then ''('' @ call @ '' = 1)'' else call);
           binary = (\<lambda>name wrap.
             if length args < 2 then invalid ''funzione spatial SQL Server senza secondo operando''
             else followed (sql_server_operand r re (args ! 1)) (\<lambda>right.
               written (wrap (receiver @ ''.'' @ name @ ''('' @ right @ '')''))))
       in case sql_server_spatial_method f semantics of
            None \<Rightarrow> refused r ''funzione spatial non disponibile nel sottoinsieme SQL Server verificato''
          | Some (name, shape) \<Rightarrow>
              (case shape of
                 SssProperty \<Rightarrow> written (receiver @ ''.'' @ name)
               | SssUnary \<Rightarrow> written (receiver @ ''.'' @ name @ ''()'')
               | SssUnaryPredicate \<Rightarrow> written (as_predicate (receiver @ ''.'' @ name @ ''()''))
               | SssBinaryValue \<Rightarrow> binary name (\<lambda>call. call)
               | SssBinaryPredicate \<Rightarrow> binary name as_predicate
               | SssNumeric \<Rightarrow>
                   followed (required_argument re ''funzione spatial SQL Server senza argomento numerico'' args 1) (\<lambda>n.
                   written (receiver @ ''.'' @ name @ ''('' @ n @ '')''))))"
    if receiver: "J k ns receiver" for k ns receiver
  proof -
    have later: "J k (ns @ ms) receiver" for ms by (rule J_more, rule many, rule receiver)
    show ?thesis
      using receiver unfolding Let_def
      by (auto split: option.split sql_server_spatial_shape.split simp del: append.simps One_nat_def
          dest!: table_words(3) [where r = r] intro!: rules intro: R_word [OF many] later simp: append_assoc)
  qed
  note body = this
  have receiver: "yields names J (if args = [] then invalid message else sql_server_operand r re (hd args))" for message
    using operand by simp
  show ?thesis
    unfolding sql_server_function_value_def
    by (rule yields_if, rule yields_failed, rule good_after_judged, rule good_continue, rule receiver, rule body)
qed

end

end
