(* ===== verification/Sql_Query_Texts.thy ===== *)
theory Sql_Query_Texts
  imports Sql_Spatial_Texts
begin

text \<open>
  Whole expressions and operations of \<open>plenora-database-sql/src/lib.rs\<close> keep the text relations of \<open>Sql_Texts\<close>: each
  clause does when what it renders below does, so the two recursive entry points do, on every node a query reaches.
\<close>

text \<open>A name bound by an expression, and the node an exact relation cannot count on MySQL.\<close>

definition binds_name :: "query_expression \<Rightarrow> string \<Rightarrow> bool" where
  "binds_name e n \<longleftrightarrow> e = Parameter n \<or> (\<exists>t. e = TypedParameter n t)"

definition is_nulls_order :: "query_expression \<Rightarrow> bool" where
  "is_nulls_order e = (case e of NullsOrder _ _ \<Rightarrow> True | _ \<Rightarrow> False)"

context text_rules
begin

definition fits :: "query_expression \<Rightarrow> bool" where
  "fits e \<longleftrightarrow> (\<forall>n. binds_name e n \<longrightarrow> n \<in> names) \<and> (exact \<and> rn_dialect r = DlMysql \<longrightarrow> \<not> is_nulls_order e)"

lemma fits_name: "fits e \<Longrightarrow> e = Parameter n \<or> (\<exists>t. e = TypedParameter n t) \<Longrightarrow> n \<in> names"
  unfolding fits_def binds_name_def by blast

lemma good_spatial_function:
  assumes "\<And>x. yields names J (re x)" "\<And>a. a \<in> set args \<Longrightarrow> fits a"
  shows "yields names J (render_spatial_function r re f args)"
proof (cases "rn_spatial_intersects r \<and> \<not> (f = DWithin \<and> rn_dialect r \<noteq> DlPostgres \<and> rn_dialect r \<noteq> DlOracle)")
  case True
  consider "rn_dialect r = DlSqlServer" | "rn_dialect r = DlOracle"
    | "rn_dialect r \<noteq> DlSqlServer" "rn_dialect r \<noteq> DlOracle" by blast
  then show ?thesis
  proof cases
    case 1
    have "yields names J (sql_server_function_value r re f args True)"
      by (rule good_sql_server_function [OF 1 assms(1)], rule fits_name, rule assms(2))
    with 1 True show ?thesis by (auto simp: render_spatial_function_def)
  next
    case 2
    from good_oracle [OF 2 assms(1)] 2 True show ?thesis by (simp add: render_spatial_function_def)
  next
    case 3
    from True show ?thesis by (intro good_generic_function assms(1) 3) auto
  qed
qed (auto simp: render_spatial_function_def)

lemma good_ordering:
  assumes re: "\<And>x. yields names J (re x)" and fits: "fits (qo_expression o1)"
  shows "yields names J (render_query_ordering r re o1)"
proof (cases "\<exists>e position. qo_expression o1 = NullsOrder e position")
  case True
  then obtain e position where o1: "qo_expression o1 = NullsOrder e position" by blast
  show ?thesis
  proof (cases "rn_dialect r = DlMysql \<or> rn_dialect r = DlSqlServer")
    case True
    with fits exact_dialect have "\<not> exact" by (auto simp: fits_def o1 is_nulls_order_def)
    then have key: "J k ns ((a @ v @ b) @ '' '' @ c @ '', '' @ v @ '' '' @ w)"
      if "J k ns v" "word r a" "word r b" "word r c" "word r w" for k ns v a b c w
      using that by (intro J_both) (simp_all add: R_word)
    show ?thesis
      unfolding render_query_ordering_def o1 Let_def using True
      by (auto intro!: good_then [OF re] then_written key [simplified append_assoc] simp del: append.simps
          split: sort_direction.split query_nulls_order.split)
  next
    case False
    then show ?thesis
      unfolding render_query_ordering_def o1
      by (auto simp: Let_def intro!: good_texts re split: sort_direction.split query_nulls_order.split)
  qed
next
  case False
  then have "render_query_ordering r re o1 =
      texts [re (qo_expression o1), written '' '', written (case qo_direction o1 of Asc \<Rightarrow> ''ASC'' | Desc \<Rightarrow> ''DESC'')]"
    by (cases "qo_expression o1") (simp_all add: render_query_ordering_def)
  then show ?thesis
    by (auto intro!: good_texts re split: sort_direction.split)
qed

lemma good_function: "(\<And>x. yields names J (re x)) \<Longrightarrow> word r name \<Longrightarrow> yields names J (render_function re name args)"
  unfolding render_function_def by (auto intro!: good_texts good_commas good_map)

lemma good_group:
  assumes "\<And>x. yields names J (re x)" "word r op"
  shows "yields names J (render_query_group re op args)"
proof -
  have sep: "J k [] ('' '' @ op @ '' '')" for k using assms(2) by (intro J_wrap J_word) simp_all
  show ?thesis
    unfolding render_query_group_def by (intro yields_if yields_failed good_texts) (auto intro!: good_joined good_map assms(1) sep simp del: append.simps)
qed

lemma J_bound: "J k [] (frame_bound_text b)"
  by (cases b) (auto intro!: J_then J_u64 intro: J_word)

lemma good_window_call:
  assumes "\<And>x. yields names J (re x)" "yields names J call" "\<And>o1. o1 \<in> set order_by \<Longrightarrow> fits (qo_expression o1)"
  shows "yields names J (render_window_call r re call partition_by order_by frame)"
proof -
  have frame_text: "J k [] (render_window_frame f)" for f k
    unfolding render_window_frame_def
    by (auto intro!: J_then J_bound intro: J_word split: option.split simp del: append.simps)
  show ?thesis
    unfolding render_window_call_def using assms
    by (auto intro!: good_texts good_joined good_commas good_map good_ordering good_closed frame_text J_word split: option.split)
qed

end

section \<open>Expressions\<close>

context text_rules
begin

lemma good_predicate:
  assumes "\<And>x. yields names J (re x)"
  shows "yields names J (render_predicate_expression r re e)"
  unfolding render_predicate_expression_def Let_def
  using good_group [OF assms]
  by (cases e) (auto intro!: good_texts good_commas good_map assms yields_if)

lemma good_step:
  assumes re: "\<And>x. yields names J (re x)" and rq: "\<And>q b. yields names J (rq q b)"
    and e: "fits e" "\<And>x. NExpression x \<in> set (expression_parts e) \<Longrightarrow> fits x"
  shows "yields names J (expression_step r re rq e)"
proof (cases e)
  case (Wildcard relation)
  then show ?thesis by (cases relation) (auto simp: expression_step_def intro!: good_texts)
next
  case (Column c)
  show ?thesis
    unfolding expression_step_def Let_def Column query_expression.case
  proof (rule good_after_attempt)
    fix field assume "quoted r (cr_field c) = Inr field"
    then have "yields names J (written field)" by (rule good_closed [OF J_quoted])
    then show "yields names J (case cr_relation c of None \<Rightarrow> written field
        | Some relation \<Rightarrow> texts [attempt (quoted r relation), written ''.'', written field])"
      by (auto intro!: good_texts split: option.split)
  qed
next
  case (Parameter n)
  then show ?thesis using e(1) by (auto simp: expression_step_def intro!: good_parameter fits_name)
next
  case (TypedParameter n t)
  then show ?thesis using e(1) by (auto simp: expression_step_def intro!: good_parameter fits_name)
next
  case (Window f args partition_by order_by frame)
  then show ?thesis
    using e(2) by (auto simp: expression_step_def intro!: good_window_call good_function re)
next
  case (SpatialWindow f args partition_by order_by frame)
  then show ?thesis
    using e(2) by (auto simp: expression_step_def intro!: good_window_call good_spatial_function re)
next
  case (Spatial f args)
  then show ?thesis using e(2) by (auto simp: expression_step_def intro!: good_spatial_function re)
qed (auto simp: expression_step_def intro!: good_predicate good_texts good_function good_arithmetic good_cast good_case
      good_spatial_output good_spatial_value good_spatial_operator re rq)

end

section \<open>Operations\<close>

context text_rules
begin

lemma J_object:
  assumes "render_object r obj = Inr v"
  shows "J k [] v"
proof -
  obtain parts where parts: "try_collect (quote r) (list_of_option (on_catalog obj) @ list_of_option (on_schema obj) @ [on_object obj])
      = Inr parts" and v: "v = join_texts ''.'' parts"
    using assms by (auto simp: render_object_def result_simps)
  have "J k [] s" if "s \<in> set parts" for s
    using try_collect_Inr [OF parts] that by (auto simp: in_set_conv_nth simp del: nth_append intro: J_name)
  then show ?thesis unfolding v by (rule J_parts) (simp_all add: J_word)
qed

lemma J_aliased:
  assumes "render_object r obj = Inr x" "quoted r n = Inr q"
  shows "J k [] (x @ '' '' @ q)" "J k [] (x @ '' AS '' @ q)"
  by (rule J_then [OF J_object [OF assms(1)] J_then [OF J_word J_quoted [OF assms(2)]]], simp)+

lemma J_source: "render_query_source r s = Inr v \<Longrightarrow> J k [] v"
  unfolding render_query_source_def
  by (auto simp: result_simps simp del: append.simps dest: J_object J_aliased split: option.splits if_splits)

lemma hint_words: "sql_server_lock_hints r s locking = Inr (Some hs) \<Longrightarrow> h \<in> set hs \<Longrightarrow> word r h"
  by (auto simp: sql_server_lock_hints_def result_simps
      split: if_splits option.splits query_lock_strength.splits query_lock_wait.splits)

lemma J_hints:
  assumes "sql_server_lock_hints r s locking = Inr (Some hs)"
  shows "J k [] ('' WITH ('' @ join_texts '', '' hs @ '')'')"
  by (intro J_wrap J_parts J_word) (simp_all add: hint_words [OF assms])

lemma good_hints:
  "yields names J (attempt (and_then (sql_server_lock_hints r s locking) (\<lambda>hints.
     Inr (case hints of None \<Rightarrow> [] | Some hs \<Rightarrow> '' WITH ('' @ join_texts '', '' hs @ '')''))))"
  by (rule yields_attempt) (auto simp: result_simps intro: J_nil J_hints simp del: append.simps split: option.splits)

lemma good_source [simp]: "yields names J (attempt (render_query_source r s))"
  by (rule yields_attempt) (rule J_source)

lemma good_relation: "(\<And>q b. yields names J (rq q b)) \<Longrightarrow> yields names J (render_query_relation r rq source derived lateral locking)"
  unfolding render_query_relation_def
  by (auto intro!: yields_if good_texts good_hints split: option.split)

lemma good_with: "(\<And>q b. yields names J (rq q b)) \<Longrightarrow> yields names J (with_clause r rq ctes)"
  unfolding with_clause_def by (auto intro!: yields_if good_texts good_commas good_map)

lemma good_distinct: "(\<And>x. yields names J (re x)) \<Longrightarrow> yields names J (distinct_clause r re q)"
  unfolding distinct_clause_def by (auto intro!: yields_if good_texts good_commas good_map)

lemma J_top: "J k [] (top_clause r q)"
  unfolding top_clause_def by (auto intro!: J_nil J_wrap J_u64 intro: J_word simp del: append.simps split: option.split)

lemma J_encoding: "J k ns v \<Longrightarrow> J k ns (spatial_encoding r encode e v)"
  unfolding spatial_encoding_def
  by (cases "rn_dialect r"; cases e) (auto intro!: J_wrap J_then intro: J_word simp del: append.simps)

lemma good_then_texts:
  assumes "yields names J m" "yields names J m2" "\<And>k ns x. J k ns x \<Longrightarrow> J k ns (f x)"
  shows "yields names J (followed m (\<lambda>x. texts [written (f x), m2]))"
proof -
  have "yields names J (texts [followed m (\<lambda>x. written (f x)), m2])"
    using assms by (intro good_texts) (auto intro: yields_map)
  also have "texts [followed m (\<lambda>x. written (f x)), m2] = followed m (\<lambda>x. texts [written (f x), m2])"
    by (rule ext) (auto simp: texts_def followed_def written_def and_then_def split: sum.split)
  finally show ?thesis .
qed

lemma good_projection:
  assumes re: "\<And>x. yields names J (re x)" and args: "\<And>f args a. qp_expression item = Spatial f args \<Longrightarrow> a \<in> set args \<Longrightarrow> fits a"
  shows "yields names J (render_projection r re encode item)"
  unfolding render_projection_def
proof (rule good_then_texts)
  show "yields names J (case qp_expression item of
      Spatial f args \<Rightarrow> if rn_dialect r = DlSqlServer \<and> returns_boolean f (length args)
        then sql_server_function_value r re f args False else re (qp_expression item)
    | _ \<Rightarrow> re (qp_expression item))"
    using re args by (cases "qp_expression item") (auto intro!: good_sql_server_function fits_name)
  show "yields names J (case qp_alias item of None \<Rightarrow> written [] | Some alias \<Rightarrow> texts [written '' AS '', attempt (quoted r alias)])"
    by (auto intro!: good_texts split: option.split)
qed (rule J_encoding)

lemma good_from: "(\<And>q b. yields names J (rq q b)) \<Longrightarrow> yields names J (from_clause r rq q)"
  unfolding from_clause_def by (cases "rn_dialect r") (auto intro!: good_texts good_relation)

lemma good_join:
  "(\<And>x. yields names J (re x)) \<Longrightarrow> (\<And>q b. yields names J (rq q b)) \<Longrightarrow> yields names J (render_join r re rq locking j)"
  unfolding render_join_def Let_def by (auto intro!: yields_if good_texts good_relation split: option.split)

lemma good_clause: "(\<And>x. yields names J (f x)) \<Longrightarrow> word r keyword \<Longrightarrow> yields names J (clause_of keyword f v)"
  unfolding clause_of_def by (auto intro!: good_texts split: option.split)

lemma good_list_clause: "(\<And>x. x \<in> set vs \<Longrightarrow> yields names J (f x)) \<Longrightarrow> word r keyword \<Longrightarrow> yields names J (list_clause keyword f vs)"
  unfolding list_clause_def by (auto intro!: good_texts good_commas good_map)

lemma good_set_operation: "(\<And>q b. yields names J (rq q b)) \<Longrightarrow> yields names J (render_set_operation rq encode s)"
  unfolding render_set_operation_def by (auto intro!: good_texts)

lemma J_limit: "J k [] (limit_clause r q)"
  unfolding limit_clause_def
  by (auto intro!: J_nil J_wrap J_then J_u64 intro: J_word simp del: append.simps split: option.split)

lemma J_offset: "J k [] (offset_clause r q)"
  unfolding offset_clause_def
  by (auto intro!: J_nil J_wrap J_then J_u64 intro: J_word simp del: append.simps split: option.split)

lemma lock_wait_good: "yields names J (written (lock_wait_text w))"
  by (cases w) simp_all

lemma good_lock: "yields names J (lock_clause r q)"
  unfolding lock_clause_def
  by (auto intro!: good_after_attempt good_texts good_list_clause lock_wait_good split: option.split)

end

section \<open>The recursion\<close>

context text_rules
begin

lemma good_clauses:
  assumes re: "\<And>x. yields names J (re x)" and rq: "\<And>k b. yields names J (rq k b)"
    and orders: "\<And>o1. o1 \<in> set (op_order_by q) \<Longrightarrow> fits (qo_expression o1)"
    and args: "\<And>item f args a. item \<in> set (op_projection q) \<Longrightarrow> qp_expression item = Spatial f args \<Longrightarrow> a \<in> set args \<Longrightarrow> fits a"
  shows "yields names J (operation_clauses r re rq q encode)"
  unfolding operation_clauses_def
  by (intro yields_if yields_failed good_texts)
    (auto intro!: good_with good_distinct good_closed good_commas good_map good_projection good_from good_texts good_join good_clause
       good_list_clause good_set_operation good_ordering J_top J_limit J_offset good_lock re rq orders args)

definition good_node :: "query_walk_node \<Rightarrow> bool" where
  "good_node n \<longleftrightarrow>
     (case n of
        NExpression e \<Rightarrow> yields names J (render_query_expression r e)
      | NOperation q \<Rightarrow> (\<forall>b. yields names J (render_query_inner r q b))
      | NSource _ \<Rightarrow> True)"

lemma reaches_below: "below k n \<Longrightarrow> reaches everything n k"
  unfolding below_def by (auto intro: reaches.below simp: everything_def)

lemma good_nodes:
  "(\<And>e. reaches everything n (NExpression e) \<Longrightarrow> fits e) \<Longrightarrow> good_node n"
proof (induction n rule: measure_induct_rule [of node_size])
  case (less n)
  have deeper: "good_node k" if "below k n" for k
    using that by (intro less.IH below_size less.prems) (auto intro: reaches_trans reaches_below)
  define re where "re x = (if below (NExpression x) n then render_query_expression r x else refused r [])" for x
  define rq where "rq k b = (if below (NOperation k) n then render_query_inner r k b else refused r [])" for k b
  have re: "yields names J (re x)" for x using deeper [of "NExpression x"] by (auto simp: re_def good_node_def)
  have rq: "yields names J (rq k b)" for k b using deeper [of "NOperation k"] by (auto simp: rq_def good_node_def)
  have child: "fits x" if "NExpression x \<in> set (node_parts n)" for x
    by (rule less.prems [OF reaches_below [OF below_child [OF that]]])
  show ?case
  proof (cases n)
    case (NExpression e)
    have "render_query_expression r e = expression_step r re rq e"
      unfolding render_query_expression.simps [of r e]
      by (rule expression_step_cong) (simp_all add: re_def rq_def NExpression)
    moreover have "yields names J (expression_step r re rq e)"
    proof (rule good_step [OF re rq])
      show "fits e" by (rule less.prems) (simp add: NExpression reaches.here)
      show "fits x" if "NExpression x \<in> set (expression_parts e)" for x
        using that by (intro child) (simp add: NExpression)
    qed
    ultimately show ?thesis by (simp add: good_node_def NExpression)
  next
    case (NOperation q)
    have "render_query_inner r q b = scoped q (operation_clauses r re rq q b)" for b
      unfolding render_query_inner.simps [of r q b]
      by (intro scoped_cong operation_clauses_cong) (simp_all add: re_def rq_def NOperation)
    moreover have "yields names J (operation_clauses r re rq q b)" for b
    proof (rule good_clauses)
      show "fits (qo_expression o1)" if "o1 \<in> set (op_order_by q)" for o1
        using that by (intro child) (simp add: NOperation operation_child_intros)
      show "fits a" if "item \<in> set (op_projection q)" "qp_expression item = Spatial f args" "a \<in> set args" for item f args a
      proof (rule less.prems [OF reaches_below [OF below_grandchild [where m = "NExpression (qp_expression item)"]]])
        show "NExpression a \<in> set (node_parts (NExpression (qp_expression item)))" using that by simp
        show "NExpression (qp_expression item) \<in> set (node_parts n)"
          unfolding NOperation node_parts.simps using that(1) by (rule operation_child_intros)
      qed
    qed (rule re rq)+
    ultimately show ?thesis by (simp add: good_node_def NOperation yields_scoped)
  qed (simp add: good_node_def)
qed

end

end
