(* ===== verification/Sql_Render_Proofs.thy ===== *)
theory Sql_Render_Proofs
  imports Sql_Query_Texts
begin

text \<open>
  What the rendered statements of \<open>plenora-database-sql/src/lib.rs\<close> are made of, and where their placeholders stand:
  the two relations of text and binds the renderer keeps, and the properties of its entry points.
\<close>

section \<open>Composed texts\<close>

text \<open>
  A text of \<open>n\<close> binds is put together from fixed words, quoted identifiers, decimal numbers, the placeholders of the
  binds \<open>1\<close> to \<open>n\<close> and, for PostgreSQL, text literals: no other text of the query is ever written.
\<close>

inductive composed :: "renderer \<Rightarrow> nat \<Rightarrow> string \<Rightarrow> bool" for r n where
  empty: "composed r n []"
| word: "word r s \<Longrightarrow> composed r n s"
| name: "quote_identifier (to_identifier_dialect (rn_dialect r)) ident = Inr q \<Longrightarrow> composed r n q"
| number: "composed r n (show_nat i)"
| mark: "0 < i \<Longrightarrow> i \<le> n \<Longrightarrow> composed r n (placeholder_text (rn_dialect r) i)"
| literal: "rn_dialect r = DlPostgres \<Longrightarrow> composed r n (postgres_text_literal t)"
| both: "composed r n s \<Longrightarrow> composed r n t \<Longrightarrow> composed r n (s @ t)"

lemma composed_name: "quote r ident = Inr q \<Longrightarrow> composed r n q"
  unfolding quote_def by (rule composed.name)

lemma composed_mono: "composed r n s \<Longrightarrow> n \<le> m \<Longrightarrow> composed r m s"
  by (induction rule: composed.induct) (auto intro: composed.intros order_trans)

lemma composed_append: "composed r n s \<Longrightarrow> composed r (n + m) t \<Longrightarrow> composed r (n + m) (s @ t)"
  by (blast intro: composed.both composed_mono le_add1)

interpretation composing: text_rules r names False "\<lambda>k ns. composed r (k + length ns)" for r names
  by unfold_locales (auto simp: add.assoc [symmetric] intro: composed.intros composed_name composed_mono composed_append)

section \<open>Placeholders in order\<close>

text \<open>The dialects whose placeholder does not carry its number.\<close>

definition positional :: "renderer \<Rightarrow> bool" where
  "positional r \<longleftrightarrow> rn_dialect r \<in> {DlMysql, DlDb2, DlSqlite, DlDuckdb}"

text \<open>The text holds the placeholders \<open>i + 1\<close> to \<open>j\<close>, each once and in this order, between texts without any.\<close>

inductive laid_out :: "renderer \<Rightarrow> nat \<Rightarrow> nat \<Rightarrow> string \<Rightarrow> bool" for r where
  none: "composed r 0 s \<Longrightarrow> laid_out r i i s"
| mark: "laid_out r i (Suc i) (placeholder_text (rn_dialect r) (Suc i))"
| both: "laid_out r i j s \<Longrightarrow> laid_out r j k t \<Longrightarrow> laid_out r i k (s @ t)"

definition lays_out :: "renderer \<Rightarrow> nat \<Rightarrow> string list \<Rightarrow> string \<Rightarrow> bool" where
  "lays_out r k ns s \<longleftrightarrow> (positional r \<longrightarrow> laid_out r k (k + length ns) s)"

interpretation laying: text_rules r names "positional r" "lays_out r" for r names
proof unfold_locales
  show "lays_out r k (ns @ ms) (s @ t)" if "lays_out r k ns s" "lays_out r (k + length ns) ms t" for k ns s ms t
    using that by (auto simp: lays_out_def add.assoc intro: laid_out.both)
  show "lays_out r k [n] (placeholder_text (rn_dialect r) (Suc k))" for k n
    using laid_out.mark [of r k] by (simp add: lays_out_def)
qed (auto simp: lays_out_def positional_def intro: composed.intros composed_name laid_out.none)

section \<open>The entry points\<close>

text \<open>The binds a query may make are the parameters of its expressions.\<close>

definition query_binds :: "query_operation \<Rightarrow> string \<Rightarrow> bool" where
  "query_binds q n \<longleftrightarrow> (\<exists>e. reaches everything (NOperation q) (NExpression e) \<and> binds_name e n)"

text \<open>Stops at an explicit place of the nulls.\<close>

fun at_nulls_order :: "query_walk_node \<Rightarrow> query_walk_control" where
  "at_nulls_order (NExpression (NullsOrder _ _)) = WBreak"
| "at_nulls_order _ = WContinue"

definition without_nulls_order :: "query_operation \<Rightarrow> bool" where
  "without_nulls_order q \<longleftrightarrow> fst (visit_tree (stateless at_nulls_order) (NOperation q) ())"

lemma reaches_stop:
  "reaches everything n m \<Longrightarrow> (\<And>k. f k \<noteq> WSkip) \<Longrightarrow> (\<forall>k. reaches f n k \<longrightarrow> f k \<noteq> WBreak) \<Longrightarrow> reaches f n m"
proof (induction rule: reaches.induct)
  case (below n k m)
  then have "f n = WContinue" using reaches.here [of f n] by (cases "f n") auto
  with below show ?case by (blast intro: reaches.below)
qed (rule reaches.here)

lemma no_nulls_order:
  assumes "without_nulls_order q" "reaches everything (NOperation q) (NExpression e)"
  shows "\<not> is_nulls_order e"
proof -
  have stop: "\<forall>k. reaches at_nulls_order (NOperation q) k \<longrightarrow> at_nulls_order k \<noteq> WBreak"
    using assms(1) unfolding without_nulls_order_def visit_tree_stateless .
  have "at_nulls_order k \<noteq> WSkip" for k by (cases k rule: at_nulls_order.cases) auto
  from stop reaches_stop [OF assms(2) this stop] show ?thesis
    by (auto simp: is_nulls_order_def split: query_expression.splits)
qed

lemma render_query_text:
  assumes "render_query_with_spatial_encoding operands r q encode = Inr out"
  shows "\<exists>st. render_query_inner r q encode render_state_default = Inr (rsq_sql out, st) \<and> rsq_binds out = rst_binds st
    \<and> validate_bind_count r (rsq_binds out) = Inr ()"
  using assms by (auto simp: render_query_with_spatial_encoding_def result_simps)

lemma rendered_yields:
  assumes "yields N J (render_query_inner r q encode)" "render_query_with_spatial_encoding operands r q encode = Inr out"
  obtains ns where "set ns \<subseteq> N" "rsq_binds out = enumerate 1 ns" "J 0 ns (rsq_sql out)"
proof -
  obtain st where st: "render_query_inner r q encode render_state_default = Inr (rsq_sql out, st)" "rsq_binds out = rst_binds st"
    using render_query_text [OF assms(2)] by blast
  show ?thesis
    by (rule yieldsD [OF assms(1) st(1)]) (simp add: that st(2) extended_def render_state_default_def)
qed

lemma composing_query: "yields {n. query_binds q n} (\<lambda>k ns. composed r (k + length ns)) (render_query_inner r q encode)"
proof -
  have "composing.good_node r {n. query_binds q n} (NOperation q)"
    by (rule composing.good_nodes) (auto simp: composing.fits_def query_binds_def)
  then show ?thesis by (simp add: composing.good_node_def)
qed

lemma laying_query:
  assumes "rn_dialect r = DlMysql \<Longrightarrow> without_nulls_order q"
  shows "yields UNIV (lays_out r) (render_query_inner r q encode)"
proof -
  have "laying.good_node r UNIV (NOperation q)"
    by (rule laying.good_nodes) (use assms no_nulls_order in \<open>auto simp: laying.fits_def\<close>)
  then show ?thesis by (simp add: laying.good_node_def)
qed

text \<open>C4: a statement the renderer returns is put together from fixed words, quoted identifiers, numbers and the
  placeholders of its binds alone; the binds are numbered from one without a gap, each of them is a parameter of
  the query, and SQL Server never gets more than its bound of them.\<close>

theorem rendered_statement_composed:
  assumes "render_query_with_spatial_encoding operands r q encode = Inr out"
  shows "composed r (length (rsq_binds out)) (rsq_sql out)
    \<and> map fst (rsq_binds out) = [1..<Suc (length (rsq_binds out))]
    \<and> list_all (query_binds q) (map snd (rsq_binds out))
    \<and> (rn_dialect r \<noteq> DlSqlServer \<or> length (rsq_binds out) \<le> SQL_SERVER_MAX_BIND_PARAMETERS)"
proof -
  obtain ns where ns: "set ns \<subseteq> {n. query_binds q n}" "rsq_binds out = enumerate 1 ns" "composed r (0 + length ns) (rsq_sql out)"
    by (rule rendered_yields [OF composing_query assms])
  have "rn_dialect r \<noteq> DlSqlServer \<or> length (rsq_binds out) \<le> SQL_SERVER_MAX_BIND_PARAMETERS"
    using render_query_text [OF assms] by (auto simp: validate_bind_count_def split: if_splits)
  with ns show ?thesis by (auto simp: list_all_iff simp del: upt_Suc)
qed

text \<open>C14: for a dialect whose placeholder carries no number, the statement holds as many placeholders as binds, each
  once and in the order of the binds, provided that no place of the nulls is asked for on MySQL.\<close>

theorem placeholders_in_bind_order:
  assumes "render_query_with_spatial_encoding operands r q encode = Inr out" "positional r"
    and "rn_dialect r = DlMysql \<longrightarrow> without_nulls_order q"
  shows "laid_out r 0 (length (rsq_binds out)) (rsq_sql out)"
proof -
  obtain ns where "rsq_binds out = enumerate 1 ns" "lays_out r 0 ns (rsq_sql out)"
    by (rule rendered_yields [OF laying_query assms(1)]) (use assms(3) in auto)
  with assms(2) show ?thesis by (simp add: lays_out_def)
qed

section \<open>The fingerprint\<close>

lemma split_at_mark: "c \<notin> set xs \<Longrightarrow> c \<notin> set ys \<Longrightarrow> xs @ c # a = ys @ c # b \<longleftrightarrow> xs = ys \<and> a = b"
proof (induction xs arbitrary: ys)
  case Nil
  then show ?case by (cases ys) auto
next
  case (Cons x xs)
  then show ?case by (cases ys) auto
qed

lemma digits_mark: "CHR '':'' \<notin> set (show_nat n)"
proof (induction n rule: show_nat.induct)
  case (1 n)
  have "char_of (48 + m) \<noteq> CHR '':''" if "m < 10" for m :: nat
  proof
    assume "char_of (48 + m) = CHR '':''"
    then have "byte_of (char_of (48 + m)) = byte_of CHR '':''" by simp
    then show False unfolding byte_of_digit [OF that] using that by simp
  qed
  from this [of n] this [of "n mod 10"] 1 show ?case by (cases "n < 10") (auto simp: show_nat.simps [of n])
qed

lemma component_append:
  "fingerprint_component v @ a = fingerprint_component w @ b \<longleftrightarrow> v = w \<and> a = b"
proof -
  have "fingerprint_component v @ a = fingerprint_component w @ b \<longleftrightarrow>
      show_nat (length v) @ CHR '':'' # v @ a = show_nat (length w) @ CHR '':'' # w @ b"
    by (simp add: fingerprint_component_def)
  also have "\<dots> \<longleftrightarrow> length v = length w \<and> v @ a = w @ b"
    by (simp add: split_at_mark digits_mark)
  finally show ?thesis by auto
qed

lemma component_not_empty [simp]: "fingerprint_component v \<noteq> []"
  by (simp add: fingerprint_component_def)

lemma binds_input:
  "concat (map (\<lambda>(ordinal, name). fingerprint_component (show_nat ordinal) @ fingerprint_component name) bs) =
   concat (map (\<lambda>(ordinal, name). fingerprint_component (show_nat ordinal) @ fingerprint_component name) cs) \<longleftrightarrow> bs = cs"
  (is "?f bs = ?f cs \<longleftrightarrow> _")
proof (induction bs arbitrary: cs)
  case Nil
  show ?case by (cases cs) (auto simp del: show_nat.simps)
next
  case step: (Cons b bs)
  note IH = step.IH
  obtain i n where b: "b = (i, n)" by (rule prod.exhaust)
  show ?case
  proof (cases cs)
    case (Cons c ds)
    obtain j m where c: "c = (j, m)" by (rule prod.exhaust)
    have "?f (b # bs) = ?f cs \<longleftrightarrow> i = j \<and> n = m \<and> ?f bs = ?f ds"
      unfolding Cons b c list.map concat.simps prod.case append_assoc component_append show_nat_inject by (rule refl)
    then show ?thesis using IH [of ds] unfolding Cons b c by blast
  qed (simp add: b)
qed

text \<open>C34: the bytes the fingerprint of a rendered statement hashes determine the statement and its binds: two
  statements share them only when they are the same.\<close>

theorem fingerprint_input_injective: "fingerprint_input s = fingerprint_input t \<longleftrightarrow> s = t"
  by (cases s; cases t) (simp add: fingerprint_input_def component_append binds_input)

section \<open>Statements\<close>

lemma render_nodes:
  "render_query_expression r (Column c) =
     followed (attempt (quoted r (cr_field c))) (\<lambda>field.
     case cr_relation c of None \<Rightarrow> written field
     | Some relation \<Rightarrow> texts [attempt (quoted r relation), written ''.'', written field])"
  "render_query_expression r (Parameter n) = render_parameter r n None"
  "render_query_expression r (Compare x op y) =
     texts [render_query_expression r x, written '' '', written (comparison_symbol op), written '' '', render_query_expression r y]"
  by (subst render_query_expression.simps, simp add: expression_step_def render_predicate_expression_def)+

lemmas run_rendering = texts_def joined_def followed_def written_def attempt_def scoped_def operation_clauses_def with_clause_def
  distinct_clause_def top_clause_def render_projection_def spatial_encoding_def from_clause_def render_query_relation_def
  sql_server_lock_hints_def clause_of_def list_clause_def render_set_operation_def limit_clause_def offset_clause_def
  lock_clause_def render_parameter_def bind_parameter_def placeholder_text_def show_u64_def is_parameter_def
  render_state_default_def visible_common_tables_def render_query_ordering_def

lemmas run_validation = validate_query_operation_def check_operation_def check_clauses_def
  check_operation_source_def check_source_def query_identifier_def refuse_if_def default_limits_def
  operation_pushes_def derived_pushes_def saturating_add_usize_def structural_nodes_def usize_max_def predicate_def
  list_of_option_def

lemmas run_judgement = judge_probe_positions_def operation_step_def operation_sources_def operation_derived_def
  list_of_option_def scope_of_def source_name_def spatial_arguments_def plain_step_def is_bind_def is_spatial_value_def Let_def

lemma renderer_fields [simp]:
  "rn_dialect (renderer_new d s) = d" "rn_parameter_types (renderer_new d s) n = None"
  "renderer_provider (renderer_new d s) = renderer_dialect_provider d" "rn_evidence (renderer_new d s) = EvCompileOnly"
  by (simp_all add: renderer_new_def renderer_provider_def)

lemma demo_names:
  "quoted (renderer_new DlMysql False) ''a'' = Inr ''`a`''"
  "render_query_source (renderer_new DlMysql False)
     \<lparr>qs_object = \<lparr>or_catalog = None, or_schema = Some ''public'', or_object = ''t''\<rparr>, qs_alias = None\<rparr> = Inr ''`public`.`t`''"
  by code_simp+

lemma demo_body:
  "render_query_inner (renderer_new DlMysql False) demo_query True render_state_default =
     Inr (''SELECT `a` FROM `public`.`t` WHERE `a` = ?'', \<lparr>rst_binds = [(1, ''p'')], rst_scopes = [], rst_outer = {}\<rparr>)"
  by (subst render_query_inner.simps) (simp add: demo_query_def run_rendering render_nodes demo_names)

lemma demo_judged: "judge_probe_positions Mysql EvCompileOnly demo_query = Inr ()"
  by (simp add: demo_query_def run_judgement)

lemma demo_rendered:
  "render_query_with_spatial_encoding (\<lambda>_ _. Inr ()) (renderer_new DlMysql False) demo_query True =
     Inr \<lparr>rsq_sql = ''SELECT `a` FROM `public`.`t` WHERE `a` = ?'', rsq_binds = [(1, ''p'')]\<rparr>"
  by (simp add: render_query_with_spatial_encoding_def render_limits_def demo_query_valid judge_positions_def
      demo_judged demo_body validate_bind_count_def)

theorem rendered_statement_composed_witness:
  "composed (renderer_new DlMysql False) 1 ''SELECT `a` FROM `public`.`t` WHERE `a` = ?'' \<and> query_binds demo_query ''p''"
  using rendered_statement_composed [OF demo_rendered] by simp

theorem placeholders_in_bind_order_witness:
  "laid_out (renderer_new DlMysql False) 0 1 ''SELECT `a` FROM `public`.`t` WHERE `a` = ?''"
proof -
  have "without_nulls_order demo_query"
    by (simp add: without_nulls_order_def demo_query_def visit_tree_control operation_parts_def list_of_option_def
        del: visit_tree.simps)
  then show ?thesis
    using placeholders_in_bind_order [OF demo_rendered] by (simp add: positional_def)
qed

section \<open>Two statements that do not mean the query\<close>

text \<open>\<open>SELECT a FROM public.t ORDER BY :p NULLS FIRST\<close>.\<close>

definition nulls_query :: query_operation where
  "nulls_query = QueryOperation []
     (Some \<lparr>qs_object = \<lparr>or_catalog = None, or_schema = Some ''public'', or_object = ''t''\<rparr>, qs_alias = None\<rparr>) None
     [QueryProjection (Column \<lparr>cr_relation = None, cr_field = ''a''\<rparr>) None] [] None [] None
     [QueryOrdering (NullsOrder (Parameter ''p'') NullsFirst) Asc] False [] [] None None None []"

lemma nulls_body:
  "render_query_inner (renderer_new DlMysql False) nulls_query True render_state_default =
     Inr (''SELECT `a` FROM `public`.`t` ORDER BY (? IS NULL) DESC, ? ASC'',
       \<lparr>rst_binds = [(1, ''p'')], rst_scopes = [], rst_outer = {}\<rparr>)"
  by (subst render_query_inner.simps) (simp add: nulls_query_def run_rendering render_nodes demo_names)

lemma nulls_accepted:
  "validate_query_operation nulls_query default_limits = Inr ()" "judge_probe_positions Mysql EvCompileOnly nulls_query = Inr ()"
  by (simp_all add: nulls_query_def run_validation run_judgement)

text \<open>C38: the MySQL renderer writes the ordered expression twice to place its nulls, so a parameter there leaves two
  placeholders for the one bind it makes, in every such ordering and in the statements the entry point returns.\<close>

theorem nulls_order_repeats_placeholder:
  "render_query_ordering (renderer_new DlMysql s) (render_query_expression (renderer_new DlMysql s))
     (QueryOrdering (NullsOrder (Parameter p) position) direction) st =
     Inr (''(? IS NULL) '' @ (case position of NullsFirst \<Rightarrow> ''DESC'' | NullsLast \<Rightarrow> ''ASC'') @ '', ? ''
            @ (case direction of Asc \<Rightarrow> ''ASC'' | Desc \<Rightarrow> ''DESC''),
          st\<lparr>rst_binds := rst_binds st @ [(Suc (length (rst_binds st)), p)]\<rparr>)
   \<and> render_query (\<lambda>_ _. Inr ()) (renderer_new DlMysql False) nulls_query =
     Inr \<lparr>rsq_sql = ''SELECT `a` FROM `public`.`t` ORDER BY (? IS NULL) DESC, ? ASC'', rsq_binds = [(1, ''p'')]\<rparr>"
proof (rule conjI)
  show "render_query (\<lambda>_ _. Inr ()) (renderer_new DlMysql False) nulls_query =
     Inr \<lparr>rsq_sql = ''SELECT `a` FROM `public`.`t` ORDER BY (? IS NULL) DESC, ? ASC'', rsq_binds = [(1, ''p'')]\<rparr>"
    by (simp add: render_query_def render_query_with_spatial_encoding_def render_limits_def judge_positions_def nulls_accepted
        nulls_body validate_bind_count_def)
qed (simp add: run_rendering render_nodes Let_def)

text \<open>\<open>SELECT a FROM public.t UNION SELECT a FROM public.u\<close>, at most \<open>n\<close> rows of it.\<close>

definition named_query :: "string \<Rightarrow> query_operation query_set_operation list \<Rightarrow> u64 option \<Rightarrow> query_operation" where
  "named_query table sets limit = QueryOperation []
     (Some \<lparr>qs_object = \<lparr>or_catalog = None, or_schema = Some ''public'', or_object = table\<rparr>, qs_alias = None\<rparr>) None
     [QueryProjection (Column \<lparr>cr_relation = None, cr_field = ''a''\<rparr>) None] [] None [] None [] False [] sets limit None None []"

definition union_query :: "u64 \<Rightarrow> query_operation" where
  "union_query n = named_query ''t'' [QuerySetOperation SoUnion False (named_query ''u'' [] None)] (Some n)"

lemma named_accepted:
  "validate_query_operation (union_query n) default_limits = Inr ()"
  "validate_query_operation (union_query n) (default_limits\<lparr>l_max_identifier_bytes := SQL_SERVER_MAX_IDENTIFIER_CHARS\<rparr>) = Inr ()"
  "judge_probe_positions k EvCompileOnly (union_query n) = Inr ()"
  by (simp_all add: union_query_def named_query_def run_validation run_judgement SQL_SERVER_MAX_IDENTIFIER_CHARS_def)

lemma named_names:
  "quoted (renderer_new DlSqlServer False) ''a'' = Inr ''[a]''"
  "render_query_source (renderer_new DlSqlServer False)
     \<lparr>qs_object = \<lparr>or_catalog = None, or_schema = Some ''public'', or_object = ''t''\<rparr>, qs_alias = None\<rparr> = Inr ''[public].[t]''"
  "render_query_source (renderer_new DlSqlServer False)
     \<lparr>qs_object = \<lparr>or_catalog = None, or_schema = Some ''public'', or_object = ''u''\<rparr>, qs_alias = None\<rparr> = Inr ''[public].[u]''"
  "render_query_source (renderer_new DlMysql False)
     \<lparr>qs_object = \<lparr>or_catalog = None, or_schema = Some ''public'', or_object = ''u''\<rparr>, qs_alias = None\<rparr> = Inr ''`public`.`u`''"
  by code_simp+

lemma branch_body:
  "render_query_inner (renderer_new DlSqlServer False) (named_query ''u'' [] None) b st = Inr (''SELECT [a] FROM [public].[u]'', st)"
  "render_query_inner (renderer_new DlMysql False) (named_query ''u'' [] None) b st = Inr (''SELECT `a` FROM `public`.`u`'', st)"
  by (subst render_query_inner.simps, simp add: named_query_def run_rendering render_nodes demo_names named_names)+

lemma union_body:
  "render_query_inner (renderer_new DlSqlServer False) (union_query n) True render_state_default =
     Inr (''SELECT TOP ('' @ show_u64 n @ '') [a] FROM [public].[t] UNION (SELECT [a] FROM [public].[u])'', render_state_default)"
  "render_query_inner (renderer_new DlMysql False) (union_query n) True render_state_default =
     Inr (''SELECT `a` FROM `public`.`t` UNION (SELECT `a` FROM `public`.`u`) LIMIT '' @ show_u64 n, render_state_default)"
  by (subst render_query_inner.simps,
      simp add: union_query_def named_query_def [of "''t''"] branch_body run_rendering render_nodes demo_names named_names)+

text \<open>The texts of consecutive clauses, and the clauses of an operation around its limit.\<close>

lemma texts_Cons_Inr:
  "texts (m # ms) st = Inr (s, st') \<longleftrightarrow>
     (\<exists>a st1 b. m st = Inr (a, st1) \<and> texts ms st1 = Inr (b, st') \<and> s = a @ b)"
  by (auto simp: texts_def followed_def written_def result_simps)

lemma texts_append_Inr:
  "texts (ms @ ns) st = Inr (s, st') \<longleftrightarrow>
     (\<exists>a st1 b. texts ms st = Inr (a, st1) \<and> texts ns st1 = Inr (b, st') \<and> s = a @ b)"
proof (induction ms arbitrary: st s)
  case Nil
  have "texts [] st = Inr ([], st)" for st by (simp add: texts_def followed_def written_def)
  then show ?case by auto
next
  case (Cons m ms)
  show ?case by (simp add: texts_Cons_Inr Cons.IH) (metis append.assoc)
qed

lemma texts_written_Inr: "texts (written x # ms) st = Inr (s, st') \<longleftrightarrow> (\<exists>b. texts ms st = Inr (b, st') \<and> s = x @ b)"
  by (auto simp: texts_Cons_Inr written_def)

definition with_row_limit :: "u64 option \<Rightarrow> query_operation \<Rightarrow> query_operation" where
  "with_row_limit l q =
     (case q of QueryOperation ctes source derived projection joins filters groups having orders once distinct_on sets
          _ offset locking declared \<Rightarrow>
        QueryOperation ctes source derived projection joins filters groups having orders once distinct_on sets
          l offset locking declared)"

text \<open>The first branch of an operation: without its set operations and the ordering of their result.\<close>

definition first_branch :: "query_operation \<Rightarrow> query_operation" where
  "first_branch q =
     (case q of QueryOperation ctes source derived projection joins filters groups having _ once distinct_on _
          limit offset locking declared \<Rightarrow>
        QueryOperation ctes source derived projection joins filters groups having [] once distinct_on []
          limit offset locking declared)"

definition clauses_before_limit :: "renderer \<Rightarrow> query_operation \<Rightarrow> string rendering list" where
  "clauses_before_limit r q =
     [with_clause r (render_query_inner r) (common_table_expressions q), written ''SELECT '',
      distinct_clause r (render_query_expression r) q]"

definition clauses_of_branch :: "renderer \<Rightarrow> query_operation \<Rightarrow> bool \<Rightarrow> string rendering list" where
  "clauses_of_branch r q encode =
     [joined '', '' (map (render_projection r (render_query_expression r) encode) (op_projection q)),
      from_clause r (render_query_inner r) q,
      texts (map (render_join r (render_query_expression r) (render_query_inner r) (op_locking q)) (op_joins q)),
      clause_of '' WHERE '' (render_query_expression r) (op_filter q),
      list_clause '' GROUP BY '' (render_query_expression r) (op_group_by q),
      clause_of '' HAVING '' (render_query_expression r) (op_having q)]"

definition clauses_of_sets :: "renderer \<Rightarrow> query_operation \<Rightarrow> bool \<Rightarrow> string rendering list" where
  "clauses_of_sets r q encode =
     [texts (map (render_set_operation (render_query_inner r) encode) (op_set_operations q)),
      list_clause '' ORDER BY '' (render_query_ordering r (render_query_expression r)) (op_order_by q)]"

definition renderable_projection :: "renderer \<Rightarrow> query_operation \<Rightarrow> bool" where
  "renderable_projection r q \<longleftrightarrow> op_projection q \<noteq> []
     \<and> \<not> (rn_dialect r = DlDb2 \<and> list_ex (\<lambda>item. is_parameter (qp_expression item)) (op_projection q))"

lemma render_limited:
  assumes "op_row_offset q = None" "op_locking q = None"
  shows "render_query_inner r q encode st = Inr (s, st') \<longleftrightarrow> renderable_projection r q \<and>
    (\<exists>a st1 b st2 c st3. texts (clauses_before_limit r q) (st\<lparr>rst_scopes := scope_of q (visible_common_tables st) # rst_scopes st\<rparr>) = Inr (a, st1)
       \<and> texts (clauses_of_branch r q encode) st1 = Inr (b, st2) \<and> texts (clauses_of_sets r q encode) st2 = Inr (c, st3)
       \<and> st' = st3\<lparr>rst_scopes := tl (rst_scopes st3)\<rparr> \<and> s = a @ top_clause r q @ b @ c @ limit_clause r q)"
proof (cases "renderable_projection r q")
  case True
  have "operation_clauses r (render_query_expression r) (render_query_inner r) q encode =
      texts (clauses_before_limit r q @ written (top_clause r q) # clauses_of_branch r q encode
        @ clauses_of_sets r q encode @ [written (limit_clause r q), written (offset_clause r q), lock_clause r q])"
    using True by (auto simp add: operation_clauses_def renderable_projection_def clauses_before_limit_def
        clauses_of_branch_def clauses_of_sets_def)
  moreover have "offset_clause r q = []" "lock_clause r q = written []"
    using assms by (simp_all add: offset_clause_def lock_clause_def)
  moreover have "texts [] st = Inr ([], st)" for st by (simp add: texts_def followed_def written_def)
  ultimately show ?thesis
    using True
    by (subst render_query_inner.simps)
      (auto simp: scoped_def result_simps texts_append_Inr texts_written_Inr)
next
  case False
  then show ?thesis
    by (subst render_query_inner.simps)
      (auto simp: scoped_def operation_clauses_def renderable_projection_def invalid_def refused_def failed_def result_simps)
qed

lemma with_row_limit_selectors:
  "common_table_expressions (with_row_limit l q) = common_table_expressions q" "op_source (with_row_limit l q) = op_source q"
  "op_derived_source (with_row_limit l q) = op_derived_source q" "op_projection (with_row_limit l q) = op_projection q"
  "op_joins (with_row_limit l q) = op_joins q" "op_filter (with_row_limit l q) = op_filter q"
  "op_group_by (with_row_limit l q) = op_group_by q" "op_having (with_row_limit l q) = op_having q"
  "op_order_by (with_row_limit l q) = op_order_by q" "op_distinct (with_row_limit l q) = op_distinct q"
  "op_distinct_on (with_row_limit l q) = op_distinct_on q" "op_set_operations (with_row_limit l q) = op_set_operations q"
  "op_row_limit (with_row_limit l q) = l" "op_row_offset (with_row_limit l q) = op_row_offset q"
  "op_locking (with_row_limit l q) = op_locking q"
  by (cases q; simp add: with_row_limit_def)+

lemma first_branch_selectors:
  "common_table_expressions (first_branch q) = common_table_expressions q" "op_source (first_branch q) = op_source q"
  "op_derived_source (first_branch q) = op_derived_source q" "op_projection (first_branch q) = op_projection q"
  "op_joins (first_branch q) = op_joins q" "op_filter (first_branch q) = op_filter q"
  "op_group_by (first_branch q) = op_group_by q" "op_having (first_branch q) = op_having q"
  "op_order_by (first_branch q) = []" "op_distinct (first_branch q) = op_distinct q"
  "op_distinct_on (first_branch q) = op_distinct_on q" "op_set_operations (first_branch q) = []"
  "op_row_limit (first_branch q) = op_row_limit q" "op_row_offset (first_branch q) = op_row_offset q"
  "op_locking (first_branch q) = op_locking q"
  by (cases q; simp add: first_branch_def)+

lemma with_row_limit_fields:
  "renderable_projection r (with_row_limit l q) = renderable_projection r q"
  "scope_of (with_row_limit l q) v = scope_of q v"
  "clauses_before_limit r (with_row_limit l q) = clauses_before_limit r q"
  "clauses_of_branch r (with_row_limit l q) encode = clauses_of_branch r q encode"
  "clauses_of_sets r (with_row_limit l q) encode = clauses_of_sets r q encode"
  by (simp_all add: with_row_limit_selectors renderable_projection_def scope_of_def clauses_before_limit_def
      clauses_of_branch_def clauses_of_sets_def distinct_clause_def from_clause_def
      operation_sources_def operation_derived_def)

lemma first_branch_fields:
  "renderable_projection r (first_branch q) = renderable_projection r q"
  "scope_of (first_branch q) v = scope_of q v" "clauses_before_limit r (first_branch q) = clauses_before_limit r q"
  "clauses_of_branch r (first_branch q) encode = clauses_of_branch r q encode"
  "texts (clauses_of_sets r (first_branch q) encode) st = Inr ([], st)"
  by (simp_all add: first_branch_selectors renderable_projection_def scope_of_def clauses_before_limit_def
      clauses_of_branch_def clauses_of_sets_def distinct_clause_def from_clause_def list_clause_def texts_def followed_def
      written_def operation_sources_def operation_derived_def)

text \<open>C39: where the row limit of a query is written, for any query without an offset and a lock and any dialect.  Every
  dialect but SQL Server writes it after everything else, so after the last branch of a set operation; SQL Server
  writes it as the \<open>TOP\<close> of the first branch, and the text of the set operations and of the ordering that follow is
  that of the query without a limit.  Last, the two texts of one union.\<close>

theorem union_limit_placement:
  assumes "op_row_offset q = None" "op_locking q = None"
    and unlimited: "render_query_inner r (with_row_limit None q) encode st = Inr (s, st')"
  shows "(rn_dialect r \<noteq> DlSqlServer \<longrightarrow>
      render_query_inner r (with_row_limit (Some n) q) encode st =
        Inr (s @ (if rn_dialect r \<in> {DlOracle, DlDb2} then '' FETCH FIRST '' @ show_u64 n @ '' ROWS ONLY''
                  else '' LIMIT '' @ show_u64 n), st'))
    \<and> (rn_dialect r = DlSqlServer \<longrightarrow>
      (\<exists>head tail rest st1. s = head @ tail @ rest
        \<and> render_query_inner r (first_branch (with_row_limit None q)) encode st = Inr (head @ tail, st1)
        \<and> render_query_inner r (first_branch (with_row_limit (Some n) q)) encode st =
            Inr (head @ ''TOP ('' @ show_u64 n @ '') '' @ tail, st1)
        \<and> render_query_inner r (with_row_limit (Some n) q) encode st =
            Inr (head @ ''TOP ('' @ show_u64 n @ '') '' @ tail @ rest, st')))
    \<and> render_query (\<lambda>_ _. Inr ()) (renderer_new DlMysql False) (union_query n) =
     Inr \<lparr>rsq_sql = ''SELECT `a` FROM `public`.`t` UNION (SELECT `a` FROM `public`.`u`) LIMIT '' @ show_u64 n, rsq_binds = []\<rparr>
    \<and> render_query (\<lambda>_ _. Inr ()) (renderer_new DlSqlServer False) (union_query n) =
     Inr \<lparr>rsq_sql = ''SELECT TOP ('' @ show_u64 n @ '') [a] FROM [public].[t] UNION (SELECT [a] FROM [public].[u])'', rsq_binds = []\<rparr>"
proof -
  note fields = with_row_limit_fields first_branch_fields with_row_limit_selectors first_branch_selectors
  have rendered: "render_query_inner r (with_row_limit l q) encode st = Inr (s', t) \<longleftrightarrow> renderable_projection r q \<and>
    (\<exists>a st1 b st2 c st3. texts (clauses_before_limit r q) (st\<lparr>rst_scopes := scope_of q (visible_common_tables st) # rst_scopes st\<rparr>) = Inr (a, st1)
       \<and> texts (clauses_of_branch r q encode) st1 = Inr (b, st2) \<and> texts (clauses_of_sets r q encode) st2 = Inr (c, st3)
       \<and> t = st3\<lparr>rst_scopes := tl (rst_scopes st3)\<rparr>
       \<and> s' = a @ top_clause r (with_row_limit l q) @ b @ c @ limit_clause r (with_row_limit l q))" for l s' t
    by (subst render_limited) (simp_all add: fields assms(1,2))
  have first: "render_query_inner r (first_branch (with_row_limit l q)) encode st = Inr (s', t) \<longleftrightarrow> renderable_projection r q \<and>
    (\<exists>a st1 b st2. texts (clauses_before_limit r q) (st\<lparr>rst_scopes := scope_of q (visible_common_tables st) # rst_scopes st\<rparr>) = Inr (a, st1)
       \<and> texts (clauses_of_branch r q encode) st1 = Inr (b, st2)
       \<and> t = st2\<lparr>rst_scopes := tl (rst_scopes st2)\<rparr>
       \<and> s' = a @ top_clause r (first_branch (with_row_limit l q)) @ b @ limit_clause r (first_branch (with_row_limit l q)))" for l s' t
    by (subst render_limited) (auto simp: fields assms(1,2))
  obtain a st1 b st2 c st3 where parts: "renderable_projection r q"
      "texts (clauses_before_limit r q) (st\<lparr>rst_scopes := scope_of q (visible_common_tables st) # rst_scopes st\<rparr>) = Inr (a, st1)"
      "texts (clauses_of_branch r q encode) st1 = Inr (b, st2)" "texts (clauses_of_sets r q encode) st2 = Inr (c, st3)"
      "st' = st3\<lparr>rst_scopes := tl (rst_scopes st3)\<rparr>"
    and s: "s = a @ b @ c"
    using unlimited unfolding rendered by (auto simp: top_clause_def limit_clause_def fields)
  have limited: "render_query_inner r (with_row_limit (Some n) q) encode st =
      Inr (a @ top_clause r (with_row_limit (Some n) q) @ b @ c @ limit_clause r (with_row_limit (Some n) q), st')"
    unfolding rendered using parts by blast
  have branch: "render_query_inner r (first_branch (with_row_limit l q)) encode st =
      Inr (a @ top_clause r (first_branch (with_row_limit l q)) @ b @ limit_clause r (first_branch (with_row_limit l q)),
        st2\<lparr>rst_scopes := tl (rst_scopes st2)\<rparr>)" for l
    unfolding first using parts by blast
  have union: "render_query (\<lambda>_ _. Inr ()) (renderer_new DlMysql False) (union_query n) =
     Inr \<lparr>rsq_sql = ''SELECT `a` FROM `public`.`t` UNION (SELECT `a` FROM `public`.`u`) LIMIT '' @ show_u64 n, rsq_binds = []\<rparr>"
   "render_query (\<lambda>_ _. Inr ()) (renderer_new DlSqlServer False) (union_query n) =
     Inr \<lparr>rsq_sql = ''SELECT TOP ('' @ show_u64 n @ '') [a] FROM [public].[t] UNION (SELECT [a] FROM [public].[u])'', rsq_binds = []\<rparr>"
    by (simp_all add: render_query_def render_query_with_spatial_encoding_def render_limits_def judge_positions_def named_accepted
        union_body validate_bind_count_def) (simp_all add: render_state_default_def)
  have "rn_dialect r \<noteq> DlSqlServer \<longrightarrow>
      render_query_inner r (with_row_limit (Some n) q) encode st =
        Inr (s @ (if rn_dialect r \<in> {DlOracle, DlDb2} then '' FETCH FIRST '' @ show_u64 n @ '' ROWS ONLY''
                  else '' LIMIT '' @ show_u64 n), st')"
    using limited s assms(1) by (simp add: top_clause_def limit_clause_def fields)
  moreover have "rn_dialect r = DlSqlServer \<longrightarrow>
      (\<exists>head tail rest st1. s = head @ tail @ rest
        \<and> render_query_inner r (first_branch (with_row_limit None q)) encode st = Inr (head @ tail, st1)
        \<and> render_query_inner r (first_branch (with_row_limit (Some n) q)) encode st =
            Inr (head @ ''TOP ('' @ show_u64 n @ '') '' @ tail, st1)
        \<and> render_query_inner r (with_row_limit (Some n) q) encode st =
            Inr (head @ ''TOP ('' @ show_u64 n @ '') '' @ tail @ rest, st'))"
    using limited s assms(1) branch [of None] branch [of "Some n"]
    by (intro impI exI [of _ a] exI [of _ b] exI [of _ c] exI [of _ "st2\<lparr>rst_scopes := tl (rst_scopes st2)\<rparr>"])
      (simp add: top_clause_def limit_clause_def fields)
  ultimately show ?thesis using union by blast
qed

text \<open>The union limited to five rows, from its text without a limit.\<close>

lemma unlimited_body:
  "render_query_inner (renderer_new DlMysql False) (with_row_limit None (union_query 5)) True render_state_default =
     Inr (''SELECT `a` FROM `public`.`t` UNION (SELECT `a` FROM `public`.`u`)'', render_state_default)"
  by (subst render_query_inner.simps,
      simp add: with_row_limit_def union_query_def named_query_def [of "''t''"] branch_body run_rendering render_nodes
        demo_names named_names)+

theorem union_limit_placement_witness:
  "render_query_inner (renderer_new DlMysql False) (with_row_limit (Some 5) (union_query 5)) True render_state_default =
     Inr (''SELECT `a` FROM `public`.`t` UNION (SELECT `a` FROM `public`.`u`)'' @ '' LIMIT '' @ show_u64 5, render_state_default)"
proof -
  have "op_row_offset (union_query 5) = None" "op_locking (union_query 5) = None"
    by (simp_all add: union_query_def named_query_def)
  from union_limit_placement [OF this unlimited_body, of 5]
  show ?thesis by (simp add: renderer_new_def del: append.simps)
qed

end
