(* ===== verification/Spec2Isabelle.thy ===== *)
theory Spec2Isabelle
  imports Prelude Error_Model Row_Diagnostics Row_Diagnostics_Proofs Outcome Sql_Lexer Sql_Policy
    Identifier Mysql_Policy Mysql_Policy_Proofs Ewkb Ewkb_Proofs Ewkb_Replay Ewkb_Srid
    Resource Cancel_Tokens Cancel_Proofs Cancel_Wakeups
    Worklist Plan Relational Query_Validation Query_Proofs
    Row Checkpoint Checkpoint_Proofs Arrow Write_Keys Write_Keys_Proofs Store_Rewrite Store_Rewrite_Proofs
    Write_Admission Spatial_Policy Spatial_Probe Typed_Parameter Portable Portable_Proofs Portable_Shape
    Relational_Mutation Probe_Rule Probe_Judge Session_Context Row_Visibility Ddl_Residue Retry Transaction Caller_Sql
    Pg_Errors Pg_Transaction Pg_Transaction_Proofs
    Sql_Dialect Sql_Renderer Sql_Words Sql_Texts Sql_Spatial_Texts Sql_Query_Texts Sql_Render_Proofs
begin

text \<open>
  Verification library for \<open>plenora-database-tools\<close>, a Rust workspace that reads, writes and inspects
  relational databases (PostgreSQL, MySQL, MariaDB, SQL Server, Oracle, Db2) through provider adapters.

  The crate \<open>plenora-database-core\<close> (\<open>src/crates/plenora-database-core/src\<close>) holds everything that is
  the same for every provider: the plan, the relational query, the error and outcome contracts, the gates of
  caller SQL, the rules every write obeys, budgets and cancellation.  \<open>plenora-database-sql\<close> renders relational
  queries to the SQL of a dialect, \<open>plenora-database-engine\<close> runs operations, and a provider adapter
  (\<open>plenora-db-postgres\<close> and its siblings) asks the core before it sends anything and hands the core's documents
  back to the caller.  This library models the core, the renderer, the retry executor of the engine and the
  transactions of the PostgreSQL adapter.

  \<^bold>\<open>Theories and sources.\<close>  File names without a directory are of the core.
  \<^item> \<open>Prelude\<close>: \<open>Result\<close> as a sum with the error on the left and \<open>?\<close> as \<open>and_then\<close>, checked machine
    arithmetic, text as UTF-8 bytes, list and decimal lemmas, the collections \<open>result_simps\<close>,
    \<open>checked_simps\<close>, \<open>sat_intros\<close>, \<open>fails_intros\<close>.
  \<^item> \<open>Error_Model\<close> (\<open>error.rs\<close>): the axes of an error, its constructors, the rules that move the axes
    (locale \<open>axis_rule\<close>) and the public projection; the locale \<open>validator\<close> is the contract of every
    validator below (it decides a predicate, and refuses with an error that claims no effect and no retry).
  \<^item> \<open>Row_Diagnostics\<close>, \<open>Row_Diagnostics_Proofs\<close> (\<open>row_diagnostics.rs\<close>): the document of a rejected row,
    its validator, the write and read trackers, the row-by-row diagnostic write.
  \<^item> \<open>Outcome\<close> (\<open>outcome.rs\<close>, \<open>limits.rs\<close>, \<open>loss.rs\<close>): write outcomes, plan limits, loss reports.
  \<^item> \<open>Sql_Lexer\<close>, \<open>Sql_Policy\<close> (\<open>native_query_policy.rs\<close>), \<open>Mysql_Policy\<close>, \<open>Mysql_Policy_Proofs\<close>
    (\<open>mysql_caller_policy.rs\<close>): the lexer of caller SQL in its eight readings and the gates built on it.
  \<^item> \<open>Identifier\<close> (\<open>identifier.rs\<close>): validation and quoting, also against the lexer.
  \<^item> \<open>Ewkb\<close>, \<open>Ewkb_Proofs\<close>, \<open>Ewkb_Replay\<close>, \<open>Ewkb_Srid\<close> (\<open>ewkb.rs\<close>): the bounded geometry scanner and its
    two rewriting operations; it accepts no input with bytes after the geometry.
  \<^item> \<open>Resource\<close> (\<open>resource.rs\<close>): budgets and leases, with every interleaving of the compare-and-swap loops.
  \<^item> \<open>Cancel_Tokens\<close>, \<open>Cancel_Proofs\<close>, \<open>Cancel_Wakeups\<close> (\<open>cancellation.rs\<close>): the tree of cancellation
    tokens, the deadline worker and the wakers, as a step relation and as whole operations.
  \<^item> \<open>Plan\<close> (\<open>plan.rs\<close>), \<open>Worklist\<close>, \<open>Relational\<close>, \<open>Query_Validation\<close>, \<open>Query_Proofs\<close> (\<open>relational.rs\<close>):
    the plan, the query tree, the iterative walk with the children pushed on its stack (last child first) and the
    iterative validator.
  \<^item> \<open>Row\<close> (\<open>row.rs\<close>, \<open>provider.rs\<close>), \<open>Checkpoint\<close>, \<open>Checkpoint_Proofs\<close> (\<open>checkpoint.rs\<close>): bound values, rows and
    resumable keyset reads, with the meaning of a filter, of an offset and of a row limit.
  \<^item> \<open>Arrow\<close>: the cells, arrays and batches that the write rules read.  \<open>Write_Keys\<close>, \<open>Write_Keys_Proofs\<close>
    (\<open>write_keys.rs\<close>): rule K, no key twice.  \<open>Store_Rewrite\<close>, \<open>Store_Rewrite_Proofs\<close> (\<open>store_rewrite.rs\<close>): rule S, no
    silent rewrite.  \<open>Write_Admission\<close> (\<open>write_admission.rs\<close>): rule A, no pair of types on trust.
    \<open>Row_Visibility\<close> (\<open>row_visibility.rs\<close>, \<open>primary_key.rs\<close>): rule R, no write whose counts would be false.
  \<^item> \<open>Spatial_Policy\<close> (\<open>spatial_predicate.rs\<close>, \<open>spatial_policy.rs\<close>), \<open>Spatial_Probe\<close>, \<open>Probe_Rule\<close>, \<open>Probe_Judge\<close>
    (\<open>spatial_probe.rs\<close>): which spatial predicates a provider admits, the SRID of a bound geometry, and rule P, where
    such a probe may stand in a query, with the loop that judges a whole query.
  \<^item> \<open>Typed_Parameter\<close> (\<open>typed_parameter.rs\<close>): the one form of a typed parameter in each dialect.
  \<^item> \<open>Portable\<close>, \<open>Portable_Proofs\<close>, \<open>Portable_Shape\<close> (\<open>portable/mod.rs\<close>, \<open>portable/compiler.rs\<close>): the portable
    statements and their compiler: every value is bound, in order, and none reaches the text.
    \<open>Relational_Mutation\<close> (\<open>relational_mutation.rs\<close>): the relational mutations lowered to them.
  \<^item> \<open>Session_Context\<close> (\<open>session_context.rs\<close>), \<open>Ddl_Residue\<close> (\<open>ddl_residue.rs\<close>), \<open>Transaction\<close> (\<open>transaction.rs\<close>,
    \<open>graph.rs\<close>), \<open>Caller_Sql\<close> (\<open>caller_sql.rs\<close>): the context of a session (built by insertions or read by serde, and
    the check MySQL makes of its keys), the register of abandoned tables, the data of transactions, and the wrapper
    through which all SQL of the caller goes (locale \<open>marked_scope\<close>: what the wrapper relies on in an adapter).
  \<^item> \<open>Retry\<close> (\<open>plenora-database-engine/src/retry.rs\<close>): the retry loop, followed through a log of its attempts.
  \<^item> \<open>Pg_Errors\<close>, \<open>Pg_Transaction\<close>, \<open>Pg_Transaction_Proofs\<close> (\<open>plenora-db-postgres/src\<close>: \<open>error.rs\<close>, \<open>transaction/\<close>,
    \<open>pool.rs\<close>, \<open>control.rs\<close>): the classification of driver errors and the transaction scope of PostgreSQL, which
    interprets the locale of \<open>Caller_Sql\<close>.
  \<^item> \<open>Sql_Dialect\<close>, \<open>Sql_Renderer\<close> (\<open>plenora-database-sql/src\<close>: \<open>lib.rs\<close>, \<open>filter.rs\<close>): the names of the dialects, the
    lowering of filters, and the renderer, a function on the state of the render that returns an error or a text with
    the next state.  \<open>Sql_Words\<close>, \<open>Sql_Texts\<close>, \<open>Sql_Spatial_Texts\<close>, \<open>Sql_Query_Texts\<close> prove once, in the locale
    \<open>text_rules\<close>, that every method keeps a relation between the names it binds and the text it writes;
    \<open>Sql_Render_Proofs\<close> interprets it twice, for what a statement is made of and for where its placeholders stand.

  \<^bold>\<open>Bounds and termination.\<close>  Loops over a stack (\<open>Worklist\<close>, \<open>Query_Validation\<close>, \<open>Probe_Judge\<close>) end because every item
  pushed is smaller than the one popped; the two mutually recursive functions of the renderer by the size of the
  query; the scanners and lexers because each round consumes a byte; the retry loop by the attempts left.  No
  definition runs on fuel.  Machine integers keep their width (\<open>checked_add\<close>, \<open>saturating_add\<close>) wherever the source
  computes with them.

  \<^bold>\<open>Parameters.\<close>  What the sources only call is an argument of the definitions: the driver and its server, the runtime's
  clock, the rendering of JSON by \<open>serde_json\<close>, SHA-256, \<open>Debug\<close> of a string, the codecs of parameters and rows, the
  catalogue reads, and in the renderer the judgement of scalar operands (\<open>spatial_operand.rs\<close>).

  \<^bold>\<open>Not modelled.\<close>  Of the core: the rules over scalar operands (\<open>spatial_operand.rs\<close>), over values that meet an operand
  (\<open>operand_admission.rs\<close>), over exact casts (\<open>cast_table.rs\<close>) and over Arrow metadata (\<open>field_contract.rs\<close>), which are
  self-contained and can be added beside the rules modelled here; the catalogues of spatial functions and
  capabilities, which are data; serialization derived by serde (but for the session context, which serde reads unchecked), display forms, digests, metrics and tracing.  The
  rest of the engine and of the provider adapters is I/O around the rules modelled here (connections, catalogue
  queries, row decoding, bulk loads), as are the command line, the Python bindings and the test kit.
\<close>

end
